(* ===== verification/Kernel_Prelude.thy ===== *)
theory Kernel_Prelude
  imports Main "HOL-Library.Word"
begin

text \<open>
  What every component of the kernel model shares: the names of the machine integer types, the
  faults a C++ operation can run into, the result type built from them, the cell memory in which
  the allocators thread their free lists, and the list-segment predicate that abstracts a singly
  linked list of that memory to a HOL list.
\<close>

unbundle bit_operations_syntax

named_theorems result_simps \<open>evaluation of results: binding, memory access, assertions\<close>

section \<open>Machine types\<close>

type_synonym u8 = "8 word"
type_synonym u16 = "16 word"
type_synonym u32 = "32 word"
type_synonym u64 = "64 word"

text \<open>
  An address is a 64-bit word (\<open>std::uintptr_t\<close>); the null pointer is 0.  The memory holds one
  64-bit cell per address: the \<open>next\<close> word the allocators store at the start of a free page or a
  free object slot.  Slots are at least eight bytes long, so two cells the code uses never overlap.
\<close>

type_synonym addr = u64
type_synonym heap = "addr \<Rightarrow> u64"

section \<open>Faults and results\<close>

text \<open>
  \<open>NullDeref\<close>: an access through the null pointer. \<open>AssertFailed\<close>: a failed \<open>kassert\<close>, which
  halts the processor. \<open>OutOfBounds\<close>: an access past the end of an array. \<open>Diverges\<close>: a loop that
  never ends (see \<open>walk_fuel\<close>).
\<close>

datatype fault = NullDeref | AssertFailed | OutOfBounds | Diverges

type_synonym 'a result = "fault + 'a"

definition rbind :: "'a result \<Rightarrow> ('a \<Rightarrow> 'b result) \<Rightarrow> 'b result" where
  "rbind r f = (case r of Inl e \<Rightarrow> Inl e | Inr x \<Rightarrow> f x)"

lemma rbind_Inl [simp, result_simps]: "rbind (Inl e) f = Inl e"
  by (simp add: rbind_def)

lemma rbind_Inr [simp, result_simps]: "rbind (Inr x) f = f x"
  by (simp add: rbind_def)

lemma rbind_eq_Inr: "rbind r f = Inr y \<longleftrightarrow> (\<exists>x. r = Inr x \<and> f x = Inr y)"
  by (cases r) auto

definition rassert :: "bool \<Rightarrow> unit result" where
  "rassert P = (if P then Inr () else Inl AssertFailed)"

lemma rassert_True [simp, result_simps]: "rassert True = Inr ()"
  by (simp add: rassert_def)

lemma rassert_eq_Inr [simp]: "rassert P = Inr u \<longleftrightarrow> P"
  by (simp add: rassert_def)

definition load :: "heap \<Rightarrow> addr \<Rightarrow> u64 result" where
  "load m p = (if p = 0 then Inl NullDeref else Inr (m p))"

definition store :: "heap \<Rightarrow> addr \<Rightarrow> u64 \<Rightarrow> heap result" where
  "store m p v = (if p = 0 then Inl NullDeref else Inr (m(p := v)))"

lemma load_nonnull [simp, result_simps]: "p \<noteq> 0 \<Longrightarrow> load m p = Inr (m p)"
  by (simp add: load_def)

lemma store_nonnull [simp, result_simps]: "p \<noteq> 0 \<Longrightarrow> store m p v = Inr (m(p := v))"
  by (simp add: store_def)

lemma load_null [simp, result_simps]: "load m 0 = Inl NullDeref"
  by (simp add: load_def)

lemma store_null [simp, result_simps]: "store m 0 v = Inl NullDeref"
  by (simp add: store_def)

text \<open>A pointer that is dereferenced without a memory cell of its own in the model.\<close>

definition guard_ptr :: "addr \<Rightarrow> unit result" where
  "guard_ptr p = (if p = 0 then Inl NullDeref else Inr ())"

lemma guard_ptr_simps [simp, result_simps]:
  "guard_ptr 0 = Inl NullDeref" "p \<noteq> 0 \<Longrightarrow> guard_ptr p = Inr ()"
  by (simp_all add: guard_ptr_def)

text \<open>
  The bound on the loops that walk memory.  Such a loop is driven by one 64-bit address and does
  not change the cells it reads, so a run of more than \<open>2 ^ 64\<close> steps has met an address twice and
  never ends: running out of this fuel is the divergence of the C++ loop.
\<close>

definition walk_fuel :: nat where
  "walk_fuel = 2 ^ 64"

lemma distinct_length_walk_fuel:
  fixes xs :: "addr list"
  assumes "distinct xs"
  shows "length xs \<le> walk_fuel"
proof -
  have "length xs = card (set xs)" using assms by (simp add: distinct_card)
  also have "\<dots> \<le> card (UNIV :: addr set)" by (rule card_mono) auto
  also have "\<dots> = walk_fuel" by (simp add: walk_fuel_def card_word)
  finally show ?thesis .
qed

section \<open>Singly linked lists in memory\<close>

primrec lseg :: "heap \<Rightarrow> addr \<Rightarrow> addr list \<Rightarrow> addr \<Rightarrow> bool" where
  "lseg m p [] q \<longleftrightarrow> p = q"
| "lseg m p (x # xs) q \<longleftrightarrow> p = x \<and> x \<noteq> 0 \<and> lseg m (m x) xs q"

abbreviation chain :: "heap \<Rightarrow> addr \<Rightarrow> addr list \<Rightarrow> bool" where
  "chain m p xs \<equiv> lseg m p xs 0"

lemma lseg_append [simp]:
  "lseg m p (xs @ ys) q \<longleftrightarrow> (\<exists>r. lseg m p xs r \<and> lseg m r ys q)"
  by (induction xs arbitrary: p) auto

lemma lseg_upd [simp]: "u \<notin> set xs \<Longrightarrow> lseg (m(u := v)) p xs q = lseg m p xs q"
  by (induction xs arbitrary: p) auto

lemma lseg_cong: "(\<And>x. x \<in> set xs \<Longrightarrow> m x = m' x) \<Longrightarrow> lseg m p xs q = lseg m' p xs q"
  by (induction xs arbitrary: p) auto

lemma lseg_nonzero: "lseg m p xs q \<Longrightarrow> 0 \<notin> set xs"
  by (induction xs arbitrary: p) auto

lemma chain_null [simp]: "chain m 0 xs \<longleftrightarrow> xs = []"
  by (cases xs) auto

lemma chain_nonnull: "p \<noteq> 0 \<Longrightarrow> chain m p xs \<longleftrightarrow> (\<exists>ys. xs = p # ys \<and> chain m (m p) ys)"
  by (cases xs) auto

lemma chain_unique: "chain m p xs \<Longrightarrow> chain m p ys \<Longrightarrow> xs = ys"
  by (induction xs arbitrary: p ys) (auto simp: chain_nonnull)

lemma chain_distinct: "chain m p xs \<Longrightarrow> distinct xs"
proof (induction xs arbitrary: p)
  case (Cons x xs)
  have "x \<notin> set xs"
  proof
    assume "x \<in> set xs"
    then obtain as bs where xs: "xs = as @ x # bs" by (auto simp: in_set_conv_decomp)
    with Cons.prems have "chain m (m x) (as @ x # bs)" "chain m (m x) bs" by auto
    then have "as @ x # bs = bs" by (rule chain_unique)
    then have "length (as @ x # bs) = length bs" by (rule arg_cong)
    then show False by simp
  qed
  with Cons show ?case by auto
qed simp

lemma walk_fuel_Suc: "\<exists>n. walk_fuel = Suc n"
  by (simp add: walk_fuel_def not0_implies_Suc)

lemma chain_length_fuel: "chain m p xs \<Longrightarrow> length xs \<le> walk_fuel"
  by (rule distinct_length_walk_fuel) (rule chain_distinct)

text \<open>Splicing a cell into a list behind the cell \<open>c\<close>.\<close>

lemma lseg_splice:
  assumes "lseg m p (as @ [c]) r" "lseg m r bs q" "b \<noteq> 0" "b \<notin> set (as @ c # bs)"
    "distinct (as @ c # bs)"
  shows "lseg (m(c := b, b := r)) p (as @ c # b # bs) q"
  using assms by auto

lemma insort_split:
  fixes b :: "'a::linorder"
  assumes "sorted xs"
  shows "insort b xs = takeWhile (\<lambda>x. x < b) xs @ b # dropWhile (\<lambda>x. x < b) xs"
  using assms by (induction xs) auto

section \<open>Words\<close>

text \<open>Word-aligned bit reasoning: two words are equal when their bits are.\<close>

lemma word_bits_eqI: "(\<And>n. n < LENGTH('a) \<Longrightarrow> bit a n = bit b n) \<Longrightarrow> a = b"
  for a b :: "'a::len word"
  by (rule bit_word_eqI)

lemma unat_u64_less: "unat (x :: u64) < 18446744073709551616"
  using unsigned_less [where ?'a = nat, of x] by simp

lemma unat_add_no_wrap:
  fixes a b :: "'a::len word"
  assumes "unat a + unat b < 2 ^ LENGTH('a)"
  shows "unat (a + b) = unat a + unat b"
  using assms by (simp add: unat_word_ariths)

end
