(* ===== verification/Memory_Map.thy ===== *)
theory Memory_Map
  imports Kernel_Prelude
begin

text \<open>
  The physical memory map (\<open>kernel/src/memmap\<close>): the table of at most 20 regions the kernel copies
  from the boot loader, the total it keeps of the useable bytes, and the queries over the table.
  The boot loader's response is a parameter: a list of (base, length, type code) triples.
\<close>

section \<open>Entries\<close>

datatype MemType = Useable | Reserved | AcpiReclaimable | AcpiNVS | BadMemory
  | BootLoaderReclaimable | Kernel | FrameBuffer | Empty | Unknown

definition ConvertLimineType :: "u64 \<Rightarrow> MemType" where
  "ConvertLimineType limineCode =
     (if limineCode = 0 then Useable
      else if limineCode = 1 then Reserved
      else if limineCode = 2 then AcpiReclaimable
      else if limineCode = 3 then AcpiNVS
      else if limineCode = 4 then BadMemory
      else if limineCode = 5 then BootLoaderReclaimable
      else if limineCode = 6 then Kernel
      else if limineCode = 7 then FrameBuffer
      else Unknown)"

fun MemTypeToString :: "MemType \<Rightarrow> string" where
  "MemTypeToString Useable = ''Useable''"
| "MemTypeToString Reserved = ''Reserved''"
| "MemTypeToString AcpiReclaimable = ''AcpiReclaimable''"
| "MemTypeToString AcpiNVS = ''AcpiNVS''"
| "MemTypeToString BadMemory = ''BadMemory''"
| "MemTypeToString BootLoaderReclaimable = ''BootLoaderReclaimable''"
| "MemTypeToString Kernel = ''Kernel''"
| "MemTypeToString FrameBuffer = ''FrameBuffer''"
| "MemTypeToString Empty = ''Empty''"
| "MemTypeToString Unknown = ''Unknown''"

record MemoryMapEntry =
  me_base :: u64
  me_length :: u64
  me_type :: MemType

abbreviation empty_entry :: MemoryMapEntry where
  "empty_entry \<equiv> \<lparr>me_base = 0, me_length = 0, me_type = Empty\<rparr>"

abbreviation useable :: "MemoryMapEntry \<Rightarrow> bool" where
  "useable e \<equiv> me_type e = Useable"

section \<open>The table and its initialisation\<close>

record MemoryMap =
  m_entries :: "MemoryMapEntry list"
  m_totalUseableBytes :: u64

definition MAX_ENTRIES :: nat where
  "MAX_ENTRIES = 20"

definition Entries :: nat where
  "Entries = MAX_ENTRIES"

definition Entry :: "MemoryMap \<Rightarrow> nat \<Rightarrow> MemoryMapEntry result" where
  "Entry mm index = (if index < MAX_ENTRIES then Inr (m_entries mm ! index) else Inl OutOfBounds)"

fun useable_total :: "MemoryMapEntry list \<Rightarrow> u64 \<Rightarrow> u64" where
  "useable_total [] acc = acc"
| "useable_total (e # es) acc =
     useable_total es (if useable e then acc + me_length e else acc)"

definition InitialiseUseableData :: "MemoryMap \<Rightarrow> MemoryMap" where
  "InitialiseUseableData mm = mm\<lparr>m_totalUseableBytes := useable_total (m_entries mm) 0\<rparr>"

fun populate :: "MemoryMapEntry list \<Rightarrow> nat \<Rightarrow> MemoryMapEntry list \<Rightarrow> MemoryMapEntry list" where
  "populate es i [] = es"
| "populate es i (e # src) = populate (es[i := e]) (Suc i) src"

definition Init_list :: "MemoryMap \<Rightarrow> MemoryMapEntry list \<Rightarrow> MemoryMap result" where
  "Init_list mm src =
     rbind (rassert (length src < MAX_ENTRIES)) (\<lambda>_.
       Inr (InitialiseUseableData
              (mm\<lparr>m_entries := populate (replicate MAX_ENTRIES empty_entry) 0 src\<rparr>)))"

text \<open>The boot loader's table: each type code is decoded, an undecodable one halts the kernel.\<close>

fun convert_limine :: "(u64 \<times> u64 \<times> u64) list \<Rightarrow> MemoryMapEntry list result" where
  "convert_limine [] = Inr []"
| "convert_limine ((b, l, code) # rest) =
     rbind (rassert (ConvertLimineType code \<noteq> Unknown)) (\<lambda>_.
       rbind (convert_limine rest) (\<lambda>es.
         Inr (\<lparr>me_base = b, me_length = l, me_type = ConvertLimineType code\<rparr> # es)))"

definition LimineInitialise :: "MemoryMap \<Rightarrow> (u64 \<times> u64 \<times> u64) list option \<Rightarrow> MemoryMap result" where
  "LimineInitialise mm response =
     (case response of
        None \<Rightarrow> Inl AssertFailed
      | Some entries \<Rightarrow>
          rbind (rassert (length entries < MAX_ENTRIES)) (\<lambda>_.
            rbind (convert_limine entries) (\<lambda>es.
              Inr (mm\<lparr>m_entries := populate (m_entries mm) 0 es\<rparr>))))"

definition Init_limine :: "MemoryMap \<Rightarrow> (u64 \<times> u64 \<times> u64) list option \<Rightarrow> MemoryMap result" where
  "Init_limine mm response =
     rbind (LimineInitialise (mm\<lparr>m_entries := replicate MAX_ENTRIES empty_entry\<rparr>) response)
       (\<lambda>mm'. Inr (InitialiseUseableData mm'))"

section \<open>Queries\<close>

definition TotalUseablePageFrames :: "u64 \<Rightarrow> MemoryMap \<Rightarrow> u64" where
  "TotalUseablePageFrames pageSize mm = m_totalUseableBytes mm div pageSize"

text \<open>The scan for the first empty entry; the address is taken from the entry before it.\<close>

fun highest_scan :: "MemoryMapEntry list \<Rightarrow> nat \<Rightarrow> nat \<Rightarrow> u64 result" where
  "highest_scan es i 0 = Inr 0"
| "highest_scan es i (Suc n) =
     (if me_type (es ! i) \<noteq> Empty then highest_scan es (Suc i) n
      else if i = 0 then Inl OutOfBounds
      else Inr (me_base (es ! (i - 1)) + me_length (es ! (i - 1)) - 1))"

definition HighestUseableAddress :: "MemoryMap \<Rightarrow> u64 result" where
  "HighestUseableAddress mm = highest_scan (m_entries mm) 0 MAX_ENTRIES"

definition LowestUseableAddress :: "MemoryMap \<Rightarrow> u64" where
  "LowestUseableAddress mm = me_base (m_entries mm ! 0)"

definition longest_step :: "MemoryMapEntry list \<Rightarrow> nat \<Rightarrow> nat \<Rightarrow> nat" where
  "longest_step es longest i =
     (if useable (es ! i) \<and> me_length (es ! longest) < me_length (es ! i) then i else longest)"

definition LongestUseableBase :: "MemoryMap \<Rightarrow> u64" where
  "LongestUseableBase mm =
     me_base (m_entries mm ! foldl (longest_step (m_entries mm)) 0 [0..<MAX_ENTRIES])"

fun useable_count :: "MemoryMapEntry list \<Rightarrow> u64 \<Rightarrow> u64" where
  "useable_count [] count = count"
| "useable_count (e # es) count = useable_count es (if useable e then count + 1 else count)"

definition UseableEntries :: "MemoryMap \<Rightarrow> u64" where
  "UseableEntries mm = useable_count (m_entries mm) 0"

text \<open>
  \<open>PrintPageFrames\<close> writes one line per page of every useable region; the model returns the lines as
  (index, first byte, last byte).  The loop over a region is bounded by \<open>walk_fuel\<close>.
\<close>

fun print_region :: "nat \<Rightarrow> u64 \<Rightarrow> u64 \<Rightarrow> u64 \<Rightarrow> (u64 \<times> u64 \<times> u64) list result" where
  "print_region 0 pindex paddr limit = Inl Diverges"
| "print_region (Suc n) pindex paddr limit =
     (if paddr < limit
      then rbind (print_region n (pindex + 1) (paddr + 0x1000) limit)
             (\<lambda>ls. Inr ((pindex, paddr, paddr + 0x1000 - 1) # ls))
      else Inr [])"

fun print_frames :: "MemoryMapEntry list \<Rightarrow> u64 \<Rightarrow> (u64 \<times> u64 \<times> u64) list result" where
  "print_frames [] pindex = Inr []"
| "print_frames (e # es) pindex =
     (if useable e
      then rbind (print_region walk_fuel pindex (me_base e) (me_base e + me_length e)) (\<lambda>ls.
             rbind (print_frames es (pindex + of_nat (length ls))) (\<lambda>ls'. Inr (ls @ ls')))
      else print_frames es pindex)"

definition PrintPageFrames :: "MemoryMap \<Rightarrow> (u64 \<times> u64 \<times> u64) list result" where
  "PrintPageFrames mm = print_frames (m_entries mm) 0"

section \<open>Initialisation fills the table\<close>

lemma length_populate [simp]: "length (populate es i src) = length es"
  by (induction es i src rule: populate.induct) auto

lemma populate_eq:
  "i + length src \<le> length es \<Longrightarrow> populate es i src = take i es @ src @ drop (i + length src) es"
proof (induction es i src rule: populate.induct)
  case (2 es i e src)
  then have "i < length es" by simp
  with 2 show ?case by (simp add: take_Suc_conv_app_nth upd_conv_take_nth_drop add.commute)
qed simp

lemma useable_total_eq:
  "useable_total es t = t + sum_list (map me_length (filter useable es))"
  by (induction es t rule: useable_total.induct) (auto simp: add.assoc)

lemma useable_count_eq: "useable_count es c = c + of_nat (length (filter useable es))"
  by (induction es c rule: useable_count.induct) (auto simp: add.assoc)

lemma init_entries:
  "length src < MAX_ENTRIES \<Longrightarrow>
   populate (replicate MAX_ENTRIES empty_entry) 0 src
     = src @ replicate (MAX_ENTRIES - length src) empty_entry"
  by (simp add: populate_eq)

section \<open>The longest useable region\<close>

text \<open>
  Loop invariant of the scan: the candidate is a useable entry of the prefix, at least as long as
  every useable entry seen so far.
\<close>

definition longest_ok :: "MemoryMapEntry list \<Rightarrow> nat \<Rightarrow> nat \<Rightarrow> bool" where
  "longest_ok es k j \<longleftrightarrow> j < length es \<and> useable (es ! j) \<and>
     (\<forall>i<k. useable (es ! i) \<longrightarrow> me_length (es ! i) \<le> me_length (es ! j))"

lemma longest_step_ok:
  "longest_ok es k j \<Longrightarrow> k < length es \<Longrightarrow> longest_ok es (Suc k) (longest_step es j k)"
  by (auto simp: longest_ok_def longest_step_def less_Suc_eq)

lemma longest_fold_ok:
  "useable (es ! 0) \<Longrightarrow> 0 < length es \<Longrightarrow> n \<le> length es \<Longrightarrow>
   longest_ok es n (foldl (longest_step es) 0 [0..<n])"
proof (induction n)
  case (Suc n)
  then show ?case by (simp add: longest_step_ok)
qed (simp add: longest_ok_def)

lemma highest_scan_skip:
  "\<forall>j<k. me_type (es ! (i + j)) \<noteq> Empty \<Longrightarrow> k \<le> n \<Longrightarrow>
   highest_scan es i n = highest_scan es (i + k) (n - k)"
proof (induction k arbitrary: i n)
  case (Suc k)
  then obtain n' where n: "n = Suc n'" by (cases n) auto
  from Suc.prems have e0: "me_type (es ! i) \<noteq> Empty" by force
  from Suc.prems n have "\<forall>j<k. me_type (es ! (Suc i + j)) \<noteq> Empty" "k \<le> n'" by auto
  then have "highest_scan es (Suc i) n' = highest_scan es (Suc i + k) (n' - k)"
    by (rule Suc.IH)
  with e0 n show ?case by simp
qed simp

lemma Init_list_cases:
  "Init_list mm src =
     (if length src < 20
      then Inr (mm\<lparr>m_entries := src @ replicate (20 - length src) empty_entry,
                   m_totalUseableBytes :=
                     useable_total (src @ replicate (20 - length src) empty_entry) 0\<rparr>)
      else Inl AssertFailed)"
  using init_entries [of src]
  by (simp add: Init_list_def rassert_def InitialiseUseableData_def MAX_ENTRIES_def)

section \<open>Properties\<close>

text \<open>
  Building the map from a list of regions halts the kernel when there are 20 or more of them;
  otherwise the table is the list padded with empty entries to exactly 20, and the recorded total is
  the (64-bit) sum of the lengths of the useable regions.
\<close>

theorem Init_list_table:
  "Init_list mm src =
     (if length src < 20
      then Inr (mm\<lparr>m_entries := src @ replicate (20 - length src) empty_entry,
                   m_totalUseableBytes := sum_list (map me_length (filter useable src))\<rparr>)
      else Inl AssertFailed)"
proof -
  have "filter useable (replicate n empty_entry) = []" for n by (induction n) auto
  then show ?thesis by (simp add: Init_list_cases useable_total_eq)
qed

text \<open>
  When the first region of the table is useable, \<open>LongestUseableBase\<close> is the base of a useable
  region that no useable region of the table exceeds in length.
\<close>

theorem LongestUseableBase_longest:
  assumes "length (m_entries mm) = 20" "useable (m_entries mm ! 0)"
  shows "\<exists>e \<in> set (m_entries mm). useable e \<and> LongestUseableBase mm = me_base e \<and>
           (\<forall>e' \<in> set (m_entries mm). useable e' \<longrightarrow> me_length e' \<le> me_length e)"
proof -
  let ?es = "m_entries mm"
  let ?j = "foldl (longest_step ?es) 0 [0..<20]"
  have "longest_ok ?es 20 ?j" using assms by (intro longest_fold_ok) auto
  then show ?thesis
    using assms(1)
    by (intro bexI [of _ "?es ! ?j"])
       (auto simp: longest_ok_def LongestUseableBase_def MAX_ENTRIES_def in_set_conv_nth)
qed

definition example_map :: "MemoryMap" where
  "example_map = \<lparr>m_entries =
       [\<lparr>me_base = 0x1000, me_length = 0x2000, me_type = Useable\<rparr>,
        \<lparr>me_base = 0x8000, me_length = 0x5000, me_type = Useable\<rparr>,
        \<lparr>me_base = 0xf000, me_length = 0x9000, me_type = Reserved\<rparr>] @ replicate 17 empty_entry,
     m_totalUseableBytes = 0x7000\<rparr>"

theorem LongestUseableBase_longest_witness:
  "\<exists>e \<in> set (m_entries example_map). useable e \<and> LongestUseableBase example_map = me_base e \<and>
     (\<forall>e' \<in> set (m_entries example_map). useable e' \<longrightarrow> me_length e' \<le> me_length e)"
  by (rule LongestUseableBase_longest) (simp_all add: example_map_def)

text \<open>
  \<open>HighestUseableAddress\<close> of a table built from a non-empty list of regions is the last byte of
  the last region, whatever the type of that region: it need not be useable memory.
\<close>

theorem HighestUseableAddress_last_region:
  assumes "Init_list mm src = Inr mm'" "src \<noteq> []" "\<forall>e \<in> set src. me_type e \<noteq> Empty"
  shows "HighestUseableAddress mm' = Inr (me_base (last src) + me_length (last src) - 1)"
proof -
  let ?n = "length src"
  from assms(1) have n: "?n < 20" and es: "m_entries mm' = src @ replicate (20 - ?n) empty_entry"
    by (auto simp: Init_list_cases split: if_splits)
  have "highest_scan (m_entries mm') 0 20 = highest_scan (m_entries mm') (0 + ?n) (20 - ?n)"
    using n assms(3) by (intro highest_scan_skip) (auto simp: es nth_append)
  moreover from n obtain k where "20 - ?n = Suc k" by (cases "20 - ?n") auto
  ultimately show ?thesis
    using assms(2)
    by (simp add: HighestUseableAddress_def MAX_ENTRIES_def es nth_append last_conv_nth)
qed

theorem HighestUseableAddress_last_region_witness:
  "\<exists>mm'. Init_list example_map [\<lparr>me_base = 0x1000, me_length = 0x3000, me_type = Reserved\<rparr>] = Inr mm' \<and>
     HighestUseableAddress mm' = Inr 0x3fff"
  using HighestUseableAddress_last_region
          [of example_map "[\<lparr>me_base = 0x1000, me_length = 0x3000, me_type = Reserved\<rparr>]"]
  by (simp add: Init_list_cases)

end
