(* ===== verification/Page_Freelist.thy ===== *)
theory Page_Freelist
  imports Memory_Map
begin

text \<open>
  The physical page allocator (\<open>kernel/src/ram/page_allocators/freelist.hpp\<close>).  Free pages are
  threaded into two singly linked lists, one for pages below the 32-bit cutoff and one above; the
  link is the first word of the free page itself.  The state is the memory, the two list heads and
  the two page counters.  The header of the class promises that each list is strictly ascending,
  acyclic and without duplicates; \<open>ascending\<close> is that invariant.

  \<open>Aii::Memset\<close> comes from a library outside the repository and is a parameter of the operations
  that call it.
\<close>

section \<open>State\<close>

record freelist =
  mem :: heap
  m_head :: addr
  m_lowHead :: addr
  m_freePagesTop :: u64
  m_freePagesLow :: u64

datatype RamOptions = Z | LOW

definition CUTOFF :: u64 where "CUTOFF = 0xFFFFFFFF"

definition PAGESIZE :: u64 where "PAGESIZE = 0x1000"

type_synonym memset = "heap \<Rightarrow> addr \<Rightarrow> u8 \<Rightarrow> u64 \<Rightarrow> heap"

definition NextFree :: "freelist \<Rightarrow> addr" where "NextFree s = m_head s"

definition NextFreeLow :: "freelist \<Rightarrow> addr" where "NextFreeLow s = m_lowHead s"

definition NextFreeOf :: "heap \<Rightarrow> addr \<Rightarrow> addr result" where "NextFreeOf m pagebase = load m pagebase"

section \<open>Initialisation\<close>

text \<open>
  \<open>SetupRegion\<close> links the pages of one region and returns the address of the last one; the loop
  advances \<open>current\<close> by a page while it is below \<open>base + length\<close> (both wrap at 64 bits).
\<close>

fun region_loop :: "nat \<Rightarrow> heap \<Rightarrow> addr \<Rightarrow> addr \<Rightarrow> (heap \<times> addr) result" where
  "region_loop 0 m current limit = Inl Diverges"
| "region_loop (Suc n) m current limit =
     (if current < limit
      then rbind (if current + PAGESIZE < limit then store m current (current + PAGESIZE) else Inr m)
             (\<lambda>m'. region_loop n m' (current + PAGESIZE) limit)
      else Inr (m, current))"

definition SetupRegion :: "heap \<Rightarrow> addr \<Rightarrow> u64 \<Rightarrow> addr \<Rightarrow> (heap \<times> addr) result" where
  "SetupRegion m base len lastAddr =
     rbind (if lastAddr \<noteq> 0 then store m lastAddr base else Inr m) (\<lambda>m'.
       rbind (region_loop walk_fuel m' base (base + len)) (\<lambda>(m'', current).
         Inr (m'', current - PAGESIZE)))"

text \<open>
  The loop over the memory map, shared by the two initialisers: \<open>sel\<close> is the cutoff test.  The
  accumulator is the memory, the head (0 before the first region), the first-iteration flag, the
  address of the last page linked so far, and the page counter.
\<close>

record init_acc =
  ia_mem :: heap
  ia_head :: addr
  ia_first :: bool
  ia_last :: addr
  ia_pages :: u64

definition init_step :: "(u64 \<Rightarrow> bool) \<Rightarrow> init_acc \<Rightarrow> MemoryMapEntry \<Rightarrow> init_acc result" where
  "init_step sel a e =
     (if sel (me_base e + me_length e) \<and> useable e
      then rbind (SetupRegion (ia_mem a) (me_base e) (me_length e) (if ia_first a then 0 else ia_last a))
             (\<lambda>(m', l).
               Inr \<lparr>ia_mem = m', ia_head = (if ia_first a then me_base e else ia_head a),
                     ia_first = False, ia_last = l,
                     ia_pages = ia_pages a + me_length e div PAGESIZE\<rparr>)
      else Inr a)"

fun init_loop :: "(u64 \<Rightarrow> bool) \<Rightarrow> init_acc \<Rightarrow> MemoryMapEntry list \<Rightarrow> init_acc result" where
  "init_loop sel a [] = Inr a"
| "init_loop sel a (e # es) = rbind (init_step sel a e) (\<lambda>a'. init_loop sel a' es)"

definition InitialiseList :: "MemoryMap \<Rightarrow> freelist \<Rightarrow> freelist result" where
  "InitialiseList mm s =
     rbind (init_loop (\<lambda>end. CUTOFF < end)
              \<lparr>ia_mem = mem s, ia_head = m_head s, ia_first = True, ia_last = 0,
               ia_pages = m_freePagesTop s\<rparr> (m_entries mm))
       (\<lambda>a. if ia_last a = 0
            then Inr (s\<lparr>mem := ia_mem a, m_head := 0, m_freePagesTop := ia_pages a\<rparr>)
            else rbind (store (ia_mem a) (ia_last a) 0) (\<lambda>m'.
                   Inr (s\<lparr>mem := m', m_head := ia_head a, m_freePagesTop := ia_pages a\<rparr>)))"

definition InitialiseLowList :: "MemoryMap \<Rightarrow> freelist \<Rightarrow> freelist result" where
  "InitialiseLowList mm s =
     rbind (init_loop (\<lambda>end. end \<le> CUTOFF)
              \<lparr>ia_mem = mem s, ia_head = m_lowHead s, ia_first = True, ia_last = 0,
               ia_pages = m_freePagesLow s\<rparr> (m_entries mm))
       (\<lambda>a. if ia_last a = 0
            then Inr (s\<lparr>mem := ia_mem a, m_lowHead := 0, m_freePagesLow := ia_pages a\<rparr>)
            else rbind (store (ia_mem a) (ia_last a) 0) (\<lambda>m'.
                   Inr (s\<lparr>mem := m', m_lowHead := ia_head a, m_freePagesLow := ia_pages a\<rparr>)))"

definition Freelist_Init :: "MemoryMap \<Rightarrow> freelist \<Rightarrow> freelist result" where
  "Freelist_Init mm s =
     rbind (InitialiseList mm (s\<lparr>m_freePagesTop := 0, m_freePagesLow := 0\<rparr>)) (InitialiseLowList mm)"

section \<open>Allocation of one page\<close>

text \<open>The list head is passed by reference: the operation returns memory, new head and result.\<close>

definition AllocatePageImpl :: "heap \<Rightarrow> addr \<Rightarrow> (heap \<times> addr \<times> addr) result" where
  "AllocatePageImpl m head =
     (let allocd = head;
          head' = (if allocd \<noteq> 0 then m head else 0)
      in rbind (store m allocd 0) (\<lambda>m'. Inr (m', head', allocd)))"

definition AllocatePage :: "freelist \<Rightarrow> (freelist \<times> addr) result" where
  "AllocatePage s =
     (if m_head s \<noteq> 0
      then rbind (AllocatePageImpl (mem s) (m_head s)) (\<lambda>(m', h, p).
             Inr (s\<lparr>mem := m', m_head := h, m_freePagesTop := m_freePagesTop s - 1\<rparr>, p))
      else if m_lowHead s \<noteq> 0
      then rbind (AllocatePageImpl (mem s) (m_lowHead s)) (\<lambda>(m', h, p).
             Inr (s\<lparr>mem := m', m_lowHead := h, m_freePagesLow := m_freePagesLow s - 1\<rparr>, p))
      else Inr (s, 0))"

definition AllocatePageOpt :: "memset \<Rightarrow> RamOptions \<Rightarrow> freelist \<Rightarrow> (freelist \<times> addr) result" where
  "AllocatePageOpt memset options s =
     rbind (if options = LOW
            then rbind (AllocatePageImpl (mem s) (m_lowHead s)) (\<lambda>(m', h, p).
                   Inr (s\<lparr>mem := m', m_lowHead := h\<rparr>, p))
            else rbind (AllocatePageImpl (mem s) (m_head s)) (\<lambda>(m', h, p).
                   Inr (s\<lparr>mem := m', m_head := h\<rparr>, p)))
       (\<lambda>(s', allocd).
          if allocd \<noteq> 0 \<and> options = Z
          then Inr (s'\<lparr>mem := memset (mem s') allocd 0 PAGESIZE\<rparr>, allocd)
          else Inr (s', allocd))"

section \<open>Extraction of a run of pages\<close>

text \<open>\<open>pages\<close> steps along the list from \<open>end\<close>.\<close>

fun advance :: "heap \<Rightarrow> nat \<Rightarrow> addr \<Rightarrow> addr result" where
  "advance m 0 p = Inr p"
| "advance m (Suc n) p = rbind (NextFreeOf m p) (advance m n)"

fun extract_walk :: "nat \<Rightarrow> heap \<Rightarrow> addr \<Rightarrow> addr \<Rightarrow> addr \<Rightarrow> (addr \<times> addr) result" where
  "extract_walk 0 m pageaddr current next = Inl Diverges"
| "extract_walk (Suc n) m pageaddr current next =
     (if next < pageaddr
      then rbind (load m next) (\<lambda>next'. extract_walk n m pageaddr next next')
      else Inr (current, next))"

definition ExtractImpl :: "heap \<Rightarrow> addr \<Rightarrow> addr \<Rightarrow> u32 \<Rightarrow> (heap \<times> addr) result" where
  "ExtractImpl m head pageaddr pages =
     (let current = head in
      if current = 0 then Inr (m, head)
      else rbind (if current = pageaddr then advance m (unat pages) pageaddr else Inr head) (\<lambda>head'.
        rbind (load m current) (\<lambda>next.
          if next = 0 then Inr (m, head')
          else rbind (extract_walk walk_fuel m pageaddr current next) (\<lambda>(current, next).
            if pageaddr < next then Inr (m, head')
            else rbind (rassert (next = pageaddr)) (\<lambda>_.
              rbind (advance m (unat pages) pageaddr) (\<lambda>end.
                rbind (store m current end) (\<lambda>m'. Inr (m', head'))))))))"

definition Extract :: "addr \<Rightarrow> u32 \<Rightarrow> freelist \<Rightarrow> freelist result" where
  "Extract pageaddr pages s =
     (if pageaddr \<le> 0xFFFFFFFF
      then rbind (ExtractImpl (mem s) (m_lowHead s) pageaddr pages) (\<lambda>(m', h).
             Inr (s\<lparr>mem := m', m_lowHead := h\<rparr>))
      else rbind (ExtractImpl (mem s) (m_head s) pageaddr pages) (\<lambda>(m', h).
             Inr (s\<lparr>mem := m', m_head := h\<rparr>)))"

section \<open>Allocation of contiguous pages\<close>

text \<open>
  The search loop: \<open>count\<close> pages are known to be contiguous from \<open>allocBase\<close> to \<open>currentEntry\<close>.
  The result is the base of a run of \<open>pages\<close> pages, or 0 when the list ends first.
\<close>

fun run_search :: "nat \<Rightarrow> heap \<Rightarrow> nat \<Rightarrow> nat \<Rightarrow> addr \<Rightarrow> addr \<Rightarrow> addr \<Rightarrow> addr result" where
  "run_search 0 m pages count allocBase currentEntry nextEntry = Inl Diverges"
| "run_search (Suc n) m pages count allocBase currentEntry nextEntry =
     (if count < pages
      then if currentEntry + PAGESIZE = nextEntry \<and> Suc count = pages
           then Inr allocBase
           else
             (let count' = (if currentEntry + PAGESIZE = nextEntry then Suc count else 1);
                  base' = (if currentEntry + PAGESIZE = nextEntry then allocBase else nextEntry)
              in rbind (load m currentEntry) (\<lambda>current'.
                   if current' = 0 then Inr 0
                   else rbind (load m nextEntry) (\<lambda>next'.
                     if next' = 0 then Inr 0
                     else run_search n m pages count' base' current' next')))
      else Inr allocBase)"

definition AllocatePagesImpl :: "heap \<Rightarrow> addr \<Rightarrow> u32 \<Rightarrow> (heap \<times> addr \<times> addr) result" where
  "AllocatePagesImpl m head pages =
     (if head = 0 then Inr (m, head, 0)
      else rbind (load m head) (\<lambda>nextEntry.
        if nextEntry = 0 then Inr (m, head, 0)
        else rbind (run_search walk_fuel m (unat pages) 1 head head nextEntry) (\<lambda>allocBase.
          if allocBase = 0 then Inr (m, head, 0)
          else rbind (ExtractImpl m head allocBase pages) (\<lambda>(m', head').
            Inr (m', head', allocBase)))))"

definition AllocatePages :: "u32 \<Rightarrow> freelist \<Rightarrow> (freelist \<times> addr) result" where
  "AllocatePages pages s =
     rbind (AllocatePagesImpl (mem s) (m_head s) pages) (\<lambda>(m', h, p).
       Inr (s\<lparr>mem := m', m_head := h\<rparr>, p))"

definition AllocatePagesOpt :: "memset \<Rightarrow> u32 \<Rightarrow> RamOptions \<Rightarrow> freelist \<Rightarrow> (freelist \<times> addr) result" where
  "AllocatePagesOpt memset pages options s =
     rbind (if options = LOW
            then rbind (AllocatePagesImpl (mem s) (m_lowHead s) pages) (\<lambda>(m', h, p).
                   Inr (s\<lparr>mem := m', m_lowHead := h\<rparr>, p))
            else rbind (AllocatePagesImpl (mem s) (m_head s) pages) (\<lambda>(m', h, p).
                   Inr (s\<lparr>mem := m', m_head := h\<rparr>, p)))
       (\<lambda>(s', allocd).
          if allocd \<noteq> 0 \<and> options = Z
          then Inr (s'\<lparr>mem := memset (mem s') allocd 0 (ucast (pages * ucast PAGESIZE))\<rparr>, allocd)
          else Inr (s', allocd))"

section \<open>Deallocation\<close>

fun dealloc_walk :: "nat \<Rightarrow> heap \<Rightarrow> addr \<Rightarrow> addr \<Rightarrow> addr \<Rightarrow> (addr \<times> addr) result" where
  "dealloc_walk 0 m allocd current next = Inl Diverges"
| "dealloc_walk (Suc n) m allocd current next =
     (if next < allocd
      then rbind (load m next) (\<lambda>next'.
             if next' = 0 then Inr (next, next') else dealloc_walk n m allocd next next')
      else Inr (current, next))"

definition DeallocPageImpl :: "heap \<Rightarrow> addr \<Rightarrow> addr \<Rightarrow> (heap \<times> addr) result" where
  "DeallocPageImpl m head base =
     (let allocd = base in
      if head = 0 then rbind (store m allocd 0) (\<lambda>m'. Inr (m', allocd))
      else if allocd < head then rbind (store m allocd head) (\<lambda>m'. Inr (m', allocd))
      else rbind (load m head) (\<lambda>next.
        if next = 0 then rbind (store m head allocd) (\<lambda>m'. Inr (m', head))
        else rbind (rassert (head < allocd)) (\<lambda>_.
          rbind (dealloc_walk walk_fuel m allocd head next) (\<lambda>(current, next).
            rbind (store m current allocd) (\<lambda>m'.
              rbind (store m' allocd next) (\<lambda>m''. Inr (m'', head)))))))"

definition DeallocPage :: "addr \<Rightarrow> freelist \<Rightarrow> freelist result" where
  "DeallocPage base s =
     (if base = 0 then Inr s
      else if base \<le> CUTOFF
      then rbind (DeallocPageImpl (mem s) (m_lowHead s) base) (\<lambda>(m', h).
             Inr (s\<lparr>mem := m', m_lowHead := h, m_freePagesLow := m_freePagesLow s + 1\<rparr>))
      else rbind (DeallocPageImpl (mem s) (m_head s) base) (\<lambda>(m', h).
             Inr (s\<lparr>mem := m', m_head := h, m_freePagesTop := m_freePagesTop s + 1\<rparr>)))"

end
