(* ===== verification/Page_Freelist_Init.thy ===== *)
theory Page_Freelist_Init
  imports Page_Freelist
begin

text \<open>
  Initialisation of the page allocator: on a memory map whose useable regions are page multiples,
  disjoint and in ascending order, \<open>Freelist_Init\<close> never faults and leaves exactly the pages of the
  map in the two lists.  \<open>freelist_ok\<close> is the allocator's invariant.
\<close>

section \<open>The pages of a region\<close>

primrec pages_from :: "addr \<Rightarrow> nat \<Rightarrow> addr list" where
  "pages_from b 0 = []"
| "pages_from b (Suc k) = b # pages_from (b + PAGESIZE) k"

lemma pages_from_numeral [simp]:
  "pages_from b (numeral k) = b # pages_from (b + PAGESIZE) (pred_numeral k)"
  by (simp add: numeral_eq_Suc)

definition region_pages :: "MemoryMapEntry \<Rightarrow> addr list" where
  "region_pages e = pages_from (me_base e) (unat (me_length e) div 0x1000)"

abbreviation ascending :: "addr list \<Rightarrow> bool" where
  "ascending \<equiv> sorted_wrt (<)"

lemma ascending_distinct: "ascending xs \<Longrightarrow> distinct xs"
  by (induction xs) auto

lemma unat_PAGESIZE [simp]: "unat PAGESIZE = 4096"
  by (simp add: PAGESIZE_def)

lemma unat_add_PAGESIZE:
  "unat b + 4096 < 18446744073709551616 \<Longrightarrow> unat (b + PAGESIZE) = unat b + 4096"
  by (simp add: unat_add_no_wrap)

lemma length_pages_from [simp]: "length (pages_from b k) = k"
  by (induction k arbitrary: b) auto

lemma pages_from_range:
  "unat b + k * 4096 < 18446744073709551616 \<Longrightarrow> x \<in> set (pages_from b k) \<Longrightarrow>
   unat b \<le> unat x \<and> unat x + 4096 \<le> unat b + k * 4096"
proof (induction k arbitrary: b)
  case (Suc k)
  then have "unat (b + PAGESIZE) = unat b + 4096" by (intro unat_add_PAGESIZE) simp
  with Suc.prems Suc.IH [of "b + PAGESIZE"] show ?case by auto
qed simp

lemma ascending_pages_from:
  "unat b + k * 4096 < 18446744073709551616 \<Longrightarrow> ascending (pages_from b k)"
proof (induction k arbitrary: b)
  case (Suc k)
  then have u: "unat (b + PAGESIZE) = unat b + 4096" by (intro unat_add_PAGESIZE) simp
  have "b < x" if "x \<in> set (pages_from (b + PAGESIZE) k)" for x
    using pages_from_range [of "b + PAGESIZE" k x] that u Suc.prems
    by (simp add: word_less_nat_alt)
  with Suc.IH [of "b + PAGESIZE"] u Suc.prems show ?case by simp
qed simp

lemma region_loop_links:
  assumes "unat limit = unat b + Suc j * 4096" "b \<noteq> 0" "Suc j < n"
  shows "\<exists>m'. region_loop n m b limit = Inr (m', limit) \<and>
           lseg m' b (pages_from b j) (limit - PAGESIZE) \<and>
           (\<forall>x. x \<notin> set (pages_from b j) \<longrightarrow> m' x = m x)"
  using assms
proof (induction j arbitrary: n m b)
  case 0
  have lim: "b + PAGESIZE = limit"
    using 0 unat_u64_less [of limit] by (simp add: word_unat_eq_iff unat_add_PAGESIZE)
  obtain n' where n: "n = Suc (Suc n')" using 0 by (cases n; cases "n - 1") auto
  have "b < limit" using 0 by (simp add: word_less_nat_alt)
  with n lim show ?case by auto
next
  case (Suc j)
  have "unat limit < 18446744073709551616" using unat_u64_less [of limit] by simp
  with Suc.prems have u: "unat (b + PAGESIZE) = unat b + 4096"
    by (intro unat_add_PAGESIZE) simp
  obtain n' where n: "n = Suc n'" using Suc.prems by (cases n) auto
  have nz: "b + PAGESIZE \<noteq> 0" using u by (metis add_is_0 unat_0 zero_neq_numeral)
  have "\<exists>m'. region_loop n' (m(b := b + PAGESIZE)) (b + PAGESIZE) limit = Inr (m', limit) \<and>
           lseg m' (b + PAGESIZE) (pages_from (b + PAGESIZE) j) (limit - PAGESIZE) \<and>
           (\<forall>x. x \<notin> set (pages_from (b + PAGESIZE) j) \<longrightarrow> m' x = (m(b := b + PAGESIZE)) x)"
    using Suc.prems u nz n by (intro Suc.IH) auto
  then obtain m' where m': "region_loop n' (m(b := b + PAGESIZE)) (b + PAGESIZE) limit = Inr (m', limit)"
    "lseg m' (b + PAGESIZE) (pages_from (b + PAGESIZE) j) (limit - PAGESIZE)"
    "\<And>x. x \<notin> set (pages_from (b + PAGESIZE) j) \<Longrightarrow> m' x = (m(b := b + PAGESIZE)) x"
    by auto
  have b: "b \<notin> set (pages_from (b + PAGESIZE) j)"
    using pages_from_range [of "b + PAGESIZE" j b] u Suc.prems \<open>unat limit < 18446744073709551616\<close> by auto
  have "b < limit" "b + PAGESIZE < limit" using Suc.prems u by (auto simp: word_less_nat_alt)
  with n m' b Suc.prems(2) show ?case by auto
qed


section \<open>Initialisation builds the two lists\<close>

fun regions_ok :: "nat \<Rightarrow> MemoryMapEntry list \<Rightarrow> bool" where
  "regions_ok lo [] = True"
| "regions_ok lo (e # es) =
     (lo \<le> unat (me_base e) \<and> 0 < unat (me_length e) \<and> 0x1000 dvd unat (me_length e) \<and>
      unat (me_base e) + unat (me_length e) < 0x10000000000000000 \<and>
      regions_ok (unat (me_base e) + unat (me_length e)) es)"

definition all_pages :: "MemoryMapEntry list \<Rightarrow> addr list" where
  "all_pages es = concat (map region_pages es)"

lemma all_pages_simps [simp]:
  "all_pages [] = []" "all_pages (e # es) = region_pages e @ all_pages es"
  "all_pages (es @ es') = all_pages es @ all_pages es'"
  by (simp_all add: all_pages_def)

lemma regions_ok_mono: "regions_ok lo es \<Longrightarrow> lo' \<le> lo \<Longrightarrow> regions_ok lo' es"
  by (cases es) auto

lemma regions_ok_filter: "regions_ok lo es \<Longrightarrow> regions_ok lo (filter P es)"
proof (induction es arbitrary: lo)
  case (Cons e es)
  then have "regions_ok (unat (me_base e) + unat (me_length e)) (filter P es)" by simp
  with Cons.prems show ?case by (auto elim: regions_ok_mono)
qed simp

lemma pages_from_snoc:
  "pages_from b (Suc j) = pages_from b j @ [b + of_nat j * PAGESIZE]"
proof (induction j arbitrary: b)
  case (Suc j)
  have "pages_from b (Suc (Suc j)) = b # pages_from (b + PAGESIZE) (Suc j)" by simp
  also have "\<dots> = b # pages_from (b + PAGESIZE) j @ [b + PAGESIZE + of_nat j * PAGESIZE]"
    by (simp only: Suc.IH)
  also have "\<dots> = pages_from b (Suc j) @ [b + of_nat (Suc j) * PAGESIZE]"
    by (simp add: distrib_right add.assoc)
  finally show ?case .
qed simp

lemma region_pages_split:
  assumes "regions_ok lo (e # es)"
  obtains j where "unat (me_base e + me_length e) = unat (me_base e) + Suc j * 4096"
    "region_pages e = pages_from (me_base e) (Suc j)"
    "region_pages e = pages_from (me_base e) j @ [me_base e + me_length e - PAGESIZE]"
    "unat (me_length e) = Suc j * 4096"
proof -
  from assms obtain k where k: "unat (me_length e) = k * 4096" "k \<noteq> 0"
    by (auto elim!: dvdE)
  then obtain j where j: "k = Suc j" by (cases k) auto
  have "me_length e = of_nat (unat (me_length e))" by simp
  also have "\<dots> = of_nat (Suc j) * PAGESIZE"
    unfolding k(1) j by (simp only: of_nat_mult PAGESIZE_def) simp
  finally have len: "me_length e = of_nat (Suc j) * PAGESIZE" .
  show ?thesis
  proof
    show "unat (me_base e + me_length e) = unat (me_base e) + Suc j * 4096"
      using assms k j by (simp add: unat_add_no_wrap)
    show rp: "region_pages e = pages_from (me_base e) (Suc j)"
      using k j by (simp add: region_pages_def)
    show "region_pages e = pages_from (me_base e) j @ [me_base e + me_length e - PAGESIZE]"
      unfolding rp pages_from_snoc len by (simp add: algebra_simps)
    show "unat (me_length e) = Suc j * 4096" using k j by simp
  qed
qed

lemma region_pages_range:
  assumes "regions_ok lo (e # es)" "x \<in> set (region_pages e)"
  shows "lo \<le> unat x \<and> unat x < unat (me_base e) + unat (me_length e)"
proof -
  obtain j where j: "region_pages e = pages_from (me_base e) (Suc j)" "unat (me_length e) = Suc j * 4096"
    using assms(1) by (rule region_pages_split)
  then show ?thesis
    using pages_from_range [of "me_base e" "Suc j" x] assms by simp
qed

lemma all_pages_ge: "regions_ok lo es \<Longrightarrow> x \<in> set (all_pages es) \<Longrightarrow> lo \<le> unat x"
proof (induction es arbitrary: lo)
  case (Cons e es)
  then show ?case
    using region_pages_range [of lo e es x] by (fastforce elim: regions_ok_mono)
qed simp

lemma ascending_all_pages: "regions_ok lo es \<Longrightarrow> ascending (all_pages es)"
proof (induction es arbitrary: lo)
  case (Cons e es)
  obtain j where j: "region_pages e = pages_from (me_base e) (Suc j)" "unat (me_length e) = Suc j * 4096"
    using Cons.prems by (rule region_pages_split)
  have "ascending (region_pages e)"
    unfolding j(1) using Cons.prems j(2) by (intro ascending_pages_from) simp
  moreover have "x < y" if "x \<in> set (region_pages e)" "y \<in> set (all_pages es)" for x y
    using region_pages_range [OF Cons.prems that(1)] that(2) Cons.prems
      all_pages_ge [of "unat (me_base e) + unat (me_length e)" es y]
    by (simp add: word_less_nat_alt)
  ultimately show ?case using Cons by (auto simp: sorted_wrt_append)
qed simp

lemma SetupRegion_links:
  assumes "regions_ok lo (e # es)" "0 < lo"
    and l: "region_pages e = xs @ [me_base e + me_length e - PAGESIZE]"
  shows "\<exists>m'. SetupRegion m (me_base e) (me_length e) lastAddr
                = Inr (m', me_base e + me_length e - PAGESIZE) \<and>
           lseg m' (me_base e) xs (me_base e + me_length e - PAGESIZE) \<and>
           (\<forall>x. x \<notin> set xs \<longrightarrow> m' x = (if lastAddr \<noteq> 0 then m(lastAddr := me_base e) else m) x)"
proof -
  let ?b = "me_base e" and ?lim = "me_base e + me_length e"
  let ?m = "if lastAddr \<noteq> 0 then m(lastAddr := ?b) else m"
  obtain j where j: "unat ?lim = unat ?b + Suc j * 4096"
    "region_pages e = pages_from ?b j @ [?lim - PAGESIZE]"
    using assms(1) by (rule region_pages_split)
  have xs: "xs = pages_from ?b j" using l j(2) by simp
  have "Suc j < walk_fuel" using j(1) unat_u64_less [of ?lim] by (simp add: walk_fuel_def)
  moreover have "?b \<noteq> 0" using assms by auto
  ultimately have "\<exists>m'. region_loop walk_fuel ?m ?b ?lim = Inr (m', ?lim) \<and>
           lseg m' ?b (pages_from ?b j) (?lim - PAGESIZE) \<and>
           (\<forall>x. x \<notin> set (pages_from ?b j) \<longrightarrow> m' x = ?m x)"
    using j(1) by (intro region_loop_links)
  then show ?thesis by (cases "lastAddr = 0") (auto simp: SetupRegion_def xs)
qed

text \<open>What the initialisation loop has built after the regions \<open>rs\<close>, from memory \<open>m0\<close>.\<close>

definition init_inv :: "heap \<Rightarrow> u64 \<Rightarrow> MemoryMapEntry list \<Rightarrow> init_acc \<Rightarrow> bool" where
  "init_inv m0 p0 rs a \<longleftrightarrow>
     (if rs = [] then ia_first a \<and> ia_last a = 0
      else \<not> ia_first a \<and> ia_last a \<noteq> 0 \<and>
        (\<exists>xs. all_pages rs = xs @ [ia_last a] \<and> lseg (ia_mem a) (ia_head a) xs (ia_last a))) \<and>
     (\<forall>x. x \<notin> set (all_pages rs) \<longrightarrow> ia_mem a x = m0 x) \<and>
     ia_pages a = p0 + of_nat (length (all_pages rs)) \<and> distinct (all_pages rs)"

lemma init_step_inv:
  assumes inv: "init_inv m0 p0 rs a" and sel: "sel (me_base e + me_length e)" "useable e"
    and ok: "regions_ok lo (e # es)" "0 < lo"
    and below: "\<forall>x \<in> set (all_pages rs). unat x < lo"
  shows "\<exists>a'. init_step sel a e = Inr a' \<and> init_inv m0 p0 (rs @ [e]) a'"
proof -
  let ?l = "me_base e + me_length e - PAGESIZE"
  let ?last = "if ia_first a then 0 else ia_last a"
  obtain j where j: "region_pages e = pages_from (me_base e) j @ [?l]" "unat (me_length e) = Suc j * 4096"
    using ok(1) by (rule region_pages_split)
  obtain m' where m': "SetupRegion (ia_mem a) (me_base e) (me_length e) ?last = Inr (m', ?l)"
    "lseg m' (me_base e) (pages_from (me_base e) j) ?l"
    "\<And>x. x \<notin> set (pages_from (me_base e) j) \<Longrightarrow>
       m' x = (if ?last \<noteq> 0 then (ia_mem a)(?last := me_base e) else ia_mem a) x"
    using SetupRegion_links [OF ok j(1), of "ia_mem a" ?last] by blast
  have new: "x \<notin> set (all_pages rs)" if "x \<in> set (region_pages e)" for x
    using region_pages_range [OF ok(1) that] below by force
  have "lo \<le> unat ?l" using region_pages_range [OF ok(1), of ?l] j(1) by simp
  with ok(2) have l0: "?l \<noteq> 0" by auto
  have dist_e: "distinct (region_pages e)"
    using ascending_all_pages [of lo "[e]"] ok(1) by (auto simp: ascending_distinct)
  have pages: "of_nat (length (region_pages e)) = me_length e div PAGESIZE"
    using j by (simp add: word_arith_nat_div PAGESIZE_def)
  let ?a' = "\<lparr>ia_mem = m', ia_head = (if ia_first a then me_base e else ia_head a),
      ia_first = False, ia_last = ?l, ia_pages = ia_pages a + me_length e div PAGESIZE\<rparr>"
  have "init_step sel a e = Inr ?a'" using sel m'(1) by (simp add: init_step_def)
  moreover have "init_inv m0 p0 (rs @ [e]) ?a'"
  proof (cases "rs = []")
    case True
    with inv have "ia_first a" by (simp add: init_inv_def)
    with True inv m' j l0 pages dist_e show ?thesis by (simp add: init_inv_def)
  next
    case False
    with inv obtain xs where a: "\<not> ia_first a" "ia_last a \<noteq> 0" "all_pages rs = xs @ [ia_last a]"
      "lseg (ia_mem a) (ia_head a) xs (ia_last a)" by (auto simp: init_inv_def)
    have dist: "ia_last a \<notin> set xs" using inv a(3) by (auto simp: init_inv_def)
    have m'x: "m' x = ((ia_mem a)(ia_last a := me_base e)) x" if "x \<notin> set (pages_from (me_base e) j)" for x
      using m'(3) [OF that] a(1,2) by simp
    have out: "x \<notin> set (pages_from (me_base e) j)" if "x \<in> set (all_pages rs)" for x
      using new that j(1) by auto
    have m'xs: "m' x = ia_mem a x" if "x \<in> set xs" for x
      using m'x [OF out, of x] that a(3) dist by auto
    have "lseg m' (ia_head a) xs (ia_last a)"
      using a(4) lseg_cong [of xs m' "ia_mem a" "ia_head a" "ia_last a"] m'xs by simp
    moreover have "m' (ia_last a) = me_base e"
      using m'x [OF out, of "ia_last a"] a(3) by simp
    ultimately have "lseg m' (ia_head a) (xs @ ia_last a # pages_from (me_base e) j) ?l"
      using a(2) m'(2) by simp
    moreover have "\<forall>x. x \<notin> set (all_pages (rs @ [e])) \<longrightarrow> m' x = m0 x"
      using m'x inv a(3) j(1) by (auto simp: init_inv_def)
    moreover have "distinct (all_pages (rs @ [e]))"
      using inv dist_e new by (auto simp: init_inv_def)
    ultimately show ?thesis
      using False inv a j l0 pages by (simp add: init_inv_def)
  qed
  ultimately show ?thesis by blast
qed


lemma init_loop_inv:
  assumes "init_inv m0 p0 rs a" "regions_ok lo (filter useable es)" "0 < lo"
    "\<forall>x \<in> set (all_pages rs). unat x < lo"
  shows "\<exists>a'. init_loop sel a es = Inr a' \<and>
           init_inv m0 p0 (rs @ filter (\<lambda>e. useable e \<and> sel (me_base e + me_length e)) es) a'"
  using assms
proof (induction es arbitrary: rs a lo)
  case (Cons e es)
  let ?lo = "unat (me_base e) + unat (me_length e)"
  have skip: "init_step sel a e = Inr a" if "\<not> (sel (me_base e + me_length e) \<and> useable e)"
    using that by (auto simp: init_step_def)
  show ?case
  proof (cases "useable e")
    case False
    with Cons.IH [of rs a lo] Cons.prems skip show ?thesis by simp
  next
    case u: True
    with Cons.prems(2) have ok: "regions_ok lo (e # filter useable es)" by simp
    then have ok': "regions_ok lo [e]" "regions_ok ?lo (filter useable es)" "lo \<le> ?lo" by auto
    show ?thesis
    proof (cases "sel (me_base e + me_length e)")
      case False
      with Cons.IH [of rs a ?lo] Cons.prems ok' skip u show ?thesis by force
    next
      case True
      then obtain a' where a': "init_step sel a e = Inr a'" "init_inv m0 p0 (rs @ [e]) a'"
        using init_step_inv [of m0 p0 rs a sel e lo "[]"] Cons.prems ok'(1) u by auto
      have "\<forall>x \<in> set (all_pages (rs @ [e])). unat x < ?lo"
        using Cons.prems(4) ok'(3) region_pages_range [OF ok'(1)] by force
      moreover have "0 < ?lo" using Cons.prems(3) ok'(3) by linarith
      ultimately show ?thesis using Cons.IH [OF a'(2) ok'(2)] a'(1) u True by simp
    qed
  qed
qed simp

lemma init_loop_start:
  assumes "regions_ok 1 (filter useable es)" "ia_first a" "ia_last a = 0"
  shows "\<exists>a'. init_loop sel a es = Inr a' \<and>
           init_inv (ia_mem a) (ia_pages a) (filter (\<lambda>e. useable e \<and> sel (me_base e + me_length e)) es) a'"
  using init_loop_inv [of "ia_mem a" "ia_pages a" "[]" a 1 es sel] assms by (simp add: init_inv_def)

text \<open>Terminating the last page turns the segment into a list.\<close>

lemma init_inv_finish:
  assumes "init_inv m0 p0 rs a"
  shows "ia_last a = 0 \<Longrightarrow> all_pages rs = []"
    and "ia_last a \<noteq> 0 \<Longrightarrow> chain ((ia_mem a)(ia_last a := 0)) (ia_head a) (all_pages rs)"
    and "x \<notin> set (all_pages rs) \<Longrightarrow> ia_last a \<noteq> 0 \<Longrightarrow> ((ia_mem a)(ia_last a := 0)) x = m0 x"
    and "x \<notin> set (all_pages rs) \<Longrightarrow> ia_mem a x = m0 x"
    and "ia_pages a = p0 + of_nat (length (all_pages rs))"
  using assms by (auto simp: init_inv_def split: if_splits)

definition high_pages :: "MemoryMap \<Rightarrow> addr list" where
  "high_pages mm = all_pages (filter (\<lambda>e. useable e \<and> CUTOFF < me_base e + me_length e) (m_entries mm))"

definition low_pages :: "MemoryMap \<Rightarrow> addr list" where
  "low_pages mm = all_pages (filter (\<lambda>e. useable e \<and> me_base e + me_length e \<le> CUTOFF) (m_entries mm))"

lemma all_pages_filter_disjoint:
  "regions_ok lo es \<Longrightarrow> x \<in> set (all_pages (filter P es)) \<Longrightarrow>
   x \<notin> set (all_pages (filter (\<lambda>e. \<not> P e) es))"
proof (induction es arbitrary: lo)
  case (Cons e es)
  let ?lo = "unat (me_base e) + unat (me_length e)"
  have ok: "regions_ok lo (e # es)" "regions_ok ?lo es" using Cons.prems(1) by auto
  have lt: "unat y < ?lo" if "y \<in> set (region_pages e)" for y
    using region_pages_range [OF ok(1) that] by simp
  have ge: "?lo \<le> unat y" if "y \<in> set (all_pages (filter Q es))" for y Q
    using all_pages_ge [OF regions_ok_filter [OF ok(2)] that] .
  show ?case
    using Cons.IH [OF ok(2)] Cons.prems(2) lt ge by (force split: if_splits)
qed simp

lemma high_low_disjoint:
  assumes "regions_ok 1 (filter useable (m_entries mm))" "x \<in> set (high_pages mm)"
  shows "x \<notin> set (low_pages mm)"
  using all_pages_filter_disjoint [OF assms(1), of x "\<lambda>e. CUTOFF < me_base e + me_length e"] assms(2)
  by (simp add: high_pages_def low_pages_def conj_commute not_less)

lemma InitialiseList_chain:
  assumes "regions_ok 1 (filter useable (m_entries mm))"
  shows "\<exists>s'. InitialiseList mm s = Inr s' \<and> chain (mem s') (m_head s') (high_pages mm) \<and>
           m_freePagesTop s' = m_freePagesTop s + of_nat (length (high_pages mm)) \<and>
           m_lowHead s' = m_lowHead s \<and> m_freePagesLow s' = m_freePagesLow s"
proof -
  let ?a = "\<lparr>ia_mem = mem s, ia_head = m_head s, ia_first = True, ia_last = 0,
               ia_pages = m_freePagesTop s\<rparr>"
  obtain a' where a': "init_loop (\<lambda>end. CUTOFF < end) ?a (m_entries mm) = Inr a'"
    "init_inv (mem s) (m_freePagesTop s)
       (filter (\<lambda>e. useable e \<and> CUTOFF < me_base e + me_length e) (m_entries mm)) a'"
    using init_loop_start [OF assms, of ?a "\<lambda>end. CUTOFF < end"] by auto
  from init_inv_finish [OF a'(2)] a'(1) show ?thesis
    by (cases "ia_last a' = 0") (auto simp: InitialiseList_def high_pages_def)
qed

lemma InitialiseLowList_chain:
  assumes "regions_ok 1 (filter useable (m_entries mm))"
  shows "\<exists>s'. InitialiseLowList mm s = Inr s' \<and> chain (mem s') (m_lowHead s') (low_pages mm) \<and>
           m_freePagesLow s' = m_freePagesLow s + of_nat (length (low_pages mm)) \<and>
           m_head s' = m_head s \<and> m_freePagesTop s' = m_freePagesTop s \<and>
           (\<forall>x. x \<notin> set (low_pages mm) \<longrightarrow> mem s' x = mem s x)"
proof -
  let ?a = "\<lparr>ia_mem = mem s, ia_head = m_lowHead s, ia_first = True, ia_last = 0,
               ia_pages = m_freePagesLow s\<rparr>"
  obtain a' where a': "init_loop (\<lambda>end. end \<le> CUTOFF) ?a (m_entries mm) = Inr a'"
    "init_inv (mem s) (m_freePagesLow s)
       (filter (\<lambda>e. useable e \<and> me_base e + me_length e \<le> CUTOFF) (m_entries mm)) a'"
    using init_loop_start [OF assms, of ?a "\<lambda>end. end \<le> CUTOFF"] by auto
  from init_inv_finish [OF a'(2)] a'(1) show ?thesis
    by (cases "ia_last a' = 0") (auto simp: InitialiseLowList_def low_pages_def)
qed

text \<open>
  The invariant of the allocator: both lists are well formed, ascending and disjoint, and the
  counters count them.
\<close>

definition freelist_ok :: "freelist \<Rightarrow> addr list \<Rightarrow> addr list \<Rightarrow> bool" where
  "freelist_ok s hs ls \<longleftrightarrow>
     chain (mem s) (m_head s) hs \<and> chain (mem s) (m_lowHead s) ls \<and>
     ascending hs \<and> ascending ls \<and> set hs \<inter> set ls = {} \<and>
     m_freePagesTop s = of_nat (length hs) \<and> m_freePagesLow s = of_nat (length ls)"

theorem Freelist_Init_ok:
  assumes "regions_ok 1 (filter useable (m_entries mm))"
  shows "\<exists>s'. Freelist_Init mm s = Inr s' \<and> freelist_ok s' (high_pages mm) (low_pages mm)"
proof -
  obtain s1 where s1: "InitialiseList mm (s\<lparr>m_freePagesTop := 0, m_freePagesLow := 0\<rparr>) = Inr s1"
    "chain (mem s1) (m_head s1) (high_pages mm)"
    "m_freePagesTop s1 = of_nat (length (high_pages mm))" "m_freePagesLow s1 = 0"
    using InitialiseList_chain [OF assms, of "s\<lparr>m_freePagesTop := 0, m_freePagesLow := 0\<rparr>"] by auto
  obtain s2 where s2: "InitialiseLowList mm s1 = Inr s2"
    "chain (mem s2) (m_lowHead s2) (low_pages mm)" "m_freePagesLow s2 = of_nat (length (low_pages mm))"
    "m_head s2 = m_head s1" "m_freePagesTop s2 = m_freePagesTop s1"
    "\<And>x. x \<notin> set (low_pages mm) \<Longrightarrow> mem s2 x = mem s1 x"
    using InitialiseLowList_chain [OF assms, of s1] s1(4) by auto
  have "chain (mem s2) (m_head s2) (high_pages mm)"
    using s1(2) s2(4,6) high_low_disjoint [OF assms] lseg_cong [of "high_pages mm" "mem s2" "mem s1"]
    by metis
  moreover have "ascending (high_pages mm)" "ascending (low_pages mm)"
    using ascending_all_pages [OF regions_ok_filter [OF assms, of "\<lambda>e. CUTOFF < me_base e + me_length e"]]
      ascending_all_pages [OF regions_ok_filter [OF assms, of "\<lambda>e. me_base e + me_length e \<le> CUTOFF"]]
    by (simp_all add: high_pages_def low_pages_def conj_commute)
  moreover have "set (high_pages mm) \<inter> set (low_pages mm) = {}"
    using high_low_disjoint [OF assms] by blast
  ultimately show ?thesis
    using s1 s2 by (simp add: Freelist_Init_def freelist_ok_def)
qed

end
