(* ===== verification/Page_Freelist_Ops.thy ===== *)
theory Page_Freelist_Ops
  imports Page_Freelist_Init
begin

text \<open>
  Single pages: \<open>AllocatePage\<close> pops the head of a list, \<open>DeallocPage\<close> inserts at the place the order asks for.  Both
  keep the invariant \<open>freelist_ok\<close>, and outside the list they change only the page they are given.
\<close>

section \<open>One page\<close>

lemma AllocatePageImpl_pop:
  "chain m h (x # xs) \<Longrightarrow> AllocatePageImpl m h = Inr (m(x := 0), m x, x)"
  by (auto simp: AllocatePageImpl_def)

theorem AllocatePage_spec:
  assumes "freelist_ok s hs ls"
  shows "case hs @ ls of
           [] \<Rightarrow> AllocatePage s = Inr (s, 0)
         | p # _ \<Rightarrow> p \<noteq> 0 \<and> (\<exists>s'. AllocatePage s = Inr (s', p) \<and>
             (if hs = [] then freelist_ok s' [] (tl ls) else freelist_ok s' (tl hs) ls) \<and> mem s' p = 0)"
proof (cases hs)
  case (Cons x hs')
  with assms have c: "chain (mem s) (m_head s) (x # hs')" "x \<notin> set ls" "x \<notin> set hs'" "x \<noteq> 0"
    by (auto simp: freelist_ok_def)
  with Cons assms AllocatePageImpl_pop [OF c(1)] show ?thesis
    by (auto simp: AllocatePage_def freelist_ok_def)
next
  case Nil
  with assms have h: "m_head s = 0" by (simp add: freelist_ok_def)
  show ?thesis
  proof (cases ls)
    case (Cons x ls')
    with assms have c: "chain (mem s) (m_lowHead s) (x # ls')" "x \<notin> set ls'" "x \<noteq> 0"
      by (auto simp: freelist_ok_def)
    with Cons assms h Nil AllocatePageImpl_pop [OF c(1)] show ?thesis
      by (auto simp: AllocatePage_def freelist_ok_def)
  next
    case ls: Nil
    with assms Nil h show ?thesis by (auto simp: AllocatePage_def freelist_ok_def)
  qed
qed

section \<open>Freeing a page\<close>

lemma dealloc_walk_splits:
  "lseg m next ys 0 \<Longrightarrow> ys \<noteq> [] \<Longrightarrow> length ys < n \<Longrightarrow>
   dealloc_walk n m b c next
     = Inr (last (c # takeWhile (\<lambda>y. y < b) ys), hd (dropWhile (\<lambda>y. y < b) ys @ [0]))"
proof (induction ys arbitrary: n c "next")
  case (Cons y ys)
  then obtain n' where n: "n = Suc n'" by (cases n) auto
  show ?case
  proof (cases "y < b \<and> ys \<noteq> []")
    case True
    with Cons.prems n have "dealloc_walk n' m b y (m y)
        = Inr (last (y # takeWhile (\<lambda>z. z < b) ys), hd (dropWhile (\<lambda>z. z < b) ys @ [0]))"
      by (intro Cons.IH) auto
    moreover have "m y \<noteq> 0" using True Cons.prems by auto
    ultimately show ?thesis using True Cons.prems n by simp
  next
    case False
    with Cons.prems n show ?thesis by auto
  qed
qed simp

lemma DeallocPageImpl_inserts:
  assumes c: "chain m h xs" "ascending xs" and b: "b \<noteq> 0" "b \<notin> set xs"
    and tail: "\<And>x. xs = [x] \<Longrightarrow> x < b \<Longrightarrow> m b = 0"
  shows "\<exists>m' h'. DeallocPageImpl m h b = Inr (m', h') \<and> chain m' h' (insort b xs) \<and>
           (\<forall>y. y \<notin> insert b (set xs) \<longrightarrow> m' y = m y)"
proof (cases xs)
  case Nil
  with c b show ?thesis by (auto simp: DeallocPageImpl_def)
next
  case (Cons x ys)
  with c have x: "h = x" "x \<noteq> 0" "chain m (m x) ys" by auto
  consider "b < x" | "x < b" "ys = []" | "x < b" "ys \<noteq> []"
    using b Cons by (metis insert_iff linorder_neqE list.simps(15))
  then show ?thesis
  proof cases
    case 1
    then have "insort b xs = b # xs" using Cons by (simp add: less_imp_le)
    with 1 b c Cons x show ?thesis by (auto simp: DeallocPageImpl_def)
  next
    case 2
    with tail Cons have "m b = 0" by blast
    moreover from 2 Cons have "insort b xs = [x, b]" "\<not> b < x" by auto
    ultimately show ?thesis using 2 b Cons x by (auto simp: DeallocPageImpl_def)
  next
    case 3
    let ?as = "takeWhile (\<lambda>y. y < b) ys" and ?bs = "dropWhile (\<lambda>y. y < b) ys"
    let ?c = "last (x # ?as)" and ?r = "hd (?bs @ [0])"
    have ys: "ys = ?as @ ?bs" by simp
    have "length (x # ys) \<le> walk_fuel" using c(1) Cons chain_length_fuel by blast
    then have walk: "dealloc_walk walk_fuel m b x (m x) = Inr (?c, ?r)"
      using x 3 by (intro dealloc_walk_splits) auto
    have "(x # ?as) @ ?bs = xs" using Cons by simp
    with c(1) have "lseg m h ((x # ?as) @ ?bs) 0" by (simp only:)
    then obtain r where r: "lseg m h (x # ?as) r" "lseg m r ?bs 0"
      by (simp only: lseg_append) blast
    then have "r = ?r" by (cases ?bs) (auto simp del: dropWhile_eq_Nil_conv)
    moreover have eq: "butlast (x # ?as) @ ?c # zs = (x # ?as) @ zs" for zs
    proof -
      have "butlast (x # ?as) @ [?c] = x # ?as" by simp
      then show ?thesis by (metis append.assoc append_Cons append_Nil)
    qed
    ultimately have seg: "lseg m h (butlast (x # ?as) @ [?c]) ?r" "lseg m ?r ?bs 0"
      using r eq [of "[]"] by simp_all
    have xs: "butlast (x # ?as) @ ?c # ?bs = xs" using eq [of ?bs] ys Cons by simp
    have "?c \<in> set (butlast (x # ?as) @ ?c # ?bs)" by simp
    then have c_in: "?c \<in> set xs" by (simp only: xs)
    have "b \<notin> set (butlast (x # ?as) @ ?c # ?bs)" "distinct (butlast (x # ?as) @ ?c # ?bs)"
      unfolding xs using b(2) ascending_distinct [OF c(2)] by simp_all
    with seg b(1) have spliced: "chain (m(?c := b, b := ?r)) h (butlast (x # ?as) @ ?c # b # ?bs)"
      by (intro lseg_splice)
    have ins: "insort b xs = butlast (x # ?as) @ ?c # b # ?bs"
    proof -
      have "sorted xs" using c(2) strict_sorted_imp_sorted by blast
      then have "insort b xs = takeWhile (\<lambda>y. y < b) xs @ b # dropWhile (\<lambda>y. y < b) xs"
        by (rule insort_split)
      also have "\<dots> = (x # ?as) @ b # ?bs" using 3 Cons by simp
      finally show ?thesis by (simp only: eq)
    qed
    have res: "DeallocPageImpl m h b = Inr (m(?c := b, b := ?r), h)"
    proof -
      have "?c \<noteq> 0" using lseg_nonzero [OF c(1)] c_in by metis
      moreover have "m x \<noteq> 0" "\<not> b < x" using x 3 by auto
      ultimately show ?thesis using walk 3 x(1,2) b(1) by (simp add: DeallocPageImpl_def)
    qed
    show ?thesis
    proof (intro exI conjI allI impI)
      show "DeallocPageImpl m h b = Inr (m(?c := b, b := ?r), h)" by (rule res)
      show "chain (m(?c := b, b := ?r)) h (insort b xs)" unfolding ins by (rule spliced)
      fix y assume "y \<notin> insert b (set xs)"
      then have "y \<noteq> ?c" "y \<noteq> b" using c_in by (metis insertI2, simp)
      then show "(m(?c := b, b := ?r)) y = m y" by (simp del: last.simps)
    qed
  qed
qed


theorem DeallocPage_spec:
  assumes ok: "freelist_ok s hs ls" and b: "b \<noteq> 0" "b \<notin> set hs \<union> set ls"
    and tail: "mem s b = 0 \<or> length (if b \<le> CUTOFF then ls else hs) \<noteq> 1"
  shows "\<exists>s'. DeallocPage b s = Inr s' \<and>
           (if b \<le> CUTOFF then freelist_ok s' hs (insort b ls) else freelist_ok s' (insort b hs) ls)"
proof -
  have asc: "ascending (insort b xs)" if "ascending xs" "b \<notin> set xs" for xs
    using that by (simp add: strict_sorted_iff sorted_insort distinct_insort)
  show ?thesis
  proof (cases "b \<le> CUTOFF")
    case True
    with ok b tail have "\<exists>m' h'. DeallocPageImpl (mem s) (m_lowHead s) b = Inr (m', h') \<and>
        chain m' h' (insort b ls) \<and> (\<forall>y. y \<notin> insert b (set ls) \<longrightarrow> m' y = mem s y)"
      by (intro DeallocPageImpl_inserts) (auto simp: freelist_ok_def)
    then obtain m' h' where m': "DeallocPageImpl (mem s) (m_lowHead s) b = Inr (m', h')"
        "chain m' h' (insort b ls)" "\<And>y. y \<notin> insert b (set ls) \<Longrightarrow> m' y = mem s y"
      by blast
    have "m' x = mem s x" if "x \<in> set hs" for x
      using ok b that by (intro m'(3)) (auto simp: freelist_ok_def)
    then have "chain m' (m_head s) hs"
      using ok lseg_cong [of hs m' "mem s" "m_head s" 0] by (simp add: freelist_ok_def)
    with True m' ok b asc [of ls] show ?thesis
      by (auto simp: DeallocPage_def freelist_ok_def set_insort_key)
  next
    case False
    with ok b tail have "\<exists>m' h'. DeallocPageImpl (mem s) (m_head s) b = Inr (m', h') \<and>
        chain m' h' (insort b hs) \<and> (\<forall>y. y \<notin> insert b (set hs) \<longrightarrow> m' y = mem s y)"
      by (intro DeallocPageImpl_inserts) (auto simp: freelist_ok_def)
    then obtain m' h' where m': "DeallocPageImpl (mem s) (m_head s) b = Inr (m', h')"
        "chain m' h' (insort b hs)" "\<And>y. y \<notin> insert b (set hs) \<Longrightarrow> m' y = mem s y"
      by blast
    have "m' x = mem s x" if "x \<in> set ls" for x
      using ok b that by (intro m'(3)) (auto simp: freelist_ok_def)
    then have "chain m' (m_lowHead s) ls"
      using ok lseg_cong [of ls m' "mem s" "m_lowHead s" 0] by (simp add: freelist_ok_def)
    with False m' ok b asc [of hs] show ?thesis
      by (auto simp: DeallocPage_def freelist_ok_def set_insort_key)
  qed
qed

end
