(* ===== verification/Page_Freelist_Runs.thy ===== *)
theory Page_Freelist_Runs
  imports Page_Freelist_Ops
begin

text \<open>
  Runs of contiguous pages: the search of \<open>AllocatePages\<close> finds only runs that lie on the list, and extraction cuts
  exactly the run out of it.
\<close>

section \<open>Contiguous pages\<close>

lemma advance_lseg: "lseg m p ys q \<Longrightarrow> advance m (length ys) p = Inr q"
  by (induction ys arbitrary: p) (auto simp: NextFreeOf_def)

lemma pages_from_one: "pages_from b (Suc 0) = [b]"
  by simp

text \<open>The reference: the first page that starts a run of \<open>k\<close> contiguous pages of the list.\<close>

fun first_fit :: "nat \<Rightarrow> addr list \<Rightarrow> addr option" where
  "first_fit k [] = None"
| "first_fit k (x # xs) = (if take k (x # xs) = pages_from x k then Some x else first_fit k xs)"

lemma nth_pages_from: "i < k \<Longrightarrow> pages_from b k ! i = b + of_nat i * PAGESIZE"
proof (induction k arbitrary: b i)
  case (Suc k)
  then show ?case by (cases i) (simp_all add: algebra_simps)
qed simp

lemma first_fit_Some:
  "first_fit k xs = Some b \<Longrightarrow> \<exists>as zs. xs = as @ pages_from b k @ zs \<and> (\<forall>as' c zs'. xs = as' @ pages_from c k @ zs' \<longrightarrow> length as \<le> length as')"
proof (induction xs)
  case (Cons x xs)
  show ?case
  proof (cases "take k (x # xs) = pages_from x k")
    case True
    then have "x # xs = [] @ pages_from x k @ drop k (x # xs)" by (metis append_Nil append_take_drop_id)
    moreover have "b = x" using True Cons.prems by simp
    ultimately show ?thesis by (metis le0 list.size(3))
  next
    case False
    then obtain as zs where s: "xs = as @ pages_from b k @ zs"
        "\<forall>as' c zs'. xs = as' @ pages_from c k @ zs' \<longrightarrow> length as \<le> length as'"
      using Cons by auto
    have "length (x # as) \<le> length as'" if run: "x # xs = as' @ pages_from c k @ zs'" for as' c zs'
    proof (cases as')
      case Nil
      then have "take k (x # xs) = pages_from c k" using run by simp
      moreover have "k \<noteq> 0 \<Longrightarrow> c = x" using run Nil by (cases k) auto
      ultimately show ?thesis using False by (cases k) auto
    next
      case (Cons y ys)
      then show ?thesis using s(2) run by auto
    qed
    with s(1) show ?thesis by (metis append_Cons)
  qed
qed simp

lemma first_fit_None: "first_fit k xs = None \<Longrightarrow> 0 < k \<Longrightarrow> xs \<noteq> as @ pages_from c k @ zs"
proof (induction xs arbitrary: as)
  case Nil
  then show ?case by (cases k) auto
next
  case (Cons x xs)
  show ?case
  proof (cases as)
    case Nil
    with Cons.prems show ?thesis by (cases k) (auto split: if_splits)
  next
    case (Cons y ys)
    with Cons.IH Cons.prems show ?thesis by (auto split: if_splits)
  qed
qed

lemma first_fit_short: "length xs < k \<Longrightarrow> first_fit k xs = None"
proof (induction xs)
  case (Cons x xs)
  then have "length (take k (x # xs)) \<noteq> length (pages_from x k)" by simp
  then have "take k (x # xs) \<noteq> pages_from x k" by metis
  with Cons show ?case by simp
qed simp

text \<open>No run crosses a gap.\<close>

lemma first_fit_gap:
  "xs \<noteq> [] \<Longrightarrow> length xs < k \<Longrightarrow> last xs + PAGESIZE \<noteq> b \<Longrightarrow> first_fit k (xs @ b # bs) = first_fit k (b # bs)"
proof (induction xs)
  case (Cons x xs)
  have "take k ((x # xs) @ b # bs) \<noteq> pages_from x k"
  proof
    let ?n = "length xs"
    assume eq: "take k ((x # xs) @ b # bs) = pages_from x k"
    then have "pages_from x k ! i = ((x # xs) @ b # bs) ! i" if "i < k" for i using that by (metis nth_take)
    from this [of ?n] this [of "Suc ?n"] Cons.prems(2)
    have "((x # xs) @ b # bs) ! ?n + PAGESIZE = b" by (simp add: nth_pages_from algebra_simps nth_append)
    moreover have "((x # xs) @ b # bs) ! ?n = last (x # xs)" by (simp add: last_conv_nth nth_append)
    ultimately show False using Cons.prems(3) by simp
  qed
  with Cons show ?case by (cases "xs = []") auto
qed simp

lemma run_search_first_fit:
  "\<lbrakk>lseg m next bs 0; bs \<noteq> []; length bs < n; m cur = next; cur \<noteq> 0;
    run = pages_from base cnt; last run = cur; 0 < cnt; cnt \<le> pages\<rbrakk> \<Longrightarrow>
   run_search n m pages cnt base cur next = Inr (case first_fit pages (run @ bs) of None \<Rightarrow> 0 | Some b \<Rightarrow> b)"
proof (induction bs arbitrary: n cur "next" base cnt run)
  case (Cons b bs)
  then obtain n' where n: "n = Suc n'" by (cases n) auto
  from Cons.prems have b: "next = b" "b \<noteq> 0" "lseg m (m b) bs 0" by auto
  have hits: "first_fit pages (pages_from base pages @ zs) = Some base" for zs
    using Cons.prems by (cases pages) simp_all
  show ?case
  proof (cases "cnt = pages")
    case True
    with n Cons.prems(6) hits show ?thesis by simp
  next
    case False
    define cont where "cont \<longleftrightarrow> cur + PAGESIZE = b"
    define cnt' where "cnt' = (if cont then Suc cnt else 1)"
    define base' where "base' = (if cont then base else b)"
    obtain k where k: "cnt = Suc k" using Cons.prems(8) by (cases cnt) auto
    have run: "length run = cnt" "run \<noteq> []" using Cons.prems(6) k by auto
    have ext: "pages_from base (Suc cnt) = run @ [b]" if cont
    proof -
      have "cur = base + of_nat k * PAGESIZE"
        using Cons.prems(6,7) k by (simp only: pages_from_snoc last_snoc)
      moreover have "b = cur + PAGESIZE" using that by (simp add: cont_def)
      ultimately have "b = base + of_nat cnt * PAGESIZE" by (simp add: k algebra_simps)
      then show ?thesis using Cons.prems(6) by (simp only: pages_from_snoc)
    qed
    have run': "last (pages_from base' cnt') = b" "0 < cnt'"
      using ext b by (auto simp: cnt'_def base'_def pages_from_one simp del: pages_from.simps(2))
    show ?thesis
    proof (cases "cont \<and> Suc cnt = pages")
      case True
      then have "run @ b # bs = pages_from base pages @ bs" using ext by auto
      then have "first_fit pages (run @ b # bs) = Some base" using hits by (simp only:)
      moreover have "run_search n m pages cnt base cur next = Inr base"
        using n \<open>cnt \<noteq> pages\<close> True b Cons.prems(4,5) by (simp add: cont_def)
      ultimately show ?thesis by simp
    next
      case nodone: False
      have step: "run_search n m pages cnt base cur next =
          (if m b = 0 then Inr 0 else run_search n' m pages cnt' base' b (m b))"
        using n False nodone Cons.prems b by (auto simp: cnt'_def base'_def cont_def Let_def)
      have less: "cnt' < pages" using False nodone Cons.prems(8,9) by (auto simp: cnt'_def)
      have same: "first_fit pages (run @ b # bs) = first_fit pages (pages_from base' cnt' @ bs)"
      proof (cases cont)
        case True
        then show ?thesis using ext by (simp add: cnt'_def base'_def del: pages_from.simps(2))
      next
        case False
        have "cnt < pages" using Cons.prems(9) \<open>cnt \<noteq> pages\<close> by simp
        with False run Cons.prems(7) show ?thesis
          by (simp add: first_fit_gap cnt'_def base'_def cont_def)
      qed
      show ?thesis
      proof (cases "m b = 0")
        case True
        with b have "bs = []" by simp
        with less have "first_fit pages (pages_from base' cnt' @ bs) = None" by (intro first_fit_short) simp
        with step True same show ?thesis by simp
      next
        case nz: False
        with b have "bs \<noteq> []" by auto
        then have "run_search n' m pages cnt' base' b (m b) =
            Inr (case first_fit pages (pages_from base' cnt' @ bs) of None \<Rightarrow> 0 | Some b \<Rightarrow> b)"
          using Cons.IH [of "m b" n' b "pages_from base' cnt'" base' cnt'] b run' Cons.prems n less by auto
        with step nz same show ?thesis by simp
      qed
    qed
  qed
qed simp

lemma extract_walk_finds:
  "\<lbrakk>lseg m next (ys @ [r]) q; \<forall>y \<in> set ys. y < r; length ys < n\<rbrakk> \<Longrightarrow>
   extract_walk n m r c next = Inr (last (c # ys), r)"
proof (induction ys arbitrary: n c "next")
  case Nil
  then show ?case by (cases n) auto
next
  case (Cons y ys)
  then obtain n' where "n = Suc n'" by (cases n) auto
  with Cons show ?case by auto
qed

lemma extract_walk_stops: "\<not> next < r \<Longrightarrow> extract_walk walk_fuel m r c next = Inr (c, next)"
proof -
  assume "\<not> next < r"
  then have "extract_walk (Suc k) m r c next = Inr (c, next)" for k by simp
  moreover have "\<exists>k. walk_fuel = Suc k" by (rule walk_fuel_Suc)
  ultimately show ?thesis by metis
qed

lemma ExtractImpl_removes:
  assumes c: "chain m h (as @ pages_from r (unat pages) @ zs)"
    and asc: "ascending (as @ pages_from r (unat pages) @ zs)" and pos: "0 < unat pages"
  shows "\<exists>m' h'. ExtractImpl m h r pages = Inr (m', h') \<and> chain m' h' (as @ zs) \<and>
           (\<forall>x. x \<notin> set as \<longrightarrow> m' x = m x)"
proof -
  obtain k where k: "unat pages = Suc k" using pos by (cases "unat pages") auto
  from c obtain p where p: "lseg m h as p" "chain m p (pages_from r (unat pages) @ zs)" by auto
  then obtain q where q: "p = r" "r \<noteq> 0" "lseg m r (pages_from r (unat pages)) q" "chain m q zs"
    using k by auto
  have adv: "advance m (unat pages) r = Inr q" using advance_lseg [OF q(3)] by simp
  show ?thesis
  proof (cases as)
    case Nil
    with p q have h: "h = r" by simp
    show ?thesis
    proof (cases "m r = 0")
      case True
      then show ?thesis using Nil h q adv by (simp add: ExtractImpl_def)
    next
      case False
      then obtain ys where ys: "pages_from r (unat pages) @ zs = r # m r # ys"
        using c Nil h k by (cases "pages_from (r + PAGESIZE) k @ zs") auto
      with asc Nil have "r < m r" by simp
      then have "extract_walk walk_fuel m r r (m r) = Inr (r, m r)" by (intro extract_walk_stops) simp
      with \<open>r < m r\<close> show ?thesis
        using Nil h q adv False by (simp add: ExtractImpl_def)
    qed
  next
    case (Cons c' as')
    with p have h: "h = c'" "c' \<noteq> 0" "lseg m (m c') as' r" using q(1) by auto
    have lt: "\<forall>y \<in> set (c' # as'). y < r" using asc Cons k by (auto simp: sorted_wrt_append)
    have "length (as @ pages_from r (unat pages) @ zs) \<le> walk_fuel" using c by (rule chain_length_fuel)
    then have "length as' < walk_fuel" using Cons k by simp
    moreover have "lseg m (m c') (as' @ [r]) (m r)" using h q(2) by simp
    ultimately have walk: "extract_walk walk_fuel m r c' (m c') = Inr (last (c' # as'), r)"
      using lt by (intro extract_walk_finds) auto
    let ?l = "last as"
    have l: "as = butlast as @ [?l]" "?l = last (c' # as')" using Cons by auto
    have nz: "m c' \<noteq> 0" using h(3) q(2) by (cases as') auto
    have "lseg m h (butlast as @ [?l]) r" using p(1) q(1) l(1) by metis
    then have l0: "?l \<noteq> 0" "lseg m h (butlast as) ?l" by auto
    have d: "distinct (as @ zs)" using ascending_distinct [OF asc] by auto
    then have "distinct ((butlast as @ [?l]) @ zs)" using l(1) by metis
    then have "?l \<notin> set (butlast as)" "?l \<notin> set zs" by auto
    then have "chain (m(?l := q)) h ((butlast as @ [?l]) @ zs)" using l0 q(4) by auto
    then have ch: "chain (m(?l := q)) h (as @ zs)" using l(1) by metis
    have "ExtractImpl m h r pages = Inr (m(?l := q), h)"
      using Cons h lt walk nz adv l0 by (auto simp: ExtractImpl_def)
    moreover have "?l \<in> set as" using l(1) by (metis in_set_conv_decomp)
    ultimately show ?thesis using ch by auto
  qed
qed

text \<open>
  C7. \<open>AllocatePages\<close> for at least one page on a well-formed list is first fit: when the high list has at least two pages
  and holds the run asked for, it returns the base of the first run of that many physically contiguous pages (the
  reference \<open>first_fit\<close>; no run starts earlier on the list) and takes exactly this run off the list; when the list has no
  such run, and always when it has fewer than two pages, it returns null and changes nothing.  The page counter keeps
  its old value either way, so after a success it no longer counts the list.
\<close>

theorem AllocatePages_contiguous:
  assumes ok: "freelist_ok s hs ls" and pos: "0 < unat pages"
  shows "\<exists>s' p. AllocatePages pages s = Inr (s', p) \<and>
           (case if length hs < 2 then None else first_fit (unat pages) hs of
              None \<Rightarrow> p = 0 \<and> s' = s \<and> (length hs < 2 \<or> (\<forall>as b zs. hs \<noteq> as @ pages_from b (unat pages) @ zs))
            | Some b \<Rightarrow> p = b \<and> b \<noteq> 0 \<and>
                (\<exists>as zs. hs = as @ pages_from b (unat pages) @ zs \<and>
                   (\<forall>as' c zs'. hs = as' @ pages_from c (unat pages) @ zs' \<longrightarrow> length as \<le> length as') \<and>
                   chain (mem s') (m_head s') (as @ zs) \<and> chain (mem s') (m_lowHead s') ls \<and>
                   m_freePagesTop s' = of_nat (length hs)))"
proof -
  from ok have c: "chain (mem s) (m_head s) hs" "chain (mem s) (m_lowHead s) ls"
    and asc: "ascending hs" and disj: "set hs \<inter> set ls = {}"
    and cnt: "m_freePagesTop s = of_nat (length hs)"
    by (auto simp: freelist_ok_def)
  show ?thesis
  proof (cases "length hs < 2")
    case True
    then consider "hs = []" | x where "hs = [x]" by (cases hs; cases "tl hs") auto
    then show ?thesis using c(1) by cases (auto simp: AllocatePages_def AllocatePagesImpl_def)
  next
    case False
    then obtain x y ys where hs: "hs = x # y # ys" by (cases hs; cases "tl hs") auto
    with c(1) have x: "m_head s = x" "x \<noteq> 0" "mem s x = y" "y \<noteq> 0" "lseg (mem s) y (y # ys) 0" by auto
    have "length hs \<le> walk_fuel" using c(1) by (rule chain_length_fuel)
    then have r: "run_search walk_fuel (mem s) (unat pages) 1 x x y =
        Inr (case first_fit (unat pages) hs of None \<Rightarrow> 0 | Some b \<Rightarrow> b)"
      using run_search_first_fit [of "mem s" y "y # ys" walk_fuel x "[x]" x 1 "unat pages"] hs x pos by simp
    show ?thesis
    proof (cases "first_fit (unat pages) hs")
      case None
      with r hs x first_fit_None [OF None pos] show ?thesis
        by (simp add: AllocatePages_def AllocatePagesImpl_def)
    next
      case (Some b)
      then obtain as zs where sp: "hs = as @ pages_from b (unat pages) @ zs"
        and first: "\<forall>as' c zs'. hs = as' @ pages_from c (unat pages) @ zs' \<longrightarrow> length as \<le> length as'"
        using first_fit_Some by blast
      have "b \<in> set hs" using sp pos by (cases "unat pages") auto
      then have nz: "b \<noteq> 0" using lseg_nonzero [OF c(1)] by metis
      obtain m' h' where m': "ExtractImpl (mem s) x b pages = Inr (m', h')" "chain m' h' (as @ zs)"
        "\<And>y. y \<notin> set as \<Longrightarrow> m' y = mem s y"
        using ExtractImpl_removes [of "mem s" x as b pages zs] c(1) asc sp pos x(1) by auto
      have "m' y = mem s y" if "y \<in> set ls" for y using m'(3) disj sp that by auto
      then have "chain m' (m_lowHead s) ls"
        using c(2) lseg_cong [of ls m' "mem s" "m_lowHead s" 0] by simp
      moreover have "AllocatePages pages s = Inr (s\<lparr>mem := m', m_head := h'\<rparr>, b)"
        using r hs x m'(1) nz Some by (simp add: AllocatePages_def AllocatePagesImpl_def)
      ultimately show ?thesis using m'(2) nz sp first cnt False Some
        by (intro exI [of _ "s\<lparr>mem := m', m_head := h'\<rparr>"] exI [of _ b]) auto
    qed
  qed
qed

text \<open>A high list of three pages whose last two are contiguous.\<close>

definition run_example :: freelist where
  "run_example = \<lparr>mem = (\<lambda>_. 0)(0x100000000 := 0x100005000, 0x100005000 := 0x100006000),
     m_head = 0x100000000, m_lowHead = 0, m_freePagesTop = 3, m_freePagesLow = 0\<rparr>"

theorem AllocatePages_contiguous_witness:
  "\<exists>s'. AllocatePages 2 run_example = Inr (s', 0x100005000) \<and> chain (mem s') (m_head s') [0x100000000]"
proof -
  let ?hs = "[0x100000000, 0x100005000, 0x100006000 :: u64]"
  have ok: "freelist_ok run_example ?hs []" by (simp add: freelist_ok_def run_example_def)
  have two: "unat (2 :: u32) = Suc (Suc 0)" by simp
  have "0 < unat (2 :: u32)" by simp
  note run = AllocatePages_contiguous [OF ok this]
  have fit: "(if length ?hs < 2 then None else first_fit (unat (2 :: u32)) ?hs) = Some 0x100005000"
    unfolding two by (simp add: PAGESIZE_def)
  obtain s' as zs where s': "AllocatePages 2 run_example = Inr (s', 0x100005000)"
    "chain (mem s') (m_head s') (as @ zs)" and split: "?hs = as @ pages_from 0x100005000 (unat (2 :: u32)) @ zs"
    using run [unfolded fit option.case] by blast
  from split have "as @ zs = [0x100000000]"
    unfolding two by (simp add: PAGESIZE_def append_eq_Cons_conv Cons_eq_append_conv)
  with s' show ?thesis by auto
qed

end
