(* ===== verification/Page_Pool.thy ===== *)
theory Page_Pool
  imports Page_Freelist_Runs
begin

text \<open>
  The page allocator as its clients see it.  The locale \<open>page_source\<close> states the contract (pages
  come from a set of free pages, are never null and leave the set; a returned page re-enters it) and
  proves once what a client that takes several pages may rely on; the free-list allocator is its
  interpretation.  The step relation \<open>pool_step\<close> interleaves allocations, writes into owned pages
  and deallocations, and its invariant is the conservation of the pages of the memory map.
\<close>

section \<open>The contract of a page source\<close>

text \<open>A client that takes \<open>n\<close> pages one after the other.\<close>

fun take_pages :: "('s \<Rightarrow> ('s \<times> addr) result) \<Rightarrow> nat \<Rightarrow> 's \<Rightarrow> ('s \<times> addr list) result" where
  "take_pages alloc 0 s = Inr (s, [])"
| "take_pages alloc (Suc n) s =
     rbind (alloc s) (\<lambda>(s', p). rbind (take_pages alloc n s') (\<lambda>(s'', ps). Inr (s'', p # ps)))"

locale page_source =
  fixes alloc :: "'s \<Rightarrow> ('s \<times> addr) result"
    and dealloc :: "addr \<Rightarrow> 's \<Rightarrow> 's result"
    and inv :: "'s \<Rightarrow> bool"
    and free_pages :: "'s \<Rightarrow> addr set"
    and clean :: "'s \<Rightarrow> addr \<Rightarrow> bool"
  assumes alloc_none: "inv s \<Longrightarrow> free_pages s = {} \<Longrightarrow> alloc s = Inr (s, 0)"
    and alloc_some: "inv s \<Longrightarrow> free_pages s \<noteq> {} \<Longrightarrow>
          \<exists>s' p. alloc s = Inr (s', p) \<and> p \<in> free_pages s \<and> inv s' \<and>
                 free_pages s' = free_pages s - {p}"
    and dealloc_page: "inv s \<Longrightarrow> p \<noteq> 0 \<Longrightarrow> p \<notin> free_pages s \<Longrightarrow> clean s p \<Longrightarrow>
          \<exists>s'. dealloc p s = Inr s' \<and> inv s' \<and> free_pages s' = insert p (free_pages s)"
    and free_nonnull: "inv s \<Longrightarrow> 0 \<notin> free_pages s"
    and free_finite: "inv s \<Longrightarrow> finite (free_pages s)"
begin

lemma alloc_cases:
  assumes "inv s" "alloc s = Inr (s', p)"
  shows "(p = 0 \<and> s' = s \<and> free_pages s = {}) \<or>
         (p \<noteq> 0 \<and> p \<in> free_pages s \<and> inv s' \<and> free_pages s' = free_pages s - {p})"
  using alloc_none [OF assms(1)] alloc_some [OF assms(1)] free_nonnull [OF assms(1)] assms(2)
  by (cases "free_pages s = {}") auto

lemma take_pages_distinct:
  assumes "inv s" "n \<le> card (free_pages s)"
  shows "\<exists>s' ps. take_pages alloc n s = Inr (s', ps) \<and> length ps = n \<and> distinct ps \<and>
           set ps \<subseteq> free_pages s \<and> inv s' \<and> free_pages s' = free_pages s - set ps"
  using assms
proof (induction n arbitrary: s)
  case (Suc n)
  then have "free_pages s \<noteq> {}" by auto
  with Suc.prems alloc_some obtain s1 p where s1: "alloc s = Inr (s1, p)" "p \<in> free_pages s"
    "inv s1" "free_pages s1 = free_pages s - {p}" by blast
  have "n \<le> card (free_pages s1)"
    using s1 Suc.prems free_finite [of s] by simp
  with Suc.IH s1(3) obtain s' ps where "take_pages alloc n s1 = Inr (s', ps)" "length ps = n"
    "distinct ps" "set ps \<subseteq> free_pages s1" "inv s'" "free_pages s' = free_pages s1 - set ps"
    by blast
  with s1 show ?case by auto
qed simp

end

section \<open>The free-list allocator is a page source\<close>

definition fl_inv :: "freelist \<Rightarrow> bool" where
  "fl_inv s \<longleftrightarrow> (\<exists>hs ls. freelist_ok s hs ls)"

definition fl_pages :: "freelist \<Rightarrow> addr set" where
  "fl_pages s = {p. \<exists>hs ls. freelist_ok s hs ls \<and> p \<in> set hs \<union> set ls}"

lemma freelist_ok_unique:
  "freelist_ok s hs ls \<Longrightarrow> freelist_ok s hs' ls' \<Longrightarrow> hs' = hs \<and> ls' = ls"
  using chain_unique by (auto simp: freelist_ok_def)

lemma fl_pages_eq: "freelist_ok s hs ls \<Longrightarrow> fl_pages s = set hs \<union> set ls"
proof -
  assume ok: "freelist_ok s hs ls"
  have "freelist_ok s hs' ls' \<longleftrightarrow> hs' = hs \<and> ls' = ls" for hs' ls'
    using freelist_ok_unique [OF ok] ok by blast
  then show ?thesis by (auto simp: fl_pages_def)
qed

lemma freelist_ok_nonnull: "freelist_ok s hs ls \<Longrightarrow> 0 \<notin> set hs \<union> set ls"
  using lseg_nonzero by (auto simp: freelist_ok_def)

interpretation fl: page_source AllocatePage DeallocPage fl_inv fl_pages "\<lambda>s p. mem s p = 0"
proof unfold_locales
  fix s assume "fl_inv s"
  then obtain hs ls where ok: "freelist_ok s hs ls" by (auto simp: fl_inv_def)
  note eq = fl_pages_eq [OF ok] and spec = AllocatePage_spec [OF ok]
  show "0 \<notin> fl_pages s" using freelist_ok_nonnull [OF ok] eq by simp
  show "finite (fl_pages s)" by (simp add: eq)
  show "AllocatePage s = Inr (s, 0)" if "fl_pages s = {}" using spec eq that by simp
  show "\<exists>s' p. AllocatePage s = Inr (s', p) \<and> p \<in> fl_pages s \<and> fl_inv s' \<and>
          fl_pages s' = fl_pages s - {p}" if "fl_pages s \<noteq> {}"
  proof (cases hs)
    case (Cons p hs')
    with spec obtain s' where s': "AllocatePage s = Inr (s', p)" "freelist_ok s' hs' ls" by auto
    from Cons ok have "p \<notin> set hs' \<union> set ls" by (auto simp: freelist_ok_def)
    then show ?thesis
      using s' eq fl_pages_eq [OF s'(2)] Cons by (auto simp: fl_inv_def)
  next
    case Nil
    with that eq obtain p ls' where ls: "ls = p # ls'" by (cases ls) auto
    with spec Nil obtain s' where s': "AllocatePage s = Inr (s', p)" "freelist_ok s' [] ls'" by auto
    from ls ok have "p \<notin> set ls'" by (auto simp: freelist_ok_def)
    then show ?thesis
      using s' eq fl_pages_eq [OF s'(2)] Nil ls by (auto simp: fl_inv_def)
  qed
  fix p assume p: "p \<noteq> 0" "p \<notin> fl_pages s" "mem s p = 0"
  show "\<exists>s'. DeallocPage p s = Inr s' \<and> fl_inv s' \<and> fl_pages s' = insert p (fl_pages s)"
    using DeallocPage_spec [OF ok p(1)] p(2,3) eq fl_pages_eq
    by (fastforce simp: fl_inv_def set_insort_key split: if_splits)
qed

section \<open>Ownership of pages\<close>

record page_pool =
  pp_fl :: freelist
  pp_owned :: "addr set"

text \<open>
  A client allocates a page, writes the first word of a page it owns, or returns a page whose first
  word it has cleared (see \<open>DeallocPage_singleton_stale\<close> for why the word must be clear).
\<close>

inductive pool_step :: "page_pool \<Rightarrow> page_pool \<Rightarrow> bool" where
  pool_alloc: "AllocatePage (pp_fl p) = Inr (s', a) \<Longrightarrow> a \<noteq> 0 \<Longrightarrow>
     pool_step p (p\<lparr>pp_fl := s', pp_owned := insert a (pp_owned p)\<rparr>)"
| pool_write: "a \<in> pp_owned p \<Longrightarrow>
     pool_step p (p\<lparr>pp_fl := (pp_fl p)\<lparr>mem := (mem (pp_fl p))(a := v)\<rparr>\<rparr>)"
| pool_free: "a \<in> pp_owned p \<Longrightarrow> mem (pp_fl p) a = 0 \<Longrightarrow> DeallocPage a (pp_fl p) = Inr s' \<Longrightarrow>
     pool_step p (p\<lparr>pp_fl := s', pp_owned := pp_owned p - {a}\<rparr>)"

inductive pool_reachable :: "MemoryMap \<Rightarrow> page_pool \<Rightarrow> bool" for mm where
  pool_start: "Freelist_Init mm s0 = Inr s \<Longrightarrow> pool_reachable mm \<lparr>pp_fl = s, pp_owned = {}\<rparr>"
| pool_next: "pool_reachable mm p \<Longrightarrow> pool_step p p' \<Longrightarrow> pool_reachable mm p'"

definition pool_inv :: "addr set \<Rightarrow> page_pool \<Rightarrow> bool" where
  "pool_inv U p \<longleftrightarrow> fl_inv (pp_fl p) \<and> 0 \<notin> pp_owned p \<and>
     pp_owned p \<inter> fl_pages (pp_fl p) = {} \<and> pp_owned p \<union> fl_pages (pp_fl p) = U"

lemma freelist_ok_write:
  assumes "freelist_ok s hs ls" "a \<notin> set hs \<union> set ls"
  shows "freelist_ok (s\<lparr>mem := (mem s)(a := v)\<rparr>) hs ls"
  using assms by (simp add: freelist_ok_def)

lemma pool_step_inv: "pool_step p p' \<Longrightarrow> pool_inv U p \<Longrightarrow> pool_inv U p'"
proof (induction rule: pool_step.induct)
  case (pool_alloc p s' a)
  then show ?case using fl.alloc_cases [of "pp_fl p" s' a] by (auto simp: pool_inv_def)
next
  case (pool_write a p v)
  then obtain hs ls where ok: "freelist_ok (pp_fl p) hs ls" by (auto simp: pool_inv_def fl_inv_def)
  with pool_write have "a \<notin> set hs \<union> set ls" by (auto simp: pool_inv_def fl_pages_eq)
  then have ok': "freelist_ok ((pp_fl p)\<lparr>mem := (mem (pp_fl p))(a := v)\<rparr>) hs ls"
    by (rule freelist_ok_write [OF ok])
  with ok pool_write show ?case by (auto simp: pool_inv_def fl_inv_def fl_pages_eq)
next
  case (pool_free a p s')
  then obtain s'' where "DeallocPage a (pp_fl p) = Inr s''" "fl_inv s''"
      "fl_pages s'' = insert a (fl_pages (pp_fl p))"
    using fl.dealloc_page [of "pp_fl p" a] by (auto simp: pool_inv_def)
  with pool_free show ?case by (auto simp: pool_inv_def)
qed

lemma pool_reachable_inv:
  assumes "pool_reachable mm p" "regions_ok 1 (filter useable (m_entries mm))"
  shows "pool_inv (set (high_pages mm) \<union> set (low_pages mm)) p"
  using assms
proof (induction rule: pool_reachable.induct)
  case (pool_start s0 s)
  with Freelist_Init_ok [OF pool_start(2), of s0]
  have "freelist_ok s (high_pages mm) (low_pages mm)" by auto
  then show ?case by (auto simp: pool_inv_def fl_inv_def fl_pages_eq)
next
  case (pool_next p p')
  then show ?case by (blast intro: pool_step_inv)
qed

section \<open>Properties\<close>

text \<open>A map with three useable regions, two of them below the 32-bit cutoff.\<close>

definition small_map :: MemoryMap where
  "small_map = \<lparr>m_entries =
       [\<lparr>me_base = 0x1000, me_length = 0x2000, me_type = Useable\<rparr>,
        \<lparr>me_base = 0x3000, me_length = 0x1000, me_type = Reserved\<rparr>,
        \<lparr>me_base = 0x8000, me_length = 0x1000, me_type = Useable\<rparr>,
        \<lparr>me_base = 0x100000000, me_length = 0x3000, me_type = Useable\<rparr>] @ replicate 16 empty_entry,
     m_totalUseableBytes = 0\<rparr>"

lemma small_map_regions: "regions_ok 1 (filter useable (m_entries small_map))"
  by (simp add: small_map_def)

text \<open>A list of three pages above the cutoff, two of them adjacent, and one page below it.\<close>

definition three_pages :: freelist where
  "three_pages = \<lparr>mem = (\<lambda>_. 0)(0x100000000 := 0x100005000, 0x100005000 := 0x100006000),
     m_head = 0x100000000, m_lowHead = 0x1000, m_freePagesTop = 3, m_freePagesLow = 1\<rparr>"

lemma three_pages_ok: "freelist_ok three_pages [0x100000000, 0x100005000, 0x100006000] [0x1000]"
  by (simp add: freelist_ok_def three_pages_def)

definition one_page :: freelist where
  "one_page = \<lparr>mem = (\<lambda>_. 0)(0x100005000 := 0xabc), m_head = 0x100000000, m_lowHead = 0,
     m_freePagesTop = 1, m_freePagesLow = 0\<rparr>"

text \<open>
  C1. From a memory map whose useable regions are ascending, disjoint, page-sized and above address 0,
  initialisation succeeds and threads into the high list exactly the pages of the useable regions that
  end above the 32-bit cutoff and into the low list exactly those of the others; both lists are strictly
  ascending and end in null, and the two counters are their lengths.
\<close>

theorem Freelist_Init_builds_lists:
  assumes "regions_ok 1 (filter useable (m_entries mm))"
  shows "\<exists>s'. Freelist_Init mm s = Inr s' \<and>
           chain (mem s') (NextFree s') (high_pages mm) \<and>
           chain (mem s') (NextFreeLow s') (low_pages mm) \<and>
           ascending (high_pages mm) \<and> ascending (low_pages mm) \<and>
           m_freePagesTop s' = of_nat (length (high_pages mm)) \<and>
           m_freePagesLow s' = of_nat (length (low_pages mm))"
  using Freelist_Init_ok [OF assms, of s]
  by (auto simp: freelist_ok_def NextFree_def NextFreeLow_def)

theorem Freelist_Init_builds_lists_witness:
  "\<exists>s'. Freelist_Init small_map one_page = Inr s' \<and>
     chain (mem s') (NextFree s') [0x100000000, 0x100001000, 0x100002000] \<and>
     chain (mem s') (NextFreeLow s') [0x1000, 0x2000, 0x8000]"
proof -
  have "high_pages small_map = [0x100000000, 0x100001000, 0x100002000]"
       "low_pages small_map = [0x1000, 0x2000, 0x8000]"
    by (simp_all add: small_map_def high_pages_def low_pages_def region_pages_def
          CUTOFF_def PAGESIZE_def)
  with Freelist_Init_builds_lists [OF small_map_regions, of one_page] show ?thesis by metis
qed

text \<open>
  On a well-formed free list \<open>AllocatePage\<close> returns the lowest free page above the cutoff, or the
  lowest one below it when there is none above, or null when both lists are empty; the page leaves
  its list, its link is cleared and exactly the counter of its list goes down.
\<close>

theorem AllocatePage_takes_lowest:
  assumes "freelist_ok s hs ls"
  shows "\<exists>s' p. AllocatePage s = Inr (s', p) \<and>
           (if hs \<noteq> []
            then p = Min (set hs) \<and> freelist_ok s' (remove1 p hs) ls \<and> mem s' p = 0 \<and>
                 m_freePagesTop s' = m_freePagesTop s - 1 \<and> m_freePagesLow s' = m_freePagesLow s
            else if ls \<noteq> []
            then p = Min (set ls) \<and> freelist_ok s' hs (remove1 p ls) \<and> mem s' p = 0 \<and>
                 m_freePagesTop s' = m_freePagesTop s \<and> m_freePagesLow s' = m_freePagesLow s - 1
            else p = 0 \<and> s' = s)"
proof -
  have Min_eq: "Min (set (x # xs)) = x" if "ascending (x # xs)" for x and xs :: "addr list"
    using that by (intro Min_eqI) (auto simp: less_imp_le)
  from AllocatePage_spec [OF assms] assms show ?thesis
    using Min_eq [of "hd hs" "tl hs"] Min_eq [of "hd ls" "tl ls"]
    by (cases hs; cases ls) (auto simp: freelist_ok_def simp del: Min_insert)
qed

theorem AllocatePage_takes_lowest_witness:
  "\<exists>s'. AllocatePage three_pages = Inr (s', 0x100000000) \<and>
     freelist_ok s' [0x100005000, 0x100006000] [0x1000]"
proof -
  have "Min {0x100000000, 0x100005000, 0x100006000 :: addr} = 0x100000000" by simp
  with AllocatePage_takes_lowest [OF three_pages_ok] show ?thesis by auto
qed

text \<open>
  C6. Returning a page to a well-formed free list inserts it at its place in the ascending list of its
  side of the cutoff, raises that list's counter and leaves the other list alone, provided the
  page's first word is clear or the list has not exactly one element.
\<close>

theorem DeallocPage_sorted_insert:
  assumes "freelist_ok s hs ls" "b \<noteq> 0" "b \<notin> set hs \<union> set ls"
    and "mem s b = 0 \<or> length (if b \<le> CUTOFF then ls else hs) \<noteq> 1"
  shows "\<exists>s'. DeallocPage b s = Inr s' \<and>
           (if b \<le> CUTOFF then freelist_ok s' hs (insort b ls) else freelist_ok s' (insort b hs) ls)"
  by (rule DeallocPage_spec [OF assms])

theorem DeallocPage_sorted_insert_witness:
  "\<exists>s'. DeallocPage 0x100003000 three_pages = Inr s' \<and>
     freelist_ok s' [0x100000000, 0x100003000, 0x100005000, 0x100006000] [0x1000]"
  using DeallocPage_sorted_insert [OF three_pages_ok, of "0x100003000"] by (simp add: CUTOFF_def)

text \<open>
  C39. Without that proviso the list is corrupted: when the high list has one page and a higher page is
  returned, the operation links it without writing its own link, so the list continues with
  whatever the freed page's first word holds.
\<close>

theorem DeallocPage_stale_link:
  assumes "freelist_ok s [x] ls" "x < b" "CUTOFF < b"
  shows "\<exists>s'. DeallocPage b s = Inr s' \<and> lseg (mem s') (m_head s') [x, b] (mem s b)"
proof -
  from assms have "m_head s = x" "x \<noteq> 0" "mem s x = 0" by (auto simp: freelist_ok_def)
  then show ?thesis
    using assms(2,3) by (auto simp: DeallocPage_def DeallocPageImpl_def)
qed

theorem DeallocPage_stale_link_witness:
  "\<exists>s'. DeallocPage 0x100005000 one_page = Inr s' \<and>
     lseg (mem s') (m_head s') [0x100000000, 0x100005000] 0xabc"
  using DeallocPage_stale_link [of one_page "0x100000000" "[]" "0x100005000"]
  by (simp add: freelist_ok_def one_page_def CUTOFF_def)

text \<open>
  Allocating a page and returning it restores the allocator: the same free lists and the same
  counters.
\<close>

theorem alloc_dealloc_roundtrip:
  assumes "freelist_ok s hs ls" "\<forall>p \<in> set hs. CUTOFF < p" "\<forall>p \<in> set ls. p \<le> CUTOFF"
    and "AllocatePage s = Inr (s', p)" "p \<noteq> 0"
  shows "\<exists>s''. DeallocPage p s' = Inr s'' \<and> freelist_ok s'' hs ls"
proof -
  have insort_min: "insort x xs = x # xs" if "ascending (x # xs)" for x and xs :: "addr list"
    using that by (cases xs) (auto simp: less_imp_le)
  show ?thesis
  proof (cases hs)
    case (Cons h hs')
    with AllocatePage_spec [OF assms(1)] assms(4) have s': "p = h" "freelist_ok s' hs' ls" "mem s' p = 0"
      by auto
    with Cons assms have "p \<notin> set hs' \<union> set ls" "\<not> p \<le> CUTOFF"
      by (auto simp: freelist_ok_def)
    with DeallocPage_spec [OF s'(2) assms(5)] s' Cons insort_min [of h hs'] assms(1) show ?thesis
      by (auto simp: freelist_ok_def)
  next
    case Nil
    with AllocatePage_spec [OF assms(1)] assms(4,5) obtain l ls' where s': "ls = l # ls'" "p = l"
        "freelist_ok s' [] ls'" "mem s' p = 0"
      by (cases ls) auto
    with assms have "p \<notin> set ls'" "p \<le> CUTOFF" by (auto simp: freelist_ok_def)
    with DeallocPage_spec [OF s'(3) assms(5)] s' Nil insort_min [of l ls'] assms(1) show ?thesis
      by (auto simp: freelist_ok_def)
  qed
qed

theorem alloc_dealloc_roundtrip_witness:
  "\<exists>s' s''. AllocatePage three_pages = Inr (s', 0x100000000) \<and>
     DeallocPage 0x100000000 s' = Inr s'' \<and>
     freelist_ok s'' [0x100000000, 0x100005000, 0x100006000] [0x1000]"
proof -
  obtain s' where s': "AllocatePage three_pages = Inr (s', 0x100000000)"
    using AllocatePage_spec [OF three_pages_ok] by auto
  with alloc_dealloc_roundtrip [OF three_pages_ok _ _ s'] show ?thesis by (simp add: CUTOFF_def)
qed

text \<open>
  C3. The pages are conserved under every interleaving of allocations, writes into owned pages and
  deallocations of cleared pages: at any time the pages owned by clients and the two free lists
  partition the useable pages of the memory map.
\<close>

theorem pool_pages_conserved:
  assumes "regions_ok 1 (filter useable (m_entries mm))" "pool_reachable mm p"
  shows "\<exists>hs ls. freelist_ok (pp_fl p) hs ls \<and> pp_owned p \<inter> (set hs \<union> set ls) = {} \<and>
           pp_owned p \<union> set hs \<union> set ls = set (high_pages mm) \<union> set (low_pages mm)"
proof -
  have inv: "pool_inv (set (high_pages mm) \<union> set (low_pages mm)) p"
    using assms by (intro pool_reachable_inv)
  then obtain hs ls where ok: "freelist_ok (pp_fl p) hs ls" by (auto simp: pool_inv_def fl_inv_def)
  with inv show ?thesis by (auto simp: pool_inv_def fl_pages_eq)
qed

lemma small_map_started: "\<exists>s. pool_reachable small_map \<lparr>pp_fl = s, pp_owned = {}\<rparr>"
  using Freelist_Init_ok [OF small_map_regions, of one_page] by (auto intro: pool_start)

theorem pool_pages_conserved_witness:
  "\<exists>p hs ls. pool_reachable small_map p \<and> freelist_ok (pp_fl p) hs ls \<and>
     pp_owned p \<union> set hs \<union> set ls = set (high_pages small_map) \<union> set (low_pages small_map)"
  using small_map_started pool_pages_conserved [OF small_map_regions] by blast

text \<open>
  C4. No page is ever handed out twice: in every reachable state an allocation returns null or a page
  of the memory map that no client owns.
\<close>

theorem pool_no_double_allocation:
  assumes "regions_ok 1 (filter useable (m_entries mm))" "pool_reachable mm p"
  shows "\<exists>s' a. AllocatePage (pp_fl p) = Inr (s', a) \<and>
           (a = 0 \<or> a \<notin> pp_owned p \<and> a \<in> set (high_pages mm) \<union> set (low_pages mm))"
proof -
  note inv = pool_reachable_inv [OF assms(2,1)]
  then obtain s' a where a: "AllocatePage (pp_fl p) = Inr (s', a)"
    using fl.alloc_none [of "pp_fl p"] fl.alloc_some [of "pp_fl p"] by (auto simp: pool_inv_def)
  with inv fl.alloc_cases [of "pp_fl p" s' a] show ?thesis by (auto simp: pool_inv_def)
qed

theorem pool_no_double_allocation_witness:
  "\<exists>p s' a. pool_reachable small_map p \<and> AllocatePage (pp_fl p) = Inr (s', a) \<and>
     (a = 0 \<or> a \<notin> pp_owned p)"
  using small_map_started pool_no_double_allocation [OF small_map_regions] by blast

text \<open>
  The variant of \<open>AllocatePage\<close> that takes options, on every path: when the list it selects is
  empty it dereferences null (the plain variant returns null); otherwise it pops the head of that
  list, zeroing the page for \<open>Z\<close>, and leaves both page counters as they were although a page has
  left the list.
\<close>

theorem AllocatePageOpt_paths:
  "AllocatePageOpt memset options s =
     (if NextFreeLow s = 0 \<and> options = LOW \<or> NextFree s = 0 \<and> options = Z then Inl NullDeref
      else if options = LOW
      then Inr (s\<lparr>mem := (mem s)(m_lowHead s := 0), m_lowHead := mem s (m_lowHead s)\<rparr>, m_lowHead s)
      else Inr (s\<lparr>mem := memset ((mem s)(m_head s := 0)) (m_head s) 0 PAGESIZE,
                  m_head := mem s (m_head s)\<rparr>, m_head s))"
  by (cases options)
     (auto simp: AllocatePageOpt_def AllocatePageImpl_def store_def rbind_def NextFree_def
        NextFreeLow_def Let_def)

end
