(* ===== verification/Page_Spec.thy ===== *)
theory Page_Spec
  imports Page_Pool
begin

text \<open>
  The abstract page allocator and its refinement.  The specification knows two sets of free pages and what its clients
  have written to the pages they own; the free lists of \<open>Page_Freelist\<close> are an implementation: the same requests get
  the same answers.
\<close>

section \<open>Specification\<close>

record page_spec =
  ps_high :: "addr set"
  ps_low :: "addr set"
  ps_own :: "addr \<rightharpoonup> u64"

datatype page_op = PAlloc | PWrite addr u64 | PFree addr

definition spec_take :: "addr \<Rightarrow> page_spec \<Rightarrow> page_spec" where
  "spec_take p a = a\<lparr>ps_high := ps_high a - {p}, ps_low := ps_low a - {p}, ps_own := (ps_own a)(p \<mapsto> 0)\<rparr>"

text \<open>The lowest page above the cutoff, else the lowest below it, else null.\<close>

definition spec_choice :: "page_spec \<Rightarrow> addr" where
  "spec_choice a = (if ps_high a \<noteq> {} then Min (ps_high a) else if ps_low a \<noteq> {} then Min (ps_low a) else 0)"

fun spec_step :: "page_op \<Rightarrow> page_spec \<Rightarrow> page_spec \<times> addr" where
  "spec_step PAlloc a = (let p = spec_choice a in (if p = 0 then a else spec_take p a, p))"
| "spec_step (PWrite p v) a = (a\<lparr>ps_own := (ps_own a)(p \<mapsto> v)\<rparr>, 0)"
| "spec_step (PFree p) a =
     ((if p \<le> CUTOFF then a\<lparr>ps_low := insert p (ps_low a), ps_own := (ps_own a)(p := None)\<rparr>
       else a\<lparr>ps_high := insert p (ps_high a), ps_own := (ps_own a)(p := None)\<rparr>), 0)"

fun spec_run :: "page_op list \<Rightarrow> page_spec \<Rightarrow> page_spec \<times> addr list" where
  "spec_run [] a = (a, [])"
| "spec_run (c # cs) a = (let (a, x) = spec_step c a; (a, xs) = spec_run cs a in (a, x # xs))"

text \<open>Clients write to and return pages they own, and clear the first word before they return one.\<close>

fun spec_legal :: "page_op list \<Rightarrow> page_spec \<Rightarrow> bool" where
  "spec_legal [] a = True"
| "spec_legal (c # cs) a =
     ((case c of PAlloc \<Rightarrow> True | PWrite p v \<Rightarrow> ps_own a p \<noteq> None | PFree p \<Rightarrow> ps_own a p = Some 0) \<and>
      spec_legal cs (fst (spec_step c a)))"

section \<open>Implementation\<close>

fun fl_step :: "page_op \<Rightarrow> freelist \<Rightarrow> (freelist \<times> addr) result" where
  "fl_step PAlloc s = AllocatePage s"
| "fl_step (PWrite p v) s = rbind (store (mem s) p v) (\<lambda>m. Inr (s\<lparr>mem := m\<rparr>, 0))"
| "fl_step (PFree p) s = rbind (DeallocPage p s) (\<lambda>s. Inr (s, 0))"

fun fl_run :: "page_op list \<Rightarrow> freelist \<Rightarrow> (freelist \<times> addr list) result" where
  "fl_run [] s = Inr (s, [])"
| "fl_run (c # cs) s = rbind (fl_step c s) (\<lambda>(s, x). rbind (fl_run cs s) (\<lambda>(s, xs). Inr (s, x # xs)))"

section \<open>Simulation\<close>

definition refines :: "freelist \<Rightarrow> page_spec \<Rightarrow> bool" where
  "refines s a \<longleftrightarrow> (\<exists>hs ls. freelist_ok s hs ls \<and> set hs = ps_high a \<and> set ls = ps_low a) \<and>
     (\<forall>p w. ps_own a p = Some w \<longrightarrow> p \<noteq> 0 \<and> mem s p = w \<and> p \<notin> ps_high a \<union> ps_low a)"

lemma AllocatePage_frame: "AllocatePage s = Inr (s', p) \<Longrightarrow> q \<noteq> p \<Longrightarrow> mem s' q = mem s q"
  by (auto simp: AllocatePage_def AllocatePageImpl_def store_def rbind_eq_Inr Let_def split: if_splits prod.splits)

lemma DeallocPage_frame:
  assumes "freelist_ok s hs ls" "b \<noteq> 0" "b \<notin> set hs \<union> set ls" "mem s b = 0" "DeallocPage b s = Inr s'"
    and "q \<notin> insert b (set hs \<union> set ls)"
  shows "mem s' q = mem s q"
proof -
  have "\<exists>m' h'. DeallocPageImpl (mem s) (if b \<le> CUTOFF then m_lowHead s else m_head s) b = Inr (m', h') \<and>
      chain m' h' (insort b (if b \<le> CUTOFF then ls else hs)) \<and>
      (\<forall>y. y \<notin> insert b (set (if b \<le> CUTOFF then ls else hs)) \<longrightarrow> m' y = mem s y)"
    by (rule DeallocPageImpl_inserts) (use assms(1-4) in \<open>auto simp: freelist_ok_def\<close>)
  with assms show ?thesis by (auto simp: DeallocPage_def split: if_splits)
qed

lemma refinesI:
  assumes "freelist_ok s hs ls" "set hs = ps_high a" "set ls = ps_low a"
    and "\<And>p w. ps_own a p = Some w \<Longrightarrow> p \<noteq> 0 \<and> mem s p = w \<and> p \<notin> ps_high a \<union> ps_low a"
  shows "refines s a"
  using assms unfolding refines_def by blast

lemma Min_ascending: "ascending (x # xs) \<Longrightarrow> Min (set (x # xs)) = (x :: addr)"
  by (intro Min_eqI) (auto simp: less_imp_le)

lemma refines_take:
  assumes "refines s a" "AllocatePage s = Inr (s', p)" "p \<noteq> 0" "mem s' p = 0"
    and "freelist_ok s' hs' ls'" "set hs' = ps_high a - {p}" "set ls' = ps_low a - {p}"
  shows "refines s' (spec_take p a)"
  using assms AllocatePage_frame [OF assms(2)]
  by (intro refinesI [OF assms(5)]) (auto simp: refines_def spec_take_def split: if_splits)

lemma simulation_alloc:
  assumes "refines s a"
  shows "\<exists>s'. AllocatePage s = Inr (s', spec_choice a) \<and> refines s' (fst (spec_step PAlloc a))"
proof -
  from assms obtain hs ls where ok: "freelist_ok s hs ls" "set hs = ps_high a" "set ls = ps_low a"
    by (auto simp: refines_def)
  note spec = AllocatePage_spec [OF ok(1)]
  show ?thesis
  proof (cases hs)
    case (Cons p hs')
    with spec obtain s' where s': "AllocatePage s = Inr (s', p)" "freelist_ok s' hs' ls" "mem s' p = 0" "p \<noteq> 0"
      by auto
    have "Min (ps_high a) = p" using Min_ascending [of p hs'] ok Cons by (simp add: freelist_ok_def)
    then have c: "spec_choice a = p" using ok Cons by (auto simp: spec_choice_def)
    have "set hs' = ps_high a - {p}" "set ls = ps_low a - {p}"
      using ok Cons by (auto simp: freelist_ok_def)
    with refines_take [OF assms s'(1,4,3,2)] s' c show ?thesis by (simp add: Let_def)
  next
    case Nil
    then have h: "ps_high a = {}" using ok by simp
    show ?thesis
    proof (cases ls)
      case (Cons p ls')
      with Nil spec obtain s' where s': "AllocatePage s = Inr (s', p)" "freelist_ok s' [] ls'" "mem s' p = 0" "p \<noteq> 0"
        by auto
      have "Min (ps_low a) = p" using Min_ascending [of p ls'] ok Cons by (simp add: freelist_ok_def)
      then have c: "spec_choice a = p" using ok Cons h by (auto simp: spec_choice_def)
      have "set [] = ps_high a - {p}" "set ls' = ps_low a - {p}"
        using ok Cons h by (auto simp: freelist_ok_def)
      with refines_take [OF assms s'(1,4,3,2)] s' c show ?thesis by (simp add: Let_def)
    next
      case ls: Nil
      with Nil spec ok h assms show ?thesis by (simp add: spec_choice_def Let_def)
    qed
  qed
qed

lemma simulation_step:
  assumes "refines s a" "spec_legal [c] a"
  shows "\<exists>s'. fl_step c s = Inr (s', snd (spec_step c a)) \<and> refines s' (fst (spec_step c a))"
proof (cases c)
  case PAlloc
  then show ?thesis using simulation_alloc [OF assms(1)] by (simp add: Let_def)
next
  case (PWrite p v)
  from assms obtain hs ls where ok: "freelist_ok s hs ls" "set hs = ps_high a" "set ls = ps_low a"
    by (auto simp: refines_def)
  from assms PWrite have p: "p \<noteq> 0" "p \<notin> set hs \<union> set ls" using ok by (auto simp: refines_def)
  from freelist_ok_write [OF ok(1) p(2), of v] PWrite p ok assms(1) show ?thesis
    by (auto simp: refines_def)
next
  case (PFree p)
  from assms obtain hs ls where ok: "freelist_ok s hs ls" "set hs = ps_high a" "set ls = ps_low a"
    by (auto simp: refines_def)
  from assms PFree have p: "p \<noteq> 0" "p \<notin> set hs \<union> set ls" "mem s p = 0" using ok by (auto simp: refines_def)
  from DeallocPage_spec [OF ok(1) p(1,2)] p(3) obtain s' where s': "DeallocPage p s = Inr s'"
      "if p \<le> CUTOFF then freelist_ok s' hs (insort p ls) else freelist_ok s' (insort p hs) ls" by blast
  have frame: "mem s' q = mem s q" if "q \<notin> insert p (set hs \<union> set ls)" for q
    using DeallocPage_frame [OF ok(1) p s'(1) that] .
  have own: "q \<notin> insert p (set hs \<union> set ls)" "mem s q = w" "q \<noteq> 0"
    if "q \<noteq> p" "ps_own a q = Some w" for q w
    using assms(1) that ok by (auto simp: refines_def)
  obtain hs' ls' where ok': "freelist_ok s' hs' ls'"
    "set hs' = (if p \<le> CUTOFF then ps_high a else insert p (ps_high a))"
    "set ls' = (if p \<le> CUTOFF then insert p (ps_low a) else ps_low a)"
    using s'(2) ok by (cases "p \<le> CUTOFF") (auto simp: set_insort_key)
  have "refines s' (fst (spec_step c a))"
    using PFree ok ok' own frame by (intro refinesI [OF ok'(1)]) (auto split: if_splits)
  then show ?thesis using s' PFree by simp
qed

lemma simulation_run:
  assumes "refines s a" "spec_legal cs a"
  shows "\<exists>s'. fl_run cs s = Inr (s', snd (spec_run cs a)) \<and> refines s' (fst (spec_run cs a))"
  using assms
proof (induction cs arbitrary: s a)
  case (Cons c cs)
  then obtain s1 where "fl_step c s = Inr (s1, snd (spec_step c a))" "refines s1 (fst (spec_step c a))"
    using simulation_step [of s a c] by auto
  with Cons.IH [of s1 "fst (spec_step c a)"] Cons.prems(2) show ?case
    by (fastforce simp: Let_def split: prod.splits)
qed simp

text \<open>
  C2. The page allocator implements its abstract specification: after initialisation from a memory map, every legal
  sequence of allocations, writes to owned pages and returns of pages gets from the free lists exactly the addresses
  the specification chooses, always the lowest free page above the cutoff, then the lowest below it, then null.
\<close>

theorem page_allocator_refines_spec:
  assumes "regions_ok 1 (filter useable (m_entries mm))"
    and "spec_legal cs \<lparr>ps_high = set (high_pages mm), ps_low = set (low_pages mm), ps_own = Map.empty\<rparr>"
  shows "\<exists>s s'. Freelist_Init mm s0 = Inr s \<and> fl_run cs s = Inr (s', snd (spec_run cs
           \<lparr>ps_high = set (high_pages mm), ps_low = set (low_pages mm), ps_own = Map.empty\<rparr>))"
proof -
  from Freelist_Init_ok [OF assms(1)] obtain s
    where s: "Freelist_Init mm s0 = Inr s" "freelist_ok s (high_pages mm) (low_pages mm)" by blast
  then have "refines s \<lparr>ps_high = set (high_pages mm), ps_low = set (low_pages mm), ps_own = Map.empty\<rparr>"
    by (auto simp: refines_def)
  from simulation_run [OF this assms(2)] s(1) show ?thesis by blast
qed

theorem page_allocator_refines_spec_witness:
  "\<exists>s s'. Freelist_Init small_map one_page = Inr s \<and>
     fl_run [PAlloc, PAlloc, PWrite 0x100000000 7, PWrite 0x100000000 0, PFree 0x100000000, PAlloc, PAlloc, PAlloc] s
       = Inr (s', [0x100000000, 0x100001000, 0, 0, 0, 0x100000000, 0x100002000, 0x1000])"
proof -
  let ?a = "\<lparr>ps_high = set (high_pages small_map), ps_low = set (low_pages small_map), ps_own = Map.empty\<rparr>"
  let ?cs = "[PAlloc, PAlloc, PWrite 0x100000000 7, PWrite 0x100000000 0, PFree 0x100000000, PAlloc, PAlloc, PAlloc]"
  have pages: "high_pages small_map = [0x100000000, 0x100001000, 0x100002000]"
    "low_pages small_map = [0x1000, 0x2000, 0x8000]"
    by (simp_all add: small_map_def high_pages_def low_pages_def region_pages_def CUTOFF_def PAGESIZE_def)
  have "spec_legal ?cs ?a"
    unfolding pages by code_simp
  moreover have "snd (spec_run ?cs ?a) = [0x100000000, 0x100001000, 0, 0, 0, 0x100000000, 0x100002000, 0x1000]"
    unfolding pages by code_simp
  ultimately show ?thesis
    using page_allocator_refines_spec [OF small_map_regions, of ?cs one_page] by simp
qed

end
