(* ===== verification/Fuzz_Checks.thy ===== *)
theory Fuzz_Checks
  imports Page_Pool
begin

text \<open>
  The integrity checks of the page allocator's fuzzer (\<open>kernel/unit_tests/allocators/page_allocator/fuzzing/integrity_check.hpp\<close>).
  A check gets a list handle and reads the links; the model gives it the memory and the pointer in the handle.  The two
  searches for cycles are partial functions, whose None is a loop that does not end.
\<close>

section \<open>The checks\<close>

fun sorted_walk :: "nat \<Rightarrow> heap \<Rightarrow> addr \<Rightarrow> addr \<Rightarrow> bool result" where
  "sorted_walk 0 m current next = Inl Diverges"
| "sorted_walk (Suc n) m current next =
     (if next = 0 then Inr True
      else if next < current then Inr False
      else rbind (load m next) (sorted_walk n m next))"

definition CheckSorted :: "heap \<Rightarrow> addr \<Rightarrow> bool result" where
  "CheckSorted m head =
     (if head = 0 then Inr True
      else rbind (load m head) (\<lambda>next. if next = 0 then Inr True else sorted_walk walk_fuel m head next))"

partial_function (option) no_cycle_loop :: "heap \<Rightarrow> addr \<Rightarrow> addr \<Rightarrow> bool result option" where
  "no_cycle_loop m current next =
     (if current = 0 \<or> next = 0 then Some (Inl NullDeref)
      else if m next = 0 then Some (Inr True)
      else if m (m next) = 0 then Some (Inr True)
      else if m current = m (m next) then Some (Inr False)
      else no_cycle_loop m (m current) (m (m next)))"

definition CheckNoCycle :: "heap \<Rightarrow> addr \<Rightarrow> bool result" where
  "CheckNoCycle m head =
     (if head = 0 then Inr True
      else rbind (load m head) (\<lambda>next.
        if next = 0 then Inr True
        else case no_cycle_loop m head next of None \<Rightarrow> Inl Diverges | Some r \<Rightarrow> r))"

partial_function (option) no_dupes_loop :: "heap \<Rightarrow> addr set \<Rightarrow> addr \<Rightarrow> bool result option" where
  "no_dupes_loop m visited current =
     (if current = 0 then Some (Inl NullDeref)
      else if m current = 0 then Some (Inr True)
      else if m current \<in> visited then Some (Inr False)
      else no_dupes_loop m visited (m current))"

definition CheckNoDupes :: "heap \<Rightarrow> addr \<Rightarrow> bool result" where
  "CheckNoDupes m head =
     (if head = 0 then Inr True
      else case no_dupes_loop m {head} head of None \<Rightarrow> Inl Diverges | Some r \<Rightarrow> r)"

section \<open>Sortedness\<close>

lemma sorted_walk_chain:
  "chain m next ys \<Longrightarrow> length ys < n \<Longrightarrow> sorted_walk n m current next = Inr (sorted (current # ys))"
proof (induction ys arbitrary: n current "next")
  case Nil
  then show ?case by (cases n) auto
next
  case (Cons y ys)
  then obtain k where n: "n = Suc k" by (cases n) auto
  from Cons have y: "next = y" "y \<noteq> 0" "chain m (m y) ys" by auto
  have "sorted (current # y # ys) \<longleftrightarrow> current \<le> y \<and> sorted (y # ys)" by auto
  with Cons.IH [OF y(3), of k y] Cons.prems n y show ?case by (auto simp: not_less)
qed

lemma CheckSorted_chain:
  assumes "chain m head xs"
  shows "CheckSorted m head = Inr (sorted xs)"
proof (cases xs)
  case (Cons x ys)
  with assms have x: "head = x" "x \<noteq> 0" "chain m (m x) ys" by auto
  have "length xs \<le> walk_fuel" using assms by (rule chain_length_fuel)
  then have "sorted_walk walk_fuel m x (m x) = Inr (sorted (x # ys))"
    using x(3) Cons by (intro sorted_walk_chain) auto
  moreover have "ys = []" if "m x = 0" using x(3) that by simp
  ultimately show ?thesis using x Cons by (auto simp: CheckSorted_def)
qed (use assms in \<open>simp add: CheckSorted_def\<close>)

section \<open>Following the links\<close>

lemma iterates_chain: "chain m p xs \<Longrightarrow> (m ^^ length xs) p = 0 \<and> (\<forall>i<length xs. (m ^^ i) p \<noteq> 0)"
proof (induction xs arbitrary: p)
  case (Cons x xs)
  then have p: "p = x" "x \<noteq> 0" and IH: "(m ^^ length xs) (m x) = 0" "\<And>i. i < length xs \<Longrightarrow> (m ^^ i) (m x) \<noteq> 0"
    by auto
  have "(m ^^ i) x \<noteq> 0" if "i < Suc (length xs)" for i
    using that p IH(2) by (cases i) (auto simp: funpow_swap1)
  then show ?case using IH(1) p by (auto simp: funpow_swap1)
qed simp

lemma chain_iterates:
  "(m ^^ n) p = 0 \<Longrightarrow> (\<And>i. i < n \<Longrightarrow> (m ^^ i) p \<noteq> 0) \<Longrightarrow> chain m p (map (\<lambda>i. (m ^^ i) p) [0..<n])"
proof (induction n arbitrary: p)
  case (Suc n)
  have nz: "(m ^^ i) (m p) \<noteq> 0" if "i < n" for i using Suc.prems(2) [of "Suc i"] that by (simp add: funpow_swap1)
  have "chain m (m p) (map (\<lambda>i. (m ^^ i) (m p)) [0..<n])"
    by (rule Suc.IH) (use Suc.prems(1) nz in \<open>auto simp: funpow_swap1\<close>)
  moreover have "map (\<lambda>i. (m ^^ i) p) [0..<Suc n] = p # map (\<lambda>i. (m ^^ i) (m p)) [0..<n]"
    by (simp add: upt_conv_Cons map_Suc_upt [symmetric] funpow_swap1 del: upt_Suc)
  moreover have "p \<noteq> 0" using Suc.prems(2) [of 0] by simp
  ultimately show ?case by simp
qed simp

text \<open>A list ends exactly when following the links from its head meets null.\<close>

lemma ends_iff: "(\<exists>xs. chain m p xs) \<longleftrightarrow> (\<exists>n. (m ^^ n) p = 0)"
proof
  assume "\<exists>n. (m ^^ n) p = 0"
  then have "(m ^^ (LEAST n. (m ^^ n) p = 0)) p = 0" by (rule LeastI_ex)
  moreover have "(m ^^ i) p \<noteq> 0" if "i < (LEAST n. (m ^^ n) p = 0)" for i using that not_less_Least by blast
  ultimately show "\<exists>xs. chain m p xs" using chain_iterates by blast
qed (blast dest: iterates_chain)

lemma chain_nth: "chain m p xs \<Longrightarrow> i < length xs \<Longrightarrow> (m ^^ i) p = xs ! i"
proof (induction xs arbitrary: p i)
  case (Cons x xs)
  then show ?case by (cases i) (auto simp: funpow_swap1)
qed simp

lemma iterates_distinct:
  "chain m p xs \<Longrightarrow> i < length xs \<Longrightarrow> j < length xs \<Longrightarrow> (m ^^ i) p = (m ^^ j) p \<Longrightarrow> i = j"
  using chain_distinct chain_nth nth_eq_iff_index_eq by metis

section \<open>The tortoise and the hare\<close>

lemma no_cycle_loop_ends:
  assumes "chain m p xs"
  shows "2 * k + 1 < length xs \<Longrightarrow> no_cycle_loop m ((m ^^ k) p) ((m ^^ (2 * k + 1)) p) = Some (Inr True)"
proof (induction "length xs - 2 * k" arbitrary: k rule: less_induct)
  case less
  let ?N = "\<lambda>i. (m ^^ i) p"
  have nz: "?N i = 0 \<longleftrightarrow> i = length xs" if "i \<le> length xs" for i
    using iterates_chain [OF assms] that by (cases "i = length xs") auto
  have step: "m (?N k) = ?N (Suc k)" "m (?N (2 * k + 1)) = ?N (2 * k + 2)" "m (?N (2 * k + 2)) = ?N (2 * Suc k + 1)"
    by simp_all
  show ?case
  proof (cases "2 * Suc k + 1 < length xs")
    case True
    have "Suc k = 2 * Suc k + 1" if "?N (Suc k) = ?N (2 * Suc k + 1)"
      using iterates_distinct [OF assms _ True that] True by simp
    then have "?N (Suc k) \<noteq> ?N (2 * Suc k + 1)" by auto
    moreover have "no_cycle_loop m (?N (Suc k)) (?N (2 * Suc k + 1)) = Some (Inr True)"
      by (rule less.hyps) (use True in auto)
    ultimately show ?thesis
      using nz [of k] nz [of "2 * k + 1"] nz [of "2 * k + 2"] nz [of "2 * Suc k + 1"] True
      by (subst no_cycle_loop.simps, unfold step) (simp del: funpow.simps)
  next
    case False
    then have "2 * k + 2 = length xs \<or> 2 * Suc k + 1 = length xs" using less.prems by auto
    then have "?N (2 * k + 2) = 0 \<or> ?N (2 * Suc k + 1) = 0" using iterates_chain [OF assms] by metis
    then show ?thesis
      using nz [of k] nz [of "2 * k + 1"] less.prems by (subst no_cycle_loop.simps, unfold step) (auto simp del: funpow.simps)
  qed
qed

lemma no_cycle_loop_meets:
  assumes nz: "\<And>i. (m ^^ i) p \<noteq> 0" and t: "(m ^^ t) p = (m ^^ (2 * t + 1)) p"
  shows "k < t \<Longrightarrow> no_cycle_loop m ((m ^^ k) p) ((m ^^ (2 * k + 1)) p) = Some (Inr False)"
proof (induction "t - k" arbitrary: k rule: less_induct)
  case less
  let ?N = "\<lambda>i. (m ^^ i) p"
  have step: "m (?N k) = ?N (Suc k)" "m (?N (2 * k + 1)) = ?N (2 * k + 2)" "m (?N (2 * k + 2)) = ?N (2 * Suc k + 1)"
    by simp_all
  show ?case
  proof (cases "?N (Suc k) = ?N (2 * Suc k + 1)")
    case True
    then show ?thesis using nz by (subst no_cycle_loop.simps, unfold step) (simp del: funpow.simps)
  next
    case False
    with less.prems t have "Suc k < t" by (cases "Suc k = t") auto
    then have "no_cycle_loop m (?N (Suc k)) (?N (2 * Suc k + 1)) = Some (Inr False)" by (intro less.hyps) auto
    with False show ?thesis using nz by (subst no_cycle_loop.simps, unfold step) (simp del: funpow.simps)
  qed
qed

text \<open>Addresses are finitely many, so a walk that never meets null repeats itself, and the hare catches the tortoise.\<close>

lemma hare_meets_tortoise:
  fixes m :: heap
  shows "\<exists>t>0. (m ^^ t) p = (m ^^ (2 * t + 1)) p"
proof -
  let ?N = "\<lambda>i. (m ^^ i) p"
  have "\<not> inj ?N"
    using finite_imageD [of ?N UNIV] finite_subset [of "range ?N" UNIV] infinite_UNIV_nat by auto
  then obtain i j where "i < j" "?N i = ?N j" unfolding inj_on_def by (metis linorder_neqE_nat UNIV_I)
  then obtain d where d: "0 < d" "?N (i + d) = ?N i" by (metis less_imp_add_positive)
  have period: "?N (a + d) = ?N a" if "i \<le> a" for a
  proof -
    obtain b where b: "a = b + i" using \<open>i \<le> a\<close> by (metis le_add_diff_inverse2)
    have "?N (b + (i + d)) = ?N (b + i)" unfolding funpow_add o_def using d(2) by (simp add: funpow_add)
    with b show ?thesis by (simp add: ac_simps)
  qed
  have periods: "?N (a + c * d) = ?N a" if "i \<le> a" for a c
  proof (induction c)
    case (Suc c)
    have "?N (a + Suc c * d) = ?N ((a + c * d) + d)" by (simp add: ac_simps)
    with Suc period [of "a + c * d"] that show ?case by simp
  qed simp
  define c where "c = (i + 2) * d"
  have "(i + 2) * 1 \<le> c" unfolding c_def using d(1) by (intro mult_le_mono) auto
  then have c: "i \<le> c - 1" "0 < c - 1" "2 * (c - 1) + 1 = (c - 1) + c" by simp_all
  have "?N (2 * (c - 1) + 1) = ?N (c - 1)"
    unfolding c(3) using periods [OF c(1), of "i + 2"] by (simp add: c_def)
  with c(2) show ?thesis by metis
qed

lemma CheckNoCycle_iff: "CheckNoCycle m head = Inr (\<exists>xs. chain m head xs)"
proof (cases "\<exists>xs. chain m head xs")
  case True
  then obtain xs where xs: "chain m head xs" by blast
  show ?thesis
  proof (cases "head = 0 \<or> m head = 0")
    case True
    with \<open>\<exists>xs. chain m head xs\<close> show ?thesis by (auto simp: CheckNoCycle_def)
  next
    case False
    with xs obtain y zs where "xs = head # y # zs" by (auto simp: chain_nonnull)
    with no_cycle_loop_ends [OF xs, of 0] False have "CheckNoCycle m head = Inr True" by (simp add: CheckNoCycle_def)
    with \<open>\<exists>xs. chain m head xs\<close> show ?thesis by simp
  qed
next
  case False
  then have nz: "(m ^^ i) head \<noteq> 0" for i using ends_iff by blast
  obtain t where "0 < t" "(m ^^ t) head = (m ^^ (2 * t + 1)) head" using hare_meets_tortoise by blast
  with no_cycle_loop_meets [OF nz this(2), of 0] nz [of 0] nz [of 1] False show ?thesis
    by (simp add: CheckNoCycle_def)
qed

section \<open>Duplicates\<close>

text \<open>The set of visited entries is never extended, so only the head is recognised.\<close>

lemma no_dupes_loop_ends:
  assumes "chain m p xs" "xs \<noteq> []"
  shows "k < length xs \<Longrightarrow> no_dupes_loop m {p} ((m ^^ k) p) = Some (Inr True)"
proof (induction "length xs - k" arbitrary: k rule: less_induct)
  case less
  let ?N = "\<lambda>i. (m ^^ i) p"
  have nz: "?N i = 0 \<longleftrightarrow> i = length xs" if "i \<le> length xs" for i
    using iterates_chain [OF assms(1)] that by (cases "i = length xs") auto
  have step: "m (?N k) = ?N (Suc k)" by simp
  show ?case
  proof (cases "Suc k = length xs")
    case True
    then show ?thesis using nz [of k] nz [of "Suc k"] by (subst no_dupes_loop.simps, unfold step) (simp del: funpow.simps)
  next
    case False
    then have k: "Suc k < length xs" using less.prems by simp
    then have "?N (Suc k) \<noteq> ?N 0" using iterates_distinct [OF assms(1) k, of 0] by fastforce
    moreover have "no_dupes_loop m {p} (?N (Suc k)) = Some (Inr True)" by (rule less.hyps) (use k in auto)
    ultimately show ?thesis using nz [of k] nz [of "Suc k"] k by (subst no_dupes_loop.simps, unfold step) (simp del: funpow.simps)
  qed
qed

lemma CheckNoDupes_ends: "\<exists>xs. chain m head xs \<Longrightarrow> CheckNoDupes m head = Inr True"
proof -
  assume "\<exists>xs. chain m head xs"
  then obtain xs where xs: "chain m head xs" by blast
  with no_dupes_loop_ends [OF xs, of 0] show ?thesis by (cases xs) (auto simp: CheckNoDupes_def)
qed

lemma no_dupes_loop_returns:
  assumes nz: "\<And>i. (m ^^ i) p \<noteq> 0" and t: "(m ^^ t) p = p"
  shows "k < t \<Longrightarrow> no_dupes_loop m {p} ((m ^^ k) p) = Some (Inr False)"
proof (induction "t - k" arbitrary: k rule: less_induct)
  case less
  let ?N = "\<lambda>i. (m ^^ i) p"
  have step: "m (?N k) = ?N (Suc k)" by simp
  show ?case
  proof (cases "?N (Suc k) = p")
    case True
    then show ?thesis using nz [of k] nz [of "Suc k"] by (subst no_dupes_loop.simps, unfold step) (simp del: funpow.simps)
  next
    case False
    with less.prems t have "Suc k < t" by (cases "Suc k = t") auto
    then have "no_dupes_loop m {p} (?N (Suc k)) = Some (Inr False)" by (intro less.hyps) auto
    with False show ?thesis using nz [of k] nz [of "Suc k"] by (subst no_dupes_loop.simps, unfold step) (simp del: funpow.simps)
  qed
qed

lemma no_dupes_loop_diverges:
  assumes nz: "\<And>i. (m ^^ i) p \<noteq> 0" and away: "\<And>i. 0 < i \<Longrightarrow> (m ^^ i) p \<noteq> p"
  shows "no_dupes_loop m {p} p = None"
proof -
  have "m' = m \<longrightarrow> v = {p} \<longrightarrow> (\<forall>i. current \<noteq> (m ^^ i) p)" if "no_dupes_loop m' v current = Some r" for m' v current r
  proof (rule no_dupes_loop.raw_induct
      [where P = "\<lambda>m' v current r. m' = m \<longrightarrow> v = {p} \<longrightarrow> (\<forall>i. current \<noteq> (m ^^ i) p)", OF _ that])
    fix f m' v current r
    assume IH: "\<And>m' v current r. f m' v current = Some r \<Longrightarrow> m' = m \<longrightarrow> v = {p} \<longrightarrow> (\<forall>i. current \<noteq> (m ^^ i) p)"
      and eq: "(if current = 0 then Some (Inl NullDeref)
         else if m' current = 0 then Some (Inr True)
         else if m' current \<in> v then Some (Inr False) else f m' v (m' current)) = Some r"
    show "m' = m \<longrightarrow> v = {p} \<longrightarrow> (\<forall>i. current \<noteq> (m ^^ i) p)"
    proof (intro impI allI notI)
      fix i
      assume sub: "m' = m" "v = {p}" and cur: "current = (m ^^ i) p"
      then have "m current = (m ^^ Suc i) p" by simp
      with eq sub nz [of i] nz [of "Suc i"] away [of "Suc i"] cur have "f m {p} (m current) = Some r"
        by (simp del: funpow.simps)
      with IH [of m "{p}" "m current" r] \<open>m current = (m ^^ Suc i) p\<close> show False by blast
    qed
  qed
  then have "no_dupes_loop m {p} p \<noteq> Some r" for r by (metis funpow_0)
  then show ?thesis by (cases "no_dupes_loop m {p} p") auto
qed

section \<open>Properties\<close>

text \<open>
  C40. On every memory whatever the cycle check of the fuzzer returns, and it answers exactly the question whether the
  list behind the handle ends; the check for duplicates agrees on lists that end, rejects a list that comes back to
  its head and never returns on a list that runs into a cycle behind its head, because it does not record the entries
  it visits.
\<close>

theorem fuzz_checks_decide:
  "CheckNoCycle m head = Inr (\<exists>xs. chain m head xs) \<and>
   CheckNoDupes m head =
     (if \<exists>xs. chain m head xs then Inr True
      else if \<exists>n. 0 < n \<and> (m ^^ n) head = head then Inr False
      else Inl Diverges)"
proof -
  consider xs where "chain m head xs"
    | n where "\<not> (\<exists>xs. chain m head xs)" "0 < n" "(m ^^ n) head = head"
    | "\<not> (\<exists>xs. chain m head xs)" "\<not> (\<exists>n. 0 < n \<and> (m ^^ n) head = head)" by blast
  then show ?thesis
  proof cases
    case 1
    have "\<exists>xs. chain m head xs" using 1 by blast
    with CheckNoCycle_iff [of m head] CheckNoDupes_ends [OF this] show ?thesis by simp
  next
    case 2
    then have nz: "(m ^^ i) head \<noteq> 0" for i using ends_iff by blast
    with no_dupes_loop_returns [OF nz 2(3), of 0] 2 nz [of 0] CheckNoCycle_iff [of m head] show ?thesis
      by (auto simp: CheckNoDupes_def)
  next
    case 3
    then have nz: "(m ^^ i) head \<noteq> 0" for i using ends_iff by blast
    have "no_dupes_loop m {head} head = None" by (rule no_dupes_loop_diverges) (use nz 3(2) in blast)+
    with 3 nz [of 0] CheckNoCycle_iff [of m head] show ?thesis by (simp add: CheckNoDupes_def)
  qed
qed

end
