(* ===== verification/Page_Fuzzer.thy ===== *)
theory Page_Fuzzer
  imports Page_Spec Fuzz_Checks
begin

text \<open>
  The fuzzer of the page allocator (\<open>kernel/unit_tests/allocators/page_allocator/fuzzing\<close>) and what a campaign on the
  free lists finds.  The allocator under test is a state \<open>'s\<close> the function pointers of the fuzzer act on.  Parameters
  are the random generator with its two distributions and the order in which the unordered set of allocated pages is
  iterated, which may depend on all that has happened before.  The console lines of a round are not modelled.
\<close>

section \<open>The fuzzer\<close>

datatype FuzzAction = FuzzAllocate | FuzzDeallocate

definition FuzzAction_ToString :: "FuzzAction \<Rightarrow> string" where
  "FuzzAction_ToString action = (case action of FuzzAllocate \<Rightarrow> ''Allocate'' | FuzzDeallocate \<Rightarrow> ''Deallocate'')"

record ValidationResult =
  vr_result :: bool
  vr_reason :: "nat option"

definition Failure :: "nat \<Rightarrow> ValidationResult" where
  "Failure reason = \<lparr>vr_result = False, vr_reason = Some reason\<rparr>"

definition Success :: ValidationResult where
  "Success = \<lparr>vr_result = True, vr_reason = None\<rparr>"

record FuzzResult =
  fr_action :: FuzzAction
  fr_address :: addr
  fr_result :: ValidationResult

record 'g rand =
  rd_bernoulli :: "'g \<Rightarrow> bool \<times> 'g"
  rd_uniform :: "nat \<Rightarrow> 'g \<Rightarrow> nat \<times> 'g"
  rd_order :: "FuzzResult list \<Rightarrow> addr set \<Rightarrow> addr list"

text \<open>Function pointers that are not set are None.\<close>

record ('g, 's) PageFuzzer =
  fz_alloc :: "('s \<Rightarrow> ('s \<times> addr) result) option"
  fz_dealloc :: "(addr \<Rightarrow> 's \<Rightarrow> 's result) option"
  fz_exhausted :: "('s \<Rightarrow> bool) option"
  fz_generator :: 'g
  fz_history :: "FuzzResult list"
  fz_allocated :: "addr set"
  fz_integrity :: "('s \<Rightarrow> bool result) list"

definition new_PageFuzzer :: "'g \<Rightarrow> ('g, 's) PageFuzzer" where
  "new_PageFuzzer gen = \<lparr>fz_alloc = None, fz_dealloc = None, fz_exhausted = None, fz_generator = gen,
     fz_history = [], fz_allocated = {}, fz_integrity = []\<rparr>"

definition SetAllocationFunction :: "('s \<Rightarrow> ('s \<times> addr) result) \<Rightarrow> ('g, 's) PageFuzzer \<Rightarrow> ('g, 's) PageFuzzer" where
  "SetAllocationFunction f fz = fz\<lparr>fz_alloc := Some f\<rparr>"

definition SetDeallocationFunction :: "(addr \<Rightarrow> 's \<Rightarrow> 's result) \<Rightarrow> ('g, 's) PageFuzzer \<Rightarrow> ('g, 's) PageFuzzer" where
  "SetDeallocationFunction f fz = fz\<lparr>fz_dealloc := Some f\<rparr>"

definition SetExhaustedFunction :: "('s \<Rightarrow> bool) \<Rightarrow> ('g, 's) PageFuzzer \<Rightarrow> ('g, 's) PageFuzzer" where
  "SetExhaustedFunction f fz = fz\<lparr>fz_exhausted := Some f\<rparr>"

definition AddIntegrityCheck :: "('s \<Rightarrow> bool result) \<Rightarrow> ('g, 's) PageFuzzer \<Rightarrow> ('g, 's) PageFuzzer" where
  "AddIntegrityCheck c fz = fz\<lparr>fz_integrity := fz_integrity fz @ [c]\<rparr>"

definition call_ptr :: "'a option \<Rightarrow> 'a result" where
  "call_ptr f = (case f of None \<Rightarrow> Inl NullDeref | Some f \<Rightarrow> Inr f)"

fun IntegrityCheck :: "('s \<Rightarrow> bool result) list \<Rightarrow> 's \<Rightarrow> bool result" where
  "IntegrityCheck [] s = Inr True"
| "IntegrityCheck (c # cs) s = rbind (c s) (\<lambda>ok. if \<not> ok then Inr False else IntegrityCheck cs s)"

definition GenAction :: "'g rand \<Rightarrow> ('g, 's) PageFuzzer \<Rightarrow> ('g, 's) PageFuzzer \<times> FuzzAction" where
  "GenAction R fz =
     (let (b, g) = rd_bernoulli R (fz_generator fz)
      in (fz\<lparr>fz_generator := g\<rparr>, if b = False then FuzzAllocate else FuzzDeallocate))"

definition PickFromAllocated :: "'g rand \<Rightarrow> ('g, 's) PageFuzzer \<Rightarrow> (('g, 's) PageFuzzer \<times> addr) result" where
  "PickFromAllocated R fz =
     (let elements = rd_order R (fz_history fz) (fz_allocated fz)
      in if card (fz_allocated fz) = 0 then Inr (fz, 0)
         else if card (fz_allocated fz) = 1 then Inr (fz, hd elements)
         else let (index, g) = rd_uniform R (card (fz_allocated fz)) (fz_generator fz)
              in if index < length elements then Inr (fz\<lparr>fz_generator := g\<rparr>, elements ! index) else Inl OutOfBounds)"

definition ValidateAllocated :: "addr \<Rightarrow> ('g, 's) PageFuzzer \<Rightarrow> 's \<Rightarrow> ValidationResult result" where
  "ValidateAllocated page fz s =
     (if page \<in> fz_allocated fz then Inr (Failure 0)
      else if page = 0
      then rbind (call_ptr (fz_exhausted fz)) (\<lambda>exhausted. if \<not> exhausted s then Inr (Failure 0) else Inr Success)
      else Inr Success)"

definition ValidateDeallocated :: "addr \<Rightarrow> ('g, 's) PageFuzzer \<Rightarrow> ValidationResult" where
  "ValidateDeallocated page fz =
     (if page = 0 then Success else if page \<notin> fz_allocated fz then Failure 0 else Success)"

definition AddToHistory :: "FuzzAction \<Rightarrow> addr \<Rightarrow> ValidationResult \<Rightarrow> ('g, 's) PageFuzzer \<Rightarrow> ('g, 's) PageFuzzer" where
  "AddToHistory action page r fz =
     fz\<lparr>fz_history := fz_history fz @ [\<lparr>fr_action = action, fr_address = page, fr_result = r\<rparr>]\<rparr>"

text \<open>Erasing a page the set does not hold is undefined in the code.\<close>

definition RunRound :: "'g rand \<Rightarrow> ('g, 's) PageFuzzer \<times> 's \<Rightarrow> ((('g, 's) PageFuzzer \<times> 's) \<times> bool) result" where
  "RunRound R st =
     (case st of (fz, s) \<Rightarrow> let (fz, action) = GenAction R fz in
        case action of
          FuzzAllocate \<Rightarrow>
            rbind (call_ptr (fz_alloc fz)) (\<lambda>alloc. rbind (alloc s) (\<lambda>(s, page).
            rbind (ValidateAllocated page fz s) (\<lambda>r.
              let fz = (if page \<noteq> 0
                        then (AddToHistory action page r fz)\<lparr>fz_allocated := insert page (fz_allocated fz)\<rparr> else fz)
              in rbind (IntegrityCheck (fz_integrity fz) s) (\<lambda>ok.
                   if \<not> ok then Inr ((fz, s), False) else Inr ((fz, s), vr_result r)))))
        | FuzzDeallocate \<Rightarrow>
            rbind (PickFromAllocated R fz) (\<lambda>(fz, page).
              let r = ValidateDeallocated page fz
              in rbind (call_ptr (fz_dealloc fz)) (\<lambda>dealloc. rbind (dealloc page s) (\<lambda>s.
                 let fz = AddToHistory action page r fz
                 in rbind (if page = 0 then Inr fz
                           else if page \<in> fz_allocated fz then Inr (fz\<lparr>fz_allocated := fz_allocated fz - {page}\<rparr>)
                           else Inl OutOfBounds) (\<lambda>fz.
                    rbind (IntegrityCheck (fz_integrity fz) s) (\<lambda>ok.
                      if \<not> ok then Inr ((fz, s), False) else Inr ((fz, s), vr_result r)))))))"

section \<open>Campaigns\<close>

text \<open>The strict campaigns throw in the first round that does not pass.\<close>

datatype 'a campaign = Threw nat | Finished 'a

fun Run :: "'g rand \<Rightarrow> nat \<Rightarrow> ('g, 's) PageFuzzer \<times> 's \<Rightarrow> (('g, 's) PageFuzzer \<times> 's) result" where
  "Run R 0 st = Inr st"
| "Run R (Suc n) st = rbind (RunRound R st) (\<lambda>(st, passed). Run R n st)"

fun RunStrict_from ::
  "'g rand \<Rightarrow> nat \<Rightarrow> nat \<Rightarrow> ('g, 's) PageFuzzer \<times> 's \<Rightarrow> (('g, 's) PageFuzzer \<times> 's) campaign result" where
  "RunStrict_from R i 0 st = Inr (Finished st)"
| "RunStrict_from R i (Suc n) st =
     rbind (RunRound R st) (\<lambda>(st, passed). if \<not> passed then Inr (Threw i) else RunStrict_from R (Suc i) n st)"

definition RunStrict ::
  "'g rand \<Rightarrow> nat \<Rightarrow> ('g, 's) PageFuzzer \<times> 's \<Rightarrow> (('g, 's) PageFuzzer \<times> 's) campaign result" where
  "RunStrict R iterations st = RunStrict_from R 0 iterations st"

partial_function (option) RunStrict_forever :: "'g rand \<Rightarrow> nat \<Rightarrow> ('g, 's) PageFuzzer \<times> 's \<Rightarrow> nat result option" where
  "RunStrict_forever R i st =
     (if isl (RunRound R st) then Some (Inl (projl (RunRound R st)))
      else if \<not> snd (projr (RunRound R st)) then Some (Inr i)
      else RunStrict_forever R (Suc i) (fst (projr (RunRound R st))))"

text \<open>The history as \<open>DumpHistory\<close> writes it, which empties the queue.\<close>

definition pad_left :: "nat \<Rightarrow> char \<Rightarrow> string \<Rightarrow> string" where
  "pad_left n c xs = replicate (n - length xs) c @ xs"

definition hex16 :: "u64 \<Rightarrow> string" where
  "hex16 w = map (\<lambda>i. ''0123456789abcdef'' ! unat (drop_bit (4 * (15 - i)) w AND 0xF)) [0..<16]"

definition history_line :: "FuzzResult \<Rightarrow> string" where
  "history_line r = pad_left 10 CHR '' '' (FuzzAction_ToString (fr_action r)) @ '' 0x'' @ hex16 (fr_address r) @ '' '' @
     pad_left 8 CHR '' '' (if vr_result (fr_result r) then ''Success!'' else ''Fail!'')"

definition DumpHistory :: "('g, 's) PageFuzzer \<Rightarrow> ('g, 's) PageFuzzer \<times> string list" where
  "DumpHistory fz = (fz\<lparr>fz_history := []\<rparr>, map history_line (fz_history fz))"

section \<open>The mock memory map\<close>

datatype MockType = MockUseable | MockUnuseable

record MockEntry =
  mk_base :: u64
  mk_length :: u64
  mk_type :: MockType

record MemoryMapMock =
  mk_buffer :: addr
  mk_bufferSize :: u64
  mk_entries :: "MockEntry list"
  mk_totalUseableBytes :: u64

text \<open>
  \<open>data\<close> is where the resized buffer of the mock lies.  An entry is constructed from base and length only, so its type
  is the first of the enumeration.
\<close>

definition InitFlat :: "addr \<Rightarrow> u64 \<Rightarrow> MemoryMapMock \<Rightarrow> MemoryMapMock" where
  "InitFlat data nbytes k = k\<lparr>mk_buffer := data, mk_bufferSize := nbytes,
     mk_entries := mk_entries k @ [\<lparr>mk_base = data, mk_length = nbytes, mk_type = MockUseable\<rparr>],
     mk_totalUseableBytes := nbytes\<rparr>"

definition mock_entry_step ::
  "addr \<Rightarrow> MockType \<times> u64 \<Rightarrow> MockEntry list \<times> nat \<times> u64 \<Rightarrow> MockEntry list \<times> nat \<times> u64" where
  "mock_entry_step data e acc =
     (case (e, acc) of ((type, nbytes), (entries, count, bytes)) \<Rightarrow>
        let base = (if count = 0 then data else mk_base (entries ! (count - 1)) + mk_length (entries ! (count - 1)))
        in (entries @ [\<lparr>mk_base = base, mk_length = nbytes, mk_type = MockUseable\<rparr>], count + 1,
            if type = MockUseable then bytes + nbytes else bytes))"

definition InitDiscontigous :: "addr \<Rightarrow> (MockType \<times> u64) list \<Rightarrow> MemoryMapMock \<Rightarrow> MemoryMapMock" where
  "InitDiscontigous data inits k =
     (let bufferSize = sum_list (map snd inits);
          (entries, count, bytes) = fold (mock_entry_step data) inits (mk_entries k, 0, 0)
      in k\<lparr>mk_buffer := data, mk_bufferSize := bufferSize, mk_entries := entries, mk_totalUseableBytes := bytes\<rparr>)"

definition mock_layout :: "(MockType \<times> u64) list" where
  "mock_layout =
     [(MockUseable, 0x4f * PAGESIZE), (MockUnuseable, 10 * PAGESIZE), (MockUseable, 0x7fd51 * PAGESIZE),
      (MockUnuseable, 0x20 * PAGESIZE), (MockUnuseable, 0xB4 * PAGESIZE), (MockUseable, 2 * PAGESIZE),
      (MockUnuseable, 0x10153 * PAGESIZE), (MockUseable, 0x180000 * PAGESIZE)]"

definition Mock_Init :: "addr \<Rightarrow> MemoryMapMock \<Rightarrow> MemoryMapMock" where
  "Mock_Init data k = InitDiscontigous data mock_layout k"

definition TotalUseableMemory :: "MemoryMapMock \<Rightarrow> u64" where
  "TotalUseableMemory k = mk_totalUseableBytes k"

definition Mock_TotalUseablePageFrames :: "MemoryMapMock \<Rightarrow> u64" where
  "Mock_TotalUseablePageFrames k = mk_totalUseableBytes k div PAGESIZE"

text \<open>The allocator is a template over the map: it reads base, length and whether the type is useable.\<close>

definition mock_map :: "MemoryMapMock \<Rightarrow> MemoryMap" where
  "mock_map k = \<lparr>m_entries = map (\<lambda>e. \<lparr>me_base = mk_base e, me_length = mk_length e,
       me_type = (if mk_type e = MockUseable then Useable else Reserved)\<rparr>) (mk_entries k),
     m_totalUseableBytes = mk_totalUseableBytes k\<rparr>"

section \<open>The free lists under test\<close>

definition FreeListExhausted :: "freelist \<Rightarrow> bool" where
  "FreeListExhausted s \<longleftrightarrow> m_freePagesLow s + m_freePagesTop s = 0"

definition both_lists :: "(heap \<Rightarrow> addr \<Rightarrow> bool result) \<Rightarrow> freelist \<Rightarrow> bool result" where
  "both_lists check s =
     rbind (check (mem s) (m_head s)) (\<lambda>top. rbind (check (mem s) (m_lowHead s)) (\<lambda>low. Inr (top \<and> low)))"

definition FreeListSorted :: "freelist \<Rightarrow> bool result" where "FreeListSorted = both_lists CheckSorted"
definition FreeListNoCycles :: "freelist \<Rightarrow> bool result" where "FreeListNoCycles = both_lists CheckNoCycle"
definition FreeListNoDupes :: "freelist \<Rightarrow> bool result" where "FreeListNoDupes = both_lists CheckNoDupes"

definition freelist_fuzzer :: "'g \<Rightarrow> ('g, freelist) PageFuzzer" where
  "freelist_fuzzer gen =
     (let fz = SetAllocationFunction AllocatePage (new_PageFuzzer gen);
          fz = SetDeallocationFunction DeallocPage fz;
          fz = SetExhaustedFunction FreeListExhausted fz;
          fz = AddIntegrityCheck FreeListSorted fz;
          fz = AddIntegrityCheck FreeListNoCycles fz
      in AddIntegrityCheck FreeListNoDupes fz)"

section \<open>Fuzzing a page source\<close>

definition rand_ok :: "'g rand \<Rightarrow> bool" where
  "rand_ok R \<longleftrightarrow> (\<forall>n g. 0 < n \<longrightarrow> fst (rd_uniform R n g) < n) \<and>
     (\<forall>h A. finite A \<longrightarrow> set (rd_order R h A) = A \<and> distinct (rd_order R h A))"

lemma IntegrityCheck_passes: "\<forall>c \<in> set cs. c s = Inr True \<Longrightarrow> IntegrityCheck cs s = Inr True"
  by (induction cs) auto

text \<open>
  What a page source must promise on top of its contract for a campaign to pass: it knows when it is exhausted, it hands
  out clean pages and touches no page that is not its own, it takes null back, and its own structures pass the checks.
\<close>

locale fuzz_target = page_source +
  fixes exhausted :: "'a \<Rightarrow> bool" and checks :: "('a \<Rightarrow> bool result) list"
  assumes exhausted_iff: "inv s \<Longrightarrow> exhausted s \<longleftrightarrow> free_pages s = {}"
    and checks_pass: "inv s \<Longrightarrow> c \<in> set checks \<Longrightarrow> c s = Inr True"
    and dealloc_null: "dealloc 0 s = Inr s"
    and alloc_clean: "inv s \<Longrightarrow> alloc s = Inr (s', p) \<Longrightarrow> p \<noteq> 0 \<Longrightarrow> clean s' p"
    and alloc_frame: "inv s \<Longrightarrow> alloc s = Inr (s', p) \<Longrightarrow> q \<notin> free_pages s \<Longrightarrow> clean s q \<Longrightarrow> clean s' q"
    and dealloc_frame: "inv s \<Longrightarrow> p \<noteq> 0 \<Longrightarrow> p \<notin> free_pages s \<Longrightarrow> clean s p \<Longrightarrow> dealloc p s = Inr s' \<Longrightarrow>
          q \<noteq> p \<Longrightarrow> q \<notin> free_pages s \<Longrightarrow> clean s q \<Longrightarrow> clean s' q"
begin

definition target_inv :: "('g, 'a) PageFuzzer \<times> 'a \<Rightarrow> bool" where
  "target_inv st \<longleftrightarrow> (case st of (fz, s) \<Rightarrow>
     fz_alloc fz = Some alloc \<and> fz_dealloc fz = Some dealloc \<and> fz_exhausted fz = Some exhausted \<and>
     fz_integrity fz = checks \<and> inv s \<and> finite (fz_allocated fz) \<and> 0 \<notin> fz_allocated fz \<and>
     fz_allocated fz \<inter> free_pages s = {} \<and> (\<forall>p \<in> fz_allocated fz. clean s p) \<and>
     (\<forall>r \<in> set (fz_history fz). vr_result (fr_result r)))"

lemma integrity: "inv s \<Longrightarrow> IntegrityCheck checks s = Inr True"
  by (rule IntegrityCheck_passes) (use checks_pass in blast)

lemma pick_allocated:
  assumes "rand_ok R" "finite (fz_allocated fz)"
  shows "\<exists>g p. PickFromAllocated R fz = Inr (fz\<lparr>fz_generator := g\<rparr>, p) \<and>
     (if fz_allocated fz = {} then p = 0 else p \<in> fz_allocated fz)"
proof -
  let ?A = "fz_allocated fz" and ?xs = "rd_order R (fz_history fz) (fz_allocated fz)"
  have xs: "set ?xs = ?A" "length ?xs = card ?A"
    using assms distinct_card [of ?xs] unfolding rand_ok_def by metis+
  consider "card ?A = 0" | "card ?A = 1" | "1 < card ?A" by linarith
  then show ?thesis
  proof cases
    case 1
    then show ?thesis
      using assms(2) by (intro exI [of _ "fz_generator fz"] exI [of _ 0]) (auto simp: PickFromAllocated_def)
  next
    case 2
    then have "hd ?xs \<in> ?A" using xs by (metis hd_in_set length_0_conv zero_neq_one)
    with 2 show ?thesis
      by (intro exI [of _ "fz_generator fz"] exI [of _ "hd ?xs"]) (auto simp: PickFromAllocated_def)
  next
    case 3
    obtain i g where u: "rd_uniform R (card ?A) (fz_generator fz) = (i, g)" by fastforce
    have "i < card ?A" using assms(1) 3 u unfolding rand_ok_def by (metis fst_conv less_trans zero_less_one)
    then have i: "i < length ?xs" "?xs ! i \<in> ?A" using xs nth_mem by metis+
    then show ?thesis
      using 3 u by (intro exI [of _ g] exI [of _ "?xs ! i"]) (auto simp: PickFromAllocated_def)
  qed
qed

lemma round_allocates:
  assumes st: "target_inv (fz, s)" and act: "GenAction R fz = (fz1, FuzzAllocate)"
  shows "\<exists>st'. RunRound R (fz, s) = Inr (st', True) \<and> target_inv st'"
proof -
  from act obtain g where fz1: "fz1 = fz\<lparr>fz_generator := g\<rparr>" by (auto simp: GenAction_def split: prod.splits)
  have inv: "inv s" using st by (simp add: target_inv_def)
  note chk = integrity
  show ?thesis
  proof (cases "free_pages s = {}")
    case True
    then have "alloc s = Inr (s, 0)" using alloc_none inv by blast
    with True st act fz1 inv chk exhausted_iff [OF inv] show ?thesis
      by (simp add: RunRound_def target_inv_def call_ptr_def ValidateAllocated_def Success_def)
  next
    case False
    then obtain s' p where p: "alloc s = Inr (s', p)" "p \<in> free_pages s" "inv s'" "free_pages s' = free_pages s - {p}"
      using alloc_some inv by blast
    have nz: "p \<noteq> 0" using free_nonnull [OF inv] p(2) by auto
    have "clean s' q" if "q \<in> insert p (fz_allocated fz)" for q
      using alloc_clean [OF inv p(1) nz] alloc_frame [OF inv p(1), of q] st that by (auto simp: target_inv_def)
    moreover have "p \<notin> fz_allocated fz" using st p(2) by (auto simp: target_inv_def)
    ultimately show ?thesis
      using st act fz1 p nz chk [OF p(3)]
      by (auto simp: RunRound_def target_inv_def call_ptr_def ValidateAllocated_def Success_def AddToHistory_def Let_def)
  qed
qed

lemma round_deallocates:
  assumes R: "rand_ok R" and st: "target_inv (fz, s)" and act: "GenAction R fz = (fz1, FuzzDeallocate)"
  shows "\<exists>st'. RunRound R (fz, s) = Inr (st', True) \<and> target_inv st'"
proof -
  from act obtain g where fz1: "fz1 = fz\<lparr>fz_generator := g\<rparr>" by (auto simp: GenAction_def split: prod.splits)
  have inv: "inv s" using st by (simp add: target_inv_def)
  note chk = integrity
  have "finite (fz_allocated fz1)" using st fz1 by (simp add: target_inv_def)
  from pick_allocated [OF R this] obtain g2 p where pick: "PickFromAllocated R fz1 = Inr (fz1\<lparr>fz_generator := g2\<rparr>, p)"
      "if fz_allocated fz1 = {} then p = 0 else p \<in> fz_allocated fz1" by blast
  have al: "fz_allocated fz1 = fz_allocated fz" using fz1 by simp
  show ?thesis
  proof (cases "fz_allocated fz = {}")
    case True
    with st act fz1 pick al chk [OF inv] show ?thesis
      by (auto simp: RunRound_def target_inv_def call_ptr_def ValidateDeallocated_def Success_def AddToHistory_def
          dealloc_null Let_def)
  next
    case False
    with pick al have p: "p \<in> fz_allocated fz" by simp
    with st have p': "p \<noteq> 0" "p \<notin> free_pages s" "clean s p" by (auto simp: target_inv_def)
    from dealloc_page [OF inv p'] obtain s' where s': "dealloc p s = Inr s'" "inv s'"
      "free_pages s' = insert p (free_pages s)" by blast
    have "clean s' q" if "q \<in> fz_allocated fz - {p}" for q
      using dealloc_frame [OF inv p' s'(1), of q] st that by (auto simp: target_inv_def)
    with st act fz1 pick(1) p p' s' chk [OF s'(2)] show ?thesis
      by (auto simp: RunRound_def target_inv_def call_ptr_def ValidateDeallocated_def Success_def AddToHistory_def Let_def)
  qed
qed

lemma round_passes:
  assumes "rand_ok R" "target_inv st"
  shows "\<exists>st'. RunRound R st = Inr (st', True) \<and> target_inv st'"
proof (cases st)
  case (Pair fz s)
  show ?thesis
  proof (cases "snd (GenAction R fz)")
    case FuzzAllocate
    then show ?thesis using round_allocates [of fz s R "fst (GenAction R fz)"] assms Pair by (metis prod.collapse)
  next
    case FuzzDeallocate
    then show ?thesis using round_deallocates [of R fz s "fst (GenAction R fz)"] assms Pair by (metis prod.collapse)
  qed
qed

lemma strict_campaign:
  assumes "rand_ok R"
  shows "target_inv st \<Longrightarrow> \<exists>st'. RunStrict_from R i n st = Inr (Finished st') \<and> target_inv st'"
proof (induction n arbitrary: i st)
  case (Suc n)
  from round_passes [OF assms Suc.prems] obtain st1 where "RunRound R st = Inr (st1, True)" "target_inv st1" by blast
  with Suc.IH [of st1 "Suc i"] show ?case by simp
qed simp

lemma endless_campaign:
  fixes R :: "'g rand"
  assumes "rand_ok R" "target_inv st"
  shows "RunStrict_forever R i st = None"
proof -
  have "R' = R \<longrightarrow> \<not> target_inv st" if "RunStrict_forever R' i st = Some r" for R' i st r
  proof (rule RunStrict_forever.raw_induct [where P = "\<lambda>R' i st r. R' = R \<longrightarrow> \<not> target_inv st", OF _ that])
    fix f and R' :: "'g rand" and i st r
    assume IH: "\<And>R' i st r. f R' i st = Some r \<Longrightarrow> R' = R \<longrightarrow> \<not> target_inv st"
      and eq: "(if isl (RunRound R' st) then Some (Inl (projl (RunRound R' st)))
         else if \<not> snd (projr (RunRound R' st)) then Some (Inr i)
         else f R' (Suc i) (fst (projr (RunRound R' st)))) = Some r"
    show "R' = R \<longrightarrow> \<not> target_inv st"
    proof (intro impI notI)
      assume sub: "R' = R" and st: "target_inv st"
      from round_passes [OF assms(1) st] obtain st1 where st1: "RunRound R st = Inr (st1, True)" "target_inv st1" by blast
      with eq sub have "f R (Suc i) st1 = Some r" by simp
      with IH [of R "Suc i" st1 r] st1(2) show False by blast
    qed
  qed
  with assms(2) show ?thesis by (cases "RunStrict_forever R i st") auto
qed

end

section \<open>The free lists pass\<close>

lemma exhausted_freelist:
  assumes "freelist_ok s hs ls"
  shows "FreeListExhausted s \<longleftrightarrow> hs = [] \<and> ls = []"
proof -
  have d: "distinct (hs @ ls)"
    using assms ascending_distinct by (auto simp: freelist_ok_def)
  have "0 \<notin> set (hs @ ls)" using freelist_ok_nonnull [OF assms] by simp
  with d have "distinct (0 # hs @ ls)" by simp
  then have "length (0 # hs @ ls) \<le> walk_fuel" by (rule distinct_length_walk_fuel)
  then have n: "length hs + length ls < 2 ^ 64" by (simp add: walk_fuel_def)
  have "m_freePagesLow s + m_freePagesTop s = of_nat (length hs + length ls)"
    using assms by (simp add: freelist_ok_def)
  also have "\<dots> = 0 \<longleftrightarrow> length hs + length ls = 0"
    using n by (simp only: word_unat_eq_iff unat_of_nat unat_0) (simp add: take_bit_nat_eq_self)
  finally show ?thesis by (simp add: FreeListExhausted_def)
qed

lemma checks_freelist:
  assumes "freelist_ok s hs ls"
  shows "FreeListSorted s = Inr True" "FreeListNoCycles s = Inr True" "FreeListNoDupes s = Inr True"
proof -
  have c: "chain (mem s) (m_head s) hs" "chain (mem s) (m_lowHead s) ls" "sorted hs" "sorted ls"
    using assms strict_sorted_imp_sorted by (auto simp: freelist_ok_def)
  then have e: "\<exists>xs. chain (mem s) (m_head s) xs" "\<exists>xs. chain (mem s) (m_lowHead s) xs" by blast+
  show "FreeListSorted s = Inr True"
    using c by (simp add: FreeListSorted_def both_lists_def CheckSorted_chain)
  show "FreeListNoCycles s = Inr True"
    using e by (simp add: FreeListNoCycles_def both_lists_def CheckNoCycle_iff)
  show "FreeListNoDupes s = Inr True"
    using e by (simp add: FreeListNoDupes_def both_lists_def CheckNoDupes_ends)
qed

interpretation fz: fuzz_target AllocatePage DeallocPage fl_inv fl_pages "\<lambda>s p. mem s p = 0"
  FreeListExhausted "[FreeListSorted, FreeListNoCycles, FreeListNoDupes]"
proof unfold_locales
  fix s s' :: freelist and p q
  show "DeallocPage 0 s = Inr s" by (simp add: DeallocPage_def)
  assume inv: "fl_inv s"
  then obtain hs ls where ok: "freelist_ok s hs ls" by (auto simp: fl_inv_def)
  note eq = fl_pages_eq [OF ok]
  show "FreeListExhausted s \<longleftrightarrow> fl_pages s = {}" using exhausted_freelist [OF ok] eq by simp
  show "c s = Inr True" if "c \<in> set [FreeListSorted, FreeListNoCycles, FreeListNoDupes]" for c
    using checks_freelist [OF ok] that by auto
  show "mem s' p = 0" if "AllocatePage s = Inr (s', p)" "p \<noteq> 0"
    using AllocatePage_spec [OF ok] that by (auto split: list.splits)
  show "mem s' q = 0" if "AllocatePage s = Inr (s', p)" "q \<notin> fl_pages s" "mem s q = 0"
    using fl.alloc_cases [OF inv that(1)] AllocatePage_frame [OF that(1), of q] that by auto
  show "mem s' q = 0" if "p \<noteq> 0" "p \<notin> fl_pages s" "mem s p = 0" "DeallocPage p s = Inr s'" "q \<noteq> p"
      "q \<notin> fl_pages s" "mem s q = 0"
    using DeallocPage_frame [OF ok that(1) _ that(3,4), of q] that eq by auto
qed

section \<open>Properties\<close>

text \<open>Every entry of the mock is useable, whatever its initialiser says.\<close>

lemma InitDiscontigous_all_useable:
  assumes "\<forall>e \<in> set (mk_entries k). mk_type e = MockUseable"
  shows "\<forall>e \<in> set (mk_entries (InitDiscontigous data inits k)). mk_type e = MockUseable"
proof -
  let ?P = "\<lambda>acc :: MockEntry list \<times> nat \<times> u64. \<forall>e \<in> set (fst acc). mk_type e = MockUseable"
  have step: "?P (mock_entry_step data x acc)" if "?P acc" for x acc
    using that by (cases x; cases acc) (auto simp: mock_entry_step_def Let_def)
  have "?P (fold (mock_entry_step data) inits acc)" if "?P acc" for acc
    by (rule fold_invariant [where Q = "\<lambda>_. True" and P = ?P]) (use that step in auto)
  from this [of "(mk_entries k, 0, 0)"] assms show ?thesis
    by (auto simp: InitDiscontigous_def Let_def split: prod.splits)
qed

text \<open>
  C5. A fuzzing campaign on the free lists passes: on every memory map whose useable regions are ascending, disjoint,
  page-sized and above address 0, for every seed and every iteration order of the set of allocated pages, the strict
  campaign of any length returns without throwing and with nothing but successes in its history, and the endless one
  never throws.
\<close>

theorem fuzz_campaign_passes:
  assumes "rand_ok R" "regions_ok 1 (filter useable (m_entries mm))"
  shows "\<exists>s fz s'. Freelist_Init mm s0 = Inr s \<and> RunStrict R n (freelist_fuzzer gen, s) = Inr (Finished (fz, s')) \<and>
     (\<forall>r \<in> set (fz_history fz). vr_result (fr_result r)) \<and> RunStrict_forever R 0 (freelist_fuzzer gen, s) = None"
proof -
  from Freelist_Init_ok [OF assms(2)] obtain s where s: "Freelist_Init mm s0 = Inr s"
    "freelist_ok s (high_pages mm) (low_pages mm)" by blast
  then have inv: "fz.target_inv (freelist_fuzzer gen, s)"
    by (auto simp: fz.target_inv_def fl_inv_def freelist_fuzzer_def SetAllocationFunction_def SetDeallocationFunction_def
        SetExhaustedFunction_def AddIntegrityCheck_def new_PageFuzzer_def)
  from fz.strict_campaign [OF assms(1) inv, of 0 n] obtain fz s' where
    "RunStrict R n (freelist_fuzzer gen, s) = Inr (Finished (fz, s'))" "fz.target_inv (fz, s')"
    unfolding RunStrict_def by (metis surj_pair)
  with s(1) fz.endless_campaign [OF assms(1) inv] show ?thesis by (auto simp: fz.target_inv_def)
qed

text \<open>A generator that alternates between the two actions and always picks the first page.\<close>

definition alternating :: "bool rand" where
  "alternating = \<lparr>rd_bernoulli = (\<lambda>b. (b, \<not> b)), rd_uniform = (\<lambda>n g. (0, g)), rd_order = (\<lambda>h A. sorted_list_of_set A)\<rparr>"

theorem fuzz_campaign_passes_witness:
  "\<exists>s fz s'. Freelist_Init small_map one_page = Inr s \<and>
     RunStrict alternating 5 (freelist_fuzzer False, s) = Inr (Finished (fz, s')) \<and>
     RunStrict_forever alternating 0 (freelist_fuzzer False, s) = None"
proof -
  have "rand_ok alternating" by (simp add: rand_ok_def alternating_def)
  from fuzz_campaign_passes [OF this small_map_regions, of one_page 5 False] show ?thesis by blast
qed

end
