(* ===== verification/Ring.thy ===== *)
theory Ring
  imports Kernel_Prelude
begin

text \<open>
  Circular doubly linked lists.  The slab list descriptors (both versions of the heap) and the slab
  buffers each carry a copy of the same four operations; the generic operations below are
  written once over the accessors of the two link fields and every component shows that its own copy
  is an instance.  The locale \<open>ring_links\<close> holds the laws of the accessors and proves what the
  operations do to a ring.
\<close>

section \<open>Operations over link accessors\<close>

definition ring_add where
  "ring_add nx pv un up this src s =
     (if this = src then Inr s
      else if this = pv s this \<and> this = nx s this
      then rbind (guard_ptr src) (\<lambda>_. Inr (un src this (up src this (up this src (un this src s)))))
      else rbind (guard_ptr src) (\<lambda>_.
             rbind (guard_ptr (pv (up src (pv s this) (un src this s)) this)) (\<lambda>_.
               let s1 = up src (pv s this) (un src this s)
               in Inr (up this src (un (pv s1 this) src s1)))))"

definition ring_unlink where
  "ring_unlink nx pv un up e s =
     rbind (guard_ptr e) (\<lambda>_. rbind (guard_ptr (pv s e)) (\<lambda>_.
       let s1 = un (pv s e) (nx s e) s
       in rbind (guard_ptr (nx s1 e)) (\<lambda>_. Inr (up (nx s1 e) (pv s1 e) s1))))"

definition ring_remove where
  "ring_remove nx pv un up this e s =
     (if this = e then Inr s
      else if pv s this = e \<and> nx s this = e then Inr (up this this (un this this s))
      else ring_unlink nx pv un up e s)"

definition ring_extract_self where
  "ring_extract_self nx pv un up this s =
     (if nx s this = this \<and> pv s this = this then Inr s
      else rbind
        (if nx s this = pv s this
         then rbind (guard_ptr (nx s this)) (\<lambda>_. let h = nx s this in Inr (up h h (un h h s)))
         else rbind (guard_ptr (pv s this)) (\<lambda>_. rbind (guard_ptr (nx s this)) (\<lambda>_.
                let h = nx s this; s1 = un (pv s this) h s in Inr (up h (pv s1 this) s1))))
        (\<lambda>s2. Inr (up this this (un this this s2))))"

section \<open>Rings\<close>

text \<open>\<open>links nx pv s x ys z\<close>: following \<open>nx\<close> from \<open>x\<close> passes \<open>ys\<close> and reaches \<open>z\<close>, with \<open>pv\<close> the way back.\<close>

fun links where
  "links nx pv s x [] z = (nx s x = z \<and> pv s z = x)"
| "links nx pv s x (y # ys) z = (nx s x = y \<and> pv s y = x \<and> links nx pv s y ys z)"

definition ring where
  "ring nx pv s xs \<longleftrightarrow> xs \<noteq> [] \<and> distinct xs \<and> (0 :: addr) \<notin> set xs \<and>
     links nx pv s (hd xs) (tl xs) (hd xs)"

lemma links_append:
  "links nx pv s x (ys @ y # zs) z \<longleftrightarrow> links nx pv s x ys y \<and> links nx pv s y zs z"
  by (induction ys arbitrary: x) auto

lemma links_cong:
  "(\<And>y. y \<in> set (x # ys) \<Longrightarrow> nx s' y = nx s y) \<Longrightarrow> (\<And>y. y \<in> set (ys @ [z]) \<Longrightarrow> pv s' y = pv s y) \<Longrightarrow>
   links nx pv s' x ys z = links nx pv s x ys z"
  by (induction ys arbitrary: x) auto

lemma links_last: "links nx pv s x ys z \<Longrightarrow> pv s z = last (x # ys)"
  by (induction ys arbitrary: x) auto

lemma links_hd: "links nx pv s x ys z \<Longrightarrow> nx s x = hd (ys @ [z])"
  by (cases ys) auto

lemma links_snoc: "links nx pv s x (ys @ [y]) z \<longleftrightarrow> links nx pv s x ys y \<and> nx s y = z \<and> pv s z = y"
  by (simp add: links_append)

lemma ring_rotate: "ring nx pv s (as @ bs) \<Longrightarrow> as \<noteq> [] \<Longrightarrow> bs \<noteq> [] \<Longrightarrow> ring nx pv s (bs @ as)"
proof -
  assume r: "ring nx pv s (as @ bs)" "as \<noteq> []" "bs \<noteq> []"
  then obtain a as' b bs' where eq: "as = a # as'" "bs = b # bs'"
    by (cases as; cases bs) auto
  with r show ?thesis by (auto simp: ring_def links_append)
qed

lemma ring_single [simp]: "ring nx pv s [x] \<longleftrightarrow> x \<noteq> 0 \<and> nx s x = x \<and> pv s x = x"
  by (auto simp: ring_def)

lemma ring_cong:
  assumes "\<And>q. q \<in> set xs \<Longrightarrow> nx s' q = nx s q \<and> pv s' q = pv s q"
  shows "ring nx pv s' xs = ring nx pv s xs"
proof (cases xs)
  case (Cons x ys)
  have "links nx pv s' x ys x = links nx pv s x ys x"
    by (rule links_cong) (use assms Cons in auto)
  then show ?thesis using Cons by (simp add: ring_def)
qed (simp add: ring_def)

lemma links_closed:
  "links nx pv s x ys z \<Longrightarrow> q \<in> set (x # ys) \<Longrightarrow> nx s q \<in> set (ys @ [z])"
  "links nx pv s x ys z \<Longrightarrow> q \<in> set (ys @ [z]) \<Longrightarrow> pv s q \<in> set (x # ys)"
  by (induction ys arbitrary: x) auto

lemma ring_closed:
  assumes "ring nx pv s xs" "q \<in> set xs"
  shows "nx s q \<in> set xs" "pv s q \<in> set xs"
proof -
  from assms(2) obtain x ys where xs: "xs = x # ys" by (cases xs) auto
  with assms have l: "links nx pv s x ys x" by (simp add: ring_def)
  have "nx s q \<in> set (ys @ [x])" by (rule links_closed(1) [OF l]) (use assms xs in simp)
  moreover have "pv s q \<in> set (x # ys)" by (rule links_closed(2) [OF l]) (use assms xs in auto)
  ultimately show "nx s q \<in> set xs" "pv s q \<in> set xs" using xs by auto
qed

locale ring_links =
  fixes nx pv :: "'s \<Rightarrow> addr \<Rightarrow> addr"
    and un up :: "addr \<Rightarrow> addr \<Rightarrow> 's \<Rightarrow> 's"
  assumes nx_un: "nx (un p v s) q = (if q = p then v else nx s q)"
    and pv_un: "pv (un p v s) q = pv s q"
    and nx_up: "nx (up p v s) q = nx s q"
    and pv_up: "pv (up p v s) q = (if q = p then v else pv s q)"
begin

lemmas link_laws = nx_un pv_un nx_up pv_up

lemma add_single:
  assumes "ring nx pv s [x]" "src \<noteq> 0" "src \<noteq> x"
  shows "\<exists>s'. ring_add nx pv un up x src s = Inr s' \<and> ring nx pv s' [x, src]"
  using assms by (auto simp: ring_add_def ring_def link_laws)

lemma ring_add_frame:
  "ring_add nx pv un up x src s = Inr s' \<Longrightarrow> q \<notin> {x, src, pv s x} \<Longrightarrow> nx s' q = nx s q \<and> pv s' q = pv s q"
  by (auto simp: ring_add_def link_laws guard_ptr_def Let_def split: if_splits)

lemma ring_unlink_frame:
  "ring_unlink nx pv un up e s = Inr s' \<Longrightarrow> q \<notin> {e, nx s e, pv s e} \<Longrightarrow> nx s' q = nx s q \<and> pv s' q = pv s q"
  by (auto simp: ring_unlink_def link_laws guard_ptr_def Let_def split: if_splits)

lemma ring_remove_frame:
  "ring_remove nx pv un up x e s = Inr s' \<Longrightarrow> q \<notin> {x, e, nx s e, pv s e} \<Longrightarrow>
   nx s' q = nx s q \<and> pv s' q = pv s q"
  using ring_unlink_frame [of e s s' q] by (auto simp: ring_remove_def link_laws split: if_splits)

lemma ring_extract_self_frame:
  "ring_extract_self nx pv un up x s = Inr s' \<Longrightarrow> q \<notin> {x, nx s x, pv s x} \<Longrightarrow>
   nx s' q = nx s q \<and> pv s' q = pv s q"
  by (auto simp: ring_extract_self_def link_laws guard_ptr_def Let_def split: if_splits)

lemma ring_add_appends:
  assumes "ring nx pv s (x # xs)" "src \<noteq> 0" "src \<notin> set (x # xs)"
  shows "\<exists>s'. ring_add nx pv un up x src s = Inr s' \<and> ring nx pv s' (x # xs @ [src])"
proof (cases xs rule: rev_cases)
  case Nil
  with assms show ?thesis using add_single by auto
next
  case (snoc ys y)
  with assms(1) have l: "links nx pv s x ys y" "nx s y = x" "pv s x = y" "y \<noteq> x" "y \<noteq> 0" "x \<noteq> 0"
    and d: "x \<notin> set ys" "y \<notin> set ys" "distinct ys"
    by (auto simp: ring_def links_snoc)
  let ?s = "up x src (un y src (up src y (un src x s)))"
  have run: "ring_add nx pv un up x src s = Inr ?s"
    using l assms by (auto simp: ring_add_def link_laws)
  have "links nx pv ?s x ys y"
    using l d assms snoc
    by (subst links_cong [where s = s]) (auto simp: link_laws)
  with assms l snoc run show ?thesis
    by (auto simp: ring_def links_append link_laws)
qed

lemma unlink_middle:
  assumes r: "ring nx pv s (x # as @ e # bs)" and ne: "as @ bs \<noteq> []"
  shows "\<exists>s'. ring_unlink nx pv un up e s = Inr s' \<and> ring nx pv s' (x # as @ bs) \<and>
           nx s' e = nx s e \<and> pv s' e = pv s e"
proof -
  let ?p = "last (x # as)" and ?n = "hd (bs @ [x])"
  from r have l: "links nx pv s x as e" "links nx pv s e bs x" by (auto simp: ring_def links_append)
  then have pe: "pv s e = ?p" and ne': "nx s e = ?n" using links_last links_hd by metis+
  have "?p \<in> set (x # as)" by (rule last_in_set) simp
  moreover have "?n \<in> set (bs @ [x])" by (cases bs) auto
  ultimately have nz: "?p \<noteq> 0" "?n \<noteq> 0" "e \<noteq> 0" "?p \<noteq> e" "?n \<noteq> e" 
    using r by (auto simp: ring_def simp del: last.simps)
  let ?s = "up ?n ?p (un ?p ?n s)"
  have run: "ring_unlink nx pv un up e s = Inr ?s"
    using nz pe ne' by (simp add: ring_unlink_def link_laws Let_def del: last.simps)
  have seg: "links nx pv ?s x (as @ bs) x"
  proof (cases as rule: rev_cases)
    case Nil
    then obtain b bs' where bs: "bs = b # bs'" using ne by (cases bs) auto
    have "links nx pv ?s b bs' x"
      using l r bs Nil by (subst links_cong [where s = s]) (auto simp: link_laws ring_def)
    then show ?thesis using Nil bs by (simp add: link_laws)
  next
    case (snoc as' a)
    with l have la: "links nx pv s x as' a" "nx s a = e" "pv s e = a" by (auto simp: links_snoc)
    have p: "?p = a" using snoc by simp
    have l1: "links nx pv ?s x as' a"
      unfolding p using la r snoc
      by (subst links_cong [where s = s]) (cases bs; auto simp: link_laws ring_def)+
    show ?thesis
    proof (cases bs)
      case bs: Nil
      with l1 snoc p show ?thesis by (simp add: links_append link_laws)
    next
      case (Cons b bs')
      have "links nx pv ?s b bs' x"
        unfolding p using l r Cons snoc
        by (subst links_cong [where s = s]) (auto simp: link_laws ring_def)
      with l1 snoc p Cons show ?thesis by (simp add: links_append link_laws)
    qed
  qed
  have "nx ?s e = nx s e" "pv ?s e = pv s e" using nz by (auto simp: link_laws simp del: last.simps)
  with run seg r show ?thesis by (auto simp: ring_def)
qed

lemma ring_remove_member:
  assumes r: "ring nx pv s (x # as @ e # bs)"
  shows "\<exists>s'. ring_remove nx pv un up x e s = Inr s' \<and> ring nx pv s' (x # as @ bs)"
proof (cases "as @ bs = []")
  case True
  with r show ?thesis by (auto simp: ring_remove_def ring_def link_laws)
next
  case False
  from r have l: "links nx pv s x as e" "links nx pv s e bs x" and d: "distinct (x # as @ e # bs)"
    by (auto simp: ring_def links_append)
  then have "nx s x = hd (as @ [e])" "pv s x = last (e # bs)"
    using links_hd links_last by metis+
  moreover have "last (e # bs) \<noteq> e" if "bs \<noteq> []"
    using d that last_in_set [OF that] by auto
  moreover have "hd (as @ [e]) \<noteq> e" if "as \<noteq> []"
    using d that by (cases as) auto
  ultimately have "\<not> (pv s x = e \<and> nx s x = e)" using False by auto
  moreover from d have "x \<noteq> e" by auto
  ultimately show ?thesis using unlink_middle [OF r False] by (auto simp: ring_remove_def)
qed

lemma extract_self_ring:
  assumes r: "ring nx pv s (x # y # ys)"
  shows "\<exists>s'. ring_extract_self nx pv un up x s = Inr s' \<and> ring nx pv s' (y # ys) \<and> ring nx pv s' [x]"
proof (cases ys rule: rev_cases)
  case Nil
  with r show ?thesis by (auto simp: ring_extract_self_def ring_def link_laws Let_def)
next
  case (snoc zs z)
  with r have l: "links nx pv s y zs z" "nx s z = x" "pv s x = z" "nx s x = y" "pv s y = x"
    and d: "distinct (x # y # zs @ [z])" "0 \<notin> set (x # y # zs @ [z])"
    by (auto simp: ring_def links_snoc)
  let ?s = "up x x (un x x (up y z (un z y s)))"
  have run: "ring_extract_self nx pv un up x s = Inr ?s"
    using l d by (auto simp: ring_extract_self_def link_laws Let_def)
  have "links nx pv ?s y zs z"
    using l d by (subst links_cong [where s = s]) (auto simp: link_laws)
  with d snoc run show ?thesis by (auto simp: ring_def links_snoc link_laws)
qed

end

end
