(* ===== verification/Slab_List.thy ===== *)
theory Slab_List
  imports Page_Pool Ring
begin

text \<open>
  The list descriptors of the slab heap (\<open>kernel/src/kheap/slab/list_descriptor\<close>): a run of pages cut
  into buffers of one size, whose free buffers are threaded through their own first words.

  The operations on one slab take the memory words and the descriptor by value; the operations on the
  circular list of slabs work on the store \<open>slab_store\<close>, which maps addresses to descriptors.
\<close>

section \<open>The descriptor\<close>

record ListDescriptor =
  m_baseAddress :: addr
  m_nextFree :: addr
  m_nextList :: addr
  m_prevList :: addr
  m_bufferSize :: u16
  m_totalBuffers :: u16
  m_buffersUsed :: u16
  m_pages :: u8

definition NextFreeBuffer :: "ListDescriptor \<Rightarrow> addr" where "NextFreeBuffer ld = m_nextFree ld"
definition BufferSize :: "ListDescriptor \<Rightarrow> u16" where "BufferSize ld = m_bufferSize ld"
definition Pages :: "ListDescriptor \<Rightarrow> u8" where "Pages ld = m_pages ld"
definition TotalBuffers :: "ListDescriptor \<Rightarrow> u16" where "TotalBuffers ld = m_totalBuffers ld"
definition BuffersUsed :: "ListDescriptor \<Rightarrow> u16" where "BuffersUsed ld = m_buffersUsed ld"
definition Base :: "ListDescriptor \<Rightarrow> addr" where "Base ld = m_baseAddress ld"

text \<open>\<open>PAGE_SIZE * Pages()\<close> is computed in \<open>int\<close>, where it cannot overflow, and then added to the base.\<close>

definition Limit :: "ListDescriptor \<Rightarrow> addr" where
  "Limit ld = Base ld + 0x1000 * ucast (Pages ld)"

definition InitialFreeSpace :: "ListDescriptor \<Rightarrow> u16" where
  "InitialFreeSpace ld = ucast (Limit ld - Base ld)"

definition SpaceAfterAllocation :: "ListDescriptor \<Rightarrow> u16" where
  "SpaceAfterAllocation ld = InitialFreeSpace ld - TotalBuffers ld * BufferSize ld"

definition Full :: "ListDescriptor \<Rightarrow> bool" where
  "Full ld \<longleftrightarrow> m_totalBuffers ld = m_buffersUsed ld"

definition Empty_ld :: "ListDescriptor \<Rightarrow> bool" where
  "Empty_ld ld \<longleftrightarrow> m_buffersUsed ld = 0"

definition HasSpace :: "ListDescriptor \<Rightarrow> bool" where
  "HasSpace ld \<longleftrightarrow> m_buffersUsed ld < m_totalBuffers ld"

definition ObjectInRange :: "ListDescriptor \<Rightarrow> addr \<Rightarrow> bool" where
  "ObjectInRange ld obj \<longleftrightarrow> Base ld \<le> obj \<and> obj < Limit ld"

definition BufferIndex :: "ListDescriptor \<Rightarrow> addr \<Rightarrow> u8" where
  "BufferIndex ld pbuffer = ucast ((pbuffer - Base ld) div ucast (BufferSize ld))"

text \<open>The constructor: buffers smaller than a link are rounded up to 8 bytes.\<close>

definition new_ListDescriptor :: "addr \<Rightarrow> addr \<Rightarrow> u16 \<Rightarrow> u8 \<Rightarrow> ListDescriptor" where
  "new_ListDescriptor this baseAddr bufferSize pages =
     (let sz = (if bufferSize < 8 then 8 else bufferSize)
      in \<lparr>m_baseAddress = baseAddr, m_nextFree = 0, m_nextList = this, m_prevList = this,
          m_bufferSize = sz,
          m_totalBuffers = of_nat (unat pages * 0x1000 div unat sz),
          m_buffersUsed = 0, m_pages = pages\<rparr>)"

section \<open>Operations on one slab\<close>

fun linkage_loop :: "nat \<Rightarrow> heap \<Rightarrow> addr \<Rightarrow> u64 \<Rightarrow> addr \<Rightarrow> (heap \<times> addr) result" where
  "linkage_loop 0 m currentBuffer sz limit = Inl Diverges"
| "linkage_loop (Suc n) m currentBuffer sz limit =
     (if currentBuffer + sz < limit
      then rbind (store m currentBuffer (currentBuffer + sz)) (\<lambda>m'.
             linkage_loop n m' (currentBuffer + sz) sz limit)
      else Inr (m, currentBuffer))"

definition SetupLinkage :: "heap \<Rightarrow> ListDescriptor \<Rightarrow> (heap \<times> ListDescriptor) result" where
  "SetupLinkage m ld =
     rbind (linkage_loop walk_fuel m (Base ld) (ucast (BufferSize ld)) (Limit ld)) (\<lambda>(m', currentBuffer).
       rbind (store m' currentBuffer 0) (\<lambda>m''. Inr (m'', ld\<lparr>m_nextFree := Base ld\<rparr>)))"

text \<open>\<open>PoisonFreeArea\<close> over byte-addressed memory.\<close>

definition PoisonFreeArea :: "u8 \<Rightarrow> ListDescriptor \<Rightarrow> (addr \<Rightarrow> u8) \<Rightarrow> (addr \<Rightarrow> u8)" where
  "PoisonFreeArea val ld bytes = (\<lambda>a. if ObjectInRange ld a then val else bytes a)"

definition Allocate :: "heap \<Rightarrow> ListDescriptor \<Rightarrow> (ListDescriptor \<times> addr) result" where
  "Allocate m ld =
     (if m_buffersUsed ld = m_totalBuffers ld then Inr (ld, 0)
      else rbind (load m (m_nextFree ld)) (\<lambda>next.
        let used = m_buffersUsed ld + 1
        in Inr (ld\<lparr>m_nextFree := (if used = m_totalBuffers ld then 0 else next), m_buffersUsed := used\<rparr>,
                m_nextFree ld)))"

fun free_walk :: "nat \<Rightarrow> heap \<Rightarrow> addr \<Rightarrow> addr \<Rightarrow> addr \<Rightarrow> (addr \<times> addr) result" where
  "free_walk 0 m operandCell prevCell currentCell = Inl Diverges"
| "free_walk (Suc n) m operandCell prevCell currentCell =
     (if currentCell < operandCell
      then rbind (load m currentCell) (\<lambda>next.
             if next = 0 then Inr (currentCell, next)
             else free_walk n m operandCell currentCell next)
      else Inr (prevCell, currentCell))"

definition Deallocate :: "addr \<Rightarrow> heap \<Rightarrow> ListDescriptor \<Rightarrow> (heap \<times> ListDescriptor) result" where
  "Deallocate address m ld =
     (if \<not> ObjectInRange ld address \<or> m_buffersUsed ld = 0 then Inr (m, ld)
      else if m_nextFree ld = 0
      then rbind (store m address 0) (\<lambda>m'.
             Inr (m', ld\<lparr>m_nextFree := address, m_buffersUsed := m_buffersUsed ld - 1\<rparr>))
      else rbind (free_walk walk_fuel m address 0 (m_nextFree ld)) (\<lambda>(prevCell, currentCell).
        if prevCell = 0
        then rbind (store m address currentCell) (\<lambda>m'.
               Inr (m', ld\<lparr>m_nextFree := address, m_buffersUsed := m_buffersUsed ld - 1\<rparr>))
        else rbind (store m prevCell address) (\<lambda>m'.
               rbind (store m' address currentCell) (\<lambda>m''.
                 Inr (m'', ld\<lparr>m_buffersUsed := m_buffersUsed ld - 1\<rparr>)))))"

section \<open>The buffers of a slab\<close>

primrec slots_from :: "addr \<Rightarrow> u64 \<Rightarrow> nat \<Rightarrow> addr list" where
  "slots_from b sz 0 = []"
| "slots_from b sz (Suc k) = b # slots_from (b + sz) sz k"

lemma slots_from_numeral [simp]:
  "slots_from b sz (numeral k) = b # slots_from (b + sz) sz (pred_numeral k)"
  by (simp add: numeral_eq_Suc)

lemma length_slots_from [simp]: "length (slots_from b sz k) = k"
  by (induction k arbitrary: b) auto

lemma slots_from_Suc: "slots_from b sz (Suc k) = slots_from b sz k @ [b + of_nat k * sz]"
proof (induction k arbitrary: b)
  case (Suc k)
  have "slots_from b sz (Suc (Suc k)) = b # slots_from (b + sz) sz (Suc k)" by simp
  also have "\<dots> = b # slots_from (b + sz) sz k @ [b + sz + of_nat k * sz]" by (simp only: Suc.IH)
  finally show ?case by (simp add: algebra_simps)
qed simp

lemma slots_bounds:
  assumes "x \<in> set (slots_from b sz k)" "unat b + k * unat sz < 2 ^ 64"
  shows "unat b \<le> unat x \<and> unat x + unat sz \<le> unat b + k * unat sz"
  using assms
proof (induction k arbitrary: b)
  case (Suc k)
  have b': "unat (b + sz) = unat b + unat sz"
    using Suc.prems(2) by (intro unat_add_no_wrap) simp
  show ?case
  proof (cases "x = b")
    case False
    with Suc.prems(1) have "x \<in> set (slots_from (b + sz) sz k)" by simp
    with Suc.IH [of "b + sz"] Suc.prems(2) b' show ?thesis by (simp add: algebra_simps)
  qed simp
qed simp

lemma slots_ascending:
  "unat b + k * unat sz < 2 ^ 64 \<Longrightarrow> 0 < unat sz \<Longrightarrow> ascending (slots_from b sz k)"
proof (induction k arbitrary: b)
  case (Suc k)
  have b': "unat (b + sz) = unat b + unat sz"
    using Suc.prems(1) by (intro unat_add_no_wrap) simp
  have "b < x" if "x \<in> set (slots_from (b + sz) sz k)" for x
    using slots_bounds [OF that] Suc.prems b' by (simp add: word_less_nat_alt)
  with Suc b' show ?case by (simp add: algebra_simps)
qed simp

lemma linkage_loop_links:
  assumes "k < n" "unat cur + k * unat sz < unat limit" "unat limit \<le> unat cur + Suc k * unat sz"
    and "unat limit + unat sz < 2 ^ 64" "0 < unat cur" "0 < unat sz"
  shows "\<exists>m'. linkage_loop n m cur sz limit = Inr (m', cur + of_nat k * sz) \<and>
           lseg m' cur (slots_from cur sz k) (cur + of_nat k * sz) \<and>
           (\<forall>x. x \<notin> set (slots_from cur sz k) \<longrightarrow> m' x = m x)"
  using assms
proof (induction k arbitrary: n cur m)
  case 0
  then obtain n' where n: "n = Suc n'" by (cases n) auto
  have "unat (cur + sz) = unat cur + unat sz" using 0 by (intro unat_add_no_wrap) simp
  with 0 n show ?case by (simp add: word_less_nat_alt)
next
  case (Suc k)
  then obtain n' where n: "n = Suc n'" "k < n'" by (cases n) auto
  have c': "unat (cur + sz) = unat cur + unat sz" using Suc.prems by (intro unat_add_no_wrap) simp
  then have lt: "cur + sz < limit" using Suc.prems by (simp add: word_less_nat_alt)
  have "\<exists>m'. linkage_loop n' (m(cur := cur + sz)) (cur + sz) sz limit
        = Inr (m', cur + sz + of_nat k * sz) \<and>
      lseg m' (cur + sz) (slots_from (cur + sz) sz k) (cur + sz + of_nat k * sz) \<and>
      (\<forall>x. x \<notin> set (slots_from (cur + sz) sz k) \<longrightarrow> m' x = (m(cur := cur + sz)) x)"
    by (rule Suc.IH) (use Suc.prems n c' in \<open>simp_all add: algebra_simps\<close>)
  then obtain m' where m': "linkage_loop n' (m(cur := cur + sz)) (cur + sz) sz limit
        = Inr (m', cur + sz + of_nat k * sz)"
      "lseg m' (cur + sz) (slots_from (cur + sz) sz k) (cur + sz + of_nat k * sz)"
      "\<forall>x. x \<notin> set (slots_from (cur + sz) sz k) \<longrightarrow> m' x = (m(cur := cur + sz)) x"
    by blast
  have "cur \<notin> set (slots_from (cur + sz) sz k)"
    using slots_bounds [of cur "cur + sz" sz k] Suc.prems c' by (auto simp: algebra_simps)
  with m'(3) have "m' cur = cur + sz" by simp
  moreover have "cur \<noteq> 0" using Suc.prems by auto
  ultimately show ?case
    using m' n lt by (auto simp: algebra_simps)
qed

section \<open>The invariant of a slab\<close>

text \<open>
  \<open>SetupLinkage\<close> links a cell at every multiple of the buffer size below the limit, so when the size
  does not divide the slab there is one cell more than \<open>TotalBuffers\<close>, which does not fit.  The
  invariant admits this tail cell in the free chain; it stays last and is never handed out.
\<close>

definition slab_bytes :: "ListDescriptor \<Rightarrow> nat" where
  "slab_bytes ld = unat (m_pages ld) * 0x1000"

definition slab_geometry :: "ListDescriptor \<Rightarrow> bool" where
  "slab_geometry ld \<longleftrightarrow> 0 < unat (m_baseAddress ld) \<and> 8 \<le> unat (m_bufferSize ld) \<and>
     unat (m_totalBuffers ld) = slab_bytes ld div unat (m_bufferSize ld) \<and>
     0 < unat (m_totalBuffers ld) \<and> unat (m_baseAddress ld) + slab_bytes ld + 0x10000 < 2 ^ 64"

definition slab_slots :: "ListDescriptor \<Rightarrow> addr list" where
  "slab_slots ld = slots_from (m_baseAddress ld) (ucast (m_bufferSize ld)) (unat (m_totalBuffers ld))"

definition slab_tail :: "ListDescriptor \<Rightarrow> addr" where
  "slab_tail ld = m_baseAddress ld + of_nat (unat (m_totalBuffers ld)) * ucast (m_bufferSize ld)"

definition slab_cells :: "ListDescriptor \<Rightarrow> addr list" where
  "slab_cells ld = slab_slots ld @
     (if unat (m_bufferSize ld) dvd slab_bytes ld then [] else [slab_tail ld])"

definition slab_ok :: "heap \<Rightarrow> ListDescriptor \<Rightarrow> addr list \<Rightarrow> bool" where
  "slab_ok m ld fs \<longleftrightarrow> slab_geometry ld \<and> chain m (m_nextFree ld) fs \<and> ascending fs \<and>
     set fs \<subseteq> set (slab_cells ld) \<and>
     card (set fs \<inter> set (slab_slots ld)) + unat (m_buffersUsed ld) = unat (m_totalBuffers ld)"

definition slab_free :: "heap \<Rightarrow> ListDescriptor \<Rightarrow> addr set" where
  "slab_free m ld = {p. \<exists>fs. slab_ok m ld fs \<and> p \<in> set fs \<inter> set (slab_slots ld)}"

lemma slab_cells_subset:
  "set (slab_cells ld) \<subseteq> insert (slab_tail ld) (set (slab_slots ld))" "set (slab_slots ld) \<subseteq> set (slab_cells ld)"
  by (auto simp: slab_cells_def)

lemma unat_size_ucast [simp]: "unat (ucast (x :: u16) :: u64) = unat x"
  using unsigned_less [where ?'a = nat, of x] by (simp add: unsigned_ucast_eq take_bit_nat_eq_self)

lemma slab_size_bound:
  assumes "slab_geometry ld"
  shows "unat (m_totalBuffers ld) * unat (m_bufferSize ld) \<le> slab_bytes ld"
  using assms by (simp add: slab_geometry_def)

lemma slab_total_unat:
  assumes "slab_geometry ld" "k \<le> unat (m_totalBuffers ld)"
  shows "unat (m_baseAddress ld) + k * unat (m_bufferSize ld) < 2 ^ 64"
    and "unat (m_baseAddress ld + of_nat k * ucast (m_bufferSize ld))
           = unat (m_baseAddress ld) + k * unat (m_bufferSize ld)"
proof -
  have le: "k * unat (m_bufferSize ld) \<le> slab_bytes ld"
    using mult_le_mono1 [OF assms(2)] slab_size_bound [OF assms(1)] by (rule le_trans)
  with assms(1) show lt: "unat (m_baseAddress ld) + k * unat (m_bufferSize ld) < 2 ^ 64"
    by (simp add: slab_geometry_def)
  have "k < 2 ^ 64" using assms(2) unsigned_less [where ?'a = nat, of "m_totalBuffers ld"] by simp
  then have "unat (of_nat k * ucast (m_bufferSize ld) :: u64) = k * unat (m_bufferSize ld)"
    using lt by (simp add: unat_word_ariths unat_of_nat)
  with lt show "unat (m_baseAddress ld + of_nat k * ucast (m_bufferSize ld))
           = unat (m_baseAddress ld) + k * unat (m_bufferSize ld)"
    by (subst unat_add_no_wrap) simp_all
qed

lemma slab_limit_unat:
  "slab_geometry ld \<Longrightarrow> unat (Limit ld) = unat (m_baseAddress ld) + slab_bytes ld"
proof -
  assume g: "slab_geometry ld"
  have "unat (ucast (m_pages ld) :: u64) = unat (m_pages ld)"
    using unsigned_less [where ?'a = nat, of "m_pages ld"]
    by (simp add: unsigned_ucast_eq take_bit_nat_eq_self)
  then have "unat (0x1000 * ucast (m_pages ld) :: u64) = slab_bytes ld"
    using unsigned_less [where ?'a = nat, of "m_pages ld"]
    by (simp add: unat_word_ariths slab_bytes_def)
  with g show ?thesis
    by (simp add: Limit_def Base_def Pages_def slab_geometry_def unat_add_no_wrap)
qed

lemma slab_slots_facts:
  assumes "slab_geometry ld"
  shows "ascending (slab_slots ld)" "length (slab_slots ld) = unat (m_totalBuffers ld)"
    and "x \<in> set (slab_slots ld) \<Longrightarrow> x < slab_tail ld \<and> x \<noteq> 0 \<and> ObjectInRange ld x"
proof -
  note tot = slab_total_unat [OF assms order_refl]
  show "ascending (slab_slots ld)"
    unfolding slab_slots_def using tot assms
    by (intro slots_ascending) (auto simp: slab_geometry_def)
  show "length (slab_slots ld) = unat (m_totalBuffers ld)" by (simp add: slab_slots_def)
  assume "x \<in> set (slab_slots ld)"
  then have "unat (m_baseAddress ld) \<le> unat x \<and> unat x + unat (m_bufferSize ld)
      \<le> unat (m_baseAddress ld) + unat (m_totalBuffers ld) * unat (m_bufferSize ld)"
    using slots_bounds [of x _ "ucast (m_bufferSize ld)"] tot by (auto simp: slab_slots_def)
  moreover have "8 \<le> unat (m_bufferSize ld)" "0 < unat (m_baseAddress ld)"
    using assms by (simp_all add: slab_geometry_def)
  ultimately have "unat x < unat (slab_tail ld)" "unat (m_baseAddress ld) \<le> unat x" "0 < unat x"
      "unat x < unat (Limit ld)"
    using tot slab_size_bound [OF assms] slab_limit_unat [OF assms] unfolding slab_tail_def
    by linarith+
  then show "x < slab_tail ld \<and> x \<noteq> 0 \<and> ObjectInRange ld x"
    by (auto simp: word_less_nat_alt word_le_nat_alt ObjectInRange_def Base_def)
qed

text \<open>The free buffers are the chain without the tail cell.\<close>

lemma slab_ok_unique: "slab_ok m ld fs \<Longrightarrow> slab_ok m ld fs' \<Longrightarrow> fs' = fs"
  using chain_unique by (auto simp: slab_ok_def)

lemma slab_free_eq: "slab_ok m ld fs \<Longrightarrow> slab_free m ld = set fs \<inter> set (slab_slots ld)"
proof -
  assume ok: "slab_ok m ld fs"
  have "slab_ok m ld fs' \<longleftrightarrow> fs' = fs" for fs' using slab_ok_unique [OF ok] ok by blast
  then show ?thesis by (auto simp: slab_free_def)
qed

lemma slab_cells_bounds:
  assumes "slab_ok m ld fs" "x \<in> set fs"
  shows "x \<le> slab_tail ld" "x \<noteq> 0" "x \<in> set (slab_slots ld) \<or> x = slab_tail ld"
proof -
  from assms have g: "slab_geometry ld" and x: "x \<in> set (slab_slots ld) \<or> x = slab_tail ld"
    and "0 \<notin> set fs"
    using lseg_nonzero slab_cells_subset(1) by (fastforce simp: slab_ok_def)+
  with assms(2) slab_slots_facts(3) [OF g, of x]
  show "x \<le> slab_tail ld" "x \<noteq> 0" "x \<in> set (slab_slots ld) \<or> x = slab_tail ld"
    by (auto simp: less_imp_le)
qed

section \<open>Setting up, allocating and freeing\<close>

lemma slab_cells_eq:
  assumes "slab_geometry ld"
  shows "slab_cells ld = slots_from (m_baseAddress ld) (ucast (m_bufferSize ld))
           (Suc ((slab_bytes ld - 1) div unat (m_bufferSize ld)))"
proof -
  let ?b = "unat (m_bufferSize ld)" and ?t = "unat (m_totalBuffers ld)"
  from assms have g: "?t = slab_bytes ld div ?b" "0 < ?b" "0 < ?t" by (auto simp: slab_geometry_def)
  show ?thesis
  proof (cases "?b dvd slab_bytes ld")
    case True
    obtain t where t: "?t = Suc t" using g(3) by (cases ?t) auto
    from True g t have "slab_bytes ld = Suc t * ?b" by simp
    then have eq: "slab_bytes ld - 1 = (?b - 1) + t * ?b" using g(2) by simp
    have "(slab_bytes ld - 1) div ?b = t + (?b - 1) div ?b"
      unfolding eq using g(2) by (intro div_mult_self1) simp
    then have "(slab_bytes ld - 1) div ?b = ?t - 1" using g(2) t by simp
    with True g show ?thesis by (simp add: slab_cells_def slab_slots_def)
  next
    case False
    then have "slab_bytes ld mod ?b \<noteq> 0" by (simp add: dvd_eq_mod_eq_0)
    then have "(slab_bytes ld - 1) div ?b = ?t" using g
      by (cases "slab_bytes ld") (simp_all add: div_Suc)
    with False g show ?thesis by (simp add: slab_cells_def slab_slots_def slab_tail_def slots_from_Suc del: slots_from.simps)
  qed
qed

lemma dealloc_walk_free_walk: "free_walk n m a p c = dealloc_walk n m a p c"
  by (induction n m a p c rule: free_walk.induct) (auto simp: load_def)

lemma chain_length_less_fuel: "chain m p xs \<Longrightarrow> length xs < walk_fuel"
  using distinct_length_walk_fuel [of "0 # xs"] chain_distinct [of m p xs] lseg_nonzero [of m p xs 0]
  by auto

lemma SetupLinkage_ok:
  assumes "slab_geometry ld" "m_buffersUsed ld = 0"
  shows "\<exists>m' ld'. SetupLinkage m ld = Inr (m', ld') \<and> ld' = ld\<lparr>m_nextFree := m_baseAddress ld\<rparr> \<and>
           slab_ok m' ld' (slab_cells ld) \<and> (\<forall>x. x \<notin> set (slab_cells ld) \<longrightarrow> m' x = m x)"
proof -
  let ?b = "unat (m_bufferSize ld)" and ?k = "(slab_bytes ld - 1) div unat (m_bufferSize ld)"
  let ?sz = "ucast (m_bufferSize ld) :: u64" and ?c = "m_baseAddress ld"
  from assms have g: "unat (m_totalBuffers ld) = slab_bytes ld div ?b" "8 \<le> ?b" "0 < unat (m_totalBuffers ld)"
    and base: "unat ?c + slab_bytes ld + 0x10000 < 2 ^ 64" "0 < unat ?c"
    by (auto simp: slab_geometry_def)
  from g have pos: "0 < slab_bytes ld" by (cases "slab_bytes ld") auto
  have lim: "unat (Limit ld) = unat ?c + slab_bytes ld" by (rule slab_limit_unat [OF assms(1)])
  have "?k * ?b \<le> slab_bytes ld - 1" by simp
  then have k1: "?k * ?b < slab_bytes ld" using pos by linarith
  have "slab_bytes ld - 1 < Suc ?k * ?b" using g(2) dividend_less_div_times [of ?b "slab_bytes ld - 1"] by simp
  then have k2: "slab_bytes ld \<le> Suc ?k * ?b" by linarith
  have "?k \<le> slab_bytes ld" by (meson div_le_dividend diff_le_self le_trans)
  then have k3: "?k < walk_fuel" using base by (simp add: walk_fuel_def)
  have b16: "?b < 2 ^ 16" using unsigned_less [where ?'a = nat, of "m_bufferSize ld"] by simp
  have "\<exists>m'. linkage_loop walk_fuel m ?c ?sz (Limit ld) = Inr (m', ?c + of_nat ?k * ?sz) \<and>
      lseg m' ?c (slots_from ?c ?sz ?k) (?c + of_nat ?k * ?sz) \<and>
      (\<forall>x. x \<notin> set (slots_from ?c ?sz ?k) \<longrightarrow> m' x = m x)"
    by (rule linkage_loop_links) (use k1 k2 k3 lim base b16 g in simp_all)
  then obtain m' where m': "linkage_loop walk_fuel m ?c ?sz (Limit ld) = Inr (m', ?c + of_nat ?k * ?sz)"
      "lseg m' ?c (slots_from ?c ?sz ?k) (?c + of_nat ?k * ?sz)"
      "\<forall>x. x \<notin> set (slots_from ?c ?sz ?k) \<longrightarrow> m' x = m x"
    by blast
  let ?last = "?c + of_nat ?k * ?sz"
  let ?ld = "ld\<lparr>m_nextFree := ?c\<rparr>"
  have cells: "slab_cells ld = slots_from ?c ?sz ?k @ [?last]"
    using slab_cells_eq [OF assms(1)] by (simp only: slots_from_Suc)
  have le_t: "?k \<le> unat (m_totalBuffers ld)" unfolding g(1) by (rule div_le_mono) simp
  have "unat ?last = unat ?c + ?k * ?b" by (rule slab_total_unat [OF assms(1) le_t])
  then have last: "?last \<noteq> 0" using base(2) by (metis add_gr_0 neq0_conv unat_0)
  have asc: "ascending (slab_cells ld)"
  proof -
    have "ascending (slab_slots ld)" using slab_slots_facts [OF assms(1)] by blast
    then show ?thesis
      using slab_slots_facts(3) [OF assms(1)] by (auto simp: slab_cells_def sorted_wrt_append)
  qed
  then have "?last \<notin> set (slots_from ?c ?sz ?k)" unfolding cells by (auto simp: sorted_wrt_append)
  then have ch: "chain (m'(?last := 0)) ?c (slab_cells ld)"
    using m'(2) last by (simp add: cells)
  have run: "SetupLinkage m ld = Inr (m'(?last := 0), ?ld)"
    using m'(1) last by (simp add: SetupLinkage_def Base_def BufferSize_def)
  have same: "slab_geometry ?ld = slab_geometry ld" "slab_slots ?ld = slab_slots ld"
      "slab_tail ?ld = slab_tail ld" "slab_cells ?ld = slab_cells ld"
    by (simp_all add: slab_geometry_def slab_slots_def slab_tail_def slab_bytes_def slab_cells_def)
  have "set (slab_cells ld) \<inter> set (slab_slots ld) = set (slab_slots ld)"
    by (auto simp: slab_cells_def)
  moreover have "card (set (slab_slots ld)) = unat (m_totalBuffers ld)"
    using slab_slots_facts [OF assms(1)] ascending_distinct distinct_card by metis
  ultimately have "slab_ok (m'(?last := 0)) ?ld (slab_cells ld)"
    using ch asc assms same by (simp add: slab_ok_def)
  moreover have "\<forall>x. x \<notin> set (slab_cells ld) \<longrightarrow> (m'(?last := 0)) x = m x"
    using m'(3) cells by auto
  ultimately show ?thesis using run by blast
qed

lemma slab_ok_head:
  assumes "slab_ok m ld fs" "m_buffersUsed ld \<noteq> m_totalBuffers ld"
  shows "\<exists>p fs'. fs = p # fs' \<and> p \<in> set (slab_slots ld) \<and>
           (set fs' \<inter> set (slab_slots ld) = set fs \<inter> set (slab_slots ld) - {p})"
proof -
  from assms have g: "slab_geometry ld" and asc: "ascending fs" 
    and sub: "set fs \<subseteq> insert (slab_tail ld) (set (slab_slots ld))"
    and card: "card (set fs \<inter> set (slab_slots ld)) + unat (m_buffersUsed ld) = unat (m_totalBuffers ld)"
    using slab_cells_subset(1) by (fastforce simp: slab_ok_def)+
  have "unat (m_buffersUsed ld) \<noteq> unat (m_totalBuffers ld)"
    using assms(2) by (simp add: word_unat_eq_iff)
  with card have "set fs \<inter> set (slab_slots ld) \<noteq> {}" by auto
  then obtain q where q: "q \<in> set fs" "q \<in> set (slab_slots ld)" by auto
  then obtain p fs' where fs: "fs = p # fs'" by (cases fs) auto
  have "p \<le> q" using q asc fs by (auto simp: less_imp_le)
  moreover have "q < slab_tail ld" using slab_slots_facts(3) [OF g q(2)] by simp
  ultimately have "p \<noteq> slab_tail ld" by auto
  with sub fs have "p \<in> set (slab_slots ld)" by auto
  moreover have "p \<notin> set fs'" using asc fs by auto
  ultimately show ?thesis using fs by auto
qed

lemma slab_slots_upd [simp]:
  "slab_slots (ld\<lparr>m_nextFree := f, m_buffersUsed := u\<rparr>) = slab_slots ld"
  "slab_tail (ld\<lparr>m_nextFree := f, m_buffersUsed := u\<rparr>) = slab_tail ld"
  "slab_geometry (ld\<lparr>m_nextFree := f, m_buffersUsed := u\<rparr>) = slab_geometry ld"
  "slab_slots (ld\<lparr>m_nextFree := f\<rparr>) = slab_slots ld"
  "slab_tail (ld\<lparr>m_nextFree := f\<rparr>) = slab_tail ld"
  "slab_geometry (ld\<lparr>m_nextFree := f\<rparr>) = slab_geometry ld"
  "slab_slots (ld\<lparr>m_buffersUsed := u\<rparr>) = slab_slots ld"
  "slab_tail (ld\<lparr>m_buffersUsed := u\<rparr>) = slab_tail ld"
  "slab_geometry (ld\<lparr>m_buffersUsed := u\<rparr>) = slab_geometry ld"
  "slab_cells (ld\<lparr>m_nextFree := f, m_buffersUsed := u\<rparr>) = slab_cells ld"
  "slab_cells (ld\<lparr>m_nextFree := f\<rparr>) = slab_cells ld"
  "slab_cells (ld\<lparr>m_buffersUsed := u\<rparr>) = slab_cells ld"
  by (simp_all add: slab_slots_def slab_tail_def slab_geometry_def slab_bytes_def slab_cells_def)

lemma unat_used_inc:
  "m_buffersUsed ld < m_totalBuffers ld \<Longrightarrow> unat (m_buffersUsed ld + 1) = Suc (unat (m_buffersUsed ld))"
  using unsigned_less [where ?'a = nat, of "m_totalBuffers ld"]
  by (simp add: word_less_nat_alt unat_word_ariths)

lemma Allocate_ok:
  assumes ok: "slab_ok m ld fs"
  shows "if m_buffersUsed ld = m_totalBuffers ld then Allocate m ld = Inr (ld, 0)
         else \<exists>ld'. Allocate m ld = Inr (ld', hd fs) \<and> hd fs \<in> set (slab_slots ld) \<and>
                ld' = ld\<lparr>m_nextFree := m_nextFree ld', m_buffersUsed := m_buffersUsed ld + 1\<rparr> \<and>
                slab_ok m ld' (if m_buffersUsed ld + 1 = m_totalBuffers ld then [] else tl fs) \<and>
                slab_free m ld' = slab_free m ld - {hd fs}"
proof (cases "m_buffersUsed ld = m_totalBuffers ld")
  case False
  then obtain p fs' where fs: "fs = p # fs'" "p \<in> set (slab_slots ld)"
      "set fs' \<inter> set (slab_slots ld) = set fs \<inter> set (slab_slots ld) - {p}"
    using slab_ok_head [OF ok] by blast
  from ok have "chain m (m_nextFree ld) fs" "ascending fs" and g: "slab_geometry ld"
    and crd: "card (set fs \<inter> set (slab_slots ld)) + unat (m_buffersUsed ld) = unat (m_totalBuffers ld)"
    by (simp_all add: slab_ok_def)
  then have "chain m (m_nextFree ld) (p # fs')" "ascending (p # fs')" by (simp_all only: fs(1))
  note c = this g crd
  have "unat (m_buffersUsed ld) \<noteq> unat (m_totalBuffers ld)"
    using False by (simp add: word_unat_eq_iff)
  then have lt: "m_buffersUsed ld < m_totalBuffers ld" using c(4) by (simp add: word_less_nat_alt)
  note inc = unat_used_inc [OF lt]
  let ?u = "m_buffersUsed ld + 1"
  let ?ld = "ld\<lparr>m_nextFree := (if ?u = m_totalBuffers ld then 0 else m p), m_buffersUsed := ?u\<rparr>"
  have run: "Allocate m ld = Inr (?ld, p)"
    using c(1) False by (auto simp: Allocate_def Let_def)
  have "p \<in> set fs \<inter> set (slab_slots ld)" using fs by simp
  then have card': "Suc (card (set fs' \<inter> set (slab_slots ld))) = card (set fs \<inter> set (slab_slots ld))"
    unfolding fs(3) by (intro card_Suc_Diff1) auto
  have ok': "slab_ok m ?ld (if ?u = m_totalBuffers ld then [] else fs')"
  proof (cases "?u = m_totalBuffers ld")
    case True
    then have "unat ?u = unat (m_totalBuffers ld)" by simp
    with True c(3) inc show ?thesis by (simp add: slab_ok_def)
  next
    case False
    have "set fs' \<subseteq> set (slab_cells ld)" using ok fs(1) by (simp add: slab_ok_def)
    moreover have "card (set fs' \<inter> set (slab_slots ld)) + unat ?u = unat (m_totalBuffers ld)"
      using card' c(4) inc by linarith
    ultimately show ?thesis using False c(1-3) by (simp add: slab_ok_def)
  qed
  have "slab_free m ?ld = slab_free m ld - {p}"
  proof (cases "?u = m_totalBuffers ld")
    case True
    then have "unat ?u = unat (m_totalBuffers ld)" by simp
    with card' crd inc have "card (set fs' \<inter> set (slab_slots ld)) = 0" by linarith
    then have "set fs' \<inter> set (slab_slots ld) = {}" by simp
    with True slab_free_eq [OF ok'] slab_free_eq [OF ok] fs(3) show ?thesis by simp
  next
    case False
    with slab_free_eq [OF ok'] slab_free_eq [OF ok] fs(3) show ?thesis by simp
  qed
  then have "Allocate m ld = Inr (?ld, hd fs) \<and> hd fs \<in> set (slab_slots ld) \<and>
      ?ld = ld\<lparr>m_nextFree := m_nextFree ?ld, m_buffersUsed := ?u\<rparr> \<and>
      slab_ok m ?ld (if ?u = m_totalBuffers ld then [] else tl fs) \<and>
      slab_free m ?ld = slab_free m ld - {hd fs}"
    unfolding fs(1) list.sel
    by (intro conjI run fs(2) ok' \<open>slab_free m ?ld = slab_free m ld - {p}\<close>) simp
  with False show ?thesis by (simp only: if_False) blast
qed (simp add: Allocate_def)

lemma free_walk_splits:
  assumes "chain m (m_nextFree ld) fs" "fs \<noteq> []"
  shows "free_walk walk_fuel m a 0 (m_nextFree ld)
     = Inr (last (0 # takeWhile (\<lambda>y. y < a) fs), hd (dropWhile (\<lambda>y. y < a) fs @ [0]))"
  unfolding dealloc_walk_free_walk
  by (rule dealloc_walk_splits) (use assms chain_length_less_fuel in auto)

lemma chain_insort:
  fixes b :: addr
  assumes "chain m h xs" "ascending xs" "b \<noteq> 0" "b \<notin> set xs" "takeWhile (\<lambda>y. y < b) xs \<noteq> []"
  shows "chain (m(last (takeWhile (\<lambda>y. y < b) xs) := b, b := hd (dropWhile (\<lambda>y. y < b) xs @ [0])))
           h (insort b xs)"
proof -
  obtain ys bs where ys: "takeWhile (\<lambda>y. y < b) xs = ys" and bs: "dropWhile (\<lambda>y. y < b) xs = bs" by blast
  obtain as c where as: "ys = as @ [c]" using assms(5) ys by (cases ys rule: rev_cases) auto
  have "xs = ys @ bs" using ys bs takeWhile_dropWhile_id [of "\<lambda>y. y < b" xs] by simp
  then have xs: "xs = as @ c # bs" using as by simp
  with assms(1) have "lseg m h ((as @ [c]) @ bs) 0" by simp
  then obtain r where r: "lseg m h (as @ [c]) r" "lseg m r bs 0" by (simp only: lseg_append) blast
  then have "r = hd (bs @ [0])" by (cases bs) auto
  moreover have "chain (m(c := b, b := r)) h (as @ c # b # bs)"
    by (rule lseg_splice [OF r]) (use assms xs ascending_distinct [OF assms(2)] in auto)
  moreover have "insort b xs = as @ c # b # bs"
  proof -
    have "sorted xs" using assms(2) strict_sorted_imp_sorted by blast
    then show ?thesis using insort_split [of xs b] ys bs as by simp
  qed
  ultimately show ?thesis using ys bs as by simp
qed

lemma ascending_insort: "ascending xs \<Longrightarrow> b \<notin> set xs \<Longrightarrow> ascending (insort b xs)"
  for b :: addr
  by (simp add: strict_sorted_iff sorted_insort distinct_insort)

lemma Deallocate_chain:
  assumes c: "chain m (m_nextFree ld) fs" "ascending fs" and b: "b \<noteq> 0" "b \<notin> set fs"
    and run: "ObjectInRange ld b" "m_buffersUsed ld \<noteq> 0"
  shows "\<exists>m' h. Deallocate b m ld =
             Inr (m', ld\<lparr>m_nextFree := h, m_buffersUsed := m_buffersUsed ld - 1\<rparr>) \<and>
           chain m' h (insort b fs) \<and> (\<forall>y. y \<notin> insert b (set fs) \<longrightarrow> m' y = m y)"
proof (cases "fs = []")
  case True
  with c b run show ?thesis by (auto simp: Deallocate_def)
next
  case False
  then have h: "m_nextFree ld \<noteq> 0" using c(1) by auto
  let ?as = "takeWhile (\<lambda>y. y < b) fs" and ?r = "hd (dropWhile (\<lambda>y. y < b) fs @ [0])"
  note walk = free_walk_splits [OF c(1) False, of b]
  show ?thesis
  proof (cases "?as = []")
    case True
    then have lt: "b < hd fs" "dropWhile (\<lambda>y. y < b) fs = fs" using False b(2)
      by (cases fs; auto split: if_splits)+
    have "insort b fs = b # fs" using lt by (cases fs) auto
    moreover have "?r = m_nextFree ld" using lt(2) False c(1) by (cases fs) auto
    moreover have "Deallocate b m ld = Inr (m(b := m_nextFree ld),
        ld\<lparr>m_nextFree := b, m_buffersUsed := m_buffersUsed ld - 1\<rparr>)"
      using walk True run h b(1) calculation(2) by (simp add: Deallocate_def)
    moreover have "chain (m(b := m_nextFree ld)) b (b # fs)" using c(1) b by simp
    moreover have "\<forall>y. y \<notin> insert b (set fs) \<longrightarrow> (m(b := m_nextFree ld)) y = m y" by simp
    ultimately show ?thesis by (simp only:) blast
  next
    case as: False
    then have "last (0 # ?as) = last ?as" by simp
    moreover have mem: "last ?as \<in> set fs" using last_in_set [OF as] set_takeWhileD by metis
    moreover have "last ?as \<noteq> 0" using mem lseg_nonzero [OF c(1)] by metis
    ultimately have run': "Deallocate b m ld = Inr (m(last ?as := b, b := ?r),
        ld\<lparr>m_buffersUsed := m_buffersUsed ld - 1\<rparr>)"
      using walk run h b(1) by (simp add: Deallocate_def)
    have frame: "\<forall>y. y \<notin> insert b (set fs) \<longrightarrow> (m(last ?as := b, b := ?r)) y = m y"
      using mem by auto
    have "ld\<lparr>m_buffersUsed := m_buffersUsed ld - 1\<rparr>
        = ld\<lparr>m_nextFree := m_nextFree ld, m_buffersUsed := m_buffersUsed ld - 1\<rparr>" by simp
    with run' have "Deallocate b m ld = Inr (m(last ?as := b, b := ?r),
        ld\<lparr>m_nextFree := m_nextFree ld, m_buffersUsed := m_buffersUsed ld - 1\<rparr>)" by (simp only:)
    then show ?thesis using frame chain_insort [OF c b as] by blast
  qed
qed

lemma slab_allocated_used:
  assumes "slab_ok m ld fs" "b \<in> set (slab_slots ld)" "b \<notin> set fs"
  shows "0 < unat (m_buffersUsed ld)"
proof -
  have "card (set fs \<inter> set (slab_slots ld)) < card (set (slab_slots ld))"
    using assms(2,3) by (intro psubset_card_mono) auto
  also have "\<dots> = unat (m_totalBuffers ld)"
    using slab_slots_facts [of ld] assms(1) ascending_distinct distinct_card
    by (metis slab_ok_def)
  finally show ?thesis using assms(1) by (simp add: slab_ok_def)
qed

lemma Deallocate_ok:
  assumes ok: "slab_ok m ld fs" and b: "b \<in> set (slab_slots ld)" "b \<notin> set fs"
  shows "\<exists>m' h. Deallocate b m ld =
             Inr (m', ld\<lparr>m_nextFree := h, m_buffersUsed := m_buffersUsed ld - 1\<rparr>) \<and>
           slab_ok m' (ld\<lparr>m_nextFree := h, m_buffersUsed := m_buffersUsed ld - 1\<rparr>) (insort b fs) \<and>
           (\<forall>y. y \<notin> insert b (set fs) \<longrightarrow> m' y = m y)"
proof -
  from ok have g: "slab_geometry ld" and c: "chain m (m_nextFree ld) fs" "ascending fs"
    and sub: "set fs \<subseteq> set (slab_cells ld)"
    and crd: "card (set fs \<inter> set (slab_slots ld)) + unat (m_buffersUsed ld) = unat (m_totalBuffers ld)"
    by (simp_all add: slab_ok_def)
  have bf: "b \<noteq> 0" "ObjectInRange ld b" using slab_slots_facts(3) [OF g b(1)] by simp_all
  note used = slab_allocated_used [OF ok b]
  then have nz: "m_buffersUsed ld \<noteq> 0" by auto
  from Deallocate_chain [OF c bf(1) b(2) bf(2) nz] obtain m' h where m':
      "Deallocate b m ld = Inr (m', ld\<lparr>m_nextFree := h, m_buffersUsed := m_buffersUsed ld - 1\<rparr>)"
      "chain m' h (insort b fs)" "\<forall>y. y \<notin> insert b (set fs) \<longrightarrow> m' y = m y"
    by blast
  have "set (insort b fs) \<inter> set (slab_slots ld) = insert b (set fs \<inter> set (slab_slots ld))"
    using b by (auto simp: set_insort_key)
  then have crd': "card (set (insort b fs) \<inter> set (slab_slots ld)) = Suc (card (set fs \<inter> set (slab_slots ld)))"
    using b(2) by simp
  have "unat (m_buffersUsed ld - 1) = unat (m_buffersUsed ld) - 1" by (rule unat_minus_one [OF nz])
  with crd crd' used have "card (set (insort b fs) \<inter> set (slab_slots ld)) + unat (m_buffersUsed ld - 1)
      = unat (m_totalBuffers ld)" by linarith
  then have "slab_ok m' (ld\<lparr>m_nextFree := h, m_buffersUsed := m_buffersUsed ld - 1\<rparr>) (insort b fs)"
    using m'(2) g sub b c ascending_insort subsetD [OF slab_cells_subset(2) b(1)] by (simp add: slab_ok_def set_insort_key)
  with m' show ?thesis by blast
qed

section \<open>A slab is a page source\<close>

definition slab_inv :: "heap \<times> ListDescriptor \<Rightarrow> bool" where
  "slab_inv s \<longleftrightarrow> (\<exists>fs. slab_ok (fst s) (snd s) fs)"

definition slab_alloc :: "heap \<times> ListDescriptor \<Rightarrow> ((heap \<times> ListDescriptor) \<times> addr) result" where
  "slab_alloc s = rbind (Allocate (fst s) (snd s)) (\<lambda>(ld, p). Inr ((fst s, ld), p))"

definition slab_dealloc :: "addr \<Rightarrow> heap \<times> ListDescriptor \<Rightarrow> (heap \<times> ListDescriptor) result" where
  "slab_dealloc p s = Deallocate p (fst s) (snd s)"

interpretation slab: page_source slab_alloc slab_dealloc slab_inv "\<lambda>s. slab_free (fst s) (snd s)"
  "\<lambda>s p. p \<in> set (slab_slots (snd s))"
proof unfold_locales
  fix s :: "heap \<times> ListDescriptor" assume "slab_inv s"
  then obtain fs where ok: "slab_ok (fst s) (snd s) fs" by (auto simp: slab_inv_def)
  let ?ld = "snd s"
  have g: "slab_geometry ?ld" using ok by (simp add: slab_ok_def)
  note free = slab_free_eq [OF ok]
  show "finite (slab_free (fst s) ?ld)" by (simp add: free)
  show "0 \<notin> slab_free (fst s) ?ld" using slab_slots_facts(3) [OF g, of 0] free by auto
  show "slab_alloc s = Inr (s, 0)" if "slab_free (fst s) ?ld = {}"
  proof -
    have "unat (m_buffersUsed ?ld) = unat (m_totalBuffers ?ld)"
      using that free ok by (simp add: slab_ok_def)
    then have "m_buffersUsed ?ld = m_totalBuffers ?ld" by (simp add: word_unat_eq_iff)
    then show ?thesis by (simp add: slab_alloc_def Allocate_def)
  qed
  show "\<exists>s' p. slab_alloc s = Inr (s', p) \<and> p \<in> slab_free (fst s) ?ld \<and> slab_inv s' \<and>
          slab_free (fst s') (snd s') = slab_free (fst s) ?ld - {p}"
    if ne: "slab_free (fst s) ?ld \<noteq> {}"
  proof -
    have "card (slab_free (fst s) ?ld) \<noteq> 0" using ne free by simp
    then have "m_buffersUsed ?ld \<noteq> m_totalBuffers ?ld" using free ok by (auto simp: slab_ok_def)
    with Allocate_ok [OF ok] obtain ld' where ld': "Allocate (fst s) ?ld = Inr (ld', hd fs)"
      "hd fs \<in> set (slab_slots ?ld)" "slab_free (fst s) ld' = slab_free (fst s) ?ld - {hd fs}"
      "slab_ok (fst s) ld' (if m_buffersUsed ?ld + 1 = m_totalBuffers ?ld then [] else tl fs)"
      by auto
    moreover have "hd fs \<in> set fs" using ne free by (cases fs) auto
    moreover have "slab_inv (fst s, ld')" using ld'(4) unfolding slab_inv_def fst_conv snd_conv by blast
    ultimately show ?thesis using free by (auto simp: slab_alloc_def)
  qed
  fix p assume p: "p \<noteq> 0" "p \<notin> slab_free (fst s) ?ld" "p \<in> set (slab_slots ?ld)"
  then have "p \<notin> set fs" using free by simp
  from Deallocate_ok [OF ok p(3) this] obtain m' h where d:
      "Deallocate p (fst s) ?ld = Inr (m', ?ld\<lparr>m_nextFree := h, m_buffersUsed := m_buffersUsed ?ld - 1\<rparr>)"
      "slab_ok m' (?ld\<lparr>m_nextFree := h, m_buffersUsed := m_buffersUsed ?ld - 1\<rparr>) (insort p fs)"
    by blast
  then show "\<exists>s'. slab_dealloc p s = Inr s' \<and> slab_inv s' \<and>
      slab_free (fst s') (snd s') = insert p (slab_free (fst s) ?ld)"
    using slab_free_eq [OF d(2)] free p(3)
    by (auto simp: slab_dealloc_def slab_inv_def set_insort_key)
qed

section \<open>The circular list of slabs\<close>

type_synonym lds = "addr \<Rightarrow> ListDescriptor"

definition set_next :: "addr \<Rightarrow> addr \<Rightarrow> lds \<Rightarrow> lds" where
  "set_next p v d = d(p := (d p)\<lparr>m_nextList := v\<rparr>)"

definition set_prev :: "addr \<Rightarrow> addr \<Rightarrow> lds \<Rightarrow> lds" where
  "set_prev p v d = d(p := (d p)\<lparr>m_prevList := v\<rparr>)"

definition AddList :: "addr \<Rightarrow> addr \<Rightarrow> lds \<Rightarrow> lds result" where
  "AddList this src d =
     rbind (guard_ptr src) (\<lambda>_.
       if BufferSize (d src) \<noteq> m_bufferSize (d this) then Inr d
       else if this = src then Inr d
       else if this = m_prevList (d this) \<and> this = m_nextList (d this)
       then (let d = set_next this src d; d = set_prev this src d; d = set_prev src this d
             in Inr (set_next src this d))
       else (let d = set_next src this d; d = set_prev src (m_prevList (d this)) d
             in rbind (guard_ptr (m_prevList (d this))) (\<lambda>_.
                  let d = set_next (m_prevList (d this)) src d
                  in Inr (set_prev this src d))))"

definition unlink_entry :: "addr \<Rightarrow> lds \<Rightarrow> lds result" where
  "unlink_entry entry d =
     rbind (guard_ptr entry) (\<lambda>_. rbind (guard_ptr (m_prevList (d entry))) (\<lambda>_.
       let d = set_next (m_prevList (d entry)) (m_nextList (d entry)) d
       in rbind (guard_ptr (m_nextList (d entry))) (\<lambda>_.
            Inr (set_prev (m_nextList (d entry)) (m_prevList (d entry)) d))))"

definition Remove :: "addr \<Rightarrow> addr \<Rightarrow> lds \<Rightarrow> lds result" where
  "Remove this entry d =
     (if this = entry then Inr d
      else if m_prevList (d this) = entry \<and> m_nextList (d this) = entry
      then Inr (set_prev this this (set_next this this d))
      else unlink_entry entry d)"

definition Extract_ld :: "addr \<Rightarrow> addr \<Rightarrow> lds \<Rightarrow> (lds \<times> addr) result" where
  "Extract_ld this entry d =
     (if this = entry then Inr (d, 0)
      else if m_prevList (d this) = entry \<and> m_nextList (d this) = entry
      then Inr (set_prev this this (set_next this this d), entry)
      else rbind (unlink_entry entry d) (\<lambda>d'. Inr (d', entry)))"

definition ExtractSelf :: "addr \<Rightarrow> lds \<Rightarrow> (lds \<times> addr) result" where
  "ExtractSelf this d =
     (if m_nextList (d this) = this \<and> m_prevList (d this) = this then Inr (d, this)
      else rbind
        (if m_nextList (d this) = m_prevList (d this)
         then (let newHead = m_nextList (d this)
               in rbind (guard_ptr newHead) (\<lambda>_. Inr (set_prev newHead newHead (set_next newHead newHead d))))
         else (let newHead = m_nextList (d this)
               in rbind (guard_ptr (m_prevList (d this))) (\<lambda>_.
                    let d = set_next (m_prevList (d this)) newHead d
                    in rbind (guard_ptr newHead) (\<lambda>_.
                         Inr (set_prev newHead (m_prevList (d this)) d)))))
        (\<lambda>d. Inr (set_prev this this (set_next this this d), this)))"

text \<open>
  Move assignment from the descriptor at \<open>src\<close>: the fields are copied and the neighbours of the
  source point at the copy; \<open>src\<close> is read again after each write, since it may be its own neighbour.
\<close>

definition move_assign :: "addr \<Rightarrow> addr \<Rightarrow> lds \<Rightarrow> lds" where
  "move_assign this src d =
     (let d = d(this := (d this)\<lparr>m_baseAddress := m_baseAddress (d src), m_nextFree := m_nextFree (d src),
                  m_bufferSize := m_bufferSize (d src), m_totalBuffers := m_totalBuffers (d src),
                  m_buffersUsed := m_buffersUsed (d src), m_pages := m_pages (d src)\<rparr>);
          d = set_next this (m_nextList (d src)) d;
          d = (if m_nextList (d this) \<noteq> 0 then set_prev (m_nextList (d src)) this d else d);
          d = set_prev this (m_prevList (d src)) d
      in if m_prevList (d this) \<noteq> 0 then set_next (m_prevList (d src)) this d else d)"

abbreviation ld_ring :: "lds \<Rightarrow> addr list \<Rightarrow> bool" where
  "ld_ring \<equiv> ring (\<lambda>d p. m_nextList (d p)) (\<lambda>d p. m_prevList (d p))"

interpretation ldl: ring_links "\<lambda>d p. m_nextList (d p)" "\<lambda>d p. m_prevList (d p)" set_next set_prev
  by unfold_locales (simp_all add: set_next_def set_prev_def)

lemma AddList_ring_add:
  "src \<noteq> 0 \<Longrightarrow> m_bufferSize (d src) = m_bufferSize (d this) \<Longrightarrow>
   AddList this src d
     = ring_add (\<lambda>d p. m_nextList (d p)) (\<lambda>d p. m_prevList (d p)) set_next set_prev this src d"
  by (simp add: AddList_def ring_add_def BufferSize_def Let_def ldl.link_laws)

lemma Remove_ring_remove:
  "Remove this e d = ring_remove (\<lambda>d p. m_nextList (d p)) (\<lambda>d p. m_prevList (d p)) set_next set_prev this e d"
  by (simp add: Remove_def ring_remove_def unlink_entry_def ring_unlink_def Let_def)

lemma Extract_ld_eq:
  "this \<noteq> e \<Longrightarrow> Extract_ld this e d = rbind (Remove this e d) (\<lambda>d'. Inr (d', e))"
  by (simp add: Extract_ld_def Remove_def)

lemma ExtractSelf_ring:
  "ExtractSelf this d
     = rbind (ring_extract_self (\<lambda>d p. m_nextList (d p)) (\<lambda>d p. m_prevList (d p)) set_next set_prev this d)
         (\<lambda>d'. Inr (d', this))"
  by (auto simp: ExtractSelf_def ring_extract_self_def Let_def guard_ptr_def)

lemma set_links_payload:
  "m_bufferSize ((set_next p v d) q) = m_bufferSize (d q)" "m_bufferSize ((set_prev p v d) q) = m_bufferSize (d q)"
  by (simp_all add: set_next_def set_prev_def)

section \<open>Properties\<close>

text \<open>A one-page slab of 768-byte buffers: five fit, and a sixth cell is linked behind them.\<close>

definition slab_example :: ListDescriptor where
  "slab_example = new_ListDescriptor 0x9000 0x55000 768 1"

lemma slab_example_geometry: "slab_geometry slab_example"
  by (simp add: slab_example_def new_ListDescriptor_def slab_geometry_def slab_bytes_def)

text \<open>
  C8. Take a slab of at least one page at a non-null address, such that the slab and 64 KiB behind it do not wrap
  around the address space, the buffer size rounded up to 8 (\<open>sz\<close>) fits into the slab, and the number of buffers
  fits 16 bits.  Then constructing the descriptor and linking it gives an empty slab at \<open>baseAddr\<close>: \<open>TotalBuffers\<close> is
  the number \<open>n\<close> of buffers of size \<open>sz\<close> that fit, the free chain is \<open>baseAddr\<close>, \<open>baseAddr + sz\<close>, \<open>baseAddr + 2 * sz\<close>,
  \<dots> with the \<open>n\<close> buffers, each of which ends inside the slab, and one more cell exactly when \<open>sz\<close> does not divide
  the slab's bytes; no other word of memory is written.
\<close>

theorem SetupLinkage_links_slab:
  fixes m :: heap and bufferSize :: u16 and pages :: u8
  defines "sz \<equiv> (if bufferSize < 8 then 8 else bufferSize)"
    and "bytes \<equiv> unat pages * 0x1000"
  defines "n \<equiv> bytes div unat sz"
  assumes "baseAddr \<noteq> 0" "unat baseAddr + bytes + 0x10000 < 2 ^ 64" "0 < pages"
    and "unat sz \<le> bytes" "n < 0x10000"
  shows "\<exists>m' ld. SetupLinkage m (new_ListDescriptor this baseAddr bufferSize pages) = Inr (m', ld) \<and>
           Base ld = baseAddr \<and> BufferSize ld = sz \<and> Empty_ld ld \<and> unat (TotalBuffers ld) = n \<and>
           chain m' (NextFreeBuffer ld) (slots_from baseAddr (ucast sz) (if unat sz dvd bytes then n else Suc n)) \<and>
           ascending (slots_from baseAddr (ucast sz) (if unat sz dvd bytes then n else Suc n)) \<and>
           (\<forall>x \<in> set (slots_from baseAddr (ucast sz) n). ObjectInRange ld x \<and>
              unat x + unat sz \<le> unat baseAddr + bytes) \<and>
           (\<forall>x. x \<notin> set (slots_from baseAddr (ucast sz) (if unat sz dvd bytes then n else Suc n)) \<longrightarrow> m' x = m x)"
proof -
  let ?ld = "new_ListDescriptor this baseAddr bufferSize pages"
  have sz: "8 \<le> unat sz" by (auto simp: sz_def word_less_nat_alt)
  have fields: "m_baseAddress ?ld = baseAddr" "m_bufferSize ?ld = sz" "m_totalBuffers ?ld = of_nat n"
    "m_pages ?ld = pages" "m_buffersUsed ?ld = 0"
    by (simp_all add: new_ListDescriptor_def sz_def n_def bytes_def Let_def)
  have tot: "unat (of_nat n :: u16) = n" using assms(8) by (simp add: unat_of_nat)
  have "0 < n" using assms(7) sz by (simp add: n_def div_greater_zero_iff)
  moreover have "0 < unat baseAddr" using assms(4) by (simp add: unat_gt_0)
  ultimately have g: "slab_geometry ?ld"
    using assms(5) sz fields tot by (simp add: slab_geometry_def slab_bytes_def n_def bytes_def)
  have slots: "slab_slots ?ld = slots_from baseAddr (ucast sz) n" using fields tot by (simp add: slab_slots_def)
  have cells: "slab_cells ?ld = slots_from baseAddr (ucast sz) (if unat sz dvd bytes then n else Suc n)"
    using fields tot slots
    by (simp add: slab_cells_def slab_tail_def slab_bytes_def bytes_def slots_from_Suc del: slots_from.simps)
  from SetupLinkage_ok [OF g fields(5), of m] obtain m' ld where r: "SetupLinkage m ?ld = Inr (m', ld)"
      "ld = ?ld\<lparr>m_nextFree := m_baseAddress ?ld\<rparr>" "slab_ok m' ld (slab_cells ?ld)"
      "\<forall>x. x \<notin> set (slab_cells ?ld) \<longrightarrow> m' x = m x"
    by blast
  have same: "slab_slots ld = slab_slots ?ld" using r(2) by simp
  have inside: "unat x + unat sz \<le> unat baseAddr + bytes" if "x \<in> set (slab_slots ?ld)" for x
  proof -
    have "n * unat sz \<le> bytes" by (simp add: n_def)
    then show ?thesis
      using slots_bounds [of x baseAddr "ucast sz" n] that slots assms(5) by simp
  qed
  have acts: "Base ld = baseAddr" "BufferSize ld = sz" "Empty_ld ld" "unat (TotalBuffers ld) = n"
    using r(2) fields tot by (simp_all add: Base_def BufferSize_def Empty_ld_def TotalBuffers_def)
  have "\<forall>x \<in> set (slab_slots ?ld). ObjectInRange ld x"
    using slab_slots_facts(3) r(3) same by (simp add: slab_ok_def)
  with acts inside r show ?thesis
    unfolding cells [symmetric] slots [symmetric]
    by (intro exI [of _ m'] exI [of _ ld]) (simp add: slab_ok_def NextFreeBuffer_def)
qed

text \<open>A request for 5 bytes is a slab of 8-byte buffers; 768 bytes leave a rest of 256 and one more cell.\<close>

theorem SetupLinkage_links_slab_witness:
  "(\<exists>m' ld. SetupLinkage (\<lambda>_. 0) (new_ListDescriptor 0x9000 0x55000 5 1) = Inr (m', ld) \<and> BufferSize ld = 8 \<and>
      chain m' (NextFreeBuffer ld) (slots_from 0x55000 8 512)) \<and>
   (\<exists>m' ld. SetupLinkage (\<lambda>_. 0) (new_ListDescriptor 0x9000 0x55000 768 1) = Inr (m', ld) \<and>
      chain m' (NextFreeBuffer ld) [0x55000, 0x55300, 0x55600, 0x55900, 0x55C00, 0x55F00] \<and>
      unat (TotalBuffers ld) = 5)"
proof -
  have no: "\<not> 768 dvd (4096 :: nat)" by (simp add: dvd_eq_mod_eq_0)
  have "slots_from 0x55000 768 (Suc (Suc (Suc (Suc (Suc (Suc 0)))))) =
      [0x55000, 0x55300, 0x55600, 0x55900, 0x55C00, 0x55F00]"
    by simp
  moreover have "Suc 5 = Suc (Suc (Suc (Suc (Suc (Suc 0)))))" by simp
  ultimately have six: "slots_from 0x55000 768 (Suc 5) = [0x55000, 0x55300, 0x55600, 0x55900, 0x55C00, 0x55F00]"
    by metis
  have "\<exists>m' ld. SetupLinkage (\<lambda>_. 0) (new_ListDescriptor 0x9000 0x55000 5 1) = Inr (m', ld) \<and> BufferSize ld = 8 \<and>
      chain m' (NextFreeBuffer ld) (slots_from 0x55000 8 512)"
  proof -
    have sz: "(if (5 :: u16) < 8 then 8 else 5) = 8" by simp
    have n: "unat (1 :: u8) * 0x1000 = 4096" "unat (8 :: u16) = 8" "(4096 :: nat) div 8 = 512" by simp_all
    have yes: "8 dvd (4096 :: nat)" by (simp add: dvd_eq_mod_eq_0)
    note facts = SetupLinkage_links_slab [of "0x55000" 1 5 "\<lambda>_. 0" "0x9000", unfolded sz n if_P [OF yes]]
    have small: "ucast (8 :: u16) = (8 :: u64)" by simp
    have "(0x55000 :: u64) \<noteq> 0" "unat (0x55000 :: u64) + 4096 + 0x10000 < 2 ^ 64" "(0 :: u8) < 1"
      "(8 :: nat) \<le> 4096" "(512 :: nat) < 0x10000"
      by simp_all
    from facts [OF this, unfolded small] show ?thesis by (elim exE conjE) (intro exI conjI)
  qed
  moreover have "\<exists>m' ld. SetupLinkage (\<lambda>_. 0) (new_ListDescriptor 0x9000 0x55000 768 1) = Inr (m', ld) \<and>
      chain m' (NextFreeBuffer ld) (slots_from 0x55000 768 (Suc 5)) \<and> unat (TotalBuffers ld) = 5"
  proof -
    have sz: "(if (768 :: u16) < 8 then 8 else 768) = 768" by simp
    have "unat (1 :: u8) * 0x1000 = 4096" "unat (768 :: u16) = 768" "(4096 :: nat) div 768 = 5" by simp_all
    note facts = SetupLinkage_links_slab [of "0x55000" 1 768 "\<lambda>_. 0" "0x9000", unfolded sz this if_not_P [OF no]]
    have big: "ucast (768 :: u16) = (768 :: u64)" by simp
    obtain m' ld where "SetupLinkage (\<lambda>_. 0) (new_ListDescriptor 0x9000 0x55000 768 1) = Inr (m', ld)"
      "chain m' (NextFreeBuffer ld) (slots_from 0x55000 (ucast (768 :: u16)) (Suc 5))" "unat (TotalBuffers ld) = 5"
    proof -
      have "(0x55000 :: u64) \<noteq> 0" "unat (0x55000 :: u64) + 4096 + 0x10000 < 2 ^ 64" "(0 :: u8) < 1"
        "(768 :: nat) \<le> 4096" "(5 :: nat) < 0x10000"
        by simp_all
      from facts [OF this] that show ?thesis by (elim exE conjE)
    qed
    then show ?thesis unfolding big by blast
  qed
  ultimately show ?thesis unfolding six by blast
qed

text \<open>
  C9. A slab with \<open>k\<close> free buffers serves any \<open>n \<le> k\<close> allocations with \<open>n\<close> different buffers, every one
  of them free before and inside the slab, and these are exactly the buffers that leave its free
  set; the misfit cell behind the last buffer is never handed out.
\<close>

theorem slab_serves_distinct_buffers:
  assumes "slab_ok m ld fs" "n \<le> card (slab_free m ld)"
  shows "\<exists>ld' ps. take_pages slab_alloc n (m, ld) = Inr ((m, ld'), ps) \<and> length ps = n \<and> distinct ps \<and>
           set ps \<subseteq> set (slab_slots ld) \<inter> slab_free m ld \<and>
           slab_free m ld' = slab_free m ld - set ps"
proof -
  have "slab_inv (m, ld)" using assms(1) by (auto simp: slab_inv_def)
  with assms(2) obtain s' ps where s': "take_pages slab_alloc n (m, ld) = Inr (s', ps)" "length ps = n"
      "distinct ps" "set ps \<subseteq> slab_free m ld" "slab_free (fst s') (snd s') = slab_free m ld - set ps"
    using slab.take_pages_distinct [of "(m, ld)" n] by auto
  have "fst s' = fst s" if "take_pages slab_alloc n s = Inr (s', ps)" for s s' ps and n
    using that
    by (induction n arbitrary: s s' ps) (auto simp: rbind_eq_Inr slab_alloc_def split: prod.splits)
  from this [OF s'(1)] have "s' = (m, snd s')" by (cases s') simp
  moreover have "slab_free m ld \<subseteq> set (slab_slots ld)" using slab_free_eq [OF assms(1)] by simp
  ultimately show ?thesis using s' by (metis (no_types, lifting) fst_conv snd_conv le_inf_iff subset_trans)
qed

lemma slab_example_linked:
  "\<exists>m ld. SetupLinkage (\<lambda>_. 0) slab_example = Inr (m, ld) \<and> slab_ok m ld (slab_cells slab_example) \<and>
     card (slab_free m ld) = 5"
proof -
  have "m_buffersUsed slab_example = 0" by (simp add: slab_example_def new_ListDescriptor_def)
  from SetupLinkage_ok [OF slab_example_geometry this, of "\<lambda>_. 0"] obtain m ld where
      r: "SetupLinkage (\<lambda>_. 0) slab_example = Inr (m, ld)" "slab_ok m ld (slab_cells slab_example)"
      "ld = slab_example\<lparr>m_nextFree := m_baseAddress slab_example\<rparr>"
    by blast
  have "slab_slots ld = slab_slots slab_example" using r(3) by simp
  then have "set (slab_cells slab_example) \<inter> set (slab_slots ld) = set (slab_slots slab_example)"
    by (auto simp: slab_cells_def)
  moreover have "card (set (slab_slots slab_example)) = 5"
    by (simp add: slab_slots_def slab_example_def new_ListDescriptor_def)
  ultimately show ?thesis using r slab_free_eq [OF r(2)] by auto
qed

theorem slab_serves_distinct_buffers_witness:
  "\<exists>m ld ld' ps. take_pages slab_alloc 3 (m, ld) = Inr ((m, ld'), ps) \<and> length ps = 3 \<and> distinct ps"
  using slab_example_linked slab_serves_distinct_buffers [where n = 3] by fastforce

text \<open>
  C10. Returning an allocated buffer puts it at its place in the ascending free chain, lowers
  \<open>BuffersUsed\<close> by one, keeps the slab well formed and writes only words of free buffers.
\<close>

theorem Deallocate_sorted_insert:
  assumes "slab_ok m ld fs" "b \<in> set (slab_slots ld)" "b \<notin> set fs"
  shows "\<exists>m' ld'. Deallocate b m ld = Inr (m', ld') \<and> slab_ok m' ld' (insort b fs) \<and>
           BuffersUsed ld' = BuffersUsed ld - 1 \<and> slab_free m' ld' = insert b (slab_free m ld) \<and>
           (\<forall>y. y \<notin> insert b (set fs) \<longrightarrow> m' y = m y)"
proof -
  from Deallocate_ok [OF assms] obtain m' h where d:
      "Deallocate b m ld = Inr (m', ld\<lparr>m_nextFree := h, m_buffersUsed := m_buffersUsed ld - 1\<rparr>)"
      "slab_ok m' (ld\<lparr>m_nextFree := h, m_buffersUsed := m_buffersUsed ld - 1\<rparr>) (insort b fs)"
      "\<forall>y. y \<notin> insert b (set fs) \<longrightarrow> m' y = m y"
    by blast
  with slab_free_eq [OF d(2)] slab_free_eq [OF assms(1)] assms(2) show ?thesis
    by (auto simp: BuffersUsed_def set_insort_key)
qed

theorem Deallocate_sorted_insert_witness:
  "\<exists>m ld p ld1 m' ld' fs. Allocate m ld = Inr (ld1, p) \<and> Deallocate p m ld1 = Inr (m', ld') \<and>
     slab_ok m' ld' (insort p fs)"
proof -
  obtain m ld where ok: "slab_ok m ld (slab_cells slab_example)" "card (slab_free m ld) = 5"
    using slab_example_linked by blast
  then have "m_buffersUsed ld \<noteq> m_totalBuffers ld"
    using slab_free_eq [OF ok(1)] by (auto simp: slab_ok_def)
  with Allocate_ok [OF ok(1)] obtain ld1 p fs where ld1: "Allocate m ld = Inr (ld1, p)"
      "p \<in> set (slab_slots ld)" "slab_ok m ld1 fs" "slab_free m ld1 = slab_free m ld - {p}"
      "ld1 = ld\<lparr>m_nextFree := m_nextFree ld1, m_buffersUsed := m_buffersUsed ld + 1\<rparr>"
    by auto
  have slots: "slab_slots ld1 = slab_slots ld" by (subst ld1(5)) simp
  have "p \<notin> set fs" using slab_free_eq [OF ld1(3)] ld1(2,4) slots by auto
  with Deallocate_sorted_insert [OF ld1(3), of p] ld1 slots show ?thesis by metis
qed

text \<open>
  Adding a slab of the same buffer size to a circular list of slabs inserts it before the head,
  which is the end of the list; a slab of another size is ignored.
\<close>

theorem AddList_appends:
  assumes "ld_ring d (x # xs)" "src \<noteq> 0" "src \<notin> set (x # xs)"
  shows "\<exists>d'. AddList x src d = Inr d' \<and>
           ld_ring d' (if m_bufferSize (d src) = m_bufferSize (d x) then x # xs @ [src] else x # xs)"
proof (cases "m_bufferSize (d src) = m_bufferSize (d x)")
  case True
  with assms ldl.ring_add_appends [of d x xs src] show ?thesis by (simp add: AddList_ring_add)
next
  case False
  with assms show ?thesis by (simp add: AddList_def BufferSize_def)
qed

theorem AddList_appends_witness:
  "\<exists>d'. AddList 0x9000 0xa000 (\<lambda>p. new_ListDescriptor p 0x55000 64 1) = Inr d' \<and>
     ld_ring d' [0x9000, 0xa000]"
  using AddList_appends [of "\<lambda>p. new_ListDescriptor p 0x55000 64 1" "0x9000" "[]" "0xa000"]
  by (simp add: new_ListDescriptor_def)

text \<open>
  Taking the head of a list of two or more slabs out of its list leaves a ring of the others and
  a ring of the head alone.
\<close>

theorem ExtractSelf_splits_ring:
  assumes "ld_ring d (x # y # ys)"
  shows "\<exists>d'. ExtractSelf x d = Inr (d', x) \<and> ld_ring d' (y # ys) \<and> ld_ring d' [x]"
  using ldl.extract_self_ring [OF assms] by (auto simp: ExtractSelf_ring)

theorem ExtractSelf_splits_ring_witness:
  "\<exists>d d'. ExtractSelf 0x9000 d = Inr (d', 0x9000) \<and> ld_ring d' [0xa000] \<and> ld_ring d' [0x9000]"
proof -
  have "\<exists>d'. AddList 0x9000 0xa000 (\<lambda>p. new_ListDescriptor p 0x55000 64 1) = Inr d' \<and>
      ld_ring d' [0x9000, 0xa000]"
    using ldl.ring_add_appends [of "\<lambda>p. new_ListDescriptor p 0x55000 64 1" "0x9000" "[]" "0xa000"]
    by (simp add: AddList_ring_add new_ListDescriptor_def)
  then obtain d where "ld_ring d [0x9000, 0xa000]" by blast
  from ExtractSelf_splits_ring [OF this] show ?thesis by blast
qed

text \<open>
  The number of buffers is computed in a wider type and stored in 16 bits: a slab of 128 pages of
  8-byte buffers records 0 of its 65536 buffers, is full from the start and never allocates.
\<close>

theorem new_ListDescriptor_count_truncated:
  "Full (new_ListDescriptor this b 8 128) \<and>
   Allocate m (new_ListDescriptor this b 8 128) = Inr (new_ListDescriptor this b 8 128, 0)"
  by (simp add: Full_def Allocate_def new_ListDescriptor_def)

end
