(* ===== verification/Slab_Buffer.thy ===== *)
theory Slab_Buffer
  imports Slab_List
begin

text \<open>
  The buffers of the slab heap (\<open>kernel/src/kheap/slab/buffer\<close>): for one object size, three circular
  lists of slabs (free, partial, full), and a circular list of the buffers themselves.

  The store \<open>slab_store\<close> holds the words of the slabs and, by address, the descriptors and buffers.  The
  C++ keeps descriptors inside the buffers of 64-byte slabs; here the three kinds of object
  are separate parts of the store, so an overlap between a descriptor and a free buffer is outside
  the model.
\<close>

section \<open>State\<close>

record Buffer =
  b_freeLists :: addr
  b_fullLists :: addr
  b_partialLists :: addr
  b_nextBuffer :: addr
  b_prevBuffer :: addr
  b_bufferSize :: u16
  b_options :: u8
  b_opCount :: u8

record slab_store =
  ss_mem :: heap
  ss_lds :: lds
  ss_bufs :: "addr \<Rightarrow> Buffer"

text \<open>The default constructor is the second one with size 0; the one that takes options has an empty body.\<close>

definition new_Buffer :: "addr \<Rightarrow> u16 \<Rightarrow> Buffer" where
  "new_Buffer this bufferSize =
     \<lparr>b_freeLists = 0, b_fullLists = 0, b_partialLists = 0, b_nextBuffer = this, b_prevBuffer = this,
      b_bufferSize = bufferSize, b_options = 0, b_opCount = 0\<rparr>"

definition new_Buffer_options :: "Buffer \<Rightarrow> u16 \<Rightarrow> u8 \<Rightarrow> Buffer" where
  "new_Buffer_options uninitialised bufferSize options = uninitialised"

definition SetBufferSize :: "u16 \<Rightarrow> Buffer \<Rightarrow> Buffer" where
  "SetBufferSize sz b = b\<lparr>b_bufferSize := sz\<rparr>"

definition upd_buf :: "addr \<Rightarrow> (Buffer \<Rightarrow> Buffer) \<Rightarrow> slab_store \<Rightarrow> slab_store" where
  "upd_buf b f s = s\<lparr>ss_bufs := (ss_bufs s)(b := f (ss_bufs s b))\<rparr>"

text \<open>The three lists, and their heads.\<close>

datatype list_kind = FreeLists | PartialLists | FullLists

fun list_head :: "list_kind \<Rightarrow> Buffer \<Rightarrow> addr" where
  "list_head FreeLists b = b_freeLists b"
| "list_head PartialLists b = b_partialLists b"
| "list_head FullLists b = b_fullLists b"

fun set_list_head :: "list_kind \<Rightarrow> addr \<Rightarrow> Buffer \<Rightarrow> Buffer" where
  "set_list_head FreeLists h b = b\<lparr>b_freeLists := h\<rparr>"
| "set_list_head PartialLists h b = b\<lparr>b_partialLists := h\<rparr>"
| "set_list_head FullLists h b = b\<lparr>b_fullLists := h\<rparr>"

section \<open>Placing a slab\<close>

definition try_add :: "list_kind \<Rightarrow> addr \<Rightarrow> addr \<Rightarrow> slab_store \<Rightarrow> slab_store result" where
  "try_add k this list s =
     (let head = list_head k (ss_bufs s this) in
      if head \<noteq> 0
      then rbind (AddList head list (ss_lds s)) (\<lambda>d. Inr (s\<lparr>ss_lds := d\<rparr>))
      else rbind (guard_ptr list) (\<lambda>_.
             Inr (upd_buf this (set_list_head k list)
                    (s\<lparr>ss_lds := set_prev list list (set_next list list (ss_lds s))\<rparr>))))"

definition TryAddFreeList where "TryAddFreeList = try_add FreeLists"
definition TryAddPartialList where "TryAddPartialList = try_add PartialLists"
definition TryAddFullList where "TryAddFullList = try_add FullLists"

definition Buffer_AddList :: "addr \<Rightarrow> addr \<Rightarrow> slab_store \<Rightarrow> slab_store result" where
  "Buffer_AddList this list s =
     (let s = upd_buf this (\<lambda>b. b\<lparr>b_opCount := b_opCount b + 1\<rparr>) s in
      rbind (guard_ptr list) (\<lambda>_.
        rbind (rassert (BufferSize (ss_lds s list) = b_bufferSize (ss_bufs s this))) (\<lambda>_.
          if Full (ss_lds s list) then TryAddFullList this list s
          else if Empty_ld (ss_lds s list) then TryAddFreeList this list s
          else TryAddPartialList this list s)))"

section \<open>Moving slabs between the lists\<close>

definition move_head :: "list_kind \<Rightarrow> addr \<Rightarrow> slab_store \<Rightarrow> slab_store result" where
  "move_head k this s =
     (let head = list_head k (ss_bufs s this) in
      if head = 0 then Inr s
      else if m_nextList (ss_lds s head) = head
      then rbind (Buffer_AddList this head s) (\<lambda>s. Inr (upd_buf this (set_list_head k 0) s))
      else let nextHead = m_nextList (ss_lds s head)
           in rbind (ExtractSelf head (ss_lds s)) (\<lambda>(d, prevHead).
                rbind (Buffer_AddList this prevHead (s\<lparr>ss_lds := d\<rparr>)) (\<lambda>s.
                  Inr (upd_buf this (set_list_head k nextHead) s))))"

definition MoveFreeHead where "MoveFreeHead = move_head FreeLists"
definition MovePartialHead where "MovePartialHead = move_head PartialLists"
definition MoveFullHead where "MoveFullHead = move_head FullLists"

definition move_entry :: "list_kind \<Rightarrow> addr \<Rightarrow> addr \<Rightarrow> slab_store \<Rightarrow> slab_store result" where
  "move_entry k this entry s =
     (let head = list_head k (ss_bufs s this) in
      if entry = 0 then Inr s
      else if entry = head then move_head k this s
      else rbind (guard_ptr head) (\<lambda>_.
             rbind (Extract_ld head entry (ss_lds s)) (\<lambda>(d, _).
               Buffer_AddList this entry (s\<lparr>ss_lds := d\<rparr>))))"

definition MoveFreeEntry where "MoveFreeEntry = move_entry FreeLists"
definition MovePartialEntry where "MovePartialEntry = move_entry PartialLists"
definition MoveFullEntry where "MoveFullEntry = move_entry FullLists"

section \<open>Allocation\<close>

definition ld_allocate :: "addr \<Rightarrow> slab_store \<Rightarrow> (slab_store \<times> addr) result" where
  "ld_allocate it s =
     rbind (Allocate (ss_mem s) (ss_lds s it)) (\<lambda>(ld, p).
       Inr (s\<lparr>ss_lds := (ss_lds s)(it := ld)\<rparr>, p))"

definition AddToFree :: "addr \<Rightarrow> slab_store \<Rightarrow> (slab_store \<times> addr) result" where
  "AddToFree this s =
     (let head = b_freeLists (ss_bufs s this) in
      if head = 0 then Inr (s, 0)
      else rbind (ld_allocate head s) (\<lambda>(s, alloc).
             rbind (MoveFreeHead this s) (\<lambda>s. Inr (s, alloc))))"

text \<open>The loop of \<open>AddToPartial\<close>: the iterator is always set to the slab behind the head.\<close>

fun partial_loop :: "nat \<Rightarrow> addr \<Rightarrow> addr \<Rightarrow> slab_store \<Rightarrow> (slab_store \<times> addr) result" where
  "partial_loop 0 this it s = Inl Diverges"
| "partial_loop (Suc n) this it s =
     rbind (guard_ptr it) (\<lambda>_.
       if HasSpace (ss_lds s it)
       then rbind (ld_allocate it s) (\<lambda>(s, alloc).
              rbind (if Full (ss_lds s it) \<and> it = b_partialLists (ss_bufs s this) then MovePartialHead this s
                     else if Full (ss_lds s it) then MovePartialEntry this it s
                     else Inr s) (\<lambda>s. Inr (s, alloc)))
       else let it = m_nextList (ss_lds s (b_partialLists (ss_bufs s this)))
            in if it \<noteq> b_partialLists (ss_bufs s this) then partial_loop n this it s else Inr (s, 0))"

definition AddToPartial :: "addr \<Rightarrow> slab_store \<Rightarrow> (slab_store \<times> addr) result" where
  "AddToPartial this s =
     (let head = b_partialLists (ss_bufs s this) in
      if head = 0 then Inr (s, 0) else partial_loop walk_fuel this head s)"

definition Buffer_Allocate :: "addr \<Rightarrow> slab_store \<Rightarrow> (slab_store \<times> addr) result" where
  "Buffer_Allocate this s =
     rbind (if b_partialLists (ss_bufs s this) \<noteq> 0 then AddToPartial this s else Inr (s, 0)) (\<lambda>(s, alloc).
       rbind (if alloc = 0 \<and> b_freeLists (ss_bufs s this) \<noteq> 0 then AddToFree this s else Inr (s, alloc))
         (\<lambda>(s, alloc).
            if alloc = 0 then Inr (s, 0)
            else Inr (upd_buf this (\<lambda>b. b\<lparr>b_opCount := b_opCount b + 1\<rparr>) s, alloc)))"

section \<open>Deallocation\<close>

definition ld_deallocate :: "addr \<Rightarrow> addr \<Rightarrow> slab_store \<Rightarrow> slab_store result" where
  "ld_deallocate it objaddr s =
     rbind (Deallocate objaddr (ss_mem s) (ss_lds s it)) (\<lambda>(m, ld).
       Inr (s\<lparr>ss_mem := m, ss_lds := (ss_lds s)(it := ld)\<rparr>))"

text \<open>The loop of \<open>DeallocPartial\<close> and \<open>DeallocFull\<close>, which differ in the list and in when a slab moves.\<close>

fun dealloc_loop :: "nat \<Rightarrow> list_kind \<Rightarrow> (ListDescriptor \<Rightarrow> bool) \<Rightarrow> addr \<Rightarrow> addr \<Rightarrow> addr \<Rightarrow> slab_store \<Rightarrow>
    (slab_store \<times> bool) result" where
  "dealloc_loop 0 k moves this objaddr it s = Inl Diverges"
| "dealloc_loop (Suc n) k moves this objaddr it s =
     rbind (guard_ptr it) (\<lambda>_.
       if ObjectInRange (ss_lds s it) objaddr
       then rbind (ld_deallocate it objaddr s) (\<lambda>s.
              rbind (if moves (ss_lds s it) then move_entry k this it s else Inr s) (\<lambda>s. Inr (s, True)))
       else let it = m_nextList (ss_lds s it)
            in if it \<noteq> list_head k (ss_bufs s this) then dealloc_loop n k moves this objaddr it s
               else Inr (s, False))"

definition DeallocPartial :: "addr \<Rightarrow> addr \<Rightarrow> slab_store \<Rightarrow> (slab_store \<times> bool) result" where
  "DeallocPartial this objaddr s =
     (let head = b_partialLists (ss_bufs s this) in
      if head = 0 then Inr (s, False) else dealloc_loop walk_fuel PartialLists Empty_ld this objaddr head s)"

definition DeallocFull :: "addr \<Rightarrow> addr \<Rightarrow> slab_store \<Rightarrow> (slab_store \<times> bool) result" where
  "DeallocFull this objaddr s =
     (let head = b_fullLists (ss_bufs s this) in
      if head = 0 then Inr (s, False)
      else dealloc_loop walk_fuel FullLists (\<lambda>ld. \<not> Full ld) this objaddr head s)"

definition Buffer_Deallocate :: "addr \<Rightarrow> addr \<Rightarrow> slab_store \<Rightarrow> slab_store result" where
  "Buffer_Deallocate this objaddr s =
     rbind (DeallocPartial this objaddr s) (\<lambda>(s, ok).
       if ok then Inr s else rbind (DeallocFull this objaddr s) (\<lambda>(s, _). Inr s))"

section \<open>The circular list of buffers\<close>

type_synonym bufs = "addr \<Rightarrow> Buffer"

definition set_next_buf :: "addr \<Rightarrow> addr \<Rightarrow> bufs \<Rightarrow> bufs" where
  "set_next_buf p v d = d(p := (d p)\<lparr>b_nextBuffer := v\<rparr>)"

definition set_prev_buf :: "addr \<Rightarrow> addr \<Rightarrow> bufs \<Rightarrow> bufs" where
  "set_prev_buf p v d = d(p := (d p)\<lparr>b_prevBuffer := v\<rparr>)"

definition AddBuffer :: "addr \<Rightarrow> addr \<Rightarrow> bufs \<Rightarrow> bufs result" where
  "AddBuffer this src d =
     (if this = src then Inr d
      else if this = b_prevBuffer (d this) \<and> this = b_nextBuffer (d this)
      then rbind (guard_ptr src) (\<lambda>_.
             let d = set_next_buf this src d; d = set_prev_buf this src d; d = set_prev_buf src this d
             in Inr (set_next_buf src this d))
      else rbind (guard_ptr src) (\<lambda>_.
             let d = set_next_buf src this d; d = set_prev_buf src (b_prevBuffer (d this)) d
             in rbind (guard_ptr (b_prevBuffer (d this))) (\<lambda>_.
                  let d = set_next_buf (b_prevBuffer (d this)) src d
                  in Inr (set_prev_buf this src d))))"

definition unlink_buffer :: "addr \<Rightarrow> bufs \<Rightarrow> bufs result" where
  "unlink_buffer entry d =
     rbind (guard_ptr entry) (\<lambda>_. rbind (guard_ptr (b_prevBuffer (d entry))) (\<lambda>_.
       let d = set_next_buf (b_prevBuffer (d entry)) (b_nextBuffer (d entry)) d
       in rbind (guard_ptr (b_nextBuffer (d entry))) (\<lambda>_.
            Inr (set_prev_buf (b_nextBuffer (d entry)) (b_prevBuffer (d entry)) d))))"

definition Buffer_Remove :: "addr \<Rightarrow> addr \<Rightarrow> bufs \<Rightarrow> bufs result" where
  "Buffer_Remove this entry d =
     (if this = entry then Inr d
      else if b_prevBuffer (d this) = entry \<and> b_nextBuffer (d this) = entry
      then Inr (set_prev_buf this this (set_next_buf this this d))
      else unlink_buffer entry d)"

definition Buffer_Extract :: "addr \<Rightarrow> addr \<Rightarrow> bufs \<Rightarrow> (bufs \<times> addr) result" where
  "Buffer_Extract this entry d =
     (if this = entry then Inr (d, 0)
      else if b_prevBuffer (d this) = entry \<and> b_nextBuffer (d this) = entry
      then Inr (set_prev_buf this this (set_next_buf this this d), entry)
      else rbind (unlink_buffer entry d) (\<lambda>d'. Inr (d', entry)))"

text \<open>The long case reaches the predecessor through the new head: \<open>newHead->prev->prev->next\<close>.\<close>

definition Buffer_ExtractSelf :: "addr \<Rightarrow> bufs \<Rightarrow> (bufs \<times> addr) result" where
  "Buffer_ExtractSelf this d =
     (if b_nextBuffer (d this) = this \<and> b_prevBuffer (d this) = this then Inr (d, this)
      else rbind
        (let newHead = b_nextBuffer (d this) in
         if newHead = b_prevBuffer (d this)
         then rbind (guard_ptr newHead) (\<lambda>_. Inr (set_prev_buf newHead newHead (set_next_buf newHead newHead d)))
         else rbind (guard_ptr newHead) (\<lambda>_. rbind (guard_ptr (b_prevBuffer (d newHead))) (\<lambda>_.
                rbind (guard_ptr (b_prevBuffer (d (b_prevBuffer (d newHead))))) (\<lambda>_.
                  let d = set_next_buf (b_prevBuffer (d (b_prevBuffer (d newHead)))) newHead d
                  in Inr (set_prev_buf newHead (b_prevBuffer (d this)) d)))))
        (\<lambda>d. Inr (set_prev_buf this this (set_next_buf this this d), this)))"

abbreviation buf_ring :: "bufs \<Rightarrow> addr list \<Rightarrow> bool" where
  "buf_ring \<equiv> ring (\<lambda>d p. b_nextBuffer (d p)) (\<lambda>d p. b_prevBuffer (d p))"

interpretation bufl: ring_links "\<lambda>d p. b_nextBuffer (d p)" "\<lambda>d p. b_prevBuffer (d p)" set_next_buf set_prev_buf
  by unfold_locales (simp_all add: set_next_buf_def set_prev_buf_def)

lemma AddBuffer_ring_add:
  "AddBuffer this src d
     = ring_add (\<lambda>d p. b_nextBuffer (d p)) (\<lambda>d p. b_prevBuffer (d p)) set_next_buf set_prev_buf this src d"
  by (simp add: AddBuffer_def ring_add_def Let_def bufl.link_laws)

lemma Buffer_Remove_ring_remove:
  "Buffer_Remove this e d
     = ring_remove (\<lambda>d p. b_nextBuffer (d p)) (\<lambda>d p. b_prevBuffer (d p)) set_next_buf set_prev_buf this e d"
  by (simp add: Buffer_Remove_def ring_remove_def unlink_buffer_def ring_unlink_def Let_def)

lemma Buffer_ExtractSelf_ring:
  assumes "buf_ring d (x # y # ys)"
  shows "Buffer_ExtractSelf x d
     = rbind (ring_extract_self (\<lambda>d p. b_nextBuffer (d p)) (\<lambda>d p. b_prevBuffer (d p))
                set_next_buf set_prev_buf x d) (\<lambda>d'. Inr (d', x))"
proof -
  have "b_nextBuffer (d x) = y" "b_prevBuffer (d y) = x" "y \<noteq> 0" "x \<noteq> 0"
    using assms by (auto simp: ring_def)
  then show ?thesis
    by (auto simp: Buffer_ExtractSelf_def ring_extract_self_def Let_def guard_ptr_def bufl.link_laws)
qed

end
