(* ===== verification/Slab_Buffer_Inv.thy ===== *)
theory Slab_Buffer_Inv
  imports Slab_Buffer
begin

text \<open>
  The invariant of a slab buffer: its three lists are rings of well-formed slabs of its object size,
  and every slab is on the list its fill level calls for.  Allocation keeps it, moving the slab it
  filled or first used to the next list.
\<close>

section \<open>Fill level and links\<close>

definition class_of :: "ListDescriptor \<Rightarrow> list_kind" where
  "class_of ld = (if Full ld then FullLists else if Empty_ld ld then FreeLists else PartialLists)"

definition payload :: "ListDescriptor \<Rightarrow> ListDescriptor" where
  "payload ld = ld\<lparr>m_nextList := 0, m_prevList := 0\<rparr>"

definition slab_wf :: "heap \<Rightarrow> ListDescriptor \<Rightarrow> bool" where
  "slab_wf m ld \<longleftrightarrow> (\<exists>fs. slab_ok m ld fs)"

lemma payload_eqD:
  assumes "payload x = payload y"
  shows "class_of x = class_of y" "m_bufferSize x = m_bufferSize y" "slab_wf m x = slab_wf m y"
    "m_buffersUsed x = m_buffersUsed y" "m_totalBuffers x = m_totalBuffers y"
  using assms
  by (cases x; cases y; simp add: payload_def class_of_def Full_def Empty_ld_def slab_wf_def slab_ok_def
        slab_geometry_def slab_bytes_def slab_slots_def slab_tail_def slab_cells_def)+

definition same_geometry :: "ListDescriptor \<Rightarrow> ListDescriptor \<Rightarrow> bool" where
  "same_geometry x y \<longleftrightarrow> m_baseAddress x = m_baseAddress y \<and> m_bufferSize x = m_bufferSize y \<and>
     m_totalBuffers x = m_totalBuffers y \<and> m_pages x = m_pages y"

lemma same_geometryD:
  assumes "same_geometry x y"
  shows "Base x = Base y" "Limit x = Limit y" "TotalBuffers x = TotalBuffers y" "BufferSize x = BufferSize y"
    "slab_slots x = slab_slots y" "ObjectInRange x a = ObjectInRange y a"
  using assms by (simp_all add: same_geometry_def Base_def Limit_def Pages_def TotalBuffers_def BufferSize_def
      slab_slots_def ObjectInRange_def)

lemma payload_same_geometry: "payload x = payload y \<Longrightarrow> same_geometry x y"
  by (cases x; cases y; simp add: payload_def same_geometry_def)

lemma same_geometry_refl [simp]: "same_geometry x x"
  by (simp add: same_geometry_def)

lemma same_geometry_trans: "same_geometry x y \<Longrightarrow> same_geometry y z \<Longrightarrow> same_geometry x z"
  by (simp add: same_geometry_def)

lemma payload_set_links [simp]:
  "payload (set_next p v d q) = payload (d q)" "payload (set_prev p v d q) = payload (d q)"
  by (simp_all add: payload_def set_next_def set_prev_def)

lemma AddList_payload: "AddList x src d = Inr d' \<Longrightarrow> payload (d' q) = payload (d q)"
  by (auto simp: AddList_def Let_def guard_ptr_def rbind_def split: if_splits)

lemma ExtractSelf_payload: "ExtractSelf x d = Inr (d', e) \<Longrightarrow> payload (d' q) = payload (d q)"
  by (auto simp: ExtractSelf_def Let_def guard_ptr_def rbind_def split: if_splits)

definition rlist :: "lds \<Rightarrow> addr \<Rightarrow> addr list \<Rightarrow> bool" where
  "rlist d h xs \<longleftrightarrow> (if xs = [] then h = 0 else hd xs = h \<and> ld_ring d xs)"

definition same_links :: "addr set \<Rightarrow> lds \<Rightarrow> lds \<Rightarrow> bool" where
  "same_links X d d' \<longleftrightarrow>
     (\<forall>q. q \<notin> X \<longrightarrow> m_nextList (d' q) = m_nextList (d q) \<and> m_prevList (d' q) = m_prevList (d q))"

lemma rlist_cong: "same_links X d d' \<Longrightarrow> set xs \<inter> X = {} \<Longrightarrow> rlist d h xs \<Longrightarrow> rlist d' h xs"
proof -
  assume a: "same_links X d d'" "set xs \<inter> X = {}" "rlist d h xs"
  have "ld_ring d' xs = ld_ring d xs" by (rule ring_cong) (use a in \<open>auto simp: same_links_def\<close>)
  with a(3) show ?thesis by (simp add: rlist_def)
qed

lemma AddList_rlist:
  assumes "rlist d h xs" "xs \<noteq> []" "x \<notin> set xs" "x \<noteq> 0" "m_bufferSize (d x) = m_bufferSize (d h)"
  shows "\<exists>d'. AddList h x d = Inr d' \<and> rlist d' h (xs @ [x]) \<and> same_links (insert x (set xs)) d d'"
proof -
  from assms(1,2) obtain ys where xs: "xs = h # ys" and r: "ld_ring d (h # ys)"
    by (cases xs) (auto simp: rlist_def)
  from ldl.ring_add_appends [OF r assms(4)] assms(3) xs obtain d' where
      d': "AddList h x d = Inr d'" "ld_ring d' (h # ys @ [x])"
    using assms(4,5) by (auto simp: AddList_ring_add)
  have "m_prevList (d h) \<in> set (h # ys)" by (rule ring_closed [OF r]) simp
  then have "same_links (insert x (set xs)) d d'"
    using ldl.ring_add_frame [of h x d d'] d'(1) assms(4,5) xs
    by (auto simp: same_links_def AddList_ring_add)
  with d' xs show ?thesis by (auto simp: rlist_def)
qed

lemma ExtractSelf_rlist:
  assumes "rlist d h (h # y # ys)"
  shows "\<exists>d'. ExtractSelf h d = Inr (d', h) \<and> rlist d' y (y # ys) \<and> same_links (set (h # y # ys)) d d'"
proof -
  from assms have r: "ld_ring d (h # y # ys)" by (simp add: rlist_def)
  from ldl.extract_self_ring [OF r] obtain d' where
      d': "ring_extract_self (\<lambda>d p. m_nextList (d p)) (\<lambda>d p. m_prevList (d p)) set_next set_prev h d = Inr d'"
      "ld_ring d' (y # ys)" by blast
  have "m_prevList (d h) \<in> set (h # y # ys)" "m_nextList (d h) \<in> set (h # y # ys)"
    by (rule ring_closed [OF r]; simp)+
  then have "same_links (set (h # y # ys)) d d'"
    using ldl.ring_extract_self_frame [OF d'(1)] unfolding same_links_def by (metis insert_iff list.simps(15) empty_iff)
  with d' show ?thesis by (auto simp: rlist_def ExtractSelf_ring)
qed

section \<open>The invariant\<close>

definition wf_slab_in :: "slab_store \<Rightarrow> addr \<Rightarrow> list_kind \<Rightarrow> addr \<Rightarrow> bool" where
  "wf_slab_in s b k x \<longleftrightarrow> class_of (ss_lds s x) = k \<and>
     m_bufferSize (ss_lds s x) = b_bufferSize (ss_bufs s b) \<and> slab_wf (ss_mem s) (ss_lds s x)"

definition wf_list :: "slab_store \<Rightarrow> addr \<Rightarrow> list_kind \<Rightarrow> addr list \<Rightarrow> bool" where
  "wf_list s b k xs \<longleftrightarrow> rlist (ss_lds s) (list_head k (ss_bufs s b)) xs \<and> (\<forall>x \<in> set xs. wf_slab_in s b k x)"

definition buf_ok :: "slab_store \<Rightarrow> addr \<Rightarrow> (list_kind \<Rightarrow> addr list) \<Rightarrow> bool" where
  "buf_ok s b L \<longleftrightarrow> (\<forall>k. wf_list s b k (L k))"

text \<open>What an operation on buffer \<open>b\<close> leaves alone when it only relinks the slabs \<open>X\<close>.\<close>

definition relinks :: "addr set \<Rightarrow> addr \<Rightarrow> slab_store \<Rightarrow> slab_store \<Rightarrow> bool" where
  "relinks X b s s' \<longleftrightarrow> ss_mem s' = ss_mem s \<and> b_bufferSize (ss_bufs s' b) = b_bufferSize (ss_bufs s b) \<and>
     (\<forall>q. payload (ss_lds s' q) = payload (ss_lds s q)) \<and> same_links X (ss_lds s) (ss_lds s')"

lemma relinks_trans: "relinks X b s s' \<Longrightarrow> relinks Y b s' s'' \<Longrightarrow> relinks (X \<union> Y) b s s''"
  by (auto simp: relinks_def same_links_def)

lemma relinks_wf_slab: "relinks X b s s' \<Longrightarrow> wf_slab_in s' b k x = wf_slab_in s b k x"
  unfolding relinks_def wf_slab_in_def by (metis payload_eqD(1-3))

lemma relinks_wf_list:
  assumes "relinks X b s s'" "set xs \<inter> X = {}"
    and "list_head k (ss_bufs s' b) = list_head k (ss_bufs s b)" "wf_list s b k xs"
  shows "wf_list s' b k xs"
  using assms rlist_cong [of X "ss_lds s" "ss_lds s'" xs] relinks_wf_slab [OF assms(1)]
  by (auto simp: wf_list_def relinks_def)

lemma list_head_set [simp]:
  "list_head k (set_list_head k' h b) = (if k = k' then h else list_head k b)"
  "b_bufferSize (set_list_head k' h b) = b_bufferSize b"
  by (cases k; cases k'; simp)+

lemma list_head_opCount [simp]: "list_head k (b\<lparr>b_opCount := c\<rparr>) = list_head k b"
  by (cases k) simp_all

lemma upd_buf_simps [simp]:
  "ss_mem (upd_buf b f s) = ss_mem s" "ss_lds (upd_buf b f s) = ss_lds s"
  "ss_bufs (upd_buf b f s) c = (if c = b then f (ss_bufs s b) else ss_bufs s c)"
  by (simp_all add: upd_buf_def)

lemma relinks_upd_buf:
  "(\<And>c. b_bufferSize (f c) = b_bufferSize c) \<Longrightarrow> relinks X b s (upd_buf b f s)"
  by (simp add: relinks_def same_links_def)

lemma try_add_ok:
  assumes "wf_list s b k xs" "x \<notin> set xs" "x \<noteq> 0" "wf_slab_in s b k x"
  shows "\<exists>s'. try_add k b x s = Inr s' \<and> wf_list s' b k (xs @ [x]) \<and> relinks (insert x (set xs)) b s s' \<and>
           (\<forall>k'. k' \<noteq> k \<longrightarrow> list_head k' (ss_bufs s' b) = list_head k' (ss_bufs s b))"
proof (cases "xs = []")
  case True
  let ?d = "set_prev x x (set_next x x (ss_lds s))"
  let ?s = "upd_buf b (set_list_head k x) (s\<lparr>ss_lds := ?d\<rparr>)"
  have "list_head k (ss_bufs s b) = 0" using True assms(1) by (simp add: wf_list_def rlist_def)
  then have run: "try_add k b x s = Inr ?s" using assms(3) by (simp add: try_add_def)
  have rel: "relinks (insert x (set xs)) b s ?s"
    by (auto simp: relinks_def same_links_def set_next_def set_prev_def payload_def)
  have "rlist ?d x [x]" using assms(3) by (simp add: rlist_def ldl.link_laws)
  with True rel relinks_wf_slab [OF rel] assms(4) have "wf_list ?s b k (xs @ [x])" by (simp add: wf_list_def)
  with run rel show ?thesis by auto
next
  case False
  let ?h = "list_head k (ss_bufs s b)"
  from False assms(1) have h: "?h \<in> set xs" "rlist (ss_lds s) ?h xs"
    using hd_in_set [of xs] by (auto simp: wf_list_def rlist_def)
  then have nz: "?h \<noteq> 0" using False by (auto simp: rlist_def ring_def)
  have "m_bufferSize (ss_lds s x) = m_bufferSize (ss_lds s ?h)"
    using assms(1,4) h(1) by (simp add: wf_list_def wf_slab_in_def)
  from AddList_rlist [OF h(2) False assms(2,3) this] obtain d' where
      d': "AddList ?h x (ss_lds s) = Inr d'" "rlist d' ?h (xs @ [x])"
      "same_links (insert x (set xs)) (ss_lds s) d'" by blast
  let ?s = "s\<lparr>ss_lds := d'\<rparr>"
  have rel: "relinks (insert x (set xs)) b s ?s"
    using d' AddList_payload [OF d'(1)] by (simp add: relinks_def)
  have "wf_list ?s b k (xs @ [x])"
    using d'(2) relinks_wf_slab [OF rel] assms(1,4) by (simp add: wf_list_def)
  with rel d'(1) nz show ?thesis by (auto simp: try_add_def)
qed

lemma Buffer_AddList_ok:
  assumes "wf_list s b k xs" "x \<notin> set xs" "x \<noteq> 0" "wf_slab_in s b k x"
  shows "\<exists>s'. Buffer_AddList b x s = Inr s' \<and> wf_list s' b k (xs @ [x]) \<and> relinks (insert x (set xs)) b s s' \<and>
           (\<forall>k'. k' \<noteq> k \<longrightarrow> list_head k' (ss_bufs s' b) = list_head k' (ss_bufs s b))"
proof -
  let ?s = "upd_buf b (\<lambda>b. b\<lparr>b_opCount := b_opCount b + 1\<rparr>) s"
  have rel: "relinks {} b s ?s" by (rule relinks_upd_buf) simp
  have wf: "wf_list ?s b k xs" by (rule relinks_wf_list [OF rel _ _ assms(1)]) simp_all
  have wx: "wf_slab_in ?s b k x" using relinks_wf_slab [OF rel] assms(4) by simp
  have "Buffer_AddList b x s = try_add k b x ?s"
    using assms(3,4)
    by (auto simp: Buffer_AddList_def wf_slab_in_def class_of_def BufferSize_def TryAddFullList_def
          TryAddFreeList_def TryAddPartialList_def split: if_splits)
  with try_add_ok [OF wf assms(2,3) wx] relinks_trans [OF rel] show ?thesis by fastforce
qed

section \<open>Moving the head of a list\<close>

lemma wf_list_disjoint:
  "wf_list s b j xs \<Longrightarrow> wf_list s b k ys \<Longrightarrow> j \<noteq> k \<Longrightarrow> set xs \<inter> set ys = {}"
  by (auto simp: wf_list_def wf_slab_in_def)

lemma buf_ok_insert:
  assumes others: "\<And>j. j \<noteq> k \<Longrightarrow> wf_list s b j (L j)" and h: "wf_slab_in s b k' h" "k' \<noteq> k" "h \<noteq> 0"
    and fresh: "\<And>j. j \<noteq> k \<Longrightarrow> h \<notin> set (L j)"
  shows "\<exists>s'. Buffer_AddList b h s = Inr s' \<and> relinks (insert h (set (L k'))) b s s' \<and>
           list_head k (ss_bufs s' b) = list_head k (ss_bufs s b) \<and>
           (\<forall>j. j \<noteq> k \<longrightarrow> wf_list s' b j ((L(k' := L k' @ [h])) j))"
proof -
  obtain s' where s': "Buffer_AddList b h s = Inr s'" "wf_list s' b k' (L k' @ [h])"
      "relinks (insert h (set (L k'))) b s s'"
      "\<And>j. j \<noteq> k' \<Longrightarrow> list_head j (ss_bufs s' b) = list_head j (ss_bufs s b)"
    using Buffer_AddList_ok [OF others [OF h(2)] fresh [OF h(2)] h(3,1)] by blast
  have "wf_list s' b j (L j)" if j: "j \<noteq> k" "j \<noteq> k'" for j
    by (rule relinks_wf_list [OF s'(3) _ s'(4) [OF j(2)] others [OF j(1)]])
       (use fresh [OF j(1)] wf_list_disjoint [OF others [OF j(1)] others [OF h(2)] j(2)] in auto)
  with s' h(2) show ?thesis by auto
qed

lemma move_head_ok:
  assumes others: "\<And>j. j \<noteq> k \<Longrightarrow> wf_list s b j (L j)" and fresh: "\<And>j. j \<noteq> k \<Longrightarrow> h \<notin> set (L j)"
    and r: "rlist (ss_lds s) (list_head k (ss_bufs s b)) (h # xs)" and xs: "\<forall>x \<in> set xs. wf_slab_in s b k x"
    and h: "wf_slab_in s b k' h" "k' \<noteq> k"
  shows "\<exists>s'. move_head k b s = Inr s' \<and> buf_ok s' b (L(k := xs, k' := L k' @ [h])) \<and>
           ss_mem s' = ss_mem s \<and> (\<forall>q. payload (ss_lds s' q) = payload (ss_lds s q))"
proof -
  from r have hd: "list_head k (ss_bufs s b) = h" and ring: "ld_ring (ss_lds s) (h # xs)" and nz: "h \<noteq> 0"
    by (auto simp: rlist_def ring_def)
  have finish: "buf_ok (upd_buf b (set_list_head k v) s2) b (L(k := xs, k' := L k' @ [h]))"
    if s2: "\<And>j. j \<noteq> k \<Longrightarrow> wf_list s2 b j ((L(k' := L k' @ [h])) j)" and v: "rlist (ss_lds s2) v xs"
      and xs2: "\<forall>x \<in> set xs. wf_slab_in s2 b k x" for s2 v
  proof -
    let ?s = "upd_buf b (set_list_head k v) s2"
    have rel: "relinks {} b s2 ?s" by (rule relinks_upd_buf) simp
    have "wf_list ?s b j ((L(k := xs, k' := L k' @ [h])) j)" for j
    proof (cases "j = k")
      case True
      with v xs2 relinks_wf_slab [OF rel] h(2) show ?thesis by (simp add: wf_list_def)
    next
      case False
      with relinks_wf_list [OF rel _ _ s2 [OF False]] show ?thesis by auto
    qed
    then show ?thesis by (simp add: buf_ok_def)
  qed
  show ?thesis
  proof (cases xs)
    case Nil
    with ring have nx: "m_nextList (ss_lds s h) = h" by (simp add: ring_def)
    obtain s2 where s2: "Buffer_AddList b h s = Inr s2" "relinks (insert h (set (L k'))) b s s2"
        "\<forall>j. j \<noteq> k \<longrightarrow> wf_list s2 b j ((L(k' := L k' @ [h])) j)"
      using buf_ok_insert [of k s b L k' h] others h nz fresh by blast
    from finish [of s2 0] s2(3) Nil
    have "buf_ok (upd_buf b (set_list_head k 0) s2) b (L(k := xs, k' := L k' @ [h]))"
      by (simp add: rlist_def)
    then show ?thesis using nx nz hd s2(1,2) by (auto simp: move_head_def relinks_def)
  next
    case (Cons y ys)
    with ring have nx: "m_nextList (ss_lds s h) = y" "y \<noteq> h" by (auto simp: ring_def)
    from r Cons hd have "rlist (ss_lds s) h (h # y # ys)" by simp
    from ExtractSelf_rlist [OF this] obtain d1 where d1: "ExtractSelf h (ss_lds s) = Inr (d1, h)"
        "rlist d1 y xs" "same_links (set (h # xs)) (ss_lds s) d1"
      using Cons by auto
    let ?s1 = "s\<lparr>ss_lds := d1\<rparr>"
    have rel: "relinks (set (h # xs)) b s ?s1"
      using d1 ExtractSelf_payload [OF d1(1)] by (simp add: relinks_def)
    have disj: "set (L j) \<inter> set (h # xs) = {}" if "j \<noteq> k" for j
      using fresh [OF that] others [OF that] xs that by (auto simp: wf_list_def wf_slab_in_def)
    have o1: "wf_list ?s1 b j (L j)" if "j \<noteq> k" for j
      by (rule relinks_wf_list [OF rel disj [OF that] _ others [OF that]]) simp
    have h1: "wf_slab_in ?s1 b k' h" using relinks_wf_slab [OF rel] h(1) by simp
    obtain s2 where s2: "Buffer_AddList b h ?s1 = Inr s2" "relinks (insert h (set (L k'))) b ?s1 s2"
        "\<forall>j. j \<noteq> k \<longrightarrow> wf_list s2 b j ((L(k' := L k' @ [h])) j)"
      using buf_ok_insert [of k ?s1 b L k' h] o1 h1 h(2) nz fresh by blast
    have "h \<notin> set xs" using ring by (simp add: ring_def)
    then have "rlist (ss_lds s2) y xs"
      using d1(2) disj [OF h(2)] s2(2)
      by (intro rlist_cong [of "insert h (set (L k'))" d1 "ss_lds s2"]) (auto simp: relinks_def)
    moreover have "\<forall>x \<in> set xs. wf_slab_in s2 b k x"
      using xs relinks_wf_slab [OF rel] relinks_wf_slab [OF s2(2)] by simp
    ultimately have "buf_ok (upd_buf b (set_list_head k y) s2) b (L(k := xs, k' := L k' @ [h]))"
      using finish s2(3) by blast
    then show ?thesis
      using nx nz hd s2(1) d1(1) relinks_trans [OF rel s2(2)] by (auto simp: move_head_def relinks_def)
  qed
qed

section \<open>Allocation\<close>

lemma used_less_total:
  assumes "slab_ok m ld fs" "\<not> Full ld"
  shows "m_buffersUsed ld < m_totalBuffers ld"
proof -
  have "unat (m_buffersUsed ld) \<le> unat (m_totalBuffers ld)" using assms(1) by (auto simp: slab_ok_def)
  with assms(2) show ?thesis by (auto simp: Full_def word_le_nat_alt [symmetric])
qed

text \<open>Allocating from one slab of the buffer: its links stay, its fill level changes.\<close>

lemma ld_allocate_ok:
  assumes wf: "slab_wf (ss_mem s) (ss_lds s h)" and space: "\<not> Full (ss_lds s h)"
  shows "\<exists>ld p. ld_allocate h s = Inr (s\<lparr>ss_lds := (ss_lds s)(h := ld)\<rparr>, p) \<and>
           p \<in> slab_free (ss_mem s) (ss_lds s h) \<and> p \<noteq> 0 \<and> slab_wf (ss_mem s) ld \<and>
           slab_free (ss_mem s) ld = slab_free (ss_mem s) (ss_lds s h) - {p} \<and>
           p = m_nextFree (ss_lds s h) \<and> same_geometry ld (ss_lds s h) \<and> m_buffersUsed ld = m_buffersUsed (ss_lds s h) + 1 \<and>
           m_bufferSize ld = m_bufferSize (ss_lds s h) \<and> \<not> Empty_ld ld \<and>
           m_nextList ld = m_nextList (ss_lds s h) \<and> m_prevList ld = m_prevList (ss_lds s h)"
proof -
  let ?ld = "ss_lds s h"
  obtain fs where ok: "slab_ok (ss_mem s) ?ld fs" using wf by (auto simp: slab_wf_def)
  have ne: "m_buffersUsed ?ld \<noteq> m_totalBuffers ?ld" using space by (simp add: Full_def)
  with Allocate_ok [OF ok] obtain ld' where ld': "Allocate (ss_mem s) ?ld = Inr (ld', hd fs)"
      "hd fs \<in> set (slab_slots ?ld)"
      "ld' = ?ld\<lparr>m_nextFree := m_nextFree ld', m_buffersUsed := m_buffersUsed ?ld + 1\<rparr>"
      "slab_ok (ss_mem s) ld' (if m_buffersUsed ?ld + 1 = m_totalBuffers ?ld then [] else tl fs)"
      "slab_free (ss_mem s) ld' = slab_free (ss_mem s) ?ld - {hd fs}"
    by auto
  obtain p fs' where "fs = p # fs'" using slab_ok_head [OF ok ne] by blast
  then have free: "hd fs \<in> slab_free (ss_mem s) ?ld" using ld'(2) slab_free_eq [OF ok] by simp
  have nz: "hd fs \<noteq> 0" using slab_slots_facts(3) [of ?ld "hd fs"] ld'(2) ok by (simp add: slab_ok_def)
  have used: "m_buffersUsed ld' = m_buffersUsed ?ld + 1" by (subst ld'(3)) simp
  have "unat (m_buffersUsed ?ld + 1) \<noteq> 0" using unat_used_inc [OF used_less_total [OF ok space]] by simp
  then have "\<not> Empty_ld ld'" using used unfolding Empty_ld_def by (metis unat_0)
  moreover have "m_bufferSize ld' = m_bufferSize ?ld" "m_nextList ld' = m_nextList ?ld"
      "m_prevList ld' = m_prevList ?ld" "same_geometry ld' ?ld"
    by (subst ld'(3); simp add: same_geometry_def)+
  moreover have "slab_wf (ss_mem s) ld'" unfolding slab_wf_def using ld'(4) by (rule exI)
  moreover have "hd fs = m_nextFree ?ld" using ok ne ld'(1) by (auto simp: Allocate_def rbind_eq_Inr Let_def)
  ultimately show ?thesis using ld'(1,5) free nz used by (auto simp: ld_allocate_def)
qed

text \<open>Replacing the descriptor of the head of list \<open>k\<close> by one with the same links and size.\<close>

lemma replace_head:
  assumes ok: "buf_ok s b L" "L k = h # xs"
    and ld: "slab_wf (ss_mem s) ld" "m_bufferSize ld = m_bufferSize (ss_lds s h)"
      "m_nextList ld = m_nextList (ss_lds s h)" "m_prevList ld = m_prevList (ss_lds s h)"
  shows "\<And>j. j \<noteq> k \<Longrightarrow> wf_list (s\<lparr>ss_lds := (ss_lds s)(h := ld)\<rparr>) b j (L j)"
    and "\<And>j. j \<noteq> k \<Longrightarrow> h \<notin> set (L j)"
    and "rlist ((ss_lds s)(h := ld)) (list_head k (ss_bufs s b)) (h # xs)"
    and "\<forall>x \<in> set xs. wf_slab_in (s\<lparr>ss_lds := (ss_lds s)(h := ld)\<rparr>) b k x"
    and "wf_slab_in (s\<lparr>ss_lds := (ss_lds s)(h := ld)\<rparr>) b (class_of ld) h"
proof -
  let ?d = "(ss_lds s)(h := ld)"
  from ok have wf: "wf_list s b j (L j)" for j by (simp add: buf_ok_def)
  from wf [of k] ok(2) have k: "rlist (ss_lds s) (list_head k (ss_bufs s b)) (h # xs)"
      "\<forall>x \<in> set (h # xs). wf_slab_in s b k x" by (simp_all add: wf_list_def)
  have links: "same_links {} (ss_lds s) ?d" using ld by (simp add: same_links_def)
  show fresh: "h \<notin> set (L j)" if "j \<noteq> k" for j
    using wf_list_disjoint [OF wf wf that] ok(2) by auto
  show "rlist ?d (list_head k (ss_bufs s b)) (h # xs)" by (rule rlist_cong [OF links _ k(1)]) simp
  have "h \<notin> set xs" using k(1) by (auto simp: rlist_def ring_def)
  with k(2) show "\<forall>x \<in> set xs. wf_slab_in (s\<lparr>ss_lds := ?d\<rparr>) b k x" by (auto simp: wf_slab_in_def)
  show "wf_slab_in (s\<lparr>ss_lds := ?d\<rparr>) b (class_of ld) h" using k(2) ld by (simp add: wf_slab_in_def)
  show "wf_list (s\<lparr>ss_lds := ?d\<rparr>) b j (L j)" if "j \<noteq> k" for j
    using wf [of j] fresh [OF that] rlist_cong [OF links, of "L j"]
    by (auto simp: wf_list_def wf_slab_in_def)
qed

text \<open>
  Slab \<open>x\<close> goes from the list of its fill level in \<open>s\<close> to the end of the list of its fill level in \<open>s'\<close>.
\<close>

definition refile :: "slab_store \<Rightarrow> slab_store \<Rightarrow> addr \<Rightarrow> (list_kind \<Rightarrow> addr list) \<Rightarrow> list_kind \<Rightarrow> addr list" where
  "refile s s' x L =
     (let k = class_of (ss_lds s x); k' = class_of (ss_lds s' x)
      in if k' = k then L else L(k := remove1 x (L k), k' := L k' @ [x]))"

text \<open>
  What a successful allocation from the head \<open>h\<close> of list \<open>k\<close> does: \<open>p\<close> leaves the free set of that slab
  and the slab goes to the list of its new fill level.
\<close>

definition allocated :: "slab_store \<Rightarrow> addr \<Rightarrow> (list_kind \<Rightarrow> addr list) \<Rightarrow> addr \<Rightarrow> addr \<Rightarrow> slab_store \<Rightarrow> bool" where
  "allocated s b L h p s' \<longleftrightarrow> p \<noteq> 0 \<and> p \<in> slab_free (ss_mem s) (ss_lds s h) \<and> ss_mem s' = ss_mem s \<and>
     slab_free (ss_mem s') (ss_lds s' h) = slab_free (ss_mem s) (ss_lds s h) - {p} \<and>
     p = NextFreeBuffer (ss_lds s h) \<and> BuffersUsed (ss_lds s' h) = BuffersUsed (ss_lds s h) + 1 \<and>
     same_geometry (ss_lds s' h) (ss_lds s h) \<and>
     (\<forall>x. x \<noteq> h \<longrightarrow> payload (ss_lds s' x) = payload (ss_lds s x)) \<and>
     buf_ok s' b (refile s s' h L)"

lemma slab_free_payload: "payload x = payload y \<Longrightarrow> slab_free m x = slab_free m y"
  by (cases x; cases y; simp add: payload_def slab_free_def slab_ok_def slab_geometry_def slab_bytes_def
        slab_slots_def slab_tail_def slab_cells_def)

lemma refile_members:
  assumes "x \<in> set (L (class_of (ss_lds s x)))"
  shows "(\<Union>k. set (refile s s' x L k)) = (\<Union>k. set (L k))"
proof -
  let ?k = "class_of (ss_lds s x)" and ?k' = "class_of (ss_lds s' x)"
  have "set (refile s s' x L j) \<subseteq> (\<Union>k. set (L k))" for j
    using assms set_remove1_subset [of x "L ?k"] by (auto simp: refile_def Let_def)
  moreover have "set (L j) \<subseteq> (\<Union>k. set (refile s s' x L k))" for j
  proof
    fix y assume y: "y \<in> set (L j)"
    have "y \<in> set (refile s s' x L (if y = x then ?k' else j))"
      using y assms by (auto simp: refile_def Let_def)
    then show "y \<in> (\<Union>k. set (refile s s' x L k))" by blast
  qed
  ultimately show ?thesis by blast
qed

lemma allocated_move:
  assumes ok: "buf_ok s b L" "L k = h # xs" and al: "ld_allocate h s = Inr (s1, p)"
    and space: "k \<noteq> FullLists" and moves: "class_of (ss_lds s1 h) \<noteq> k"
  shows "\<exists>s'. move_head k b s1 = Inr s' \<and> allocated s b L h p s'"
proof -
  from ok have w: "wf_slab_in s b k h" by (auto simp: buf_ok_def wf_list_def)
  then have sp: "\<not> Full (ss_lds s h)" "slab_wf (ss_mem s) (ss_lds s h)"
    using space by (auto simp: wf_slab_in_def class_of_def split: if_splits)
  from ld_allocate_ok [OF sp(2,1)] al obtain ld where ld: "s1 = s\<lparr>ss_lds := (ss_lds s)(h := ld)\<rparr>"
      "p \<in> slab_free (ss_mem s) (ss_lds s h)" "p \<noteq> 0" "slab_wf (ss_mem s) ld"
      "slab_free (ss_mem s) ld = slab_free (ss_mem s) (ss_lds s h) - {p}"
      "m_bufferSize ld = m_bufferSize (ss_lds s h)" "m_nextList ld = m_nextList (ss_lds s h)"
      "m_prevList ld = m_prevList (ss_lds s h)" "p = NextFreeBuffer (ss_lds s h)"
      "BuffersUsed ld = BuffersUsed (ss_lds s h) + 1" "same_geometry ld (ss_lds s h)"
    by (auto simp: NextFreeBuffer_def BuffersUsed_def)
  note r = replace_head [OF ok ld(4,6,7,8)]
  let ?c = "class_of ld"
  have c: "?c \<noteq> k" using moves ld(1) by simp
  have "\<exists>s'. move_head k b s1 = Inr s' \<and> buf_ok s' b (L(k := xs, ?c := L ?c @ [h])) \<and>
      ss_mem s' = ss_mem s1 \<and> (\<forall>q. payload (ss_lds s' q) = payload (ss_lds s1 q))"
    unfolding ld(1)
    by (rule move_head_ok) (use r c in simp_all)
  then obtain s' where s': "move_head k b s1 = Inr s'" "buf_ok s' b (L(k := xs, ?c := L ?c @ [h]))"
      "ss_mem s' = ss_mem s" "\<forall>q. payload (ss_lds s' q) = payload (ss_lds s1 q)"
    using ld(1) by auto
  have "slab_free (ss_mem s) (ss_lds s' h) = slab_free (ss_mem s) ld"
    by (rule slab_free_payload) (use s'(4) ld(1) in simp)
  moreover have "\<forall>x. x \<noteq> h \<longrightarrow> payload (ss_lds s' x) = payload (ss_lds s x)" using s'(4) ld(1) by simp
  moreover have c': "class_of (ss_lds s' h) = ?c" using s'(4) ld(1) payload_eqD(1) [of "ss_lds s' h" ld] by simp
  moreover have "BuffersUsed (ss_lds s' h) = BuffersUsed ld"
    using s'(4) ld(1) payload_eqD(4) [of "ss_lds s' h" ld] by (simp add: BuffersUsed_def)
  moreover have "same_geometry (ss_lds s' h) (ss_lds s h)"
    using s'(4) ld(1,11) payload_same_geometry [of "ss_lds s' h" ld] same_geometry_trans by simp
  moreover have "refile s s' h L = L(k := xs, ?c := L ?c @ [h])" using c c' w ok(2) by (simp add: refile_def wf_slab_in_def Let_def)
  then have "buf_ok s' b (refile s s' h L)" using s'(2) by simp
  ultimately have "allocated s b L h p s'"
    using s'(3) ld(2,3,5,9,10) unfolding allocated_def by simp
  with s'(1) show ?thesis by blast
qed

lemma allocated_stay:
  assumes ok: "buf_ok s b L" "L k = h # xs" and al: "ld_allocate h s = Inr (s1, p)"
    and space: "k \<noteq> FullLists" and stays: "class_of (ss_lds s1 h) = k"
  shows "allocated s b L h p s1"
proof -
  from ok have w: "wf_slab_in s b k h" by (auto simp: buf_ok_def wf_list_def)
  then have sp: "\<not> Full (ss_lds s h)" "slab_wf (ss_mem s) (ss_lds s h)"
    using space by (auto simp: wf_slab_in_def class_of_def split: if_splits)
  from ld_allocate_ok [OF sp(2,1)] al obtain ld where ld: "s1 = s\<lparr>ss_lds := (ss_lds s)(h := ld)\<rparr>"
      "p \<in> slab_free (ss_mem s) (ss_lds s h)" "p \<noteq> 0" "slab_wf (ss_mem s) ld"
      "slab_free (ss_mem s) ld = slab_free (ss_mem s) (ss_lds s h) - {p}"
      "m_bufferSize ld = m_bufferSize (ss_lds s h)" "m_nextList ld = m_nextList (ss_lds s h)"
      "m_prevList ld = m_prevList (ss_lds s h)" "p = NextFreeBuffer (ss_lds s h)"
      "BuffersUsed ld = BuffersUsed (ss_lds s h) + 1" "same_geometry ld (ss_lds s h)"
    by (auto simp: NextFreeBuffer_def BuffersUsed_def)
  note r = replace_head [OF ok ld(4,6,7,8)]
  have "wf_list s1 b j (L j)" for j
  proof (cases "j = k")
    case True
    with r(3-5) stays ok(2) ld(1) show ?thesis by (simp add: wf_list_def)
  next
    case False
    with r(1) ld(1) show ?thesis by simp
  qed
  moreover have "refile s s1 h L = L" using w stays by (simp add: refile_def wf_slab_in_def Let_def)
  ultimately have "buf_ok s1 b (refile s s1 h L)" by (simp add: buf_ok_def)
  with ld show ?thesis unfolding allocated_def by auto
qed

lemma AddToPartial_ok:
  assumes ok: "buf_ok s b L" "L PartialLists = h # xs"
  shows "\<exists>s' p. AddToPartial b s = Inr (s', p) \<and> allocated s b L h p s'"
proof -
  from ok have w: "wf_slab_in s b PartialLists h" "rlist (ss_lds s) (b_partialLists (ss_bufs s b)) (h # xs)"
    by (auto simp: buf_ok_def wf_list_def dest!: spec [of _ PartialLists])
  then have sp: "\<not> Full (ss_lds s h)" "slab_wf (ss_mem s) (ss_lds s h)" "b_partialLists (ss_bufs s b) = h" "h \<noteq> 0"
    by (auto simp: wf_slab_in_def class_of_def rlist_def ring_def split: if_splits)
  then have space: "HasSpace (ss_lds s h)" using used_less_total by (auto simp: HasSpace_def slab_wf_def)
  obtain ld p where ld: "ld_allocate h s = Inr (s\<lparr>ss_lds := (ss_lds s)(h := ld)\<rparr>, p)" "\<not> Empty_ld ld"
    using ld_allocate_ok [OF sp(2,1)] by blast
  obtain n where n: "walk_fuel = Suc n" using walk_fuel_Suc by blast
  show ?thesis
  proof (cases "Full ld")
    case True
    then have "class_of ld \<noteq> PartialLists" by (simp add: class_of_def)
    with allocated_move [OF ok ld(1)] obtain s' where
        "move_head PartialLists b (s\<lparr>ss_lds := (ss_lds s)(h := ld)\<rparr>) = Inr s'" "allocated s b L h p s'"
      by auto
    then show ?thesis using True sp(3,4) space ld(1) by (simp add: AddToPartial_def MovePartialHead_def n)
  next
    case False
    then have "class_of ld = PartialLists" using ld(2) by (simp add: class_of_def)
    with allocated_stay [OF ok ld(1)] have "allocated s b L h p (s\<lparr>ss_lds := (ss_lds s)(h := ld)\<rparr>)" by simp
    then show ?thesis using False sp(3,4) space ld(1) by (simp add: AddToPartial_def n)
  qed
qed

lemma AddToFree_ok:
  assumes ok: "buf_ok s b L" "L FreeLists = h # xs"
  shows "\<exists>s' p. AddToFree b s = Inr (s', p) \<and> allocated s b L h p s'"
proof -
  from ok have w: "wf_slab_in s b FreeLists h" "rlist (ss_lds s) (b_freeLists (ss_bufs s b)) (h # xs)"
    by (auto simp: buf_ok_def wf_list_def dest!: spec [of _ FreeLists])
  then have sp: "\<not> Full (ss_lds s h)" "slab_wf (ss_mem s) (ss_lds s h)" "b_freeLists (ss_bufs s b) = h" "h \<noteq> 0"
    by (auto simp: wf_slab_in_def class_of_def rlist_def ring_def split: if_splits)
  obtain ld p where ld: "ld_allocate h s = Inr (s\<lparr>ss_lds := (ss_lds s)(h := ld)\<rparr>, p)" "\<not> Empty_ld ld"
    using ld_allocate_ok [OF sp(2,1)] by blast
  have "class_of ld \<noteq> FreeLists" using ld(2) by (simp add: class_of_def)
  with allocated_move [OF ok ld(1)] obtain s' where
      "move_head FreeLists b (s\<lparr>ss_lds := (ss_lds s)(h := ld)\<rparr>) = Inr s'" "allocated s b L h p s'"
    by auto
  then show ?thesis using sp(3,4) ld(1) by (simp add: AddToFree_def MoveFreeHead_def)
qed

lemma allocated_count:
  assumes "allocated s b L h p s'"
  shows "allocated s b L h p (upd_buf b (\<lambda>b. b\<lparr>b_opCount := b_opCount b + 1\<rparr>) s')"
proof -
  let ?s = "upd_buf b (\<lambda>b. b\<lparr>b_opCount := b_opCount b + 1\<rparr>) s'"
  have rel: "relinks {} b s' ?s" by (rule relinks_upd_buf) simp
  have "refile s ?s h L = refile s s' h L" by (simp add: refile_def)
  moreover have "buf_ok ?s b L'" if "buf_ok s' b L'" for L'
  proof -
    have "wf_list ?s b k (L' k)" for k
      by (rule relinks_wf_list [OF rel]) (use that in \<open>simp_all add: buf_ok_def\<close>)
    then show ?thesis by (simp add: buf_ok_def)
  qed
  ultimately show ?thesis using assms unfolding allocated_def by auto
qed

lemma Buffer_Allocate_ok:
  assumes "buf_ok s b L"
  shows "case L PartialLists @ L FreeLists of
           [] \<Rightarrow> Buffer_Allocate b s = Inr (s, 0)
         | h # _ \<Rightarrow> \<exists>s' p. Buffer_Allocate b s = Inr (s', p) \<and> allocated s b L h p s'"
proof -
  from assms have heads: "rlist (ss_lds s) (list_head k (ss_bufs s b)) (L k)" for k
    by (simp add: buf_ok_def wf_list_def)
  have null: "h = 0 \<longleftrightarrow> xs = []" if "rlist d h xs" for d h xs
    using that hd_in_set [of xs] by (auto simp: rlist_def ring_def split: if_splits)
  have P: "b_partialLists (ss_bufs s b) = 0 \<longleftrightarrow> L PartialLists = []"
    using null [OF heads [of PartialLists]] by simp
  have F: "b_freeLists (ss_bufs s b) = 0 \<longleftrightarrow> L FreeLists = []"
    using null [OF heads [of FreeLists]] by simp
  show ?thesis
  proof (cases "L PartialLists")
    case (Cons h xs)
    from AddToPartial_ok [OF assms Cons] obtain s' p where
        "AddToPartial b s = Inr (s', p)" "allocated s b L h p s'" by blast
    moreover from this(2) have "p \<noteq> 0" unfolding allocated_def by blast
    ultimately show ?thesis using P Cons allocated_count by (simp add: Buffer_Allocate_def)
  next
    case Nil
    show ?thesis
    proof (cases "L FreeLists")
      case (Cons h xs)
      from AddToFree_ok [OF assms Cons] obtain s' p where
          "AddToFree b s = Inr (s', p)" "allocated s b L h p s'" by blast
      moreover from this(2) have "p \<noteq> 0" unfolding allocated_def by blast
      ultimately show ?thesis using P F Nil Cons allocated_count by (simp add: Buffer_Allocate_def)
    next
      case empty: Nil
      with P F Nil show ?thesis by (simp add: Buffer_Allocate_def)
    qed
  qed
qed

section \<open>Properties\<close>

text \<open>A buffer for 768-byte objects with one linked, unused slab.\<close>

lemma example_buffer: "\<exists>s. buf_ok s 0x8000 (\<lambda>k. if k = FreeLists then [0x9000] else [])"
proof -
  obtain m ld where ld: "SetupLinkage (\<lambda>_. 0) slab_example = Inr (m, ld)" "slab_ok m ld (slab_cells slab_example)"
    using slab_example_linked by blast
  have eq: "ld = slab_example\<lparr>m_nextFree := m_baseAddress slab_example\<rparr>"
    using ld(1) by (auto simp: SetupLinkage_def Base_def rbind_eq_Inr split: prod.splits)
  let ?s = "\<lparr>ss_mem = m, ss_lds = (\<lambda>_. ld),
     ss_bufs = (\<lambda>b. (new_Buffer b 768)\<lparr>b_freeLists := 0x9000\<rparr>)\<rparr>"
  have "class_of ld = FreeLists" "m_bufferSize ld = 768" "m_nextList ld = 0x9000" "m_prevList ld = 0x9000"
    by (simp_all add: eq slab_example_def new_ListDescriptor_def class_of_def Full_def Empty_ld_def)
  moreover have "slab_wf m ld" using ld(2) by (auto simp: slab_wf_def)
  ultimately have "wf_list ?s 0x8000 k (if k = FreeLists then [0x9000] else [])" for k
    by (cases k) (simp_all add: wf_list_def wf_slab_in_def rlist_def new_Buffer_def)
  then show ?thesis unfolding buf_ok_def by blast
qed

text \<open>
  C11. Allocation from a slab buffer whose lists are sorted by fill level: when no partial and no free slab
  is left it returns null and changes nothing; otherwise it takes a free buffer of the first partial
  slab, or of the first free slab when no slab is partial, that buffer is the slab's next free one and leaves
  its free set, no other slab changes, no memory is written, and the slab goes to the end of the list of its new fill
  level, or stays where it is when its fill level is the same.
\<close>

theorem Buffer_Allocate_takes_free_buffer:
  assumes "buf_ok s b L"
  shows "case L PartialLists @ L FreeLists of
           [] \<Rightarrow> Buffer_Allocate b s = Inr (s, 0)
         | h # _ \<Rightarrow> \<exists>s' p. Buffer_Allocate b s = Inr (s', p) \<and> allocated s b L h p s'"
  by (rule Buffer_Allocate_ok [OF assms])

theorem Buffer_Allocate_takes_free_buffer_witness:
  "\<exists>s s' p. Buffer_Allocate 0x8000 s = Inr (s', p) \<and>
     allocated s 0x8000 (\<lambda>k. if k = FreeLists then [0x9000] else []) 0x9000 p s'"
  using example_buffer Buffer_Allocate_takes_free_buffer by fastforce

text \<open>
  C14. Adding a slab to a buffer puts it at the end of the list of its fill level and leaves the other
  two lists as they were.
\<close>

theorem Buffer_AddList_places_slab:
  assumes "buf_ok s b L" "wf_slab_in s b k x" "x \<noteq> 0" "\<forall>j. x \<notin> set (L j)"
  shows "\<exists>s'. Buffer_AddList b x s = Inr s' \<and> buf_ok s' b (L(k := L k @ [x]))"
proof -
  from assms(1) have wf: "wf_list s b j (L j)" for j by (simp add: buf_ok_def)
  from Buffer_AddList_ok [OF wf _ assms(3,2)] assms(4) obtain s' where s': "Buffer_AddList b x s = Inr s'"
      "wf_list s' b k (L k @ [x])" "relinks (insert x (set (L k))) b s s'"
      "\<And>j. j \<noteq> k \<Longrightarrow> list_head j (ss_bufs s' b) = list_head j (ss_bufs s b)"
    by blast
  have "wf_list s' b j (L j)" if "j \<noteq> k" for j
    by (rule relinks_wf_list [OF s'(3) _ s'(4) [OF that] wf])
       (use assms(4) wf_list_disjoint [OF wf wf that] in auto)
  with s' show ?thesis by (auto simp: buf_ok_def)
qed

theorem Buffer_AddList_places_slab_witness:
  "\<exists>s s'. Buffer_AddList 0x8000 0x9000 s = Inr s' \<and>
     buf_ok s' 0x8000 ((\<lambda>_. [])(FreeLists := [0x9000]))"
proof -
  obtain s where s: "buf_ok s 0x8000 (\<lambda>k. if k = FreeLists then [0x9000] else [])"
    using example_buffer by blast
  then have x: "wf_slab_in s 0x8000 FreeLists 0x9000"
    by (auto simp: buf_ok_def wf_list_def dest!: spec [of _ FreeLists])
  let ?s = "upd_buf 0x8000 (set_list_head FreeLists 0) s"
  have rel: "relinks {} 0x8000 s ?s" by (rule relinks_upd_buf) simp
  have "wf_list ?s 0x8000 k []" for k
    using s by (cases k) (auto simp: wf_list_def rlist_def buf_ok_def split: if_splits
      dest: spec [of _ PartialLists] spec [of _ FullLists])
  then have "buf_ok ?s 0x8000 (\<lambda>_. [])" by (simp add: buf_ok_def)
  from Buffer_AddList_places_slab [OF this, of FreeLists "0x9000"] x relinks_wf_slab [OF rel] show ?thesis
    by auto
qed

text \<open>
  C15. The loop of \<open>AddToPartial\<close> does not advance: when the head of a partial list and the slab behind
  it are both exhausted and differ, it never returns, even if a later slab has room.
\<close>

theorem AddToPartial_diverges:
  assumes "h \<noteq> 0" "b_partialLists (ss_bufs s b) = h" "m_nextList (ss_lds s h) = y" "y \<noteq> h" "y \<noteq> 0"
    and "\<not> HasSpace (ss_lds s h)" "\<not> HasSpace (ss_lds s y)"
  shows "AddToPartial b s = Inl Diverges"
proof -
  have "partial_loop n b y s = Inl Diverges" for n
    by (induction n) (use assms in simp_all)
  moreover obtain n where n: "walk_fuel = Suc n" using walk_fuel_Suc by blast
  ultimately show ?thesis using assms by (simp add: AddToPartial_def n)
qed

theorem AddToPartial_diverges_witness:
  "AddToPartial 0x8000
     \<lparr>ss_mem = (\<lambda>_. 0), ss_lds = (\<lambda>p. (new_ListDescriptor 0xa000 0x55000 8 128)),
      ss_bufs = (\<lambda>b. (new_Buffer b 8)\<lparr>b_partialLists := 0x9000\<rparr>)\<rparr> = Inl Diverges"
  by (rule AddToPartial_diverges [of "0x9000" _ _ "0xa000"])
     (simp_all add: new_ListDescriptor_def HasSpace_def)

end
