(* ===== verification/Slab_Buffer_Free.thy ===== *)
theory Slab_Buffer_Free
  imports Slab_Buffer_Inv
begin

text \<open>
  Returning an object to a slab buffer (\<open>Buffer::Deallocate\<close> of \<open>kernel/src/kheap/slab/buffer.cpp\<close>): the search for the
  slab whose range holds the object, the slab's own operation and the move to the list of its new fill level.  With
  allocation this makes a slab buffer a page source: its clients never share an object.
\<close>

lemma allocatedD:
  assumes "allocated s b L h p s'"
  shows "p \<noteq> 0" "p \<in> slab_free (ss_mem s) (ss_lds s h)" "ss_mem s' = ss_mem s"
    "slab_free (ss_mem s') (ss_lds s' h) = slab_free (ss_mem s) (ss_lds s h) - {p}"
    "p = NextFreeBuffer (ss_lds s h)" "BuffersUsed (ss_lds s' h) = BuffersUsed (ss_lds s h) + 1"
    "same_geometry (ss_lds s' h) (ss_lds s h)" "x \<noteq> h \<Longrightarrow> payload (ss_lds s' x) = payload (ss_lds s x)"
    "buf_ok s' b (refile s s' h L)"
  using assms unfolding allocated_def by blast+

section \<open>The memory of a slab\<close>

lemma slab_cells_in_range:
  assumes "slab_geometry ld" "a \<in> set (slab_cells ld)"
  shows "ObjectInRange ld a"
proof (cases "a \<in> set (slab_slots ld)")
  case False
  with assms(2) have a: "a = slab_tail ld" and ndvd: "\<not> unat (m_bufferSize ld) dvd slab_bytes ld"
    by (auto simp: slab_cells_def split: if_splits)
  let ?used = "unat (m_totalBuffers ld) * unat (m_bufferSize ld)"
  have "?used \<noteq> slab_bytes ld" using ndvd by (metis dvd_triv_right)
  then have "?used < slab_bytes ld" using slab_size_bound [OF assms(1)] by simp
  moreover have "unat a = unat (m_baseAddress ld) + ?used"
    unfolding a slab_tail_def by (rule slab_total_unat(2) [OF assms(1) order_refl])
  ultimately show ?thesis
    using slab_limit_unat [OF assms(1)]
    by (simp add: ObjectInRange_def Base_def word_le_nat_alt word_less_nat_alt)
qed (use slab_slots_facts(3) [OF assms(1)] in blast)

text \<open>A slab depends only on the words of its range.\<close>

lemma slab_ok_memory:
  assumes "\<forall>a. ObjectInRange ld a \<longrightarrow> m' a = m a" "slab_ok m ld fs"
  shows "slab_ok m' ld fs"
proof -
  have "set fs \<subseteq> {a. ObjectInRange ld a}"
    using assms(2) slab_cells_in_range by (auto simp: slab_ok_def)
  then have "chain m' (m_nextFree ld) fs = chain m (m_nextFree ld) fs"
    using assms(1) by (intro lseg_cong) auto
  with assms(2) show ?thesis by (simp add: slab_ok_def)
qed

lemma slab_memory:
  assumes "\<forall>a. ObjectInRange ld a \<longrightarrow> m' a = m a"
  shows "slab_wf m' ld = slab_wf m ld" "slab_free m' ld = slab_free m ld"
proof -
  have "slab_ok m' ld fs \<longleftrightarrow> slab_ok m ld fs" for fs
    using slab_ok_memory [OF assms] slab_ok_memory [of ld m m'] assms by metis
  then show "slab_wf m' ld = slab_wf m ld" "slab_free m' ld = slab_free m ld"
    by (simp_all add: slab_wf_def slab_free_def)
qed

definition slab_object :: "ListDescriptor \<Rightarrow> addr \<Rightarrow> bool" where
  "slab_object ld p \<longleftrightarrow> p \<in> set (slab_slots ld)"

section \<open>Returning to one slab\<close>

lemma ld_deallocate_ok:
  assumes wf: "slab_wf (ss_mem s) (ss_lds s x)" and p: "slab_object (ss_lds s x) p"
    "p \<notin> slab_free (ss_mem s) (ss_lds s x)"
  shows "\<exists>m' ld. ld_deallocate x p s = Inr (s\<lparr>ss_mem := m', ss_lds := (ss_lds s)(x := ld)\<rparr>) \<and>
           slab_wf m' ld \<and> slab_free m' ld = insert p (slab_free (ss_mem s) (ss_lds s x)) \<and> \<not> Full ld \<and>
           (\<forall>a. \<not> ObjectInRange (ss_lds s x) a \<longrightarrow> m' a = ss_mem s a) \<and>
           ld = (ss_lds s x)\<lparr>m_nextFree := m_nextFree ld, m_buffersUsed := m_buffersUsed (ss_lds s x) - 1\<rparr>"
proof -
  let ?ld = "ss_lds s x"
  obtain fs where ok: "slab_ok (ss_mem s) ?ld fs" using wf by (auto simp: slab_wf_def)
  have b: "p \<in> set (slab_slots ?ld)" "p \<notin> set fs" using p slab_free_eq [OF ok] by (auto simp: slab_object_def)
  from Deallocate_ok [OF ok b] obtain m' h where d:
      "Deallocate p (ss_mem s) ?ld = Inr (m', ?ld\<lparr>m_nextFree := h, m_buffersUsed := m_buffersUsed ?ld - 1\<rparr>)"
      "slab_ok m' (?ld\<lparr>m_nextFree := h, m_buffersUsed := m_buffersUsed ?ld - 1\<rparr>) (insort p fs)"
      "\<forall>y. y \<notin> insert p (set fs) \<longrightarrow> m' y = ss_mem s y" by blast
  let ?new = "?ld\<lparr>m_nextFree := h, m_buffersUsed := m_buffersUsed ?ld - 1\<rparr>"
  have "slab_free m' ?new = insert p (slab_free (ss_mem s) ?ld)"
    using slab_free_eq [OF d(2)] slab_free_eq [OF ok] b by (auto simp: set_insort_key)
  moreover have "\<not> Full ?new"
  proof -
    have "p \<in> set (insort p fs) \<inter> set (slab_slots ?new)" using b by (simp add: set_insort_key)
    then have "card (set (insort p fs) \<inter> set (slab_slots ?new)) \<noteq> 0" by (metis card_0_eq emptyE finite_Int finite_set)
    then show ?thesis using d(2) by (auto simp: slab_ok_def Full_def)
  qed
  moreover have "\<forall>a. \<not> ObjectInRange ?ld a \<longrightarrow> m' a = ss_mem s a"
  proof (intro allI impI)
    fix a assume a: "\<not> ObjectInRange ?ld a"
    have "slab_geometry ?ld" "set fs \<subseteq> set (slab_cells ?ld)" using ok by (simp_all add: slab_ok_def)
    with a b(1) slab_cells_in_range slab_cells_subset(2) have "a \<notin> insert p (set fs)" by blast
    with d(3) show "m' a = ss_mem s a" by blast
  qed
  moreover have "slab_wf m' ?new" using d(2) by (auto simp: slab_wf_def)
  ultimately show ?thesis using d(1) by (intro exI [of _ m'] exI [of _ ?new]) (simp add: ld_deallocate_def)
qed

section \<open>Moving any slab of a list\<close>

lemma Extract_rlist:
  assumes "rlist d h (h # as @ x # bs)"
  shows "\<exists>d' e. Extract_ld h x d = Inr (d', e) \<and> rlist d' h (h # as @ bs) \<and>
           same_links (set (h # as @ x # bs)) d d' \<and> (\<forall>q. payload (d' q) = payload (d q))"
proof -
  from assms have r: "ld_ring d (h # as @ x # bs)" by (simp add: rlist_def)
  then have ne: "h \<noteq> x" by (auto simp: ring_def)
  from ldl.ring_remove_member [OF r] obtain d' where d':
      "Remove h x d = Inr d'" "ld_ring d' (h # as @ bs)"
    unfolding Remove_ring_remove by blast
  have "m_nextList (d x) \<in> set (h # as @ x # bs)" "m_prevList (d x) \<in> set (h # as @ x # bs)"
    by (rule ring_closed [OF r]; simp)+
  then have "same_links (set (h # as @ x # bs)) d d'"
    using ldl.ring_remove_frame [OF d'(1) [unfolded Remove_ring_remove]] unfolding same_links_def
    by (metis empty_iff insert_iff list.set_intros(1) in_set_conv_decomp list.simps(15) set_ConsD)
  moreover have "payload (d' q) = payload (d q)" for q
    using d'(1) by (auto simp: Remove_def unlink_entry_def guard_ptr_def rbind_def Let_def split: if_splits)
  ultimately show ?thesis using d' ne by (auto simp: Extract_ld_eq rlist_def)
qed

lemma move_entry_ok:
  assumes others: "\<And>j. j \<noteq> k \<Longrightarrow> wf_list s b j (L j)" and fresh: "\<And>j. j \<noteq> k \<Longrightarrow> x \<notin> set (L j)"
    and r: "rlist (ss_lds s) (list_head k (ss_bufs s b)) (as @ x # bs)"
    and xs: "\<forall>y \<in> set (as @ bs). wf_slab_in s b k y" and h: "wf_slab_in s b k' x" "k' \<noteq> k"
  shows "\<exists>s'. move_entry k b x s = Inr s' \<and> buf_ok s' b (L(k := as @ bs, k' := L k' @ [x])) \<and>
           ss_mem s' = ss_mem s \<and> (\<forall>q. payload (ss_lds s' q) = payload (ss_lds s q))"
proof (cases as)
  case Nil
  with r have "list_head k (ss_bufs s b) = x" "x \<noteq> 0" by (auto simp: rlist_def ring_def)
  then have "move_entry k b x s = move_head k b s" by (simp add: move_entry_def)
  with move_head_ok [where k = k and s = s and b = b and L = L and h = x and xs = bs and k' = k'] others fresh r xs h Nil
  show ?thesis by simp
next
  case (Cons h as')
  with r have hd: "list_head k (ss_bufs s b) = h" and ring: "ld_ring (ss_lds s) (h # as' @ x # bs)"
    and nz: "h \<noteq> 0" "x \<noteq> 0" "x \<noteq> h" "x \<notin> set (as' @ bs)" by (auto simp: rlist_def ring_def)
  have r': "rlist (ss_lds s) h (h # as' @ x # bs)" using ring by (simp add: rlist_def)
  from Extract_rlist [OF r'] obtain d e where d: "Extract_ld h x (ss_lds s) = Inr (d, e)"
      "rlist d h (h # as' @ bs)" "same_links (set (h # as' @ x # bs)) (ss_lds s) d"
      "\<forall>q. payload (d q) = payload (ss_lds s q)" by blast
  let ?s = "s\<lparr>ss_lds := d\<rparr>"
  have rel: "relinks (set (h # as' @ x # bs)) b s ?s" using d(3,4) by (simp add: relinks_def)
  have disj: "set (L j) \<inter> set (h # as' @ x # bs) = {}" if "j \<noteq> k" for j
    using fresh [OF that] others [OF that] xs Cons that by (auto simp: wf_list_def wf_slab_in_def)
  have o1: "wf_list ?s b j (L j)" if "j \<noteq> k" for j
    by (rule relinks_wf_list [OF rel disj [OF that] _ others [OF that]]) simp
  have x1: "wf_slab_in ?s b k' x" using relinks_wf_slab [OF rel] h(1) by simp
  obtain s2 where s2: "Buffer_AddList b x ?s = Inr s2" "relinks (insert x (set (L k'))) b ?s s2"
      "list_head k (ss_bufs s2 b) = list_head k (ss_bufs ?s b)"
      "\<forall>j. j \<noteq> k \<longrightarrow> wf_list s2 b j ((L(k' := L k' @ [x])) j)"
    using buf_ok_insert [of k ?s b L k' x] o1 x1 h(2) nz fresh by blast
  have "rlist (ss_lds s2) h (h # as' @ bs)"
    using d(2) disj [OF h(2)] s2(2) nz
    by (intro rlist_cong [of "insert x (set (L k'))" d "ss_lds s2"]) (auto simp: relinks_def)
  moreover have "\<forall>y \<in> set (as @ bs). wf_slab_in s2 b k y"
    using xs relinks_wf_slab [OF rel] relinks_wf_slab [OF s2(2)] by simp
  ultimately have "wf_list s2 b k (as @ bs)" using s2(3) hd Cons by (simp add: wf_list_def)
  then have "wf_list s2 b j ((L(k := as @ bs, k' := L k' @ [x])) j)" for j
    using s2(4) h(2) by (cases "j = k") (auto dest: spec [of _ j])
  moreover have "move_entry k b x s = Inr s2" using d(1) s2(1) hd nz by (simp add: move_entry_def)
  ultimately show ?thesis using relinks_trans [OF rel s2(2)] by (auto simp: buf_ok_def relinks_def)
qed

section \<open>The search\<close>

lemma dealloc_loop_finds:
  "links (\<lambda>d p. m_nextList (d p)) (\<lambda>d p. m_prevList (d p)) (ss_lds s) it ys h \<Longrightarrow> h = list_head k (ss_bufs s b) \<Longrightarrow>
   0 \<notin> set (it # ys) \<Longrightarrow> h \<notin> set ys \<Longrightarrow> length ys < n \<Longrightarrow>
   dealloc_loop n k moves b p it s =
     (case dropWhile (\<lambda>x. \<not> ObjectInRange (ss_lds s x) p) (it # ys) of
        [] \<Rightarrow> Inr (s, False)
      | x # _ \<Rightarrow> rbind (ld_deallocate x p s) (\<lambda>s.
            rbind (if moves (ss_lds s x) then move_entry k b x s else Inr s) (\<lambda>s. Inr (s, True))))"
proof (induction ys arbitrary: it n)
  case Nil
  then obtain n' where "n = Suc n'" by (cases n) auto
  with Nil show ?case by auto
next
  case (Cons y ys)
  then obtain n' where n: "n = Suc n'" by (cases n) auto
  have IH: "dealloc_loop n' k moves b p y s =
     (case dropWhile (\<lambda>x. \<not> ObjectInRange (ss_lds s x) p) (y # ys) of
        [] \<Rightarrow> Inr (s, False)
      | x # _ \<Rightarrow> rbind (ld_deallocate x p s) (\<lambda>s.
            rbind (if moves (ss_lds s x) then move_entry k b x s else Inr s) (\<lambda>s. Inr (s, True))))"
    by (rule Cons.IH) (use Cons.prems n in auto)
  have "m_nextList (ss_lds s it) = y" "y \<noteq> list_head k (ss_bufs s b)" "it \<noteq> 0" using Cons.prems by auto
  then show ?case using IH n by simp
qed

lemma dealloc_search:
  assumes "rlist (ss_lds s) (list_head k (ss_bufs s b)) xs"
  shows "(if list_head k (ss_bufs s b) = 0 then Inr (s, False)
          else dealloc_loop walk_fuel k moves b p (list_head k (ss_bufs s b)) s) =
     (case dropWhile (\<lambda>x. \<not> ObjectInRange (ss_lds s x) p) xs of
        [] \<Rightarrow> Inr (s, False)
      | x # _ \<Rightarrow> rbind (ld_deallocate x p s) (\<lambda>s.
            rbind (if moves (ss_lds s x) then move_entry k b x s else Inr s) (\<lambda>s. Inr (s, True))))"
proof (cases xs)
  case (Cons h ys)
  with assms have r: "list_head k (ss_bufs s b) = h" "ld_ring (ss_lds s) (h # ys)" by (auto simp: rlist_def)
  then have nz: "h \<noteq> 0" "0 \<notin> set ys" "h \<notin> set ys" "distinct (0 # h # ys)" by (auto simp: ring_def)
  have "length ys < walk_fuel" using distinct_length_walk_fuel [OF nz(4)] by simp
  then have "dealloc_loop walk_fuel k moves b p h s =
     (case dropWhile (\<lambda>x. \<not> ObjectInRange (ss_lds s x) p) (h # ys) of
        [] \<Rightarrow> Inr (s, False)
      | x # _ \<Rightarrow> rbind (ld_deallocate x p s) (\<lambda>s.
            rbind (if moves (ss_lds s x) then move_entry k b x s else Inr s) (\<lambda>s. Inr (s, True))))"
    using r nz by (intro dealloc_loop_finds [where h = h]) (auto simp: ring_def)
  then show ?thesis using r(1) nz(1) Cons by simp
qed (use assms in \<open>simp add: rlist_def\<close>)

lemma DeallocPartial_search:
  "rlist (ss_lds s) (list_head PartialLists (ss_bufs s b)) xs \<Longrightarrow> DeallocPartial b p s =
     (case dropWhile (\<lambda>x. \<not> ObjectInRange (ss_lds s x) p) xs of
        [] \<Rightarrow> Inr (s, False)
      | x # _ \<Rightarrow> rbind (ld_deallocate x p s) (\<lambda>s.
            rbind (if Empty_ld (ss_lds s x) then move_entry PartialLists b x s else Inr s) (\<lambda>s. Inr (s, True))))"
  unfolding DeallocPartial_def Let_def by (drule dealloc_search [where moves = Empty_ld and p = p]) (simp only: list_head.simps)

lemma DeallocFull_search:
  "rlist (ss_lds s) (list_head FullLists (ss_bufs s b)) xs \<Longrightarrow> DeallocFull b p s =
     (case dropWhile (\<lambda>x. \<not> ObjectInRange (ss_lds s x) p) xs of
        [] \<Rightarrow> Inr (s, False)
      | x # _ \<Rightarrow> rbind (ld_deallocate x p s) (\<lambda>s.
            rbind (if \<not> Full (ss_lds s x) then move_entry FullLists b x s else Inr s) (\<lambda>s. Inr (s, True))))"
  unfolding DeallocFull_def Let_def by (drule dealloc_search [where moves = "\<lambda>ld. \<not> Full ld" and p = p]) (simp only: list_head.simps)

section \<open>Returning to a buffer\<close>

text \<open>The slabs of a buffer, whose ranges must not overlap.\<close>

definition slabs_of :: "(list_kind \<Rightarrow> addr list) \<Rightarrow> addr set" where
  "slabs_of L = set (L FreeLists) \<union> set (L PartialLists) \<union> set (L FullLists)"

definition slabs_apart :: "lds \<Rightarrow> addr set \<Rightarrow> bool" where
  "slabs_apart d X \<longleftrightarrow>
     (\<forall>x\<in>X. \<forall>y\<in>X. x \<noteq> y \<longrightarrow> Limit (d x) \<le> Base (d y) \<or> Limit (d y) \<le> Base (d x))"

lemma slabs_of_Union: "slabs_of L = (\<Union>k. set (L k))"
proof -
  have U: "(UNIV :: list_kind set) = {FreeLists, PartialLists, FullLists}" using list_kind.exhaust by blast
  show ?thesis unfolding U by (simp add: slabs_of_def Un_assoc)
qed

lemma slabs_of_refile:
  "x \<in> set (L (class_of (ss_lds s x))) \<Longrightarrow> slabs_of (refile s s' x L) = slabs_of L"
  unfolding slabs_of_Union by (rule refile_members)

lemma slabs_apart_range:
  assumes "slabs_apart d X" "x \<in> X" "y \<in> X" "ObjectInRange (d x) a" "ObjectInRange (d y) a"
  shows "x = y"
proof (rule ccontr)
  assume "x \<noteq> y"
  with assms(1-3) have "Limit (d x) \<le> Base (d y) \<or> Limit (d y) \<le> Base (d x)" by (simp add: slabs_apart_def)
  with assms(4,5) show False unfolding ObjectInRange_def by (auto dest: less_le_trans le_less_trans)
qed

lemma slabs_apart_cong:
  "(\<And>x. m_baseAddress (d' x) = m_baseAddress (d x) \<and> m_pages (d' x) = m_pages (d x)) \<Longrightarrow>
   slabs_apart d' X = slabs_apart d X"
  by (simp add: slabs_apart_def Limit_def Base_def Pages_def)


definition returned :: "slab_store \<Rightarrow> addr \<Rightarrow> (list_kind \<Rightarrow> addr list) \<Rightarrow> addr \<Rightarrow> addr \<Rightarrow> slab_store \<Rightarrow> bool" where
  "returned s b L x p s' \<longleftrightarrow>
     slab_free (ss_mem s') (ss_lds s' x) = insert p (slab_free (ss_mem s) (ss_lds s x)) \<and>
     BuffersUsed (ss_lds s' x) = BuffersUsed (ss_lds s x) - 1 \<and>
     (\<forall>y \<in> slabs_of L - {x}. slab_free (ss_mem s') (ss_lds s' y) = slab_free (ss_mem s) (ss_lds s y)) \<and>
     (\<forall>y. y \<noteq> x \<longrightarrow> payload (ss_lds s' y) = payload (ss_lds s y)) \<and>
     (\<forall>a. \<not> ObjectInRange (ss_lds s x) a \<longrightarrow> ss_mem s' a = ss_mem s a) \<and>
     same_geometry (ss_lds s' x) (ss_lds s x) \<and>
     buf_ok s' b (refile s s' x L)"

text \<open>Replacing the descriptor of one slab, and memory in its range, keeps the other slabs of the buffer.\<close>

lemma replace_slab:
  assumes ok: "buf_ok s b L" and apart: "slabs_apart (ss_lds s) (slabs_of L)" and k: "L k = as @ x # bs"
    and m': "\<forall>a. \<not> ObjectInRange (ss_lds s x) a \<longrightarrow> m' a = ss_mem s a"
    and ld: "m_nextList ld = m_nextList (ss_lds s x)" "m_prevList ld = m_prevList (ss_lds s x)"
      "m_bufferSize ld = m_bufferSize (ss_lds s x)" "slab_wf m' ld"
    and s': "s' = s\<lparr>ss_mem := m', ss_lds := (ss_lds s)(x := ld)\<rparr>"
  shows "\<And>j. j \<noteq> k \<Longrightarrow> wf_list s' b j (L j)" "\<And>j. j \<noteq> k \<Longrightarrow> x \<notin> set (L j)"
    "rlist (ss_lds s') (list_head k (ss_bufs s' b)) (as @ x # bs)"
    "\<forall>y \<in> set (as @ bs). wf_slab_in s' b k y" "wf_slab_in s' b (class_of ld) x"
    "\<And>y. y \<in> slabs_of L - {x} \<Longrightarrow> slab_free m' (ss_lds s y) = slab_free (ss_mem s) (ss_lds s y)"
proof -
  have wf: "wf_list s b j (L j)" for j using ok by (simp add: buf_ok_def)
  then have x: "wf_slab_in s b k x" using wf [of k] k by (simp add: wf_list_def)
  have xL: "x \<in> slabs_of L" using k by (auto simp: slabs_of_Union intro: exI [of _ k])
  have mem: "\<forall>a. ObjectInRange (ss_lds s y) a \<longrightarrow> m' a = ss_mem s a" if "y \<in> slabs_of L - {x}" for y
    using slabs_apart_range [OF apart xL, of y] m' that by blast
  show "slab_free m' (ss_lds s y) = slab_free (ss_mem s) (ss_lds s y)" if "y \<in> slabs_of L - {x}" for y
    by (rule slab_memory(2) [OF mem [OF that]])
  have links: "same_links {} (ss_lds s) (ss_lds s')" using ld by (simp add: same_links_def s')
  have mw: "wf_slab_in s' b j y = wf_slab_in s b j y" if "y \<in> slabs_of L - {x}" for j y
    using slab_memory(1) [OF mem [OF that]] that by (simp add: wf_slab_in_def s')
  show fresh: "x \<notin> set (L j)" if "j \<noteq> k" for j using wf_list_disjoint [OF wf wf that] k by auto
  show "wf_list s' b j (L j)" if "j \<noteq> k" for j
  proof -
    have "y \<in> slabs_of L - {x}" if "y \<in> set (L j)" for y
      using that fresh [OF \<open>j \<noteq> k\<close>] by (auto simp: slabs_of_Union)
    with wf [of j] rlist_cong [OF links, of "L j"] mw show ?thesis by (auto simp: wf_list_def s')
  qed
  show r: "rlist (ss_lds s') (list_head k (ss_bufs s' b)) (as @ x # bs)"
    using wf [of k] k rlist_cong [OF links, of "as @ x # bs"] by (simp add: wf_list_def s')
  show "wf_slab_in s' b (class_of ld) x" using x ld(3,4) by (simp add: wf_slab_in_def s')
  show "\<forall>y \<in> set (as @ bs). wf_slab_in s' b k y"
  proof
    fix y assume y: "y \<in> set (as @ bs)"
    then have "y \<noteq> x" using r by (auto simp: rlist_def ring_def)
    moreover have "y \<in> set (L k)" "wf_slab_in s b k y" using y wf [of k] k by (auto simp: wf_list_def)
    ultimately show "wf_slab_in s' b k y" using mw [of y k] by (auto simp: slabs_of_Union)
  qed
qed

text \<open>The slab of a list goes to the list of its new fill level.\<close>

lemma refile_ok:
  assumes others: "\<And>j. j \<noteq> k \<Longrightarrow> wf_list s1 b j (L j)" "\<And>j. j \<noteq> k \<Longrightarrow> x \<notin> set (L j)"
    and r: "rlist (ss_lds s1) (list_head k (ss_bufs s1 b)) (as @ x # bs)"
    and xs: "\<forall>y \<in> set (as @ bs). wf_slab_in s1 b k y" and x: "wf_slab_in s1 b (class_of (ss_lds s1 x)) x"
    and k: "L k = as @ x # bs" "class_of (ss_lds s x) = k"
    and moves: "moves \<longleftrightarrow> class_of (ss_lds s1 x) \<noteq> k"
  shows "\<exists>s'. (if moves then move_entry k b x s1 else Inr s1) = Inr s' \<and> buf_ok s' b (refile s s' x L) \<and>
          ss_mem s' = ss_mem s1 \<and> (\<forall>q. payload (ss_lds s' q) = payload (ss_lds s1 q))"
proof (cases moves)
  case True
  let ?c = "class_of (ss_lds s1 x)"
  have ne: "?c \<noteq> k" using moves True by simp
  from move_entry_ok [where L = L, OF others r xs x ne] obtain s' where s': "move_entry k b x s1 = Inr s'"
      "buf_ok s' b (L(k := as @ bs, ?c := L ?c @ [x]))" "ss_mem s' = ss_mem s1"
      "\<forall>q. payload (ss_lds s' q) = payload (ss_lds s1 q)" by auto
  have "x \<notin> set as" using r by (auto simp: rlist_def ring_def)
  then have "refile s s' x L = L(k := as @ bs, ?c := L ?c @ [x])"
    using ne payload_eqD(1) [OF s'(4) [rule_format]] k by (simp add: refile_def Let_def remove1_append)
  with True s' show ?thesis by auto
next
  case False
  then have eq: "class_of (ss_lds s1 x) = k" using moves by simp
  then have "wf_list s1 b k (L k)" using r xs x k by (simp add: wf_list_def)
  with others have "wf_list s1 b j (L j)" for j by (cases "j = k") auto
  moreover have "refile s s1 x L = L" using eq k by (simp add: refile_def)
  ultimately show ?thesis using False by (simp add: buf_ok_def)
qed

lemma dealloc_at:
  assumes ok: "buf_ok s b L" and apart: "slabs_apart (ss_lds s) (slabs_of L)" and k: "L k = as @ x # bs"
    and p: "slab_object (ss_lds s x) p" "p \<notin> slab_free (ss_mem s) (ss_lds s x)"
    and moves: "\<And>ld. \<not> Full ld \<Longrightarrow> moves ld \<longleftrightarrow> class_of ld \<noteq> k"
  shows "\<exists>s'. rbind (ld_deallocate x p s) (\<lambda>s.
            rbind (if moves (ss_lds s x) then move_entry k b x s else Inr s) (\<lambda>s. Inr (s, True))) = Inr (s', True) \<and>
          returned s b L x p s'"
proof -
  have "wf_list s b k (L k)" using ok by (simp add: buf_ok_def)
  then have cl: "class_of (ss_lds s x) = k" "slab_wf (ss_mem s) (ss_lds s x)"
    using k by (simp_all add: wf_list_def wf_slab_in_def)
  from ld_deallocate_ok [OF cl(2) p] obtain m' ld where d:
      "ld_deallocate x p s = Inr (s\<lparr>ss_mem := m', ss_lds := (ss_lds s)(x := ld)\<rparr>)"
      "slab_wf m' ld" "slab_free m' ld = insert p (slab_free (ss_mem s) (ss_lds s x))" "\<not> Full ld"
      "\<forall>a. \<not> ObjectInRange (ss_lds s x) a \<longrightarrow> m' a = ss_mem s a"
      "ld = (ss_lds s x)\<lparr>m_nextFree := m_nextFree ld, m_buffersUsed := m_buffersUsed (ss_lds s x) - 1\<rparr>" by blast
  let ?s = "s\<lparr>ss_mem := m', ss_lds := (ss_lds s)(x := ld)\<rparr>"
  have ld: "m_nextList ld = m_nextList (ss_lds s x)" "m_prevList ld = m_prevList (ss_lds s x)"
      "m_bufferSize ld = m_bufferSize (ss_lds s x)" "same_geometry ld (ss_lds s x)"
      "BuffersUsed ld = BuffersUsed (ss_lds s x) - 1"
    by (subst d(6); simp add: same_geometry_def BuffersUsed_def)+
  note rep = replace_slab [OF ok apart k d(5) ld(1-3) d(2) refl]
  have "wf_slab_in ?s b (class_of (ss_lds ?s x)) x" using rep(5) by simp
  from refile_ok [where s = s and moves = "moves ld", OF rep(1-4) this k cl(1)] moves [OF d(4)] obtain s' where s':
      "(if moves ld then move_entry k b x ?s else Inr ?s) = Inr s'" "buf_ok s' b (refile s s' x L)"
      "ss_mem s' = m'" "\<forall>q. payload (ss_lds s' q) = payload (ss_lds ?s q)" by auto
  have "slab_free (ss_mem s') (ss_lds s' y) = slab_free (ss_mem s) (ss_lds s y)" if "y \<in> slabs_of L - {x}" for y
    using s'(3,4) slab_free_payload [of "ss_lds s' y" "ss_lds s y"] rep(6) [OF that] that by simp
  moreover have "slab_free (ss_mem s') (ss_lds s' x) = insert p (slab_free (ss_mem s) (ss_lds s x))"
    using s'(3,4) d(3) slab_free_payload [of "ss_lds s' x" ld] by simp
  moreover have "same_geometry (ss_lds s' x) (ss_lds s x)" "BuffersUsed (ss_lds s' x) = BuffersUsed ld"
    using s'(4) ld(4) payload_same_geometry [of "ss_lds s' x" ld] same_geometry_trans payload_eqD(4) [of "ss_lds s' x" ld]
    by (simp_all add: BuffersUsed_def)
  ultimately have "returned s b L x p s'" using s' d(5) ld(5) by (simp add: returned_def)
  with d(1) s'(1) show ?thesis by auto
qed


lemma dropWhile_unique:
  "xs = as @ x # bs \<Longrightarrow> P x \<Longrightarrow> (\<And>y. y \<in> set as \<Longrightarrow> \<not> P y) \<Longrightarrow> dropWhile (\<lambda>y. \<not> P y) xs = x # bs"
  by (simp add: dropWhile_append)

lemma Buffer_Deallocate_ok:
  assumes ok: "buf_ok s b L" and apart: "slabs_apart (ss_lds s) (slabs_of L)" and x: "x \<in> slabs_of L"
    and p: "slab_object (ss_lds s x) p" "p \<notin> slab_free (ss_mem s) (ss_lds s x)"
  shows "\<exists>s'. Buffer_Deallocate b p s = Inr s' \<and> returned s b L x p s'"
proof -
  let ?k = "class_of (ss_lds s x)" and ?in = "\<lambda>y. ObjectInRange (ss_lds s y) p"
  have wf: "wf_list s b j (L j)" for j using ok by (simp add: buf_ok_def)
  have head: "rlist (ss_lds s) (list_head j (ss_bufs s b)) (L j)" for j using wf by (simp add: wf_list_def)
  from x wf have xk: "x \<in> set (L ?k)" and wfx: "slab_wf (ss_mem s) (ss_lds s x)"
    by (auto simp: slabs_of_Union wf_list_def wf_slab_in_def)
  obtain fs where fs: "slab_ok (ss_mem s) (ss_lds s x) fs" using wfx by (auto simp: slab_wf_def)
  then have inx: "?in x" using p(1) slab_slots_facts(3) by (auto simp: slab_ok_def slab_object_def)
  have only: "y = x" if "y \<in> slabs_of L" "?in y" for y
    using slabs_apart_range [OF apart that(1) x that(2) inx] .
  have "p \<notin> set fs" using p slab_free_eq [OF fs] by (auto simp: slab_object_def)
  with slab_allocated_used [OF fs _ this] p(1) have used: "\<not> Empty_ld (ss_lds s x)"
    by (auto simp: slab_object_def Empty_ld_def)
  obtain as bs where k: "L ?k = as @ x # bs" using xk by (meson split_list)
  have "x \<notin> set as" using head [of ?k] k by (auto simp: rlist_def ring_def)
  moreover have "set as \<subseteq> slabs_of L" using k UN_upper [of ?k UNIV "\<lambda>k. set (L k)"] by (auto simp: slabs_of_Union)
  ultimately have hit: "dropWhile (\<lambda>y. \<not> ?in y) (L ?k) = x # bs"
    using only by (intro dropWhile_unique [where P = ?in, OF k inx]) blast
  show ?thesis
  proof (cases "Full (ss_lds s x)")
    case False
    then have kP: "?k = PartialLists" using used by (simp add: class_of_def)
    have "Empty_ld ld \<longleftrightarrow> class_of ld \<noteq> ?k" if "\<not> Full ld" for ld
      unfolding kP using that by (simp add: class_of_def)
    note at = dealloc_at [OF ok apart k p this]
    obtain s' where "DeallocPartial b p s = Inr (s', True)" "returned s b L x p s'"
      using at hit DeallocPartial_search [OF head, of p] unfolding kP by auto
    then show ?thesis by (simp add: Buffer_Deallocate_def)
  next
    case True
    then have kF: "?k = FullLists" by (simp add: class_of_def)
    have "x \<notin> set (L PartialLists)" using wf_list_disjoint [OF wf wf, of PartialLists ?k] xk kF by auto
    then have none: "dropWhile (\<lambda>y. \<not> ?in y) (L PartialLists) = []"
      using only by (auto simp: dropWhile_eq_Nil_conv slabs_of_Union)
    have "DeallocPartial b p s = Inr (s, False)"
      unfolding DeallocPartial_search [OF head] none by simp
    moreover have "\<not> Full ld \<longleftrightarrow> class_of ld \<noteq> ?k" if "\<not> Full ld" for ld
      unfolding kF using that by (simp add: class_of_def)
    note at = dealloc_at [where moves = "\<lambda>ld. \<not> Full ld", OF ok apart k p this]
    obtain s' where "DeallocFull b p s = Inr (s', True)" "returned s b L x p s'"
      using at hit DeallocFull_search [OF head, of p] unfolding kF by auto
    ultimately show ?thesis by (simp add: Buffer_Deallocate_def)
  qed
qed

section \<open>A slab buffer is a page source\<close>

lemma links_unique:
  "links nx pv s x xs h \<Longrightarrow> links nx pv s x ys h \<Longrightarrow> h \<notin> set xs \<Longrightarrow> h \<notin> set ys \<Longrightarrow> ys = xs"
proof (induction xs arbitrary: x ys)
  case Nil
  then show ?case by (cases ys) auto
next
  case (Cons z zs)
  then show ?case by (cases ys) auto
qed

lemma rlist_unique:
  assumes "rlist d h xs" "rlist d h ys"
  shows "ys = xs"
proof (cases xs; cases ys)
  fix x xs' y ys' assume eq: "xs = x # xs'" "ys = y # ys'"
  with assms have "x = h" "y = h" and r: "ld_ring d (h # xs')" "ld_ring d (h # ys')" by (auto simp: rlist_def)
  moreover have "ys' = xs'" by (rule links_unique [where h = h and x = h and s = d and nx = "\<lambda>d p. m_nextList (d p)" and pv = "\<lambda>d p. m_prevList (d p)"])
      (use r in \<open>simp_all add: ring_def\<close>)
  ultimately show ?thesis using eq by simp
qed (use assms in \<open>auto simp: rlist_def ring_def\<close>)

lemma buf_ok_unique:
  assumes "buf_ok s b L" "buf_ok s b L'"
  shows "L' = L"
proof
  fix k show "L' k = L k"
    by (rule rlist_unique [where d = "ss_lds s" and h = "list_head k (ss_bufs s b)"]) (use assms in \<open>simp_all add: buf_ok_def wf_list_def\<close>)
qed

definition buf_inv :: "addr \<Rightarrow> slab_store \<Rightarrow> bool" where
  "buf_inv b s \<longleftrightarrow> (\<exists>L. buf_ok s b L \<and> slabs_apart (ss_lds s) (slabs_of L))"

definition buf_free :: "addr \<Rightarrow> slab_store \<Rightarrow> addr set" where
  "buf_free b s = {p. \<exists>L x. buf_ok s b L \<and> x \<in> slabs_of L \<and> p \<in> slab_free (ss_mem s) (ss_lds s x)}"

definition buf_object :: "addr \<Rightarrow> slab_store \<Rightarrow> addr \<Rightarrow> bool" where
  "buf_object b s p \<longleftrightarrow> (\<exists>L x. buf_ok s b L \<and> x \<in> slabs_of L \<and> slab_object (ss_lds s x) p)"

lemma buf_free_eq:
  assumes "buf_ok s b L"
  shows "buf_free b s = (\<Union>x \<in> slabs_of L. slab_free (ss_mem s) (ss_lds s x))"
proof -
  have "buf_ok s b L' \<longleftrightarrow> L' = L" for L' using buf_ok_unique [OF assms] assms by blast
  then show ?thesis by (auto simp: buf_free_def)
qed

lemma buf_ok_slab:
  assumes "buf_ok s b L" "x \<in> slabs_of L"
  shows "wf_slab_in s b (class_of (ss_lds s x)) x" "x \<in> set (L (class_of (ss_lds s x)))"
  using assms by (auto simp: buf_ok_def wf_list_def slabs_of_Union wf_slab_in_def)

lemma slab_free_facts:
  assumes "slab_wf m ld"
  shows "finite (slab_free m ld)" "p \<in> slab_free m ld \<Longrightarrow> p \<noteq> 0 \<and> ObjectInRange ld p"
    "slab_free m ld = {} \<longleftrightarrow> Full ld"
proof -
  obtain fs where ok: "slab_ok m ld fs" using assms by (auto simp: slab_wf_def)
  note eq = slab_free_eq [OF ok]
  show "finite (slab_free m ld)" by (simp add: eq)
  show "p \<in> slab_free m ld \<Longrightarrow> p \<noteq> 0 \<and> ObjectInRange ld p"
    using slab_slots_facts(3) [of ld p] ok eq by (auto simp: slab_ok_def)
  show "slab_free m ld = {} \<longleftrightarrow> Full ld"
    using ok by (auto simp: eq slab_ok_def Full_def word_unat_eq_iff card_eq_0_iff)
qed


lemma slabs_apart_geometry:
  assumes "\<And>x. x \<in> X \<Longrightarrow> same_geometry (d' x) (d x)" "slabs_apart d X"
  shows "slabs_apart d' X"
proof -
  have "Base (d' x) = Base (d x)" "Limit (d' x) = Limit (d x)" if "x \<in> X" for x
    using same_geometryD(1,2) [OF assms(1) [OF that]] .
  with assms(2) show ?thesis by (simp add: slabs_apart_def)
qed

lemma buf_object_eq: "buf_ok s b L \<Longrightarrow> buf_object b s p \<longleftrightarrow> (\<exists>x \<in> slabs_of L. slab_object (ss_lds s x) p)"
  using buf_ok_unique [of s b L] unfolding buf_object_def by blast

lemma free_one_slab:
  assumes ok: "buf_ok s b L" and apart: "slabs_apart (ss_lds s) (slabs_of L)" and x: "x \<in> slabs_of L"
    and s': "buf_ok s' b (refile s s' x L)" "\<forall>y \<in> slabs_of L. same_geometry (ss_lds s' y) (ss_lds s y)"
      "\<forall>y \<in> slabs_of L - {x}. slab_free (ss_mem s') (ss_lds s' y) = slab_free (ss_mem s) (ss_lds s y)"
  shows "buf_inv b s'" "buf_object b s' = buf_object b s"
    "buf_free b s' = slab_free (ss_mem s') (ss_lds s' x) \<union> (buf_free b s - slab_free (ss_mem s) (ss_lds s x))"
proof -
  have same: "slabs_of (refile s s' x L) = slabs_of L" by (rule slabs_of_refile [where L = L, OF buf_ok_slab(2) [OF ok x]])
  have "slabs_apart (ss_lds s') (slabs_of L)" by (rule slabs_apart_geometry [OF _ apart]) (use s'(2) in blast)
  with s'(1) same show "buf_inv b s'" unfolding buf_inv_def by metis
  have "slab_object (ss_lds s' y) q = slab_object (ss_lds s y) q" if "y \<in> slabs_of L" for y q
    using same_geometryD(5) [OF s'(2) [rule_format, OF that]] by (simp add: slab_object_def)
  then show "buf_object b s' = buf_object b s"
    by (simp add: fun_eq_iff buf_object_eq [OF ok] buf_object_eq [OF s'(1)] same)
  have disj: "slab_free (ss_mem s) (ss_lds s y) \<inter> slab_free (ss_mem s) (ss_lds s x) = {}" if "y \<in> slabs_of L - {x}" for y
  proof -
    have "slab_wf (ss_mem s) (ss_lds s y)" "slab_wf (ss_mem s) (ss_lds s x)"
      using buf_ok_slab(1) [OF ok] x that by (auto simp: wf_slab_in_def)
    then show ?thesis using slab_free_facts(2) slabs_apart_range [OF apart, of y x] x that by blast
  qed
  have "buf_free b s' = (\<Union>y \<in> slabs_of L. slab_free (ss_mem s') (ss_lds s' y))"
    using buf_free_eq [OF s'(1)] same by simp
  also have "\<dots> = slab_free (ss_mem s') (ss_lds s' x) \<union> (\<Union>y \<in> slabs_of L - {x}. slab_free (ss_mem s) (ss_lds s y))"
    using x s'(3) by auto
  also have "(\<Union>y \<in> slabs_of L - {x}. slab_free (ss_mem s) (ss_lds s y)) = buf_free b s - slab_free (ss_mem s) (ss_lds s x)"
    using disj x unfolding buf_free_eq [OF ok] by blast
  finally show "buf_free b s' = slab_free (ss_mem s') (ss_lds s' x) \<union> (buf_free b s - slab_free (ss_mem s) (ss_lds s x))" .
qed

lemma full_buffer:
  assumes "buf_ok s b L" "buf_free b s = {}"
  shows "L PartialLists @ L FreeLists = []"
proof -
  have "L k = []" if k: "k \<noteq> FullLists" for k
  proof (rule ccontr)
    assume "L k \<noteq> []"
    then obtain x where x: "x \<in> set (L k)" by (cases "L k") auto
    then have w: "wf_slab_in s b k x" and m: "x \<in> slabs_of L"
      using assms(1) by (auto simp: buf_ok_def wf_list_def slabs_of_Union)
    then have "slab_free (ss_mem s) (ss_lds s x) = {}" using assms(2) buf_free_eq [OF assms(1)] by blast
    then show False using w k slab_free_facts(3) [of "ss_mem s" "ss_lds s x"] by (auto simp: wf_slab_in_def class_of_def)
  qed
  then show ?thesis by simp
qed

lemma buf_allocates:
  assumes ok: "buf_ok s b L" and apart: "slabs_apart (ss_lds s) (slabs_of L)" and ne: "buf_free b s \<noteq> {}"
  shows "\<exists>s' p. Buffer_Allocate b s = Inr (s', p) \<and> p \<in> buf_free b s \<and> buf_inv b s' \<and>
           buf_object b s' = buf_object b s \<and> buf_free b s' = buf_free b s - {p}"
proof -
  note eq = buf_free_eq [OF ok]
  obtain x where x: "x \<in> slabs_of L" "slab_free (ss_mem s) (ss_lds s x) \<noteq> {}" using ne eq by blast
  then have "\<not> Full (ss_lds s x)"
    using buf_ok_slab(1) [OF ok x(1)] slab_free_facts(3) [of "ss_mem s" "ss_lds s x"] by (simp add: wf_slab_in_def)
  then have "x \<in> set (L PartialLists @ L FreeLists)"
    using buf_ok_slab(2) [OF ok x(1)] by (auto simp: class_of_def split: if_splits)
  then obtain h hs where h: "L PartialLists @ L FreeLists = h # hs" by (cases "L PartialLists @ L FreeLists") auto
  then have "h \<in> set (L PartialLists @ L FreeLists)" by simp
  then have hL: "h \<in> slabs_of L" by (auto simp: slabs_of_def)
  from Buffer_Allocate_ok [OF ok] h obtain s' p where r: "Buffer_Allocate b s = Inr (s', p)" "allocated s b L h p s'"
    by auto
  note a = r(2) [unfolded allocated_def]
  have "slab_free (ss_mem s') (ss_lds s' y) = slab_free (ss_mem s) (ss_lds s y)" if "y \<noteq> h" for y
    using a that slab_free_payload [of "ss_lds s' y" "ss_lds s y"] by simp
  moreover have "same_geometry (ss_lds s' y) (ss_lds s y)" for y
    using a payload_same_geometry by (cases "y = h") auto
  ultimately have "buf_inv b s'" "buf_object b s' = buf_object b s" "buf_free b s' = slab_free (ss_mem s') (ss_lds s' h) \<union>
      (buf_free b s - slab_free (ss_mem s) (ss_lds s h))"
    using free_one_slab [OF ok apart hL, of s'] a by blast+
  moreover have "p \<in> slab_free (ss_mem s) (ss_lds s h)" "slab_free (ss_mem s) (ss_lds s h) \<subseteq> buf_free b s"
    using a hL eq by blast+
  moreover have "slab_free (ss_mem s') (ss_lds s' h) = slab_free (ss_mem s) (ss_lds s h) - {p}" using a by blast
  ultimately show ?thesis using r(1) by blast
qed

lemma buf_deallocates:
  assumes ok: "buf_ok s b L" and apart: "slabs_apart (ss_lds s) (slabs_of L)" and p: "p \<notin> buf_free b s" "buf_object b s p"
  shows "\<exists>s'. Buffer_Deallocate b p s = Inr s' \<and> buf_inv b s' \<and> buf_object b s' = buf_object b s \<and>
           buf_free b s' = insert p (buf_free b s)"
proof -
  note eq = buf_free_eq [OF ok]
  obtain x where x: "x \<in> slabs_of L" "slab_object (ss_lds s x) p"
    using p(2) buf_ok_unique [OF ok] by (auto simp: buf_object_def)
  then have "p \<notin> slab_free (ss_mem s) (ss_lds s x)" using p(1) eq by blast
  from Buffer_Deallocate_ok [OF ok apart x this] obtain s' where
      r: "Buffer_Deallocate b p s = Inr s'" "returned s b L x p s'" by blast
  note a = r(2) [unfolded returned_def]
  have "same_geometry (ss_lds s' y) (ss_lds s y)" for y using a payload_same_geometry by (cases "y = x") auto
  then have "buf_inv b s'" "buf_object b s' = buf_object b s" "buf_free b s' = slab_free (ss_mem s') (ss_lds s' x) \<union>
      (buf_free b s - slab_free (ss_mem s) (ss_lds s x))"
    using free_one_slab [OF ok apart x(1), of s'] a by blast+
  moreover have "slab_free (ss_mem s) (ss_lds s x) \<subseteq> buf_free b s" using x(1) eq by blast
  moreover have "slab_free (ss_mem s') (ss_lds s' x) = insert p (slab_free (ss_mem s) (ss_lds s x))" using a by blast
  ultimately show ?thesis using r(1) by auto
qed

interpretation buf: page_source "Buffer_Allocate b" "Buffer_Deallocate b" "buf_inv b" "buf_free b" "buf_object b" for b
proof unfold_locales
  fix s assume "buf_inv b s"
  then obtain L where ok: "buf_ok s b L" and apart: "slabs_apart (ss_lds s) (slabs_of L)" by (auto simp: buf_inv_def)
  note eq = buf_free_eq [OF ok]
  have wf: "slab_wf (ss_mem s) (ss_lds s x)" if "x \<in> slabs_of L" for x
    using buf_ok_slab(1) [OF ok that] by (simp add: wf_slab_in_def)
  show "0 \<notin> buf_free b s" using slab_free_facts(2) [OF wf] eq by blast
  show "finite (buf_free b s)"
    unfolding eq using slab_free_facts(1) [OF wf] by (intro finite_UN_I) (auto simp: slabs_of_def)
  show "Buffer_Allocate b s = Inr (s, 0)" if "buf_free b s = {}"
    using Buffer_Allocate_ok [OF ok] full_buffer [OF ok that] by simp
  show "\<exists>s' p. Buffer_Allocate b s = Inr (s', p) \<and> p \<in> buf_free b s \<and> buf_inv b s' \<and> buf_free b s' = buf_free b s - {p}"
    if "buf_free b s \<noteq> {}"
    using buf_allocates [OF ok apart that] by blast
  show "\<exists>s'. Buffer_Deallocate b p s = Inr s' \<and> buf_inv b s' \<and> buf_free b s' = insert p (buf_free b s)"
    if "p \<notin> buf_free b s" "buf_object b s p" for p
    using buf_deallocates [OF ok apart that] by blast
qed

section \<open>Clients of a buffer\<close>

lemma slots_from_image: "set (slots_from a sz n) = (\<lambda>i. a + of_nat i * sz) ` {..<n}"
proof (induction n)
  case (Suc n)
  then show ?case by (simp add: slots_from_Suc lessThan_Suc del: slots_from.simps)
qed simp

text \<open>No other cell starts inside a buffer of the slab.\<close>

lemma slot_gap:
  assumes g: "slab_geometry ld" and p: "p \<in> set (slab_slots ld)" and a: "a \<in> set (slab_cells ld)"
    and le: "unat p \<le> unat a" "unat a < unat p + unat (m_bufferSize ld)"
  shows "a = p"
proof -
  let ?t = "unat (m_totalBuffers ld)" and ?b = "unat (m_bufferSize ld)"
  have cell: "\<exists>j \<le> ?t. c = m_baseAddress ld + of_nat j * ucast (m_bufferSize ld)" if "c \<in> set (slab_cells ld)" for c
  proof -
    have "c = slab_tail ld \<or> c \<in> set (slab_slots ld)" using that slab_cells_subset(1) [of ld] by blast
    then show ?thesis unfolding slab_slots_def slots_from_image slab_tail_def by (auto intro: less_imp_le)
  qed
  obtain i where i: "i \<le> ?t" "p = m_baseAddress ld + of_nat i * ucast (m_bufferSize ld)"
    using cell p slab_cells_subset(2) by blast
  obtain j where j: "j \<le> ?t" "a = m_baseAddress ld + of_nat j * ucast (m_bufferSize ld)" using cell a by blast
  have "unat p = unat (m_baseAddress ld) + i * ?b" "unat a = unat (m_baseAddress ld) + j * ?b"
    unfolding i(2) j(2) by (rule slab_total_unat(2) [OF g]; fact)+
  with le have ij: "i * ?b \<le> j * ?b" "j * ?b < Suc i * ?b" by simp_all
  have "0 < ?b" using g by (simp add: slab_geometry_def)
  with ij(1) have "i \<le> j" by simp
  moreover have "j < Suc i" using ij(2) by (simp only: mult_less_cancel2)
  ultimately have "i \<le> j" "j < Suc i" by simp_all
  then show ?thesis using i(2) j(2) by (simp add: le_antisym less_Suc_eq_le)
qed

lemma object_in_range:
  assumes g: "slab_geometry ld" and p: "p \<in> set (slab_slots ld)"
    and a: "unat p \<le> unat a" "unat a < unat p + unat (m_bufferSize ld)"
  shows "ObjectInRange ld a"
proof -
  have "unat (m_baseAddress ld) \<le> unat p \<and> unat p + unat (m_bufferSize ld)
      \<le> unat (m_baseAddress ld) + unat (m_totalBuffers ld) * unat (m_bufferSize ld)"
    using slots_bounds [of p _ "ucast (m_bufferSize ld)"] p slab_total_unat(1) [OF g order_refl]
    by (simp add: slab_slots_def)
  then show ?thesis
    using a slab_size_bound [OF g] slab_limit_unat [OF g]
    by (simp add: ObjectInRange_def Base_def word_le_nat_alt word_less_nat_alt)
qed

text \<open>
  A client allocates an object, writes into an object it owns, or returns one.
\<close>

type_synonym buffer_client = "slab_store \<times> addr set"

inductive buffer_step :: "addr \<Rightarrow> buffer_client \<Rightarrow> buffer_client \<Rightarrow> bool" for b where
  client_alloc: "Buffer_Allocate b s = Inr (s', p) \<Longrightarrow> p \<noteq> 0 \<Longrightarrow> buffer_step b (s, own) (s', insert p own)"
| client_write: "p \<in> own \<Longrightarrow> unat p \<le> unat a \<Longrightarrow> unat a < unat p + unat (b_bufferSize (ss_bufs s b)) \<Longrightarrow>
    buffer_step b (s, own) (s\<lparr>ss_mem := (ss_mem s)(a := v)\<rparr>, own)"
| client_free: "p \<in> own \<Longrightarrow> Buffer_Deallocate b p s = Inr s' \<Longrightarrow> buffer_step b (s, own) (s', own - {p})"

definition client_inv :: "addr \<Rightarrow> addr set \<Rightarrow> buffer_client \<Rightarrow> bool" where
  "client_inv b U st \<longleftrightarrow> buf_inv b (fst st) \<and> (\<forall>p \<in> U. buf_object b (fst st) p) \<and>
     snd st \<inter> buf_free b (fst st) = {} \<and> snd st \<union> buf_free b (fst st) = U"

lemma slab_ok_write: "slab_ok m ld fs \<Longrightarrow> a \<notin> set fs \<Longrightarrow> slab_ok (m(a := v)) ld fs"
  by (simp add: slab_ok_def)

lemma slab_write:
  assumes wf: "slab_wf m ld" and a: "\<And>fs. slab_ok m ld fs \<Longrightarrow> a \<notin> set fs"
  shows "slab_wf (m(a := v)) ld" "slab_free (m(a := v)) ld = slab_free m ld"
proof -
  obtain fs where ok: "slab_ok m ld fs" using wf by (auto simp: slab_wf_def)
  have ok': "slab_ok (m(a := v)) ld fs" by (rule slab_ok_write [OF ok a [OF ok]])
  then show "slab_wf (m(a := v)) ld" by (auto simp: slab_wf_def)
  show "slab_free (m(a := v)) ld = slab_free m ld" using slab_free_eq [OF ok] slab_free_eq [OF ok'] by simp
qed

lemma buffer_write:
  assumes ok: "buf_ok s b L" and apart: "slabs_apart (ss_lds s) (slabs_of L)"
    and p: "x \<in> slabs_of L" "slab_object (ss_lds s x) p" "p \<notin> buf_free b s"
    and a: "unat p \<le> unat a" "unat a < unat p + unat (b_bufferSize (ss_bufs s b))"
  shows "buf_ok (s\<lparr>ss_mem := (ss_mem s)(a := v)\<rparr>) b L"
    "buf_free b (s\<lparr>ss_mem := (ss_mem s)(a := v)\<rparr>) = buf_free b s"
proof -
  let ?s = "s\<lparr>ss_mem := (ss_mem s)(a := v)\<rparr>"
  have wf: "slab_wf (ss_mem s) (ss_lds s y)" "m_bufferSize (ss_lds s y) = b_bufferSize (ss_bufs s b)"
    if "y \<in> slabs_of L" for y using buf_ok_slab(1) [OF ok that] by (simp_all add: wf_slab_in_def)
  have outside: "a \<notin> set fs" if y: "y \<in> slabs_of L" "slab_ok (ss_mem s) (ss_lds s y) fs" for y fs
  proof
    assume afs: "a \<in> set fs"
    have g: "slab_geometry (ss_lds s y)" "a \<in> set (slab_cells (ss_lds s y))" using y(2) afs by (auto simp: slab_ok_def)
    have gx: "slab_geometry (ss_lds s x)" using wf(1) [OF p(1)] by (auto simp: slab_wf_def slab_ok_def)
    have ps: "p \<in> set (slab_slots (ss_lds s x))" using p(2) by (simp add: slab_object_def)
    have "ObjectInRange (ss_lds s x) a" using object_in_range [OF gx ps] a wf(2) [OF p(1)] by simp
    then have "y = x" using slabs_apart_range [OF apart y(1) p(1)] slab_cells_in_range [OF g] by blast
    with slot_gap [OF gx ps] g a wf(2) [OF p(1)] have "a = p" by simp
    with afs y \<open>y = x\<close> ps have "p \<in> slab_free (ss_mem s) (ss_lds s x)" by (simp add: slab_free_eq)
    then show False using p(1,3) buf_free_eq [OF ok] by blast
  qed
  note w = slab_write [OF wf(1) outside]
  have "wf_slab_in ?s b k y" if "y \<in> slabs_of L" "wf_slab_in s b k y" for k y
    using that w(1) by (simp add: wf_slab_in_def)
  then have "wf_list ?s b k (L k)" for k
    using ok by (fastforce simp: buf_ok_def wf_list_def slabs_of_Union)
  then show ok': "buf_ok ?s b L" by (simp add: buf_ok_def)
  show "buf_free b ?s = buf_free b s"
    unfolding buf_free_eq [OF ok] buf_free_eq [OF ok'] by (rule SUP_cong) (simp_all add: w(2))
qed

lemma client_step_inv:
  assumes "buffer_step b st st'" "client_inv b U st"
  shows "client_inv b U st'"
  using assms
proof (cases rule: buffer_step.cases)
  case (client_alloc s s' p own)
  then obtain L where ok: "buf_ok s b L" and apart: "slabs_apart (ss_lds s) (slabs_of L)"
    using assms(2) by (auto simp: client_inv_def buf_inv_def)
  have "buf_inv b s" using ok apart by (auto simp: buf_inv_def)
  with client_alloc buf.alloc_cases have "buf_free b s \<noteq> {}" by blast
  from buf_allocates [OF ok apart this] client_alloc(3) have
      "p \<in> buf_free b s" "buf_inv b s'" "buf_object b s' = buf_object b s" "buf_free b s' = buf_free b s - {p}" by auto
  with client_alloc assms(2) show ?thesis by (auto simp: client_inv_def)
next
  case (client_write p own a s v)
  then obtain L where ok: "buf_ok s b L" and apart: "slabs_apart (ss_lds s) (slabs_of L)"
    using assms(2) by (auto simp: client_inv_def buf_inv_def)
  have "buf_object b s p" "p \<notin> buf_free b s" using assms(2) client_write by (auto simp: client_inv_def)
  then obtain x where x: "x \<in> slabs_of L" "slab_object (ss_lds s x) p" "p \<notin> buf_free b s"
    using buf_object_eq [OF ok] by blast
  note w = buffer_write [OF ok apart x client_write(4,5), of v]
  have "buf_object b (s\<lparr>ss_mem := (ss_mem s)(a := v)\<rparr>) = buf_object b s"
    by (simp add: fun_eq_iff buf_object_eq [OF ok] buf_object_eq [OF w(1)])
  then show ?thesis using assms(2) w apart client_write by (auto simp: client_inv_def buf_inv_def)
next
  case (client_free p own s s')
  then obtain L where ok: "buf_ok s b L" and apart: "slabs_apart (ss_lds s) (slabs_of L)"
    using assms(2) by (auto simp: client_inv_def buf_inv_def)
  have "p \<notin> buf_free b s" "buf_object b s p" using assms(2) client_free by (auto simp: client_inv_def)
  from buf_deallocates [OF ok apart this] client_free(4) have
      "buf_inv b s'" "buf_object b s' = buf_object b s" "buf_free b s' = insert p (buf_free b s)" by auto
  with client_free assms(2) show ?thesis by (auto simp: client_inv_def)
qed

lemma client_reachable_inv: "(buffer_step b)\<^sup>*\<^sup>* st st' \<Longrightarrow> client_inv b U st \<Longrightarrow> client_inv b U st'"
  by (induction rule: rtranclp_induct) (auto intro: client_step_inv)

lemma slab_free_objects: "slab_free m ld \<subseteq> {p. slab_object ld p}"
  by (auto simp: slab_free_def slab_object_def)

lemma client_start:
  assumes "buf_ok s b L" "slabs_apart (ss_lds s) (slabs_of L)"
  shows "client_inv b (buf_free b s) (s, {})"
proof -
  have "buf_object b s p" if "p \<in> buf_free b s" for p
    using that slab_free_objects unfolding buf_object_eq [OF assms(1)] buf_free_eq [OF assms(1)] by blast
  then show ?thesis using assms by (auto simp: client_inv_def buf_inv_def)
qed

section \<open>Properties\<close>

text \<open>
  C12. Returning an object that is allocated from a slab of the buffer puts exactly this object back into the free
  set of its slab, whichever list the slab is on; the slab moves to the end of the list of its new fill level, no other
  slab changes, and no word outside the slab is written.
\<close>

theorem Buffer_Deallocate_returns_object:
  assumes "buf_ok s b L" "slabs_apart (ss_lds s) (slabs_of L)" "x \<in> slabs_of L"
    and "slab_object (ss_lds s x) p" "p \<notin> slab_free (ss_mem s) (ss_lds s x)"
  shows "\<exists>s'. Buffer_Deallocate b p s = Inr s' \<and> returned s b L x p s'"
  by (rule Buffer_Deallocate_ok [OF assms])

theorem Buffer_Deallocate_returns_object_witness:
  "\<exists>s s1 s2 p. Buffer_Allocate 0x8000 s = Inr (s1, p) \<and> Buffer_Deallocate 0x8000 p s1 = Inr s2 \<and>
     p \<in> slab_free (ss_mem s2) (ss_lds s2 0x9000)"
proof -
  obtain s where s: "buf_ok s 0x8000 (\<lambda>k. if k = FreeLists then [0x9000] else [])" using example_buffer by blast
  let ?L = "\<lambda>k. if k = FreeLists then [0x9000 :: addr] else []"
  obtain s1 p where s1: "Buffer_Allocate 0x8000 s = Inr (s1, p)" "allocated s 0x8000 ?L 0x9000 p s1"
    using Buffer_Allocate_ok [OF s] by auto
  let ?L1 = "refile s s1 0x9000 ?L"
  have "0x9000 \<in> slabs_of ?L" by (simp add: slabs_of_def)
  note m = buf_ok_slab [OF s this]
  have eq: "slabs_of ?L1 = {0x9000}" using slabs_of_refile [where L = ?L, OF m(2)] by (simp add: slabs_of_def)
  have "p \<in> slab_free (ss_mem s) (ss_lds s 0x9000)" "same_geometry (ss_lds s1 0x9000) (ss_lds s 0x9000)"
    using allocatedD(2,7) [OF s1(2)] .
  then have "slab_object (ss_lds s1 0x9000) p"
    using slab_free_objects same_geometryD(5) [of "ss_lds s1 0x9000"] by (auto simp: slab_object_def)
  moreover have "p \<notin> slab_free (ss_mem s1) (ss_lds s1 0x9000)" "buf_ok s1 0x8000 ?L1"
    using allocatedD(4,9) [OF s1(2)] by blast+
  moreover have "slabs_apart (ss_lds s1) (slabs_of ?L1)" "0x9000 \<in> slabs_of ?L1" using eq by (simp_all add: slabs_apart_def)
  ultimately obtain s2 where s2: "Buffer_Deallocate 0x8000 p s1 = Inr s2" "returned s1 0x8000 ?L1 0x9000 p s2"
    using Buffer_Deallocate_returns_object by meson
  then have "p \<in> slab_free (ss_mem s2) (ss_lds s2 0x9000)" by (simp add: returned_def)
  with s1(1) s2(1) show ?thesis by blast
qed

text \<open>
  C13. However clients allocate, write inside the objects they own and return objects, no object is lost or owned
  twice: the objects owned and the free ones are disjoint and together those that were free at the start, allocation
  never fails while one is free, and an owner can always return its object.
\<close>

theorem buffer_objects_conserved:
  assumes "buf_ok s b L" "slabs_apart (ss_lds s) (slabs_of L)" "(buffer_step b)\<^sup>*\<^sup>* (s, {}) (s', own)"
  shows "own \<inter> buf_free b s' = {} \<and> own \<union> buf_free b s' = buf_free b s \<and>
         (\<exists>s'' p. Buffer_Allocate b s' = Inr (s'', p) \<and> p \<notin> own \<and> (p = 0 \<longleftrightarrow> buf_free b s' = {})) \<and>
         (\<forall>p \<in> own. \<exists>s''. Buffer_Deallocate b p s' = Inr s'')"
proof -
  have inv: "client_inv b (buf_free b s) (s', own)"
    by (rule client_reachable_inv [OF assms(3) client_start [OF assms(1,2)]])
  then have bi: "buf_inv b s'" by (simp add: client_inv_def)
  have zero: "0 \<notin> buf_free b s" using assms(1,2) by (intro buf.free_nonnull) (auto simp: buf_inv_def)
  have "\<exists>s'' p. Buffer_Allocate b s' = Inr (s'', p) \<and> p \<notin> own \<and> (p = 0 \<longleftrightarrow> buf_free b s' = {})"
    using buf.alloc_none [OF bi] buf.alloc_some [OF bi] buf.free_nonnull [OF bi] inv zero
    by (cases "buf_free b s' = {}") (auto simp: client_inv_def)
  moreover have "\<forall>p \<in> own. \<exists>s''. Buffer_Deallocate b p s' = Inr s''"
  proof
    fix p assume "p \<in> own"
    with inv zero have "p \<noteq> 0" "p \<notin> buf_free b s'" "buf_object b s' p" by (auto simp: client_inv_def)
    from buf.dealloc_page [OF bi this] show "\<exists>s''. Buffer_Deallocate b p s' = Inr s''" by blast
  qed
  ultimately show ?thesis using inv by (simp add: client_inv_def)
qed

theorem buffer_objects_conserved_witness:
  "\<exists>s s' s'' p. Buffer_Allocate 0x8000 s = Inr (s', p) \<and> p \<in> buf_free 0x8000 s \<and> p \<notin> buf_free 0x8000 s' \<and>
     Buffer_Deallocate 0x8000 p s' = Inr s''"
proof -
  let ?L = "\<lambda>k. if k = FreeLists then [0x9000 :: addr] else []"
  obtain s where s: "buf_ok s 0x8000 ?L" using example_buffer by blast
  have apart: "slabs_apart (ss_lds s) (slabs_of ?L)" by (simp add: slabs_apart_def slabs_of_def)
  obtain s' p where s': "Buffer_Allocate 0x8000 s = Inr (s', p)" "allocated s 0x8000 ?L 0x9000 p s'"
    using Buffer_Allocate_ok [OF s] by auto
  then have "p \<noteq> 0" by (intro allocatedD(1))
  with client_alloc [OF s'(1)] have "(buffer_step 0x8000)\<^sup>*\<^sup>* (s, {}) (s', {p})" by (intro r_into_rtranclp) simp
  note c = buffer_objects_conserved [OF s apart this]
  then have "p \<in> buf_free 0x8000 s" "p \<notin> buf_free 0x8000 s'" by auto
  moreover obtain s'' where "Buffer_Deallocate 0x8000 p s' = Inr s''" using c by auto
  ultimately show ?thesis using s'(1) by (intro exI conjI)
qed

end
