(* ===== verification/Slab_Allocator.thy ===== *)
theory Slab_Allocator
  imports Slab_Buffer_Inv
begin

text \<open>
  The front end of the slab heap (\<open>kernel/src/kheap/slab/allocator\<close>): a circular list of buffers, one per
  object size, that starts at the embedded 64-byte buffer.  The page allocator's \<open>palloc\<close> and the stack
  address of the temporary descriptor are parameters.
\<close>

section \<open>State and lookup\<close>

record slab_allocator =
  al_store :: slab_store
  m_buffer64 :: addr
  m_lowAddrBuffer :: addr

text \<open>The search visits the buffers from the 64-byte one until it comes back to it.\<close>

fun get_buffer_loop :: "nat \<Rightarrow> addr \<Rightarrow> u16 \<Rightarrow> addr \<Rightarrow> bufs \<Rightarrow> addr result" where
  "get_buffer_loop 0 first sz it d = Inl Diverges"
| "get_buffer_loop (Suc n) first sz it d =
     rbind (guard_ptr it) (\<lambda>_.
       if b_bufferSize (d it) = sz then Inr it
       else let it = b_nextBuffer (d it)
            in if it \<noteq> first then get_buffer_loop n first sz it d else Inr 0)"

definition GetBuffer :: "u16 \<Rightarrow> slab_allocator \<Rightarrow> addr result" where
  "GetBuffer sz a = get_buffer_loop walk_fuel (m_buffer64 a) sz (m_buffer64 a) (ss_bufs (al_store a))"

definition BufferExists :: "u16 \<Rightarrow> slab_allocator \<Rightarrow> bool result" where
  "BufferExists sz a = rbind (GetBuffer sz a) (\<lambda>b. Inr (b \<noteq> 0))"

definition Allocator_AddBuffer :: "addr \<Rightarrow> slab_allocator \<Rightarrow> slab_allocator result" where
  "Allocator_AddBuffer buffer a =
     rbind (AddBuffer (m_buffer64 a) buffer (ss_bufs (al_store a))) (\<lambda>d.
       Inr (a\<lparr>al_store := (al_store a)\<lparr>ss_bufs := d\<rparr>\<rparr>))"

definition AddListDescriptor :: "addr \<Rightarrow> slab_allocator \<Rightarrow> slab_allocator result" where
  "AddListDescriptor ld a =
     rbind (guard_ptr ld) (\<lambda>_.
       rbind (GetBuffer (BufferSize (ss_lds (al_store a) ld)) a) (\<lambda>buf.
         if buf = 0 then Inr a
         else rbind (Buffer_AddList buf ld (al_store a)) (\<lambda>s. Inr (a\<lparr>al_store := s\<rparr>))))"

text \<open>\<open>RemoveBuffer\<close> runs the destructor, which takes the buffer out of the circular list.\<close>

definition RemoveBuffer :: "addr \<Rightarrow> slab_allocator \<Rightarrow> slab_allocator result" where
  "RemoveBuffer buffer a =
     rbind (guard_ptr buffer) (\<lambda>_.
       rbind (Buffer_ExtractSelf buffer (ss_bufs (al_store a))) (\<lambda>(d, _).
         Inr (a\<lparr>al_store := (al_store a)\<lparr>ss_bufs := d\<rparr>\<rparr>)))"

section \<open>Creating buffers and slabs\<close>

definition alloc64 :: "slab_allocator \<Rightarrow> (slab_allocator \<times> addr) result" where
  "alloc64 a = rbind (Buffer_Allocate (m_buffer64 a) (al_store a)) (\<lambda>(s, p). Inr (a\<lparr>al_store := s\<rparr>, p))"

definition NewBuffer :: "u16 \<Rightarrow> slab_allocator \<Rightarrow> (slab_allocator \<times> addr) result" where
  "NewBuffer bufferSize a =
     rbind (BufferExists bufferSize a) (\<lambda>ex.
       if ex then Inr (a, 0)
       else rbind (alloc64 a) (\<lambda>(a, pbuffer). rbind (guard_ptr pbuffer) (\<lambda>_.
              let a = a\<lparr>al_store := upd_buf pbuffer (\<lambda>_. new_Buffer pbuffer bufferSize) (al_store a)\<rparr>
              in rbind (Allocator_AddBuffer pbuffer a) (\<lambda>a. Inr (a, pbuffer)))))"

definition NewListDescriptor_at :: "addr \<Rightarrow> u16 \<Rightarrow> u8 \<Rightarrow> slab_allocator \<Rightarrow> (slab_allocator \<times> addr) result" where
  "NewListDescriptor_at baseAddr bufferSize pages a =
     rbind (alloc64 a) (\<lambda>(a, list). rbind (guard_ptr list) (\<lambda>_.
       rbind (SetupLinkage (ss_mem (al_store a)) (new_ListDescriptor list baseAddr bufferSize pages))
         (\<lambda>(m, ld).
            let a = a\<lparr>al_store := (al_store a)\<lparr>ss_mem := m, ss_lds := (ss_lds (al_store a))(list := ld)\<rparr>\<rparr>
            in rbind (AddListDescriptor list a) (\<lambda>a. Inr (a, list)))))"

definition NewListDescriptor ::
    "(slab_allocator \<Rightarrow> (slab_allocator \<times> addr) result) \<Rightarrow> u16 \<Rightarrow> u8 \<Rightarrow> slab_allocator \<Rightarrow>
     (slab_allocator \<times> addr) result" where
  "NewListDescriptor palloc bufferSize pages a =
     rbind (palloc a) (\<lambda>(a, baseAddr). NewListDescriptor_at baseAddr bufferSize pages a)"

section \<open>Initialisation\<close>

text \<open>
  The first slab is described by a local variable at \<open>frame\<close>, which is moved into the slab's first
  buffer and destroyed when the function returns: its destructor runs \<open>ExtractSelf\<close>.
\<close>

definition InitialiseLists :: "addr \<Rightarrow> addr \<Rightarrow> slab_allocator \<Rightarrow> slab_allocator result" where
  "InitialiseLists frame initialAddr a =
     (let s = al_store a in
      rbind (SetupLinkage (ss_mem s) (new_ListDescriptor frame initialAddr 64 1)) (\<lambda>(m, ld).
        rbind (Allocate m ld) (\<lambda>(ld, onList64).
          let d = move_assign onList64 frame ((ss_lds s)(frame := ld))
          in rbind (rassert (onList64 = initialAddr)) (\<lambda>_.
               rbind (Buffer_AddList (m_buffer64 a) onList64 (s\<lparr>ss_mem := m, ss_lds := d\<rparr>)) (\<lambda>s.
                 rbind (ExtractSelf frame (ss_lds s)) (\<lambda>(d, _).
                   Inr (a\<lparr>al_store := s\<lparr>ss_lds := d\<rparr>\<rparr>)))))))"

definition InitialiseLowBuffer :: "slab_allocator \<Rightarrow> slab_allocator result" where
  "InitialiseLowBuffer a =
     rbind (alloc64 a) (\<lambda>(a, p). rbind (guard_ptr p) (\<lambda>_.
       Inr (a\<lparr>al_store := upd_buf p (\<lambda>b. new_Buffer_options b 64 1) (al_store a), m_lowAddrBuffer := p\<rparr>)))"

definition Allocator_Init_at :: "addr \<Rightarrow> addr \<Rightarrow> slab_allocator \<Rightarrow> slab_allocator result" where
  "Allocator_Init_at frame baseAddr a =
     rbind (InitialiseLists frame baseAddr
              (a\<lparr>al_store := upd_buf (m_buffer64 a) (SetBufferSize 64) (al_store a)\<rparr>)) InitialiseLowBuffer"

definition Allocator_Init ::
    "(slab_allocator \<Rightarrow> (slab_allocator \<times> addr) result) \<Rightarrow> addr \<Rightarrow> slab_allocator \<Rightarrow> slab_allocator result" where
  "Allocator_Init palloc frame a =
     rbind (palloc (a\<lparr>al_store := upd_buf (m_buffer64 a) (SetBufferSize 64) (al_store a)\<rparr>)) (\<lambda>(a, baseAddr).
       rbind (InitialiseLists frame baseAddr a) (\<lambda>a.
         rbind (InitialiseLowBuffer a) (\<lambda>a.
           let b = ss_bufs (al_store a) (m_buffer64 a) in
           rbind (guard_ptr (b_partialLists b)) (\<lambda>_.
             rbind (rassert (b_bufferSize b = 64 \<and> b_partialLists b \<noteq> 0 \<and> b_freeLists b = 0 \<and>
                             b_fullLists b = 0 \<and> b_nextBuffer b = m_buffer64 a \<and>
                             b_prevBuffer b = m_buffer64 a)) (\<lambda>_. Inr a)))))"

section \<open>Objects\<close>

text \<open>The request is a 64-bit count; the buffer lookup takes its low 16 bits.\<close>

definition AllocateObject :: "u64 \<Rightarrow> slab_allocator \<Rightarrow> (slab_allocator \<times> addr) result" where
  "AllocateObject bytes a =
     rbind (GetBuffer (ucast bytes) a) (\<lambda>buf.
       if buf \<noteq> 0
       then rbind (Buffer_Allocate buf (al_store a)) (\<lambda>(s, p). Inr (a\<lparr>al_store := s\<rparr>, p))
       else rbind (NewBuffer (ucast bytes) a) (\<lambda>(a, pbuf). rbind (guard_ptr pbuf) (\<lambda>_.
              rbind (Buffer_Allocate pbuf (al_store a)) (\<lambda>(s, p). Inr (a\<lparr>al_store := s\<rparr>, p)))))"

text \<open>
  \<open>DeallocateObject\<close> iterates with range-for over \<open>begin()\<close> and \<open>end()\<close>.  Both return the object itself,
  so the loop condition \<open>it != end\<close> fails before the first iteration.  The model is that loop, for any
  increment and body.
\<close>

fun range_for :: "nat \<Rightarrow> addr \<Rightarrow> addr \<Rightarrow> (addr \<Rightarrow> addr) \<Rightarrow> (addr \<Rightarrow> 's \<Rightarrow> 's result) \<Rightarrow> 's \<Rightarrow> 's result" where
  "range_for 0 it stop inc body s = Inl Diverges"
| "range_for (Suc n) it stop inc body s =
     (if it = stop then Inr s else rbind (body it s) (range_for n (inc it) stop inc body))"

text \<open>Incrementing a pointer to a descriptor (40 bytes) or a buffer (48 bytes).\<close>

definition dealloc_in_list :: "addr \<Rightarrow> addr \<Rightarrow> slab_store \<Rightarrow> slab_store result" where
  "dealloc_in_list pobj head =
     range_for walk_fuel head head (\<lambda>p. p + 40)
       (\<lambda>ld s. if ObjectInRange (ss_lds s ld) pobj then ld_deallocate ld pobj s else Inr s)"

definition DeallocateObject :: "addr \<Rightarrow> slab_allocator \<Rightarrow> slab_allocator result" where
  "DeallocateObject pobj a =
     rbind (range_for walk_fuel (m_buffer64 a) (m_buffer64 a) (\<lambda>p. p + 48)
              (\<lambda>buf s. rbind (dealloc_in_list pobj (b_fullLists (ss_bufs s buf)) s)
                          (\<lambda>s. dealloc_in_list pobj (b_partialLists (ss_bufs s buf)) s)) (al_store a))
       (\<lambda>s. Inr (a\<lparr>al_store := s\<rparr>))"

section \<open>Lookup\<close>

lemma get_buffer_loop_finds:
  "links (\<lambda>d p. b_nextBuffer (d p)) (\<lambda>d p. b_prevBuffer (d p)) d x xs first \<Longrightarrow> 0 \<notin> set (x # xs) \<Longrightarrow>
   first \<notin> set xs \<Longrightarrow> length xs < n \<Longrightarrow>
   get_buffer_loop n first sz x d
     = Inr (case filter (\<lambda>b. b_bufferSize (d b) = sz) (x # xs) of [] \<Rightarrow> 0 | b # _ \<Rightarrow> b)"
proof (induction xs arbitrary: x n)
  case Nil
  then obtain n' where "n = Suc n'" by (cases n) auto
  with Nil show ?case by auto
next
  case (Cons y ys)
  then obtain n' where n: "n = Suc n'" by (cases n) auto
  with Cons.prems have "get_buffer_loop n' first sz y d
      = Inr (case filter (\<lambda>b. b_bufferSize (d b) = sz) (y # ys) of [] \<Rightarrow> 0 | b # _ \<Rightarrow> b)"
    by (intro Cons.IH) auto
  with Cons.prems n show ?case by auto
qed

lemma GetBuffer_ring:
  assumes "buf_ring (ss_bufs (al_store a)) (m_buffer64 a # xs)"
  shows "GetBuffer sz a = Inr (case filter (\<lambda>b. b_bufferSize (ss_bufs (al_store a) b) = sz)
           (m_buffer64 a # xs) of [] \<Rightarrow> 0 | b # _ \<Rightarrow> b)"
proof -
  have "length xs < walk_fuel"
    using assms distinct_length_walk_fuel [of "m_buffer64 a # xs"] by (auto simp: ring_def)
  with assms show ?thesis
    unfolding GetBuffer_def by (intro get_buffer_loop_finds) (auto simp: ring_def)
qed

lemma AddBuffer_payload:
  "AddBuffer x src d = Inr d' \<Longrightarrow> b_bufferSize (d' q) = b_bufferSize (d q) \<and>
     b_partialLists (d' q) = b_partialLists (d q) \<and> b_freeLists (d' q) = b_freeLists (d q)"
  by (auto simp: AddBuffer_def Let_def guard_ptr_def rbind_def set_next_buf_def set_prev_buf_def
           split: if_splits)

text \<open>Allocation from a buffer relinks slabs only: size and neighbours of every buffer stay.\<close>

definition same_buffers :: "slab_store \<Rightarrow> slab_store \<Rightarrow> bool" where
  "same_buffers s s' \<longleftrightarrow> (\<forall>q. b_nextBuffer (ss_bufs s' q) = b_nextBuffer (ss_bufs s q) \<and>
     b_prevBuffer (ss_bufs s' q) = b_prevBuffer (ss_bufs s q) \<and> b_bufferSize (ss_bufs s' q) = b_bufferSize (ss_bufs s q))"

lemma same_buffers_refl [simp]: "same_buffers s s" "same_buffers s (s\<lparr>ss_lds := d\<rparr>)"
  by (simp_all add: same_buffers_def)

lemma same_buffers_trans [trans]: "same_buffers s t \<Longrightarrow> same_buffers t u \<Longrightarrow> same_buffers s u"
  by (simp add: same_buffers_def)

lemma same_buffers_upd [simp]:
  "same_buffers s (upd_buf b (set_list_head k h) s)" "same_buffers s (upd_buf b (\<lambda>b. b\<lparr>b_opCount := n b\<rparr>) s)"
  by (cases k; simp add: same_buffers_def upd_buf_def) (simp add: same_buffers_def upd_buf_def)

lemma same_buffers_lds: "same_buffers (s\<lparr>ss_lds := d\<rparr>) t = same_buffers s t"
  by (simp add: same_buffers_def)

lemma Buffer_AddList_same: "Buffer_AddList b x s = Inr s' \<Longrightarrow> same_buffers s s'"
proof -
  have add: "try_add k b x t = Inr s' \<Longrightarrow> same_buffers t s'" for k t
    by (auto simp: try_add_def Let_def rbind_eq_Inr split: if_splits)
       (metis same_buffers_lds same_buffers_upd(1))
  assume "Buffer_AddList b x s = Inr s'"
  then have "same_buffers (upd_buf b (\<lambda>b. b\<lparr>b_opCount := b_opCount b + 1\<rparr>) s) s'"
    by (auto simp: Buffer_AddList_def Let_def rbind_eq_Inr TryAddFreeList_def TryAddPartialList_def TryAddFullList_def
          split: if_splits dest: add)
  with same_buffers_upd(2) show ?thesis by (rule same_buffers_trans)
qed

lemma move_head_same: "move_head k b s = Inr s' \<Longrightarrow> same_buffers s s'"
  by (auto simp: move_head_def Let_def rbind_eq_Inr same_buffers_lds split: if_splits prod.splits dest!: Buffer_AddList_same
        intro: same_buffers_trans same_buffers_upd(1))

lemma move_entry_same: "move_entry k b x s = Inr s' \<Longrightarrow> same_buffers s s'"
  by (auto simp: move_entry_def Let_def rbind_eq_Inr same_buffers_lds split: if_splits prod.splits
        dest!: Buffer_AddList_same move_head_same)

lemma ld_allocate_same: "ld_allocate x s = Inr (s', p) \<Longrightarrow> same_buffers s s'"
  by (auto simp: ld_allocate_def rbind_eq_Inr split: prod.splits)

lemma partial_loop_same: "partial_loop n b x s = Inr (s', p) \<Longrightarrow> same_buffers s s'"
proof (induction n b x s rule: partial_loop.induct)
  case (2 n b x s)
  show ?case
  proof (cases "HasSpace (ss_lds s x)")
    case True
    with "2.prems" obtain s1 where s1: "same_buffers s s1" "same_buffers s1 s'"
      by (auto simp: rbind_eq_Inr MovePartialHead_def MovePartialEntry_def split: prod.splits if_splits
            dest!: ld_allocate_same move_head_same move_entry_same)
    then show ?thesis by (rule same_buffers_trans)
  next
    case False
    with "2.prems" "2.IH" show ?thesis by (auto simp: rbind_eq_Inr Let_def split: if_splits)
  qed
qed simp

lemma Buffer_Allocate_same: "Buffer_Allocate b s = Inr (s', p) \<Longrightarrow> same_buffers s s'"
proof -
  have partial: "AddToPartial b s = Inr (t, q) \<Longrightarrow> same_buffers s t" for s t q
    by (auto simp: AddToPartial_def Let_def split: if_splits dest: partial_loop_same)
  have free: "AddToFree b s = Inr (t, q) \<Longrightarrow> same_buffers s t" for s t q
    by (auto simp: AddToFree_def Let_def rbind_eq_Inr MoveFreeHead_def split: if_splits prod.splits
          dest!: ld_allocate_same move_head_same intro: same_buffers_trans)
  have count: "same_buffers t (upd_buf b (\<lambda>b. b\<lparr>b_opCount := b_opCount b + 1\<rparr>) u)" if "same_buffers t u" for t u
    using that same_buffers_upd(2) by (rule same_buffers_trans)
  assume "Buffer_Allocate b s = Inr (s', p)"
  then show ?thesis
    by (auto simp: Buffer_Allocate_def rbind_eq_Inr split: if_splits prod.splits dest!: partial free
          intro!: count intro: same_buffers_trans)
qed

lemmas Buffer_Allocate_links = Buffer_Allocate_same [unfolded same_buffers_def, rule_format]

section \<open>Properties\<close>

text \<open>A heap whose only buffer is the 64-byte one.\<close>

definition empty_heap :: slab_allocator where
  "empty_heap = \<lparr>al_store = \<lparr>ss_mem = (\<lambda>_. 0), ss_lds = (\<lambda>p. new_ListDescriptor p 0 64 1),
     ss_bufs = (\<lambda>p. new_Buffer p 64)\<rparr>, m_buffer64 = 0x8000, m_lowAddrBuffer = 0\<rparr>"

text \<open>
  C16. The lookup over a well-formed circular list of buffers that starts at the 64-byte one terminates: when some
  buffer has exactly the requested size it returns the first of them in list order (no buffer before it has that size),
  otherwise null.
\<close>

theorem GetBuffer_finds_size:
  fixes a :: slab_allocator
  defines "size_of c \<equiv> b_bufferSize (ss_bufs (al_store a) c)"
  assumes ring: "buf_ring (ss_bufs (al_store a)) (m_buffer64 a # xs)"
  shows "if \<exists>c \<in> set (m_buffer64 a # xs). size_of c = sz
         then \<exists>as b bs. m_buffer64 a # xs = as @ b # bs \<and> (\<forall>c \<in> set as. size_of c \<noteq> sz) \<and> size_of b = sz \<and>
                b \<noteq> 0 \<and> GetBuffer sz a = Inr b
         else GetBuffer sz a = Inr 0"
proof (cases "\<exists>c \<in> set (m_buffer64 a # xs). size_of c = sz")
  case True
  then obtain as b bs where split: "m_buffer64 a # xs = as @ b # bs" "size_of b = sz" "\<forall>c \<in> set as. size_of c \<noteq> sz"
    using split_list_first_prop [of "m_buffer64 a # xs" "\<lambda>c. size_of c = sz"] by blast
  then have "filter (\<lambda>c. size_of c = sz) (m_buffer64 a # xs) = b # filter (\<lambda>c. size_of c = sz) bs"
    by (simp del: filter.simps add: filter_empty_conv) simp
  then have "GetBuffer sz a = Inr b" using GetBuffer_ring [OF ring, of sz] by (simp add: size_of_def)
  moreover have "b \<noteq> 0" using ring split(1) by (auto simp: ring_def)
  ultimately show ?thesis using True split by metis
next
  case False
  then have "filter (\<lambda>c. size_of c = sz) (m_buffer64 a # xs) = []" by (auto simp: filter_empty_conv)
  then show ?thesis using False GetBuffer_ring [OF ring, of sz] by (simp add: size_of_def split: if_splits)
qed

text \<open>Three buffers in a ring: the 64-byte one and two for 32 bytes.\<close>

definition three_buffers :: slab_allocator where
  "three_buffers = empty_heap\<lparr>al_store := (al_store empty_heap)\<lparr>ss_bufs := (\<lambda>p. new_Buffer p 0)
     (0x8000 := (new_Buffer 0x8000 64)\<lparr>b_nextBuffer := 0x9000, b_prevBuffer := 0xA000\<rparr>,
      0x9000 := (new_Buffer 0x9000 32)\<lparr>b_nextBuffer := 0xA000, b_prevBuffer := 0x8000\<rparr>,
      0xA000 := (new_Buffer 0xA000 32)\<lparr>b_nextBuffer := 0x8000, b_prevBuffer := 0x9000\<rparr>)\<rparr>\<rparr>"

theorem GetBuffer_finds_size_witness:
  "GetBuffer 32 three_buffers = Inr 0x9000 \<and> GetBuffer 24 three_buffers = Inr 0"
proof -
  have r: "buf_ring (ss_bufs (al_store three_buffers)) (m_buffer64 three_buffers # [0x9000, 0xA000])"
    by (simp add: ring_def three_buffers_def empty_heap_def)
  have s: "b_bufferSize (ss_bufs (al_store three_buffers) (m_buffer64 three_buffers)) = 64"
    "b_bufferSize (ss_bufs (al_store three_buffers) 0x9000) = 32"
    "b_bufferSize (ss_bufs (al_store three_buffers) 0xA000) = 32"
    by (simp_all add: three_buffers_def empty_heap_def new_Buffer_def)
  have "GetBuffer 24 three_buffers = Inr 0" using GetBuffer_finds_size [OF r, of 24] s by simp
  moreover obtain as b bs where b: "m_buffer64 three_buffers # [0x9000, 0xA000] = as @ b # bs"
    "\<forall>c \<in> set as. b_bufferSize (ss_bufs (al_store three_buffers) c) \<noteq> 32"
    "b_bufferSize (ss_bufs (al_store three_buffers) b) = 32" "GetBuffer 32 three_buffers = Inr b"
    using GetBuffer_finds_size [OF r, of 32] s by auto
  then have "b = 0x9000" using s by (auto simp: Cons_eq_append_conv)
  ultimately show ?thesis using b(4) by simp
qed

text \<open>
  Freeing an object through the front end does nothing, whatever the heap and the object: the range-for
  loop over the buffers runs from an iterator to the same iterator.
\<close>

theorem DeallocateObject_noop: "DeallocateObject pobj a = Inr a"
proof -
  obtain n where n: "walk_fuel = Suc n" using walk_fuel_Suc by blast
  show ?thesis by (simp add: DeallocateObject_def n)
qed

text \<open>
  Only the low 16 bits of the requested size count: a request for 65600 bytes is served exactly
  like one for 64.
\<close>

theorem AllocateObject_truncates: "AllocateObject bytes a = AllocateObject (bytes AND 0xFFFF) a"
proof -
  have m: "(0xFFFF :: u64) = mask 16" by (simp add: mask_eq_exp_minus_1)
  have "ucast (bytes AND 0xFFFF) = (ucast bytes :: u16)"
    unfolding m by (rule bit_word_eqI) (simp add: bit_ucast_iff bit_and_iff bit_mask_iff)
  note eq = this
  show ?thesis unfolding AllocateObject_def eq by (rule refl)
qed

text \<open>
  C17. The first request for a size that has no buffer yet, on a heap whose buffers form a well-formed circular list, whose
  64-byte buffer has its slabs sorted by fill level, and whose free 64-byte objects are not themselves buffers of that
  list.  When the 64-byte buffer is exhausted (no partial and no free slab), the call dereferences the null pointer it
  got for the new buffer.  Otherwise it returns null although it took an object: that object, the next free one of the
  first partial slab (of the first free one when none is partial), becomes a buffer of the requested size without any
  slab, at the end of the list, and later requests of that size find it.
\<close>

theorem AllocateObject_new_size_returns_null:
  assumes ring: "buf_ring (ss_bufs (al_store a)) (m_buffer64 a # xs)"
    and none: "\<forall>c \<in> set (m_buffer64 a # xs). b_bufferSize (ss_bufs (al_store a) c) \<noteq> ucast bytes"
    and ok: "buf_ok (al_store a) (m_buffer64 a) L"
    and apart: "\<forall>h \<in> set (L PartialLists @ L FreeLists).
                  slab_free (ss_mem (al_store a)) (ss_lds (al_store a) h) \<inter> set (m_buffer64 a # xs) = {}"
  shows "case L PartialLists @ L FreeLists of
           [] \<Rightarrow> AllocateObject bytes a = Inl NullDeref
         | h # _ \<Rightarrow> \<exists>a' p. AllocateObject bytes a = Inr (a', 0) \<and> p \<noteq> 0 \<and> p = NextFreeBuffer (ss_lds (al_store a) h) \<and>
             buf_ring (ss_bufs (al_store a')) (m_buffer64 a' # xs @ [p]) \<and> m_buffer64 a' = m_buffer64 a \<and>
             GetBuffer (ucast bytes) a' = Inr p \<and> b_bufferSize (ss_bufs (al_store a') p) = ucast bytes \<and>
             b_partialLists (ss_bufs (al_store a') p) = 0 \<and> b_freeLists (ss_bufs (al_store a') p) = 0"
proof -
  have get: "GetBuffer (ucast bytes) a = Inr 0" using GetBuffer_ring [OF ring, of "ucast bytes"] none
    by (simp add: filter_empty_conv split: list.splits)
  note take = Buffer_Allocate_ok [OF ok]
  show ?thesis
  proof (cases "L PartialLists @ L FreeLists")
    case Nil
    with take have "alloc64 a = Inr (a, 0)" by (simp add: alloc64_def)
    with get Nil show ?thesis by (simp add: AllocateObject_def NewBuffer_def BufferExists_def guard_ptr_def)
  next
    case (Cons h hs)
    with take obtain s p where s: "Buffer_Allocate (m_buffer64 a) (al_store a) = Inr (s, p)"
      "allocated (al_store a) (m_buffer64 a) L h p s" by auto
    then have p: "p \<noteq> 0" "p = NextFreeBuffer (ss_lds (al_store a) h)" "p \<notin> set (m_buffer64 a # xs)"
      using apart Cons by (auto simp: allocated_def)
    let ?a = "a\<lparr>al_store := upd_buf p (\<lambda>_. new_Buffer p (ucast bytes)) s\<rparr>"
    have "buf_ring (ss_bufs (al_store ?a)) (m_buffer64 a # xs)"
      using ring p(3) Buffer_Allocate_links [OF s(1)] by (subst ring_cong [where s = "ss_bufs (al_store a)"]) auto
    from bufl.ring_add_appends [OF this p(1,3)] obtain d where
        d: "AddBuffer (m_buffer64 a) p (ss_bufs (al_store ?a)) = Inr d" "buf_ring d (m_buffer64 a # xs @ [p])"
      by (auto simp: AddBuffer_ring_add)
    note pay = AddBuffer_payload [OF d(1)]
    let ?b = "?a\<lparr>al_store := (al_store ?a)\<lparr>ss_bufs := d\<rparr>\<rparr>"
    have new: "NewBuffer (ucast bytes) a = Inr (?b, p)"
      using get s(1) p(1) d(1) by (simp add: NewBuffer_def BufferExists_def Allocator_AddBuffer_def Let_def alloc64_def)
    have own: "b_partialLists (d p) = 0" "b_freeLists (d p) = 0" "b_bufferSize (d p) = ucast bytes"
      using pay [of p] by (simp_all add: new_Buffer_def)
    then have null: "AllocateObject bytes a = Inr (?b, 0)"
      using get p(1) new by (simp add: AllocateObject_def Buffer_Allocate_def)
    have "b_bufferSize (d c) \<noteq> ucast bytes" if "c \<in> set (m_buffer64 a # xs)" for c
      using pay [of c] that none p(3) Buffer_Allocate_links [OF s(1), of c] by auto
    then have "filter (\<lambda>c. b_bufferSize (d c) = ucast bytes) (m_buffer64 a # xs) = []" by (simp add: filter_empty_conv)
    then have "filter (\<lambda>c. b_bufferSize (d c) = ucast bytes) (m_buffer64 a # xs @ [p]) = [p]"
      using own(3) by (simp split: if_splits)
    then have "GetBuffer (ucast bytes) ?b = Inr p" using GetBuffer_ring [of ?b "xs @ [p]" "ucast bytes"] d(2) by simp
    note found = this
    show ?thesis unfolding Cons list.case
      by (intro exI [of _ ?b] exI [of _ p] conjI null found p(1,2)) (simp_all add: own d(2))
  qed
qed

text \<open>One linked slab of 64-byte objects; with it the request gets null, without it the machine faults.\<close>

theorem AllocateObject_new_size_returns_null_witness:
  "(\<exists>a a'. AllocateObject 32 a = Inr (a', 0) \<and> GetBuffer 32 a' = Inr 0x55000) \<and>
   AllocateObject 32 empty_heap = Inl NullDeref"
proof -
  obtain m ld where ld: "SetupLinkage (\<lambda>_. 0) (new_ListDescriptor 0x9000 0x55000 64 1) = Inr (m, ld)"
      "ld = (new_ListDescriptor 0x9000 0x55000 64 1)\<lparr>m_nextFree := 0x55000\<rparr>" "slab_wf m ld"
    using SetupLinkage_ok [of "new_ListDescriptor 0x9000 0x55000 64 1" "\<lambda>_. 0"]
    by (auto simp: new_ListDescriptor_def slab_geometry_def slab_bytes_def slab_wf_def)
  let ?s = "\<lparr>ss_mem = m, ss_lds = (\<lambda>_. ld), ss_bufs = (\<lambda>b. (new_Buffer b 64)\<lparr>b_freeLists := 0x9000\<rparr>)\<rparr>"
  let ?a = "\<lparr>al_store = ?s, m_buffer64 = 0x8000, m_lowAddrBuffer = 0\<rparr>"
  let ?L = "\<lambda>k. if k = FreeLists then [0x9000 :: addr] else []"
  have "class_of ld = FreeLists" "m_bufferSize ld = 64" "m_nextList ld = 0x9000" "m_prevList ld = 0x9000"
    by (simp_all add: ld(2) new_ListDescriptor_def class_of_def Full_def Empty_ld_def)
  then have "wf_list ?s 0x8000 k (?L k)" for k
    using ld(3) by (cases k) (simp_all add: wf_list_def wf_slab_in_def rlist_def new_Buffer_def)
  then have ok: "buf_ok (al_store ?a) (m_buffer64 ?a) ?L" by (simp add: buf_ok_def)
  have "0x8000 \<notin> slab_free m ld"
  proof
    assume "0x8000 \<in> slab_free m ld"
    then have "0x8000 \<in> set (slab_slots ld)" "slab_geometry ld" by (auto simp: slab_free_def slab_ok_def)
    then have "ObjectInRange ld 0x8000" using slab_slots_facts(3) by blast
    then show False by (simp add: ld(2) ObjectInRange_def Base_def new_ListDescriptor_def)
  qed
  then have one: "\<exists>a'. AllocateObject 32 ?a = Inr (a', 0) \<and> GetBuffer 32 a' = Inr 0x55000"
    using AllocateObject_new_size_returns_null [OF _ _ ok, of "[]" 32]
    by (simp add: new_Buffer_def NextFreeBuffer_def ld(2)) (auto simp: new_ListDescriptor_def)
  have "wf_list (al_store empty_heap) 0x8000 k []" for k
    by (cases k) (simp_all add: wf_list_def rlist_def empty_heap_def new_Buffer_def)
  then have "buf_ok (al_store empty_heap) (m_buffer64 empty_heap) (\<lambda>_. [])" by (simp add: buf_ok_def empty_heap_def)
  from AllocateObject_new_size_returns_null [OF _ _ this, of "[]" 32] one show ?thesis
    by (simp add: empty_heap_def new_Buffer_def) blast
qed

text \<open>
  Initialising the heap leaves a dangling link: the temporary descriptor was moved from but not unlinked,
  so its destructor, run when \<open>InitialiseLists\<close> returns, makes the first slab's \<open>next\<close> pointer
  the address of the dead local variable.
\<close>

theorem InitialiseLists_dangling_next:
  assumes "initialAddr \<noteq> 0" "unat initialAddr + 0x11000 < 2 ^ 64" "frame \<noteq> 0" "frame \<noteq> initialAddr"
    and "ss_bufs (al_store a) (m_buffer64 a) = new_Buffer (m_buffer64 a) 64"
  shows "\<exists>a'. InitialiseLists frame initialAddr a = Inr a' \<and>
           b_partialLists (ss_bufs (al_store a') (m_buffer64 a')) = initialAddr \<and>
           m_nextList (ss_lds (al_store a') initialAddr) = frame"
proof -
  let ?ld = "new_ListDescriptor frame initialAddr 64 1"
  have "0 < unat initialAddr" using assms(1) by (simp add: unat_gt_0)
  then have g: "slab_geometry ?ld"
    using assms(2) by (simp add: slab_geometry_def slab_bytes_def new_ListDescriptor_def)
  have "m_buffersUsed ?ld = 0" by (simp add: new_ListDescriptor_def)
  from SetupLinkage_ok [OF g this, of "ss_mem (al_store a)"] obtain m where
      m: "SetupLinkage (ss_mem (al_store a)) ?ld = Inr (m, ?ld\<lparr>m_nextFree := initialAddr\<rparr>)"
    by (auto simp: new_ListDescriptor_def)
  have "Allocate m (?ld\<lparr>m_nextFree := initialAddr\<rparr>)
      = Inr (?ld\<lparr>m_nextFree := m initialAddr, m_buffersUsed := 1\<rparr>, initialAddr)"
    using assms(1) by (simp add: Allocate_def new_ListDescriptor_def)
  then show ?thesis
    using m assms
    by (simp add: InitialiseLists_def Let_def Buffer_AddList_def rassert_def BufferSize_def Full_def
          Empty_ld_def TryAddPartialList_def try_add_def ExtractSelf_def move_assign_def set_next_def
          set_prev_def new_Buffer_def new_ListDescriptor_def)
qed

theorem InitialiseLists_dangling_next_witness:
  "\<exists>a'. InitialiseLists 0x7000 0x55000 empty_heap = Inr a' \<and>
     b_partialLists (ss_bufs (al_store a') (m_buffer64 a')) = 0x55000 \<and>
     m_nextList (ss_lds (al_store a') 0x55000) = 0x7000"
  by (rule InitialiseLists_dangling_next) (simp_all add: empty_heap_def)

end
