(* ===== verification/Kernel_Memory.thy ===== *)
theory Kernel_Memory
  imports Slab_Allocator Page_Pool
begin

text \<open>
  The kernel's memory management put together: \<open>ram/ram.hpp\<close> and \<open>palloc.hpp\<close> over the page allocator, \<open>kheap/kheap.hpp\<close>
  and \<open>kmalloc.hpp\<close> over the slab heap, which takes its pages from the first.  Both work on one memory: it is kept with the
  page allocator, and an operation of the heap reads it from there and writes it back.
\<close>

section \<open>State\<close>

record kernel_memory =
  km_ram :: freelist
  km_heap :: slab_allocator

definition heap_in :: "kernel_memory \<Rightarrow> slab_allocator" where
  "heap_in k = (km_heap k)\<lparr>al_store := (al_store (km_heap k))\<lparr>ss_mem := mem (km_ram k)\<rparr>\<rparr>"

definition heap_out :: "kernel_memory \<Rightarrow> slab_allocator \<Rightarrow> kernel_memory" where
  "heap_out k a = k\<lparr>km_ram := (km_ram k)\<lparr>mem := ss_mem (al_store a)\<rparr>, km_heap := a\<rparr>"

section \<open>Pages\<close>

definition Ram_Init :: "MemoryMap \<Rightarrow> kernel_memory \<Rightarrow> kernel_memory result" where
  "Ram_Init mm k = rbind (Freelist_Init mm (km_ram k)) (\<lambda>r. Inr (k\<lparr>km_ram := r\<rparr>))"

definition Ram_Allocate :: "kernel_memory \<Rightarrow> (kernel_memory \<times> addr) result" where
  "Ram_Allocate k = rbind (AllocatePage (km_ram k)) (\<lambda>(r, p). Inr (k\<lparr>km_ram := r\<rparr>, p))"

definition Ram_Allocate_pages :: "u32 \<Rightarrow> kernel_memory \<Rightarrow> (kernel_memory \<times> addr) result" where
  "Ram_Allocate_pages npages k = rbind (AllocatePages npages (km_ram k)) (\<lambda>(r, p). Inr (k\<lparr>km_ram := r\<rparr>, p))"

definition Ram_Deallocate :: "addr \<Rightarrow> kernel_memory \<Rightarrow> kernel_memory result" where
  "Ram_Deallocate base k = rbind (DeallocPage base (km_ram k)) (\<lambda>r. Inr (k\<lparr>km_ram := r\<rparr>))"

definition palloc :: "kernel_memory \<Rightarrow> (kernel_memory \<times> addr) result" where
  "palloc = Ram_Allocate"

definition palloc_pages :: "u32 \<Rightarrow> kernel_memory \<Rightarrow> (kernel_memory \<times> addr) result" where
  "palloc_pages pages = Ram_Allocate_pages pages"

definition pfree :: "addr \<Rightarrow> kernel_memory \<Rightarrow> kernel_memory result" where
  "pfree pagebase = Ram_Deallocate pagebase"

section \<open>Objects\<close>

text \<open>
  The heap's initialisation calls \<open>palloc\<close> once; the page and the memory it leaves are handed to the model of
  \<open>Allocator::Init\<close> through its parameter.
\<close>

definition KHeap_Init :: "addr \<Rightarrow> kernel_memory \<Rightarrow> kernel_memory result" where
  "KHeap_Init frame k =
     rbind (palloc k) (\<lambda>(k, base).
       rbind (Allocator_Init (\<lambda>a. Inr (a, base)) frame (heap_in k)) (\<lambda>a. Inr (heap_out k a)))"

definition KHeap_Allocate :: "u64 \<Rightarrow> kernel_memory \<Rightarrow> (kernel_memory \<times> addr) result" where
  "KHeap_Allocate bytes k = rbind (AllocateObject bytes (heap_in k)) (\<lambda>(a, p). Inr (heap_out k a, p))"

definition KHeap_Deallocate :: "addr \<Rightarrow> kernel_memory \<Rightarrow> kernel_memory result" where
  "KHeap_Deallocate pobj k = rbind (DeallocateObject pobj (heap_in k)) (\<lambda>a. Inr (heap_out k a))"

text \<open>\<open>New\<close> runs the constructor at whatever address the heap returns, null included.\<close>

definition KHeap_New ::
    "u64 \<Rightarrow> (addr \<Rightarrow> kernel_memory \<Rightarrow> kernel_memory result) \<Rightarrow> kernel_memory \<Rightarrow> (kernel_memory \<times> addr) result" where
  "KHeap_New bytes construct k =
     rbind (KHeap_Allocate bytes k) (\<lambda>(k, alloc). rbind (construct alloc k) (\<lambda>k. Inr (k, alloc)))"

definition KHeap_Delete :: "addr \<Rightarrow> kernel_memory \<Rightarrow> kernel_memory result" where
  "KHeap_Delete pobj = KHeap_Deallocate pobj"

definition kmalloc :: "u64 \<Rightarrow> kernel_memory \<Rightarrow> (kernel_memory \<times> addr) result" where
  "kmalloc bytes = KHeap_Allocate bytes"

section \<open>The state of the heap while its first slab lasts\<close>

text \<open>
  The slab described at \<open>page\<close>, its own first buffer, has handed out its first \<open>n\<close> buffers; it is alone on the partial
  list and its link still points at \<open>frame\<close>, the dead local variable of \<open>InitialiseLists\<close>.  The buffers \<open>xs\<close> of the other
  sizes lie in the slab and have no slabs of their own.
\<close>

definition first_slab :: "addr \<Rightarrow> ListDescriptor \<Rightarrow> bool" where
  "first_slab page ld \<longleftrightarrow> m_baseAddress ld = page \<and> m_bufferSize ld = 64 \<and> m_totalBuffers ld = 64 \<and> m_pages ld = 1"

definition page_slots :: "addr \<Rightarrow> addr list" where
  "page_slots page = slots_from page 64 64"

lemma length_page_slots [simp]: "length (page_slots page) = 64"
  unfolding page_slots_def by (rule length_slots_from)

definition heap_ok :: "addr \<Rightarrow> addr \<Rightarrow> nat \<Rightarrow> addr list \<Rightarrow> slab_allocator \<Rightarrow> bool" where
  "heap_ok frame page n xs a \<longleftrightarrow>
     (let s = al_store a; ld = ss_lds s page; b = ss_bufs s (m_buffer64 a)
      in first_slab page ld \<and> slab_ok (ss_mem s) ld (drop n (page_slots page)) \<and>
         m_nextList ld = frame \<and> m_prevList ld = page \<and>
         b_bufferSize b = 64 \<and> b_partialLists b = page \<and> b_freeLists b = 0 \<and> b_fullLists b = 0 \<and>
         buf_ring (ss_bufs s) (m_buffer64 a # xs) \<and> set xs \<subseteq> set (take n (page_slots page)) \<and>
         m_buffer64 a \<notin> set (page_slots page) \<and>
         (\<forall>x \<in> set xs. b_partialLists (ss_bufs s x) = 0 \<and> b_freeLists (ss_bufs s x) = 0 \<and>
            b_bufferSize (ss_bufs s x) \<noteq> 64))"

lemma first_slab_slots: "first_slab page ld \<Longrightarrow> slab_slots ld = page_slots page"
  by (simp add: first_slab_def slab_slots_def page_slots_def)

lemma first_slab_cells: "first_slab page ld \<Longrightarrow> slab_cells ld = page_slots page"
  by (simp add: slab_cells_def first_slab_slots) (simp add: first_slab_def slab_bytes_def)

lemma heap_ok_used:
  assumes "heap_ok frame page n xs a" "n \<le> 64"
  shows "unat (m_buffersUsed (ss_lds (al_store a) page)) = n"
proof -
  let ?ld = "ss_lds (al_store a) page"
  have f: "first_slab page ?ld" and ok: "slab_ok (ss_mem (al_store a)) ?ld (drop n (page_slots page))"
    using assms(1) by (simp_all add: heap_ok_def Let_def)
  note slots = first_slab_slots [OF f]
  have "distinct (page_slots page)"
    using slab_slots_facts(1) [of ?ld] ok slots ascending_distinct by (simp add: slab_ok_def)
  moreover have "set (drop n (page_slots page)) \<inter> set (page_slots page) = set (drop n (page_slots page))"
    using set_drop_subset by fastforce
  ultimately have "card (set (drop n (page_slots page)) \<inter> set (page_slots page)) = 64 - n"
    by (simp add: distinct_card distinct_drop)
  moreover have "card (set (drop n (page_slots page)) \<inter> set (page_slots page)) + unat (m_buffersUsed ?ld) = 64"
    using ok f slots by (simp add: slab_ok_def first_slab_def)
  ultimately show ?thesis using assms(2) by linarith
qed

lemma drop_slot: "n < 64 \<Longrightarrow> drop n (page_slots page) = page_slots page ! n # drop (Suc n) (page_slots page)"
  by (simp add: Cons_nth_drop_Suc)

lemma heap_slots:
  assumes "heap_ok frame page n xs a" "n < 64"
  shows "distinct (page_slots page)" "page_slots page ! n \<in> set (page_slots page)"
    "page_slots page ! n \<notin> set (take n (page_slots page))"
    "page_slots page ! n \<in> set (take (Suc n) (page_slots page))"
proof -
  let ?ld = "ss_lds (al_store a) page"
  have "first_slab page ?ld" "slab_geometry ?ld" using assms(1) by (simp_all add: heap_ok_def Let_def slab_ok_def)
  then show d: "distinct (page_slots page)"
    using slab_slots_facts(1) [of ?ld] first_slab_slots ascending_distinct by metis
  show "page_slots page ! n \<in> set (page_slots page)" using assms(2) by simp
  show "page_slots page ! n \<notin> set (take n (page_slots page))"
    using set_take_disj_set_drop_if_distinct [OF d order_refl, of n] drop_slot [OF assms(2)] by auto
  show "page_slots page ! n \<in> set (take (Suc n) (page_slots page))" using assms(2) by (simp add: take_Suc_conv_app_nth)
qed

lemma heap_alloc64:
  assumes ok: "heap_ok frame page n xs a" and n: "n < 63" and pg: "page \<noteq> 0"
  shows "\<exists>a'. alloc64 a = Inr (a', page_slots page ! n) \<and> heap_ok frame page (Suc n) xs a' \<and>
           ss_mem (al_store a') = ss_mem (al_store a) \<and> m_buffer64 a' = m_buffer64 a \<and>
           m_lowAddrBuffer a' = m_lowAddrBuffer a \<and> (\<forall>x. b_bufferSize (ss_bufs (al_store a') x) = b_bufferSize (ss_bufs (al_store a) x)) \<and>
           page_slots page ! n \<noteq> 0"
proof -
  let ?s = "al_store a" and ?ld = "ss_lds (al_store a) page" and ?b = "m_buffer64 a"
  note h = ok [unfolded heap_ok_def Let_def]
  have used: "unat (m_buffersUsed ?ld) = n" using heap_ok_used [OF ok] n by simp
  have f: "first_slab page ?ld" and sl: "slab_ok (ss_mem ?s) ?ld (drop n (page_slots page))" using h by simp_all
  have tot: "unat (m_totalBuffers ?ld) = 64" using f by (simp add: first_slab_def)
  have ne: "m_buffersUsed ?ld \<noteq> m_totalBuffers ?ld" using used tot n by auto
  have dr: "drop n (page_slots page) = page_slots page ! n # drop (Suc n) (page_slots page)"
    using n by (intro drop_slot) simp
  have inc: "unat (m_buffersUsed ?ld + 1) = Suc n"
    using unat_used_inc [of ?ld] used tot n by (simp add: word_less_nat_alt)
  then have ne': "m_buffersUsed ?ld + 1 \<noteq> m_totalBuffers ?ld" using tot n by auto
  from Allocate_ok [OF sl] ne ne' dr obtain ld where ld: "Allocate (ss_mem ?s) ?ld = Inr (ld, page_slots page ! n)"
      "ld = ?ld\<lparr>m_nextFree := m_nextFree ld, m_buffersUsed := m_buffersUsed ?ld + 1\<rparr>"
      "slab_ok (ss_mem ?s) ld (drop (Suc n) (page_slots page))" by auto
  have ldf: "first_slab page ld" "m_nextList ld = frame" "m_prevList ld = page" "\<not> Full ld"
    using f h ne' by (subst ld(2); simp add: first_slab_def Full_def)+
  have nz: "page_slots page ! n \<noteq> 0"
    using slab_cells_bounds(2) [OF sl, of "page_slots page ! n"] dr by simp
  let ?s1 = "?s\<lparr>ss_lds := (ss_lds ?s)(page := ld)\<rparr>"
  obtain w where w: "walk_fuel = Suc w" using walk_fuel_Suc by blast
  have "HasSpace ?ld" using used tot n by (simp add: HasSpace_def word_less_nat_alt)
  then have "AddToPartial ?b ?s = Inr (?s1, page_slots page ! n)"
    using h ld(1) ldf(4) pg by (simp add: w AddToPartial_def ld_allocate_def)
  then have run: "alloc64 a = Inr (a\<lparr>al_store := upd_buf ?b (\<lambda>b. b\<lparr>b_opCount := b_opCount b + 1\<rparr>) ?s1\<rparr>, page_slots page ! n)"
    using h nz pg by (simp add: alloc64_def Buffer_Allocate_def)
  let ?a = "a\<lparr>al_store := upd_buf ?b (\<lambda>b. b\<lparr>b_opCount := b_opCount b + 1\<rparr>) ?s1\<rparr>"
  have "buf_ring (ss_bufs (al_store ?a)) (?b # xs) = buf_ring (ss_bufs ?s) (?b # xs)"
    by (rule ring_cong) simp
  moreover have "set (take n (page_slots page)) \<subseteq> set (take (Suc n) (page_slots page))"
    by (rule set_take_subset_set_take) simp
  ultimately have "heap_ok frame page (Suc n) xs ?a"
    using h ldf ld(3) unfolding heap_ok_def Let_def by auto
  with run nz show ?thesis by auto
qed


lemma heap_GetBuffer:
  assumes "heap_ok frame page n xs a"
  shows "GetBuffer sz a = Inr (if sz = 64 then m_buffer64 a
           else case filter (\<lambda>b. b_bufferSize (ss_bufs (al_store a) b) = sz) xs of [] \<Rightarrow> 0 | b # _ \<Rightarrow> b)"
proof -
  have "buf_ring (ss_bufs (al_store a)) (m_buffer64 a # xs)" "b_bufferSize (ss_bufs (al_store a) (m_buffer64 a)) = 64"
    using assms by (simp_all add: heap_ok_def Let_def)
  then show ?thesis using GetBuffer_ring [of a xs sz] by auto
qed

lemma heap_NewBuffer:
  assumes ok: "heap_ok frame page n xs a" and n: "n < 63" and pg: "page \<noteq> 0" and sz: "sz \<noteq> 64"
    and new: "\<forall>x \<in> set xs. b_bufferSize (ss_bufs (al_store a) x) \<noteq> sz"
  shows "\<exists>a'. NewBuffer sz a = Inr (a', page_slots page ! n) \<and>
           heap_ok frame page (Suc n) (xs @ [page_slots page ! n]) a' \<and> ss_mem (al_store a') = ss_mem (al_store a) \<and>
           Buffer_Allocate (page_slots page ! n) (al_store a') = Inr (al_store a', 0) \<and> page_slots page ! n \<noteq> 0"
proof -
  let ?p = "page_slots page ! n"
  from heap_alloc64 [OF ok n pg] obtain a1 where a1: "alloc64 a = Inr (a1, ?p)" "heap_ok frame page (Suc n) xs a1"
      "ss_mem (al_store a1) = ss_mem (al_store a)" "?p \<noteq> 0" by blast
  note h = a1(2) [unfolded heap_ok_def Let_def] and h0 = ok [unfolded heap_ok_def Let_def]
  let ?b = "m_buffer64 a1"
  have "filter (\<lambda>b. b_bufferSize (ss_bufs (al_store a) b) = sz) xs = []" using new by (simp add: filter_empty_conv)
  then have none: "BufferExists sz a = Inr False"
    using sz heap_GetBuffer [OF ok, of sz] by (simp add: BufferExists_def)
  let ?a = "a1\<lparr>al_store := upd_buf ?p (\<lambda>_. new_Buffer ?p sz) (al_store a1)\<rparr>"
  have "n < 64" using n by simp
  note slot = heap_slots [OF ok this]
  have fresh: "?p \<notin> set (?b # xs)" using slot(2,3) h h0 by auto
  have "buf_ring (ss_bufs (al_store ?a)) (?b # xs)"
    using h fresh by (subst ring_cong [where s = "ss_bufs (al_store a1)"]) auto
  from bufl.ring_add_appends [OF this a1(4) fresh] obtain d where
      d: "AddBuffer ?b ?p (ss_bufs (al_store ?a)) = Inr d" "buf_ring d (?b # xs @ [?p])"
    by (auto simp: AddBuffer_ring_add)
  note pay = AddBuffer_payload [OF d(1)]
  let ?r = "?a\<lparr>al_store := (al_store ?a)\<lparr>ss_bufs := d\<rparr>\<rparr>"
  have run: "NewBuffer sz a = Inr (?r, ?p)"
    using none a1(1,4) d(1) by (simp add: NewBuffer_def Allocator_AddBuffer_def Let_def)
  have full: "b_fullLists (d ?b) = b_fullLists (ss_bufs (al_store ?a) ?b)"
    using d(1) by (auto simp: AddBuffer_def Let_def guard_ptr_def rbind_def set_next_buf_def set_prev_buf_def split: if_splits)
  have "b_partialLists (d ?p) = 0" "b_freeLists (d ?p) = 0" "b_bufferSize (d ?p) = sz"
    using pay [of ?p] by (simp_all add: new_Buffer_def)
  moreover have "heap_ok frame page (Suc n) (xs @ [?p]) ?r"
    unfolding heap_ok_def Let_def using h pay d(2) fresh full sz slot(4) calculation by auto
  ultimately show ?thesis using run a1(3,4) by (simp add: Buffer_Allocate_def)
qed

lemma heap_AllocateObject:
  assumes ok: "heap_ok frame page n xs a" and n: "n < 63" and pg: "page \<noteq> 0"
  shows "\<exists>a' p n' xs'. AllocateObject bytes a = Inr (a', p) \<and> heap_ok frame page n' xs' a' \<and>
           ss_mem (al_store a') = ss_mem (al_store a) \<and> n \<le> n' \<and> n' \<le> Suc n \<and>
           (if (ucast bytes :: u16) = 64 then n' = Suc n \<and> p = page_slots page ! n \<and> p \<noteq> 0 else p = 0)"
proof (cases "(ucast bytes :: u16) = 64")
  case True
  from heap_alloc64 [OF ok n pg] obtain a' where a': "alloc64 a = Inr (a', page_slots page ! n)"
      "heap_ok frame page (Suc n) xs a'" "ss_mem (al_store a') = ss_mem (al_store a)" "page_slots page ! n \<noteq> 0" by blast
  have "m_buffer64 a \<noteq> 0" using ok by (simp add: heap_ok_def Let_def ring_def)
  then have "AllocateObject bytes a = alloc64 a"
    using True heap_GetBuffer [OF ok, of 64] by (simp add: AllocateObject_def alloc64_def)
  with a' True show ?thesis by auto
next
  case False
  let ?fs = "filter (\<lambda>b. b_bufferSize (ss_bufs (al_store a) b) = ucast bytes) xs"
  show ?thesis
  proof (cases ?fs)
    case Nil
    then have "\<forall>x \<in> set xs. b_bufferSize (ss_bufs (al_store a) x) \<noteq> ucast bytes" by (simp add: filter_empty_conv)
    from heap_NewBuffer [OF ok n pg False this] obtain a' where a': "NewBuffer (ucast bytes) a = Inr (a', page_slots page ! n)"
        "heap_ok frame page (Suc n) (xs @ [page_slots page ! n]) a'" "ss_mem (al_store a') = ss_mem (al_store a)"
        "Buffer_Allocate (page_slots page ! n) (al_store a') = Inr (al_store a', 0)" "page_slots page ! n \<noteq> 0" by blast
    then have "AllocateObject bytes a = Inr (a', 0)"
      using Nil False heap_GetBuffer [OF ok, of "ucast bytes"] by (simp add: AllocateObject_def)
    with a' False show ?thesis
      by (intro exI [of _ a'] exI [of _ 0] exI [of _ "Suc n"] exI [of _ "xs @ [page_slots page ! n]"]) simp
  next
    case (Cons b bs)
    then have "b \<in> set ?fs" by simp
    then have "b \<in> set xs" by simp
    then have "b \<noteq> 0" "b_partialLists (ss_bufs (al_store a) b) = 0" "b_freeLists (ss_bufs (al_store a) b) = 0"
      using ok by (auto simp: heap_ok_def Let_def ring_def)
    then have "AllocateObject bytes a = Inr (a, 0)"
      using Cons False heap_GetBuffer [OF ok, of "ucast bytes"] by (simp add: AllocateObject_def Buffer_Allocate_def)
    with ok False show ?thesis by (intro exI [of _ a] exI [of _ 0] exI [of _ n] exI [of _ xs]) simp
  qed
qed


section \<open>Start-up\<close>

lemma InitialiseLists_heap_ok:
  assumes pg: "page \<noteq> 0" "unat page + 0x11000 < 2 ^ 64" and fr: "frame \<noteq> 0" "frame \<noteq> page"
    and b: "ss_bufs (al_store a) (m_buffer64 a) = new_Buffer (m_buffer64 a) 64"
      "m_buffer64 a \<noteq> 0" "m_buffer64 a \<notin> set (page_slots page)"
  shows "\<exists>a'. InitialiseLists frame page a = Inr a' \<and> heap_ok frame page 1 [] a' \<and> m_buffer64 a' = m_buffer64 a \<and>
           (\<forall>x. x \<notin> set (page_slots page) \<longrightarrow> ss_mem (al_store a') x = ss_mem (al_store a) x) \<and>
           b_nextBuffer (ss_bufs (al_store a') (m_buffer64 a')) = m_buffer64 a \<and>
           b_prevBuffer (ss_bufs (al_store a') (m_buffer64 a')) = m_buffer64 a"
proof -
  let ?ld = "new_ListDescriptor frame page 64 1" and ?s = "al_store a"
  have f: "first_slab page ?ld" by (simp add: first_slab_def new_ListDescriptor_def)
  have "0 < unat page" using pg(1) by (simp add: unat_gt_0)
  then have g: "slab_geometry ?ld" using pg(2) by (simp add: slab_geometry_def slab_bytes_def new_ListDescriptor_def)
  have "m_buffersUsed ?ld = 0" "m_baseAddress ?ld = page" by (simp_all add: new_ListDescriptor_def)
  with SetupLinkage_ok [OF g, of "ss_mem ?s"] first_slab_cells [OF f] obtain m where
      m: "SetupLinkage (ss_mem ?s) ?ld = Inr (m, ?ld\<lparr>m_nextFree := page\<rparr>)"
      "slab_ok m (?ld\<lparr>m_nextFree := page\<rparr>) (page_slots page)" "\<forall>x. x \<notin> set (page_slots page) \<longrightarrow> m x = ss_mem ?s x"
    by auto
  let ?ld0 = "?ld\<lparr>m_nextFree := page\<rparr>"
  have ne: "m_buffersUsed ?ld0 \<noteq> m_totalBuffers ?ld0" "m_buffersUsed ?ld0 + 1 \<noteq> m_totalBuffers ?ld0"
    by (simp_all add: new_ListDescriptor_def)
  have "hd (page_slots page) = page" by (simp add: page_slots_def)
  with Allocate_ok [OF m(2)] ne obtain ld where ld: "Allocate m ?ld0 = Inr (ld, page)"
      "ld = ?ld0\<lparr>m_nextFree := m_nextFree ld, m_buffersUsed := m_buffersUsed ?ld0 + 1\<rparr>"
      "slab_ok m ld (tl (page_slots page))" by auto
  let ?r = "\<lparr>m_baseAddress = page, m_nextFree = m_nextFree ld, m_nextList = frame, m_prevList = page,
     m_bufferSize = 64, m_totalBuffers = 64, m_buffersUsed = 1, m_pages = 1\<rparr>"
  have "slab_ok m ?r (tl (page_slots page))"
  proof -
    have "payload ld = payload ?r" by (subst ld(2)) (simp add: payload_def new_ListDescriptor_def)
    then show ?thesis using ld(3)
      by (cases ld) (simp add: payload_def slab_ok_def slab_geometry_def slab_bytes_def slab_slots_def slab_tail_def slab_cells_def)
  qed
  moreover have "\<exists>a'. InitialiseLists frame page a = Inr a' \<and> ss_mem (al_store a') = m \<and> ss_lds (al_store a') page = ?r \<and>
      m_buffer64 a' = m_buffer64 a \<and>
      ss_bufs (al_store a') (m_buffer64 a) = (new_Buffer (m_buffer64 a) 64)\<lparr>b_partialLists := page, b_opCount := 1\<rparr>"
    using m(1) ld(1) pg(1) fr b(1)
    by (subst (asm) ld(2))
       (simp add: InitialiseLists_def Let_def Buffer_AddList_def rassert_def BufferSize_def Full_def
          Empty_ld_def TryAddPartialList_def try_add_def ExtractSelf_def move_assign_def set_next_def
          set_prev_def new_Buffer_def new_ListDescriptor_def)
  ultimately show ?thesis
    using m(3) b(2,3) by (auto simp: heap_ok_def Let_def first_slab_def new_Buffer_def drop_Suc)
qed


lemma Allocator_Init_heap_ok:
  assumes pg: "page \<noteq> 0" "unat page + 0x11000 < 2 ^ 64" and fr: "frame \<noteq> 0" "frame \<noteq> page"
    and b: "ss_bufs (al_store a) (m_buffer64 a) = new_Buffer (m_buffer64 a) 0"
      "m_buffer64 a \<noteq> 0" "m_buffer64 a \<notin> set (page_slots page)"
  shows "\<exists>a'. Allocator_Init (\<lambda>a. Inr (a, page)) frame a = Inr a' \<and> heap_ok frame page 2 [] a' \<and>
           (\<forall>x. x \<notin> set (page_slots page) \<longrightarrow> ss_mem (al_store a') x = ss_mem (al_store a) x)"
proof -
  let ?a = "a\<lparr>al_store := upd_buf (m_buffer64 a) (SetBufferSize 64) (al_store a)\<rparr>"
  have "ss_bufs (al_store ?a) (m_buffer64 ?a) = new_Buffer (m_buffer64 ?a) 64"
    using b(1) by (simp add: SetBufferSize_def new_Buffer_def)
  with InitialiseLists_heap_ok [OF pg fr, of ?a] b(2,3) obtain a1 where a1: "InitialiseLists frame page ?a = Inr a1"
      "heap_ok frame page 1 [] a1" "m_buffer64 a1 = m_buffer64 a"
      "\<forall>x. x \<notin> set (page_slots page) \<longrightarrow> ss_mem (al_store a1) x = ss_mem (al_store a) x"
    by auto
  have "(1 :: nat) < 63" by simp
  from heap_alloc64 [OF a1(2) this pg(1)] obtain a2 where a2: "alloc64 a1 = Inr (a2, page_slots page ! 1)"
      "heap_ok frame page (Suc 1) [] a2" "ss_mem (al_store a2) = ss_mem (al_store a1)" "page_slots page ! 1 \<noteq> 0" by blast
  let ?p = "page_slots page ! 1"
  let ?r = "a2\<lparr>al_store := upd_buf ?p (\<lambda>b. new_Buffer_options b 64 1) (al_store a2), m_lowAddrBuffer := ?p\<rparr>"
  have low: "InitialiseLowBuffer a1 = Inr ?r" using a2(1,4) by (simp add: InitialiseLowBuffer_def)
  have "ss_bufs (al_store ?r) = ss_bufs (al_store a2)" by (simp add: fun_eq_iff new_Buffer_options_def)
  then have ok: "heap_ok frame page 2 [] ?r" using a2(2) by (simp add: heap_ok_def Let_def numeral_2_eq_2)
  then have "buf_ring (ss_bufs (al_store ?r)) [m_buffer64 ?r]" by (simp add: heap_ok_def Let_def)
  then have "Allocator_Init (\<lambda>a. Inr (a, page)) frame a = Inr ?r"
    using a1(1) low ok pg(1) by (simp add: Allocator_Init_def Let_def heap_ok_def)
  with ok a1(4) a2(3) show ?thesis by auto
qed

lemma heap_in_out: "heap_in (heap_out k a) = a"
  by (simp add: heap_in_def heap_out_def)

definition memory_ok :: "addr \<Rightarrow> addr \<Rightarrow> nat \<Rightarrow> addr list \<Rightarrow> addr list \<Rightarrow> kernel_memory \<Rightarrow> bool" where
  "memory_ok frame page n hs ls k \<longleftrightarrow>
     page \<noteq> 0 \<and> (\<exists>xs. heap_ok frame page n xs (heap_in k)) \<and> freelist_ok (km_ram k) hs ls"

text \<open>Two pages of the memory map are a page apart, so the cells of one hold no link of another.\<close>

abbreviation page_before :: "addr \<Rightarrow> addr \<Rightarrow> bool" where
  "page_before x y \<equiv> unat x + 4096 \<le> unat y"

lemma spaced_pages_from: "unat b + k * 4096 < 2 ^ 64 \<Longrightarrow> sorted_wrt page_before (pages_from b k)"
proof (induction k arbitrary: b)
  case (Suc k)
  then have u: "unat (b + PAGESIZE) = unat b + 4096" by (intro unat_add_PAGESIZE) simp
  have "page_before b x" if "x \<in> set (pages_from (b + PAGESIZE) k)" for x
    using pages_from_range [of "b + PAGESIZE" k x] that u Suc.prems by simp
  with Suc.IH [of "b + PAGESIZE"] u Suc.prems show ?case by simp
qed simp

lemma spaced_all_pages: "regions_ok lo es \<Longrightarrow> sorted_wrt page_before (all_pages es)"
proof (induction es arbitrary: lo)
  case (Cons e es)
  obtain j where j: "region_pages e = pages_from (me_base e) (Suc j)" "unat (me_length e) = Suc j * 4096"
    using Cons.prems by (rule region_pages_split)
  have bound: "unat (me_base e) + Suc j * 4096 < 2 ^ 64" using Cons.prems j(2) by simp
  have "page_before x y" if "x \<in> set (region_pages e)" "y \<in> set (all_pages es)" for x y
    using pages_from_range [of "me_base e" "Suc j" x] that bound j Cons.prems
      all_pages_ge [of "unat (me_base e) + unat (me_length e)" es y] by simp
  then show ?case using Cons spaced_pages_from [OF bound] j(1) by (auto simp: sorted_wrt_append)
qed simp

lemma map_pages_useable:
  "set (high_pages mm) \<union> set (low_pages mm) \<subseteq> set (all_pages (filter useable (m_entries mm)))"
  by (auto simp: high_pages_def low_pages_def all_pages_def)

lemma sorted_wrt_cases: "sorted_wrt R xs \<Longrightarrow> x \<in> set xs \<Longrightarrow> y \<in> set xs \<Longrightarrow> x \<noteq> y \<Longrightarrow> R x y \<or> R y x"
  by (induction xs) auto

lemma page_slots_range:
  "x \<in> set (page_slots page) \<Longrightarrow> unat page + 0x11000 < 2 ^ 64 \<Longrightarrow> unat page \<le> unat x \<and> unat x < unat page + 4096"
  using slots_bounds [of x page 64 64] by (simp add: page_slots_def)

lemma other_pages_outside:
  assumes "regions_ok 1 (filter useable (m_entries mm))" "unat page + 0x11000 < 2 ^ 64"
    and "{page, q} \<subseteq> set (high_pages mm) \<union> set (low_pages mm)" "q \<noteq> page"
  shows "q \<notin> set (page_slots page)"
proof
  assume "q \<in> set (page_slots page)"
  note r = page_slots_range [OF this assms(2)]
  have "page_before page q \<or> page_before q page"
    by (rule sorted_wrt_cases [OF spaced_all_pages [OF assms(1)]])
       (use assms(3,4) map_pages_useable [of mm] in auto)
  with r show False by auto
qed

lemma freelist_ok_memory:
  "freelist_ok r hs ls \<Longrightarrow> (\<And>x. x \<in> set hs \<union> set ls \<Longrightarrow> m x = mem r x) \<Longrightarrow> freelist_ok (r\<lparr>mem := m\<rparr>) hs ls"
  using lseg_cong [of hs m "mem r"] lseg_cong [of ls m "mem r"] by (simp add: freelist_ok_def)


text \<open>
  Start-up: the page allocator is built from the memory map and the heap takes the lowest high page for its first slab.
  \<open>pristine\<close> says that the 64-byte buffer is as its constructor leaves it, an object of static storage outside that page.
\<close>

definition boot :: "MemoryMap \<Rightarrow> addr \<Rightarrow> kernel_memory \<Rightarrow> kernel_memory result" where
  "boot mm frame k = rbind (Ram_Init mm k) (KHeap_Init frame)"

definition pristine :: "addr \<Rightarrow> kernel_memory \<Rightarrow> bool" where
  "pristine page k \<longleftrightarrow>
     (let b = m_buffer64 (km_heap k)
      in ss_bufs (al_store (km_heap k)) b = new_Buffer b 0 \<and> b \<noteq> 0 \<and> b \<notin> set (page_slots page))"

lemma KHeap_Init_ok:
  assumes fl: "freelist_ok (km_ram k) hs ls" and first: "hs @ ls = page # rest"
    and far: "\<forall>x \<in> set rest. x \<notin> set (page_slots page)"
    and pg: "unat page + 0x11000 < 2 ^ 64" and fr: "frame \<noteq> 0" "frame \<noteq> page" and new: "pristine page k"
  shows "\<exists>k'. KHeap_Init frame k = Inr k' \<and>
           memory_ok frame page 2 (if hs = [] then [] else tl hs) (if hs = [] then tl ls else ls) k'"
proof -
  let ?hs = "if hs = [] then [] else tl hs" and ?ls = "if hs = [] then tl ls else ls"
  from AllocatePage_spec [OF fl] first obtain r where r: "page \<noteq> 0" "AllocatePage (km_ram k) = Inr (r, page)"
      "freelist_ok r ?hs ?ls" by (auto split: if_splits)
  let ?k = "k\<lparr>km_ram := r\<rparr>"
  have "?hs @ ?ls = rest" using first by (cases hs) auto
  then have rest: "set ?hs \<union> set ?ls = set rest" by (metis set_append)
  have heap: "ss_bufs (al_store (heap_in ?k)) (m_buffer64 (heap_in ?k)) = new_Buffer (m_buffer64 (heap_in ?k)) 0"
    "m_buffer64 (heap_in ?k) \<noteq> 0" "m_buffer64 (heap_in ?k) \<notin> set (page_slots page)"
    using new by (simp_all add: pristine_def Let_def heap_in_def)
  from Allocator_Init_heap_ok [OF r(1) pg fr heap] obtain a where
      a: "Allocator_Init (\<lambda>a. Inr (a, page)) frame (heap_in ?k) = Inr a" "heap_ok frame page 2 [] a"
      "\<forall>x. x \<notin> set (page_slots page) \<longrightarrow> ss_mem (al_store a) x = mem r x" by (auto simp: heap_in_def)
  have "KHeap_Init frame k = Inr (heap_out ?k a)"
    using r(2) a(1) by (simp add: KHeap_Init_def palloc_def Ram_Allocate_def)
  moreover have "freelist_ok (r\<lparr>mem := ss_mem (al_store a)\<rparr>) ?hs ?ls"
    by (rule freelist_ok_memory [OF r(3)]) (use rest far a(3) in blast)
  moreover have "km_ram (heap_out ?k a) = r\<lparr>mem := ss_mem (al_store a)\<rparr>" by (simp add: heap_out_def)
  ultimately show ?thesis using r(1) a(2) unfolding memory_ok_def by (auto simp: heap_in_out)
qed

lemma boot_ok:
  assumes map: "regions_ok 1 (filter useable (m_entries mm))" and first: "high_pages mm @ low_pages mm = page # rest"
    and pg: "unat page + 0x11000 < 2 ^ 64" and fr: "frame \<noteq> 0" "frame \<noteq> page" and new: "pristine page k"
  shows "\<exists>k'. boot mm frame k = Inr k' \<and>
           memory_ok frame page 2 (if high_pages mm = [] then [] else tl (high_pages mm))
             (if high_pages mm = [] then tl (low_pages mm) else low_pages mm) k'"
proof -
  from Freelist_Init_ok [OF map, of "km_ram k"] obtain r where r: "Freelist_Init mm (km_ram k) = Inr r"
      "freelist_ok r (high_pages mm) (low_pages mm)" by blast
  let ?k = "k\<lparr>km_ram := r\<rparr>"
  have k: "freelist_ok (km_ram ?k) (high_pages mm) (low_pages mm)" "pristine page ?k"
    using r(2) new by (simp_all add: pristine_def)
  have "distinct (high_pages mm @ low_pages mm)"
    using r(2) ascending_distinct by (auto simp: freelist_ok_def)
  then have "page \<notin> set rest" using first by simp
  moreover have "set (page # rest) = set (high_pages mm) \<union> set (low_pages mm)"
    using arg_cong [OF first, of set] by simp
  ultimately have "\<forall>x \<in> set rest. x \<notin> set (page_slots page)"
    using other_pages_outside [OF map pg] by fastforce
  from KHeap_Init_ok [OF k(1) first this pg fr k(2)] r(1) show ?thesis by (simp add: boot_def Ram_Init_def)
qed

section \<open>Requests\<close>

fun kmallocs :: "u64 list \<Rightarrow> kernel_memory \<Rightarrow> (kernel_memory \<times> addr list) result" where
  "kmallocs [] k = Inr (k, [])"
| "kmallocs (bytes # reqs) k =
     rbind (kmalloc bytes k) (\<lambda>(k, p). rbind (kmallocs reqs k) (\<lambda>(k, ps). Inr (k, p # ps)))"

lemma kmalloc_ok:
  assumes "memory_ok frame page n hs ls k" "n < 63"
  shows "\<exists>k' p n'. kmalloc bytes k = Inr (k', p) \<and> memory_ok frame page n' hs ls k' \<and> km_ram k' = km_ram k \<and>
           n \<le> n' \<and> n' \<le> Suc n \<and>
           (if (ucast bytes :: u16) = 64 then n' = Suc n \<and> p = page_slots page ! n \<and> p \<noteq> 0 else p = 0)"
proof -
  from assms obtain xs where ok: "page \<noteq> 0" "heap_ok frame page n xs (heap_in k)" "freelist_ok (km_ram k) hs ls"
    by (auto simp: memory_ok_def)
  from heap_AllocateObject [OF ok(2) assms(2) ok(1), of bytes] obtain a p n' xs' where
      a: "AllocateObject bytes (heap_in k) = Inr (a, p)" "heap_ok frame page n' xs' a"
      "ss_mem (al_store a) = ss_mem (al_store (heap_in k))" "n \<le> n'" "n' \<le> Suc n"
      "if (ucast bytes :: u16) = 64 then n' = Suc n \<and> p = page_slots page ! n \<and> p \<noteq> 0 else p = 0" by blast
  have "km_ram (heap_out k a) = km_ram k" using a(3) by (simp add: heap_in_def heap_out_def)
  moreover have "kmalloc bytes k = Inr (heap_out k a, p)" using a(1) by (simp add: kmalloc_def KHeap_Allocate_def)
  ultimately show ?thesis using a ok unfolding memory_ok_def by (auto simp: heap_in_out)
qed

lemma distinct_filter_nth: "distinct (filter P xs) \<Longrightarrow> j < i \<Longrightarrow> i < length xs \<Longrightarrow> P (xs ! i) \<Longrightarrow> xs ! j \<noteq> xs ! i"
proof (induction xs arbitrary: i j)
  case (Cons x xs)
  then show ?case by (cases i; cases j) (auto split: if_splits simp: nth_Cons')
qed simp

lemma kmallocs_ok:
  assumes "memory_ok frame page n hs ls k" "n + length reqs \<le> 63"
  shows "\<exists>k' ps. kmallocs reqs k = Inr (k', ps) \<and> length ps = length reqs \<and> km_ram k' = km_ram k \<and>
           (\<forall>i < length reqs. if (ucast (reqs ! i) :: u16) = 64 then ps ! i \<in> set (drop n (page_slots page)) \<and> ps ! i \<noteq> 0 else ps ! i = 0) \<and>
           distinct (filter (\<lambda>p. p \<noteq> 0) ps) \<and> set ps \<subseteq> insert 0 (set (drop n (page_slots page)))"
  using assms
proof (induction reqs arbitrary: n k)
  case (Cons bytes reqs)
  then have n: "n < 63" by simp
  from kmalloc_ok [OF Cons.prems(1) n, of bytes] obtain k1 p n' where
      k1: "kmalloc bytes k = Inr (k1, p)" "memory_ok frame page n' hs ls k1" "km_ram k1 = km_ram k" "n \<le> n'" "n' \<le> Suc n"
      "if (ucast bytes :: u16) = 64 then n' = Suc n \<and> p = page_slots page ! n \<and> p \<noteq> 0 else p = 0" by blast
  have "n' + length reqs \<le> 63" using k1(5) Cons.prems(2) by simp
  from Cons.IH [OF k1(2) this] obtain k2 ps where k2: "kmallocs reqs k1 = Inr (k2, ps)" "length ps = length reqs"
      "km_ram k2 = km_ram k1" "distinct (filter (\<lambda>p. p \<noteq> 0) ps)"
      "\<forall>i < length reqs. if (ucast (reqs ! i) :: u16) = 64 then ps ! i \<in> set (drop n' (page_slots page)) \<and> ps ! i \<noteq> 0 else ps ! i = 0"
      "set ps \<subseteq> insert 0 (set (drop n' (page_slots page)))" by blast
  from Cons.prems(1) obtain xs where "heap_ok frame page n xs (heap_in k)" by (auto simp: memory_ok_def)
  then have d: "distinct (page_slots page)" using n heap_slots(1) by simp
  have sub: "set (drop n' (page_slots page)) \<subseteq> set (drop n (page_slots page))"
    using k1(4) by (rule set_drop_subset_set_drop)
  have dr: "drop n (page_slots page) = page_slots page ! n # drop (Suc n) (page_slots page)"
    using n by (intro drop_slot) simp
  have p: "p = 0 \<or> p \<in> set (drop n (page_slots page)) \<and> p \<notin> set (drop n' (page_slots page))"
    using k1(6) dr distinct_drop [OF d, of n] by (auto split: if_splits)
  then have "p = 0 \<or> p \<notin> set ps" using k2(6) by blast
  moreover have "if (ucast ((bytes # reqs) ! i) :: u16) = 64 then (p # ps) ! i \<in> set (drop n (page_slots page)) \<and> (p # ps) ! i \<noteq> 0
      else (p # ps) ! i = 0" if "i < length (bytes # reqs)" for i
    using that k1(6) k2(5) p sub by (cases i) (auto split: if_splits)
  ultimately show ?case using k1(1,3) k2(1-4,6) p sub by auto
qed simp


section \<open>The last buffer of the first slab\<close>

text \<open>
  The slab is full and moves to the full list; the partial list is left with the slab's link as its head, the address
  of the dead local variable.
\<close>

definition first_slab_full :: "addr \<Rightarrow> addr \<Rightarrow> slab_allocator \<Rightarrow> bool" where
  "first_slab_full frame page a \<longleftrightarrow>
     (let s = al_store a; b = ss_bufs s (m_buffer64 a)
      in slab_ok (ss_mem s) (ss_lds s page) [] \<and> Full (ss_lds s page) \<and> ld_ring (ss_lds s) [page] \<and>
         b_fullLists b = page \<and> b_partialLists b = frame \<and> b_freeLists b = 0)"

lemma heap_last_slot:
  assumes ok: "heap_ok frame page 63 xs a" and pg: "page \<noteq> 0" and fr: "frame \<noteq> 0" "frame \<noteq> page"
  shows "\<exists>a'. alloc64 a = Inr (a', page_slots page ! 63) \<and> first_slab_full frame page a' \<and>
           ss_mem (al_store a') = ss_mem (al_store a)"
proof -
  let ?s = "al_store a" and ?ld = "ss_lds (al_store a) page" and ?b = "m_buffer64 a"
  note h = ok [unfolded heap_ok_def Let_def]
  have f: "first_slab page ?ld" and sl: "slab_ok (ss_mem ?s) ?ld (drop 63 (page_slots page))" using h by simp_all
  have "unat (m_buffersUsed ?ld) = 63" using heap_ok_used [OF ok] by simp
  then have used: "m_buffersUsed ?ld = 63" by (simp add: word_unat_eq_iff)
  then have tot: "m_totalBuffers ?ld = 64" "m_buffersUsed ?ld \<noteq> m_totalBuffers ?ld"
    "m_buffersUsed ?ld + 1 = m_totalBuffers ?ld" using f by (simp_all add: first_slab_def)
  have dr: "drop 63 (page_slots page) = page_slots page ! 63 # drop 64 (page_slots page)"
    using drop_slot [of 63 page] by (simp add: numeral_eq_Suc)
  from Allocate_ok [OF sl] tot dr obtain ld where ld: "Allocate (ss_mem ?s) ?ld = Inr (ld, page_slots page ! 63)"
      "ld = ?ld\<lparr>m_nextFree := m_nextFree ld, m_buffersUsed := m_buffersUsed ?ld + 1\<rparr>" "slab_ok (ss_mem ?s) ld []" by auto
  have ldf: "first_slab page ld" "m_nextList ld = frame" "m_prevList ld = page" "Full ld" "BufferSize ld = 64"
    using f h tot by (subst ld(2); simp add: first_slab_def Full_def BufferSize_def)+
  have nz: "page_slots page ! 63 \<noteq> 0"
    using slab_cells_bounds(2) [OF sl, of "page_slots page ! 63"] dr by simp
  let ?r = "ld\<lparr>m_nextList := page, m_prevList := page\<rparr>"
  have rok: "slab_ok (ss_mem ?s) ?r []"
    using ld(3) by (simp add: slab_ok_def slab_geometry_def slab_bytes_def slab_slots_def slab_tail_def slab_cells_def)
  have rfull: "Full ?r" using ldf(4) by (simp add: Full_def)
  obtain w where w: "walk_fuel = Suc w" using walk_fuel_Suc by blast
  have "HasSpace ?ld" using used tot by (simp add: HasSpace_def)
  then have "\<exists>s'. AddToPartial ?b ?s = Inr (s', page_slots page ! 63) \<and> ss_mem s' = ss_mem ?s \<and>
      ss_lds s' page = ?r \<and> b_fullLists (ss_bufs s' ?b) = page \<and> b_partialLists (ss_bufs s' ?b) = frame \<and>
      b_freeLists (ss_bufs s' ?b) = 0"
    using h ld(1) ldf pg fr
    by (simp add: w AddToPartial_def ld_allocate_def MovePartialHead_def move_head_def Let_def ExtractSelf_def
          Buffer_AddList_def rassert_def TryAddFullList_def try_add_def set_next_def set_prev_def BufferSize_def Full_def)
  then obtain s' where s': "AddToPartial ?b ?s = Inr (s', page_slots page ! 63)" "ss_mem s' = ss_mem ?s"
      "ss_lds s' page = ?r" "b_fullLists (ss_bufs s' ?b) = page" "b_partialLists (ss_bufs s' ?b) = frame"
      "b_freeLists (ss_bufs s' ?b) = 0" by blast
  let ?a = "a\<lparr>al_store := upd_buf ?b (\<lambda>b. b\<lparr>b_opCount := b_opCount b + 1\<rparr>) s'\<rparr>"
  have "alloc64 a = Inr (?a, page_slots page ! 63)"
    using h nz pg s'(1) by (simp add: alloc64_def Buffer_Allocate_def)
  moreover have "first_slab_full frame page ?a"
    using s' rok rfull pg by (simp add: first_slab_full_def Let_def ring_def)
  ultimately show ?thesis using s'(2) by (intro exI [of _ ?a]) simp
qed


lemma kmallocs_append:
  "kmallocs (xs @ ys) k = rbind (kmallocs xs k) (\<lambda>(k, ps). rbind (kmallocs ys k) (\<lambda>(k, qs). Inr (k, ps @ qs)))"
  by (induction xs arbitrary: k) (auto simp: rbind_def split: sum.splits)

lemma kmallocs_slots:
  assumes "memory_ok frame page n hs ls k" "n + m \<le> 63"
  shows "\<exists>k'. kmallocs (replicate m 64) k = Inr (k', take m (drop n (page_slots page))) \<and>
           memory_ok frame page (n + m) hs ls k'"
  using assms
proof (induction m arbitrary: n k)
  case (Suc m)
  then have n: "n < 63" by simp
  from kmalloc_ok [OF Suc.prems(1) n, of 64] obtain k1 where
      k1: "kmalloc 64 k = Inr (k1, page_slots page ! n)" "memory_ok frame page (Suc n) hs ls k1" by auto
  from Suc.IH [OF k1(2)] Suc.prems(2) obtain k2 where
      k2: "kmallocs (replicate m 64) k1 = Inr (k2, take m (drop (Suc n) (page_slots page)))"
      "memory_ok frame page (Suc n + m) hs ls k2" by auto
  have "drop n (page_slots page) = page_slots page ! n # drop (Suc n) (page_slots page)"
    using n by (intro drop_slot) simp
  with k1(1) k2 show ?case by simp
qed simp

lemma kmalloc_last_slot:
  assumes "memory_ok frame page 63 hs ls k" "frame \<noteq> 0" "frame \<noteq> page"
  shows "\<exists>k'. kmalloc 64 k = Inr (k', page_slots page ! 63) \<and> first_slab_full frame page (heap_in k')"
proof -
  from assms(1) obtain xs where ok: "page \<noteq> 0" "heap_ok frame page 63 xs (heap_in k)" by (auto simp: memory_ok_def)
  from heap_last_slot [OF ok(2,1) assms(2,3)] obtain a where
      a: "alloc64 (heap_in k) = Inr (a, page_slots page ! 63)" "first_slab_full frame page a" by blast
  have "m_buffer64 (heap_in k) \<noteq> 0" using ok(2) by (simp add: heap_ok_def Let_def ring_def)
  then have "AllocateObject 64 (heap_in k) = alloc64 (heap_in k)"
    using heap_GetBuffer [OF ok(2), of 64] by (simp add: AllocateObject_def alloc64_def)
  with a show ?thesis by (simp add: kmalloc_def KHeap_Allocate_def heap_in_out)
qed

section \<open>Properties\<close>

text \<open>An empty heap beside the memory map \<open>small_map\<close>, whose lowest high page is the first slab.\<close>

definition fresh_memory :: kernel_memory where
  "fresh_memory =
     \<lparr>km_ram = one_page,
      km_heap = \<lparr>al_store = \<lparr>ss_mem = (\<lambda>_. 0), ss_lds = (\<lambda>p. new_ListDescriptor p 0 0 0), ss_bufs = (\<lambda>p. new_Buffer p 0)\<rparr>,
                 m_buffer64 = 0xF000, m_lowAddrBuffer = 0\<rparr>\<rparr>"

lemma small_map_first:
  "high_pages small_map @ low_pages small_map = 0x100000000 # [0x100001000, 0x100002000, 0x1000, 0x2000, 0x8000]"
  by (simp add: small_map_def high_pages_def low_pages_def region_pages_def CUTOFF_def PAGESIZE_def)

lemma small_map_slab_bound: "unat (0x100000000 :: addr) + 0x11000 < 2 ^ 64"
  by simp

lemma fresh_memory_pristine: "pristine 0x100000000 fresh_memory"
proof -
  have "0xF000 \<notin> set (page_slots 0x100000000)"
    using page_slots_range [of "0xF000" "0x100000000"] by auto
  then show ?thesis by (simp add: pristine_def fresh_memory_def)
qed

text \<open>
  C35. From power-on to kmalloc.  Take a memory map whose useable regions are ascending, do not overlap, start above
  address 0, end below the end of the address space and are whole numbers of pages, with at least one useable page; let
  \<open>page\<close> be the page the allocator serves first, at least 0x11000 bytes below the end of the address space; let the frame
  address of the start-up routine's local descriptor be neither null nor \<open>page\<close>; and let the heap be as the kernel image
  holds it (the 64-byte buffer freshly constructed, at a non-null address that is no buffer of \<open>page\<close>).  Then the page
  allocator and the heap start up, the heap keeps that page and every other useable page stays free.  After that, for
  any sequence of up to 61 requests, each request for 64 bytes (modulo 65536, the width the size is cut to) gets an
  object of that page that no earlier request got, every request of another size gets null, and the page allocator
  is not asked again.
\<close>

theorem boot_then_kmalloc:
  assumes "regions_ok 1 (filter useable (m_entries mm))" "high_pages mm @ low_pages mm = page # rest"
    and "unat page + 0x11000 < 2 ^ 64" "frame \<noteq> 0" "frame \<noteq> page" "pristine page k" "List.length reqs \<le> 61"
  shows "\<exists>k1 k2 ps. boot mm frame k = Inr k1 \<and> kmallocs reqs k1 = Inr (k2, ps) \<and> List.length ps = List.length reqs \<and>
           (\<forall>i < List.length reqs. if (ucast (reqs ! i) :: u16) = 64
              then ps ! i \<in> set (drop 2 (page_slots page)) \<and> (\<forall>j < i. ps ! j \<noteq> ps ! i) else ps ! i = 0) \<and>
           km_ram k2 = km_ram k1 \<and>
           freelist_ok (km_ram k2) (if high_pages mm = [] then [] else tl (high_pages mm))
             (if high_pages mm = [] then tl (low_pages mm) else low_pages mm)"
proof -
  from boot_ok [OF assms(1-6)] obtain k1 where k1: "boot mm frame k = Inr k1"
      "memory_ok frame page 2 (if high_pages mm = [] then [] else tl (high_pages mm))
         (if high_pages mm = [] then tl (low_pages mm) else low_pages mm) k1" by blast
  have "2 + length reqs \<le> 63" using assms(7) by simp
  from kmallocs_ok [OF k1(2) this] obtain k2 ps where k2: "kmallocs reqs k1 = Inr (k2, ps)" "length ps = length reqs"
      "km_ram k2 = km_ram k1" "distinct (filter (\<lambda>p. p \<noteq> 0) ps)"
      "\<forall>i < length reqs. if (ucast (reqs ! i) :: u16) = 64 then ps ! i \<in> set (drop 2 (page_slots page)) \<and> ps ! i \<noteq> 0
         else ps ! i = 0" by blast
  have "ps ! j \<noteq> ps ! i" if "i < length ps" "j < i" "ps ! i \<noteq> 0" for i j
    using distinct_filter_nth [OF k2(4) that(2,1)] that(3) by metis
  with k1 k2 show ?thesis unfolding memory_ok_def by (intro exI [of _ k1] exI [of _ k2] exI [of _ ps]) auto
qed

theorem boot_then_kmalloc_witness:
  "\<exists>k1 k2 ps. boot small_map 0x7000 fresh_memory = Inr k1 \<and> kmallocs [64, 24, 64] k1 = Inr (k2, ps) \<and>
     ps ! 0 \<in> set (page_slots 0x100000000) \<and> ps ! 1 = 0 \<and> ps ! 2 \<in> set (page_slots 0x100000000) \<and> ps ! 0 \<noteq> ps ! 2"
proof -
  define reqs :: "u64 list" where "reqs = [64, 24, 64]"
  have r: "length reqs = 3" "reqs ! 0 = 64" "reqs ! 1 = 24" "reqs ! 2 = 64" by (simp_all add: reqs_def)
  have "(0x7000 :: addr) \<noteq> 0" "(0x7000 :: addr) \<noteq> 0x100000000" "length reqs \<le> 61" using r(1) by simp_all
  from boot_then_kmalloc [OF small_map_regions small_map_first small_map_slab_bound this(1,2) fresh_memory_pristine this(3)]
  obtain k1 k2 ps where k: "boot small_map 0x7000 fresh_memory = Inr k1" "kmallocs reqs k1 = Inr (k2, ps)"
      and all: "\<forall>i < length reqs. if (ucast (reqs ! i) :: u16) = 64
         then ps ! i \<in> set (drop 2 (page_slots 0x100000000)) \<and> (\<forall>j < i. ps ! j \<noteq> ps ! i) else ps ! i = 0" by blast
  note at = all [THEN spec, THEN mp]
  have "ps ! 0 \<in> set (drop 2 (page_slots 0x100000000))" using at [of 0] r by simp
  moreover have "ps ! 2 \<in> set (drop 2 (page_slots 0x100000000))" "\<forall>j < 2. ps ! j \<noteq> ps ! 2" using at [of 2] r by simp_all
  moreover have "ps ! 1 = 0" using at [of 1] r by simp
  ultimately show ?thesis using k [unfolded reqs_def] in_set_dropD [of _ 2 "page_slots 0x100000000"]
    by (intro exI [of _ k1] exI [of _ k2] exI [of _ ps] conjI) simp_all
qed

text \<open>
  C36. The request after those leaves the heap with a dangling list: once 62 objects of 64 bytes are handed out, all
  buffers of the first slab in turn, the slab moves to the full list and the head of the partial list is the address
  \<open>frame\<close> of the local variable in which \<open>InitialiseLists\<close> built the descriptor, since its destructor ran after the
  copy was linked and left the copy pointing at it.
\<close>

theorem kmalloc_leaves_dangling_list:
  assumes "regions_ok 1 (filter useable (m_entries mm))" "high_pages mm @ low_pages mm = page # rest"
    and "unat page + 0x11000 < 2 ^ 64" "frame \<noteq> 0" "frame \<noteq> page" "pristine page k"
  shows "\<exists>k1 k2. boot mm frame k = Inr k1 \<and>
           kmallocs (replicate 62 64) k1 = Inr (k2, drop 2 (page_slots page)) \<and> first_slab_full frame page (heap_in k2)"
proof -
  from boot_ok [OF assms] obtain k1 hs ls where k1: "boot mm frame k = Inr k1" "memory_ok frame page 2 hs ls k1"
    by blast
  have "(2 :: nat) + 61 \<le> 63" by simp
  from kmallocs_slots [OF k1(2) this] obtain k2 where
      k2: "kmallocs (replicate 61 64) k1 = Inr (k2, take 61 (drop 2 (page_slots page)))" "memory_ok frame page 63 hs ls k2"
    by auto
  from kmalloc_last_slot [OF k2(2) assms(4,5)] obtain k3 where
      k3: "kmalloc 64 k2 = Inr (k3, page_slots page ! 63)" "first_slab_full frame page (heap_in k3)" by blast
  have "take 61 (drop 2 (page_slots page)) @ [page_slots page ! 63] = drop 2 (page_slots page)"
    using take_Suc_conv_app_nth [of 61 "drop 2 (page_slots page)"] by simp
  moreover have "replicate 62 64 = replicate 61 (64 :: u64) @ [64]" by (simp add: replicate_append_same [symmetric] numeral_eq_Suc)
  ultimately have "kmallocs (replicate 62 64) k1 = Inr (k3, drop 2 (page_slots page))"
    using k2(1) k3(1) by (simp only: kmallocs_append kmallocs.simps rbind_Inr prod.case append_Nil)
  with k1(1) k3(2) show ?thesis by blast
qed

theorem kmalloc_leaves_dangling_list_witness:
  "\<exists>k1 k2. boot small_map 0x7000 fresh_memory = Inr k1 \<and>
     kmallocs (replicate 62 64) k1 = Inr (k2, drop 2 (page_slots 0x100000000)) \<and>
     first_slab_full 0x7000 0x100000000 (heap_in k2)"
  by (rule kmalloc_leaves_dangling_list
        [OF small_map_regions small_map_first small_map_slab_bound _ _ fresh_memory_pristine]) simp_all

end
