(* ===== verification/Slab_Double_Free.thy ===== *)
theory Slab_Double_Free
  imports Slab_List
begin

text \<open>
  A buffer returned twice (\<open>ListDescriptor::Deallocate\<close> does not look for it): its cell then links to itself, and what
  the slab serves from there on is that one buffer.
\<close>

section \<open>A free list that ends in a self link\<close>

lemma takeWhile_below:
  fixes b :: addr
  assumes "b \<in> set xs" "ascending xs"
  shows "\<exists>post. xs = takeWhile (\<lambda>y. y < b) xs @ b # post"
  using assms by (induction xs) force+

lemma Deallocate_again:
  assumes c: "chain m (m_nextFree ld) fs" "ascending fs" and b: "b \<in> set fs"
    and run: "ObjectInRange ld b" "m_buffersUsed ld \<noteq> 0"
  shows "\<exists>m' h. Deallocate b m ld = Inr (m', ld\<lparr>m_nextFree := h, m_buffersUsed := m_buffersUsed ld - 1\<rparr>) \<and>
           lseg m' h (takeWhile (\<lambda>y. y < b) fs) b \<and> m' b = b"
proof -
  let ?pre = "takeWhile (\<lambda>y. y < b) fs"
  obtain post where fs: "fs = ?pre @ b # post" using takeWhile_below [OF b c(2)] by blast
  have "chain m (m_nextFree ld) (?pre @ b # post)" using c(1) fs by simp
  then have seg: "lseg m (m_nextFree ld) ?pre b" by simp
  have nz: "b \<noteq> 0" "m_nextFree ld \<noteq> 0" using lseg_nonzero [OF c(1)] b c(1) by (metis, auto)
  have "fs \<noteq> []" using b by auto
  note walk = free_walk_splits [OF c(1) this, of b]
  have "dropWhile (\<lambda>y. y < b) fs = b # post"
    using fs takeWhile_dropWhile_id [of "\<lambda>y. y < b" fs] by (metis same_append_eq)
  then have "hd (dropWhile (\<lambda>y. y < b) fs @ [0]) = b" by simp
  note walk = walk [unfolded this]
  show ?thesis
  proof (cases "?pre" rule: rev_cases)
    case Nil
    then show ?thesis using walk run nz by (simp add: Deallocate_def)
  next
    case (snoc as a)
    then have seg': "lseg m (m_nextFree ld) as a" "m a = b" using seg by auto
    have "distinct (as @ [a] @ b # post)" using ascending_distinct [OF c(2)] fs snoc by (metis append_assoc)
    then have d: "a \<noteq> b" "a \<notin> set as" "b \<notin> set as" by auto
    have "a \<in> set fs" using fs snoc by (metis in_set_conv_decomp append_Cons append_assoc)
    then have "a \<noteq> 0" using lseg_nonzero [OF c(1)] by metis
    then have "Deallocate b m ld = Inr (m(a := b, b := b), ld\<lparr>m_buffersUsed := m_buffersUsed ld - 1\<rparr>)"
      using walk run nz snoc by (simp add: Deallocate_def)
    moreover have "ld\<lparr>m_buffersUsed := m_buffersUsed ld - 1\<rparr>
        = ld\<lparr>m_nextFree := m_nextFree ld, m_buffersUsed := m_buffersUsed ld - 1\<rparr>" by simp
    moreover have "lseg (m(a := b, b := b)) (m_nextFree ld) ?pre b" using seg' d snoc \<open>a \<noteq> 0\<close> by simp
    ultimately show ?thesis by (metis fun_upd_same)
  qed
qed

lemma take_pages_self_link:
  assumes "lseg m (m_nextFree ld) xs b" "m b = b" "b \<noteq> 0"
    and "n + unat (m_buffersUsed ld) \<le> unat (m_totalBuffers ld)"
  shows "\<exists>ld'. take_pages slab_alloc n (m, ld) = Inr ((m, ld'), take n (xs @ replicate n b))"
  using assms
proof (induction n arbitrary: ld xs)
  case (Suc n)
  let ?p = "m_nextFree ld" and ?u = "m_buffersUsed ld + 1"
  have lt: "m_buffersUsed ld < m_totalBuffers ld" using Suc.prems(4) by (simp add: word_less_nat_alt)
  note inc = unat_used_inc [OF lt]
  let ?ld = "ld\<lparr>m_nextFree := (if ?u = m_totalBuffers ld then 0 else m ?p), m_buffersUsed := ?u\<rparr>"
  have p: "?p \<noteq> 0" using Suc.prems(1,3) by (cases xs) auto
  with lt have alloc: "slab_alloc (m, ld) = Inr ((m, ?ld), ?p)"
    by (auto simp: slab_alloc_def Allocate_def Let_def)
  have next_in: "lseg m (m ?p) (tl xs) b" using Suc.prems(1,2) by (cases xs) auto
  have heads: "take (Suc n) (xs @ replicate (Suc n) b) = ?p # take n (tl xs @ replicate n b)"
  proof (cases xs)
    case Nil
    then show ?thesis using Suc.prems(1) by simp
  next
    case (Cons x ys)
    then show ?thesis using Suc.prems(1) by (auto simp: min_def simp del: replicate_Suc)
  qed
  show ?case
  proof (cases "?u = m_totalBuffers ld")
    case True
    then have "n = 0" using Suc.prems(4) inc by simp
    then show ?thesis using alloc heads p by auto
  next
    case False
    then have "lseg m (m_nextFree ?ld) (tl xs) b" using next_in by simp
    moreover have "n + unat (m_buffersUsed ?ld) \<le> unat (m_totalBuffers ?ld)" using Suc.prems(4) inc by simp
    ultimately obtain ld' where "take_pages slab_alloc n (m, ?ld) = Inr ((m, ld'), take n (tl xs @ replicate n b))"
      using Suc.IH [of ?ld "tl xs"] Suc.prems(2,3) by blast
    then show ?thesis using alloc heads p by auto
  qed
qed simp

lemma slab_used:
  assumes "slab_ok m ld fs" "b \<in> set (slab_slots ld)" "b \<notin> set fs"
  shows "m_buffersUsed ld \<noteq> 0"
proof
  assume "m_buffersUsed ld = 0"
  then have "card (set fs \<inter> set (slab_slots ld)) = length (slab_slots ld)" and g: "slab_geometry ld"
    using assms(1) slab_slots_facts(2) [of ld] by (auto simp: slab_ok_def)
  then have "card (set fs \<inter> set (slab_slots ld)) = card (set (slab_slots ld))"
    using ascending_distinct [OF slab_slots_facts(1) [OF g]] by (simp add: distinct_card)
  then have "set fs \<inter> set (slab_slots ld) = set (slab_slots ld)" by (intro card_subset_eq) auto
  with assms(2,3) show False by blast
qed

section \<open>The property\<close>

text \<open>
  C34. A buffer of a well-formed slab that is in use is returned twice in a row: both calls succeed.  When it was the only
  buffer in use, the second call sees a slab without used buffers and changes nothing, so the slab stays well formed.
  When two or more were in use (the buffer itself included), the count of used buffers drops by two and every later
  allocation, as long as the slab counts itself not full, first serves the free buffers below the buffer and from then
  on that one buffer again and again; the free buffers above it are never served.
\<close>

theorem double_free_serves_one_buffer:
  assumes ok: "slab_ok m ld fs" and b: "b \<in> set (slab_slots ld)" "b \<notin> set fs"
  shows "\<exists>m1 ld1 m2 ld2. Deallocate b m ld = Inr (m1, ld1) \<and> Deallocate b m1 ld1 = Inr (m2, ld2) \<and> 0 < BuffersUsed ld \<and>
           (if BuffersUsed ld = 1 then m2 = m1 \<and> ld2 = ld1 \<and> slab_ok m2 ld2 (insort b fs) \<and> BuffersUsed ld2 = 0
            else BuffersUsed ld2 = BuffersUsed ld - 2 \<and>
              (\<forall>n. n + unat (BuffersUsed ld - 2) \<le> unat (TotalBuffers ld) \<longrightarrow>
                 (\<exists>ld3. take_pages slab_alloc n (m2, ld2)
                    = Inr ((m2, ld3), take n (takeWhile (\<lambda>x. x < b) fs @ replicate n b)))))"
proof -
  from Deallocate_ok [OF ok b] obtain m1 h where one:
      "Deallocate b m ld = Inr (m1, ld\<lparr>m_nextFree := h, m_buffersUsed := m_buffersUsed ld - 1\<rparr>)"
      "slab_ok m1 (ld\<lparr>m_nextFree := h, m_buffersUsed := m_buffersUsed ld - 1\<rparr>) (insort b fs)"
    by blast
  let ?ld1 = "ld\<lparr>m_nextFree := h, m_buffersUsed := m_buffersUsed ld - 1\<rparr>"
  have geo: "slab_geometry ld" "ascending fs" using ok by (simp_all add: slab_ok_def)
  have c1: "chain m1 (m_nextFree ?ld1) (insort b fs)" "ascending (insort b fs)"
    using one(2) by (simp_all add: slab_ok_def)
  have range: "b \<noteq> 0" "ObjectInRange ld b" "ObjectInRange ?ld1 b"
    using slab_slots_facts(3) [OF geo(1) b(1)] by (simp_all add: ObjectInRange_def Base_def Limit_def Pages_def)
  have some: "m_buffersUsed ld \<noteq> 0" using slab_used [OF ok b] .
  show ?thesis
  proof (cases "m_buffersUsed ld = 1")
    case True
    then have "Deallocate b m1 ?ld1 = Inr (m1, ?ld1)" by (simp add: Deallocate_def)
    with one True show ?thesis by (simp add: BuffersUsed_def)
  next
    case False
    then have used: "m_buffersUsed ?ld1 \<noteq> 0" by simp
    have pre: "takeWhile (\<lambda>x. x < b) (insort b fs) = takeWhile (\<lambda>x. x < b) fs"
      using b(2) by (induction fs) auto
    obtain m2 h2 where two:
        "Deallocate b m1 ?ld1 = Inr (m2, ?ld1\<lparr>m_nextFree := h2, m_buffersUsed := m_buffersUsed ?ld1 - 1\<rparr>)"
        "lseg m2 h2 (takeWhile (\<lambda>x. x < b) fs) b" "m2 b = b"
      using Deallocate_again [OF c1 _ range(3) used] unfolding pre by (auto simp: set_insort_key)
    let ?ld2 = "?ld1\<lparr>m_nextFree := h2, m_buffersUsed := m_buffersUsed ?ld1 - 1\<rparr>"
    have cnt: "BuffersUsed ?ld2 = BuffersUsed ld - 2" by (simp add: BuffersUsed_def)
    have "\<exists>ld3. take_pages slab_alloc n (m2, ?ld2) = Inr ((m2, ld3), take n (takeWhile (\<lambda>x. x < b) fs @ replicate n b))"
      if "n + unat (BuffersUsed ld - 2) \<le> unat (TotalBuffers ld)" for n
      using take_pages_self_link [of m2 ?ld2 "takeWhile (\<lambda>x. x < b) fs" b n] that two range(1)
      by (simp add: BuffersUsed_def TotalBuffers_def)
    with one(1) two(1) cnt False some show ?thesis
      by (intro exI [of _ m1] exI [of _ ?ld1] exI [of _ m2] exI [of _ ?ld2])
         (simp add: BuffersUsed_def word_gt_0)
  qed
qed

theorem double_free_serves_one_buffer_witness:
  "\<exists>m ld m1 ld1 m2 ld2 ld3 b. Deallocate b m ld = Inr (m1, ld1) \<and> Deallocate b m1 ld1 = Inr (m2, ld2) \<and>
     take_pages slab_alloc 3 (m2, ld2) = Inr ((m2, ld3), [b, b, b])"
proof -
  obtain m ld where l: "SetupLinkage (\<lambda>_. 0) slab_example = Inr (m, ld)" "slab_ok m ld (slab_cells slab_example)"
    using slab_example_linked by blast
  have "m_buffersUsed slab_example = 0" by (simp add: slab_example_def new_ListDescriptor_def)
  from SetupLinkage_ok [OF slab_example_geometry this, of "\<lambda>_. 0"] l(1)
  have ld: "ld = slab_example\<lparr>m_nextFree := m_baseAddress slab_example\<rparr>" by auto
  let ?u = "\<lambda>ld n. ld\<lparr>m_nextFree := m_nextFree ld, m_buffersUsed := n\<rparr>"
  have n0: "m_buffersUsed ld = 0" "m_totalBuffers ld = 5"
    unfolding ld by (simp_all add: slab_example_def new_ListDescriptor_def)
  from Allocate_ok [OF l(2)] n0 obtain ld1 where ld1: "hd (slab_cells slab_example) \<in> set (slab_slots ld)"
      "ld1 = ld\<lparr>m_nextFree := m_nextFree ld1, m_buffersUsed := 1\<rparr>"
      "slab_ok m ld1 (tl (slab_cells slab_example))"
    by auto
  have n1: "m_buffersUsed ld1 = 1" "m_totalBuffers ld1 = 5" "slab_slots ld1 = slab_slots ld"
    by (subst ld1(2); simp add: n0)+
  from Allocate_ok [OF ld1(3)] n1 obtain ld2 where ld2:
      "ld2 = ld1\<lparr>m_nextFree := m_nextFree ld2, m_buffersUsed := 2\<rparr>"
      "slab_ok m ld2 (tl (tl (slab_cells slab_example)))"
    by auto
  have n2: "m_buffersUsed ld2 = 2" "m_totalBuffers ld2 = 5" "slab_slots ld2 = slab_slots ld"
    by (subst ld2(1); simp add: n1)+
  have cells: "slab_cells slab_example = [0x55000, 0x55300, 0x55600, 0x55900, 0x55C00, 0x55F00]"
    by (simp add: slab_cells_def slab_slots_def slab_tail_def slab_bytes_def slab_example_def new_ListDescriptor_def)
  have "0x55000 \<in> set (slab_slots ld2)" using ld1(1) n2(3) cells by simp
  with double_free_serves_one_buffer [OF ld2(2), of "0x55000"] n2(1,2) obtain m1 e1 m2 e2 where
      d: "Deallocate 0x55000 m ld2 = Inr (m1, e1)" "Deallocate 0x55000 m1 e1 = Inr (m2, e2)"
      and all: "\<forall>n. n \<le> 5 \<longrightarrow> (\<exists>e3. take_pages slab_alloc n (m2, e2) = Inr ((m2, e3), replicate n 0x55000))"
    by (auto simp: cells BuffersUsed_def TotalBuffers_def)
  have three: "replicate 3 0x55000 = [0x55000, 0x55000, 0x55000]" by (simp add: numeral_3_eq_3)
  from all have "\<exists>e3. take_pages slab_alloc 3 (m2, e2) = Inr ((m2, e3), replicate 3 0x55000)" by simp
  with d three show ?thesis by metis
qed

end
