(* ===== verification/Slab_Tests.thy ===== *)
theory Slab_Tests
  imports Slab_Buffer_Free "HOL-Library.State_Monad"
begin

text \<open>
  The unit tests of the slab heap (\<open>kernel/unit_tests/slab\<close>) as programs over the model, and what a run of one shows: its
  checks hold, for every address the pages and the objects under test may have.  This theory holds the test driver and the
  tests that build and link descriptors; the following two hold the allocation patterns of a slab and of a buffer.
\<close>

section \<open>Running a test\<close>

text \<open>
  A test works on the store of the heap.  A \<open>CHECK\<close> that fails is counted and the test goes on; a \<open>REQUIRE\<close> or a
  \<open>kassert\<close> that fails ends the test, as does an operation that does not return.  What an ended test would do next is
  skipped.  The user-mode build turns \<open>kassert\<close> into an \<open>assert\<close> of a string, which never fails; here it keeps its
  condition, so a test that passes here passes there.
\<close>

record test_state =
  ts_store :: slab_store
  ts_passed :: bool
  ts_ended :: "fault option"

type_synonym 'a test = "(test_state, 'a) state"

definition act :: "(slab_store \<Rightarrow> slab_store result) \<Rightarrow> unit test" where
  "act f = State (\<lambda>t. ((),
     if ts_ended t \<noteq> None then t
     else case f (ts_store t) of Inl e \<Rightarrow> t\<lparr>ts_ended := Some e\<rparr> | Inr s \<Rightarrow> t\<lparr>ts_store := s\<rparr>))"

definition act_ptr :: "(slab_store \<Rightarrow> (slab_store \<times> addr) result) \<Rightarrow> addr test" where
  "act_ptr f = State (\<lambda>t.
     if ts_ended t \<noteq> None then (0, t)
     else case f (ts_store t) of Inl e \<Rightarrow> (0, t\<lparr>ts_ended := Some e\<rparr>) | Inr (s, p) \<Rightarrow> (p, t\<lparr>ts_store := s\<rparr>))"

definition fetch :: "(slab_store \<Rightarrow> 'a) \<Rightarrow> 'a test" where
  "fetch f = State (\<lambda>t. (f (ts_store t), t))"

definition CHECK :: "(slab_store \<Rightarrow> bool) \<Rightarrow> unit test" where
  "CHECK c = State (\<lambda>t. ((),
     if ts_ended t \<noteq> None then t else t\<lparr>ts_passed := ts_passed t \<and> c (ts_store t)\<rparr>))"

definition REQUIRE :: "(slab_store \<Rightarrow> bool) \<Rightarrow> unit test" where
  "REQUIRE c = State (\<lambda>t. ((),
     if ts_ended t \<noteq> None \<or> c (ts_store t) then t
     else t\<lparr>ts_passed := False, ts_ended := Some AssertFailed\<rparr>))"

text \<open>A condition that reads through the pointer \<open>p\<close>.\<close>

definition CHECK_at :: "(slab_store \<Rightarrow> addr) \<Rightarrow> (slab_store \<Rightarrow> bool) \<Rightarrow> unit test" where
  "CHECK_at p c = act (\<lambda>s. rbind (guard_ptr (p s)) (\<lambda>_. Inr s)) \<bind> (\<lambda>_. CHECK c)"

definition REQUIRE_at :: "(slab_store \<Rightarrow> addr) \<Rightarrow> (slab_store \<Rightarrow> bool) \<Rightarrow> unit test" where
  "REQUIRE_at p c = act (\<lambda>s. rbind (guard_ptr (p s)) (\<lambda>_. Inr s)) \<bind> (\<lambda>_. REQUIRE c)"

definition kassert_that :: "(slab_store \<Rightarrow> bool) \<Rightarrow> unit test" where
  "kassert_that c = act (\<lambda>s. rbind (rassert (c s)) (\<lambda>_. Inr s))"

text \<open>The state of a test that has passed so far.\<close>

definition passing :: "slab_store \<Rightarrow> test_state" where
  "passing s = \<lparr>ts_store = s, ts_passed = True, ts_ended = None\<rparr>"

definition passes :: "unit test \<Rightarrow> slab_store \<Rightarrow> bool" where
  "passes test s = (let t = snd (run_state test (passing s)) in ts_passed t \<and> ts_ended t = None)"

section \<open>The objects under test\<close>

text \<open>A page filled with zeros, and the constructors and destructors of local objects at an address.\<close>

definition new_Page :: "addr \<Rightarrow> unit test" where
  "new_Page page = act (\<lambda>s. Inr (s\<lparr>ss_mem := \<lambda>a. if page \<le> a \<and> a < page + 0x1000 then 0 else ss_mem s a\<rparr>))"

definition new_desc :: "addr \<Rightarrow> addr \<Rightarrow> u16 \<Rightarrow> u8 \<Rightarrow> unit test" where
  "new_desc desc base sz pages =
     act (\<lambda>s. Inr (s\<lparr>ss_lds := (ss_lds s)(desc := new_ListDescriptor desc base sz pages)\<rparr>))"

definition new_buf :: "addr \<Rightarrow> u16 \<Rightarrow> unit test" where
  "new_buf buf sz = act (\<lambda>s. Inr (upd_buf buf (\<lambda>_. new_Buffer buf sz) s))"

definition end_desc :: "addr \<Rightarrow> unit test" where
  "end_desc desc = act (\<lambda>s. rbind (ExtractSelf desc (ss_lds s)) (\<lambda>(d, _). Inr (s\<lparr>ss_lds := d\<rparr>)))"

definition end_buf :: "addr \<Rightarrow> unit test" where
  "end_buf buf = act (\<lambda>s. rbind (Buffer_ExtractSelf buf (ss_bufs s)) (\<lambda>(d, _). Inr (s\<lparr>ss_bufs := d\<rparr>)))"

text \<open>Their operations.\<close>

definition setup_linkage :: "addr \<Rightarrow> unit test" where
  "setup_linkage desc = act (\<lambda>s. rbind (SetupLinkage (ss_mem s) (ss_lds s desc)) (\<lambda>(m, ld).
     Inr (s\<lparr>ss_mem := m, ss_lds := (ss_lds s)(desc := ld)\<rparr>)))"

definition alloc :: "addr \<Rightarrow> addr test" where
  "alloc desc = act_ptr (ld_allocate desc)"

definition dealloc :: "addr \<Rightarrow> addr \<Rightarrow> unit test" where
  "dealloc desc obj = act (ld_deallocate desc obj)"

definition write_word :: "addr \<Rightarrow> u64 \<Rightarrow> unit test" where
  "write_word obj v = act (\<lambda>s. rbind (store (ss_mem s) obj v) (\<lambda>m. Inr (s\<lparr>ss_mem := m\<rparr>)))"

definition add_list :: "addr \<Rightarrow> addr \<Rightarrow> unit test" where
  "add_list this src = act (\<lambda>s. rbind (AddList this src (ss_lds s)) (\<lambda>d. Inr (s\<lparr>ss_lds := d\<rparr>)))"

definition remove_list :: "addr \<Rightarrow> addr \<Rightarrow> unit test" where
  "remove_list this e = act (\<lambda>s. rbind (Remove this e (ss_lds s)) (\<lambda>d. Inr (s\<lparr>ss_lds := d\<rparr>)))"

definition NextList :: "addr \<Rightarrow> slab_store \<Rightarrow> addr" where "NextList desc s = m_nextList (ss_lds s desc)"
definition PrevList :: "addr \<Rightarrow> slab_store \<Rightarrow> addr" where "PrevList desc s = m_prevList (ss_lds s desc)"

section \<open>Weakest preconditions\<close>

named_theorems wp_simps and wp_rules

definition wp :: "'a test \<Rightarrow> ('a \<Rightarrow> test_state \<Rightarrow> bool) \<Rightarrow> test_state \<Rightarrow> bool" where
  "wp m Q t = (case run_state m t of (x, t') \<Rightarrow> Q x t')"

definition finished :: "'a \<Rightarrow> test_state \<Rightarrow> bool" where
  "finished x t \<longleftrightarrow> (\<exists>s. t = passing s)"

lemma wp_passes: "wp test finished (passing s) \<Longrightarrow> passes test s"
  by (cases "run_state test (passing s)") (auto simp: wp_def finished_def passes_def passing_def)

lemma finished_passing [simp, wp_simps]: "finished x (passing s)"
  by (auto simp: finished_def)

lemma wp_bind [wp_simps]: "wp (m \<bind> f) Q t = wp m (\<lambda>x. wp (f x) Q) t"
  by (auto simp: wp_def split: prod.splits)

lemma wp_mono: "wp m P t \<Longrightarrow> (\<And>x t. P x t \<Longrightarrow> Q x t) \<Longrightarrow> wp m Q t"
  by (auto simp: wp_def split: prod.splits)

lemma wp_return [wp_simps]: "wp (State_Monad.return x) Q t = Q x t"
  by (simp add: wp_def)

lemma wp_act [wp_simps]: "f s = Inr s' \<Longrightarrow> wp (act f) Q (passing s) = Q () (passing s')"
  by (simp add: wp_def act_def passing_def)

lemma wp_act_ptr: "f s = Inr (s', p) \<Longrightarrow> wp (act_ptr f) Q (passing s) = Q p (passing s')"
  by (simp add: wp_def act_ptr_def passing_def)

lemma wp_fetch [wp_simps]: "wp (fetch f) Q (passing s) = Q (f s) (passing s)"
  by (simp add: wp_def fetch_def passing_def)

lemma wp_CHECK [wp_simps]: "c s \<Longrightarrow> wp (CHECK c) Q (passing s) = Q () (passing s)"
  by (simp add: wp_def CHECK_def passing_def)

lemma wp_REQUIRE [wp_simps]: "c s \<Longrightarrow> wp (REQUIRE c) Q (passing s) = Q () (passing s)"
  by (simp add: wp_def REQUIRE_def passing_def)

lemma wp_CHECK_at [wp_simps]: "p s \<noteq> 0 \<Longrightarrow> c s \<Longrightarrow> wp (CHECK_at p c) Q (passing s) = Q () (passing s)"
  by (simp add: CHECK_at_def wp_bind wp_act [of _ s s] wp_CHECK)

lemma wp_REQUIRE_at [wp_simps]: "p s \<noteq> 0 \<Longrightarrow> c s \<Longrightarrow> wp (REQUIRE_at p c) Q (passing s) = Q () (passing s)"
  by (simp add: REQUIRE_at_def wp_bind wp_act [of _ s s] wp_REQUIRE)

lemma wp_kassert [wp_simps]: "c s \<Longrightarrow> wp (kassert_that c) Q (passing s) = Q () (passing s)"
  by (simp add: kassert_that_def wp_act [of _ s s] rassert_def)


section \<open>Destructors\<close>

fun end_descs :: "addr list \<Rightarrow> unit test" where
  "end_descs [] = State_Monad.return ()"
| "end_descs (d # ds) = do { end_desc d; end_descs ds }"

declare end_descs.simps [simp del]

definition links_in :: "addr set \<Rightarrow> lds \<Rightarrow> bool" where
  "links_in D d \<longleftrightarrow> 0 \<notin> D \<and> (\<forall>x \<in> D. m_nextList (d x) \<in> D \<and> m_prevList (d x) \<in> D)"

lemma ExtractSelf_links_in:
  assumes "links_in D d" "x \<in> D"
  shows "\<exists>d'. ExtractSelf x d = Inr (d', x) \<and> links_in D d'"
proof -
  have nz: "m_nextList (d x) \<noteq> 0" "m_prevList (d x) \<noteq> 0" using assms by (auto simp: links_in_def)
  have upd: "links_in D (set_next p v d')" "links_in D (set_prev p v d')" if "links_in D d'" "v \<in> D" for p v d'
    using that by (auto simp: links_in_def set_next_def set_prev_def)
  have at: "m_nextList (d' x) \<in> D" "m_prevList (d' x) \<in> D" if "links_in D d'" for d'
    using that assms(2) by (simp_all add: links_in_def)
  show ?thesis using assms nz by (simp add: ExtractSelf_def Let_def upd at)
qed

lemma wp_end_descs_then:
  assumes "links_in D (ss_lds s)" "set xs \<subseteq> D" "\<And>s'. Q () (passing s')"
  shows "wp (end_descs xs) Q (passing s)"
  using assms(1,2)
proof (induction xs arbitrary: s)
  case (Cons x xs)
  then obtain d where "ExtractSelf x (ss_lds s) = Inr (d, x)" "links_in D d"
    using ExtractSelf_links_in [of D "ss_lds s" x] by auto
  with Cons show ?case by (simp add: end_descs.simps wp_simps end_desc_def wp_act [where s' = "s\<lparr>ss_lds := d\<rparr>"])
qed (simp add: end_descs.simps wp_simps assms(3))

lemma wp_end_descs:
  "links_in D (ss_lds s) \<Longrightarrow> set xs \<subseteq> D \<Longrightarrow> wp (end_descs xs) finished (passing s)"
  by (rule wp_end_descs_then) simp_all

section \<open>Building a descriptor\<close>

fun PageEquals :: "nat \<Rightarrow> addr \<Rightarrow> u8 \<Rightarrow> (addr \<Rightarrow> u8) \<Rightarrow> bool" where
  "PageEquals 0 page val bytes \<longleftrightarrow> True"
| "PageEquals (Suc n) page val bytes \<longleftrightarrow> (if bytes page \<noteq> val then False else PageEquals n (page + 1) val bytes)"

definition test_poison :: "addr \<Rightarrow> addr \<Rightarrow> (addr \<Rightarrow> u8) \<Rightarrow> bool" where
  "test_poison page desc bytes =
     PageEquals 0x1000 page 0xBE (PoisonFreeArea 0xBE (new_ListDescriptor desc page 8 1)
       (\<lambda>a. if page \<le> a \<and> a < page + 0x1000 then 0 else bytes a))"

definition init_checks :: "addr \<Rightarrow> addr \<Rightarrow> u16 \<Rightarrow> unit test" where
  "init_checks page desc sz = do {
     CHECK (\<lambda>s. BufferSize (ss_lds s desc) = sz);
     CHECK (\<lambda>s. Pages (ss_lds s desc) = 1);
     CHECK (\<lambda>s. TotalBuffers (ss_lds s desc) = 0x1000 div sz);
     CHECK (\<lambda>s. BuffersUsed (ss_lds s desc) = 0);
     CHECK (\<lambda>s. Base (ss_lds s desc) = page);
     CHECK (\<lambda>s. Limit (ss_lds s desc) = page + 0x1000);
     CHECK (\<lambda>s. InitialFreeSpace (ss_lds s desc) = 0x1000);
     CHECK (\<lambda>s. SpaceAfterAllocation (ss_lds s desc) = 0x1000 - (0x1000 div sz) * sz);
     CHECK (\<lambda>s. Full (ss_lds s desc) = False);
     CHECK (\<lambda>s. Empty_ld (ss_lds s desc) = True);
     CHECK (\<lambda>s. HasSpace (ss_lds s desc) = True);
     end_descs [desc] }"

definition test_init_8 :: "addr \<Rightarrow> addr \<Rightarrow> unit test" where
  "test_init_8 page desc = do { new_Page page; new_desc desc page 8 1; init_checks page desc 8 }"

definition test_init_400 :: "addr \<Rightarrow> addr \<Rightarrow> unit test" where
  "test_init_400 page desc = do { new_Page page; new_desc desc page 400 1; init_checks page desc 400 }"

definition test_init_1 :: "addr \<Rightarrow> addr \<Rightarrow> unit test" where
  "test_init_1 page desc = do { new_Page page; new_desc desc page 1 1; init_checks page desc 8 }"

definition test_init_4 :: "addr \<Rightarrow> addr \<Rightarrow> unit test" where
  "test_init_4 page desc = do { new_Page page; new_desc desc page 4 1; init_checks page desc 8 }"

lemma test_poison_ok:
  assumes "unat page + 0x1000 < 2 ^ 64"
  shows "test_poison page desc bytes"
proof -
  let ?ld = "new_ListDescriptor desc page 8 1"
  have limit: "unat (Limit ?ld) = unat page + 0x1000" using assms
    by (simp add: Limit_def Base_def Pages_def new_ListDescriptor_def unat_add_no_wrap)
  have "PageEquals n a 0xBE (PoisonFreeArea 0xBE ?ld f)" if "unat page \<le> unat a" "unat a + n \<le> unat page + 0x1000" for n a f
    using that
  proof (induction n arbitrary: a)
    case (Suc n)
    then have "ObjectInRange ?ld a" using limit
      by (simp add: ObjectInRange_def Base_def new_ListDescriptor_def word_le_nat_alt word_less_nat_alt)
    moreover have "unat (a + 1) = unat a + 1" using Suc.prems assms using unat_add_no_wrap [of a 1] by simp
    ultimately show ?case using Suc by (simp add: PoisonFreeArea_def)
  qed simp
  from this [of page "0x1000"] show ?thesis unfolding test_poison_def by simp
qed

lemmas field_defs = BufferSize_def Pages_def TotalBuffers_def BuffersUsed_def Base_def Limit_def InitialFreeSpace_def
  SpaceAfterAllocation_def Full_def Empty_ld_def HasSpace_def NextList_def PrevList_def NextFreeBuffer_def

lemma init_checks_ok:
  assumes "desc \<noteq> 0" "ss_lds s desc = new_ListDescriptor desc page bufsz 1"
    and "sz = (if bufsz < 8 then 8 else bufsz)" "bufsz = 8 \<or> bufsz = 400 \<or> bufsz = 1 \<or> bufsz = 4"
  shows "wp (init_checks page desc sz) finished (passing s)"
proof -
  have "wp (end_descs [desc]) finished (passing s)"
    by (rule wp_end_descs [of "{desc}"]) (use assms(1,2) in \<open>simp_all add: links_in_def new_ListDescriptor_def\<close>)
  then show ?thesis using assms
    by (elim disjE) (simp_all add: init_checks_def wp_simps field_defs new_ListDescriptor_def)
qed

lemma test_init_ok:
  assumes "desc \<noteq> 0"
  shows "passes (test_init_8 page desc) s" "passes (test_init_400 page desc) s"
    "passes (test_init_1 page desc) s" "passes (test_init_4 page desc) s"
  using assms by (simp_all add: wp_passes test_init_8_def test_init_400_def test_init_1_def test_init_4_def
      wp_simps new_Page_def new_desc_def init_checks_ok)

section \<open>Linking descriptors\<close>

definition test_link_one :: "addr \<Rightarrow> addr \<Rightarrow> unit test" where
  "test_link_one page1 desc1 = do {
     new_Page page1;
     new_desc desc1 page1 8 1;
     CHECK (\<lambda>s. PrevList desc1 s = desc1);
     CHECK (\<lambda>s. NextList desc1 s = desc1);
     end_descs [desc1] }"

definition test_link_self :: "addr \<Rightarrow> addr \<Rightarrow> unit test" where
  "test_link_self page1 desc1 = do {
     new_Page page1;
     new_desc desc1 page1 8 1;
     add_list desc1 desc1;
     CHECK (\<lambda>s. PrevList desc1 s = desc1);
     CHECK (\<lambda>s. PrevList desc1 s = desc1);
     end_descs [desc1] }"

definition test_link_two ::
    "addr \<Rightarrow> addr \<Rightarrow> addr \<Rightarrow> addr \<Rightarrow> unit test" where
  "test_link_two page1 page2 desc1 desc2 = do {
     new_Page page1;
     new_Page page2;
     new_desc desc1 page1 8 1;
     new_desc desc2 page2 8 1;
     add_list desc1 desc2;
     CHECK (\<lambda>s. PrevList desc1 s = desc2);
     CHECK (\<lambda>s. NextList desc1 s = desc2);
     CHECK (\<lambda>s. PrevList desc2 s = desc1);
     CHECK (\<lambda>s. NextList desc2 s = desc1);
     end_descs [desc2, desc1] }"

definition test_link_three ::
    "addr \<Rightarrow> addr \<Rightarrow> addr \<Rightarrow> addr \<Rightarrow> addr \<Rightarrow> addr \<Rightarrow> unit test" where
  "test_link_three page1 page2 page3 desc1 desc2 desc3 = do {
     new_Page page1;
     new_Page page2;
     new_Page page3;
     new_desc desc1 page1 8 1;
     new_desc desc2 page2 8 1;
     new_desc desc3 page3 8 1;
     add_list desc1 desc2;
     add_list desc1 desc3;
     CHECK (\<lambda>s. PrevList desc1 s = desc3);
     CHECK (\<lambda>s. NextList desc1 s = desc2);
     CHECK (\<lambda>s. PrevList desc2 s = desc1);
     CHECK (\<lambda>s. NextList desc2 s = desc3);
     CHECK (\<lambda>s. PrevList desc3 s = desc2);
     CHECK (\<lambda>s. NextList desc3 s = desc1);
     end_descs [desc3, desc2, desc1] }"

definition test_link_sizes ::
    "addr \<Rightarrow> addr \<Rightarrow> addr \<Rightarrow> addr \<Rightarrow> addr \<Rightarrow> addr \<Rightarrow> addr \<Rightarrow> addr \<Rightarrow> unit test" where
  "test_link_sizes page1 page2 page3 page4 desc1 desc2 desc3 desc4 = do {
     new_Page page1;
     new_Page page2;
     new_Page page3;
     new_Page page4;
     new_desc desc1 page1 8 1;
     new_desc desc2 page2 16 1;
     new_desc desc3 page3 24 1;
     new_desc desc4 page4 32 1;
     CHECK (\<lambda>s. PrevList desc1 s = desc1);
     CHECK (\<lambda>s. NextList desc1 s = desc1);
     add_list desc1 desc2;
     CHECK (\<lambda>s. PrevList desc1 s = desc1);
     CHECK (\<lambda>s. NextList desc1 s = desc1);
     add_list desc1 desc3;
     CHECK (\<lambda>s. PrevList desc1 s = desc1);
     CHECK (\<lambda>s. NextList desc1 s = desc1);
     add_list desc1 desc4;
     CHECK (\<lambda>s. PrevList desc1 s = desc1);
     CHECK (\<lambda>s. NextList desc1 s = desc1);
     add_list desc2 desc3;
     CHECK (\<lambda>s. PrevList desc2 s = desc2);
     CHECK (\<lambda>s. NextList desc2 s = desc2);
     add_list desc2 desc4;
     CHECK (\<lambda>s. PrevList desc2 s = desc2);
     CHECK (\<lambda>s. NextList desc2 s = desc2);
     add_list desc3 desc4;
     CHECK (\<lambda>s. PrevList desc3 s = desc3);
     CHECK (\<lambda>s. PrevList desc3 s = desc3);
     CHECK (\<lambda>s. NextList desc4 s = desc4);
     CHECK (\<lambda>s. NextList desc4 s = desc4);
     end_descs [desc4, desc3, desc2, desc1] }"

definition test_link_remove ::
    "addr \<Rightarrow> addr \<Rightarrow> addr \<Rightarrow> addr \<Rightarrow> addr \<Rightarrow> addr \<Rightarrow> addr \<Rightarrow> unit test" where
  "test_link_remove page1 page2 page3 page4 desc1 desc2 desc3 = do {
     new_Page page1;
     new_Page page2;
     new_Page page3;
     new_Page page4;
     new_desc desc1 page1 8 1;
     new_desc desc2 page2 8 1;
     new_desc desc3 page3 8 1;
     add_list desc1 desc2;
     add_list desc1 desc3;
     REQUIRE (\<lambda>s. PrevList desc1 s = desc3);
     REQUIRE (\<lambda>s. NextList desc1 s = desc2);
     REQUIRE (\<lambda>s. PrevList desc2 s = desc1);
     REQUIRE (\<lambda>s. NextList desc2 s = desc3);
     REQUIRE (\<lambda>s. PrevList desc3 s = desc2);
     REQUIRE (\<lambda>s. NextList desc3 s = desc1);
     remove_list desc1 desc3;
     CHECK (\<lambda>s. PrevList desc1 s = desc2);
     CHECK (\<lambda>s. NextList desc1 s = desc2);
     CHECK (\<lambda>s. PrevList desc2 s = desc1);
     CHECK (\<lambda>s. NextList desc2 s = desc1);
     remove_list desc1 desc2;
     CHECK (\<lambda>s. PrevList desc1 s = desc1);
     CHECK (\<lambda>s. NextList desc1 s = desc1);
     end_descs [desc3, desc2, desc1] }"

definition test_remove_self :: "addr \<Rightarrow> addr \<Rightarrow> unit test" where
  "test_remove_self page1 desc1 = do {
     new_Page page1;
     new_desc desc1 page1 8 1;
     remove_list desc1 desc1;
     CHECK (\<lambda>s. PrevList desc1 s = desc1);
     CHECK (\<lambda>s. PrevList desc1 s = desc1);
     end_descs [desc1] }"


lemmas link_defs = add_list_def remove_list_def new_desc_def new_Page_def AddList_def Remove_def unlink_entry_def Let_def
  set_next_def set_prev_def NextList_def PrevList_def BufferSize_def new_ListDescriptor_def

lemma test_link_one_ok:
  assumes "desc1 \<noteq> 0"
  shows "passes (test_link_one page1 desc1) s" "passes (test_link_self page1 desc1) s"
    "passes (test_remove_self page1 desc1) s"
  using assms wp_end_descs [of "{desc1}"]
  by - (rule wp_passes, simp add: test_link_one_def test_link_self_def test_remove_self_def wp_simps link_defs links_in_def)+

lemma test_link_two_ok:
  assumes "distinct [desc1, desc2, 0]"
  shows "passes (test_link_two page1 page2 desc1 desc2) s"
  using assms [simplified] wp_end_descs [of "{desc1, desc2}"]
  by (intro wp_passes) (clarsimp simp: test_link_two_def wp_simps link_defs links_in_def)

lemma test_link_three_ok:
  assumes "distinct [desc1, desc2, desc3, 0]"
  shows "passes (test_link_three page1 page2 page3 desc1 desc2 desc3) s"
    "passes (test_link_remove page1 page2 page3 page4 desc1 desc2 desc3) s"
  using assms [simplified] wp_end_descs [of "{desc1, desc2, desc3}"]
  by - (rule wp_passes, clarsimp simp: test_link_three_def test_link_remove_def wp_simps link_defs links_in_def)+

lemma test_link_sizes_ok:
  assumes "distinct [desc1, desc2, desc3, desc4, 0]"
  shows "passes (test_link_sizes page1 page2 page3 page4 desc1 desc2 desc3 desc4) s"
  using assms [simplified] wp_end_descs [of "{desc1, desc2, desc3, desc4}"]
  by (intro wp_passes) (clarsimp simp: test_link_sizes_def wp_simps link_defs links_in_def)

end
