(* ===== verification/Slab_Tests_Memory.thy ===== *)
theory Slab_Tests_Memory
  imports Slab_Tests
begin

text \<open>
  The unit tests that allocate from and free to one slab: contiguous allocation, exhaustion and the memory patterns.  A run is
  followed on an abstract state, the indices of the free buffers in order and the words written to those in use.
\<close>

section \<open>The abstract state of one slab\<close>

text \<open>Element \<open>i\<close> of an array of objects of \<open>sz\<close> bytes at \<open>page\<close>.\<close>

definition elem_addr :: "addr \<Rightarrow> u16 \<Rightarrow> nat \<Rightarrow> addr" where
  "elem_addr page sz i = page + of_nat i * ucast sz"

definition page_at :: "addr \<Rightarrow> bool" where
  "page_at page \<longleftrightarrow> 0 < unat page \<and> even (unat page) \<and> unat page + 0x11000 < 2 ^ 64"

definition slab1 ::
    "addr \<Rightarrow> u16 \<Rightarrow> nat \<Rightarrow> addr \<Rightarrow> nat list \<Rightarrow> (nat \<Rightarrow> u64 option) \<Rightarrow> slab_store \<Rightarrow> bool" where
  "slab1 page sz n desc fr c s \<longleftrightarrow>
     (let ld = ss_lds s desc
      in page_at page \<and> 8 \<le> unat sz \<and> unat sz * n = 0x1000 \<and> desc \<noteq> 0 \<and>
         m_baseAddress ld = page \<and> m_bufferSize ld = sz \<and> unat (m_totalBuffers ld) = n \<and> m_pages ld = 1 \<and>
         m_nextList ld = desc \<and> m_prevList ld = desc \<and>
         slab_ok (ss_mem s) ld (map (elem_addr page sz) fr) \<and> set fr \<subseteq> {..<n} \<and>
         (\<forall>i v. c i = Some v \<longrightarrow> i < n \<and> i \<notin> set fr \<and> ss_mem s (elem_addr page sz i) = v))"

lemma slots_from_elem_addr: "slots_from page (ucast sz) k = map (elem_addr page sz) [0..<k]"
proof (induction k)
  case (Suc k)
  show ?case unfolding slots_from_Suc Suc.IH by (simp add: elem_addr_def)
qed simp

lemma elem_addr_unat:
  assumes "page_at page" "i * unat sz \<le> 0x1000"
  shows "unat (elem_addr page sz i) = unat page + i * unat sz"
proof -
  have "i \<le> 0x1000 \<or> unat sz = 0"
    using assms(2) mult_le_mono2 [of 1 "unat sz" i] by (cases "unat sz") auto
  then have "unat (of_nat i * ucast sz :: u64) = i * unat sz"
    using assms(2) by (auto simp: unat_word_ariths unat_of_nat)
  with assms show ?thesis by (simp add: elem_addr_def page_at_def unat_add_no_wrap)
qed

lemma slab1_unat: "slab1 page sz n desc fr c s \<Longrightarrow> i \<le> n \<Longrightarrow> unat (elem_addr page sz i) = unat page + i * unat sz"
  using mult_le_mono1 [of i n "unat sz"]
  by (intro elem_addr_unat) (auto simp: slab1_def Let_def mult.commute)

lemma slab1_inj: "slab1 page sz n desc fr c s \<Longrightarrow> i \<le> n \<Longrightarrow> j \<le> n \<Longrightarrow> elem_addr page sz i = elem_addr page sz j \<longleftrightarrow> i = j"
  using slab1_unat [of page sz n desc fr c s i] slab1_unat [of page sz n desc fr c s j]
  by (auto simp: word_unat_eq_iff slab1_def Let_def)

lemma slab1_less: "slab1 page sz n desc fr c s \<Longrightarrow> i \<le> n \<Longrightarrow> j \<le> n \<Longrightarrow> elem_addr page sz i < elem_addr page sz j \<longleftrightarrow> i < j"
  using slab1_unat [of page sz n desc fr c s i] slab1_unat [of page sz n desc fr c s j]
  by (auto simp: word_less_nat_alt slab1_def Let_def)

lemma slab1_slots:
  assumes "slab1 page sz n desc fr c s"
  shows "slab_slots (ss_lds s desc) = map (elem_addr page sz) [0..<n]"
    "slab_cells (ss_lds s desc) = map (elem_addr page sz) [0..<n]"
proof -
  show sl: "slab_slots (ss_lds s desc) = map (elem_addr page sz) [0..<n]"
    using assms by (simp add: slab1_def Let_def slab_slots_def slots_from_elem_addr)
  have "unat sz dvd 0x1000" using assms by (metis dvd_triv_left slab1_def)
  then show "slab_cells (ss_lds s desc) = map (elem_addr page sz) [0..<n]"
    using assms sl by (simp add: slab_cells_def slab_bytes_def slab1_def Let_def)
qed

lemma slab1_used:
  assumes s1: "slab1 page sz n desc fr c s"
  shows "length fr \<le> n" "unat (m_buffersUsed (ss_lds s desc)) = n - length fr"
proof -
  have ok: "slab_ok (ss_mem s) (ss_lds s desc) (map (elem_addr page sz) fr)" and sub: "set fr \<subseteq> {..<n}"
    and tot: "unat (m_totalBuffers (ss_lds s desc)) = n" using s1 by (simp_all add: slab1_def Let_def)
  have "distinct (map (elem_addr page sz) fr)" using ok ascending_distinct by (auto simp: slab_ok_def)
  then have "card (set (map (elem_addr page sz) fr)) = length fr" using distinct_card by fastforce
  moreover have "set (map (elem_addr page sz) fr) \<inter> set (slab_slots (ss_lds s desc)) = set (map (elem_addr page sz) fr)"
    using sub by (auto simp: slab1_slots [OF s1])
  ultimately have "length fr + unat (m_buffersUsed (ss_lds s desc)) = n" using ok tot by (simp add: slab_ok_def)
  then show "length fr \<le> n" "unat (m_buffersUsed (ss_lds s desc)) = n - length fr" by linarith+
qed

lemma slab1_n: "slab1 page sz n desc fr c s \<Longrightarrow> 0 < n \<and> n \<le> 512"
proof -
  assume "slab1 page sz n desc fr c s"
  then have "unat sz * n = 0x1000" "8 \<le> unat sz" by (simp_all add: slab1_def Let_def)
  then show ?thesis using mult_le_mono1 [of 8 "unat sz" n] by (cases n) auto
qed

text \<open>What the queries of a descriptor return.\<close>

lemma slab1_queries [wp_simps]:
  assumes "slab1 page sz n desc fr c s"
  shows "TotalBuffers (ss_lds s desc) = of_nat n" "BuffersUsed (ss_lds s desc) = of_nat (n - length fr)"
    "NextFreeBuffer (ss_lds s desc) = (if fr = [] then 0 else elem_addr page sz (hd fr))"
    "Full (ss_lds s desc) = (fr = [])" "HasSpace (ss_lds s desc) = (fr \<noteq> [])"
    "Empty_ld (ss_lds s desc) = (length fr = n)"
proof -
  note u = slab1_used [OF assms]
  have tot: "unat (m_totalBuffers (ss_lds s desc)) = n" using assms by (simp add: slab1_def Let_def)
  show t: "TotalBuffers (ss_lds s desc) = of_nat n" unfolding TotalBuffers_def tot [symmetric] by simp
  show "BuffersUsed (ss_lds s desc) = of_nat (n - length fr)" unfolding BuffersUsed_def u(2) [symmetric] by simp
  have "chain (ss_mem s) (m_nextFree (ss_lds s desc)) (map (elem_addr page sz) fr)"
    using assms by (simp add: slab1_def Let_def slab_ok_def)
  then show "NextFreeBuffer (ss_lds s desc) = (if fr = [] then 0 else elem_addr page sz (hd fr))"
    by (cases fr) (auto simp: NextFreeBuffer_def)
  show "Full (ss_lds s desc) = (fr = [])" "HasSpace (ss_lds s desc) = (fr \<noteq> [])"
    "Empty_ld (ss_lds s desc) = (length fr = n)"
    using u tot slab1_n [OF assms]
    by - (cases fr; auto simp: Full_def HasSpace_def Empty_ld_def word_unat_eq_iff word_less_nat_alt)+
qed

lemma slab1_word [wp_simps]:
  "slab1 page sz n desc fr c s \<Longrightarrow> c i \<noteq> None \<Longrightarrow> ss_mem s (elem_addr page sz i) = the (c i)"
  by (auto simp: slab1_def Let_def)

text \<open>A free buffer holds a link, which is an even number.\<close>

lemma slab1_free_word:
  assumes s1: "slab1 page sz n desc fr c s" and i: "i \<in> set fr" and "even (unat sz)"
  shows "even (unat (ss_mem s (elem_addr page sz i)))"
proof -
  have ch: "chain (ss_mem s) (m_nextFree (ss_lds s desc)) (map (elem_addr page sz) fr)" and sub: "set fr \<subseteq> {..<n}"
    and "page_at page" using s1 by (simp_all add: slab1_def Let_def slab_ok_def)
  have ev: "even (unat (elem_addr page sz j))" if "j \<in> set fr" for j
    using slab1_unat [OF s1, of j] that sub assms(3) \<open>page_at page\<close> by (auto simp: page_at_def)
  from i obtain xs ys where fr: "fr = xs @ i # ys" by (meson split_list)
  with ch have "ss_mem s (elem_addr page sz i) = (if ys = [] then 0 else elem_addr page sz (hd ys))"
    by (cases ys) auto
  then show ?thesis using ev [of "hd ys"] fr by (cases ys) auto
qed


section \<open>Rules for the operations\<close>

lemma wp_setup [wp_rules]:
  assumes "ss_lds s desc = new_ListDescriptor desc page sz 1" "page_at page" "desc \<noteq> 0" "8 \<le> unat sz"
    "unat sz * n = 0x1000"
    and "\<And>s'. slab1 page sz n desc [0..<n] Map.empty s' \<Longrightarrow> Q () (passing s')"
  shows "wp (setup_linkage desc) Q (passing s)"
proof -
  let ?ld = "ss_lds s desc"
  have n: "n \<le> 512" "0 < n" using assms(4,5) mult_le_mono1 [of 8 "unat sz" n] by (cases n; simp)+
  have "n = unat sz * n div unat sz" using assms(4) by simp
  then have "n = 0x1000 div unat sz" by (simp only: assms(5))
  note n = this n
  have small: "\<not> sz < 8" using assms(4) by (simp add: word_less_nat_alt)
  have tot: "unat (m_totalBuffers ?ld) = n"
    using n small by (simp add: assms(1) new_ListDescriptor_def unat_of_nat)
  then have g: "slab_geometry ?ld"
    using assms(2,4) n small by (simp add: slab_geometry_def slab_bytes_def page_at_def assms(1) new_ListDescriptor_def)
  have "m_buffersUsed ?ld = 0" by (simp add: assms(1) new_ListDescriptor_def)
  from SetupLinkage_ok [OF g this, of "ss_mem s"] obtain m where
      m: "SetupLinkage (ss_mem s) ?ld = Inr (m, ?ld\<lparr>m_nextFree := m_baseAddress ?ld\<rparr>)"
      "slab_ok m (?ld\<lparr>m_nextFree := m_baseAddress ?ld\<rparr>) (slab_cells ?ld)" by auto
  have "unat sz dvd 0x1000" using assms(5) by (metis dvd_triv_left)
  then have cells: "slab_cells ?ld = map (elem_addr page sz) [0..<n]"
    using small tot by (simp add: slab_cells_def slab_bytes_def slab_slots_def slots_from_elem_addr assms(1) new_ListDescriptor_def)
  let ?s = "s\<lparr>ss_mem := m, ss_lds := (ss_lds s)(desc := ?ld\<lparr>m_nextFree := m_baseAddress ?ld\<rparr>)\<rparr>"
  have "slab1 page sz n desc [0..<n] Map.empty ?s"
    using m(2) assms(1-5) tot cells small by (auto simp: slab1_def Let_def new_ListDescriptor_def)
  with assms(6) m(1) show ?thesis by (simp add: setup_linkage_def wp_act [where s' = ?s])
qed

lemma wp_alloc:
  assumes s1: "slab1 page sz n desc fr c s"
    and Q: "\<And>s'. slab1 page sz n desc (tl fr) c s' \<Longrightarrow> Q (if fr = [] then 0 else elem_addr page sz (hd fr)) (passing s')"
  shows "wp (alloc desc) Q (passing s)"
proof -
  let ?ld = "ss_lds s desc"
  note h = s1 [unfolded slab1_def Let_def]
  have ok: "slab_ok (ss_mem s) ?ld (map (elem_addr page sz) fr)" using h by blast
  note A = Allocate_ok [OF ok] and q = slab1_queries [OF s1]
  have full: "m_buffersUsed ?ld = m_totalBuffers ?ld \<longleftrightarrow> fr = []" using q(4) by (auto simp: Full_def)
  show ?thesis
  proof (cases fr)
    case Nil
    with A full have "ld_allocate desc s = Inr (s\<lparr>ss_lds := (ss_lds s)(desc := ?ld)\<rparr>, 0)" by (simp add: ld_allocate_def)
    moreover have "s\<lparr>ss_lds := (ss_lds s)(desc := ?ld)\<rparr> = s" by simp
    ultimately show ?thesis using Q [of s] s1 Nil by (simp add: alloc_def wp_act_ptr)
  next
    case (Cons i fr')
    have u: "length fr \<le> n" "unat (m_buffersUsed ?ld) = n - length fr" using slab1_used [OF s1] .
    have "m_buffersUsed ?ld + 1 = m_totalBuffers ?ld \<longleftrightarrow> fr' = []"
    proof -
      have "unat (m_buffersUsed ?ld + 1) = n - length fr'"
        using u Cons slab1_n [OF s1] unat_add_no_wrap [of "m_buffersUsed ?ld" 1] by (auto simp: Suc_diff_Suc)
      moreover have "unat (m_totalBuffers ?ld) = n" using h by blast
      ultimately show ?thesis using u Cons by (cases fr') (auto simp: word_unat_eq_iff)
    qed
    with A full Cons obtain ld where ld: "Allocate (ss_mem s) ?ld = Inr (ld, elem_addr page sz i)"
        "ld = ?ld\<lparr>m_nextFree := m_nextFree ld, m_buffersUsed := m_buffersUsed ?ld + 1\<rparr>"
        "slab_ok (ss_mem s) ld (map (elem_addr page sz) fr')" by (cases "fr' = []") auto
    let ?s = "s\<lparr>ss_lds := (ss_lds s)(desc := ld)\<rparr>"
    have "m_baseAddress ld = page" "m_bufferSize ld = sz" "unat (m_totalBuffers ld) = n" "m_pages ld = 1"
      "m_nextList ld = desc" "m_prevList ld = desc" using h by (subst ld(2); simp)+
    then have "slab1 page sz n desc fr' c ?s" using h ld(3) Cons by (auto simp: slab1_def Let_def)
    moreover have "ld_allocate desc s = Inr (?s, elem_addr page sz i)" using ld(1) by (simp add: ld_allocate_def)
    ultimately show ?thesis using Q [of ?s] Cons by (simp add: alloc_def wp_act_ptr)
  qed
qed

lemma wp_dealloc:
  assumes s1: "slab1 page sz n desc fr c s"
    and i: "i < n" "i \<notin> set fr"
    and Q: "\<And>s'. slab1 page sz n desc (insort i fr) (c(i := None)) s' \<Longrightarrow> Q () (passing s')"
  shows "wp (dealloc desc (elem_addr page sz i)) Q (passing s)"
proof -
  let ?ld = "ss_lds s desc" and ?a = "elem_addr page sz"
  note h = s1 [unfolded slab1_def Let_def]
  have ok: "slab_ok (ss_mem s) ?ld (map ?a fr)" and sub: "set fr \<subseteq> {..<n}" using h by blast+
  have le: "?a j \<in> ?a ` set fr \<longleftrightarrow> j \<in> set fr" if "j < n" for j
  proof
    assume "?a j \<in> ?a ` set fr"
    then obtain k where k: "k \<in> set fr" "?a j = ?a k" by auto
    with sub have "k < n" by auto
    with k that show "j \<in> set fr" using slab1_inj [OF s1, of j k] by simp
  qed simp
  have slot: "?a i \<in> set (slab_slots ?ld)" "?a i \<notin> set (map ?a fr)"
    using i le [of i] by (auto simp: slab1_slots [OF s1])
  from Deallocate_ok [OF ok slot] obtain m x where
      m: "Deallocate (?a i) (ss_mem s) ?ld = Inr (m, ?ld\<lparr>m_nextFree := x, m_buffersUsed := m_buffersUsed ?ld - 1\<rparr>)"
      "slab_ok m (?ld\<lparr>m_nextFree := x, m_buffersUsed := m_buffersUsed ?ld - 1\<rparr>) (insort (?a i) (map ?a fr))"
      "\<forall>y. y \<notin> insert (?a i) (set (map ?a fr)) \<longrightarrow> m y = ss_mem s y" by blast
  have "insort (?a i) (map ?a ks) = map ?a (insort i ks)" if "set ks \<subseteq> {..<n}" for ks
    using that
  proof (induction ks)
    case (Cons k ks)
    then have "?a i \<le> ?a k \<longleftrightarrow> i \<le> k" using slab1_less [OF s1, of k i] i by (auto simp: not_less [symmetric])
    then show ?case using Cons by simp
  qed simp
  then have ins: "insort (?a i) (map ?a fr) = map ?a (insort i fr)" using sub .
  let ?ld' = "?ld\<lparr>m_nextFree := x, m_buffersUsed := m_buffersUsed ?ld - 1\<rparr>"
  let ?s = "s\<lparr>ss_mem := m, ss_lds := (ss_lds s)(desc := ?ld')\<rparr>"
  have "j < n \<and> j \<notin> set (insort i fr) \<and> m (?a j) = v" if c: "(c(i := None)) j = Some v" for j v
  proof -
    from c h have j: "j \<noteq> i" "j < n" "j \<notin> set fr" "ss_mem s (?a j) = v" by (auto split: if_splits)
    then have "?a j \<noteq> ?a i" "?a j \<notin> ?a ` set fr" using slab1_inj [OF s1, of j i] i le by simp_all
    with j m(3) show ?thesis by (simp add: set_insort_key)
  qed
  then have "slab1 page sz n desc (insort i fr) (c(i := None)) ?s"
    using h m(2) i sub unfolding slab1_def Let_def ins by (auto simp: set_insort_key)
  moreover have "ld_deallocate desc (?a i) s = Inr ?s" using m(1) by (simp add: ld_deallocate_def)
  ultimately show ?thesis using Q [of ?s] by (simp add: dealloc_def wp_act)
qed

lemma wp_write_word:
  assumes s1: "slab1 page sz n desc fr c s"
    and i: "i < n" "i \<notin> set fr"
    and Q: "\<And>s'. slab1 page sz n desc fr (c(i := Some v)) s' \<Longrightarrow> Q () (passing s')"
  shows "wp (write_word (elem_addr page sz i) v) Q (passing s)"
proof -
  let ?a = "elem_addr page sz"
  note h = s1 [unfolded slab1_def Let_def]
  have ok: "slab_ok (ss_mem s) (ss_lds s desc) (map ?a fr)" and sub: "set fr \<subseteq> {..<n}" using h by blast+
  have ne: "?a j \<noteq> ?a i" if "j < n" "j \<noteq> i" for j using slab1_inj [OF s1, of j i] that i by simp
  have "?a i \<noteq> 0" using slab1_unat [OF s1, of i] i h by (auto simp: word_unat_eq_iff page_at_def)
  then have st: "store (ss_mem s) (?a i) v = Inr ((ss_mem s)(?a i := v))" by (simp add: store_def)
  let ?s = "s\<lparr>ss_mem := (ss_mem s)(?a i := v)\<rparr>"
  have "?a i \<notin> set (map ?a fr)"
  proof
    assume "?a i \<in> set (map ?a fr)"
    then obtain k where "k \<in> set fr" "?a k = ?a i" by auto
    with ne [of k] sub i show False by auto
  qed
  then have "slab_ok ((ss_mem s)(?a i := v)) (ss_lds s desc) (map ?a fr)"
    using ok lseg_cong [of "map ?a fr" "(ss_mem s)(?a i := v)" "ss_mem s"] by (auto simp: slab_ok_def)
  moreover have "((ss_mem s)(?a i := v)) (?a j) = w" if "(c(i := Some v)) j = Some w" for j w
    using that h ne [of j] by (auto split: if_splits)
  ultimately have "slab1 page sz n desc fr (c(i := Some v)) ?s"
    using h i unfolding slab1_def Let_def by (auto split: if_splits)
  with Q [of ?s] st show ?thesis by (simp add: write_word_def wp_act)
qed

lemma wp_end_desc1: "slab1 page sz n desc fr c s \<Longrightarrow> (\<And>s'. Q () (passing s')) \<Longrightarrow> wp (end_descs [desc]) Q (passing s)"
  by (rule wp_end_descs_then [of "{desc}"]) (auto simp: slab1_def Let_def links_in_def)

section \<open>Loops of the tests\<close>

text \<open>The bound of each loop is the number of buffers, which no operation changes; it is read once.\<close>

definition buffers_of :: "addr \<Rightarrow> nat test" where
  "buffers_of desc = fetch (\<lambda>s. unat (TotalBuffers (ss_lds s desc)))"

fun alloc_loop :: "nat \<Rightarrow> addr \<Rightarrow> addr \<Rightarrow> addr test" where
  "alloc_loop 0 desc leaky = State_Monad.return leaky"
| "alloc_loop (Suc k) desc leaky = do { leaky \<leftarrow> alloc desc; alloc_loop k desc leaky }"

fun count_loop :: "nat \<Rightarrow> addr \<Rightarrow> addr \<Rightarrow> nat \<Rightarrow> (addr \<times> nat) test" where
  "count_loop 0 desc leaky cnt = State_Monad.return (leaky, cnt)"
| "count_loop (Suc k) desc leaky cnt = do { leaky \<leftarrow> alloc desc; count_loop k desc leaky (cnt + 1) }"

fun pair_loop :: "nat \<Rightarrow> addr \<Rightarrow> addr \<times> addr \<Rightarrow> (addr \<times> addr) test" where
  "pair_loop 0 desc objects = State_Monad.return objects"
| "pair_loop (Suc k) desc objects = do { leaky \<leftarrow> alloc desc; pair_loop k desc (leaky, fst objects) }"

fun fill_loop :: "nat \<Rightarrow> nat \<Rightarrow> addr \<Rightarrow> addr list test" where
  "fill_loop 0 i desc = State_Monad.return []"
| "fill_loop (Suc k) i desc = do {
     p \<leftarrow> alloc desc;
     write_word p (of_nat i);
     ps \<leftarrow> fill_loop k (i + 1) desc;
     State_Monad.return (p # ps) }"

fun free_loop :: "addr list \<Rightarrow> addr \<Rightarrow> unit test" where
  "free_loop [] desc = State_Monad.return ()"
| "free_loop (p # ps) desc = do { dealloc desc p; free_loop ps desc }"

declare alloc_loop.simps [simp del] count_loop.simps [simp del] pair_loop.simps [simp del] fill_loop.simps [simp del]

lemma wp_buffers_of [wp_simps]:
  assumes "slab1 page sz n desc fr c s"
  shows "wp (buffers_of desc) Q (passing s) = Q n (passing s)"
proof -
  have "unat (TotalBuffers (ss_lds s desc)) = n" using assms by (simp add: TotalBuffers_def slab1_def Let_def)
  then show ?thesis by (simp add: buffers_of_def wp_fetch)
qed

lemma wp_alloc_loop:
  assumes "slab1 page sz n desc fr c s" "k \<le> length fr"
    and "\<And>s'. slab1 page sz n desc (drop k fr) c s' \<Longrightarrow>
          Q (if k = 0 then leaky else elem_addr page sz (fr ! (k - 1))) (passing s')"
  shows "wp (alloc_loop k desc leaky) Q (passing s)"
  using assms
proof (induction k arbitrary: leaky fr s)
  case (Suc k)
  obtain i fr' where fr: "fr = i # fr'" using Suc.prems(2) by (cases fr) auto
  have Q: "Q (if k = 0 then elem_addr page sz i else elem_addr page sz (fr' ! (k - 1))) (passing s')"
    if "slab1 page sz n desc (drop k fr') c s'" for s'
    using Suc.prems(3) [of s'] that fr by (cases k) simp_all
  show ?case unfolding alloc_loop.simps wp_bind
    by (rule wp_alloc [OF Suc.prems(1)]) (use Suc.IH [of fr' _ "elem_addr page sz i"] Q Suc.prems(2) fr in simp)
qed (simp add: alloc_loop.simps wp_return)

lemma wp_count_loop:
  assumes "slab1 page sz n desc fr c s" "k \<le> length fr"
    and "\<And>s' p. slab1 page sz n desc (drop k fr) c s' \<Longrightarrow> Q (p, cnt + k) (passing s')"
  shows "wp (count_loop k desc leaky cnt) Q (passing s)"
  using assms
proof (induction k arbitrary: leaky fr s cnt)
  case (Suc k)
  obtain i fr' where fr: "fr = i # fr'" using Suc.prems(2) by (cases fr) auto
  have Q: "Q (p, cnt + 1 + k) (passing s')" if "slab1 page sz n desc (drop k fr') c s'" for s' p
    using Suc.prems(3) [of s' p] that fr by simp
  show ?case unfolding count_loop.simps wp_bind
    by (rule wp_alloc [OF Suc.prems(1)]) (use Suc.IH [of fr' _ "cnt + 1" "elem_addr page sz i"] Q Suc.prems(2) fr in simp)
qed (simp add: count_loop.simps wp_return)

lemma wp_fill_loop:
  assumes "slab1 page sz n desc fr c s" "k \<le> length fr" "distinct fr"
    and "\<And>s' c'. slab1 page sz n desc (drop k fr) c' s' \<Longrightarrow> Q (map (elem_addr page sz) (take k fr)) (passing s')"
  shows "wp (fill_loop k j desc) Q (passing s)"
  using assms
proof (induction k arbitrary: j fr s c Q)
  case (Suc k)
  obtain i fr' where fr: "fr = i # fr'" using Suc.prems(2) by (cases fr) auto
  have n: "i < n" using Suc.prems(1) fr by (simp add: slab1_def Let_def)
  have "wp (fill_loop k (j + 1) desc) (\<lambda>ps. Q (elem_addr page sz i # ps)) (passing s2)"
    if "slab1 page sz n desc fr' c2 s2" for s2 c2
    by (rule Suc.IH [OF that]) (use Suc.prems fr in auto)
  then show ?case unfolding fill_loop.simps wp_bind wp_return
    by (intro wp_alloc [OF Suc.prems(1)]) (use fr n Suc.prems(3) in \<open>auto intro!: wp_write_word\<close>)
qed (simp add: fill_loop.simps wp_return)

section \<open>The tests\<close>

definition test_setup_buffers :: "unit test" where
  "test_setup_buffers = CHECK (\<lambda>_. False)"

definition test_contiguous :: "addr \<Rightarrow> addr \<Rightarrow> unit test" where
  "test_contiguous page desc = do {
     new_Page page;
     new_desc desc page 8 1;
     setup_linkage desc;
     obj1 \<leftarrow> alloc desc;
     write_word obj1 100;
     obj2 \<leftarrow> alloc desc;
     write_word obj2 0;
     obj3 \<leftarrow> alloc desc;
     write_word obj3 0x02323;
     obj4 \<leftarrow> alloc desc;
     write_word obj4 0xDEADBEEFDEADBEEF;
     CHECK (\<lambda>s. ss_mem s (elem_addr page 8 0) = 100);
     CHECK (\<lambda>s. ss_mem s (elem_addr page 8 1) = 0);
     CHECK (\<lambda>s. ss_mem s (elem_addr page 8 2) = 0x02323);
     CHECK (\<lambda>s. ss_mem s (elem_addr page 8 3) = 0xDEADBEEFDEADBEEF);
     end_descs [desc] }"

text \<open>The size the exhaustion test is called with is not used.\<close>

definition test_exhaust :: "addr \<Rightarrow> addr \<Rightarrow> u16 \<Rightarrow> unit test" where
  "test_exhaust page desc buffer_size = do {
     new_Page page;
     new_desc desc page 8 1;
     setup_linkage desc;
     n \<leftarrow> buffers_of desc;
     leaky \<leftarrow> alloc_loop n desc 0;
     isNull \<leftarrow> alloc desc;
     REQUIRE (\<lambda>s. isNull = 0);
     REQUIRE (\<lambda>s. NextFreeBuffer (ss_lds s desc) = 0);
     REQUIRE (\<lambda>s. BuffersUsed (ss_lds s desc) = TotalBuffers (ss_lds s desc));
     REQUIRE (\<lambda>s. Full (ss_lds s desc));
     REQUIRE (\<lambda>s. \<not> HasSpace (ss_lds s desc));
     end_descs [desc] }"

definition test_exhaust_all :: "addr \<Rightarrow> addr \<Rightarrow> unit test" where
  "test_exhaust_all page desc = do {
     test_exhaust page desc 8;
     test_exhaust page desc 16;
     test_exhaust page desc 24;
     test_exhaust page desc 32;
     test_exhaust page desc 64 }"

definition test_alloc2_dealloc2 :: "addr \<Rightarrow> addr \<Rightarrow> unit test" where
  "test_alloc2_dealloc2 page desc = do {
     new_Page page;
     new_desc desc page 512 1;
     buffers \<leftarrow> buffers_of desc;
     setup_linkage desc;
     obj1 \<leftarrow> alloc desc;
     obj2 \<leftarrow> alloc desc;
     write_word obj1 0xDEADBEEF;
     write_word obj2 0xDEADDEAD;
     CHECK (\<lambda>s. ss_mem s (elem_addr page 512 0) = 0xDEADBEEF);
     CHECK (\<lambda>s. ss_mem s (elem_addr page 512 1) = 0xDEADDEAD);
     REQUIRE (\<lambda>s. NextFreeBuffer (ss_lds s desc) = elem_addr page 512 2);
     CHECK (\<lambda>s. buffers = unat (TotalBuffers (ss_lds s desc)));
     CHECK (\<lambda>s. BuffersUsed (ss_lds s desc) = 2);
     CHECK (\<lambda>s. \<not> Empty_ld (ss_lds s desc));
     CHECK (\<lambda>s. \<not> Full (ss_lds s desc));
     dealloc desc obj1;
     REQUIRE (\<lambda>s. NextFreeBuffer (ss_lds s desc) = obj1);
     dealloc desc obj2;
     REQUIRE (\<lambda>s. NextFreeBuffer (ss_lds s desc) = obj1);
     CHECK (\<lambda>s. ss_mem s (elem_addr page 512 0) \<noteq> 0xDEADBEEF);
     CHECK (\<lambda>s. ss_mem s (elem_addr page 512 1) \<noteq> 0xDEADDEAD);
     CHECK (\<lambda>s. Empty_ld (ss_lds s desc));
     CHECK (\<lambda>s. BuffersUsed (ss_lds s desc) = 0);
     n \<leftarrow> buffers_of desc;
     (leaky, cnt) \<leftarrow> count_loop n desc 0 0;
     isNull \<leftarrow> alloc desc;
     CHECK (\<lambda>s. isNull = 0);
     CHECK (\<lambda>s. NextFreeBuffer (ss_lds s desc) = 0);
     CHECK (\<lambda>s. BuffersUsed (ss_lds s desc) = TotalBuffers (ss_lds s desc));
     CHECK (\<lambda>s. Full (ss_lds s desc));
     CHECK (\<lambda>s. \<not> HasSpace (ss_lds s desc));
     CHECK (\<lambda>s. cnt = unat (TotalBuffers (ss_lds s desc)));
     end_descs [desc] }"

definition test_alloc3_fifo :: "addr \<Rightarrow> addr \<Rightarrow> unit test" where
  "test_alloc3_fifo page desc = do {
     new_Page page;
     new_desc desc page 512 1;
     buffers \<leftarrow> buffers_of desc;
     setup_linkage desc;
     obj1 \<leftarrow> alloc desc;
     obj2 \<leftarrow> alloc desc;
     obj3 \<leftarrow> alloc desc;
     write_word obj1 0xDEADBEEF;
     write_word obj2 0xDEADDEAD;
     write_word obj3 0xBEEFBEEF;
     CHECK (\<lambda>s. ss_mem s (elem_addr page 512 0) = 0xDEADBEEF);
     CHECK (\<lambda>s. ss_mem s (elem_addr page 512 1) = 0xDEADDEAD);
     CHECK (\<lambda>s. ss_mem s (elem_addr page 512 2) = 0xBEEFBEEF);
     CHECK (\<lambda>s. buffers = unat (TotalBuffers (ss_lds s desc)));
     CHECK (\<lambda>s. BuffersUsed (ss_lds s desc) = 3);
     CHECK (\<lambda>s. \<not> Empty_ld (ss_lds s desc));
     CHECK (\<lambda>s. \<not> Full (ss_lds s desc));
     dealloc desc obj1;
     dealloc desc obj2;
     dealloc desc obj3;
     CHECK (\<lambda>s. ss_mem s (elem_addr page 512 0) \<noteq> 0xDEADBEEF);
     CHECK (\<lambda>s. ss_mem s (elem_addr page 512 1) \<noteq> 0xDEADDEAD);
     CHECK (\<lambda>s. ss_mem s (elem_addr page 512 2) \<noteq> 0xBEEFBEEF);
     CHECK (\<lambda>s. Empty_ld (ss_lds s desc));
     n \<leftarrow> buffers_of desc;
     (leaky, cnt) \<leftarrow> count_loop n desc 0 0;
     isNull \<leftarrow> alloc desc;
     REQUIRE (\<lambda>s. isNull = 0);
     REQUIRE (\<lambda>s. NextFreeBuffer (ss_lds s desc) = 0);
     REQUIRE (\<lambda>s. BuffersUsed (ss_lds s desc) = TotalBuffers (ss_lds s desc));
     REQUIRE (\<lambda>s. Full (ss_lds s desc));
     REQUIRE (\<lambda>s. \<not> HasSpace (ss_lds s desc));
     CHECK (\<lambda>s. cnt = unat (TotalBuffers (ss_lds s desc)));
     end_descs [desc] }"

definition test_dealloc_after_exhaust :: "addr \<Rightarrow> addr \<Rightarrow> unit test" where
  "test_dealloc_after_exhaust page desc = do {
     new_Page page;
     new_desc desc page 512 1;
     buffers \<leftarrow> buffers_of desc;
     setup_linkage desc;
     n \<leftarrow> buffers_of desc;
     leaky \<leftarrow> alloc_loop n desc 0;
     isNull \<leftarrow> alloc desc;
     CHECK (\<lambda>s. isNull = 0);
     CHECK (\<lambda>s. NextFreeBuffer (ss_lds s desc) = 0);
     CHECK (\<lambda>s. BuffersUsed (ss_lds s desc) = TotalBuffers (ss_lds s desc));
     CHECK (\<lambda>s. Full (ss_lds s desc));
     CHECK (\<lambda>s. \<not> HasSpace (ss_lds s desc));
     dealloc desc leaky;
     CHECK (\<lambda>s. BuffersUsed (ss_lds s desc) = TotalBuffers (ss_lds s desc) - 1);
     CHECK (\<lambda>s. NextFreeBuffer (ss_lds s desc) = leaky);
     CHECK (\<lambda>s. HasSpace (ss_lds s desc));
     leaky \<leftarrow> alloc desc;
     CHECK (\<lambda>s. isNull = 0);
     CHECK (\<lambda>s. NextFreeBuffer (ss_lds s desc) = 0);
     CHECK (\<lambda>s. BuffersUsed (ss_lds s desc) = TotalBuffers (ss_lds s desc));
     CHECK (\<lambda>s. Full (ss_lds s desc));
     CHECK (\<lambda>s. \<not> HasSpace (ss_lds s desc));
     end_descs [desc] }"

definition test_dealloc_after_exhaust_longer :: "addr \<Rightarrow> addr \<Rightarrow> unit test" where
  "test_dealloc_after_exhaust_longer page desc = do {
     new_Page page;
     new_desc desc page 512 1;
     buffers \<leftarrow> buffers_of desc;
     setup_linkage desc;
     n \<leftarrow> buffers_of desc;
     objects \<leftarrow> pair_loop n desc (0, 0);
     REQUIRE (\<lambda>s. NextFreeBuffer (ss_lds s desc) = 0);
     REQUIRE (\<lambda>s. Full (ss_lds s desc));
     dealloc desc (fst objects);
     REQUIRE (\<lambda>s. NextFreeBuffer (ss_lds s desc) \<noteq> 0);
     REQUIRE (\<lambda>s. HasSpace (ss_lds s desc));
     leaky \<leftarrow> alloc desc;
     REQUIRE (\<lambda>s. NextFreeBuffer (ss_lds s desc) = 0);
     REQUIRE (\<lambda>s. Full (ss_lds s desc));
     dealloc desc leaky;
     dealloc desc (snd objects);
     REQUIRE (\<lambda>s. NextFreeBuffer (ss_lds s desc) \<noteq> 0);
     REQUIRE (\<lambda>s. HasSpace (ss_lds s desc));
     obj0 \<leftarrow> alloc desc;
     obj1 \<leftarrow> alloc desc;
     CHECK (\<lambda>s. NextFreeBuffer (ss_lds s desc) = 0);
     CHECK (\<lambda>s. Full (ss_lds s desc));
     end_descs [desc] }"

definition test_exhaust_free_all :: "addr \<Rightarrow> addr \<Rightarrow> unit test" where
  "test_exhaust_free_all page desc = do {
     new_Page page;
     new_desc desc page 512 1;
     buffers \<leftarrow> buffers_of desc;
     setup_linkage desc;
     n \<leftarrow> buffers_of desc;
     objects \<leftarrow> fill_loop n 0 desc;
     REQUIRE (\<lambda>s. NextFreeBuffer (ss_lds s desc) = 0);
     REQUIRE (\<lambda>s. Full (ss_lds s desc));
     REQUIRE (\<lambda>s. BuffersUsed (ss_lds s desc) = TotalBuffers (ss_lds s desc));
     free_loop (rev objects) desc;
     CHECK (\<lambda>s. NextFreeBuffer (ss_lds s desc) \<noteq> 0);
     CHECK (\<lambda>s. Empty_ld (ss_lds s desc));
     CHECK (\<lambda>s. BuffersUsed (ss_lds s desc) = 0);
     end_descs [desc] }"

definition test_exhaust_free_all_twice :: "addr \<Rightarrow> addr \<Rightarrow> unit test" where
  "test_exhaust_free_all_twice page desc = do {
     new_Page page;
     new_desc desc page 512 1;
     buffers \<leftarrow> buffers_of desc;
     setup_linkage desc;
     n \<leftarrow> buffers_of desc;
     objects \<leftarrow> fill_loop n 0 desc;
     REQUIRE (\<lambda>s. NextFreeBuffer (ss_lds s desc) = 0);
     REQUIRE (\<lambda>s. Full (ss_lds s desc));
     REQUIRE (\<lambda>s. BuffersUsed (ss_lds s desc) = TotalBuffers (ss_lds s desc));
     free_loop (rev objects) desc;
     CHECK (\<lambda>s. NextFreeBuffer (ss_lds s desc) \<noteq> 0);
     CHECK (\<lambda>s. Empty_ld (ss_lds s desc));
     CHECK (\<lambda>s. BuffersUsed (ss_lds s desc) = 0);
     n \<leftarrow> buffers_of desc;
     objects \<leftarrow> fill_loop n 0 desc;
     REQUIRE (\<lambda>s. NextFreeBuffer (ss_lds s desc) = 0);
     REQUIRE (\<lambda>s. Full (ss_lds s desc));
     REQUIRE (\<lambda>s. BuffersUsed (ss_lds s desc) = TotalBuffers (ss_lds s desc));
     free_loop objects desc;
     CHECK (\<lambda>s. NextFreeBuffer (ss_lds s desc) \<noteq> 0);
     CHECK (\<lambda>s. Empty_ld (ss_lds s desc));
     CHECK (\<lambda>s. BuffersUsed (ss_lds s desc) = 0);
     end_descs [desc] }"

definition test_fragmentation :: "addr \<Rightarrow> addr \<Rightarrow> unit test" where
  "test_fragmentation page desc = do {
     new_Page page;
     new_desc desc page 512 1;
     buffers \<leftarrow> buffers_of desc;
     setup_linkage desc;
     p1 \<leftarrow> alloc desc;
     p2 \<leftarrow> alloc desc;
     p3 \<leftarrow> alloc desc;
     p4 \<leftarrow> alloc desc;
     p5 \<leftarrow> alloc desc;
     write_word p1 0xDEADBEEF;
     write_word p2 0xDEADBEEF;
     write_word p3 0xDEADBEEF;
     write_word p4 0xDEADBEEF;
     write_word p5 0xDEADBEEF;
     dealloc desc p1;
     dealloc desc p3;
     dealloc desc p5;
     CHECK (\<lambda>s. ss_mem s (elem_addr page 512 0) \<noteq> 0xDEADBEEF);
     CHECK (\<lambda>s. ss_mem s (elem_addr page 512 1) = 0xDEADBEEF);
     CHECK (\<lambda>s. ss_mem s (elem_addr page 512 2) \<noteq> 0xDEADBEEF);
     CHECK (\<lambda>s. ss_mem s (elem_addr page 512 3) = 0xDEADBEEF);
     CHECK (\<lambda>s. ss_mem s (elem_addr page 512 4) \<noteq> 0xDEADBEEF);
     CHECK (\<lambda>s. BuffersUsed (ss_lds s desc) = 2);
     n \<leftarrow> buffers_of desc;
     (leaky, cnt) \<leftarrow> count_loop (n - 2) desc 0 0;
     isNull \<leftarrow> alloc desc;
     CHECK (\<lambda>s. isNull = 0);
     CHECK (\<lambda>s. NextFreeBuffer (ss_lds s desc) = 0);
     CHECK (\<lambda>s. BuffersUsed (ss_lds s desc) = TotalBuffers (ss_lds s desc));
     CHECK (\<lambda>s. Full (ss_lds s desc));
     CHECK (\<lambda>s. \<not> HasSpace (ss_lds s desc));
     CHECK (\<lambda>s. cnt = unat (TotalBuffers (ss_lds s desc)) - 2);
     end_descs [desc] }"

text \<open>Buffers of the size of a page.\<close>

definition test_page_alloc :: "addr \<Rightarrow> addr \<Rightarrow> unit test" where
  "test_page_alloc page desc = do {
     new_Page page;
     new_desc desc page 4096 1;
     setup_linkage desc;
     obj1 \<leftarrow> alloc desc;
     write_word obj1 0xDEADBEEF;
     CHECK (\<lambda>s. ss_mem s (elem_addr page 4096 0) = 0xDEADBEEF);
     CHECK (\<lambda>s. NextFreeBuffer (ss_lds s desc) = 0);
     CHECK (\<lambda>s. BuffersUsed (ss_lds s desc) = TotalBuffers (ss_lds s desc));
     CHECK (\<lambda>s. Full (ss_lds s desc));
     CHECK (\<lambda>s. \<not> HasSpace (ss_lds s desc));
     end_descs [desc] }"

definition test_page_alloc_alloc :: "addr \<Rightarrow> addr \<Rightarrow> unit test" where
  "test_page_alloc_alloc page desc = do {
     new_Page page;
     new_desc desc page 4096 1;
     setup_linkage desc;
     obj1 \<leftarrow> alloc desc;
     write_word obj1 0xDEADBEEF;
     obj2 \<leftarrow> alloc desc;
     CHECK (\<lambda>s. obj2 = 0);
     CHECK (\<lambda>s. ss_mem s (elem_addr page 4096 0) = 0xDEADBEEF);
     CHECK (\<lambda>s. NextFreeBuffer (ss_lds s desc) = 0);
     CHECK (\<lambda>s. BuffersUsed (ss_lds s desc) = TotalBuffers (ss_lds s desc));
     CHECK (\<lambda>s. Full (ss_lds s desc));
     CHECK (\<lambda>s. \<not> HasSpace (ss_lds s desc));
     end_descs [desc] }"

definition test_page_alloc_dealloc :: "addr \<Rightarrow> addr \<Rightarrow> unit test" where
  "test_page_alloc_dealloc page desc = do {
     new_Page page;
     new_desc desc page 4096 1;
     setup_linkage desc;
     obj1 \<leftarrow> alloc desc;
     write_word obj1 0xDEADBEEF;
     CHECK (\<lambda>s. ss_mem s (elem_addr page 4096 0) = 0xDEADBEEF);
     dealloc desc obj1;
     CHECK (\<lambda>s. NextFreeBuffer (ss_lds s desc) = elem_addr page 4096 0);
     CHECK (\<lambda>s. BuffersUsed (ss_lds s desc) = 0);
     CHECK (\<lambda>s. Empty_ld (ss_lds s desc));
     CHECK (\<lambda>s. HasSpace (ss_lds s desc));
     end_descs [desc] }"

fun page_rounds :: "nat \<Rightarrow> addr \<Rightarrow> addr \<Rightarrow> unit test" where
  "page_rounds 0 page desc = State_Monad.return ()"
| "page_rounds (Suc k) page desc = do {
     obj1 \<leftarrow> alloc desc;
     write_word obj1 0x00FEEDBEBE00;
     CHECK (\<lambda>s. ss_mem s (elem_addr page 4096 0) = 0x00FEEDBEBE00);
     REQUIRE (\<lambda>s. Full (ss_lds s desc));
     dealloc desc obj1;
     CHECK (\<lambda>s. ss_mem s (elem_addr page 4096 0) \<noteq> 0xDEADBEEF);
     REQUIRE (\<lambda>s. Empty_ld (ss_lds s desc));
     page_rounds k page desc }"

definition test_page_rounds :: "addr \<Rightarrow> addr \<Rightarrow> unit test" where
  "test_page_rounds page desc = do {
     new_Page page;
     new_desc desc page 4096 1;
     setup_linkage desc;
     page_rounds 10 page desc;
     end_descs [desc] }"

section \<open>Their runs\<close>

text \<open>Only the next command of a test is simplified, not what follows it.\<close>

lemma wp_weak_cong: "m = m' \<Longrightarrow> t = t' \<Longrightarrow> wp m Q t = wp m' Q t'" by simp

lemma bind_weak_cong: "m = m' \<Longrightarrow> State_Monad.bind m f = State_Monad.bind m' f" by simp

lemma slab1_free_word_ne [wp_simps]:
  "slab1 page sz n desc fr c s \<Longrightarrow> i \<in> set fr \<Longrightarrow> even (unat sz) \<Longrightarrow> odd (unat v) \<Longrightarrow>
   ss_mem s (elem_addr page sz i) \<noteq> v"
  using slab1_free_word by blast

lemma slab1_elem_nonnull [wp_simps]:
  "slab1 page sz n desc fr c s \<Longrightarrow> i \<le> n \<Longrightarrow> elem_addr page sz i \<noteq> 0"
  using slab1_unat [of page sz n desc fr c s i] by (auto simp: slab1_def Let_def page_at_def)

lemma wp_setup_512:
  assumes "ss_lds s desc = new_ListDescriptor desc page 512 1" "page_at page" "desc \<noteq> 0"
    and "\<And>s'. slab1 page 512 8 desc [0, 1, 2, 3, 4, 5, 6, 7] Map.empty s' \<Longrightarrow> Q () (passing s')"
  shows "wp (setup_linkage desc) Q (passing s)"
proof -
  have "[0, 1, 2, 3, 4, 5, 6, 7] = [0 ..< 8]" by (simp add: upt_rec)
  with assms show ?thesis by (intro wp_setup [where n = 8 and sz = 512]) simp_all
qed

lemma wp_setup_8:
  assumes "ss_lds s desc = new_ListDescriptor desc page 8 1" "page_at page" "desc \<noteq> 0"
    and "\<And>s'. slab1 page 8 512 desc ([0, 1, 2, 3] @ [4 ..< 512]) Map.empty s' \<Longrightarrow> Q () (passing s')"
  shows "wp (setup_linkage desc) Q (passing s)"
proof -
  have "[0, 1, 2, 3] = [0 ..< 4]" by (simp add: upt_rec)
  then have "[0, 1, 2, 3] @ [4 ..< 512] = [0 ..< 512]" using upt_add_eq_append [of 0 4 508] by (simp del: upt_rec_numeral)
  with assms show ?thesis by (intro wp_setup [where n = 512 and sz = 8]) (simp_all del: upt_rec_numeral)
qed

lemma wp_setup_4096:
  assumes "ss_lds s desc = new_ListDescriptor desc page 4096 1" "page_at page" "desc \<noteq> 0"
    and "\<And>s'. slab1 page 4096 1 desc [0] Map.empty s' \<Longrightarrow> Q () (passing s')"
  shows "wp (setup_linkage desc) Q (passing s)"
  using assms by (intro wp_setup [where n = 1 and sz = 4096]) simp_all

lemma wp_buffers_new [wp_simps]:
  "ss_lds s desc = new_ListDescriptor desc page 512 1 \<Longrightarrow> wp (buffers_of desc) Q (passing s) = Q 8 (passing s)"
  by (simp add: buffers_of_def wp_fetch TotalBuffers_def new_ListDescriptor_def)

lemma wp_pair_loop:
  assumes "slab1 page sz n desc fr c s" "k \<le> length fr"
    and "\<And>s'. slab1 page sz n desc (drop k fr) c s' \<Longrightarrow>
          Q (if k = 0 then objects
             else (elem_addr page sz (fr ! (k - 1)), if k = 1 then fst objects else elem_addr page sz (fr ! (k - 2)))) (passing s')"
  shows "wp (pair_loop k desc objects) Q (passing s)"
  using assms
proof (induction k arbitrary: objects fr s)
  case (Suc k)
  obtain i fr' where fr: "fr = i # fr'" using Suc.prems(2) by (cases fr) auto
  have Q: "Q (if k = 0 then (elem_addr page sz i, fst objects)
      else (elem_addr page sz (fr' ! (k - 1)), if k = 1 then elem_addr page sz i else elem_addr page sz (fr' ! (k - 2)))) (passing s')"
    if "slab1 page sz n desc (drop k fr') c s'" for s'
    using Suc.prems(3) [of s'] that fr by (cases k; cases "k - 1") simp_all
  show ?case unfolding pair_loop.simps wp_bind
    by (rule wp_alloc [OF Suc.prems(1)])
      (use Suc.IH [of fr' _ "(elem_addr page sz i, fst objects)", unfolded fst_conv] Q Suc.prems(2) fr in simp)
qed (simp add: pair_loop.simps wp_return)

lemmas memory_test_defs = test_alloc2_dealloc2_def test_alloc3_fifo_def test_dealloc_after_exhaust_def
  test_dealloc_after_exhaust_longer_def test_exhaust_free_all_def test_exhaust_free_all_twice_def test_fragmentation_def

lemmas wp_slab1 = wp_alloc wp_dealloc wp_write_word wp_alloc_loop wp_count_loop wp_pair_loop wp_fill_loop wp_end_desc1

lemma memory_tests_ok:
  assumes "page_at page" "desc \<noteq> 0"
  shows "passes (test_alloc2_dealloc2 page desc) s" "passes (test_alloc3_fifo page desc) s"
    "passes (test_dealloc_after_exhaust page desc) s" "passes (test_dealloc_after_exhaust_longer page desc) s"
    "passes (test_exhaust_free_all page desc) s" "passes (test_exhaust_free_all_twice page desc) s"
    "passes (test_fragmentation page desc) s"
  by - (rule wp_passes, simp add: memory_test_defs wp_simps new_Page_def new_desc_def cong: wp_weak_cong bind_weak_cong,
    rule wp_setup_512, simp, rule assms, rule assms,
    (simp add: wp_simps cong: wp_weak_cong bind_weak_cong | erule wp_slab1)+)+

lemma test_contiguous_ok:
  assumes "page_at page" "desc \<noteq> 0"
  shows "passes (test_contiguous page desc) s"
  by (rule wp_passes, simp add: test_contiguous_def wp_simps new_Page_def new_desc_def cong: wp_weak_cong bind_weak_cong,
    rule wp_setup_8, simp, rule assms, rule assms,
    (simp add: wp_simps del: upt_rec_numeral cong: wp_weak_cong bind_weak_cong | erule wp_slab1)+)

lemma wp_test_exhaust:
  assumes "page_at page" "desc \<noteq> 0" "\<And>s'. Q () (passing s')"
  shows "wp (test_exhaust page desc buffer_size) Q (passing s)"
  by (simp add: test_exhaust_def wp_simps new_Page_def new_desc_def cong: wp_weak_cong bind_weak_cong,
    rule wp_setup_8, simp, rule assms, rule assms,
    (simp add: wp_simps assms(3) del: upt_rec_numeral cong: wp_weak_cong bind_weak_cong | erule wp_slab1)+)

lemma test_exhaust_all_ok:
  assumes "page_at page" "desc \<noteq> 0"
  shows "passes (test_exhaust_all page desc) s"
  by (rule wp_passes) (simp add: test_exhaust_all_def wp_bind wp_test_exhaust assms)

lemmas page_test_defs = test_page_alloc_def test_page_alloc_alloc_def test_page_alloc_dealloc_def

lemma page_tests_ok:
  assumes "page_at page" "desc \<noteq> 0"
  shows "passes (test_page_alloc page desc) s" "passes (test_page_alloc_alloc page desc) s"
    "passes (test_page_alloc_dealloc page desc) s"
  by - (rule wp_passes, simp add: page_test_defs wp_simps new_Page_def new_desc_def cong: wp_weak_cong bind_weak_cong,
    rule wp_setup_4096, simp, rule assms, rule assms,
    (simp add: wp_simps cong: wp_weak_cong bind_weak_cong | erule wp_slab1)+)+

lemma wp_page_rounds:
  assumes "slab1 page 4096 1 desc [0] c s" "\<And>s' c. slab1 page 4096 1 desc [0] c s' \<Longrightarrow> Q () (passing s')"
  shows "wp (page_rounds k page desc) Q (passing s)"
  using assms(1)
proof (induction k arbitrary: s c)
  case 0
  then show ?case using assms(2) by (simp add: wp_return)
next
  case (Suc k)
  from Suc.prems show ?case
    by (simp add: wp_simps cong: wp_weak_cong bind_weak_cong)
      ((simp add: wp_simps cong: wp_weak_cong bind_weak_cong | erule wp_slab1 | erule Suc.IH [simplified])+)
qed

lemma test_page_rounds_ok:
  assumes "page_at page" "desc \<noteq> 0"
  shows "passes (test_page_rounds page desc) s"
  by (rule wp_passes, simp add: test_page_rounds_def wp_simps new_Page_def new_desc_def cong: wp_weak_cong bind_weak_cong,
    rule wp_setup_4096, simp, rule assms, rule assms, simp only: wp_bind, erule wp_page_rounds,
    (simp add: wp_simps cong: wp_weak_cong bind_weak_cong | erule wp_slab1)+)

lemma test_setup_buffers_fails: "\<not> passes test_setup_buffers s"
  by (simp add: passes_def test_setup_buffers_def CHECK_def passing_def)

end
