(* ===== verification/Slab_Tests_World.thy ===== *)
theory Slab_Tests_World
  imports Slab_Tests_Memory
begin

text \<open>
  What a run of a buffer test is followed on: the number of buffers used of each slab and the three lists of the buffer.
  Each operation is a step of that abstract state, and leaves the slabs it does not touch as they are.
\<close>

section \<open>The links of a buffer object\<close>

text \<open>No operation on its slabs touches the links of the buffer itself.\<close>

definition buf_links :: "slab_store \<Rightarrow> addr \<Rightarrow> addr \<times> addr" where
  "buf_links s b = (b_nextBuffer (ss_bufs s b), b_prevBuffer (ss_bufs s b))"

lemma buf_links_set [simp]:
  "b_nextBuffer (set_list_head k h c) = b_nextBuffer c" "b_prevBuffer (set_list_head k h c) = b_prevBuffer c"
  by (cases k; simp)+

lemma buf_links_AddList: "Buffer_AddList b x s = Inr s' \<Longrightarrow> buf_links s' q = buf_links s q"
  by (auto simp: buf_links_def Buffer_AddList_def TryAddFullList_def TryAddFreeList_def TryAddPartialList_def
      try_add_def Let_def rbind_def guard_ptr_def rassert_def split: if_splits sum.splits)

lemma buf_links_upd: "(\<And>c. b_nextBuffer (f c) = b_nextBuffer c \<and> b_prevBuffer (f c) = b_prevBuffer c) \<Longrightarrow>
    buf_links (upd_buf b f s) q = buf_links s q"
  by (simp add: buf_links_def)

lemma buf_links_move_head: "move_head k b s = Inr s' \<Longrightarrow> buf_links s' q = buf_links s q"
  by (auto simp: move_head_def Let_def rbind_eq_Inr buf_links_upd buf_links_AddList split: if_splits
      dest!: buf_links_AddList [of b _ _ _ q]) (auto simp: buf_links_def)

lemma buf_links_move_entry: "move_entry k b x s = Inr s' \<Longrightarrow> buf_links s' q = buf_links s q"
  by (auto simp: move_entry_def Let_def rbind_eq_Inr buf_links_move_head split: if_splits
      dest!: buf_links_AddList [of b _ _ _ q]) (auto simp: buf_links_def)

lemma buf_links_ld_allocate: "ld_allocate x s = Inr (s', p) \<Longrightarrow> buf_links s' q = buf_links s q"
  by (auto simp: ld_allocate_def rbind_eq_Inr buf_links_def)

lemma buf_links_partial_loop: "partial_loop n b x s = Inr (s', p) \<Longrightarrow> buf_links s' q = buf_links s q"
proof (induction n b x s rule: partial_loop.induct)
  case (2 n b x s)
  show ?case
  proof (cases "HasSpace (ss_lds s x)")
    case True
    with 2(2) show ?thesis
      by (auto simp: rbind_eq_Inr MovePartialHead_def MovePartialEntry_def split: if_splits
          dest!: buf_links_ld_allocate [of _ _ _ _ q] buf_links_move_head [of _ _ _ _ q] buf_links_move_entry [of _ _ _ _ _ q])
  next
    case False
    with 2(2) show ?thesis by (auto simp: rbind_eq_Inr Let_def split: if_splits dest: 2(1) [OF False refl])
  qed
qed simp

lemma buf_links_Allocate: "Buffer_Allocate b s = Inr (s', p) \<Longrightarrow> buf_links s' q = buf_links s q"
proof -
  assume run: "Buffer_Allocate b s = Inr (s', p)"
  have "buf_links s1 q = buf_links s0 q" if "AddToPartial b s0 = Inr (s1, p1)" for s0 s1 p1
    using that by (auto simp: AddToPartial_def Let_def buf_links_partial_loop split: if_splits)
  moreover have "buf_links s1 q = buf_links s0 q" if "AddToFree b s0 = Inr (s1, p1)" for s0 s1 p1
    using that by (auto simp: AddToFree_def MoveFreeHead_def Let_def rbind_eq_Inr split: if_splits
        dest!: buf_links_ld_allocate [of _ _ _ _ q] buf_links_move_head [of _ _ _ _ q])
  ultimately show ?thesis using run
    by (auto simp: Buffer_Allocate_def rbind_eq_Inr buf_links_upd split: if_splits)
qed

section \<open>The abstract state of a buffer and its slabs\<close>

definition lists3 :: "'a list \<times> 'a list \<times> 'a list \<Rightarrow> list_kind \<Rightarrow> 'a list" where
  "lists3 B k = (case k of FreeLists \<Rightarrow> fst B | PartialLists \<Rightarrow> fst (snd B) | FullLists \<Rightarrow> snd (snd B))"

lemma lists3_simps [simp]:
  "lists3 (fr, pa, fu) FreeLists = fr" "lists3 (fr, pa, fu) PartialLists = pa" "lists3 (fr, pa, fu) FullLists = fu"
  by (simp_all add: lists3_def)

lemma lists3_empty [simp]: "lists3 ([], [], []) k = []"
  by (cases k) simp_all

lemma lists3_upd:
  "(lists3 (fr, pa, fu))(FreeLists := xs) = lists3 (xs, pa, fu)"
  "(lists3 (fr, pa, fu))(PartialLists := xs) = lists3 (fr, xs, fu)"
  "(lists3 (fr, pa, fu))(FullLists := xs) = lists3 (fr, pa, xs)"
  by (auto simp: lists3_def fun_eq_iff split: list_kind.splits)

definition slab_at :: "u16 \<Rightarrow> nat \<Rightarrow> addr \<Rightarrow> nat \<Rightarrow> heap \<Rightarrow> ListDescriptor \<Rightarrow> bool" where
  "slab_at sz T page k m ld \<longleftrightarrow> m_baseAddress ld = page \<and> m_bufferSize ld = sz \<and> unat (m_totalBuffers ld) = T \<and>
     m_pages ld = 1 \<and> unat (m_buffersUsed ld) = k \<and> slab_wf m ld"

lemma slab_at_class:
  "slab_at sz T page k m ld \<Longrightarrow> class_of ld = (if k = T then FullLists else if k = 0 then FreeLists else PartialLists)"
  by (auto simp: slab_at_def class_of_def Full_def Empty_ld_def word_unat_eq_iff)

lemma slab_at_payload: "payload x = payload y \<Longrightarrow> slab_at sz T page k m x = slab_at sz T page k m y"
  using payload_eqD(3) [of x y] by (cases x; cases y) (auto simp: slab_at_def payload_def)

text \<open>
  The slabs \<open>D\<close>, of objects of \<open>sz\<close> bytes, have their pages at \<open>pg\<close>; \<open>u d\<close> is None until \<open>SetupLinkage\<close> has run, then
  the number of buffers used.  \<open>B\<close> are the lists of the buffer at \<open>b\<close> once it is constructed.
\<close>

definition world ::
    "u16 \<Rightarrow> nat \<Rightarrow> (addr \<Rightarrow> addr) \<Rightarrow> addr set \<Rightarrow> addr \<Rightarrow> (addr \<Rightarrow> nat option) \<Rightarrow>
     (addr list \<times> addr list \<times> addr list) option \<Rightarrow> slab_store \<Rightarrow> bool" where
  "world sz T pg D b u B s \<longleftrightarrow>
     (\<forall>d \<in> D. case u d of None \<Rightarrow> ss_lds s d = new_ListDescriptor d (pg d) sz 1
                        | Some k \<Rightarrow> slab_at sz T (pg d) k (ss_mem s) (ss_lds s d)) \<and>
     (case B of None \<Rightarrow> True
      | Some L \<Rightarrow> buf_ok s b (lists3 L) \<and> b_bufferSize (ss_bufs s b) = sz \<and> buf_links s b = (b, b) \<and>
                  (\<forall>k. set (lists3 L k) \<subseteq> D))"

text \<open>The slabs lie on pages of their own.\<close>

definition in_page :: "addr \<Rightarrow> addr \<Rightarrow> bool" where
  "in_page page a \<longleftrightarrow> unat page \<le> unat a \<and> unat a < unat page + 0x1000"

definition pages_ok :: "u16 \<Rightarrow> nat \<Rightarrow> (addr \<Rightarrow> addr) \<Rightarrow> addr set \<Rightarrow> bool" where
  "pages_ok sz T pg D \<longleftrightarrow> 8 \<le> unat sz \<and> T = 0x1000 div unat sz \<and> 0 < T \<and> 0 \<notin> D \<and> (\<forall>d \<in> D. page_at (pg d)) \<and>
     (\<forall>d \<in> D. \<forall>e \<in> D. d \<noteq> e \<longrightarrow> unat (pg d) + 0x1000 \<le> unat (pg e) \<or> unat (pg e) + 0x1000 \<le> unat (pg d))"

lemma pages_apart: "pages_ok sz T pg D \<Longrightarrow> d \<in> D \<Longrightarrow> e \<in> D \<Longrightarrow> in_page (pg d) a \<Longrightarrow> in_page (pg e) a \<Longrightarrow> d = e"
proof (rule ccontr)
  assume a: "pages_ok sz T pg D" "d \<in> D" "e \<in> D" "in_page (pg d) a" "in_page (pg e) a" "d \<noteq> e"
  then have "unat (pg d) + 0x1000 \<le> unat (pg e) \<or> unat (pg e) + 0x1000 \<le> unat (pg d)" unfolding pages_ok_def by blast
  with a(4,5) show False by (auto simp: in_page_def)
qed

lemma div_le_512: "8 \<le> unat (sz :: u16) \<Longrightarrow> 0x1000 div unat sz \<le> 512"
proof -
  assume "8 \<le> unat sz"
  then have "4096 div unat sz * 8 \<le> 4096 div unat sz * unat sz" by (rule mult_le_mono2)
  also have "\<dots> \<le> 4096" by simp
  finally show ?thesis by simp
qed

lemma one_page_range:
  assumes "page_at page" "m_baseAddress ld = page" "m_pages ld = 1"
  shows "ObjectInRange ld a \<longleftrightarrow> in_page page a"
proof -
  have "unat (page + 0x1000) = unat page + 0x1000"
    using assms(1) unat_add_no_wrap [of page "0x1000"] by (simp add: page_at_def)
  then show ?thesis using assms
    by (simp add: ObjectInRange_def Base_def Limit_def Pages_def in_page_def word_le_nat_alt word_less_nat_alt)
qed

section \<open>What an operation leaves alone\<close>

definition frame :: "(addr \<Rightarrow> addr) \<Rightarrow> addr set \<Rightarrow> addr \<Rightarrow> slab_store \<Rightarrow> slab_store \<Rightarrow> bool" where
  "frame pg D d s s' \<longleftrightarrow> (\<forall>e \<in> D - {d}. payload (ss_lds s' e) = payload (ss_lds s e) \<and>
     (\<forall>a. in_page (pg e) a \<longrightarrow> ss_mem s' a = ss_mem s a))"

lemma slab_slots_payload: "payload x = payload y \<Longrightarrow> slab_slots x = slab_slots y"
  using payload_same_geometry same_geometryD(5) by blast

lemma frame_slab:
  assumes f: "frame pg D d s s'" and e: "e \<in> D" "e \<noteq> d" "page_at (pg e)"
    and at: "slab_at sz T (pg e) k (ss_mem s) (ss_lds s e)"
  shows "slab_at sz T (pg e) k (ss_mem s') (ss_lds s' e)"
    "slab_free (ss_mem s') (ss_lds s' e) = slab_free (ss_mem s) (ss_lds s e)"
    "slab_slots (ss_lds s' e) = slab_slots (ss_lds s e)"
proof -
  have p: "payload (ss_lds s' e) = payload (ss_lds s e)" using f e by (simp add: frame_def)
  have "\<forall>a. ObjectInRange (ss_lds s e) a \<longrightarrow> ss_mem s' a = ss_mem s a"
    using f e at by (simp add: frame_def slab_at_def one_page_range)
  note m = slab_memory [OF this]
  show "slab_at sz T (pg e) k (ss_mem s') (ss_lds s' e)"
    using at slab_at_payload [OF p] m(1) by (simp add: slab_at_def)
  show "slab_free (ss_mem s') (ss_lds s' e) = slab_free (ss_mem s) (ss_lds s e)"
    using m(2) slab_free_payload [OF p] by metis
  show "slab_slots (ss_lds s' e) = slab_slots (ss_lds s e)" by (rule slab_slots_payload [OF p])
qed

lemma world_slab: "world sz T pg D b u B s \<Longrightarrow> d \<in> D \<Longrightarrow> u d = Some k \<Longrightarrow> slab_at sz T (pg d) k (ss_mem s) (ss_lds s d)"
  by (auto simp: world_def)

text \<open>A step that changes one slab; the slabs not yet set up are not touched at all.\<close>

lemma world_step:
  assumes w: "world sz T pg D b u B s" and p: "pages_ok sz T pg D" and f: "frame pg D d s s'"
    and none: "\<And>e. e \<in> D \<Longrightarrow> e \<noteq> d \<Longrightarrow> u e = None \<Longrightarrow> ss_lds s' e = ss_lds s e"
    and d: "slab_at sz T (pg d) k (ss_mem s') (ss_lds s' d)"
    and B: "case B' of None \<Rightarrow> True | Some L \<Rightarrow> buf_ok s' b (lists3 L) \<and> b_bufferSize (ss_bufs s' b) = sz \<and>
              buf_links s' b = (b, b) \<and> (\<forall>k. set (lists3 L k) \<subseteq> D)"
  shows "world sz T pg D b (u(d := Some k)) B' s'"
proof -
  have "case (u(d := Some k)) e of None \<Rightarrow> ss_lds s' e = new_ListDescriptor e (pg e) sz 1
          | Some k \<Rightarrow> slab_at sz T (pg e) k (ss_mem s') (ss_lds s' e)" if e: "e \<in> D" for e
  proof (cases "e = d")
    case False
    show ?thesis
    proof (cases "u e")
      case None
      with False e none [OF e] w show ?thesis by (auto simp: world_def)
    next
      case (Some j)
      have "page_at (pg e)" using p e by (simp add: pages_ok_def)
      from frame_slab(1) [OF f e False this world_slab [OF w e Some]] Some False show ?thesis by simp
    qed
  qed (use d in simp)
  with B show ?thesis by (simp add: world_def)
qed

lemma buf_ok_empty: "buf_ok s b (lists3 ([], [], [])) \<longleftrightarrow> (\<forall>k. list_head k (ss_bufs s b) = 0)"
  by (simp add: buf_ok_def wf_list_def rlist_def)

text \<open>A buffer without slabs does not mind what happens to a slab.\<close>

lemma empty_buffer_stays:
  assumes "world sz T pg D b u B s" "B = None \<or> B = Some ([], [], [])" "ss_bufs s' = ss_bufs s"
  shows "case B of None \<Rightarrow> True | Some L \<Rightarrow> buf_ok s' b (lists3 L) \<and> b_bufferSize (ss_bufs s' b) = sz \<and>
           buf_links s' b = (b, b) \<and> (\<forall>k. set (lists3 L k) \<subseteq> D)"
  using assms by (auto simp: world_def buf_ok_empty buf_links_def split: option.splits)

section \<open>Steps\<close>

lemma setup_world:
  assumes w: "world sz T pg D b u B s" and p: "pages_ok sz T pg D" and d: "d \<in> D" "u d = None"
    and B: "B = None \<or> B = Some ([], [], [])"
  shows "\<exists>m ld. SetupLinkage (ss_mem s) (ss_lds s d) = Inr (m, ld) \<and>
    (let s' = s\<lparr>ss_mem := m, ss_lds := (ss_lds s)(d := ld)\<rparr>
     in world sz T pg D b (u(d := Some 0)) B s' \<and> frame pg D d s s')"
proof -
  let ?ld = "ss_lds s d"
  have ld: "?ld = new_ListDescriptor d (pg d) sz 1" using w d by (auto simp: world_def)
  have sz: "\<not> sz < 8" "T \<le> 512" "8 \<le> unat sz" "T = 0x1000 div unat sz" "0 < T"
    using p div_le_512 [of sz] by (simp_all add: pages_ok_def word_less_nat_alt)
  then have ld': "m_baseAddress ?ld = pg d" "m_bufferSize ?ld = sz" "unat (m_totalBuffers ?ld) = T" "m_pages ?ld = 1"
      "m_buffersUsed ?ld = 0"
    by (simp_all add: ld new_ListDescriptor_def unat_of_nat)
  have pd: "page_at (pg d)" using p d by (simp add: pages_ok_def)
  then have g: "slab_geometry ?ld" using ld' sz by (simp add: slab_geometry_def slab_bytes_def page_at_def)
  from SetupLinkage_ok [OF g ld'(5), of "ss_mem s"] obtain m where
      m: "SetupLinkage (ss_mem s) ?ld = Inr (m, ?ld\<lparr>m_nextFree := m_baseAddress ?ld\<rparr>)"
      "slab_ok m (?ld\<lparr>m_nextFree := m_baseAddress ?ld\<rparr>) (slab_cells ?ld)"
      "\<forall>x. x \<notin> set (slab_cells ?ld) \<longrightarrow> m x = ss_mem s x" by auto
  let ?new = "?ld\<lparr>m_nextFree := m_baseAddress ?ld\<rparr>"
  let ?s = "s\<lparr>ss_mem := m, ss_lds := (ss_lds s)(d := ?new)\<rparr>"
  have "m a = ss_mem s a" if "e \<in> D" "e \<noteq> d" "in_page (pg e) a" for e a
  proof -
    have "\<not> in_page (pg d) a" using pages_apart [OF p d(1) that(1)] that by blast
    then have "a \<notin> set (slab_cells ?ld)" using slab_cells_in_range [OF g] one_page_range [OF pd ld'(1,4)] by blast
    with m(3) show ?thesis by blast
  qed
  then have f: "frame pg D d s ?s" unfolding frame_def by simp blast
  have "slab_at sz T (pg d) 0 (ss_mem ?s) (ss_lds ?s d)" using m(2) ld' by (auto simp: slab_at_def slab_wf_def)
  from world_step [OF w p f _ this empty_buffer_stays [OF w B]] have "world sz T pg D b (u(d := Some 0)) B ?s" by simp
  with f m(1) show ?thesis by (intro exI [of _ m] exI [of _ ?new]) (simp add: Let_def)
qed

lemma alloc_world:
  assumes w: "world sz T pg D b u B s" and p: "pages_ok sz T pg D" and d: "d \<in> D" "u d = Some k" "k < T"
    and B: "B = None \<or> B = Some ([], [], [])"
  shows "\<exists>s' q. ld_allocate d s = Inr (s', q) \<and> world sz T pg D b (u(d := Some (k + 1))) B s' \<and> frame pg D d s s' \<and>
           q \<in> set (slab_slots (ss_lds s' d)) \<and> q \<notin> slab_free (ss_mem s') (ss_lds s' d)"
proof -
  let ?ld = "ss_lds s d"
  have at: "slab_at sz T (pg d) k (ss_mem s) ?ld" by (rule world_slab [OF w d(1,2)])
  then have "slab_wf (ss_mem s) ?ld" "\<not> Full ?ld" using d(3) by (auto simp: slab_at_def Full_def)
  from ld_allocate_ok [OF this] obtain s' q where a: "ld_allocate d s = Inr (s', q)" by blast
  with ld_allocate_ok [OF \<open>slab_wf (ss_mem s) ?ld\<close> \<open>\<not> Full ?ld\<close>] obtain ld where ld:
      "s' = s\<lparr>ss_lds := (ss_lds s)(d := ld)\<rparr>" "q \<in> slab_free (ss_mem s) ?ld" "slab_wf (ss_mem s) ld"
      "slab_free (ss_mem s) ld = slab_free (ss_mem s) ?ld - {q}" "m_buffersUsed ld = m_buffersUsed ?ld + 1"
      "same_geometry ld ?ld"
    by auto
  have "unat (m_buffersUsed ?ld + 1) = k + 1"
    using unat_used_inc [of ?ld] at d(3) by (simp add: slab_at_def word_less_nat_alt)
  then have at': "slab_at sz T (pg d) (k + 1) (ss_mem s') (ss_lds s' d)"
    using at ld by (simp add: slab_at_def same_geometry_def)
  have f: "frame pg D d s s'" using ld(1) by (simp add: frame_def)
  have "world sz T pg D b (u(d := Some (k + 1))) B s'"
    by (rule world_step [OF w p f _ at']) (use ld(1) empty_buffer_stays [OF w B, of s'] in auto)
  moreover have "q \<in> set (slab_slots ?ld)" using ld(2) by (auto simp: slab_free_def)
  ultimately show ?thesis using a f ld same_geometryD(5) [OF ld(6)] by auto
qed

lemma new_buf_world:
  assumes w: "world sz T pg D b u None s"
  shows "world sz T pg D b u (Some ([], [], [])) (upd_buf b (\<lambda>_. new_Buffer b sz) s)"
proof -
  have "list_head k (new_Buffer b sz) = 0" for k by (cases k) (simp_all add: new_Buffer_def)
  moreover have "b_nextBuffer (new_Buffer b sz) = b" "b_prevBuffer (new_Buffer b sz) = b" "b_bufferSize (new_Buffer b sz) = sz"
    by (simp_all add: new_Buffer_def)
  ultimately show ?thesis
    using w by (simp add: world_def buf_ok_empty buf_links_def split: option.splits) auto
qed

text \<open>The list that a slab with \<open>k\<close> of its \<open>T\<close> buffers in use goes to.\<close>

definition file_in :: "nat \<Rightarrow> nat \<Rightarrow> 'a \<Rightarrow> 'a list \<times> 'a list \<times> 'a list \<Rightarrow> 'a list \<times> 'a list \<times> 'a list" where
  "file_in k T d B = (case B of (fr, pa, fu) \<Rightarrow>
     if k = T then (fr, pa, fu @ [d]) else if k = 0 then (fr @ [d], pa, fu) else (fr, pa @ [d], fu))"

definition take_out :: "'a \<Rightarrow> 'a list \<times> 'a list \<times> 'a list \<Rightarrow> 'a list \<times> 'a list \<times> 'a list" where
  "take_out d B = (case B of (fr, pa, fu) \<Rightarrow> (remove1 d fr, remove1 d pa, remove1 d fu))"

text \<open>The lists when the slab \<open>d\<close> goes from \<open>k\<close> to \<open>k'\<close> buffers in use.\<close>

definition regroup :: "nat \<Rightarrow> nat \<Rightarrow> nat \<Rightarrow> 'a \<Rightarrow> 'a list \<times> 'a list \<times> 'a list \<Rightarrow> 'a list \<times> 'a list \<times> 'a list" where
  "regroup k k' T d B = (if (k = T) = (k' = T) \<and> (k = 0) = (k' = 0) then B else file_in k' T d (take_out d B))"

lemma file_in_lists3:
  "slab_at sz T page k m ld \<Longrightarrow>
   lists3 (file_in k T d B) = (lists3 B)(class_of ld := lists3 B (class_of ld) @ [d])"
  by (cases B) (simp add: slab_at_class file_in_def lists3_upd)

lemma lists3_UN: "(\<Union>k. set (lists3 B k)) = set (fst B) \<union> set (fst (snd B)) \<union> set (snd (snd B))"
proof -
  have U: "(UNIV :: list_kind set) = {FreeLists, PartialLists, FullLists}" using list_kind.exhaust by blast
  show ?thesis unfolding U by (cases B) (simp add: Un_assoc)
qed

lemma regroup_refile:
  assumes ok: "buf_ok s b (lists3 B)" and x: "x \<in> set (lists3 B (class_of (ss_lds s x)))"
    and at: "slab_at sz T page k (ss_mem s) (ss_lds s x)" "slab_at sz T page k' (ss_mem s') (ss_lds s' x)" and T: "0 < T"
  shows "refile s s' x (lists3 B) = lists3 (regroup k k' T x B)"
proof (cases "class_of (ss_lds s' x) = class_of (ss_lds s x)")
  case True
  then have "(k = T) = (k' = T) \<and> (k = 0) = (k' = 0)"
    using slab_at_class [OF at(1)] slab_at_class [OF at(2)] T by (auto split: if_splits)
  with True show ?thesis by (simp add: refile_def regroup_def)
next
  case False
  have wf: "wf_list s b j (lists3 B j)" for j using ok by (simp add: buf_ok_def)
  have out: "x \<notin> set (lists3 B j)" if "j \<noteq> class_of (ss_lds s x)" for j
    using wf_list_disjoint [OF wf wf that] x by blast
  have "lists3 (take_out x B) j = remove1 x (lists3 B j)" for j by (cases B; cases j) (simp_all add: take_out_def)
  then have "lists3 (take_out x B) = (lists3 B)(class_of (ss_lds s x) := remove1 x (lists3 B (class_of (ss_lds s x))))"
    using out by (auto simp: fun_eq_iff remove1_idem)
  moreover have "\<not> ((k = T) = (k' = T) \<and> (k = 0) = (k' = 0))"
    using False slab_at_class [OF at(1)] slab_at_class [OF at(2)] by (auto split: if_splits)
  then have "regroup k k' T x B = file_in k' T x (take_out x B)" unfolding regroup_def by (rule if_not_P)
  ultimately show ?thesis
    using False file_in_lists3 [OF at(2), of x "take_out x B"] by (simp add: refile_def Let_def)
qed

text \<open>The part of the state about the buffer, after an operation that refiles one slab.\<close>

lemma regroup_buffer:
  assumes w: "world sz T pg D b u (Some B) s" and x: "x \<in> D" "u x = Some k" "x \<in> set (lists3 B (class_of (ss_lds s x)))"
    and at': "slab_at sz T (pg x) k' (ss_mem s') (ss_lds s' x)" and T: "0 < T"
    and ok': "buf_ok s' b (refile s s' x (lists3 B))" and l: "buf_links s' b = buf_links s b"
  shows "buf_ok s' b (lists3 (regroup k k' T x B)) \<and> b_bufferSize (ss_bufs s' b) = sz \<and>
      buf_links s' b = (b, b) \<and> (\<forall>j. set (lists3 (regroup k k' T x B) j) \<subseteq> D)"
proof -
  have ok: "buf_ok s b (lists3 B)" and sub: "\<And>j. set (lists3 B j) \<subseteq> D" using w by (simp_all add: world_def)
  have eq: "refile s s' x (lists3 B) = lists3 (regroup k k' T x B)"
    by (rule regroup_refile [OF ok x(3) world_slab [OF w x(1,2)] at' T])
  note mem = refile_members [where L = "lists3 B" and s' = s', OF x(3)]
  have "set (refile s s' x (lists3 B) j) \<subseteq> D" for j using mem sub by blast
  moreover have "\<exists>j. x \<in> set (refile s s' x (lists3 B) j)" using mem x(3) by blast
  then have "b_bufferSize (ss_bufs s' b) = m_bufferSize (ss_lds s' x)"
    using ok' by (auto simp: buf_ok_def wf_list_def wf_slab_in_def)
  ultimately show ?thesis using ok' eq l w at' by (simp add: world_def slab_at_def)
qed

lemma add_world:
  assumes w: "world sz T pg D b u (Some B) s" and p: "pages_ok sz T pg D" and d: "d \<in> D" "u d = Some k"
    and new: "d \<notin> set (fst B) \<union> set (fst (snd B)) \<union> set (snd (snd B))" and all: "\<forall>d \<in> D. u d \<noteq> None"
  shows "\<exists>s'. Buffer_AddList b d s = Inr s' \<and> world sz T pg D b u (Some (file_in k T d B)) s' \<and>
           ss_mem s' = ss_mem s \<and> (\<forall>e. payload (ss_lds s' e) = payload (ss_lds s e))"
proof -
  let ?k = "class_of (ss_lds s d)"
  have at: "slab_at sz T (pg d) k (ss_mem s) (ss_lds s d)" using world_slab [OF w d(1,2)] .
  have wf: "wf_list s b j (lists3 B j)" for j using w by (simp add: world_def buf_ok_def)
  have "wf_slab_in s b ?k d" using at w by (simp add: wf_slab_in_def slab_at_def world_def)
  moreover have fresh: "d \<notin> set (lists3 B j)" for j using new by (cases B; cases j) auto
  moreover have "d \<noteq> 0" using p d(1) by (auto simp: pages_ok_def)
  ultimately obtain s' where s': "Buffer_AddList b d s = Inr s'" "wf_list s' b ?k (lists3 B ?k @ [d])"
      "relinks (insert d (set (lists3 B ?k))) b s s'"
      "\<And>j. j \<noteq> ?k \<Longrightarrow> list_head j (ss_bufs s' b) = list_head j (ss_bufs s b)"
    using Buffer_AddList_ok [OF wf] by blast
  have "wf_list s' b j (lists3 B j)" if "j \<noteq> ?k" for j
    by (rule relinks_wf_list [OF s'(3) _ s'(4) [OF that] wf])
       (use fresh wf_list_disjoint [OF wf wf that] in auto)
  with s'(2) have ok: "buf_ok s' b (lists3 (file_in k T d B))"
    unfolding file_in_lists3 [OF at] by (simp add: buf_ok_def)
  have "slab_at sz T (pg e) j (ss_mem s') (ss_lds s' e)" if "e \<in> D" "u e = Some j" for e j
    using world_slab [OF w that] s'(3) slab_at_payload [of "ss_lds s' e" "ss_lds s e"] by (simp add: relinks_def)
  moreover have "set (lists3 (file_in k T d B) j) \<subseteq> D" for j
    using w d(1) unfolding file_in_lists3 [OF at] by (auto simp: world_def)
  moreover have "b_bufferSize (ss_bufs s' b) = sz" using s'(3) w by (simp add: relinks_def world_def)
  moreover have "buf_links s' b = (b, b)" using buf_links_AddList [OF s'(1), of b] w by (simp add: world_def)
  ultimately have "world sz T pg D b u (Some (file_in k T d B)) s'"
    using ok all by (auto simp: world_def split: option.splits)
  with s'(1,3) show ?thesis by (simp add: relinks_def)
qed

lemma buf_alloc_world:
  assumes w: "world sz T pg D b u (Some B) s" and p: "pages_ok sz T pg D" and B: "fst (snd B) @ fst B = h # rest"
    and h: "u h = Some k" and all: "\<forall>d \<in> D. u d \<noteq> None"
  shows "\<exists>s'. Buffer_Allocate b s = Inr (s', NextFreeBuffer (ss_lds s h)) \<and> k < T \<and>
           world sz T pg D b (u(h := Some (k + 1))) (Some (regroup k (k + 1) T h B)) s' \<and> frame pg D h s s' \<and>
           NextFreeBuffer (ss_lds s h) \<in> slab_free (ss_mem s) (ss_lds s h) \<and>
           NextFreeBuffer (ss_lds s h) \<in> set (slab_slots (ss_lds s' h)) \<and>
           slab_free (ss_mem s') (ss_lds s' h) = slab_free (ss_mem s) (ss_lds s h) - {NextFreeBuffer (ss_lds s h)} \<and>
           slab_slots (ss_lds s' h) = slab_slots (ss_lds s h)"
proof -
  have ok: "buf_ok s b (lists3 B)" and sub: "set (lists3 B j) \<subseteq> D" for j using w by (simp_all add: world_def)
  have T: "0 < T" using p by (simp add: pages_ok_def)
  have hl: "h \<in> set (lists3 B PartialLists) \<or> h \<in> set (lists3 B FreeLists)"
    using arg_cong [OF B, of set] by (cases B) auto
  with sub have hD: "h \<in> D" by blast
  note at = world_slab [OF w hD h]
  have cls: "class_of (ss_lds s x) = j" if "x \<in> set (lists3 B j)" for x j
    using ok that by (auto simp: buf_ok_def wf_list_def wf_slab_in_def)
  with hl have hk: "class_of (ss_lds s h) \<noteq> FullLists" "h \<in> set (lists3 B (class_of (ss_lds s h)))" by auto
  then have "k \<noteq> T" using slab_at_class [OF at] by auto
  moreover have "k \<le> T" using at by (auto simp: slab_at_def slab_wf_def slab_ok_def)
  ultimately have kT: "k < T" by simp
  from Buffer_Allocate_ok [OF ok] B obtain s' q where s': "Buffer_Allocate b s = Inr (s', q)"
      "allocated s b (lists3 B) h q s'" by (cases B) auto
  note a = allocatedD [OF s'(2)]
  have used: "unat (m_buffersUsed (ss_lds s' h)) = k + 1"
    using a(6) at kT unat_used_inc [of "ss_lds s h"] by (simp add: slab_at_def BuffersUsed_def word_less_nat_alt)
  have "\<exists>j. h \<in> set (refile s s' h (lists3 B) j)"
    using refile_members [where L = "lists3 B" and s' = s', OF hk(2)] hk(2) by blast
  then have "slab_wf (ss_mem s') (ss_lds s' h)" using a(9) by (auto simp: buf_ok_def wf_list_def wf_slab_in_def)
  then have at': "slab_at sz T (pg h) (k + 1) (ss_mem s') (ss_lds s' h)"
    using at a(7) used by (simp add: slab_at_def same_geometry_def)
  have f: "frame pg D h s s'" using a(3,8) by (simp add: frame_def)
  have "world sz T pg D b (u(h := Some (k + 1))) (Some (regroup k (k + 1) T h B)) s'"
    by (rule world_step [OF w p f _ at'])
       (use all regroup_buffer [OF w hD h hk(2) at' T a(9) buf_links_Allocate [OF s'(1)]] in auto)
  moreover have "q \<in> set (slab_slots (ss_lds s' h))" using a(2) same_geometryD(5) [OF a(7)] by (auto simp: slab_free_def)
  ultimately show ?thesis using s'(1) a(2,4,5) kT f same_geometryD(5) [OF a(7)] by auto
qed

lemma buf_links_ld_deallocate: "ld_deallocate x p s = Inr s' \<Longrightarrow> buf_links s' q = buf_links s q"
  by (auto simp: ld_deallocate_def rbind_eq_Inr buf_links_def)

lemma buf_links_dealloc_loop: "dealloc_loop n k moves b p x s = Inr (s', r) \<Longrightarrow> buf_links s' q = buf_links s q"
proof (induction n k moves b p x s rule: dealloc_loop.induct)
  case (2 n k moves b p x s)
  show ?case
  proof (cases "ObjectInRange (ss_lds s x) p")
    case True
    with 2(2) show ?thesis
      by (auto simp: rbind_eq_Inr split: if_splits
          dest!: buf_links_ld_deallocate [of _ _ _ _ q] buf_links_move_entry [of _ _ _ _ _ q])
  next
    case False
    with 2(2) show ?thesis by (auto simp: rbind_eq_Inr Let_def split: if_splits dest: 2(1) [OF False refl])
  qed
qed simp

lemma buf_links_Deallocate: "Buffer_Deallocate b p s = Inr s' \<Longrightarrow> buf_links s' q = buf_links s q"
  by (auto simp: Buffer_Deallocate_def DeallocPartial_def DeallocFull_def Let_def rbind_eq_Inr
      split: if_splits dest!: buf_links_dealloc_loop [of _ _ _ _ _ _ _ _ _ q])

lemma world_apart:
  assumes "world sz T pg D b u B s" "pages_ok sz T pg D" "\<forall>d \<in> D. u d \<noteq> None" "X \<subseteq> D"
  shows "slabs_apart (ss_lds s) X"
  unfolding slabs_apart_def
proof (intro ballI impI)
  fix x y assume xy: "x \<in> X" "y \<in> X" "x \<noteq> y"
  have at: "m_baseAddress (ss_lds s e) = pg e \<and> m_pages (ss_lds s e) = 1 \<and> page_at (pg e)" if "e \<in> X" for e
  proof -
    from that assms(3,4) obtain k where "u e = Some k" by blast
    with world_slab [OF assms(1)] that assms(2,4) show ?thesis by (auto simp: slab_at_def pages_ok_def)
  qed
  then have "unat (Limit (ss_lds s e)) = unat (pg e) + 0x1000" if "e \<in> X" for e
    using at [OF that] unat_add_no_wrap [of "pg e" "0x1000"] by (simp add: Limit_def Base_def Pages_def page_at_def)
  moreover have "unat (pg x) + 0x1000 \<le> unat (pg y) \<or> unat (pg y) + 0x1000 \<le> unat (pg x)"
    using assms(2,4) xy unfolding pages_ok_def by blast
  ultimately show "Limit (ss_lds s x) \<le> Base (ss_lds s y) \<or> Limit (ss_lds s y) \<le> Base (ss_lds s x)"
    using xy at by (simp add: word_le_nat_alt Base_def)
qed

lemma buf_dealloc_world:
  assumes w: "world sz T pg D b u (Some B) s" and p: "pages_ok sz T pg D" and all: "\<forall>d \<in> D. u d \<noteq> None"
    and d: "d \<in> set (fst B) \<union> set (fst (snd B)) \<union> set (snd (snd B))" "u d = Some k"
    and q: "q \<in> set (slab_slots (ss_lds s d))" "q \<notin> slab_free (ss_mem s) (ss_lds s d)"
  shows "\<exists>s'. Buffer_Deallocate b q s = Inr s' \<and> 0 < k \<and>
           world sz T pg D b (u(d := Some (k - 1))) (Some (regroup k (k - 1) T d B)) s' \<and> frame pg D d s s' \<and>
           slab_slots (ss_lds s' d) = slab_slots (ss_lds s d) \<and>
           slab_free (ss_mem s') (ss_lds s' d) = insert q (slab_free (ss_mem s) (ss_lds s d))"
proof -
  have ok: "buf_ok s b (lists3 B)" and sub: "set (lists3 B j) \<subseteq> D" for j using w by (simp_all add: world_def)
  have T: "0 < T" using p by (simp add: pages_ok_def)
  have dL: "d \<in> slabs_of (lists3 B)" using d(1) by (simp add: slabs_of_Union lists3_UN)
  moreover have LD: "slabs_of (lists3 B) \<subseteq> D" using sub by (auto simp: slabs_of_Union)
  ultimately have dD: "d \<in> D" by blast
  note at = world_slab [OF w dD d(2)]
  have "slab_object (ss_lds s d) q" using q(1) by (simp add: slab_object_def)
  from Buffer_Deallocate_ok [OF ok world_apart [OF w p all LD] dL this q(2)] obtain s' where
    s': "Buffer_Deallocate b q s = Inr s'" "returned s b (lists3 B) d q s'" by blast
  then have r: "slab_free (ss_mem s') (ss_lds s' d) = insert q (slab_free (ss_mem s) (ss_lds s d))"
      "BuffersUsed (ss_lds s' d) = BuffersUsed (ss_lds s d) - 1"
      "\<And>y. y \<noteq> d \<Longrightarrow> payload (ss_lds s' y) = payload (ss_lds s y)"
      "\<And>a. \<not> ObjectInRange (ss_lds s d) a \<Longrightarrow> ss_mem s' a = ss_mem s a"
      "same_geometry (ss_lds s' d) (ss_lds s d)" "buf_ok s' b (refile s s' d (lists3 B))"
    by (simp_all add: returned_def)
  have dk: "d \<in> set (lists3 B (class_of (ss_lds s d)))"
    using dL ok by (auto simp: slabs_of_Union buf_ok_def wf_list_def wf_slab_in_def)
  obtain fs where fs: "slab_ok (ss_mem s) (ss_lds s d) fs" using at by (auto simp: slab_at_def slab_wf_def)
  have "q \<notin> set fs" using q slab_free_eq [OF fs] by auto
  with slab_allocated_used [OF fs q(1)] at have k0: "0 < k" by (auto simp: slab_at_def)
  have used0: "unat (m_buffersUsed (ss_lds s d)) = k" using at by (simp add: slab_at_def)
  with k0 have "m_buffersUsed (ss_lds s d) \<noteq> 0" by auto
  from unat_minus_one [OF this] used0 have "unat (m_buffersUsed (ss_lds s d) - 1) = k - 1" by simp
  then have used: "unat (m_buffersUsed (ss_lds s' d)) = k - 1" using r(2) by (simp add: BuffersUsed_def)
  have "\<exists>j. d \<in> set (refile s s' d (lists3 B) j)"
    using refile_members [where L = "lists3 B" and s' = s', OF dk] dk by blast
  then have "slab_wf (ss_mem s') (ss_lds s' d)" using r(6) by (auto simp: buf_ok_def wf_list_def wf_slab_in_def)
  then have at': "slab_at sz T (pg d) (k - 1) (ss_mem s') (ss_lds s' d)"
    using at r(5) used by (simp add: slab_at_def same_geometry_def)
  have pd: "page_at (pg d)" using p dD by (simp add: pages_ok_def)
  have "ss_mem s' a = ss_mem s a" if "e \<in> D" "e \<noteq> d" "in_page (pg e) a" for e a
  proof (rule r(4))
    have "\<not> in_page (pg d) a" using pages_apart [OF p dD that(1)] that by blast
    with at pd show "\<not> ObjectInRange (ss_lds s d) a" by (simp add: slab_at_def one_page_range)
  qed
  with r(3) have f: "frame pg D d s s'" unfolding frame_def by simp blast
  have "world sz T pg D b (u(d := Some (k - 1))) (Some (regroup k (k - 1) T d B)) s'"
    by (rule world_step [OF w p f _ at'])
       (use all regroup_buffer [OF w dD d(2) dk at' T r(6) buf_links_Deallocate [OF s'(1)]] in auto)
  then show ?thesis using s'(1) k0 f r(1) same_geometryD(5) [OF r(5)] by blast
qed

section \<open>The end of a test\<close>

lemma world_ring:
  assumes "world sz T pg D b u (Some B) s"
  shows "list_head k (ss_bufs s b) = (if lists3 B k = [] then 0 else hd (lists3 B k))"
    "lists3 B k \<noteq> [] \<Longrightarrow> ld_ring (ss_lds s) (lists3 B k)"
  using assms by (auto simp: world_def buf_ok_def wf_list_def rlist_def dest!: spec [of _ k])

text \<open>The buffer ends first, then the slabs.\<close>

lemma wp_world_end:
  assumes w: "world sz T pg D b u (Some B) s" and p: "pages_ok sz T pg D"
    and D: "D \<subseteq> set (fst B) \<union> set (fst (snd B)) \<union> set (snd (snd B))" "set ds \<subseteq> D"
  shows "wp (end_buf b) (\<lambda>_. wp (end_descs ds) finished) (passing s)"
proof -
  have "Buffer_ExtractSelf b (ss_bufs s) = Inr (ss_bufs s, b)"
    using w by (simp add: world_def buf_links_def Buffer_ExtractSelf_def)
  then have "wp (end_buf b) Q (passing s) = Q () (passing s)" for Q by (simp add: end_buf_def wp_act [where s' = s])
  moreover have "links_in D (ss_lds s)"
  proof -
    have "m_nextList (ss_lds s d) \<in> D \<and> m_prevList (ss_lds s d) \<in> D" if "d \<in> D" for d
    proof -
      from that D(1) obtain k where k: "d \<in> set (lists3 B k)" using lists3_UN [of B] by blast
      then have "lists3 B k \<noteq> []" by auto
      note r = world_ring(2) [OF w this]
      from ring_closed [OF r k] have "m_nextList (ss_lds s d) \<in> set (lists3 B k) \<and> m_prevList (ss_lds s d) \<in> set (lists3 B k)"
        by blast
      then show ?thesis using w by (auto simp: world_def)
    qed
    then show ?thesis using p by (simp add: links_in_def pages_ok_def)
  qed
  ultimately show ?thesis using wp_end_descs [OF _ D(2)] by simp
qed

end
