(* ===== verification/Slab_Scripts.thy ===== *)
theory Slab_Scripts
  imports Slab_Tests_World
begin

text \<open>
  A test of a slab buffer as data: the commands it gives to its slabs, to its buffer and to the test framework, each one
  statement of the source.  \<open>run_commands\<close> gives them their meaning on the model.  Beside it stands a planner that follows
  a script on numbers and short lists only; what it accepts, passes wherever the objects of the test lie.
\<close>

section \<open>Commands\<close>

text \<open>Slabs are numbered from 1, as the tests name them; a register is a pointer variable of the test.\<close>

datatype dir = Nxt | Prv

datatype cond =
    Head list_kind "dir list" nat
  | No_head list_kind
  | Same nat nat
  | Differ nat nat
  | In_range nat nat
  | Both cond cond

datatype mode = Check | Require | Kassert

datatype command =
    Setup nat
  | Allocate_from "nat option" nat
  | Allocate_all "nat option" nat
  | New_buffer
  | Add nat
  | Buf_allocate "nat option"
  | Buf_allocate_all "nat option" nat nat
  | Buf_deallocate nat
  | Buf_deallocate_range nat
  | Next_free nat nat
  | Assert mode cond

section \<open>Their meaning\<close>

type_synonym regs = "nat \<Rightarrow> addr"

definition put :: "nat option \<Rightarrow> addr \<Rightarrow> regs \<Rightarrow> regs" where
  "put dst p regs = (case dst of None \<Rightarrow> regs | Some r \<Rightarrow> regs(r := p))"

fun follow :: "addr \<Rightarrow> dir list \<Rightarrow> slab_store \<Rightarrow> addr result" where
  "follow p [] s = Inr p"
| "follow p (Nxt # path) s = rbind (guard_ptr p) (\<lambda>_. follow (NextList p s) path s)"
| "follow p (Prv # path) s = rbind (guard_ptr p) (\<lambda>_. follow (PrevList p s) path s)"

fun eval :: "(nat \<Rightarrow> addr) \<Rightarrow> addr \<Rightarrow> regs \<Rightarrow> cond \<Rightarrow> slab_store \<Rightarrow> bool result" where
  "eval desc buf regs (Head k path i) s =
     rbind (follow (list_head k (ss_bufs s buf)) path s) (\<lambda>p. Inr (p = desc i))"
| "eval desc buf regs (No_head k) s = Inr (list_head k (ss_bufs s buf) = 0)"
| "eval desc buf regs (Same r r') s = Inr (regs r = regs r')"
| "eval desc buf regs (Differ r r') s = Inr (regs r \<noteq> regs r')"
| "eval desc buf regs (In_range i r) s = Inr (ObjectInRange (ss_lds s (desc i)) (regs r))"
| "eval desc buf regs (Both c c') s =
     rbind (eval desc buf regs c s) (\<lambda>v. if v then eval desc buf regs c' s else Inr False)"

definition assert_that :: "mode \<Rightarrow> (slab_store \<Rightarrow> bool result) \<Rightarrow> unit test" where
  "assert_that how c = do {
     act (\<lambda>s. rbind (c s) (\<lambda>_. Inr s));
     (case how of Check \<Rightarrow> CHECK (\<lambda>s. c s = Inr True) | Require \<Rightarrow> REQUIRE (\<lambda>s. c s = Inr True)
      | Kassert \<Rightarrow> kassert_that (\<lambda>s. c s = Inr True)) }"

definition buf_alloc :: "addr \<Rightarrow> addr test" where
  "buf_alloc buf = act_ptr (Buffer_Allocate buf)"

fun repeat_alloc :: "addr test \<Rightarrow> nat \<Rightarrow> nat option \<Rightarrow> regs \<Rightarrow> regs test" where
  "repeat_alloc f 0 dst regs = State_Monad.return regs"
| "repeat_alloc f (Suc n) dst regs = do { p \<leftarrow> f; repeat_alloc f n dst (put dst p regs) }"

text \<open>The loop over the addresses of a page in steps of eight, bounded by the fuel \<open>n\<close>.\<close>

fun range_loop :: "nat \<Rightarrow> addr \<Rightarrow> addr \<Rightarrow> addr \<Rightarrow> unit test" where
  "range_loop 0 desc buf it = act (\<lambda>s. Inl Diverges)"
| "range_loop (Suc n) desc buf it = do {
     limit \<leftarrow> fetch (\<lambda>s. Limit (ss_lds s desc));
     if it < limit then do { act (Buffer_Deallocate buf it); range_loop n desc buf (it + 8) }
     else State_Monad.return () }"

fun run_command :: "(nat \<Rightarrow> addr) \<Rightarrow> addr \<Rightarrow> u16 \<Rightarrow> command \<Rightarrow> regs \<Rightarrow> regs test" where
  "run_command desc buf sz (Setup i) regs = do { setup_linkage (desc i); State_Monad.return regs }"
| "run_command desc buf sz (Allocate_from dst i) regs = do { p \<leftarrow> alloc (desc i); State_Monad.return (put dst p regs) }"
| "run_command desc buf sz (Allocate_all dst i) regs = do {
     n \<leftarrow> buffers_of (desc i); repeat_alloc (alloc (desc i)) n dst regs }"
| "run_command desc buf sz New_buffer regs = do { new_buf buf sz; State_Monad.return regs }"
| "run_command desc buf sz (Add i) regs = do { act (Buffer_AddList buf (desc i)); State_Monad.return regs }"
| "run_command desc buf sz (Buf_allocate dst) regs = do { p \<leftarrow> buf_alloc buf; State_Monad.return (put dst p regs) }"
| "run_command desc buf sz (Buf_allocate_all dst i few) regs = do {
     n \<leftarrow> buffers_of (desc i); repeat_alloc (buf_alloc buf) (n - few) dst regs }"
| "run_command desc buf sz (Buf_deallocate r) regs = do { act (Buffer_Deallocate buf (regs r)); State_Monad.return regs }"
| "run_command desc buf sz (Buf_deallocate_range i) regs = do {
     it \<leftarrow> fetch (\<lambda>s. Base (ss_lds s (desc i)));
     range_loop 0x201 (desc i) buf it;
     State_Monad.return regs }"
| "run_command desc buf sz (Next_free r i) regs = do {
     p \<leftarrow> fetch (\<lambda>s. NextFreeBuffer (ss_lds s (desc i))); State_Monad.return (regs(r := p)) }"
| "run_command desc buf sz (Assert how c) regs = do {
     assert_that how (eval desc buf regs c); State_Monad.return regs }"

fun run_commands :: "(nat \<Rightarrow> addr) \<Rightarrow> addr \<Rightarrow> u16 \<Rightarrow> command list \<Rightarrow> regs \<Rightarrow> regs test" where
  "run_commands desc buf sz [] regs = State_Monad.return regs"
| "run_commands desc buf sz (c # cs) regs = do {
     regs \<leftarrow> run_command desc buf sz c regs; run_commands desc buf sz cs regs }"

text \<open>
  A test with \<open>n\<close> slabs of objects of \<open>sz\<close> bytes: its objects are built, the script runs, and the objects end in the
  reverse order.  A test in user mode brings its pages, zeroed; one in the kernel uses pages as they are.
\<close>

fun new_Pages :: "(nat \<Rightarrow> addr) \<Rightarrow> nat list \<Rightarrow> unit test" where
  "new_Pages page [] = State_Monad.return ()"
| "new_Pages page (i # is) = do { new_Page (page i); new_Pages page is }"

fun new_descs :: "(nat \<Rightarrow> addr) \<Rightarrow> (nat \<Rightarrow> addr) \<Rightarrow> u16 \<Rightarrow> nat list \<Rightarrow> unit test" where
  "new_descs page desc sz [] = State_Monad.return ()"
| "new_descs page desc sz (i # is) = do { new_desc (desc i) (page i) sz 1; new_descs page desc sz is }"

definition kernel_test :: "(nat \<Rightarrow> addr) \<Rightarrow> (nat \<Rightarrow> addr) \<Rightarrow> addr \<Rightarrow> nat \<times> u16 \<times> command list \<Rightarrow> unit test" where
  "kernel_test page desc buf test = (case test of (n, sz, script) \<Rightarrow> do {
     new_descs page desc sz [1..<Suc n];
     run_commands desc buf sz script (\<lambda>_. 0);
     end_buf buf;
     end_descs (rev (map desc [1..<Suc n])) })"

definition user_test :: "(nat \<Rightarrow> addr) \<Rightarrow> (nat \<Rightarrow> addr) \<Rightarrow> addr \<Rightarrow> nat \<times> u16 \<times> command list \<Rightarrow> unit test" where
  "user_test page desc buf test = do { new_Pages page [1..<Suc (fst test)]; kernel_test page desc buf test }"

section \<open>The planner\<close>

datatype fact = Holds nat nat | Is_next nat nat | Eq nat nat | Ne nat nat

record plan =
  p_used :: "nat option list"
  p_lists :: "(nat list \<times> nat list \<times> nat list) option"
  p_facts :: "fact list"

fun reg_in :: "nat \<Rightarrow> fact \<Rightarrow> bool" where
  "reg_in r (Holds q i) \<longleftrightarrow> r = q"
| "reg_in r (Is_next q i) \<longleftrightarrow> r = q"
| "reg_in r (Eq q q') \<longleftrightarrow> r = q \<or> r = q'"
| "reg_in r (Ne q q') \<longleftrightarrow> r = q \<or> r = q'"

definition forget_reg :: "nat option \<Rightarrow> fact list \<Rightarrow> fact list" where
  "forget_reg dst fs = (case dst of None \<Rightarrow> fs | Some r \<Rightarrow> filter (\<lambda>f. \<not> reg_in r f) fs)"

fun about_next :: "nat \<Rightarrow> fact \<Rightarrow> bool" where
  "about_next i (Is_next r j) \<longleftrightarrow> i = j"
| "about_next i f \<longleftrightarrow> False"

fun about_slab :: "nat \<Rightarrow> fact \<Rightarrow> bool" where
  "about_slab i (Is_next r j) \<longleftrightarrow> i = j"
| "about_slab i (Holds r j) \<longleftrightarrow> i = j"
| "about_slab i f \<longleftrightarrow> False"

definition forget_slab :: "nat \<Rightarrow> fact list \<Rightarrow> fact list" where
  "forget_slab i fs = filter (\<lambda>f. \<not> about_slab i f) fs"

text \<open>What is learned when \<open>r\<close> receives an object of slab \<open>i\<close> from the buffer.\<close>

fun learned :: "nat \<Rightarrow> nat \<Rightarrow> fact \<Rightarrow> fact list" where
  "learned r i (Is_next q j) = (if i = j \<and> q \<noteq> r then [Eq r q] else [])"
| "learned r i (Holds q j) = (if i = j \<and> q \<noteq> r then [Ne r q] else [])"
| "learned r i f = []"

definition alloc_facts :: "nat option \<Rightarrow> nat \<Rightarrow> fact list \<Rightarrow> fact list" where
  "alloc_facts dst i fs =
     (case dst of None \<Rightarrow> [] | Some r \<Rightarrow> Holds r i # concat (map (learned r i) fs)) @
     filter (\<lambda>f. \<not> about_next i f) (forget_reg dst fs)"

definition known :: "nat \<Rightarrow> nat \<Rightarrow> bool" where
  "known n i \<longleftrightarrow> 1 \<le> i \<and> i \<le> n"

definition ready :: "plan \<Rightarrow> bool" where
  "ready a \<longleftrightarrow> list_all (\<lambda>k. k \<noteq> None) (tl (p_used a))"

definition no_lists :: "plan \<Rightarrow> bool" where
  "no_lists a \<longleftrightarrow> (p_lists a = None \<or> p_lists a = Some ([], [], []))"

text \<open>Each planned step may stand for a loop of \<open>m\<close> calls.\<close>

definition plan_alloc :: "nat \<Rightarrow> nat \<Rightarrow> nat option \<Rightarrow> nat \<Rightarrow> nat \<Rightarrow> plan \<Rightarrow> plan option" where
  "plan_alloc T n dst i m a =
     (if known n i \<and> no_lists a \<and> 0 < m then
        (case p_used a ! i of None \<Rightarrow> None
         | Some k \<Rightarrow> if k + m \<le> T then Some (a\<lparr>p_used := (p_used a)[i := Some (k + m)],
             p_facts := (case dst of None \<Rightarrow> [] | Some r \<Rightarrow> [Holds r i]) @ forget_slab i (forget_reg dst (p_facts a))\<rparr>)
           else None)
      else None)"

definition next_slab :: "plan \<Rightarrow> (nat \<times> nat \<times> (nat list \<times> nat list \<times> nat list)) option" where
  "next_slab a =
     (case p_lists a of None \<Rightarrow> None
      | Some B \<Rightarrow> (case fst (snd B) @ fst B of [] \<Rightarrow> None
         | i # _ \<Rightarrow> (case p_used a ! i of None \<Rightarrow> None | Some k \<Rightarrow> if ready a then Some (i, k, B) else None)))"

definition plan_buf_alloc :: "nat \<Rightarrow> nat option \<Rightarrow> plan \<Rightarrow> plan option" where
  "plan_buf_alloc T dst a =
     (case next_slab a of None \<Rightarrow> None
      | Some (i, k, B) \<Rightarrow> Some (a\<lparr>p_used := (p_used a)[i := Some (k + 1)],
          p_lists := Some (regroup k (k + 1) T i B), p_facts := alloc_facts dst i (p_facts a)\<rparr>))"

definition plan_buf_allocs :: "nat \<Rightarrow> nat option \<Rightarrow> nat \<Rightarrow> plan \<Rightarrow> plan option" where
  "plan_buf_allocs T dst m a =
     (case next_slab a of None \<Rightarrow> None
      | Some (i, k, B) \<Rightarrow> if 0 < m \<and> k + m \<le> T then Some (a\<lparr>p_used := (p_used a)[i := Some (k + m)],
          p_lists := Some (regroup k (k + m) T i B),
          p_facts := (case dst of None \<Rightarrow> [] | Some r \<Rightarrow> [Holds r i]) @ forget_slab i (forget_reg dst (p_facts a))\<rparr>)
          else None)"

definition plan_dealloc :: "nat \<Rightarrow> nat \<Rightarrow> nat \<Rightarrow> plan \<Rightarrow> plan option" where
  "plan_dealloc T i m a =
     (case p_lists a of None \<Rightarrow> None
      | Some B \<Rightarrow> if ready a \<and> i \<in> set (fst B @ fst (snd B) @ snd (snd B)) then
          (case p_used a ! i of None \<Rightarrow> None
           | Some k \<Rightarrow> if m \<le> k then Some (a\<lparr>p_used := (p_used a)[i := Some (k - m)],
               p_lists := Some (regroup k (k - m) T i B), p_facts := forget_slab i (p_facts a)\<rparr>) else None)
        else None)"

fun walk :: "nat \<Rightarrow> dir list \<Rightarrow> nat \<Rightarrow> nat" where
  "walk len [] p = p"
| "walk len (Nxt # path) p = walk len path (Suc p mod len)"
| "walk len (Prv # path) p = walk len path (if p = 0 then len - 1 else p - 1)"

fun plan_cond :: "nat \<Rightarrow> cond \<Rightarrow> plan \<Rightarrow> bool" where
  "plan_cond n (Head k path i) a \<longleftrightarrow> (case p_lists a of None \<Rightarrow> False
     | Some B \<Rightarrow> let xs = lists3 B k in xs \<noteq> [] \<and> xs ! walk (length xs) path 0 = i)"
| "plan_cond n (No_head k) a \<longleftrightarrow> (case p_lists a of None \<Rightarrow> False | Some B \<Rightarrow> lists3 B k = [])"
| "plan_cond n (Same r r') a \<longleftrightarrow> Eq r r' \<in> set (p_facts a)"
| "plan_cond n (Differ r r') a \<longleftrightarrow> Ne r r' \<in> set (p_facts a)"
| "plan_cond n (In_range i r) a \<longleftrightarrow> Holds r i \<in> set (p_facts a) \<and> p_used a ! i \<noteq> None"
| "plan_cond n (Both c c') a \<longleftrightarrow> plan_cond n c a \<and> plan_cond n c' a"

fun slab_held :: "nat \<Rightarrow> fact list \<Rightarrow> nat option" where
  "slab_held r [] = None"
| "slab_held r (f # fs) = (case f of Holds q i \<Rightarrow> if q = r then Some i else slab_held r fs | _ \<Rightarrow> slab_held r fs)"

fun plan_command :: "nat \<Rightarrow> nat \<Rightarrow> command \<Rightarrow> plan \<Rightarrow> plan option" where
  "plan_command T n (Setup i) a =
     (if known n i \<and> no_lists a \<and> p_used a ! i = None
      then Some (a\<lparr>p_used := (p_used a)[i := Some 0], p_facts := forget_slab i (p_facts a)\<rparr>) else None)"
| "plan_command T n (Allocate_from dst i) a = plan_alloc T n dst i 1 a"
| "plan_command T n (Allocate_all dst i) a =
     plan_alloc T n dst i T a"
| "plan_command T n New_buffer a = (if p_lists a = None then Some (a\<lparr>p_lists := Some ([], [], [])\<rparr>) else None)"
| "plan_command T n (Add i) a =
     (case p_lists a of None \<Rightarrow> None
      | Some B \<Rightarrow> if known n i \<and> ready a \<and> i \<notin> set (fst B @ fst (snd B) @ snd (snd B)) then
          (case p_used a ! i of None \<Rightarrow> None
           | Some k \<Rightarrow> Some (a\<lparr>p_lists := Some (file_in k T i B)\<rparr>))
        else None)"
| "plan_command T n (Buf_allocate dst) a = plan_buf_alloc T dst a"
| "plan_command T n (Buf_allocate_all dst i few) a =
     (if known n i \<and> p_used a ! i \<noteq> None then plan_buf_allocs T dst (T - few) a else None)"
| "plan_command T n (Buf_deallocate r) a =
     (case slab_held r (p_facts a) of None \<Rightarrow> None | Some i \<Rightarrow> plan_dealloc T i 1 a)"
| "plan_command T n (Buf_deallocate_range i) a =
     (if T = 0x200 \<and> known n i \<and> p_used a ! i = Some T then plan_dealloc T i T a else None)"
| "plan_command T n (Next_free r i) a =
     (if known n i then Some (a\<lparr>p_facts := Is_next r i # forget_reg (Some r) (p_facts a)\<rparr>) else None)"
| "plan_command T n (Assert how c) a = (if plan_cond n c a then Some a else None)"

fun plan_commands :: "nat \<Rightarrow> nat \<Rightarrow> command list \<Rightarrow> plan \<Rightarrow> plan option" where
  "plan_commands T n [] a = Some a"
| "plan_commands T n (c # cs) a =
     (case plan_command T n c a of None \<Rightarrow> None | Some a \<Rightarrow> plan_commands T n cs a)"

text \<open>Every slab must have been given to the buffer when the objects end.\<close>

definition accepted :: "nat \<times> u16 \<times> command list \<Rightarrow> bool" where
  "accepted test = (case test of (n, sz, script) \<Rightarrow>
     8 \<le> unat sz \<and> unat sz \<le> 0x1000 \<and>
     (case plan_commands (0x1000 div unat sz) n script \<lparr>p_used = replicate (Suc n) None, p_lists = None, p_facts = []\<rparr> of
        None \<Rightarrow> False
      | Some a \<Rightarrow> (case p_lists a of None \<Rightarrow> False
          | Some B \<Rightarrow> list_all (\<lambda>i. i \<in> set (fst B @ fst (snd B) @ snd (snd B))) [1..<Suc n])))"

declare repeat_alloc.simps [simp del] range_loop.simps [simp del] run_command.simps [simp del]
  run_commands.simps [simp del] new_Pages.simps [simp del] new_descs.simps [simp del]

end
