(* ===== verification/Slab_Plans.thy ===== *)
theory Slab_Plans
  imports Slab_Scripts
begin

text \<open>
  The planner is sound: a script it accepts passes on the model, wherever the slabs, their pages and the buffer lie.
\<close>

section \<open>Lists of slabs, by number and by address\<close>

definition map3 :: "('a \<Rightarrow> 'b) \<Rightarrow> 'a list \<times> 'a list \<times> 'a list \<Rightarrow> 'b list \<times> 'b list \<times> 'b list" where
  "map3 f B = (map f (fst B), map f (fst (snd B)), map f (snd (snd B)))"

definition all_of :: "'a list \<times> 'a list \<times> 'a list \<Rightarrow> 'a list" where
  "all_of B = fst B @ fst (snd B) @ snd (snd B)"

lemma map3_simps [simp]:
  "fst (map3 f B) = map f (fst B)" "fst (snd (map3 f B)) = map f (fst (snd B))" "snd (snd (map3 f B)) = map f (snd (snd B))"
  "all_of (map3 f B) = map f (all_of B)" "map3 f (xs, ys, zs) = (map f xs, map f ys, map f zs)"
  by (simp_all add: map3_def all_of_def)

lemma lists3_map3: "lists3 (map3 f B) k = map f (lists3 B k)"
  by (cases B; cases k) simp_all

lemma lists3_all_of: "set (lists3 B k) \<subseteq> set (all_of B)"
  by (cases B; cases k) (auto simp: all_of_def)

lemma map_remove1_inj: "inj_on f (insert x (set xs)) \<Longrightarrow> map f (remove1 x xs) = remove1 (f x) (map f xs)"
  by (induction xs) (auto simp: inj_on_def)

lemma map3_file_in: "map3 f (file_in k T x B) = file_in k T (f x) (map3 f B)"
  by (cases B) (simp add: file_in_def)

lemma map3_take_out:
  assumes "inj_on f (insert x (set (all_of B)))"
  shows "map3 f (take_out x B) = take_out (f x) (map3 f B)"
proof -
  have "inj_on f (insert x (set (lists3 B k)))" for k
    by (rule inj_on_subset [OF assms]) (use lists3_all_of [of B k] in blast)
  from map_remove1_inj [OF this [of FreeLists]] map_remove1_inj [OF this [of PartialLists]]
    map_remove1_inj [OF this [of FullLists]] show ?thesis by (cases B) (simp add: take_out_def)
qed

lemma map3_regroup:
  "inj_on f (insert x (set (all_of B))) \<Longrightarrow> map3 f (regroup k k' T x B) = regroup k k' T (f x) (map3 f B)"
  unfolding regroup_def by (simp only: if_distrib [where f = "map3 f"] map3_file_in map3_take_out)

lemma all_of_file_in: "set (all_of (file_in k T x B)) = insert x (set (all_of B))"
  by (cases B) (auto simp: file_in_def all_of_def)

lemma all_of_take_out: "set (all_of (take_out x B)) \<subseteq> set (all_of B)"
  using set_remove1_subset by (cases B) (fastforce simp: take_out_def all_of_def)

lemma all_of_regroup: "x \<in> set (all_of B) \<Longrightarrow> set (all_of (regroup k k' T x B)) \<subseteq> set (all_of B)"
  using all_of_take_out [of x B] by (auto simp: regroup_def all_of_file_in)

lemma take_out_twice: "distinct (all_of B) \<Longrightarrow> take_out x (file_in k T x (take_out x B)) = take_out x B"
  by (cases B) (auto simp: take_out_def file_in_def all_of_def remove1_append remove1_idem)

lemma distinct_regroup: "x \<in> set (all_of B) \<Longrightarrow> distinct (all_of B) \<Longrightarrow> distinct (all_of (regroup k k' T x B))"
  by (cases B) (auto simp: regroup_def file_in_def take_out_def all_of_def dest: in_set_remove1)

text \<open>Two moves in the same direction are one.\<close>

lemma regroup_trans:
  assumes "distinct (all_of B)" "k \<le> k' \<and> k' \<le> k'' \<or> k'' \<le> k' \<and> k' \<le> k" "k \<le> T" "k'' \<le> T"
  shows "regroup k' k'' T x (regroup k k' T x B) = regroup k k'' T x B"
proof -
  have f: "file_in k'' T x (take_out x B) = file_in k' T x (take_out x B)"
    if "(k' = T) = (k'' = T)" "(k' = 0) = (k'' = 0)"
    using that by (cases B) (simp add: file_in_def take_out_def)
  show ?thesis
  proof (cases "(k = T) = (k' = T) \<and> (k = 0) = (k' = 0)")
    case True
    then show ?thesis by (simp add: regroup_def)
  next
    case False
    then have ne: "\<not> ((k = T) = (k'' = T) \<and> (k = 0) = (k'' = 0))" using assms(2-4) by auto
    then show ?thesis using False f take_out_twice [OF assms(1)] by (auto simp: regroup_def)
  qed
qed

section \<open>The state a plan describes\<close>

definition used_of :: "nat \<Rightarrow> (nat \<Rightarrow> addr) \<Rightarrow> nat option list \<Rightarrow> addr \<Rightarrow> nat option" where
  "used_of n desc us x = us ! inv_into {1..n} desc x"

definition page_of :: "nat \<Rightarrow> (nat \<Rightarrow> addr) \<Rightarrow> (nat \<Rightarrow> addr) \<Rightarrow> addr \<Rightarrow> addr" where
  "page_of n desc page x = page (inv_into {1..n} desc x)"

definition placed :: "nat \<Rightarrow> u16 \<Rightarrow> nat \<Rightarrow> (nat \<Rightarrow> addr) \<Rightarrow> (nat \<Rightarrow> addr) \<Rightarrow> bool" where
  "placed n sz T desc page \<longleftrightarrow> inj_on desc {1..n} \<and> pages_ok sz T (page_of n desc page) (desc ` {1..n})"

lemma placedD: "placed n sz T desc page \<Longrightarrow> inj_on desc {1..n}"
    "placed n sz T desc page \<Longrightarrow> pages_ok sz T (page_of n desc page) (desc ` {1..n})"
  unfolding placed_def by blast+

fun fact_holds :: "nat \<Rightarrow> (nat \<Rightarrow> addr) \<Rightarrow> regs \<Rightarrow> slab_store \<Rightarrow> fact \<Rightarrow> bool" where
  "fact_holds n desc regs s (Holds r i) \<longleftrightarrow> known n i \<and> regs r \<in> set (slab_slots (ss_lds s (desc i))) \<and>
     regs r \<notin> slab_free (ss_mem s) (ss_lds s (desc i))"
| "fact_holds n desc regs s (Is_next r i) \<longleftrightarrow> known n i \<and> regs r = NextFreeBuffer (ss_lds s (desc i))"
| "fact_holds n desc regs s (Eq r r') \<longleftrightarrow> regs r = regs r'"
| "fact_holds n desc regs s (Ne r r') \<longleftrightarrow> regs r \<noteq> regs r'"

definition plan_world ::
    "nat \<Rightarrow> u16 \<Rightarrow> nat \<Rightarrow> (nat \<Rightarrow> addr) \<Rightarrow> (nat \<Rightarrow> addr) \<Rightarrow> addr \<Rightarrow> plan \<Rightarrow> slab_store \<Rightarrow> bool" where
  "plan_world n sz T desc page buf a s \<longleftrightarrow> length (p_used a) = Suc n \<and>
     (\<forall>B. p_lists a = Some B \<longrightarrow> set (all_of B) \<subseteq> {1..n}) \<and>
     world sz T (page_of n desc page) (desc ` {1..n}) buf (used_of n desc (p_used a)) (map_option (map3 desc) (p_lists a)) s"

definition sim ::
    "nat \<Rightarrow> u16 \<Rightarrow> nat \<Rightarrow> (nat \<Rightarrow> addr) \<Rightarrow> (nat \<Rightarrow> addr) \<Rightarrow> addr \<Rightarrow> regs \<Rightarrow> plan \<Rightarrow> slab_store \<Rightarrow> bool" where
  "sim n sz T desc page buf regs a s \<longleftrightarrow>
     plan_world n sz T desc page buf a s \<and> (\<forall>f \<in> set (p_facts a). fact_holds n desc regs s f)"

lemma used_of_at [simp]: "inj_on desc {1..n} \<Longrightarrow> known n i \<Longrightarrow> used_of n desc us (desc i) = us ! i"
  by (simp add: used_of_def known_def inv_into_f_f)

lemma desc_eq: "inj_on desc {1..n} \<Longrightarrow> known n i \<Longrightarrow> known n j \<Longrightarrow> desc i = desc j \<longleftrightarrow> i = j"
  by (simp add: known_def inj_on_eq_iff)

lemma used_of_upd:
  assumes "inj_on desc {1..n}" "length us = Suc n" "known n i" "d \<in> desc ` {1..n}"
  shows "used_of n desc (us[i := x]) d = ((used_of n desc us)(desc i := x)) d"
proof -
  from assms(4) obtain j where j: "d = desc j" "known n j" by (auto simp: known_def)
  have at: "used_of n desc vs (desc j) = vs ! j" for vs by (rule used_of_at [OF assms(1) j(2)])
  show ?thesis
  proof (cases "j = i")
    case True
    have "i < length us" using assms(2,3) by (simp add: known_def)
    then show ?thesis using at [of "us[i := x]"] True j(1) by simp
  next
    case False
    then have "desc j \<noteq> desc i" using assms(1,3) j(2) by (simp add: desc_eq)
    then show ?thesis unfolding j(1) at using False at [of us] by simp
  qed
qed

lemma world_used_cong: "(\<And>d. d \<in> D \<Longrightarrow> u d = u' d) \<Longrightarrow> world sz T pg D b u B s = world sz T pg D b u' B s"
  by (simp add: world_def)

lemma known_D: "known n i \<Longrightarrow> desc i \<in> desc ` {1..n}"
  by (simp add: known_def)

lemma ready_all: "length (p_used a) = Suc n \<Longrightarrow> ready a \<Longrightarrow> inj_on desc {1..n} \<Longrightarrow>
    \<forall>d \<in> desc ` {1..n}. used_of n desc (p_used a) d \<noteq> None"
proof
  fix d assume a: "length (p_used a) = Suc n" "ready a" "inj_on desc {1..n}" "d \<in> desc ` {1..n}"
  then obtain i where i: "d = desc i" "1 \<le> i" "i \<le> n" by auto
  have "p_used a ! i \<noteq> None" using a(1,2) i(2,3)
    by (cases "p_used a"; cases i) (auto simp: ready_def list_all_length)
  then show "used_of n desc (p_used a) d \<noteq> None" using i a(3) by (simp add: known_def)
qed

lemma no_lists_empty: "no_lists a \<Longrightarrow> map_option (map3 desc) (p_lists a) = None \<or>
    map_option (map3 desc) (p_lists a) = Some ([], [], [])"
  by (auto simp: no_lists_def)

lemma world_page:
  "world sz T pg D b u B s \<Longrightarrow> d \<in> D \<Longrightarrow> m_baseAddress (ss_lds s d) = pg d \<and> m_pages (ss_lds s d) = 1"
  by (cases "u d") (auto simp: world_def slab_at_def new_ListDescriptor_def)

lemma frame_facts:
  assumes f: "frame pg D d s s'" and w: "world sz T pg D b u B s" and p: "pages_ok sz T pg D" and e: "e \<in> D" "e \<noteq> d"
  shows "slab_free (ss_mem s') (ss_lds s' e) = slab_free (ss_mem s) (ss_lds s e)"
    "slab_slots (ss_lds s' e) = slab_slots (ss_lds s e)" "m_nextFree (ss_lds s' e) = m_nextFree (ss_lds s e)"
proof -
  have q: "payload (ss_lds s' e) = payload (ss_lds s e)" using f e by (simp add: frame_def)
  have "page_at (pg e)" using p e by (simp add: pages_ok_def)
  then have "\<forall>a. ObjectInRange (ss_lds s e) a \<longrightarrow> ss_mem s' a = ss_mem s a"
    using f e world_page [OF w e(1)] by (simp add: frame_def one_page_range)
  from slab_memory(2) [OF this] show "slab_free (ss_mem s') (ss_lds s' e) = slab_free (ss_mem s) (ss_lds s e)"
    using slab_free_payload [OF q] by metis
  show "slab_slots (ss_lds s' e) = slab_slots (ss_lds s e)" by (rule slab_slots_payload [OF q])
  have "m_nextFree (payload ld) = m_nextFree ld" for ld by (simp add: payload_def)
  from this [of "ss_lds s' e"] this [of "ss_lds s e"] q show "m_nextFree (ss_lds s' e) = m_nextFree (ss_lds s e)" by simp
qed

text \<open>A fact that is not about the slab of an operation outlives it.\<close>

lemma fact_frame:
  assumes pl: "placed n sz T desc page" and w: "plan_world n sz T desc page buf a s"
    and f: "frame (page_of n desc page) (desc ` {1..n}) (desc i) s s'" and i: "known n i"
    and h: "fact_holds n desc regs s g" "\<not> about_slab i g"
  shows "fact_holds n desc regs s' g"
proof -
  have ne: "desc j \<noteq> desc i" if "known n j" "j \<noteq> i" for j
    using that i placedD(1) [OF pl] desc_eq by blast
  have p: "pages_ok sz T (page_of n desc page) (desc ` {1..n})" by (rule placedD(2) [OF pl])
  have w': "world sz T (page_of n desc page) (desc ` {1..n}) buf (used_of n desc (p_used a)) (map_option (map3 desc) (p_lists a)) s"
    using w by (simp add: plan_world_def)
  note k = frame_facts [OF f w' p known_D ne]
  show ?thesis using h by (cases g) (auto simp: k NextFreeBuffer_def)
qed

lemma fact_put: "fact_holds n desc regs s g \<Longrightarrow> \<forall>r. dst = Some r \<longrightarrow> \<not> reg_in r g \<Longrightarrow> fact_holds n desc (put dst p regs) s g"
  by (cases g) (auto simp: put_def split: option.splits)

lemma forget_facts:
  "\<forall>f \<in> set fs. P f \<Longrightarrow> f \<in> set (forget_slab i (forget_reg dst fs)) \<Longrightarrow>
   P f \<and> \<not> about_slab i f \<and> (\<forall>r. dst = Some r \<longrightarrow> \<not> reg_in r f)"
  by (auto simp: forget_slab_def forget_reg_def split: option.splits)


section \<open>Operations\<close>

definition ends_in :: "('a \<Rightarrow> slab_store \<Rightarrow> bool) \<Rightarrow> 'a \<Rightarrow> test_state \<Rightarrow> bool" where
  "ends_in P x t \<longleftrightarrow> (\<exists>s. t = passing s \<and> P x s)"

lemma ends_in_passing [simp]: "ends_in P x (passing s) \<longleftrightarrow> P x s"
  by (auto simp: ends_in_def passing_def)

lemma wp_ends_in: "wp m (ends_in P) t \<Longrightarrow> (\<And>x s. P x s \<Longrightarrow> Q x (passing s)) \<Longrightarrow> wp m Q t"
  by (erule wp_mono) (auto simp: ends_in_def)

lemma plan_worldD:
  "plan_world n sz T desc page buf a s \<Longrightarrow>
   world sz T (page_of n desc page) (desc ` {1..n}) buf (used_of n desc (p_used a)) (map_option (map3 desc) (p_lists a)) s"
  "plan_world n sz T desc page buf a s \<Longrightarrow> length (p_used a) = Suc n"
  "plan_world n sz T desc page buf a s \<Longrightarrow> p_lists a = Some B \<Longrightarrow> set (all_of B) \<subseteq> {1..n}"
  unfolding plan_world_def by blast+

lemma plan_world_upd:
  assumes pl: "placed n sz T desc page" and w: "plan_world n sz T desc page buf a s" and i: "known n i"
    and w': "world sz T (page_of n desc page) (desc ` {1..n}) buf
               ((used_of n desc (p_used a))(desc i := Some k)) (map_option (map3 desc) (p_lists a')) s'"
    and a': "p_used a' = (p_used a)[i := Some k]" "\<And>B. p_lists a' = Some B \<Longrightarrow> set (all_of B) \<subseteq> {1..n}"
  shows "plan_world n sz T desc page buf a' s'"
proof -
  have "used_of n desc (p_used a') d = ((used_of n desc (p_used a))(desc i := Some k)) d" if "d \<in> desc ` {1..n}" for d
    unfolding a'(1) by (rule used_of_upd [OF placedD(1) [OF pl] plan_worldD(2) [OF w] i that])
  then have "world sz T (page_of n desc page) (desc ` {1..n}) buf (used_of n desc (p_used a')) (map_option (map3 desc) (p_lists a')) s' =
      world sz T (page_of n desc page) (desc ` {1..n}) buf ((used_of n desc (p_used a))(desc i := Some k))
        (map_option (map3 desc) (p_lists a')) s'"
    by (rule world_used_cong)
  with w' have "world sz T (page_of n desc page) (desc ` {1..n}) buf (used_of n desc (p_used a'))
      (map_option (map3 desc) (p_lists a')) s'" by (rule iffD2 [rotated])
  with plan_worldD(2) [OF w] a' show ?thesis by (simp add: plan_world_def)
qed

lemma sim_setup:
  assumes pl: "placed n sz T desc page" and st: "sim n sz T desc page buf regs a s"
    and c: "known n i" "no_lists a" "p_used a ! i = None"
  shows "wp (setup_linkage (desc i)) (ends_in (\<lambda>_. sim n sz T desc page buf regs
           (a\<lparr>p_used := (p_used a)[i := Some 0], p_facts := forget_slab i (p_facts a)\<rparr>))) (passing s)"
proof -
  have pw: "plan_world n sz T desc page buf a s" using st by (simp add: sim_def)
  have "used_of n desc (p_used a) (desc i) = None" using c placedD(1) [OF pl] by simp
  from setup_world [OF plan_worldD(1) [OF pw] placedD(2) [OF pl] known_D [OF c(1)] this no_lists_empty [OF c(2)]]
  obtain m ld where r: "SetupLinkage (ss_mem s) (ss_lds s (desc i)) = Inr (m, ld)"
    and w: "world sz T (page_of n desc page) (desc ` {1..n}) buf ((used_of n desc (p_used a))(desc i := Some 0))
          (map_option (map3 desc) (p_lists a)) (s\<lparr>ss_mem := m, ss_lds := (ss_lds s)(desc i := ld)\<rparr>)"
    and f: "frame (page_of n desc page) (desc ` {1..n}) (desc i) s (s\<lparr>ss_mem := m, ss_lds := (ss_lds s)(desc i := ld)\<rparr>)"
    unfolding Let_def by blast
  let ?s = "s\<lparr>ss_mem := m, ss_lds := (ss_lds s)(desc i := ld)\<rparr>"
    and ?a = "a\<lparr>p_used := (p_used a)[i := Some 0], p_facts := forget_slab i (p_facts a)\<rparr>"
  have "plan_world n sz T desc page buf ?a ?s"
    by (rule plan_world_upd [OF pl pw c(1)]) (use w plan_worldD(3) [OF pw] in simp_all)
  moreover have "\<forall>g \<in> set (p_facts ?a). fact_holds n desc regs ?s g"
    using st fact_frame [OF pl pw f c(1)] by (auto simp: sim_def forget_slab_def)
  ultimately have "sim n sz T desc page buf regs ?a ?s" by (simp add: sim_def)
  with r show ?thesis by (simp add: setup_linkage_def wp_act [where s' = ?s])
qed

text \<open>What is kept and learned when an object \<open>q\<close> of slab \<open>i\<close> is put into a register.\<close>

lemma facts_after_alloc:
  assumes pl: "placed n sz T desc page" and st: "sim n sz T desc page buf regs a s" and i: "known n i"
    and f: "frame (page_of n desc page) (desc ` {1..n}) (desc i) s s'"
    and q: "q \<in> set (slab_slots (ss_lds s' (desc i)))" "q \<notin> slab_free (ss_mem s') (ss_lds s' (desc i))"
  shows "\<forall>g \<in> set ((case dst of None \<Rightarrow> [] | Some r \<Rightarrow> [Holds r i]) @ forget_slab i (forget_reg dst (p_facts a))).
           fact_holds n desc (put dst q regs) s' g"
proof
  fix g assume g: "g \<in> set ((case dst of None \<Rightarrow> [] | Some r \<Rightarrow> [Holds r i]) @ forget_slab i (forget_reg dst (p_facts a)))"
  have pw: "plan_world n sz T desc page buf a s" and old: "\<forall>g \<in> set (p_facts a). fact_holds n desc regs s g"
    using st by (simp_all add: sim_def)
  show "fact_holds n desc (put dst q regs) s' g"
  proof (cases "g \<in> set (forget_slab i (forget_reg dst (p_facts a)))")
    case True
    from forget_facts [OF old this] show ?thesis using fact_put fact_frame [OF pl pw f i] by blast
  next
    case False
    with g q i show ?thesis by (auto simp: put_def split: option.splits)
  qed
qed

lemma sim_alloc:
  assumes pl: "placed n sz T desc page" and st: "sim n sz T desc page buf regs a s"
    and a': "plan_alloc T n dst i 1 a = Some a'"
  shows "wp (alloc (desc i)) (ends_in (\<lambda>p. sim n sz T desc page buf (put dst p regs) a')) (passing s)"
proof -
  have pw: "plan_world n sz T desc page buf a s" using st by (simp add: sim_def)
  from a' obtain k where c: "known n i" "no_lists a" "p_used a ! i = Some k" "k + 1 \<le> T"
    and eq: "a' = a\<lparr>p_used := (p_used a)[i := Some (k + 1)],
       p_facts := (case dst of None \<Rightarrow> [] | Some r \<Rightarrow> [Holds r i]) @ forget_slab i (forget_reg dst (p_facts a))\<rparr>"
    by (auto simp: plan_alloc_def split: if_splits option.splits)
  have "used_of n desc (p_used a) (desc i) = Some k" "k < T" using c placedD(1) [OF pl] by simp_all
  from alloc_world [OF plan_worldD(1) [OF pw] placedD(2) [OF pl] known_D [OF c(1)] this no_lists_empty [OF c(2)]]
  obtain s' q where r: "ld_allocate (desc i) s = Inr (s', q)"
    and w: "world sz T (page_of n desc page) (desc ` {1..n}) buf ((used_of n desc (p_used a))(desc i := Some (k + 1)))
          (map_option (map3 desc) (p_lists a)) s'"
    and f: "frame (page_of n desc page) (desc ` {1..n}) (desc i) s s'"
    and q: "q \<in> set (slab_slots (ss_lds s' (desc i)))" "q \<notin> slab_free (ss_mem s') (ss_lds s' (desc i))" by blast
  have "plan_world n sz T desc page buf a' s'"
    by (rule plan_world_upd [OF pl pw c(1)]) (use w eq plan_worldD(3) [OF pw] in simp_all)
  with facts_after_alloc [OF pl st c(1) f q, of dst] have "sim n sz T desc page buf (put dst q regs) a' s'"
    by (simp add: sim_def eq)
  with r show ?thesis by (simp add: alloc_def wp_act_ptr)
qed

text \<open>A loop of calls, planned as one.\<close>

lemma sim_repeat:
  assumes step: "\<And>regs a a' s. R regs a s \<Longrightarrow> P 1 a = Some a' \<Longrightarrow>
      wp f (ends_in (\<lambda>p. R (put dst p regs) a')) (passing s)"
    and split: "\<And>m regs a a' s. R regs a s \<Longrightarrow> P (Suc m) a = Some a' \<Longrightarrow> 0 < m \<Longrightarrow>
      \<exists>a1. P 1 a = Some a1 \<and> P m a1 = Some a'"
    and st: "R regs a s" "P m a = Some a'" "0 < m"
  shows "wp (repeat_alloc f m dst regs) (ends_in (\<lambda>regs'. R regs' a')) (passing s)"
  using st
proof (induction m arbitrary: regs a s)
  case (Suc m)
  obtain a1 where a1: "P 1 a = Some a1" "m = 0 \<and> a' = a1 \<or> 0 < m \<and> P m a1 = Some a'"
  proof (cases "m = 0")
    case True
    with that [of a'] Suc.prems(2) show ?thesis by simp
  next
    case False
    with split [OF Suc.prems(1,2)] that show ?thesis by blast
  qed
  show ?case unfolding repeat_alloc.simps wp_bind
  proof (rule wp_ends_in [OF step [OF Suc.prems(1) a1(1)]])
    fix p s' assume s': "R (put dst p regs) a1 s'"
    from a1(2) Suc.IH [OF s'] s'
    show "wp (repeat_alloc f m dst (put dst p regs)) (ends_in (\<lambda>regs'. R regs' a')) (passing s')"
      by (auto simp: repeat_alloc.simps wp_return)
  qed
qed simp

lemma forget_twice:
  "forget_slab i (forget_reg dst ((case dst of None \<Rightarrow> [] | Some r \<Rightarrow> [Holds r i]) @ forget_slab i (forget_reg dst fs))) =
   forget_slab i (forget_reg dst fs)"
  by (auto simp: forget_slab_def forget_reg_def split: option.splits intro: filter_cong)

lemma plan_alloc_split:
  assumes "plan_alloc T n dst i (Suc m) a = Some a'" "0 < m" "length (p_used a) = Suc n"
  shows "\<exists>a1. plan_alloc T n dst i 1 a = Some a1 \<and> plan_alloc T n dst i m a1 = Some a'"
proof -
  let ?f = "(case dst of None \<Rightarrow> [] | Some r \<Rightarrow> [Holds r i]) @ forget_slab i (forget_reg dst (p_facts a))"
  from assms(1) obtain k where c: "known n i" "no_lists a" "p_used a ! i = Some k" "k + Suc m \<le> T"
    and eq: "a' = a\<lparr>p_used := (p_used a)[i := Some (k + Suc m)], p_facts := ?f\<rparr>"
    by (auto simp: plan_alloc_def split: if_splits option.splits)
  let ?a1 = "a\<lparr>p_used := (p_used a)[i := Some (k + 1)], p_facts := ?f\<rparr>"
  have "plan_alloc T n dst i 1 a = Some ?a1" using c by (simp add: plan_alloc_def)
  moreover have "i < length (p_used a)" using c(1) assms(3) by (simp add: known_def)
  then have "plan_alloc T n dst i m ?a1 = Some a'"
    using c assms(2) by (simp add: plan_alloc_def no_lists_def forget_twice eq)
  ultimately show ?thesis by blast
qed

text \<open>Allocation from the buffer.\<close>

lemma next_slabD:
  assumes "next_slab a = Some (i, k, B)"
  shows "p_lists a = Some B" "p_used a ! i = Some k" "ready a" "\<exists>rest. fst (snd B) @ fst B = i # rest" "i \<in> set (all_of B)"
proof -
  from assms have c: "p_lists a = Some B \<and> p_used a ! i = Some k \<and> ready a \<and> (\<exists>rest. fst (snd B) @ fst B = i # rest)"
    by (auto simp: next_slab_def split: option.splits list.splits if_splits)
  then show "p_lists a = Some B" "p_used a ! i = Some k" "ready a" "\<exists>rest. fst (snd B) @ fst B = i # rest" by auto
  from c obtain rest where "fst (snd B) @ fst B = i # rest" by blast
  from arg_cong [OF this, of set] show "i \<in> set (all_of B)" by (auto simp: all_of_def)
qed

lemma plan_known: "plan_world n sz T desc page buf a s \<Longrightarrow> p_lists a = Some B \<Longrightarrow> i \<in> set (all_of B) \<Longrightarrow> known n i"
  using plan_worldD(3) [of n sz T desc page buf a s B] by (auto simp: known_def)

lemma plan_inj: "placed n sz T desc page \<Longrightarrow> plan_world n sz T desc page buf a s \<Longrightarrow> p_lists a = Some B \<Longrightarrow>
    i \<in> set (all_of B) \<Longrightarrow> inj_on desc (insert i (set (all_of B)))"
  using placedD(1) plan_worldD(3) by (metis inj_on_subset insert_absorb)

lemma buf_alloc_step:
  assumes pl: "placed n sz T desc page" and st: "sim n sz T desc page buf regs a s" and ns: "next_slab a = Some (i, k, B)"
  shows "\<exists>s' q. Buffer_Allocate buf s = Inr (s', q) \<and> k < T \<and> known n i \<and> q = NextFreeBuffer (ss_lds s (desc i)) \<and>
    (\<forall>fs. plan_world n sz T desc page buf (a\<lparr>p_used := (p_used a)[i := Some (k + 1)],
       p_lists := Some (regroup k (k + 1) T i B), p_facts := fs\<rparr>) s') \<and>
    frame (page_of n desc page) (desc ` {1..n}) (desc i) s s' \<and> q \<in> slab_free (ss_mem s) (ss_lds s (desc i)) \<and>
    slab_slots (ss_lds s' (desc i)) = slab_slots (ss_lds s (desc i)) \<and>
    slab_free (ss_mem s') (ss_lds s' (desc i)) = slab_free (ss_mem s) (ss_lds s (desc i)) - {q} \<and>
    q \<in> set (slab_slots (ss_lds s' (desc i)))"
proof -
  have pw: "plan_world n sz T desc page buf a s" using st by (simp add: sim_def)
  note c = next_slabD [OF ns]
  note i = plan_known [OF pw c(1,5)]
  have w: "world sz T (page_of n desc page) (desc ` {1..n}) buf (used_of n desc (p_used a)) (Some (map3 desc B)) s"
    using plan_worldD(1) [OF pw] c(1) by simp
  obtain rest where "fst (snd B) @ fst B = i # rest" using c(4) by blast
  from arg_cong [OF this, of "map desc"] have head: "fst (snd (map3 desc B)) @ fst (map3 desc B) = desc i # map desc rest" by simp
  have "used_of n desc (p_used a) (desc i) = Some k" using c(2) i placedD(1) [OF pl] by simp
  from buf_alloc_world [OF w placedD(2) [OF pl] head this ready_all [OF plan_worldD(2) [OF pw] c(3) placedD(1) [OF pl]]]
  obtain s' where s': "Buffer_Allocate buf s = Inr (s', NextFreeBuffer (ss_lds s (desc i)))" "k < T"
    "world sz T (page_of n desc page) (desc ` {1..n}) buf ((used_of n desc (p_used a))(desc i := Some (k + 1)))
       (Some (regroup k (k + 1) T (desc i) (map3 desc B))) s'"
    "frame (page_of n desc page) (desc ` {1..n}) (desc i) s s'"
    "NextFreeBuffer (ss_lds s (desc i)) \<in> slab_free (ss_mem s) (ss_lds s (desc i))"
    "NextFreeBuffer (ss_lds s (desc i)) \<in> set (slab_slots (ss_lds s' (desc i)))"
    "slab_free (ss_mem s') (ss_lds s' (desc i)) = slab_free (ss_mem s) (ss_lds s (desc i)) - {NextFreeBuffer (ss_lds s (desc i))}"
    "slab_slots (ss_lds s' (desc i)) = slab_slots (ss_lds s (desc i))"
    by blast
  note eq = map3_regroup [OF plan_inj [OF pl pw c(1,5)], symmetric]
  have "plan_world n sz T desc page buf (a\<lparr>p_used := (p_used a)[i := Some (k + 1)],
       p_lists := Some (regroup k (k + 1) T i B), p_facts := fs\<rparr>) s'" for fs
  proof (rule plan_world_upd [OF pl pw i])
    let ?a = "a\<lparr>p_used := (p_used a)[i := Some (k + 1)], p_lists := Some (regroup k (k + 1) T i B), p_facts := fs\<rparr>"
    have L: "map_option (map3 desc) (p_lists ?a) = Some (regroup k (k + 1) T (desc i) (map3 desc B))"
      by (simp add: eq)
    show "world sz T (page_of n desc page) (desc ` {1..n}) buf ((used_of n desc (p_used a))(desc i := Some (k + 1)))
        (map_option (map3 desc) (p_lists ?a)) s'" unfolding L by (rule s'(3))
    show "set (all_of C) \<subseteq> {1..n}" if "p_lists ?a = Some C" for C
    proof -
      from that have C: "C = regroup k (k + 1) T i B" by simp
      show ?thesis unfolding C by (rule order_trans [OF all_of_regroup [OF c(5)] plan_worldD(3) [OF pw c(1)]])
    qed
  qed simp
  with s' i show ?thesis by auto
qed

lemma sim_buf_alloc:
  assumes pl: "placed n sz T desc page" and st: "sim n sz T desc page buf regs a s" and a': "plan_buf_alloc T dst a = Some a'"
  shows "wp (buf_alloc buf) (ends_in (\<lambda>p. sim n sz T desc page buf (put dst p regs) a')) (passing s)"
proof -
  from a' obtain i k B where ns: "next_slab a = Some (i, k, B)" and eq: "a' = a\<lparr>p_used := (p_used a)[i := Some (k + 1)],
      p_lists := Some (regroup k (k + 1) T i B), p_facts := alloc_facts dst i (p_facts a)\<rparr>"
    by (auto simp: plan_buf_alloc_def split: option.splits)
  from buf_alloc_step [OF pl st ns] obtain s' q where r: "Buffer_Allocate buf s = Inr (s', q)" "known n i"
      "q = NextFreeBuffer (ss_lds s (desc i))" "plan_world n sz T desc page buf a' s'"
      "frame (page_of n desc page) (desc ` {1..n}) (desc i) s s'" "q \<in> slab_free (ss_mem s) (ss_lds s (desc i))"
      "slab_slots (ss_lds s' (desc i)) = slab_slots (ss_lds s (desc i))"
      "slab_free (ss_mem s') (ss_lds s' (desc i)) = slab_free (ss_mem s) (ss_lds s (desc i)) - {q}"
      "q \<in> set (slab_slots (ss_lds s' (desc i)))" unfolding eq by blast
  have pw: "plan_world n sz T desc page buf a s" and old: "\<And>g. g \<in> set (p_facts a) \<Longrightarrow> fact_holds n desc regs s g"
    using st by (simp_all add: sim_def)
  have kept: "fact_holds n desc regs s' g" if g: "g \<in> set (p_facts a)" "\<not> about_next i g" for g
  proof (cases "about_slab i g")
    case True
    with g(2) obtain p where "g = Holds p i" by (cases g) auto
    with old [OF g(1)] r show ?thesis by auto
  qed (use fact_frame [OF pl pw r(5,2) old [OF g(1)]] in blast)
  have new: "fact_holds n desc (regs(p := q)) s' g'" if "g \<in> set (p_facts a)" "g' \<in> set (learned p i g)" for p g g'
    using that(2) old [OF that(1)] r(3,6) by - (cases g; auto split: if_splits)
  have "fact_holds n desc (put dst q regs) s' g" if g: "g \<in> set (p_facts a')" for g
  proof (cases "g \<in> set (filter (\<lambda>f. \<not> about_next i f) (forget_reg dst (p_facts a)))")
    case True
    then have "g \<in> set (p_facts a)" "\<not> about_next i g" "\<forall>r. dst = Some r \<longrightarrow> \<not> reg_in r g"
      by (auto simp: forget_reg_def split: option.splits)
    from fact_put [OF kept [OF this(1,2)] this(3)] show ?thesis .
  next
    case False
    then obtain p where p: "dst = Some p" "g = Holds p i \<or> (\<exists>h \<in> set (p_facts a). g \<in> set (learned p i h))"
      using g by (auto simp: eq alloc_facts_def split: option.splits)
    from p(2) show ?thesis
    proof
      assume "g = Holds p i"
      with r(2,8,9) p(1) show ?thesis by (simp add: put_def)
    next
      assume "\<exists>h \<in> set (p_facts a). g \<in> set (learned p i h)"
      with new p(1) show ?thesis by (auto simp: put_def)
    qed
  qed
  then have "sim n sz T desc page buf (put dst q regs) a' s'" using r(4) by (simp add: sim_def)
  with r(1) show ?thesis by (simp add: buf_alloc_def wp_act_ptr)
qed

lemma buf_ok_distinct:
  assumes "buf_ok s b (lists3 B)"
  shows "distinct (all_of B)"
proof -
  have wf: "wf_list s b k (lists3 B k)" for k using assms by (simp add: buf_ok_def)
  have dist: "distinct (lists3 B k)" for k
    using wf [of k] by (cases "lists3 B k = []") (simp_all add: wf_list_def rlist_def ring_def)
  have "set (lists3 B j) \<inter> set (lists3 B k) = {}" if "j \<noteq> k" for j k
    using wf_list_disjoint [OF wf wf that] .
  from this [of FreeLists PartialLists] this [of FreeLists FullLists] this [of PartialLists FullLists]
  have "set (fst B) \<inter> set (fst (snd B)) = {}" "set (fst B) \<inter> set (snd (snd B)) = {}"
    "set (fst (snd B)) \<inter> set (snd (snd B)) = {}" by (cases B; simp)+
  then show ?thesis using dist [of FreeLists] dist [of PartialLists] dist [of FullLists]
    by (cases B) (simp add: all_of_def Int_Un_distrib)
qed

lemma plan_distinct:
  assumes "plan_world n sz T desc page buf a s" "p_lists a = Some B"
  shows "distinct (all_of B)"
proof -
  have "buf_ok s buf (lists3 (map3 desc B))" using plan_worldD(1) [OF assms(1)] assms(2) by (simp add: world_def)
  from buf_ok_distinct [OF this] show ?thesis by (simp add: distinct_map)
qed

lemma plan_class:
  assumes pl: "placed n sz T desc page" and w: "plan_world n sz T desc page buf a s" and B: "p_lists a = Some B"
    and i: "i \<in> set (lists3 B c)" "p_used a ! i = Some k"
  shows "c = (if k = T then FullLists else if k = 0 then FreeLists else PartialLists)"
proof -
  note w' = plan_worldD(1) [OF w]
  have kn: "known n i" by (rule plan_known [OF w B subsetD [OF lists3_all_of i(1)]])
  have "buf_ok s buf (lists3 (map3 desc B))" using w' B by (simp add: world_def)
  moreover have "desc i \<in> set (lists3 (map3 desc B) c)" using i(1) by (simp add: lists3_map3)
  ultimately have c: "class_of (ss_lds s (desc i)) = c" by (auto simp: buf_ok_def wf_list_def wf_slab_in_def)
  have "used_of n desc (p_used a) (desc i) = Some k" using i(2) kn placedD(1) [OF pl] by simp
  from slab_at_class [OF world_slab [OF w' known_D [OF kn] this]] c show ?thesis by simp
qed

lemma plan_buf_allocs_split:
  assumes pl: "placed n sz T desc page" and st: "sim n sz T desc page buf regs a s"
    and a': "plan_buf_allocs T dst (Suc m) a = Some a'" and m: "0 < m"
  shows "\<exists>a1. plan_buf_allocs T dst 1 a = Some a1 \<and> plan_buf_allocs T dst m a1 = Some a'"
proof -
  have pw: "plan_world n sz T desc page buf a s" using st by (simp add: sim_def)
  from a' obtain i k B where ns: "next_slab a = Some (i, k, B)" and k: "k + Suc m \<le> T"
    and eq: "a' = a\<lparr>p_used := (p_used a)[i := Some (k + Suc m)], p_lists := Some (regroup k (k + Suc m) T i B),
        p_facts := (case dst of None \<Rightarrow> [] | Some r \<Rightarrow> [Holds r i]) @ forget_slab i (forget_reg dst (p_facts a))\<rparr>"
    by (auto simp: plan_buf_allocs_def split: option.splits if_splits)
  note c = next_slabD [OF ns]
  note d = plan_distinct [OF pw c(1)]
  have len: "i < length (p_used a)" using plan_known [OF pw c(1,5)] plan_worldD(2) [OF pw] by (simp add: known_def)
  let ?B = "regroup k (k + 1) T i B"
  let ?a1 = "a\<lparr>p_used := (p_used a)[i := Some (k + 1)], p_lists := Some ?B,
      p_facts := (case dst of None \<Rightarrow> [] | Some r \<Rightarrow> [Holds r i]) @ forget_slab i (forget_reg dst (p_facts a))\<rparr>"
  have one: "plan_buf_allocs T dst 1 a = Some ?a1" using ns k m by (simp add: plan_buf_allocs_def)
  obtain fr pa fu where B: "B = (fr, pa, fu)" by (cases B)
  have head: "\<exists>rest. fst (snd ?B) @ fst ?B = i # rest"
  proof (cases "k = 0")
    case True
    then have "i \<notin> set pa" using plan_class [OF pl pw c(1) _ c(2), of PartialLists] k B by auto
    with c(4) B have "pa = []" by (cases pa) auto
    with c(4) B True k m d show ?thesis by (auto simp: regroup_def take_out_def file_in_def all_of_def)
  qed (use c(4) k m in \<open>auto simp: regroup_def\<close>)
  have "ready ?a1"
  proof -
    have "tl ((p_used a)[i := x]) = (tl (p_used a))[i - 1 := x] \<or> tl ((p_used a)[i := x]) = tl (p_used a)" for x
      by (cases "p_used a"; cases i) auto
    moreover have "list_all (\<lambda>k. k \<noteq> None) (tl (p_used a))" using c(3) by (simp add: ready_def)
    moreover have "list_all P (xs[j := y])" if "list_all P xs" "P y" for P and xs :: "nat option list" and j y
      using that by (metis list_all_iff set_update_memI set_update_subset_insert insertE subsetD)
    ultimately have "list_all (\<lambda>k. k \<noteq> None) (tl ((p_used a)[i := Some (k + 1)]))" by (metis option.distinct(1))
    then show ?thesis by (simp add: ready_def)
  qed
  with head len have "next_slab ?a1 = Some (i, k + 1, ?B)" by (auto simp: next_slab_def split: list.splits)
  moreover have "regroup (k + 1) (k + Suc m) T i ?B = regroup k (k + Suc m) T i B"
    by (rule regroup_trans [OF d]) (use k in auto)
  ultimately have "plan_buf_allocs T dst m ?a1 = Some a'"
    using k m by (simp add: plan_buf_allocs_def eq forget_twice)
  with one show ?thesis by blast
qed

lemma sim_buf_allocs:
  assumes pl: "placed n sz T desc page" and st: "sim n sz T desc page buf regs a s" and a': "plan_buf_allocs T dst 1 a = Some a'"
  shows "wp (buf_alloc buf) (ends_in (\<lambda>p. sim n sz T desc page buf (put dst p regs) a')) (passing s)"
proof -
  let ?f = "\<lambda>i. (case dst of None \<Rightarrow> [] | Some r \<Rightarrow> [Holds r i]) @ forget_slab i (forget_reg dst (p_facts a))"
  from a' obtain i k B where ns: "next_slab a = Some (i, k, B)" and eq: "a' = a\<lparr>p_used := (p_used a)[i := Some (k + 1)],
      p_lists := Some (regroup k (k + 1) T i B), p_facts := ?f i\<rparr>"
    by (auto simp: plan_buf_allocs_def split: option.splits if_splits)
  from buf_alloc_step [OF pl st ns] obtain s' q where r: "Buffer_Allocate buf s = Inr (s', q)" "known n i"
      "plan_world n sz T desc page buf a' s'" "frame (page_of n desc page) (desc ` {1..n}) (desc i) s s'"
      "slab_free (ss_mem s') (ss_lds s' (desc i)) = slab_free (ss_mem s) (ss_lds s (desc i)) - {q}"
      "q \<in> set (slab_slots (ss_lds s' (desc i)))" unfolding eq by blast
  have "q \<notin> slab_free (ss_mem s') (ss_lds s' (desc i))" using r(5) by blast
  from facts_after_alloc [OF pl st r(2,4,6) this, of dst] r(3) have "sim n sz T desc page buf (put dst q regs) a' s'"
    by (simp add: sim_def eq)
  with r(1) show ?thesis by (simp add: buf_alloc_def wp_act_ptr)
qed

text \<open>Returning an object to the buffer.\<close>

lemma dealloc_step:
  assumes pl: "placed n sz T desc page" and pw: "plan_world n sz T desc page buf a s"
    and c: "p_lists a = Some B" "ready a" "i \<in> set (all_of B)" "p_used a ! i = Some k"
    and q: "q \<in> set (slab_slots (ss_lds s (desc i)))" "q \<notin> slab_free (ss_mem s) (ss_lds s (desc i))"
  shows "\<exists>s'. Buffer_Deallocate buf q s = Inr s' \<and> 0 < k \<and>
    (\<forall>fs. plan_world n sz T desc page buf (a\<lparr>p_used := (p_used a)[i := Some (k - 1)],
       p_lists := Some (regroup k (k - 1) T i B), p_facts := fs\<rparr>) s') \<and>
    frame (page_of n desc page) (desc ` {1..n}) (desc i) s s' \<and>
    slab_slots (ss_lds s' (desc i)) = slab_slots (ss_lds s (desc i)) \<and>
    slab_free (ss_mem s') (ss_lds s' (desc i)) = insert q (slab_free (ss_mem s) (ss_lds s (desc i)))"
proof -
  note i = plan_known [OF pw c(1,3)]
  have w: "world sz T (page_of n desc page) (desc ` {1..n}) buf (used_of n desc (p_used a)) (Some (map3 desc B)) s"
    using plan_worldD(1) [OF pw] c(1) by simp
  have d: "desc i \<in> set (fst (map3 desc B)) \<union> set (fst (snd (map3 desc B))) \<union> set (snd (snd (map3 desc B)))"
    using c(3) by (auto simp: all_of_def)
  have "used_of n desc (p_used a) (desc i) = Some k" using c(4) i placedD(1) [OF pl] by simp
  from buf_dealloc_world [OF w placedD(2) [OF pl] ready_all [OF plan_worldD(2) [OF pw] c(2) placedD(1) [OF pl]] d this q]
  obtain s' where s': "Buffer_Deallocate buf q s = Inr s'" "0 < k"
    "world sz T (page_of n desc page) (desc ` {1..n}) buf ((used_of n desc (p_used a))(desc i := Some (k - 1)))
       (Some (regroup k (k - 1) T (desc i) (map3 desc B))) s'"
    "frame (page_of n desc page) (desc ` {1..n}) (desc i) s s'"
    "slab_slots (ss_lds s' (desc i)) = slab_slots (ss_lds s (desc i))"
    "slab_free (ss_mem s') (ss_lds s' (desc i)) = insert q (slab_free (ss_mem s) (ss_lds s (desc i)))" by blast
  note eq = map3_regroup [OF plan_inj [OF pl pw c(1,3)], symmetric]
  have "plan_world n sz T desc page buf (a\<lparr>p_used := (p_used a)[i := Some (k - 1)],
       p_lists := Some (regroup k (k - 1) T i B), p_facts := fs\<rparr>) s'" for fs
  proof (rule plan_world_upd [OF pl pw i])
    let ?a = "a\<lparr>p_used := (p_used a)[i := Some (k - 1)], p_lists := Some (regroup k (k - 1) T i B), p_facts := fs\<rparr>"
    have L: "map_option (map3 desc) (p_lists ?a) = Some (regroup k (k - 1) T (desc i) (map3 desc B))"
      by (simp add: eq)
    show "world sz T (page_of n desc page) (desc ` {1..n}) buf ((used_of n desc (p_used a))(desc i := Some (k - 1)))
        (map_option (map3 desc) (p_lists ?a)) s'" unfolding L by (rule s'(3))
    show "set (all_of C) \<subseteq> {1..n}" if "p_lists ?a = Some C" for C
    proof -
      from that have C: "C = regroup k (k - 1) T i B" by simp
      show ?thesis unfolding C by (rule order_trans [OF all_of_regroup [OF c(3)] plan_worldD(3) [OF pw c(1)]])
    qed
  qed simp
  with s' show ?thesis by blast
qed

lemma plan_deallocD:
  assumes "plan_dealloc T i m a = Some a'"
  shows "\<exists>B k. p_lists a = Some B \<and> ready a \<and> i \<in> set (all_of B) \<and> p_used a ! i = Some k \<and> m \<le> k \<and>
    a' = a\<lparr>p_used := (p_used a)[i := Some (k - m)], p_lists := Some (regroup k (k - m) T i B),
           p_facts := forget_slab i (p_facts a)\<rparr>"
  using assms by (auto simp: plan_dealloc_def all_of_def split: option.splits if_splits)

lemma sim_dealloc:
  assumes pl: "placed n sz T desc page" and st: "sim n sz T desc page buf regs a s" and a': "plan_dealloc T i 1 a = Some a'"
    and q: "q \<in> set (slab_slots (ss_lds s (desc i)))" "q \<notin> slab_free (ss_mem s) (ss_lds s (desc i))"
  shows "\<exists>s'. Buffer_Deallocate buf q s = Inr s' \<and> sim n sz T desc page buf regs a' s' \<and>
    slab_slots (ss_lds s' (desc i)) = slab_slots (ss_lds s (desc i)) \<and>
    slab_free (ss_mem s') (ss_lds s' (desc i)) = insert q (slab_free (ss_mem s) (ss_lds s (desc i)))"
proof -
  have pw: "plan_world n sz T desc page buf a s" and old: "\<And>g. g \<in> set (p_facts a) \<Longrightarrow> fact_holds n desc regs s g"
    using st by (simp_all add: sim_def)
  from plan_deallocD [OF a'] obtain B k where c: "p_lists a = Some B" "ready a" "i \<in> set (all_of B)" "p_used a ! i = Some k"
    and eq: "a' = a\<lparr>p_used := (p_used a)[i := Some (k - 1)], p_lists := Some (regroup k (k - 1) T i B),
           p_facts := forget_slab i (p_facts a)\<rparr>" by blast
  from dealloc_step [OF pl pw c q] obtain s' where s': "Buffer_Deallocate buf q s = Inr s'"
      "plan_world n sz T desc page buf a' s'" "frame (page_of n desc page) (desc ` {1..n}) (desc i) s s'"
      "slab_slots (ss_lds s' (desc i)) = slab_slots (ss_lds s (desc i))"
      "slab_free (ss_mem s') (ss_lds s' (desc i)) = insert q (slab_free (ss_mem s) (ss_lds s (desc i)))"
    unfolding eq by blast
  have "fact_holds n desc regs s' g" if "g \<in> set (p_facts a')" for g
    using that fact_frame [OF pl pw s'(3) plan_known [OF pw c(1,3)] old] by (auto simp: eq forget_slab_def)
  with s' show ?thesis by (auto simp: sim_def)
qed

lemma ready_upd: "ready a \<Longrightarrow> ready (a\<lparr>p_used := (p_used a)[i := Some x], p_lists := L, p_facts := fs\<rparr>)"
proof -
  assume "ready a"
  then have "list_all (\<lambda>k. k \<noteq> None) (tl (p_used a))" by (simp add: ready_def)
  moreover have "list_all P (xs[j := y])" if "list_all P xs" "P y" for P and xs :: "nat option list" and j y
    using that by (metis list_all_iff set_update_memI set_update_subset_insert insertE subsetD)
  moreover have "tl ((p_used a)[i := Some x]) = (tl (p_used a))[i - 1 := Some x] \<or> tl ((p_used a)[i := Some x]) = tl (p_used a)"
    by (cases "p_used a"; cases i) auto
  ultimately have "list_all (\<lambda>k. k \<noteq> None) (tl ((p_used a)[i := Some x]))" by (metis option.distinct(1))
  then show ?thesis by (simp add: ready_def)
qed

lemma plan_used_le:
  assumes pl: "placed n sz T desc page" and pw: "plan_world n sz T desc page buf a s" and i: "known n i" "p_used a ! i = Some k"
  shows "k \<le> T"
proof -
  have "used_of n desc (p_used a) (desc i) = Some k" using i placedD(1) [OF pl] by simp
  from world_slab [OF plan_worldD(1) [OF pw] known_D [OF i(1)] this] show ?thesis
    by (auto simp: slab_at_def slab_wf_def slab_ok_def)
qed

lemma plan_dealloc_split:
  assumes pl: "placed n sz T desc page" and st: "sim n sz T desc page buf regs a s" and a': "plan_dealloc T i (Suc m) a = Some a'"
  shows "\<exists>a1. plan_dealloc T i 1 a = Some a1 \<and> plan_dealloc T i m a1 = Some a'"
proof -
  have pw: "plan_world n sz T desc page buf a s" using st by (simp add: sim_def)
  from plan_deallocD [OF a'] obtain B k where c: "p_lists a = Some B" "ready a" "i \<in> set (all_of B)" "p_used a ! i = Some k"
    and k: "Suc m \<le> k" and eq: "a' = a\<lparr>p_used := (p_used a)[i := Some (k - Suc m)],
           p_lists := Some (regroup k (k - Suc m) T i B), p_facts := forget_slab i (p_facts a)\<rparr>" by blast
  let ?B = "regroup k (k - 1) T i B"
  let ?a1 = "a\<lparr>p_used := (p_used a)[i := Some (k - 1)], p_lists := Some ?B, p_facts := forget_slab i (p_facts a)\<rparr>"
  note i = plan_known [OF pw c(1,3)]
  have len: "i < length (p_used a)" using i plan_worldD(2) [OF pw] by (simp add: known_def)
  have in1: "i \<in> set (all_of ?B)" using c(3) by (auto simp: regroup_def all_of_file_in)
  have one: "plan_dealloc T i 1 a = Some ?a1" using c k by (simp add: plan_dealloc_def all_of_def)
  have "regroup (k - 1) (k - Suc m) T i ?B = regroup k (k - Suc m) T i B"
    by (rule regroup_trans [OF plan_distinct [OF pw c(1)]]) (use k plan_used_le [OF pl pw i c(4)] in auto)
  moreover have "k - 1 - m = k - Suc m" "forget_slab i (forget_slab i fs) = forget_slab i fs" for fs
    by (simp_all add: forget_slab_def)
  ultimately have "plan_dealloc T i m ?a1 = Some a'"
    using in1 len k ready_upd [OF c(2)] by (simp add: plan_dealloc_def all_of_def eq)
  with one show ?thesis by blast
qed

lemma page_of_at: "placed n sz T desc page \<Longrightarrow> known n i \<Longrightarrow> page_of n desc page (desc i) = page i"
  using placedD(1) by (simp add: page_of_def known_def inv_into_f_f)

text \<open>The loop that returns each object of a page, when every object of 8 bytes is in use.\<close>

lemma page_words:
  assumes "page_at P" "j \<le> 0x200"
  shows "unat (P + of_nat j * 8) = unat P + 8 * j"
proof -
  have "unat (of_nat j * 8 :: addr) = 8 * j" using assms(2) by (simp add: unat_word_ariths unat_of_nat)
  then show ?thesis using assms unat_add_no_wrap [of P "of_nat j * 8"] by (simp add: page_at_def)
qed

lemma sim_range:
  assumes pl: "placed n sz T desc page" and T: "T = 0x200" "known n i" "page_at (page i)"
    and sim: "sim n sz T desc page buf regs a s" "plan_dealloc T i m a = Some a'" "m \<le> T"
    and slots: "set (slab_slots (ss_lds s (desc i))) = (\<lambda>j. page i + of_nat j * 8) ` {..<T}"
    and free: "slab_free (ss_mem s) (ss_lds s (desc i)) = (\<lambda>j. page i + of_nat j * 8) ` {..<T - m}"
    and it: "it = page i + of_nat (T - m) * 8"
  shows "wp (range_loop (Suc m) (desc i) buf it) (ends_in (\<lambda>_. sim n sz T desc page buf regs a')) (passing s)"
  using sim slots free it
proof (induction m arbitrary: a s it)
  case (0 a s it)
  have pw: "plan_world n sz T desc page buf a s" using 0(1) by (simp add: sim_def)
  have b: "m_baseAddress (ss_lds s (desc i)) = page i \<and> m_pages (ss_lds s (desc i)) = 1"
    using world_page [OF plan_worldD(1) [OF pw] known_D [OF T(2)]] page_of_at [OF pl T(2)] by simp
  have lim: "Limit (ss_lds s (desc i)) = page i + 0x1000" using b by (simp add: Limit_def Base_def Pages_def)
  from plan_deallocD [OF 0(2)] obtain B k where c: "p_lists a = Some B" "p_used a ! i = Some k"
    "a' = a\<lparr>p_used := (p_used a)[i := Some k], p_lists := Some B, p_facts := forget_slab i (p_facts a)\<rparr>"
    by (auto simp: regroup_def)
  have "(p_used a)[i := Some k] = p_used a" using c(2) by (metis list_update_id)
  then have "sim n sz T desc page buf regs a' s"
    using 0(1) c by (auto simp: sim_def plan_world_def forget_slab_def)
  then show ?case using 0(6) lim T(1) by (simp add: range_loop.simps wp_simps)
next
  case (Suc m a s it)
  have pw: "plan_world n sz T desc page buf a s" using Suc.prems(1) by (simp add: sim_def)
  have b: "m_baseAddress (ss_lds s (desc i)) = page i \<and> m_pages (ss_lds s (desc i)) = 1"
    using world_page [OF plan_worldD(1) [OF pw] known_D [OF T(2)]] page_of_at [OF pl T(2)] by simp
  have lim: "Limit (ss_lds s (desc i)) = page i + 0x1000" using b by (simp add: Limit_def Base_def Pages_def)
  let ?j = "T - Suc m"
  have u: "unat (page i + of_nat j * 8) = unat (page i) + 8 * j" if "j \<le> T" for j
    using page_words [OF T(3)] that T(1) by simp
  have "unat (page i + 0x1000) = unat (page i) + 0x1000" using u [of T] T(1) by simp
  then have lt: "it < page i + 0x1000"
    using u [of ?j] Suc.prems(3,6) T(1) by (simp add: word_less_nat_alt)
  have slot: "it \<in> set (slab_slots (ss_lds s (desc i)))" unfolding Suc.prems(4,6)
    by (rule imageI) (use Suc.prems(3) in simp)
  have "it \<notin> slab_free (ss_mem s) (ss_lds s (desc i))"
  proof
    assume "it \<in> slab_free (ss_mem s) (ss_lds s (desc i))"
    then obtain j where "j < ?j" "page i + of_nat ?j * 8 = page i + of_nat j * 8" unfolding Suc.prems(5,6) by auto
    with u [of j] u [of ?j] show False by simp
  qed
  note q = slot this
  obtain a1 where a1: "plan_dealloc T i 1 a = Some a1" "plan_dealloc T i m a1 = Some a'"
    using plan_dealloc_split [OF pl Suc.prems(1,2)] by blast
  from sim_dealloc [OF pl Suc.prems(1) a1(1) q] obtain s' where s': "Buffer_Deallocate buf it s = Inr s'"
      "sim n sz T desc page buf regs a1 s'" "slab_slots (ss_lds s' (desc i)) = slab_slots (ss_lds s (desc i))"
      "slab_free (ss_mem s') (ss_lds s' (desc i)) = insert it (slab_free (ss_mem s) (ss_lds s (desc i)))" by blast
  have Tm: "T - m = Suc ?j" using Suc.prems(3) by simp
  have "slab_free (ss_mem s') (ss_lds s' (desc i)) = (\<lambda>j. page i + of_nat j * 8) ` {..<T - m}"
    unfolding s'(4) Suc.prems(5,6) Tm lessThan_Suc by simp
  moreover have "it + 8 = page i + of_nat (T - m) * 8" unfolding Suc.prems(6) Tm by (simp add: algebra_simps)
  moreover have "m \<le> T" "set (slab_slots (ss_lds s' (desc i))) = (\<lambda>j. page i + of_nat j * 8) ` {..<T}"
    using Suc.prems(3,4) s'(3) by simp_all
  ultimately have "wp (range_loop (Suc m) (desc i) buf (it + 8)) (ends_in (\<lambda>_. sim n sz T desc page buf regs a')) (passing s')"
    using Suc.IH [OF s'(2) a1(2)] by blast
  then show ?case using lim lt s'(1)
    by (subst range_loop.simps) (simp add: wp_bind wp_fetch wp_act [where s' = s'] del: range_loop.simps)
qed

section \<open>Conditions\<close>

lemma links_nth:
  "links nx pv s x ys z \<Longrightarrow> p \<le> length ys \<Longrightarrow>
   nx s ((x # ys) ! p) = (ys @ [z]) ! p \<and> pv s ((ys @ [z]) ! p) = (x # ys) ! p"
proof (induction ys arbitrary: x p)
  case (Cons y ys)
  then show ?case by (cases p) simp_all
qed simp

lemma ring_nth:
  assumes "ring nx pv s xs" "p < length xs"
  shows "nx s (xs ! p) = xs ! (Suc p mod length xs)" "pv s (xs ! p) = xs ! (if p = 0 then length xs - 1 else p - 1)"
proof -
  from assms obtain x ys where xs: "xs = x # ys" by (cases xs) auto
  have l: "links nx pv s x ys x" using assms(1) by (simp add: ring_def xs)
  show "nx s (xs ! p) = xs ! (Suc p mod length xs)"
  proof (cases "p = length ys")
    case False
    with links_nth [OF l, of p] assms(2) show ?thesis by (simp add: xs nth_append)
  qed (use links_nth [OF l, of p] in \<open>simp add: xs nth_append\<close>)
  show "pv s (xs ! p) = xs ! (if p = 0 then length xs - 1 else p - 1)"
  proof (cases p)
    case 0
    with links_nth [OF l, of "length ys"] show ?thesis by (simp add: xs nth_append)
  next
    case (Suc q)
    with links_nth [OF l, of q] assms(2) show ?thesis by (simp add: xs nth_append)
  qed
qed

lemma ring_walk:
  assumes "ld_ring (ss_lds s) xs"
  shows "p < length xs \<Longrightarrow> follow (xs ! p) path s = Inr (xs ! walk (length xs) path p) \<and> walk (length xs) path p < length xs"
proof (induction path arbitrary: p)
  case (Cons dir path)
  have "xs ! p \<noteq> 0" using assms Cons.prems nth_mem [of p xs] by (metis ring_def)
  moreover have "0 < length xs" using Cons.prems by linarith
  then have "Suc p mod length xs < length xs" "(if p = 0 then length xs - 1 else p - 1) < length xs"
    using Cons.prems mod_less_divisor by auto
  ultimately show ?case using Cons.IH ring_nth [OF assms Cons.prems]
    by (cases dir) (simp_all add: NextList_def PrevList_def guard_ptr_def)
qed simp

lemma plan_lists:
  assumes pw: "plan_world n sz T desc page buf a s" and B: "p_lists a = Some B"
  shows "list_head k (ss_bufs s buf) = (if lists3 B k = [] then 0 else desc (hd (lists3 B k)))"
    "lists3 B k \<noteq> [] \<Longrightarrow> ld_ring (ss_lds s) (map desc (lists3 B k))"
proof -
  have "buf_ok s buf (lists3 (map3 desc B))" using plan_worldD(1) [OF pw] B by (simp add: world_def)
  then have "rlist (ss_lds s) (list_head k (ss_bufs s buf)) (map desc (lists3 B k))"
    by (simp add: buf_ok_def wf_list_def lists3_map3)
  then show "list_head k (ss_bufs s buf) = (if lists3 B k = [] then 0 else desc (hd (lists3 B k)))"
    "lists3 B k \<noteq> [] \<Longrightarrow> ld_ring (ss_lds s) (map desc (lists3 B k))"
    by (auto simp: rlist_def hd_map split: if_splits)
qed

lemma sim_cond:
  assumes pl: "placed n sz T desc page" and st: "sim n sz T desc page buf regs a s"
  shows "plan_cond n c a \<Longrightarrow> eval desc buf regs c s = Inr True"
proof (induction c)
  case (Head k path i)
  have pw: "plan_world n sz T desc page buf a s" using st by (simp add: sim_def)
  from Head obtain B where B: "p_lists a = Some B" "lists3 B k \<noteq> []" "lists3 B k ! walk (length (lists3 B k)) path 0 = i"
    by (auto simp: Let_def split: option.splits)
  from ring_walk [OF plan_lists(2) [OF pw B(1,2)], of 0 path] B(2,3) plan_lists(1) [OF pw B(1), of k]
  show ?case by (simp add: hd_conv_nth)
next
  case (No_head k)
  have pw: "plan_world n sz T desc page buf a s" using st by (simp add: sim_def)
  with No_head plan_lists(1) [OF pw] show ?case by (auto split: option.splits)
next
  case (In_range i r)
  have pw: "plan_world n sz T desc page buf a s" using st by (simp add: sim_def)
  from In_range st have h: "fact_holds n desc regs s (Holds r i)" by (auto simp: sim_def)
  have kn: "known n i" using h by simp
  from In_range obtain k where "p_used a ! i = Some k" by auto
  then have "used_of n desc (p_used a) (desc i) = Some k" using kn placedD(1) [OF pl] by simp
  from world_slab [OF plan_worldD(1) [OF pw] known_D [OF kn] this]
  have "slab_geometry (ss_lds s (desc i))" by (auto simp: slab_at_def slab_wf_def slab_ok_def)
  from slab_slots_facts(3) [OF this] h show ?case by auto
next
  case (Both c c')
  then show ?case by simp
qed (use st in \<open>auto simp: sim_def\<close>)

lemma wp_assert: "c s = Inr True \<Longrightarrow> wp (assert_that how c) Q (passing s) = Q () (passing s)"
  by (cases how) (simp_all add: assert_that_def wp_bind wp_act [of _ s s] wp_CHECK wp_REQUIRE wp_kassert)

section \<open>Scripts\<close>

lemma fact_same:
  assumes "ss_mem s' = ss_mem s" "\<forall>e. payload (ss_lds s' e) = payload (ss_lds s e)" "fact_holds n desc regs s g"
  shows "fact_holds n desc regs s' g"
proof -
  have nf: "m_nextFree (payload ld) = m_nextFree ld" for ld by (simp add: payload_def)
  have "NextFreeBuffer (ss_lds s' e) = NextFreeBuffer (ss_lds s e)" for e
    using nf [of "ss_lds s' e"] nf [of "ss_lds s e"] assms(2) by (simp add: NextFreeBuffer_def)
  moreover have "slab_slots (ss_lds s' e) = slab_slots (ss_lds s e)" for e
    using assms(2) by (intro slab_slots_payload) blast
  moreover have "slab_free (ss_mem s') (ss_lds s' e) = slab_free (ss_mem s) (ss_lds s e)" for e
    unfolding assms(1) using assms(2) by (intro slab_free_payload) blast
  ultimately show ?thesis using assms(3) by - (cases g; simp)
qed

lemma slab_heldD: "slab_held r fs = Some i \<Longrightarrow> Holds r i \<in> set fs"
  by (induction fs) (auto split: fact.splits if_splits)

lemma sim_add:
  assumes pl: "placed n sz T desc page" and st: "sim n sz T desc page buf regs a s"
    and c: "p_lists a = Some B" "known n i" "ready a" "i \<notin> set (all_of B)" "p_used a ! i = Some k"
  shows "wp (act (Buffer_AddList buf (desc i)))
           (ends_in (\<lambda>_. sim n sz T desc page buf regs (a\<lparr>p_lists := Some (file_in k T i B)\<rparr>))) (passing s)"
proof -
  have pw: "plan_world n sz T desc page buf a s" and old: "\<forall>g \<in> set (p_facts a). fact_holds n desc regs s g"
    using st by (simp_all add: sim_def)
  have w: "world sz T (page_of n desc page) (desc ` {1..n}) buf (used_of n desc (p_used a)) (Some (map3 desc B)) s"
    using plan_worldD(1) [OF pw] c(1) by simp
  have "desc i \<notin> desc ` set (all_of B)"
  proof
    assume "desc i \<in> desc ` set (all_of B)"
    then obtain j where j: "j \<in> set (all_of B)" "desc i = desc j" by auto
    with desc_eq [OF placedD(1) [OF pl] c(2) plan_known [OF pw c(1) j(1)]] c(4) show False by simp
  qed
  then have new: "desc i \<notin> set (fst (map3 desc B)) \<union> set (fst (snd (map3 desc B))) \<union> set (snd (snd (map3 desc B)))"
    by (auto simp: all_of_def)
  have "used_of n desc (p_used a) (desc i) = Some k" using c(2,5) placedD(1) [OF pl] by simp
  from add_world [OF w placedD(2) [OF pl] known_D [OF c(2)] this new ready_all [OF plan_worldD(2) [OF pw] c(3) placedD(1) [OF pl]]]
  obtain s' where s': "Buffer_AddList buf (desc i) s = Inr s'"
    "world sz T (page_of n desc page) (desc ` {1..n}) buf (used_of n desc (p_used a)) (Some (file_in k T (desc i) (map3 desc B))) s'"
    "ss_mem s' = ss_mem s" "\<forall>e. payload (ss_lds s' e) = payload (ss_lds s e)" by blast
  have "i \<in> {1..n}" using c(2) by (simp add: known_def)
  then have "plan_world n sz T desc page buf (a\<lparr>p_lists := Some (file_in k T i B)\<rparr>) s'"
    using s'(2) plan_worldD(2) [OF pw] plan_worldD(3) [OF pw c(1)]
    by (simp add: plan_world_def map3_file_in all_of_file_in)
  moreover have "\<forall>g \<in> set (p_facts a). fact_holds n desc regs s' g" using old fact_same [OF s'(3,4)] by blast
  ultimately have "sim n sz T desc page buf regs (a\<lparr>p_lists := Some (file_in k T i B)\<rparr>) s'" by (simp add: sim_def)
  with s'(1) show ?thesis by (simp add: wp_act)
qed

lemma sim_new_buffer:
  assumes "sim n sz T desc page buf regs a s" "p_lists a = None"
  shows "wp (new_buf buf sz) (ends_in (\<lambda>_. sim n sz T desc page buf regs (a\<lparr>p_lists := Some ([], [], [])\<rparr>))) (passing s)"
proof -
  let ?s = "upd_buf buf (\<lambda>_. new_Buffer buf sz) s"
  have pw: "plan_world n sz T desc page buf a s" using assms(1) by (simp add: sim_def)
  have "world sz T (page_of n desc page) (desc ` {1..n}) buf (used_of n desc (p_used a)) (Some ([], [], [])) ?s"
    using new_buf_world plan_worldD(1) [OF pw] assms(2) by simp
  moreover have "fact_holds n desc regs ?s g" if "g \<in> set (p_facts a)" for g
    using that assms(1) fact_same [of ?s s] by (auto simp: sim_def)
  ultimately have "sim n sz T desc page buf regs (a\<lparr>p_lists := Some ([], [], [])\<rparr>) ?s"
    using plan_worldD(2) [OF pw] by (simp add: sim_def plan_world_def all_of_def)
  then show ?thesis by (simp add: new_buf_def wp_act [where s' = ?s])
qed

lemma sim_command:
  assumes pl: "placed n sz T desc page" and st: "sim n sz T desc page buf regs a s"
    and a': "plan_command T n c a = Some a'"
  shows "wp (run_command desc buf sz c regs) (ends_in (\<lambda>regs'. sim n sz T desc page buf regs' a')) (passing s)"
proof -
  have pw: "plan_world n sz T desc page buf a s" and old: "\<And>g. g \<in> set (p_facts a) \<Longrightarrow> fact_holds n desc regs s g"
    using st by (simp_all add: sim_def)
  have p: "0 < T" "8 \<le> unat sz" "T = 0x1000 div unat sz" using placedD(2) [OF pl] by (simp_all add: pages_ok_def)
  have total: "wp (buffers_of (desc i)) Q (passing s) = Q T (passing s)" if "known n i" "p_used a ! i \<noteq> None" for i Q
  proof -
    from that obtain k where "p_used a ! i = Some k" by blast
    then have "used_of n desc (p_used a) (desc i) = Some k" using that(1) placedD(1) [OF pl] by simp
    from world_slab [OF plan_worldD(1) [OF pw] known_D [OF that(1)] this] show ?thesis
      by (simp add: buffers_of_def wp_fetch TotalBuffers_def slab_at_def)
  qed
  show ?thesis
  proof (cases c)
    case (Setup i)
    then show ?thesis using a' sim_setup [OF pl st, of i]
      by (auto simp: run_command.simps wp_bind wp_return split: if_splits elim!: wp_ends_in)
  next
    case (Allocate_from dst i)
    then show ?thesis using sim_alloc [OF pl st, of dst i a'] a'
      by (auto simp: run_command.simps wp_bind wp_return elim!: wp_ends_in)
  next
    case (Allocate_all dst i)
    with a' have pa: "plan_alloc T n dst i T a = Some a'" by simp
    then have i: "known n i" "p_used a ! i \<noteq> None" by (auto simp: plan_alloc_def split: if_splits option.splits)
    have "wp (repeat_alloc (alloc (desc i)) T dst regs) (ends_in (\<lambda>regs'. sim n sz T desc page buf regs' a')) (passing s)"
    proof (rule sim_repeat [where R = "sim n sz T desc page buf" and P = "plan_alloc T n dst i", OF _ _ st pa p(1)])
      show "\<exists>a1. plan_alloc T n dst i 1 b = Some a1 \<and> plan_alloc T n dst i m a1 = Some b'"
        if "sim n sz T desc page buf r b s1" "plan_alloc T n dst i (Suc m) b = Some b'" "0 < m" for m r b b' s1
        using plan_alloc_split [OF that(2,3)] that(1) plan_worldD(2) by (auto simp: sim_def)
    qed (rule sim_alloc [OF pl])
    with Allocate_all total [OF i] show ?thesis by (simp add: run_command.simps wp_bind)
  next
    case New_buffer
    then show ?thesis using a' sim_new_buffer [OF st]
      by (auto simp: run_command.simps wp_bind wp_return split: if_splits elim!: wp_ends_in)
  next
    case (Add i)
    with a' obtain B k where b: "p_lists a = Some B" "known n i" "ready a" "i \<notin> set (all_of B)" "p_used a ! i = Some k"
      "a' = a\<lparr>p_lists := Some (file_in k T i B)\<rparr>"
      by (auto simp: all_of_def split: option.splits if_splits)
    from sim_add [OF pl st b(1-5)] b(6) Add show ?thesis
      by (auto simp: run_command.simps wp_bind wp_return elim!: wp_ends_in)
  next
    case (Buf_allocate dst)
    then show ?thesis using sim_buf_alloc [OF pl st, of dst a'] a'
      by (auto simp: run_command.simps wp_bind wp_return elim!: wp_ends_in)
  next
    case (Buf_allocate_all dst i few)
    with a' have i: "known n i" "p_used a ! i \<noteq> None" and pa: "plan_buf_allocs T dst (T - few) a = Some a'"
      by (simp_all split: if_splits)
    then have "0 < T - few" by (auto simp: plan_buf_allocs_def split: if_splits option.splits)
    from sim_repeat [where R = "sim n sz T desc page buf" and P = "plan_buf_allocs T dst",
        OF sim_buf_allocs [OF pl] plan_buf_allocs_split [OF pl] st pa this]
    have "wp (repeat_alloc (buf_alloc buf) (T - few) dst regs)
        (ends_in (\<lambda>regs'. sim n sz T desc page buf regs' a')) (passing s)" .
    with Buf_allocate_all total [OF i] show ?thesis by (simp add: run_command.simps wp_bind)
  next
    case (Buf_deallocate r)
    with a' obtain i where i: "slab_held r (p_facts a) = Some i" "plan_dealloc T i 1 a = Some a'" by (auto split: option.splits)
    from old [OF slab_heldD [OF i(1)]] sim_dealloc [OF pl st i(2), of "regs r"] Buf_deallocate
    show ?thesis by (auto simp: run_command.simps wp_bind wp_return wp_act)
  next
    case (Buf_deallocate_range i)
    with a' have i: "T = 0x200" "known n i" "p_used a ! i = Some T" "plan_dealloc T i T a = Some a'" by (simp_all split: if_splits)
    have pg: "page_at (page i)" using placedD(2) [OF pl] known_D [OF i(2), of desc] page_of_at [OF pl i(2)]
      unfolding pages_ok_def by metis
    have sz: "sz = 8"
    proof -
      have "unat sz * 0x200 \<le> 0x1000" using p(3) i(1) by (metis div_times_less_eq_dividend mult.commute)
      with p(2) have "unat sz = unat (8 :: u16)" by simp
      then show ?thesis by (rule word_unat_eq_iff [THEN iffD2])
    qed
    have "used_of n desc (p_used a) (desc i) = Some T" using i(2,3) placedD(1) [OF pl] by simp
    from world_slab [OF plan_worldD(1) [OF pw] known_D [OF i(2)] this] page_of_at [OF pl i(2)]
    have at: "m_baseAddress (ss_lds s (desc i)) = page i" "m_bufferSize (ss_lds s (desc i)) = sz"
      "unat (m_totalBuffers (ss_lds s (desc i))) = T" "unat (m_buffersUsed (ss_lds s (desc i))) = T"
      "slab_wf (ss_mem s) (ss_lds s (desc i))" by (simp_all add: slab_at_def)
    have slots: "set (slab_slots (ss_lds s (desc i))) = (\<lambda>j. page i + of_nat j * 8) ` {..<T}"
      unfolding slab_slots_def at(1-3) slots_from_image sz by simp
    obtain fs where fs: "slab_ok (ss_mem s) (ss_lds s (desc i)) fs" using at(5) by (auto simp: slab_wf_def)
    have "slab_free (ss_mem s) (ss_lds s (desc i)) = {}"
      using fs at(3,4) slab_free_eq [OF fs] by (simp add: slab_ok_def)
    then have free: "slab_free (ss_mem s) (ss_lds s (desc i)) = (\<lambda>j. page i + of_nat j * 8) ` {..<T - T}" by simp
    have "wp (range_loop (Suc T) (desc i) buf (page i)) (ends_in (\<lambda>_. sim n sz T desc page buf regs a')) (passing s)"
      by (rule sim_range [OF pl i(1,2) pg st i(4) order_refl slots free]) simp
    then have "wp (range_loop 0x201 (desc i) buf (page i)) (ends_in (\<lambda>_. sim n sz T desc page buf regs a')) (passing s)"
      by (simp add: i(1))
    with Buf_deallocate_range at(1) show ?thesis
      by (auto simp: run_command.simps wp_bind wp_fetch wp_return Base_def elim!: wp_ends_in)
  next
    case (Next_free r i)
    with a' have i: "known n i" and eq: "a' = a\<lparr>p_facts := Is_next r i # forget_reg (Some r) (p_facts a)\<rparr>" by (simp_all split: if_splits)
    have "fact_holds n desc (regs(r := NextFreeBuffer (ss_lds s (desc i)))) s g" if "g \<in> set (p_facts a')" for g
      using that fact_put [OF old, of _ "Some r" "NextFreeBuffer (ss_lds s (desc i))"] i by (auto simp: eq forget_reg_def put_def)
    then have "sim n sz T desc page buf (regs(r := NextFreeBuffer (ss_lds s (desc i)))) a' s"
      using pw by (simp add: sim_def plan_world_def eq)
    with Next_free show ?thesis by (simp add: run_command.simps wp_bind wp_fetch wp_return)
  next
    case (Assert how d)
    with a' have "plan_cond n d a" "a' = a" by (simp_all split: if_splits)
    with sim_cond [OF pl st] Assert st show ?thesis by (simp add: run_command.simps wp_bind wp_assert wp_return)
  qed
qed

lemma sim_commands:
  assumes "placed n sz T desc page" "sim n sz T desc page buf regs a s" "plan_commands T n cs a = Some a'"
  shows "wp (run_commands desc buf sz cs regs) (ends_in (\<lambda>regs'. sim n sz T desc page buf regs' a')) (passing s)"
  using assms(2,3)
proof (induction cs arbitrary: regs a s)
  case (Cons c cs)
  then obtain a1 where a1: "plan_command T n c a = Some a1" "plan_commands T n cs a1 = Some a'" by (auto split: option.splits)
  show ?case unfolding run_commands.simps wp_bind
    by (rule wp_ends_in [OF sim_command [OF assms(1) Cons.prems(1) a1(1)]]) (rule Cons.IH [OF _ a1(2)])
qed (simp add: run_commands.simps wp_return)

section \<open>The objects of a test\<close>

definition objects_at :: "nat \<Rightarrow> (nat \<Rightarrow> addr) \<Rightarrow> (nat \<Rightarrow> addr) \<Rightarrow> bool" where
  "objects_at n desc page \<longleftrightarrow> distinct (map desc [1..<Suc n]) \<and> list_all (\<lambda>i. desc i \<noteq> 0 \<and> page_at (page i)) [1..<Suc n] \<and>
     list_all (\<lambda>i. list_all (\<lambda>j. i = j \<or> unat (page i) + 0x1000 \<le> unat (page j) \<or> unat (page j) + 0x1000 \<le> unat (page i))
       [1..<Suc n]) [1..<Suc n]"

lemma objects_at_iff:
  "objects_at n desc page \<longleftrightarrow> inj_on desc {1..n} \<and> (\<forall>i \<in> {1..n}. desc i \<noteq> 0 \<and> page_at (page i)) \<and>
     (\<forall>i \<in> {1..n}. \<forall>j \<in> {1..n}. i = j \<or> unat (page i) + 0x1000 \<le> unat (page j) \<or> unat (page j) + 0x1000 \<le> unat (page i))"
proof -
  have I: "set [1..<Suc n] = {1..n}" by auto
  show ?thesis unfolding objects_at_def distinct_map list_all_iff I by (simp only: distinct_upt simp_thms)
qed

lemma objects_at_le: "objects_at n desc page \<Longrightarrow> m \<le> n \<Longrightarrow> objects_at m desc page"
proof -
  assume a: "objects_at n desc page" "m \<le> n"
  then have sub: "{1..m} \<subseteq> {1..n}" by auto
  from a(1) have "inj_on desc {1..m}" unfolding objects_at_iff using inj_on_subset [OF _ sub] by blast
  moreover have "\<forall>i \<in> {1..m}. desc i \<noteq> 0 \<and> page_at (page i)" using a(1) sub unfolding objects_at_iff by blast
  ultimately show ?thesis using a(1) sub unfolding objects_at_iff by blast
qed

lemma objects_placed:
  assumes "objects_at n desc page" "8 \<le> unat sz" "unat sz \<le> 0x1000"
  shows "placed n sz (0x1000 div unat sz) desc page"
proof -
  have inj: "inj_on desc {1..n}" using assms(1) unfolding objects_at_iff by blast
  have at: "page_of n desc page (desc i) = page i" if "i \<in> {1..n}" for i
    using inj that by (simp add: page_of_def inv_into_f_f)
  have T: "0 < 0x1000 div unat sz" using assms(2,3) by (simp add: div_greater_zero_iff)
  have "0 \<notin> desc ` {1..n}" using assms(1) unfolding objects_at_iff by force
  moreover have "page_at (page_of n desc page d)" if "d \<in> desc ` {1..n}" for d
  proof -
    from that obtain i where "d = desc i" "i \<in> {1..n}" by blast
    with at assms(1) show ?thesis unfolding objects_at_iff by metis
  qed
  moreover have "unat (page_of n desc page d) + 0x1000 \<le> unat (page_of n desc page e) \<or>
      unat (page_of n desc page e) + 0x1000 \<le> unat (page_of n desc page d)"
    if de: "d \<in> desc ` {1..n}" "e \<in> desc ` {1..n}" "d \<noteq> e" for d e
  proof -
    from de obtain i j where ij: "d = desc i" "i \<in> {1..n}" "e = desc j" "j \<in> {1..n}" by blast
    with de(3) have "i \<noteq> j" by blast
    with ij assms(1) show ?thesis unfolding objects_at_iff ij(1,3) at [OF ij(2)] at [OF ij(4)] by blast
  qed
  ultimately show ?thesis using inj assms(2) T unfolding placed_def pages_ok_def by blast
qed

lemma wp_new_descs:
  assumes "distinct (map desc is)" "\<And>s'. \<forall>i \<in> set is. ss_lds s' (desc i) = new_ListDescriptor (desc i) (page i) sz 1 \<Longrightarrow>
    \<forall>x. x \<notin> desc ` set is \<longrightarrow> ss_lds s' x = ss_lds s x \<Longrightarrow> Q () (passing s')"
  shows "wp (new_descs page desc sz is) Q (passing s)"
  using assms
proof (induction "is" arbitrary: s)
  case (Cons i "is")
  let ?s = "s\<lparr>ss_lds := (ss_lds s)(desc i := new_ListDescriptor (desc i) (page i) sz 1)\<rparr>"
  have "wp (new_descs page desc sz is) Q (passing ?s)"
  proof (rule Cons.IH)
    fix s' :: slab_store assume a: "\<forall>i \<in> set is. ss_lds s' (desc i) = new_ListDescriptor (desc i) (page i) sz 1"
      "\<forall>x. x \<notin> desc ` set is \<longrightarrow> ss_lds s' x = ss_lds ?s x"
    have "desc i \<notin> desc ` set is" using Cons.prems(1) by simp
    with a have "ss_lds s' (desc i) = new_ListDescriptor (desc i) (page i) sz 1" by simp
    with a show "Q () (passing s')" by (intro Cons.prems(2)) auto
  qed (use Cons.prems(1) in simp)
  then show ?case by (simp add: new_descs.simps wp_bind new_desc_def wp_act [where s' = ?s])
qed (simp add: new_descs.simps wp_return)

lemma wp_new_Pages: "(\<And>s'. Q () (passing s')) \<Longrightarrow> wp (new_Pages page is) Q (passing s)"
  by (induction "is" arbitrary: s) (simp_all add: new_Pages.simps wp_simps new_Page_def)

lemma kernel_test_wp:
  assumes "accepted (n, sz, script)" "objects_at n desc page"
  shows "wp (kernel_test page desc buf (n, sz, script)) finished (passing s)"
proof -
  let ?T = "0x1000 div unat sz" and ?a0 = "\<lparr>p_used = replicate (Suc n) None, p_lists = None, p_facts = []\<rparr>"
  from assms(1) obtain a B where a: "8 \<le> unat sz" "unat sz \<le> 0x1000" "plan_commands ?T n script ?a0 = Some a" "p_lists a = Some B"
    "list_all (\<lambda>i. i \<in> set (all_of B)) [1..<Suc n]"
    by (auto simp: accepted_def all_of_def split: option.splits)
  note pl = objects_placed [OF assms(2) a(1,2)]
  have I: "set [1..<Suc n] = {1..n}" by auto
  have dist: "distinct (map desc [1..<Suc n])" using assms(2) by (simp only: objects_at_def)
  have start: "sim n sz ?T desc page buf (\<lambda>_. 0) ?a0 s'"
    if new: "\<forall>i \<in> set [1..<Suc n]. ss_lds s' (desc i) = new_ListDescriptor (desc i) (page i) sz 1" for s'
  proof -
    have "used_of n desc (p_used ?a0) d = None \<and> ss_lds s' d = new_ListDescriptor d (page_of n desc page d) sz 1"
      if "d \<in> desc ` {1..n}" for d
    proof -
      from that obtain i where i: "d = desc i" "known n i" by (auto simp: known_def)
      then have "i \<in> set [1..<Suc n]" "i < Suc n" by (auto simp: known_def)
      with new have "ss_lds s' (desc i) = new_ListDescriptor (desc i) (page i) sz 1" by blast
      with i \<open>i < Suc n\<close> page_of_at [OF pl i(2)] placedD(1) [OF pl] show ?thesis by (simp del: replicate_Suc)
    qed
    then have "world sz ?T (page_of n desc page) (desc ` {1..n}) buf (used_of n desc (p_used ?a0)) None s'"
      unfolding world_def by (simp split: option.splits)
    then show ?thesis by (simp add: sim_def plan_world_def)
  qed
  have finish: "wp (end_buf buf) (\<lambda>_. wp (end_descs (rev (map desc [1..<Suc n]))) finished) (passing s')"
    if st: "sim n sz ?T desc page buf regs a s'" for regs s'
  proof -
    have pw: "plan_world n sz ?T desc page buf a s'" using st by (simp add: sim_def)
    have w: "world sz ?T (page_of n desc page) (desc ` {1..n}) buf (used_of n desc (p_used a)) (Some (map3 desc B)) s'"
      using plan_worldD(1) [OF pw] a(4) by simp
    have "desc ` {1..n} \<subseteq> set (fst (map3 desc B)) \<union> set (fst (snd (map3 desc B))) \<union> set (snd (snd (map3 desc B)))"
      using a(5) unfolding list_all_iff I by (auto simp: all_of_def simp del: One_nat_def)
    moreover have "set (rev (map desc [1..<Suc n])) \<subseteq> desc ` {1..n}" by (simp only: set_rev set_map I order_refl)
    ultimately show ?thesis by (rule wp_world_end [OF w placedD(2) [OF pl]])
  qed
  show ?thesis unfolding kernel_test_def prod.case wp_bind
    by (rule wp_new_descs [OF dist], rule wp_ends_in [OF sim_commands [OF pl start a(3)]]) (assumption, erule finish)
qed

lemma accepted_passes:
  assumes "accepted test" "objects_at (fst test) desc page"
  shows "passes (kernel_test page desc buf test) s" "passes (user_test page desc buf test) s"
proof -
  obtain n sz script where t: "test = (n, sz, script)" by (cases test)
  note k = kernel_test_wp [OF assms [unfolded t fst_conv]]
  show "passes (kernel_test page desc buf test) s" unfolding t by (rule wp_passes [OF k])
  show "passes (user_test page desc buf test) s"
    unfolding t user_test_def by (rule wp_passes) (simp only: wp_bind, rule wp_new_Pages, rule k)
qed

section \<open>Evaluating a plan\<close>

lemma replicate_numeral_conv: "replicate (numeral k) x = x # replicate (pred_numeral k) x"
  by (simp add: numeral_eq_Suc)

lemma upt_one_conv: "[Suc 0..<numeral k] = (if 1 < (numeral k :: nat) then Suc 0 # [2..<numeral k] else [])"
  by (simp add: upt_rec [of "Suc 0"] numeral_2_eq_2)

lemmas plan_simps = accepted_def plan_alloc_def next_slab_def plan_buf_alloc_def plan_buf_allocs_def plan_dealloc_def known_def
  ready_def no_lists_def forget_slab_def forget_reg_def alloc_facts_def regroup_def take_out_def file_in_def
  replicate_numeral_conv upt_one_conv

end
