(* ===== verification/Slab_Tests_Buffer.thy ===== *)
theory Slab_Tests_Buffer
  imports Slab_Plans
begin

text \<open>
  The unit tests of a slab buffer (\<open>kernel/unit_tests/slab/buffer\<close>): construction, where slabs are filed and which slab
  serves an allocation, and with them every unit test of the slab heap.
\<close>

section \<open>Construction and filing\<close>

definition buf_add :: "addr \<Rightarrow> addr \<Rightarrow> unit test" where
  "buf_add buf desc = act (Buffer_AddList buf desc)"

definition FreeListHead :: "addr \<Rightarrow> slab_store \<Rightarrow> addr" where "FreeListHead buf s = b_freeLists (ss_bufs s buf)"
definition PartialListHead :: "addr \<Rightarrow> slab_store \<Rightarrow> addr" where "PartialListHead buf s = b_partialLists (ss_bufs s buf)"
definition FullListHead :: "addr \<Rightarrow> slab_store \<Rightarrow> addr" where "FullListHead buf s = b_fullLists (ss_bufs s buf)"

definition DoInitCheck :: "addr \<Rightarrow> u16 \<Rightarrow> unit test" where
  "DoInitCheck buf bufferSize = do {
     new_buf buf bufferSize;
     CHECK (\<lambda>s. b_bufferSize (ss_bufs s buf) = bufferSize);
     CHECK (\<lambda>s. FreeListHead buf s = 0);
     CHECK (\<lambda>s. PartialListHead buf s = 0);
     CHECK (\<lambda>s. FullListHead buf s = 0);
     end_buf buf }"

definition DoSmallInitCheck :: "addr \<Rightarrow> u16 \<Rightarrow> unit test" where
  "DoSmallInitCheck buf bufferSize = do {
     new_buf buf bufferSize;
     CHECK (\<lambda>s. b_bufferSize (ss_bufs s buf) = 8);
     CHECK (\<lambda>s. FreeListHead buf s = 0);
     CHECK (\<lambda>s. PartialListHead buf s = 0);
     CHECK (\<lambda>s. FullListHead buf s = 0);
     end_buf buf }"

fun for_each :: "(u16 \<Rightarrow> unit test) \<Rightarrow> u16 list \<Rightarrow> unit test" where
  "for_each check [] = State_Monad.return ()"
| "for_each check (i # data) = do { check i; for_each check data }"

definition test_buffer_init :: "addr \<Rightarrow> unit test" where
  "test_buffer_init buf = for_each (DoInitCheck buf) [1, 4, 8, 16, 32, 64, 128, 256, 512]"

definition test_buffer_small_init :: "addr \<Rightarrow> unit test" where
  "test_buffer_small_init buf = for_each (DoSmallInitCheck buf) [1, 2, 4, 6, 8]"

definition test_add_free ::
    "addr \<Rightarrow> addr \<Rightarrow> addr \<Rightarrow> unit test" where
  "test_add_free page1 desc1 buf = do {
     new_Page page1;
     new_desc desc1 page1 64 1;
     new_buf buf 64;
     buf_add buf desc1;
     CHECK (\<lambda>s. FreeListHead buf s = desc1);
     CHECK (\<lambda>s. PartialListHead buf s = 0);
     CHECK (\<lambda>s. FullListHead buf s = 0);
     end_buf buf;
     end_descs [desc1] }"

lemma test_buffer_init_ok: "passes (test_buffer_init buf) s"
proof -
  have step: "wp (DoInitCheck buf sz) Q (passing s) = Q () (passing (upd_buf buf (\<lambda>_. new_Buffer buf sz) s))" for sz Q s
    by (simp add: DoInitCheck_def wp_simps new_buf_def end_buf_def new_Buffer_def FreeListHead_def PartialListHead_def
        FullListHead_def Buffer_ExtractSelf_def wp_act [where s' = "upd_buf buf (\<lambda>_. new_Buffer buf sz) s"] fun_upd_idem)
  show ?thesis by (rule wp_passes) (simp add: test_buffer_init_def wp_bind wp_return step)
qed

lemma passed_act: "ts_passed (snd (run_state (act f) t)) = ts_passed t"
  by (simp add: act_def split: sum.splits)

lemma test_buffer_small_init_fails: "\<not> passes (test_buffer_small_init buf) s"
proof -
  have mono: "\<not> ts_passed (snd (run_state (DoSmallInitCheck buf sz) t))" if "\<not> ts_passed t" for sz t
    using that by (simp add: DoSmallInitCheck_def CHECK_def new_buf_def end_buf_def act_def split: sum.splits)
  have "\<not> ts_passed (snd (run_state (for_each (DoSmallInitCheck buf) data) t))" if "\<not> ts_passed t" for data t
    using that
  proof (induction data arbitrary: t)
    case (Cons a data)
    then show ?case using mono [of t a] by (cases "run_state (DoSmallInitCheck buf a) t") simp
  qed simp
  moreover have "\<not> ts_passed (snd (run_state (DoSmallInitCheck buf 1) (passing s)))"
    by (simp add: DoSmallInitCheck_def CHECK_def new_buf_def end_buf_def passed_act split_beta)
      (simp add: act_def passing_def new_Buffer_def)
  ultimately have "\<not> ts_passed (snd (run_state (for_each (DoSmallInitCheck buf) (1 # data)) (passing s)))" for data
    by (cases "run_state (DoSmallInitCheck buf 1) (passing s)") simp
  then show ?thesis by (simp add: passes_def test_buffer_small_init_def Let_def del: for_each.simps)
qed

text \<open>A slab may be filed before its buffers are linked.\<close>

lemma test_add_free_ok:
  assumes "desc1 \<noteq> 0"
  shows "passes (test_add_free page1 desc1 buf) s"
proof -
  have b: "wp (end_buf buf) Q (passing s) = Q () (passing s)" if "buf_links s buf = (buf, buf)" for Q s
    using that by (simp add: end_buf_def buf_links_def Buffer_ExtractSelf_def wp_act [where s' = s])
  show ?thesis using assms wp_end_descs [of "{desc1}"]
    by (intro wp_passes) (clarsimp simp: test_add_free_def wp_simps b new_Page_def new_desc_def new_buf_def buf_add_def
        Buffer_AddList_def TryAddFreeList_def try_add_def new_ListDescriptor_def new_Buffer_def BufferSize_def Full_def
        Empty_ld_def rassert_def Let_def set_next_def set_prev_def FreeListHead_def PartialListHead_def FullListHead_def
        buf_links_def links_in_def)
qed

text \<open>The pointer variables of the tests.\<close>

abbreviation (input) pobj :: nat where "pobj \<equiv> 0"
abbreviation (input) nextfree :: nat where "nextfree \<equiv> 1"
abbreviation (input) allocd :: nat where "allocd \<equiv> 2"
abbreviation (input) nextfree2 :: nat where "nextfree2 \<equiv> 3"
abbreviation (input) allocd2 :: nat where "allocd2 \<equiv> 4"

section \<open>Lists and allocation\<close>

definition test_add_to_lists :: "nat \<times> u16 \<times> command list" where
  "test_add_to_lists = (4, 64,
     [Setup 1,
      Setup 2,
      Setup 3,
      Setup 4,
      New_buffer,
      Allocate_from None 1,
      Allocate_from None 3,
      Add 1,
      Assert Check (No_head FreeLists),
      Assert Check (Head PartialLists [] 1),
      Add 2,
      Assert Check (Head FreeLists [] 2),
      Assert Check (Head PartialLists [] 1),
      Add 3,
      Assert Check (Head FreeLists [] 2),
      Assert Check (Head PartialLists [] 1),
      Assert Check (Head PartialLists [Nxt] 3),
      Add 4,
      Assert Check (Head FreeLists [] 2),
      Assert Check (Head FreeLists [Nxt] 4),
      Assert Check (Head PartialLists [] 1),
      Assert Check (Head PartialLists [Nxt] 3)])"

definition test_add_to_correct_list :: "nat \<times> u16 \<times> command list" where
  "test_add_to_correct_list = (6, 64,
     [New_buffer,
      Setup 1,
      Setup 2,
      Setup 3,
      Setup 4,
      Setup 5,
      Setup 6,
      Allocate_from None 1,
      Allocate_from None 3,
      Allocate_all None 5,
      Allocate_all None 6,
      Add 1,
      Assert Check (No_head FreeLists),
      Assert Check (Head PartialLists [] 1),
      Assert Check (No_head FullLists),
      Add 2,
      Assert Check (Head FreeLists [] 2),
      Assert Check (Head PartialLists [] 1),
      Assert Check (No_head FullLists),
      Add 3,
      Assert Check (Head FreeLists [] 2),
      Assert Check (Head PartialLists [] 1),
      Assert Check (Head PartialLists [Nxt] 3),
      Assert Check (No_head FullLists),
      Add 4,
      Assert Check (Head FreeLists [] 2),
      Assert Check (Head FreeLists [Nxt] 4),
      Assert Check (Head PartialLists [] 1),
      Assert Check (Head PartialLists [Nxt] 3),
      Assert Check (No_head FullLists),
      Add 5,
      Assert Check (Head FreeLists [] 2),
      Assert Check (Both (Head FreeLists [Nxt] 4) (Head FreeLists [Prv] 4)),
      Assert Check (Head PartialLists [] 1),
      Assert Check (Both (Head PartialLists [Nxt] 3) (Head PartialLists [Prv] 3)),
      Assert Check (Head FullLists [] 5),
      Assert Check (Both (Head FullLists [Nxt] 5) (Head FullLists [Prv] 5)),
      Add 6,
      Assert Check (Head FreeLists [] 2),
      Assert Check (Head FreeLists [Nxt] 4),
      Assert Check (Head PartialLists [] 1),
      Assert Check (Head PartialLists [Nxt] 3),
      Assert Check (Head FullLists [] 5),
      Assert Check (Head FullLists [Nxt] 6),
      Assert Check (Head FullLists [Prv] 6)])"

definition test_buffer_moves_free :: "nat \<times> u16 \<times> command list" where
  "test_buffer_moves_free = (1, 10,
     [Setup 1,
      New_buffer,
      Add 1,
      Assert Check (Head FreeLists [] 1),
      Assert Check (No_head PartialLists),
      Assert Check (No_head FullLists),
      Next_free nextfree 1,
      Buf_allocate (Some allocd),
      Assert Check (No_head FreeLists),
      Assert Check (Head PartialLists [] 1),
      Assert Check (No_head FullLists),
      Assert Kassert (Same allocd nextfree),
      Next_free nextfree2 1,
      Buf_allocate (Some allocd2),
      Assert Kassert (Same allocd2 nextfree2),
      Assert Kassert (Differ allocd2 allocd)])"

definition test_buffer_partial_first :: "nat \<times> u16 \<times> command list" where
  "test_buffer_partial_first = (4, 64,
     [Setup 1,
      Setup 2,
      Setup 3,
      Setup 4,
      Allocate_from None 1,
      Allocate_from None 3,
      New_buffer,
      Add 1,
      Add 2,
      Add 3,
      Add 4,
      Assert Require (Head FreeLists [] 2),
      Assert Require (Head FreeLists [Nxt] 4),
      Assert Require (Head FreeLists [Prv] 4),
      Assert Require (Head PartialLists [] 1),
      Assert Require (Head PartialLists [Nxt] 3),
      Assert Require (Head PartialLists [Prv] 3),
      Assert Require (No_head FullLists),
      Next_free nextfree 1,
      Buf_allocate (Some allocd),
      Assert Check (Same allocd nextfree),
      Assert Require (Head FreeLists [] 2),
      Assert Require (Head FreeLists [Nxt] 4),
      Assert Require (Head FreeLists [Prv] 4),
      Assert Require (Head PartialLists [] 1),
      Assert Require (Head PartialLists [Nxt] 3),
      Assert Require (Head PartialLists [Prv] 3),
      Assert Require (No_head FullLists)])"

definition test_buffer_exhaust1 :: "nat \<times> u16 \<times> command list" where
  "test_buffer_exhaust1 = (1, 64,
     [Setup 1,
      New_buffer,
      Add 1,
      Assert Require (Head FreeLists [] 1),
      Assert Require (Head FreeLists [Nxt] 1),
      Assert Require (Head FreeLists [Prv] 1),
      Assert Require (No_head PartialLists),
      Assert Require (No_head FullLists),
      Buf_allocate_all None 1 0,
      Assert Check (No_head FreeLists),
      Assert Check (No_head PartialLists),
      Assert Check (Head FullLists [] 1),
      Assert Check (Head FullLists [Nxt] 1),
      Assert Check (Head FullLists [Prv] 1)])"

definition test_buffer_exhaust2 :: "nat \<times> u16 \<times> command list" where
  "test_buffer_exhaust2 = (2, 64,
     [Setup 1,
      Setup 2,
      New_buffer,
      Add 1,
      Add 2,
      Assert Require (Head FreeLists [] 1),
      Assert Require (Head FreeLists [Nxt] 2),
      Assert Require (Head FreeLists [Prv] 2),
      Assert Require (No_head PartialLists),
      Assert Require (No_head FullLists),
      Buf_allocate_all None 1 0,
      Assert Check (Head FullLists [] 1),
      Assert Check (Head FullLists [Nxt] 1),
      Assert Check (Head FullLists [Prv] 1),
      Assert Check (Head FreeLists [] 2),
      Assert Check (Head FreeLists [Nxt] 2),
      Assert Check (Head FreeLists [Prv] 2),
      Next_free nextfree 2,
      Buf_allocate (Some allocd),
      Assert Check (Same allocd nextfree)])"

definition test_buffer_exhaust3 :: "nat \<times> u16 \<times> command list" where
  "test_buffer_exhaust3 = (5, 64,
     [New_buffer,
      Setup 1,
      Setup 2,
      Setup 3,
      Setup 4,
      Setup 5,
      Allocate_from None 1,
      Allocate_from None 2,
      Allocate_all None 3,
      Add 1,
      Add 2,
      Add 3,
      Add 4,
      Add 5,
      Assert Require (Head FreeLists [] 4),
      Assert Require (Head FreeLists [Nxt] 5),
      Assert Require (Head FreeLists [Prv] 5),
      Assert Require (Head PartialLists [] 1),
      Assert Require (Head PartialLists [Nxt] 2),
      Assert Require (Head PartialLists [Prv] 2),
      Assert Require (Head FullLists [] 3),
      Buf_allocate_all None 1 1,
      Assert Check (Head FreeLists [] 4),
      Assert Check (Head FreeLists [Nxt] 5),
      Assert Check (Head FreeLists [Prv] 5),
      Assert Check (Head PartialLists [] 2),
      Assert Check (Head PartialLists [Nxt] 2),
      Assert Check (Head PartialLists [Prv] 2),
      Assert Check (Head FullLists [] 3),
      Assert Check (Head FullLists [Nxt] 1),
      Assert Check (Head FullLists [Prv] 1),
      Next_free nextfree 2,
      Buf_allocate (Some allocd),
      Assert Check (Same allocd nextfree)])"

lemmas buffer_scripts = test_add_to_lists_def test_add_to_correct_list_def test_buffer_moves_free_def test_buffer_partial_first_def test_buffer_exhaust1_def test_buffer_exhaust2_def test_buffer_exhaust3_def

lemma buffer_scripts_accepted:
  "accepted test_add_to_lists"
  "accepted test_add_to_correct_list"
  "accepted test_buffer_moves_free"
  "accepted test_buffer_partial_first"
  "accepted test_buffer_exhaust1"
  "accepted test_buffer_exhaust2"
  "accepted test_buffer_exhaust3"
  by (simp_all add: plan_simps buffer_scripts)

lemma buffer_tests_sizes:
  "fst test_add_to_lists \<le> 6" "fst test_add_to_correct_list \<le> 6" "fst test_buffer_moves_free \<le> 6"
  "fst test_buffer_partial_first \<le> 6" "fst test_buffer_exhaust1 \<le> 6" "fst test_buffer_exhaust2 \<le> 6"
  "fst test_buffer_exhaust3 \<le> 6"
  by (simp_all add: buffer_scripts)

section \<open>All unit tests\<close>

definition slab_unit_tests :: "(nat \<Rightarrow> addr) \<Rightarrow> (nat \<Rightarrow> addr) \<Rightarrow> addr \<Rightarrow> unit test list" where
  "slab_unit_tests page desc buf =
     [test_init_8 (page 1) (desc 1),
      test_init_400 (page 1) (desc 1),
      test_init_1 (page 1) (desc 1),
      test_init_4 (page 1) (desc 1),
      test_link_one (page 1) (desc 1),
      test_link_self (page 1) (desc 1),
      test_link_two (page 1) (page 2) (desc 1) (desc 2),
      test_link_three (page 1) (page 2) (page 3) (desc 1) (desc 2) (desc 3),
      test_link_sizes (page 1) (page 2) (page 3) (page 4) (desc 1) (desc 2) (desc 3) (desc 4),
      test_link_remove (page 1) (page 2) (page 3) (page 4) (desc 1) (desc 2) (desc 3),
      test_remove_self (page 1) (desc 1),
      test_contiguous (page 1) (desc 1),
      test_exhaust_all (page 1) (desc 1),
      test_alloc2_dealloc2 (page 1) (desc 1),
      test_alloc3_fifo (page 1) (desc 1),
      test_dealloc_after_exhaust (page 1) (desc 1),
      test_dealloc_after_exhaust_longer (page 1) (desc 1),
      test_exhaust_free_all (page 1) (desc 1),
      test_exhaust_free_all_twice (page 1) (desc 1),
      test_fragmentation (page 1) (desc 1),
      test_page_alloc (page 1) (desc 1),
      test_page_alloc_alloc (page 1) (desc 1),
      test_page_alloc_dealloc (page 1) (desc 1),
      test_page_rounds (page 1) (desc 1),
      test_buffer_init buf,
      test_add_free (page 1) (desc 1) buf] @
     map (user_test page desc buf)
       [test_add_to_lists, test_add_to_correct_list, test_buffer_moves_free, test_buffer_partial_first,
        test_buffer_exhaust1, test_buffer_exhaust2, test_buffer_exhaust3]"

lemma objects_apart:
  assumes "objects_at 6 desc page"
  shows "page_at (page 1)" "desc 1 \<noteq> 0" "distinct [desc 1, desc 2, 0]" "distinct [desc 1, desc 2, desc 3, 0]"
    "distinct [desc 1, desc 2, desc 3, desc 4, 0]"
proof -
  have nz: "desc i \<noteq> 0 \<and> page_at (page i)" if "1 \<le> i" "i \<le> 6" for i
    using assms that unfolding objects_at_iff by simp
  have "inj_on desc {1..6}" using assms unfolding objects_at_iff by blast
  then have ne: "desc i \<noteq> desc j" if "i < j" "1 \<le> i" "j \<le> 6" for i j
    using that desc_eq [of desc 6 i j] by (simp add: known_def)
  show "page_at (page 1)" "desc 1 \<noteq> 0" using nz by simp_all
  show "distinct [desc 1, desc 2, 0]" "distinct [desc 1, desc 2, desc 3, 0]"
    "distinct [desc 1, desc 2, desc 3, desc 4, 0]"
    using nz [of 1] nz [of 2] nz [of 3] nz [of 4] ne [of 1 2] ne [of 1 3] ne [of 1 4] ne [of 2 3] ne [of 2 4] ne [of 3 4]
    by simp_all
qed

lemma descriptor_tests_pass:
  assumes "page_at page1" "desc1 \<noteq> 0"
  shows "list_all (\<lambda>test. passes (test page1 desc1) s)
      [test_init_8, test_init_400, test_init_1, test_init_4, test_link_one, test_link_self, test_remove_self, test_contiguous,
       test_exhaust_all, test_alloc2_dealloc2, test_alloc3_fifo, test_dealloc_after_exhaust, test_dealloc_after_exhaust_longer,
       test_exhaust_free_all, test_exhaust_free_all_twice, test_fragmentation, test_page_alloc, test_page_alloc_alloc,
       test_page_alloc_dealloc, test_page_rounds]"
  using assms by (simp add: test_init_ok test_link_one_ok test_contiguous_ok test_exhaust_all_ok memory_tests_ok
      page_tests_ok test_page_rounds_ok)

text \<open>
  C38. The repository's unit tests of the slab heap, run on the model: wherever the six pages, the six descriptors and the
  buffer they use lie, each test passes, without a null dereference, a failed assertion or an endless loop, but two.
  One of the two is a placeholder that checks false; the other expects a buffer of a size below 8 to report 8.
\<close>

theorem slab_unit_tests_pass:
  assumes "objects_at 6 desc page"
  shows "list_all (\<lambda>test. passes test s) (slab_unit_tests page desc buf) \<and> test_poison (page 1) (desc 1) bytes \<and>
         \<not> passes test_setup_buffers s \<and> \<not> passes (test_buffer_small_init buf) s"
proof -
  note o = objects_apart [OF assms]
  note le = buffer_tests_sizes [THEN objects_at_le [OF assms]]
  have "unat (page 1) + 0x1000 < 2 ^ 64" using o(1) by (simp add: page_at_def)
  from test_poison_ok [OF this] descriptor_tests_pass [OF o(1,2), of s] test_link_two_ok [OF o(3)] test_link_three_ok [OF o(4)]
    test_link_sizes_ok [OF o(5)] buffer_scripts_accepted [THEN accepted_passes(2)] le
    test_add_free_ok [OF o(2)]
  show ?thesis
    by (simp add: slab_unit_tests_def test_buffer_init_ok test_setup_buffers_fails
        test_buffer_small_init_fails)
qed

theorem slab_unit_tests_pass_witness:
  "\<forall>s. list_all (\<lambda>test. passes test s)
     (slab_unit_tests (\<lambda>i. 0x10000 + 0x1000 * of_nat i) (\<lambda>i. 0x8000 + 0x100 * of_nat i) 0x8600)"
proof -
  have "objects_at 6 (\<lambda>i. 0x8000 + 0x100 * of_nat i) (\<lambda>i. 0x10000 + 0x1000 * of_nat i)"
    by (simp add: objects_at_def page_at_def upt_one_conv)
  from slab_unit_tests_pass [OF this] show ?thesis by blast
qed

end
