(* ===== verification/Slab_Kernel_Tests.thy ===== *)
theory Slab_Kernel_Tests
  imports Slab_Tests_Buffer
begin

text \<open>
  The tests of \<open>Buffer::Deallocate\<close> that run inside the kernel (\<open>kernel/src/kheap/slab/tests\<close>).
\<close>

section \<open>Returning objects of 8 and 10 bytes\<close>

definition Discriminate_PartialHead :: "nat \<times> u16 \<times> command list" where
  "Discriminate_PartialHead = (1, 10,
     [Setup 1,
      New_buffer,
      Add 1,
      Assert Kassert (Head FreeLists [] 1),
      Assert Kassert (No_head PartialLists),
      Assert Kassert (No_head FullLists),
      Buf_allocate (Some pobj),
      Assert Kassert (No_head FreeLists),
      Assert Kassert (Head PartialLists [] 1),
      Assert Kassert (No_head FullLists),
      Buf_deallocate pobj,
      Assert Kassert (Head FreeLists [] 1),
      Assert Kassert (No_head PartialLists),
      Assert Kassert (No_head FullLists)])"

definition Discriminate_PartialEntry1 :: "nat \<times> u16 \<times> command list" where
  "Discriminate_PartialEntry1 = (2, 10,
     [Setup 1,
      Setup 2,
      Allocate_from None 1,
      Allocate_from (Some pobj) 2,
      New_buffer,
      Add 1,
      Add 2,
      Assert Kassert (No_head FreeLists),
      Assert Kassert (No_head FullLists),
      Assert Kassert (Head PartialLists [] 1),
      Assert Kassert (Head PartialLists [Nxt] 2),
      Assert Kassert (Head PartialLists [Prv] 2),
      Buf_deallocate pobj,
      Assert Kassert (Head FreeLists [] 2),
      Assert Kassert (No_head FullLists),
      Assert Kassert (Head PartialLists [] 1),
      Assert Kassert (Head PartialLists [Nxt] 1),
      Assert Kassert (Head PartialLists [Prv] 1)])"

definition Discriminate_PartialEntry2 :: "nat \<times> u16 \<times> command list" where
  "Discriminate_PartialEntry2 = (4, 10,
     [Setup 1,
      Setup 2,
      Setup 3,
      Setup 4,
      Allocate_from None 1,
      Allocate_from None 2,
      Allocate_from (Some pobj) 3,
      Allocate_from None 4,
      Assert Kassert (In_range 3 pobj),
      New_buffer,
      Add 1,
      Add 2,
      Add 3,
      Add 4,
      Assert Kassert (No_head FreeLists),
      Assert Kassert (No_head FullLists),
      Assert Kassert (Head PartialLists [] 1),
      Assert Kassert (Head PartialLists [Nxt] 2),
      Assert Kassert (Head PartialLists [Nxt, Nxt] 3),
      Assert Kassert (Head PartialLists [Nxt, Nxt, Nxt] 4),
      Assert Kassert (Head PartialLists [Prv] 4),
      Buf_deallocate pobj,
      Assert Kassert (Head FreeLists [] 3),
      Assert Kassert (No_head FullLists),
      Assert Kassert (Head PartialLists [] 1),
      Assert Kassert (Head PartialLists [Nxt] 2),
      Assert Kassert (Head PartialLists [Nxt, Nxt] 4),
      Assert Kassert (Head PartialLists [Prv] 4)])"

definition Discriminate_FullHead :: "nat \<times> u16 \<times> command list" where
  "Discriminate_FullHead = (1, 10,
     [Setup 1,
      New_buffer,
      Add 1,
      Assert Kassert (Head FreeLists [] 1),
      Assert Kassert (No_head PartialLists),
      Assert Kassert (No_head FullLists),
      Buf_allocate_all (Some pobj) 1 0,
      Assert Kassert (No_head FreeLists),
      Assert Kassert (No_head PartialLists),
      Assert Kassert (Head FullLists [] 1),
      Buf_deallocate pobj,
      Assert Kassert (No_head FreeLists),
      Assert Kassert (Head PartialLists [] 1),
      Assert Kassert (No_head FullLists)])"

definition Discriminate_FullEntry1 :: "nat \<times> u16 \<times> command list" where
  "Discriminate_FullEntry1 = (4, 10,
     [Setup 1,
      Setup 2,
      Setup 3,
      Setup 4,
      Allocate_all None 1,
      Allocate_all None 2,
      Allocate_all (Some pobj) 3,
      Allocate_all None 4,
      Assert Kassert (In_range 3 pobj),
      New_buffer,
      Add 1,
      Add 2,
      Add 3,
      Add 4,
      Assert Kassert (No_head FreeLists),
      Assert Kassert (No_head PartialLists),
      Assert Kassert (Head FullLists [] 1),
      Assert Kassert (Head FullLists [Nxt] 2),
      Assert Kassert (Head FullLists [Nxt, Nxt] 3),
      Assert Kassert (Head FullLists [Nxt, Nxt, Nxt] 4),
      Assert Kassert (Head FullLists [Prv] 4),
      Buf_deallocate pobj,
      Assert Kassert (No_head FreeLists),
      Assert Kassert (Head PartialLists [] 3),
      Assert Kassert (Head FullLists [] 1),
      Assert Kassert (Head FullLists [Nxt] 2),
      Assert Kassert (Head FullLists [Nxt, Nxt] 4),
      Assert Kassert (Head FullLists [Prv] 4)])"

definition Discriminate_FullEntry2 :: "nat \<times> u16 \<times> command list" where
  "Discriminate_FullEntry2 = (4, 10,
     [Setup 1,
      Setup 2,
      Setup 3,
      Setup 4,
      Allocate_from None 1,
      Allocate_all None 2,
      Allocate_all (Some pobj) 3,
      Allocate_all None 4,
      Assert Kassert (In_range 3 pobj),
      New_buffer,
      Add 1,
      Add 2,
      Add 3,
      Add 4,
      Assert Kassert (No_head FreeLists),
      Assert Kassert (Head PartialLists [] 1),
      Assert Kassert (Head PartialLists [Nxt] 1),
      Assert Kassert (Head PartialLists [Prv] 1),
      Assert Kassert (Head FullLists [] 2),
      Assert Kassert (Head FullLists [Nxt] 3),
      Assert Kassert (Head FullLists [Nxt, Nxt] 4),
      Assert Kassert (Head FullLists [Prv] 4),
      Buf_deallocate pobj,
      Assert Kassert (No_head FreeLists),
      Assert Kassert (Head PartialLists [] 1),
      Assert Kassert (Head PartialLists [Nxt] 3),
      Assert Kassert (Head PartialLists [Prv] 3),
      Assert Kassert (Head FullLists [] 2),
      Assert Kassert (Head FullLists [Nxt] 4),
      Assert Kassert (Head FullLists [Prv] 4)])"

definition MoveToFreeEmpty_FullHead :: "nat \<times> u16 \<times> command list" where
  "MoveToFreeEmpty_FullHead = (1, 8,
     [Setup 1,
      New_buffer,
      Add 1,
      Assert Kassert (Head FreeLists [] 1),
      Assert Kassert (No_head PartialLists),
      Assert Kassert (No_head FullLists),
      Buf_allocate_all (Some pobj) 1 0,
      Assert Kassert (No_head FreeLists),
      Assert Kassert (No_head PartialLists),
      Assert Kassert (Head FullLists [] 1),
      Buf_deallocate_range 1,
      Assert Kassert (No_head FullLists),
      Assert Kassert (Head FreeLists [] 1),
      Assert Kassert (No_head PartialLists)])"

definition MoveToFreeEmpty_FullEntry :: "nat \<times> u16 \<times> command list" where
  "MoveToFreeEmpty_FullEntry = (3, 8,
     [Setup 1,
      Setup 2,
      Setup 3,
      New_buffer,
      Allocate_all (Some pobj) 1,
      Allocate_all (Some pobj) 2,
      Allocate_all (Some pobj) 3,
      Add 1,
      Add 2,
      Add 3,
      Assert Kassert (No_head FreeLists),
      Assert Kassert (No_head PartialLists),
      Assert Kassert (Head FullLists [] 1),
      Assert Kassert (Head FullLists [Nxt] 2),
      Assert Kassert (Head FullLists [Nxt, Nxt] 3),
      Assert Kassert (Head FullLists [Prv] 3),
      Buf_deallocate_range 2,
      Assert Kassert (No_head PartialLists),
      Assert Kassert (Head FreeLists [] 2),
      Assert Kassert (Head FullLists [] 1),
      Assert Kassert (Head FullLists [Nxt] 3),
      Assert Kassert (Head FullLists [Prv] 3)])"

definition MoveToFree_PartialEntry :: "nat \<times> u16 \<times> command list" where
  "MoveToFree_PartialEntry = (4, 10,
     [Setup 1,
      Setup 2,
      Setup 3,
      Setup 4,
      Allocate_from None 2,
      Allocate_from (Some pobj) 3,
      Allocate_from None 4,
      New_buffer,
      Add 1,
      Add 2,
      Add 3,
      Add 4,
      Assert Kassert (Head FreeLists [] 1),
      Assert Kassert (Head FreeLists [Nxt] 1),
      Assert Kassert (Head FreeLists [Prv] 1),
      Assert Kassert (Head PartialLists [] 2),
      Assert Kassert (Head PartialLists [Nxt] 3),
      Assert Kassert (Head PartialLists [Nxt, Nxt] 4),
      Assert Kassert (Head PartialLists [Prv] 4),
      Assert Kassert (No_head FullLists),
      Buf_deallocate pobj,
      Assert Kassert (Head FreeLists [] 1),
      Assert Kassert (Head FreeLists [Nxt] 3),
      Assert Kassert (Head FreeLists [Prv] 3),
      Assert Kassert (Head PartialLists [] 2),
      Assert Kassert (Head PartialLists [Nxt] 4),
      Assert Kassert (Head PartialLists [Prv] 4),
      Assert Kassert (No_head FullLists)])"

definition MoveToFree_FullHead :: "nat \<times> u16 \<times> command list" where
  "MoveToFree_FullHead = (6, 8,
     [Setup 1,
      Setup 2,
      Setup 3,
      Setup 4,
      Setup 5,
      Setup 6,
      Allocate_all None 4,
      Allocate_all (Some pobj) 5,
      Allocate_all None 6,
      New_buffer,
      Add 1,
      Add 2,
      Add 3,
      Add 4,
      Add 5,
      Add 6,
      Assert Kassert (No_head PartialLists),
      Assert Kassert (Head FreeLists [] 1),
      Assert Kassert (Head FreeLists [Nxt] 2),
      Assert Kassert (Head FreeLists [Nxt, Nxt] 3),
      Assert Kassert (Head FreeLists [Prv] 3),
      Assert Kassert (Head FullLists [] 4),
      Assert Kassert (Head FullLists [Nxt] 5),
      Assert Kassert (Head FullLists [Nxt, Nxt] 6),
      Assert Kassert (Head FullLists [Prv] 6),
      Buf_deallocate_range 4,
      Assert Kassert (No_head PartialLists),
      Assert Kassert (Head FreeLists [] 1),
      Assert Kassert (Head FreeLists [Nxt] 2),
      Assert Kassert (Head FreeLists [Nxt, Nxt] 3),
      Assert Kassert (Head FreeLists [Nxt, Nxt, Nxt] 4),
      Assert Kassert (Head FreeLists [Prv] 4),
      Assert Kassert (Head FullLists [] 5),
      Assert Kassert (Head FullLists [Nxt] 6),
      Assert Kassert (Head FullLists [Prv] 6)])"

definition MoveToFree_FullEntry :: "nat \<times> u16 \<times> command list" where
  "MoveToFree_FullEntry = (6, 8,
     [Setup 1,
      Setup 2,
      Setup 3,
      Setup 4,
      Setup 5,
      Setup 6,
      Allocate_all None 4,
      Allocate_all (Some pobj) 5,
      Allocate_all None 6,
      New_buffer,
      Add 1,
      Add 2,
      Add 3,
      Add 4,
      Add 5,
      Add 6,
      Assert Kassert (No_head PartialLists),
      Assert Kassert (Head FreeLists [] 1),
      Assert Kassert (Head FreeLists [Nxt] 2),
      Assert Kassert (Head FreeLists [Nxt, Nxt] 3),
      Assert Kassert (Head FreeLists [Prv] 3),
      Assert Kassert (Head FullLists [] 4),
      Assert Kassert (Head FullLists [Nxt] 5),
      Assert Kassert (Head FullLists [Nxt, Nxt] 6),
      Assert Kassert (Head FullLists [Prv] 6),
      Buf_deallocate_range 5,
      Assert Kassert (No_head PartialLists),
      Assert Kassert (Head FreeLists [] 1),
      Assert Kassert (Head FreeLists [Nxt] 2),
      Assert Kassert (Head FreeLists [Nxt, Nxt] 3),
      Assert Kassert (Head FreeLists [Nxt, Nxt, Nxt] 5),
      Assert Kassert (Head FreeLists [Prv] 5),
      Assert Kassert (Head FullLists [] 4),
      Assert Kassert (Head FullLists [Nxt] 6),
      Assert Kassert (Head FullLists [Prv] 6)])"

section \<open>Objects of the size of a page\<close>

definition Page_Discriminate_FullEntry1 :: "nat \<times> u16 \<times> command list" where
  "Page_Discriminate_FullEntry1 = (4, 4096,
     [Setup 1,
      Setup 2,
      Setup 3,
      Setup 4,
      Allocate_from None 1,
      Allocate_from None 2,
      Allocate_from (Some pobj) 3,
      Allocate_from None 4,
      Assert Kassert (In_range 3 pobj),
      New_buffer,
      Add 1,
      Add 2,
      Add 3,
      Add 4,
      Assert Kassert (No_head FreeLists),
      Assert Kassert (No_head PartialLists),
      Assert Kassert (Head FullLists [] 1),
      Assert Kassert (Head FullLists [Nxt] 2),
      Assert Kassert (Head FullLists [Nxt, Nxt] 3),
      Assert Kassert (Head FullLists [Nxt, Nxt, Nxt] 4),
      Assert Kassert (Head FullLists [Prv] 4),
      Buf_deallocate pobj,
      Assert Kassert (Head FreeLists [] 3),
      Assert Kassert (No_head PartialLists),
      Assert Kassert (Head FullLists [] 1),
      Assert Kassert (Head FullLists [Nxt] 2),
      Assert Kassert (Head FullLists [Nxt, Nxt] 4),
      Assert Kassert (Head FullLists [Prv] 4)])"

definition Page_Discriminate_FullEntry2 :: "nat \<times> u16 \<times> command list" where
  "Page_Discriminate_FullEntry2 = (4, 4096,
     [Setup 1,
      Setup 2,
      Setup 3,
      Setup 4,
      Allocate_from None 2,
      Allocate_from (Some pobj) 3,
      Allocate_from None 4,
      Assert Kassert (In_range 3 pobj),
      New_buffer,
      Add 1,
      Add 2,
      Add 3,
      Add 4,
      Assert Kassert (Head FreeLists [] 1),
      Assert Kassert (Head FreeLists [Nxt] 1),
      Assert Kassert (Head FreeLists [Prv] 1),
      Assert Kassert (No_head PartialLists),
      Assert Kassert (Head FullLists [] 2),
      Assert Kassert (Head FullLists [Nxt] 3),
      Assert Kassert (Head FullLists [Nxt, Nxt] 4),
      Assert Kassert (Head FullLists [Prv] 4),
      Buf_deallocate pobj,
      Assert Kassert (Head FreeLists [] 1),
      Assert Kassert (Head FreeLists [Nxt] 3),
      Assert Kassert (Head FreeLists [Prv] 3),
      Assert Kassert (No_head PartialLists),
      Assert Kassert (Head FullLists [] 2),
      Assert Kassert (Head FullLists [Nxt] 4),
      Assert Kassert (Head FullLists [Prv] 4)])"

definition Page_MoveToFreeEmpty_FullHead :: "nat \<times> u16 \<times> command list" where
  "Page_MoveToFreeEmpty_FullHead = (1, 4096,
     [Setup 1,
      New_buffer,
      Add 1,
      Assert Kassert (Head FreeLists [] 1),
      Assert Kassert (No_head PartialLists),
      Assert Kassert (No_head FullLists),
      Buf_allocate (Some pobj),
      Assert Kassert (No_head FreeLists),
      Assert Kassert (No_head PartialLists),
      Assert Kassert (Head FullLists [] 1),
      Buf_deallocate pobj,
      Assert Kassert (Head FreeLists [] 1),
      Assert Kassert (No_head PartialLists),
      Assert Kassert (No_head FullLists)])"

definition Page_MoveToFreeEmpty_FullEntry :: "nat \<times> u16 \<times> command list" where
  "Page_MoveToFreeEmpty_FullEntry = (3, 4096,
     [Setup 1,
      Setup 2,
      Setup 3,
      New_buffer,
      Allocate_from None 1,
      Allocate_from (Some pobj) 2,
      Allocate_from None 3,
      Add 1,
      Add 2,
      Add 3,
      Assert Kassert (No_head FreeLists),
      Assert Kassert (No_head PartialLists),
      Assert Kassert (Head FullLists [] 1),
      Assert Kassert (Head FullLists [Nxt] 2),
      Assert Kassert (Head FullLists [Nxt, Nxt] 3),
      Assert Kassert (Head FullLists [Prv] 3),
      Buf_deallocate pobj,
      Assert Kassert (No_head PartialLists),
      Assert Kassert (Head FreeLists [] 2),
      Assert Kassert (Head FullLists [] 1),
      Assert Kassert (Head FullLists [Nxt] 3),
      Assert Kassert (Head FullLists [Prv] 3)])"

definition Page_MoveToFree_FullHead :: "nat \<times> u16 \<times> command list" where
  "Page_MoveToFree_FullHead = (6, 4096,
     [Setup 1,
      Setup 2,
      Setup 3,
      Setup 4,
      Setup 5,
      Setup 6,
      Allocate_from (Some pobj) 4,
      Allocate_from None 5,
      Allocate_from None 6,
      New_buffer,
      Add 1,
      Add 2,
      Add 3,
      Add 4,
      Add 5,
      Add 6,
      Assert Kassert (No_head PartialLists),
      Assert Kassert (Head FreeLists [] 1),
      Assert Kassert (Head FreeLists [Nxt] 2),
      Assert Kassert (Head FreeLists [Nxt, Nxt] 3),
      Assert Kassert (Head FreeLists [Prv] 3),
      Assert Kassert (Head FullLists [] 4),
      Assert Kassert (Head FullLists [Nxt] 5),
      Assert Kassert (Head FullLists [Nxt, Nxt] 6),
      Assert Kassert (Head FullLists [Prv] 6),
      Buf_deallocate pobj,
      Assert Kassert (No_head PartialLists),
      Assert Kassert (Head FreeLists [] 1),
      Assert Kassert (Head FreeLists [Nxt] 2),
      Assert Kassert (Head FreeLists [Nxt, Nxt] 3),
      Assert Kassert (Head FreeLists [Nxt, Nxt, Nxt] 4),
      Assert Kassert (Head FreeLists [Prv] 4),
      Assert Kassert (Head FullLists [] 5),
      Assert Kassert (Head FullLists [Nxt] 6),
      Assert Kassert (Head FullLists [Prv] 6)])"

definition Page_MoveToFree_FullEntry :: "nat \<times> u16 \<times> command list" where
  "Page_MoveToFree_FullEntry = (6, 4096,
     [Setup 1,
      Setup 2,
      Setup 3,
      Setup 4,
      Setup 5,
      Setup 6,
      Allocate_from None 4,
      Allocate_from (Some pobj) 5,
      Allocate_from None 6,
      New_buffer,
      Add 1,
      Add 2,
      Add 3,
      Add 4,
      Add 5,
      Add 6,
      Assert Kassert (No_head PartialLists),
      Assert Kassert (Head FreeLists [] 1),
      Assert Kassert (Head FreeLists [Nxt] 2),
      Assert Kassert (Head FreeLists [Nxt, Nxt] 3),
      Assert Kassert (Head FreeLists [Prv] 3),
      Assert Kassert (Head FullLists [] 4),
      Assert Kassert (Head FullLists [Nxt] 5),
      Assert Kassert (Head FullLists [Nxt, Nxt] 6),
      Assert Kassert (Head FullLists [Prv] 6),
      Buf_deallocate pobj,
      Assert Kassert (No_head PartialLists),
      Assert Kassert (Head FreeLists [] 1),
      Assert Kassert (Head FreeLists [Nxt] 2),
      Assert Kassert (Head FreeLists [Nxt, Nxt] 3),
      Assert Kassert (Head FreeLists [Nxt, Nxt, Nxt] 5),
      Assert Kassert (Head FreeLists [Prv] 5),
      Assert Kassert (Head FullLists [] 4),
      Assert Kassert (Head FullLists [Nxt] 6),
      Assert Kassert (Head FullLists [Prv] 6)])"

definition Page_Allocate1 :: "nat \<times> u16 \<times> command list" where
  "Page_Allocate1 = (1, 4096,
     [Setup 1,
      New_buffer,
      Add 1,
      Assert Kassert (Head FreeLists [] 1),
      Assert Kassert (No_head PartialLists),
      Assert Kassert (No_head FullLists),
      Next_free nextfree 1,
      Buf_allocate (Some allocd),
      Assert Kassert (No_head FreeLists),
      Assert Kassert (No_head PartialLists),
      Assert Kassert (Head FullLists [] 1),
      Assert Kassert (Same allocd nextfree)])"

definition Page_Allocate2 :: "nat \<times> u16 \<times> command list" where
  "Page_Allocate2 = (4, 4096,
     [Setup 1,
      Setup 2,
      Setup 3,
      Setup 4,
      Allocate_from None 1,
      Allocate_from None 3,
      New_buffer,
      Add 1,
      Add 2,
      Add 3,
      Add 4,
      Assert Kassert (Head FreeLists [] 2),
      Assert Kassert (Head FreeLists [Nxt] 4),
      Assert Kassert (Head FreeLists [Prv] 4),
      Assert Kassert (Head FullLists [] 1),
      Assert Kassert (Head FullLists [Nxt] 3),
      Assert Kassert (Head FullLists [Prv] 3),
      Assert Kassert (No_head PartialLists),
      Next_free nextfree 2,
      Buf_allocate (Some allocd),
      Assert Kassert (Same allocd nextfree),
      Assert Kassert (Head FreeLists [] 4),
      Assert Kassert (Head FreeLists [Nxt] 4),
      Assert Kassert (Head FreeLists [Prv] 4),
      Assert Kassert (Head FullLists [] 1),
      Assert Kassert (Head FullLists [Nxt] 3),
      Assert Kassert (Head FullLists [Nxt, Nxt] 2),
      Assert Kassert (Head FullLists [Prv] 2),
      Assert Kassert (Head FullLists [Prv, Prv] 3),
      Assert Kassert (No_head PartialLists)])"

lemmas kernel_scripts = Discriminate_PartialHead_def Discriminate_PartialEntry1_def Discriminate_PartialEntry2_def Discriminate_FullHead_def Discriminate_FullEntry1_def Discriminate_FullEntry2_def MoveToFreeEmpty_FullHead_def MoveToFreeEmpty_FullEntry_def MoveToFree_PartialEntry_def MoveToFree_FullHead_def MoveToFree_FullEntry_def Page_Discriminate_FullEntry1_def Page_Discriminate_FullEntry2_def Page_MoveToFreeEmpty_FullHead_def Page_MoveToFreeEmpty_FullEntry_def Page_MoveToFree_FullHead_def Page_MoveToFree_FullEntry_def Page_Allocate1_def Page_Allocate2_def

definition kernel_tests :: "(nat \<times> u16 \<times> command list) list" where
  "kernel_tests =
     [Discriminate_PartialHead,
      Discriminate_PartialEntry1,
      Discriminate_PartialEntry2,
      Discriminate_FullHead,
      Discriminate_FullEntry1,
      Discriminate_FullEntry2,
      MoveToFreeEmpty_FullHead,
      MoveToFreeEmpty_FullEntry,
      MoveToFree_PartialEntry,
      MoveToFree_FullHead,
      MoveToFree_FullEntry,
      Page_Discriminate_FullEntry1,
      Page_Discriminate_FullEntry2,
      Page_MoveToFreeEmpty_FullHead,
      Page_MoveToFreeEmpty_FullEntry,
      Page_MoveToFree_FullHead,
      Page_MoveToFree_FullEntry,
      Page_Allocate1,
      Page_Allocate2]"

lemma kernel_tests_accepted: "list_all (\<lambda>test. fst test \<le> 6 \<and> accepted test) kernel_tests"
  by (simp add: kernel_tests_def plan_simps kernel_scripts)

text \<open>
  C37. The tests of the kernel that return objects to a slab buffer, run on the model: wherever the slabs, their pages and the
  buffer lie, none fails an assertion, dereferences null or searches without end.  They cover objects of 8 and 10 bytes
  and of a whole page, returned to the head and to an inner slab of the partial and of the full list.
\<close>

theorem slab_kernel_tests_pass:
  assumes "objects_at 6 desc page"
  shows "list_all (\<lambda>test. passes (kernel_test page desc buf test) s) kernel_tests"
  using kernel_tests_accepted accepted_passes(1) objects_at_le [OF assms] unfolding list_all_iff by blast

theorem slab_kernel_tests_pass_witness:
  "\<forall>s. list_all (\<lambda>test. passes (kernel_test (\<lambda>i. 0x54000 + 0x1000 * of_nat i) (\<lambda>i. 0x8000 + 0x100 * of_nat i) 0x8600 test) s)
     kernel_tests"
proof -
  have "objects_at 6 (\<lambda>i. 0x8000 + 0x100 * of_nat i) (\<lambda>i. 0x54000 + 0x1000 * of_nat i)"
    by (simp add: objects_at_def page_at_def upt_one_conv)
  from slab_kernel_tests_pass [OF this] show ?thesis by blast
qed

end
