(* ===== verification/Bit_Fields.thy ===== *)
theory Bit_Fields
  imports Kernel_Prelude
begin

text \<open>
  Bit-level reasoning for the register and descriptor formats of the kernel.  Goals are equalities of words
  built with the bitwise operations; \<open>word64_bits_eq\<close> and its siblings reduce them to single bits and the rules
  collected in \<open>bit_rules\<close> evaluate those.
\<close>

named_theorems bit_rules

lemmas [bit_rules] = bit_and_iff bit_or_iff bit_xor_iff bit_not_iff bit_push_bit_iff bit_drop_bit_eq
  bit_mask_iff bit_ucast_iff bit_unsigned_iff

text \<open>Unrolled quantifiers: equality of words of the machine widths, bit by bit.\<close>

lemma all_bits_8:
  "(\<forall>n<8::nat. P n) \<longleftrightarrow>
     P 7 \<and> P 6 \<and> P 5 \<and> P 4 \<and> P 3 \<and> P 2 \<and> P 1 \<and> P 0"
  by (simp add: All_less_Suc eval_nat_numeral)

lemma all_bits_16:
  "(\<forall>n<16::nat. P n) \<longleftrightarrow>
     P 15 \<and> P 14 \<and> P 13 \<and> P 12 \<and> P 11 \<and> P 10 \<and> P 9 \<and> P 8 \<and> P 7 \<and> P 6 \<and>
     P 5 \<and> P 4 \<and> P 3 \<and> P 2 \<and> P 1 \<and> P 0"
  by (simp add: All_less_Suc eval_nat_numeral)

lemma all_bits_32:
  "(\<forall>n<32::nat. P n) \<longleftrightarrow>
     P 31 \<and> P 30 \<and> P 29 \<and> P 28 \<and> P 27 \<and> P 26 \<and> P 25 \<and> P 24 \<and> P 23 \<and> P 22 \<and>
     P 21 \<and> P 20 \<and> P 19 \<and> P 18 \<and> P 17 \<and> P 16 \<and> P 15 \<and> P 14 \<and> P 13 \<and> P 12 \<and>
     P 11 \<and> P 10 \<and> P 9 \<and> P 8 \<and> P 7 \<and> P 6 \<and> P 5 \<and> P 4 \<and> P 3 \<and> P 2 \<and>
     P 1 \<and> P 0"
  by (simp add: All_less_Suc eval_nat_numeral)

lemma all_bits_64:
  "(\<forall>n<64::nat. P n) \<longleftrightarrow>
     P 63 \<and> P 62 \<and> P 61 \<and> P 60 \<and> P 59 \<and> P 58 \<and> P 57 \<and> P 56 \<and> P 55 \<and> P 54 \<and>
     P 53 \<and> P 52 \<and> P 51 \<and> P 50 \<and> P 49 \<and> P 48 \<and> P 47 \<and> P 46 \<and> P 45 \<and> P 44 \<and>
     P 43 \<and> P 42 \<and> P 41 \<and> P 40 \<and> P 39 \<and> P 38 \<and> P 37 \<and> P 36 \<and> P 35 \<and> P 34 \<and>
     P 33 \<and> P 32 \<and> P 31 \<and> P 30 \<and> P 29 \<and> P 28 \<and> P 27 \<and> P 26 \<and> P 25 \<and> P 24 \<and>
     P 23 \<and> P 22 \<and> P 21 \<and> P 20 \<and> P 19 \<and> P 18 \<and> P 17 \<and> P 16 \<and> P 15 \<and> P 14 \<and>
     P 13 \<and> P 12 \<and> P 11 \<and> P 10 \<and> P 9 \<and> P 8 \<and> P 7 \<and> P 6 \<and> P 5 \<and> P 4 \<and>
     P 3 \<and> P 2 \<and> P 1 \<and> P 0"
  by (simp add: All_less_Suc eval_nat_numeral)

lemma word8_bits_eq:
  "(a :: 8 word) = b \<longleftrightarrow>
     bit a 7 = bit b 7 \<and> bit a 6 = bit b 6 \<and> bit a 5 = bit b 5 \<and> bit a 4 = bit b 4 \<and>
     bit a 3 = bit b 3 \<and> bit a 2 = bit b 2 \<and> bit a 1 = bit b 1 \<and> bit a 0 = bit b 0"
  unfolding all_bits_8 [symmetric, of "\<lambda>n. bit a n = bit b n"] by (auto intro: bit_word_eqI)

lemma word16_bits_eq:
  "(a :: 16 word) = b \<longleftrightarrow>
     bit a 15 = bit b 15 \<and> bit a 14 = bit b 14 \<and> bit a 13 = bit b 13 \<and> bit a 12 = bit b 12 \<and>
     bit a 11 = bit b 11 \<and> bit a 10 = bit b 10 \<and> bit a 9 = bit b 9 \<and> bit a 8 = bit b 8 \<and>
     bit a 7 = bit b 7 \<and> bit a 6 = bit b 6 \<and> bit a 5 = bit b 5 \<and> bit a 4 = bit b 4 \<and>
     bit a 3 = bit b 3 \<and> bit a 2 = bit b 2 \<and> bit a 1 = bit b 1 \<and> bit a 0 = bit b 0"
  unfolding all_bits_16 [symmetric, of "\<lambda>n. bit a n = bit b n"] by (auto intro: bit_word_eqI)

lemma word32_bits_eq:
  "(a :: 32 word) = b \<longleftrightarrow>
     bit a 31 = bit b 31 \<and> bit a 30 = bit b 30 \<and> bit a 29 = bit b 29 \<and> bit a 28 = bit b 28 \<and>
     bit a 27 = bit b 27 \<and> bit a 26 = bit b 26 \<and> bit a 25 = bit b 25 \<and> bit a 24 = bit b 24 \<and>
     bit a 23 = bit b 23 \<and> bit a 22 = bit b 22 \<and> bit a 21 = bit b 21 \<and> bit a 20 = bit b 20 \<and>
     bit a 19 = bit b 19 \<and> bit a 18 = bit b 18 \<and> bit a 17 = bit b 17 \<and> bit a 16 = bit b 16 \<and>
     bit a 15 = bit b 15 \<and> bit a 14 = bit b 14 \<and> bit a 13 = bit b 13 \<and> bit a 12 = bit b 12 \<and>
     bit a 11 = bit b 11 \<and> bit a 10 = bit b 10 \<and> bit a 9 = bit b 9 \<and> bit a 8 = bit b 8 \<and>
     bit a 7 = bit b 7 \<and> bit a 6 = bit b 6 \<and> bit a 5 = bit b 5 \<and> bit a 4 = bit b 4 \<and>
     bit a 3 = bit b 3 \<and> bit a 2 = bit b 2 \<and> bit a 1 = bit b 1 \<and> bit a 0 = bit b 0"
  unfolding all_bits_32 [symmetric, of "\<lambda>n. bit a n = bit b n"] by (auto intro: bit_word_eqI)

lemma word64_bits_eq:
  "(a :: 64 word) = b \<longleftrightarrow>
     bit a 63 = bit b 63 \<and> bit a 62 = bit b 62 \<and> bit a 61 = bit b 61 \<and> bit a 60 = bit b 60 \<and>
     bit a 59 = bit b 59 \<and> bit a 58 = bit b 58 \<and> bit a 57 = bit b 57 \<and> bit a 56 = bit b 56 \<and>
     bit a 55 = bit b 55 \<and> bit a 54 = bit b 54 \<and> bit a 53 = bit b 53 \<and> bit a 52 = bit b 52 \<and>
     bit a 51 = bit b 51 \<and> bit a 50 = bit b 50 \<and> bit a 49 = bit b 49 \<and> bit a 48 = bit b 48 \<and>
     bit a 47 = bit b 47 \<and> bit a 46 = bit b 46 \<and> bit a 45 = bit b 45 \<and> bit a 44 = bit b 44 \<and>
     bit a 43 = bit b 43 \<and> bit a 42 = bit b 42 \<and> bit a 41 = bit b 41 \<and> bit a 40 = bit b 40 \<and>
     bit a 39 = bit b 39 \<and> bit a 38 = bit b 38 \<and> bit a 37 = bit b 37 \<and> bit a 36 = bit b 36 \<and>
     bit a 35 = bit b 35 \<and> bit a 34 = bit b 34 \<and> bit a 33 = bit b 33 \<and> bit a 32 = bit b 32 \<and>
     bit a 31 = bit b 31 \<and> bit a 30 = bit b 30 \<and> bit a 29 = bit b 29 \<and> bit a 28 = bit b 28 \<and>
     bit a 27 = bit b 27 \<and> bit a 26 = bit b 26 \<and> bit a 25 = bit b 25 \<and> bit a 24 = bit b 24 \<and>
     bit a 23 = bit b 23 \<and> bit a 22 = bit b 22 \<and> bit a 21 = bit b 21 \<and> bit a 20 = bit b 20 \<and>
     bit a 19 = bit b 19 \<and> bit a 18 = bit b 18 \<and> bit a 17 = bit b 17 \<and> bit a 16 = bit b 16 \<and>
     bit a 15 = bit b 15 \<and> bit a 14 = bit b 14 \<and> bit a 13 = bit b 13 \<and> bit a 12 = bit b 12 \<and>
     bit a 11 = bit b 11 \<and> bit a 10 = bit b 10 \<and> bit a 9 = bit b 9 \<and> bit a 8 = bit b 8 \<and>
     bit a 7 = bit b 7 \<and> bit a 6 = bit b 6 \<and> bit a 5 = bit b 5 \<and> bit a 4 = bit b 4 \<and>
     bit a 3 = bit b 3 \<and> bit a 2 = bit b 2 \<and> bit a 1 = bit b 1 \<and> bit a 0 = bit b 0"
  unfolding all_bits_64 [symmetric, of "\<lambda>n. bit a n = bit b n"] by (auto intro: bit_word_eqI)

lemmas word64_eqI = word64_bits_eq [THEN iffD2]
lemmas word32_eqI = word32_bits_eq [THEN iffD2]
lemmas word16_eqI = word16_bits_eq [THEN iffD2]
lemmas word8_eqI = word8_bits_eq [THEN iffD2]

text \<open>A test of a single bit.\<close>

lemma and_exp_ne_0: "w AND 2 ^ n \<noteq> 0 \<longleftrightarrow> bit w n" for w :: "'a::len word"
proof
  assume "w AND 2 ^ n \<noteq> 0"
  then obtain m where "bit (w AND 2 ^ n) m" by (metis bit_0_eq bit_eq_iff bot_apply bot_bool_def)
  then show "bit w n" by (auto simp: bit_and_iff bit_exp_iff)
next
  assume b: "bit w n"
  then have "n < LENGTH('a)" by (rule bit_imp_le_length)
  with b have "bit (w AND 2 ^ n) n" by (simp add: bit_and_iff bit_exp_iff)
  then show "w AND 2 ^ n \<noteq> 0" by auto
qed

lemma and_exp_eq_0: "w AND 2 ^ n = 0 \<longleftrightarrow> \<not> bit w n" for w :: "'a::len word"
  using and_exp_ne_0 [of w n] by blast

lemma bit_test:
  "w AND 0x1 = 0 \<longleftrightarrow> \<not> bit w 0"
  "w AND 0x2 = 0 \<longleftrightarrow> \<not> bit w 1"
  "w AND 0x4 = 0 \<longleftrightarrow> \<not> bit w 2" "w AND 0x8 = 0 \<longleftrightarrow> \<not> bit w 3"
  "w AND 0x10 = 0 \<longleftrightarrow> \<not> bit w 4" "w AND 0x20 = 0 \<longleftrightarrow> \<not> bit w 5"
  "w AND 0x40 = 0 \<longleftrightarrow> \<not> bit w 6" "w AND 0x80 = 0 \<longleftrightarrow> \<not> bit w 7"
  "w AND 0x100 = 0 \<longleftrightarrow> \<not> bit w 8" "w AND 0x200 = 0 \<longleftrightarrow> \<not> bit w 9"
  "w AND 0x400 = 0 \<longleftrightarrow> \<not> bit w 10" "w AND 0x800 = 0 \<longleftrightarrow> \<not> bit w 11"
  "w AND 0x1000 = 0 \<longleftrightarrow> \<not> bit w 12" "w AND 0x2000 = 0 \<longleftrightarrow> \<not> bit w 13"
  "w AND 0x4000 = 0 \<longleftrightarrow> \<not> bit w 14" "w AND 0x8000 = 0 \<longleftrightarrow> \<not> bit w 15"
  "w AND 0x10000 = 0 \<longleftrightarrow> \<not> bit w 16" "w AND 0x100000 = 0 \<longleftrightarrow> \<not> bit w 20"
  "w AND 0x80000000 = 0 \<longleftrightarrow> \<not> bit w 31"
  for w :: "'a::len word"
  using and_exp_eq_0 [of w 0] and_exp_eq_0 [of w 1] and_exp_eq_0 [of w 2]
     and_exp_eq_0 [of w 3] and_exp_eq_0 [of w 4] and_exp_eq_0 [of w 5]
     and_exp_eq_0 [of w 6] and_exp_eq_0 [of w 7] and_exp_eq_0 [of w 8]
     and_exp_eq_0 [of w 9] and_exp_eq_0 [of w 10] and_exp_eq_0 [of w 11]
     and_exp_eq_0 [of w 12] and_exp_eq_0 [of w 13] and_exp_eq_0 [of w 14]
     and_exp_eq_0 [of w 15] and_exp_eq_0 [of w 16] and_exp_eq_0 [of w 20]
     and_exp_eq_0 [of w 31]
  by simp_all

text \<open>A bound on a word clears its upper bits.\<close>

lemma unat_less_no_bit:
  fixes w :: "'a::len word"
  assumes "unat w < 2 ^ n" "n \<le> k"
  shows "\<not> bit w k"
proof -
  have "(2 :: nat) ^ n \<le> 2 ^ k" using assms(2) by simp
  then have "unat w < 2 ^ k" using assms(1) by linarith
  then have "unat w div 2 ^ k = 0" by (rule div_less)
  then have "\<not> bit (unat w) k" by (simp add: bit_iff_odd)
  then show ?thesis by (simp add: bit_unsigned_iff)
qed

text \<open>Writing one bit of a 64-bit register or entry.\<close>

definition put_flag :: "nat \<Rightarrow> bool \<Rightarrow> u64 \<Rightarrow> u64" where
  "put_flag n b e = (if b then e OR 2 ^ n else e AND NOT (2 ^ n))"

lemma bit_put_flag: "bit (put_flag n b e) m \<longleftrightarrow> (if m = n \<and> n < 64 then b else bit e m)"
  by (auto simp: put_flag_def bit_rules bit_exp_iff dest: bit_imp_le_length)

lemma put_flag_laws:
  assumes "n < 64"
  shows "bit (put_flag n b e) n = b" "put_flag n (bit e n) e = e"
    "put_flag n b (put_flag n c e) = put_flag n b e"
    "\<not> bit m n \<Longrightarrow> put_flag n b e AND m = e AND m"
proof -
  show "bit (put_flag n b e) n = b" using assms by (simp add: bit_put_flag)
  show "put_flag n (bit e n) e = e" by (rule bit_word_eqI) (simp add: bit_put_flag)
  show "put_flag n b (put_flag n c e) = put_flag n b e" by (rule bit_word_eqI) (simp add: bit_put_flag)
  show "put_flag n b e AND m = e AND m" if "\<not> bit m n"
    by (rule bit_word_eqI) (use that in \<open>auto simp: bit_put_flag bit_and_iff split: if_splits\<close>)
qed

end
