(* ===== verification/Segments.thy ===== *)
theory Segments
  imports Bit_Fields
begin

text \<open>
  Segmentation (\<open>kernel/src/x86_64/segments\<close>): segment and task descriptors as packed bytes, the descriptor
  table, its register image and the flat layout the segment manager builds.  A descriptor that a constructor
  leaves partly uninitialised is a parameter.
\<close>

section \<open>Attributes\<close>

record BaseLimit =
  bl_base :: addr
  bl_limit :: u32

record AccessByte =
  ab_present :: bool
  ab_privilaged :: bool
  ab_isSystemSegment :: bool
  ab_type :: u8

record SegFlags =
  fl_isByteGranular :: bool
  fl_db :: bool
  fl_longModeSegment :: bool
  fl_avl :: bool

record TaskAttributes =
  ta_isByteGranular :: bool
  ta_avl :: bool
  ta_present :: bool
  ta_privilaged :: bool
  ta_busy :: bool

definition AccessByte_Null :: AccessByte where
  "AccessByte_Null = \<lparr>ab_present = False, ab_privilaged = True, ab_isSystemSegment = True, ab_type = 0\<rparr>"

definition Flags_Null :: SegFlags where
  "Flags_Null = \<lparr>fl_isByteGranular = True, fl_db = False, fl_longModeSegment = False, fl_avl = False\<rparr>"

section \<open>Segment descriptors\<close>

record SegmentDescriptor =
  sd_limit0 :: u16
  sd_base0 :: u16
  sd_base1 :: u8
  sd_accessbyte :: u8
  sd_flags_limit1 :: u8
  sd_base2 :: u8

definition SetBaseAddress :: "addr \<Rightarrow> SegmentDescriptor \<Rightarrow> SegmentDescriptor" where
  "SetBaseAddress vaddr d =
     d\<lparr>sd_base0 := ucast (vaddr AND 0xFFFF),
       sd_base1 := ucast (drop_bit 0x10 (vaddr AND push_bit 0x10 0xFF)),
       sd_base2 := ucast (drop_bit 0x18 (vaddr AND push_bit 0x18 0xFF))\<rparr>"

definition SetSegmentLimit :: "u32 \<Rightarrow> SegmentDescriptor \<Rightarrow> SegmentDescriptor result" where
  "SetSegmentLimit limit d =
     rbind (rassert (limit \<le> 0xFFFFF)) (\<lambda>_.
       Inr (d\<lparr>sd_limit0 := ucast (limit AND 0xFFFF),
              sd_flags_limit1 := (sd_flags_limit1 d AND 0xF0) OR ucast (drop_bit 16 (limit AND 0xF0000))\<rparr>))"

definition SetBaseLimit :: "BaseLimit \<Rightarrow> SegmentDescriptor \<Rightarrow> SegmentDescriptor result" where
  "SetBaseLimit bl d = SetSegmentLimit (bl_limit bl) (SetBaseAddress (bl_base bl) d)"

definition SetAccessByte :: "AccessByte \<Rightarrow> SegmentDescriptor \<Rightarrow> SegmentDescriptor" where
  "SetAccessByte a d =
     (let buffer = (if ab_present a then 1 else 0);
          buffer = push_bit 2 buffer;
          buffer = buffer OR (if ab_privilaged a then 0 else 3);
          buffer = push_bit 1 buffer;
          buffer = buffer OR (if ab_isSystemSegment a then 0 else 1);
          buffer = push_bit 4 buffer;
          buffer = buffer OR (ab_type a AND 0x0F)
      in d\<lparr>sd_accessbyte := buffer\<rparr>)"

definition SetFlags :: "SegFlags \<Rightarrow> SegmentDescriptor \<Rightarrow> SegmentDescriptor" where
  "SetFlags f d =
     (let flagbyte = (if fl_isByteGranular f then 0 else 1);
          flagbyte = push_bit 1 flagbyte OR (if fl_db f then 1 else 0);
          flagbyte = push_bit 1 flagbyte OR (if fl_longModeSegment f then 1 else 0);
          flagbyte = push_bit 1 flagbyte OR (if fl_avl f then 1 else 0)
      in d\<lparr>sd_flags_limit1 := (sd_flags_limit1 d AND 0x0F) OR push_bit 4 flagbyte\<rparr>)"

definition new_SegmentDescriptor_raw :: "SegmentDescriptor \<Rightarrow> addr \<Rightarrow> u16 \<Rightarrow> u8 \<Rightarrow> u8 \<Rightarrow> SegmentDescriptor" where
  "new_SegmentDescriptor_raw uninit baseAddress limit0 accessByte flagsLimit1 =
     SetBaseAddress baseAddress
       (uninit\<lparr>sd_limit0 := limit0, sd_accessbyte := accessByte, sd_flags_limit1 := flagsLimit1\<rparr>)"

definition new_SegmentDescriptor ::
    "SegmentDescriptor \<Rightarrow> BaseLimit \<Rightarrow> AccessByte \<Rightarrow> SegFlags \<Rightarrow> SegmentDescriptor result" where
  "new_SegmentDescriptor uninit bl a f =
     rbind (SetBaseLimit bl uninit) (\<lambda>d. Inr (SetFlags f (SetAccessByte a d)))"

subsection \<open>Queries\<close>

definition SegmentLimit :: "SegmentDescriptor \<Rightarrow> u32" where
  "SegmentLimit d = push_bit 16 (ucast (sd_flags_limit1 d AND 0x0F)) OR ucast (sd_limit0 d)"

definition sd_BaseAddress :: "SegmentDescriptor \<Rightarrow> u32" where
  "sd_BaseAddress d =
     push_bit 16 (push_bit 8 (ucast (sd_base2 d)) OR ucast (sd_base1 d)) OR ucast (sd_base0 d)"

definition sd_IsPresent :: "SegmentDescriptor \<Rightarrow> bool" where
  "sd_IsPresent d \<longleftrightarrow> sd_accessbyte d AND 0x80 \<noteq> 0"

text \<open>The access byte is promoted to \<open>int\<close> before the shift.\<close>

definition sd_IsPrivilaged :: "SegmentDescriptor \<Rightarrow> bool" where
  "sd_IsPrivilaged d \<longleftrightarrow> (ucast (drop_bit 8 (ucast (sd_accessbyte d) AND 0x70 :: u32)) :: u8) = 0"

definition IsSystemSegment :: "SegmentDescriptor \<Rightarrow> bool" where
  "IsSystemSegment d \<longleftrightarrow> \<not> (sd_accessbyte d AND 0x10 \<noteq> 0)"

definition IsDataSegment :: "SegmentDescriptor \<Rightarrow> bool" where
  "IsDataSegment d \<longleftrightarrow> (if IsSystemSegment d then False else \<not> (sd_accessbyte d AND 0x08 \<noteq> 0))"

definition IsCodeSegment :: "SegmentDescriptor \<Rightarrow> bool" where
  "IsCodeSegment d \<longleftrightarrow> (if IsSystemSegment d then False else sd_accessbyte d AND 0x08 \<noteq> 0)"

definition sd_Type :: "SegmentDescriptor \<Rightarrow> u8" where
  "sd_Type d = sd_accessbyte d AND 0xF"

definition IsByteGranular :: "SegmentDescriptor \<Rightarrow> bool" where
  "IsByteGranular d \<longleftrightarrow> \<not> (sd_flags_limit1 d AND 0x80 \<noteq> 0)"

definition IsDB :: "SegmentDescriptor \<Rightarrow> bool" where
  "IsDB d \<longleftrightarrow> sd_flags_limit1 d AND 0x40 \<noteq> 0"

definition IsLongCodeSegment :: "SegmentDescriptor \<Rightarrow> bool" where
  "IsLongCodeSegment d \<longleftrightarrow> sd_flags_limit1 d AND 0x20 \<noteq> 0"

section \<open>Task descriptors\<close>

record TaskDescriptor =
  td_segdesc :: SegmentDescriptor
  td_base3 :: u32
  td_reserved0 :: u8
  td_res1_zeros :: u8
  td_res2 :: u16

definition SetUpperBaseAddress :: "addr \<Rightarrow> TaskDescriptor \<Rightarrow> TaskDescriptor" where
  "SetUpperBaseAddress base d = d\<lparr>td_base3 := ucast (drop_bit 32 (base AND push_bit 32 0xFFFFFFFF))\<rparr>"

definition SetAttributes :: "TaskAttributes \<Rightarrow> TaskDescriptor \<Rightarrow> TaskDescriptor" where
  "SetAttributes t d =
     d\<lparr>td_segdesc :=
         SetAccessByte \<lparr>ab_present = ta_present t, ab_privilaged = ta_privilaged t,
                        ab_isSystemSegment = True, ab_type = (if ta_busy t then 0xb else 0x9)\<rparr>
           (SetFlags \<lparr>fl_isByteGranular = ta_isByteGranular t, fl_db = False,
                       fl_longModeSegment = False, fl_avl = False\<rparr> (td_segdesc d))\<rparr>"

definition SetReserved :: "TaskDescriptor \<Rightarrow> TaskDescriptor" where
  "SetReserved d = d\<lparr>td_reserved0 := 0, td_res1_zeros := 0, td_res2 := 0\<rparr>"

definition new_TaskDescriptor :: "TaskDescriptor \<Rightarrow> BaseLimit \<Rightarrow> TaskAttributes \<Rightarrow> TaskDescriptor result" where
  "new_TaskDescriptor uninit bl t =
     rbind (SetSegmentLimit (bl_limit bl) (SetBaseAddress (bl_base bl AND 0xFFFFFFFF) (td_segdesc uninit)))
       (\<lambda>d. Inr (SetReserved (SetUpperBaseAddress (bl_base bl) (SetAttributes t (uninit\<lparr>td_segdesc := d\<rparr>)))))"

definition td_BaseAddress :: "TaskDescriptor \<Rightarrow> u64" where
  "td_BaseAddress d = push_bit 32 (ucast (td_base3 d)) OR ucast (sd_BaseAddress (td_segdesc d))"

definition IsBusy :: "TaskDescriptor \<Rightarrow> bool" where
  "IsBusy d \<longleftrightarrow> sd_Type (td_segdesc d) AND 0x2 \<noteq> 0"

definition td_SegmentLimit :: "TaskDescriptor \<Rightarrow> u32" where
  "td_SegmentLimit d = SegmentLimit (td_segdesc d)"

definition td_Type :: "TaskDescriptor \<Rightarrow> u8" where
  "td_Type d = sd_Type (td_segdesc d)"

definition td_IsPresent :: "TaskDescriptor \<Rightarrow> bool" where
  "td_IsPresent d = sd_IsPresent (td_segdesc d)"

definition td_IsPrivilaged :: "TaskDescriptor \<Rightarrow> bool" where
  "td_IsPrivilaged d = sd_IsPrivilaged (td_segdesc d)"

definition td_IsByteGranular :: "TaskDescriptor \<Rightarrow> bool" where
  "td_IsByteGranular d = IsByteGranular (td_segdesc d)"

text \<open>The constructor from a base and a limit checks its own work; it masks the limit with \<open>0xFF\<close>.\<close>

definition new_TaskDescriptor_raw :: "TaskDescriptor \<Rightarrow> addr \<Rightarrow> u32 \<Rightarrow> TaskDescriptor result" where
  "new_TaskDescriptor_raw uninit baseAddress limit =
     (let d = uninit\<lparr>td_segdesc := new_SegmentDescriptor_raw (td_segdesc uninit) baseAddress
                (ucast (limit AND 0xFF)) 0x89 (ucast (drop_bit 0x10 (limit AND push_bit 0x10 0xF)))\<rparr>
      in rbind (rassert (td_SegmentLimit d = limit)) (\<lambda>_.
         rbind (rassert (td_BaseAddress d = baseAddress)) (\<lambda>_.
         rbind (rassert (td_Type d = 0x9 \<and> td_IsPresent d \<and> td_IsPrivilaged d \<and>
                         td_IsByteGranular d \<and> \<not> IsBusy d)) (\<lambda>_.
         rbind (rassert (td_reserved0 d = 0 \<and> td_res1_zeros d = 0 \<and> td_res2 d = 0)) (\<lambda>_. Inr d)))))"

section \<open>The task segment\<close>

record TaskSegment =
  ts_rsp_table :: "u64 list"
  ts_ist_table :: "u64 list"
  ts_iopbm :: u16

definition Rsp :: "TaskSegment \<Rightarrow> u8 \<Rightarrow> u64 result" where
  "Rsp t index = rbind (rassert (index < 3)) (\<lambda>_. Inr (ts_rsp_table t ! unat index))"

definition Ist :: "TaskSegment \<Rightarrow> u8 \<Rightarrow> u64 result" where
  "Ist t index = rbind (rassert (index < 7)) (\<lambda>_. Inr (ts_ist_table t ! unat index))"

definition IOBitmap :: "TaskSegment \<Rightarrow> u16" where
  "IOBitmap t = ts_iopbm t"

definition sizeof_TaskSegment :: u32 where
  "sizeof_TaskSegment = 104"

section \<open>The table, its register and the flat layout\<close>

record GdtTable =
  gt_null :: SegmentDescriptor
  gt_kernelCode :: SegmentDescriptor
  gt_kernelData :: SegmentDescriptor
  gt_userCode :: SegmentDescriptor
  gt_userData :: SegmentDescriptor
  gt_task :: TaskDescriptor

text \<open>The packed table is five 8-byte descriptors and one 16-byte one.\<close>

definition Gdt_Size :: u64 where
  "Gdt_Size = 5 * 8 + 16"

record GdtDescriptor =
  gd_limit :: u16
  gd_offset :: u64

definition SwitchGdt :: "addr \<Rightarrow> GdtDescriptor \<Rightarrow> GdtDescriptor" where
  "SwitchGdt gdtTable d = d\<lparr>gd_limit := ucast Gdt_Size, gd_offset := gdtTable\<rparr>"

definition flat :: "u32 \<Rightarrow> BaseLimit" where
  "flat limit = \<lparr>bl_base = 0, bl_limit = limit\<rparr>"

definition segment_manager_gdt ::
    "GdtTable \<Rightarrow> addr \<Rightarrow> GdtTable result" where
  "segment_manager_gdt uninit taskSegment =
     rbind (new_SegmentDescriptor (gt_null uninit) (flat 0) AccessByte_Null Flags_Null) (\<lambda>nullsegment.
     rbind (new_SegmentDescriptor (gt_kernelCode uninit) (flat 0xFFFFF)
        \<lparr>ab_present = True, ab_privilaged = True, ab_isSystemSegment = False, ab_type = 0xA\<rparr>
        \<lparr>fl_isByteGranular = False, fl_db = False, fl_longModeSegment = True, fl_avl = False\<rparr>) (\<lambda>kernelCode.
     rbind (new_SegmentDescriptor (gt_kernelData uninit) (flat 0xFFFFF)
        \<lparr>ab_present = True, ab_privilaged = True, ab_isSystemSegment = False, ab_type = 0x2\<rparr>
        \<lparr>fl_isByteGranular = False, fl_db = True, fl_longModeSegment = False, fl_avl = False\<rparr>) (\<lambda>kernelData.
     rbind (new_SegmentDescriptor (gt_userCode uninit) (flat 0xFFFFF)
        \<lparr>ab_present = True, ab_privilaged = False, ab_isSystemSegment = False, ab_type = 0xA\<rparr>
        \<lparr>fl_isByteGranular = False, fl_db = False, fl_longModeSegment = True, fl_avl = False\<rparr>) (\<lambda>userCode.
     rbind (new_SegmentDescriptor (gt_userData uninit) (flat 0xFFFFF)
        \<lparr>ab_present = True, ab_privilaged = False, ab_isSystemSegment = False, ab_type = 0x2\<rparr>
        \<lparr>fl_isByteGranular = False, fl_db = True, fl_longModeSegment = False, fl_avl = False\<rparr>) (\<lambda>userData.
     rbind (new_TaskDescriptor (gt_task uninit) \<lparr>bl_base = taskSegment, bl_limit = sizeof_TaskSegment - 1\<rparr>
        \<lparr>ta_isByteGranular = False, ta_avl = False, ta_present = True, ta_privilaged = True, ta_busy = False\<rparr>)
     (\<lambda>taskDesc.
       Inr \<lparr>gt_null = nullsegment, gt_kernelCode = kernelCode, gt_kernelData = kernelData,
            gt_userCode = userCode, gt_userData = userData, gt_task = taskDesc\<rparr>))))))"

section \<open>Properties\<close>

text \<open>
  A descriptor constructed from a base, a limit of at most 20 bits, an access byte and flags reads back
  exactly what it was given, whatever the uninitialised bytes were: the low 32 bits of the base, the
  limit, the present bit, the system/code/data kind with the low four type bits, and the flags.
\<close>

theorem SegmentDescriptor_roundtrip:
  assumes "bl_limit bl \<le> 0xFFFFF"
  shows "\<exists>d. new_SegmentDescriptor uninit bl a f = Inr d \<and>
           sd_BaseAddress d = ucast (bl_base bl) \<and> SegmentLimit d = bl_limit bl \<and>
           sd_IsPresent d = ab_present a \<and> IsSystemSegment d = ab_isSystemSegment a \<and>
           sd_Type d = ab_type a AND 0xF \<and>
           (IsCodeSegment d \<longleftrightarrow> \<not> ab_isSystemSegment a \<and> bit (ab_type a) 3) \<and>
           (IsDataSegment d \<longleftrightarrow> \<not> ab_isSystemSegment a \<and> \<not> bit (ab_type a) 3) \<and>
           IsByteGranular d = fl_isByteGranular f \<and> IsDB d = fl_db f \<and>
           IsLongCodeSegment d = fl_longModeSegment f"
proof -
  have lim: "\<not> bit (bl_limit bl) n" if "20 \<le> n" for n
    by (rule unat_less_no_bit [where n = 20]) (use assms that in \<open>simp_all add: word_le_nat_alt\<close>)
  define d where "d = SetFlags f (SetAccessByte a ((SetBaseAddress (bl_base bl) uninit)
      \<lparr>sd_limit0 := ucast (bl_limit bl AND 0xFFFF),
       sd_flags_limit1 := (sd_flags_limit1 uninit AND 0xF0) OR ucast (drop_bit 16 (bl_limit bl AND 0xF0000))\<rparr>))"
  have run: "new_SegmentDescriptor uninit bl a f = Inr d"
    using assms by (simp add: new_SegmentDescriptor_def SetBaseLimit_def SetSegmentLimit_def d_def
        SetBaseAddress_def)
  note defs = d_def SetFlags_def SetAccessByte_def SetBaseAddress_def Let_def bit_rules bit_test
  have "sd_BaseAddress d = ucast (bl_base bl)"
    by (simp add: word32_bits_eq sd_BaseAddress_def defs)
  moreover have "SegmentLimit d = bl_limit bl"
    by (simp add: word32_bits_eq SegmentLimit_def defs lim)
  moreover have "sd_Type d = ab_type a AND 0xF"
    by (simp add: word8_bits_eq sd_Type_def defs)
  moreover have "sd_IsPresent d = ab_present a" "IsSystemSegment d = ab_isSystemSegment a"
    "IsCodeSegment d \<longleftrightarrow> \<not> ab_isSystemSegment a \<and> bit (ab_type a) 3"
    "IsDataSegment d \<longleftrightarrow> \<not> ab_isSystemSegment a \<and> \<not> bit (ab_type a) 3"
    by (simp_all add: sd_IsPresent_def IsSystemSegment_def IsCodeSegment_def IsDataSegment_def defs)
  moreover have "IsByteGranular d = fl_isByteGranular f" "IsDB d = fl_db f"
    "IsLongCodeSegment d = fl_longModeSegment f"
    by (simp_all add: IsByteGranular_def IsDB_def IsLongCodeSegment_def defs)
  ultimately show ?thesis using run by blast
qed

theorem SegmentDescriptor_roundtrip_witness:
  "\<exists>d. new_SegmentDescriptor \<lparr>sd_limit0 = 0, sd_base0 = 0, sd_base1 = 0, sd_accessbyte = 0,
        sd_flags_limit1 = 0, sd_base2 = 0\<rparr> \<lparr>bl_base = 0x12345678, bl_limit = 0xABCDE\<rparr>
        \<lparr>ab_present = True, ab_privilaged = True, ab_isSystemSegment = False, ab_type = 0xA\<rparr> Flags_Null = Inr d \<and>
     SegmentLimit d = 0xABCDE \<and> IsCodeSegment d"
  by (rule exE [OF SegmentDescriptor_roundtrip [of "\<lparr>bl_base = 0x12345678, bl_limit = 0xABCDE\<rparr>"
        "\<lparr>sd_limit0 = 0, sd_base0 = 0, sd_base1 = 0, sd_accessbyte = 0, sd_flags_limit1 = 0, sd_base2 = 0\<rparr>"
        "\<lparr>ab_present = True, ab_privilaged = True, ab_isSystemSegment = False, ab_type = 0xA\<rparr>" Flags_Null]])
     auto

text \<open>
  \<open>IsPrivilaged\<close> does not look at the privilege level: it shifts the masked access byte by eight, so
  it answers true for every descriptor, including one constructed for user mode.
\<close>

theorem IsPrivilaged_constant: "sd_IsPrivilaged d \<and> td_IsPrivilaged t"
proof -
  have "sd_IsPrivilaged d" for d
    by (simp add: sd_IsPrivilaged_def word8_bits_eq bit_rules)
  then show ?thesis by (simp add: td_IsPrivilaged_def)
qed

text \<open>
  A task descriptor constructed from a 64-bit base, a limit of at most 20 bits and task attributes
  reads back the full base, the limit, the busy, present and granularity attributes, with its
  reserved fields zero.
\<close>

theorem TaskDescriptor_roundtrip:
  assumes "bl_limit bl \<le> 0xFFFFF"
  shows "\<exists>d. new_TaskDescriptor uninit bl t = Inr d \<and> td_BaseAddress d = bl_base bl \<and>
           td_SegmentLimit d = bl_limit bl \<and> IsBusy d = ta_busy t \<and> td_IsPresent d = ta_present t \<and>
           td_IsByteGranular d = ta_isByteGranular t \<and>
           td_reserved0 d = 0 \<and> td_res1_zeros d = 0 \<and> td_res2 d = 0"
proof -
  have lim: "\<not> bit (bl_limit bl) n" if "20 \<le> n" for n
    by (rule unat_less_no_bit [where n = 20]) (use assms that in \<open>simp_all add: word_le_nat_alt\<close>)
  let ?d0 = "SetBaseAddress (bl_base bl AND 0xFFFFFFFF) (td_segdesc uninit)"
  define d where "d = SetReserved (SetUpperBaseAddress (bl_base bl) (SetAttributes t (uninit\<lparr>td_segdesc :=
      ?d0\<lparr>sd_limit0 := ucast (bl_limit bl AND 0xFFFF),
       sd_flags_limit1 := (sd_flags_limit1 ?d0 AND 0xF0) OR ucast (drop_bit 16 (bl_limit bl AND 0xF0000))\<rparr>\<rparr>)))"
  have run: "new_TaskDescriptor uninit bl t = Inr d"
    using assms by (simp add: new_TaskDescriptor_def SetSegmentLimit_def d_def)
  note defs = d_def SetReserved_def SetUpperBaseAddress_def SetAttributes_def SetFlags_def SetAccessByte_def
    SetBaseAddress_def Let_def bit_rules bit_test
  have "td_BaseAddress d = bl_base bl"
    by (simp add: word64_bits_eq td_BaseAddress_def sd_BaseAddress_def defs)
  moreover have "td_SegmentLimit d = bl_limit bl"
    by (simp add: word32_bits_eq td_SegmentLimit_def SegmentLimit_def defs lim)
  moreover have "IsBusy d = ta_busy t" "td_IsPresent d = ta_present t"
    by (simp_all add: IsBusy_def sd_Type_def td_IsPresent_def sd_IsPresent_def defs)
  moreover have "td_IsByteGranular d = ta_isByteGranular t"
    by (simp add: td_IsByteGranular_def IsByteGranular_def defs)
  moreover have "td_reserved0 d = 0" "td_res1_zeros d = 0" "td_res2 d = 0"
    by (simp_all add: d_def SetReserved_def)
  ultimately show ?thesis using run by blast
qed

text \<open>The uninitialised descriptors of a table in zeroed memory.\<close>

definition zero_segment :: SegmentDescriptor where
  "zero_segment = \<lparr>sd_limit0 = 0, sd_base0 = 0, sd_base1 = 0, sd_accessbyte = 0, sd_flags_limit1 = 0, sd_base2 = 0\<rparr>"

definition zero_task :: TaskDescriptor where
  "zero_task = \<lparr>td_segdesc = zero_segment, td_base3 = 0, td_reserved0 = 0, td_res1_zeros = 0, td_res2 = 0\<rparr>"

theorem TaskDescriptor_roundtrip_witness:
  "\<exists>d. new_TaskDescriptor zero_task \<lparr>bl_base = 0xFFFF800000123456, bl_limit = 103\<rparr>
         \<lparr>ta_isByteGranular = False, ta_avl = False, ta_present = True, ta_privilaged = True, ta_busy = False\<rparr>
       = Inr d \<and> td_BaseAddress d = 0xFFFF800000123456"
  by (rule exE [OF TaskDescriptor_roundtrip [of "\<lparr>bl_base = 0xFFFF800000123456, bl_limit = 103\<rparr>" zero_task
        "\<lparr>ta_isByteGranular = False, ta_avl = False, ta_present = True, ta_privilaged = True, ta_busy = False\<rparr>"]])
     auto

text \<open>
  The other constructor of a task descriptor keeps only the low 8 bits of the limit's low half, so its
  own check halts the kernel for every limit with a bit between 8 and 15.
\<close>

theorem TaskDescriptor_raw_limit_lost:
  assumes "limit AND 0xFF00 \<noteq> 0"
  shows "new_TaskDescriptor_raw uninit baseAddress limit = Inl AssertFailed"
proof -
  let ?d = "uninit\<lparr>td_segdesc := new_SegmentDescriptor_raw (td_segdesc uninit) baseAddress
                (ucast (limit AND 0xFF)) 0x89 (ucast (drop_bit 0x10 (limit AND push_bit 0x10 0xF)))\<rparr>"
  have "td_SegmentLimit ?d AND 0xFF00 = 0"
    by (simp add: word32_bits_eq td_SegmentLimit_def SegmentLimit_def new_SegmentDescriptor_raw_def
          SetBaseAddress_def bit_rules)
  then have "td_SegmentLimit ?d \<noteq> limit" using assms by metis
  then show ?thesis by (simp add: new_TaskDescriptor_raw_def rassert_def)
qed

theorem TaskDescriptor_raw_limit_lost_witness:
  "new_TaskDescriptor_raw zero_task 0x1000 0x1FF = Inl AssertFailed"
  by (rule TaskDescriptor_raw_limit_lost) simp

text \<open>
  The segment manager builds the flat layout: its five descriptors have the access and flag bytes that
  the commented encodings give (0x9A/0xAF, 0x92/0xCF, 0xFA/0xAF, 0xF2/0xCF), and the task descriptor spans
  exactly the task segment.
\<close>

theorem segment_manager_layout:
  "\<exists>g. segment_manager_gdt uninit taskSegment = Inr g \<and>
     map (\<lambda>d. (sd_BaseAddress d, sd_limit0 d, sd_accessbyte d, sd_flags_limit1 d))
       [gt_kernelCode g, gt_kernelData g, gt_userCode g, gt_userData g]
     = [(0, 0xFFFF, 0x9A, 0xAF), (0, 0xFFFF, 0x92, 0xCF), (0, 0xFFFF, 0xFA, 0xAF), (0, 0xFFFF, 0xF2, 0xCF)] \<and>
     td_BaseAddress (gt_task g) = taskSegment \<and> td_SegmentLimit (gt_task g) = 103"
proof -
  have lo: "(x AND 0xF0 OR 0xF) AND 0xF = (0xF :: u8)" for x
    by (simp add: word8_bits_eq bit_rules)
  have lo0: "((x AND 0xF0) AND 0xF OR 0x80) AND 0xF = (0 :: u8)" for x
    by (simp add: word8_bits_eq bit_rules)
  have tb: "td_BaseAddress d = taskSegment" if "td_base3 d = ucast (drop_bit 32 (taskSegment AND push_bit 32 0xFFFFFFFF))"
      "sd_base0 (td_segdesc d) = ucast ((taskSegment AND 0xFFFFFFFF) AND 0xFFFF)"
      "sd_base1 (td_segdesc d) = ucast (drop_bit 0x10 ((taskSegment AND 0xFFFFFFFF) AND push_bit 0x10 0xFF))"
      "sd_base2 (td_segdesc d) = ucast (drop_bit 0x18 ((taskSegment AND 0xFFFFFFFF) AND push_bit 0x18 0xFF))" for d
    by (simp add: word64_bits_eq td_BaseAddress_def sd_BaseAddress_def that bit_rules)
  show ?thesis
    by (simp add: segment_manager_gdt_def new_SegmentDescriptor_def SetBaseLimit_def SetSegmentLimit_def
        flat_def SetAccessByte_def SetFlags_def SetBaseAddress_def sizeof_TaskSegment_def Let_def
        new_TaskDescriptor_def SetAttributes_def SetReserved_def SetUpperBaseAddress_def lo lo0 tb
        sd_BaseAddress_def td_SegmentLimit_def SegmentLimit_def)
qed

end
