(* ===== verification/Segments_Manager.thy ===== *)
theory Segments_Manager
  imports Segments
begin

text \<open>
  The rest of segmentation (\<open>kernel/src/x86_64/segments/structs/gdt_table\<close>, \<open>gdt_descriptor\<close>, \<open>segment_manager\<close>): the
  constructor and the accessors of the table, its register image and the manager that loads it.  The processor is a
  parameter with the two assembly routines the kernel calls: loading the table register and reloading the selectors.
\<close>

section \<open>The table\<close>

definition new_GdtTable :: "SegmentDescriptor \<Rightarrow> SegmentDescriptor \<Rightarrow> SegmentDescriptor \<Rightarrow> SegmentDescriptor \<Rightarrow>
    SegmentDescriptor \<Rightarrow> TaskDescriptor \<Rightarrow> GdtTable" where
  "new_GdtTable null kernelCode kernelData userCode userData task =
     \<lparr>gt_null = null, gt_kernelCode = kernelCode, gt_kernelData = kernelData, gt_userCode = userCode,
      gt_userData = userData, gt_task = task\<rparr>"

definition NullSegment :: "GdtTable \<Rightarrow> SegmentDescriptor" where "NullSegment g = gt_null g"
definition KernelCodeSegment :: "GdtTable \<Rightarrow> SegmentDescriptor" where "KernelCodeSegment g = gt_kernelCode g"
definition KernelDataSegment :: "GdtTable \<Rightarrow> SegmentDescriptor" where "KernelDataSegment g = gt_kernelData g"
definition UserCodeSegment :: "GdtTable \<Rightarrow> SegmentDescriptor" where "UserCodeSegment g = gt_userCode g"
definition UserDataSegment :: "GdtTable \<Rightarrow> SegmentDescriptor" where "UserDataSegment g = gt_userData g"
definition Gdt_TaskSegment :: "GdtTable \<Rightarrow> TaskDescriptor" where "Gdt_TaskSegment g = gt_task g"

section \<open>The register image\<close>

record LimitOffsetArgs =
  lo_limit :: u16
  lo_offset :: u64

definition new_GdtDescriptor :: "u16 \<Rightarrow> u64 \<Rightarrow> GdtDescriptor" where
  "new_GdtDescriptor limit offset = \<lparr>gd_limit = limit, gd_offset = offset\<rparr>"

definition new_GdtDescriptor_args :: "LimitOffsetArgs \<Rightarrow> GdtDescriptor" where
  "new_GdtDescriptor_args args = \<lparr>gd_limit = lo_limit args, gd_offset = lo_offset args\<rparr>"

definition new_GdtDescriptor_table :: "addr \<Rightarrow> GdtDescriptor" where
  "new_GdtDescriptor_table gdtTable = \<lparr>gd_limit = ucast Gdt_Size, gd_offset = gdtTable\<rparr>"

record 'c cpu_ops =
  load_gdtr :: "GdtDescriptor \<Rightarrow> 'c \<Rightarrow> 'c"
  segreg_reload :: "'c \<Rightarrow> 'c"

definition Gdt_LoadCurrent :: "'c cpu_ops \<Rightarrow> GdtDescriptor \<Rightarrow> 'c \<Rightarrow> 'c" where
  "Gdt_LoadCurrent cpu d c = load_gdtr cpu d c"

definition Gdt_SwitchLoad :: "'c cpu_ops \<Rightarrow> addr \<Rightarrow> GdtDescriptor \<Rightarrow> 'c \<Rightarrow> GdtDescriptor \<times> 'c" where
  "Gdt_SwitchLoad cpu gdtTable d c = (let d = SwitchGdt gdtTable d in (d, Gdt_LoadCurrent cpu d c))"

section \<open>The manager\<close>

record SegmentManager =
  sm_gdt :: GdtTable
  sm_gdtr :: GdtDescriptor
  sm_taskSegment :: TaskSegment

text \<open>The members are packed, so the task segment lies behind the table and the ten bytes of the register image.\<close>

definition sm_taskSegment_at :: "addr \<Rightarrow> addr" where
  "sm_taskSegment_at this = this + Gdt_Size + 10"

definition new_SegmentManager :: "addr \<Rightarrow> GdtTable \<Rightarrow> SegmentManager result" where
  "new_SegmentManager this uninit =
     rbind (segment_manager_gdt uninit (sm_taskSegment_at this)) (\<lambda>gdt.
       Inr \<lparr>sm_gdt = gdt, sm_gdtr = \<lparr>gd_limit = 0, gd_offset = 0\<rparr>,
            sm_taskSegment = \<lparr>ts_rsp_table = replicate 3 0, ts_ist_table = replicate 7 0, ts_iopbm = 0\<rparr>\<rparr>)"

definition sm_LoadCurrent :: "'c cpu_ops \<Rightarrow> addr \<Rightarrow> SegmentManager \<Rightarrow> 'c \<Rightarrow> SegmentManager \<times> 'c" where
  "sm_LoadCurrent cpu this sm c =
     (let (gdtr, c) = Gdt_SwitchLoad cpu this (sm_gdtr sm) c in (sm\<lparr>sm_gdtr := gdtr\<rparr>, c))"

definition ReloadSegmentRegisters :: "'c cpu_ops \<Rightarrow> 'c \<Rightarrow> 'c" where
  "ReloadSegmentRegisters cpu c = segreg_reload cpu c"

definition ReloadTaskRegister :: "'c cpu_ops \<Rightarrow> 'c \<Rightarrow> 'c" where
  "ReloadTaskRegister cpu c = segreg_reload cpu c"

section \<open>Loading the flat layout\<close>

text \<open>
  Bringing up segmentation as the kernel's samples do: the register names the manager's table with a limit of 56, which
  is one more than the offset of its last byte, and the task descriptor in it names the manager's own task segment.
\<close>

theorem segment_manager_loads:
  "\<exists>sm. new_SegmentManager this uninit = Inr sm \<and>
     (let (sm', c') = sm_LoadCurrent cpu this sm c
      in c' = load_gdtr cpu \<lparr>gd_limit = 56, gd_offset = this\<rparr> c \<and> sm_gdt sm' = sm_gdt sm \<and>
         td_BaseAddress (Gdt_TaskSegment (sm_gdt sm')) = this + 66 \<and>
         td_SegmentLimit (Gdt_TaskSegment (sm_gdt sm')) = 103 \<and>
         IsCodeSegment (KernelCodeSegment (sm_gdt sm')) \<and> IsDataSegment (KernelDataSegment (sm_gdt sm')) \<and>
         IsCodeSegment (UserCodeSegment (sm_gdt sm')) \<and> IsDataSegment (UserDataSegment (sm_gdt sm')))"
proof -
  from segment_manager_layout [of uninit "sm_taskSegment_at this"] obtain g where
    g: "segment_manager_gdt uninit (sm_taskSegment_at this) = Inr g" "sd_accessbyte (gt_kernelCode g) = 0x9A"
      "sd_accessbyte (gt_kernelData g) = 0x92" "sd_accessbyte (gt_userCode g) = 0xFA" "sd_accessbyte (gt_userData g) = 0xF2"
      "td_BaseAddress (gt_task g) = sm_taskSegment_at this" "td_SegmentLimit (gt_task g) = 103" by auto
  then show ?thesis
    by (simp add: new_SegmentManager_def sm_LoadCurrent_def Gdt_SwitchLoad_def SwitchGdt_def Gdt_LoadCurrent_def Gdt_Size_def
        sm_taskSegment_at_def Gdt_TaskSegment_def KernelCodeSegment_def KernelDataSegment_def UserCodeSegment_def
        UserDataSegment_def IsCodeSegment_def IsDataSegment_def IsSystemSegment_def Let_def)
qed

end
