(* ===== verification/Serial_Console.thy ===== *)
theory Serial_Console
  imports Kernel_Prelude
begin

text \<open>
  The serial console (\<open>kernel/src/drivers/serial\<close>): the logger, which turns integers and strings into the bytes it
  writes to its port, and the stream \<open>kout\<close> above it, which keeps the number base.  An output is the list of bytes
  written by \<open>outb\<close>, in order.  A C string is a \<open>string\<close> without a zero character.
\<close>

section \<open>The logger\<close>

type_synonym bytes = "u8 list"

definition log_char :: "char \<Rightarrow> bytes" where
  "log_char ch = [of_char ch]"

text \<open>
  The digit loop \<open>while(x > 0)\<close> of the four number printers, over a buffer of \<open>cap\<close> bytes of which \<open>buf\<close> is the part
  in use: a digit is written behind it, or past the end of the array.  The base is a constant of at least 2.
\<close>

function digit_loop :: "nat \<Rightarrow> nat \<Rightarrow> (nat \<Rightarrow> u8) \<Rightarrow> nat \<Rightarrow> bytes \<Rightarrow> bytes result" where
  "digit_loop cap base byte x buf =
     (if 0 < x \<and> 1 < base
      then if length buf < cap then digit_loop cap base byte (x div base) (buf @ [byte (x mod base)])
           else Inl OutOfBounds
      else Inr buf)"
  by pat_completeness auto
termination by (relation "measure (\<lambda>(cap, base, byte, x, buf). x)") auto

declare digit_loop.simps [simp del]

definition decimal_byte :: "nat \<Rightarrow> u8" where
  "decimal_byte digit = of_nat (digit + 48)"

definition hex_byte :: "nat \<Rightarrow> u8" where
  "hex_byte digit = (if digit < 0xA then of_nat (digit + 48) else of_nat (digit + 55))"

definition bin_byte :: "nat \<Rightarrow> u8" where
  "bin_byte digit = (if digit = 0 then 48 else 49)"

text \<open>A signed \<open>int\<close>; the loop is not entered for a negative one.\<close>

definition log_int :: "int \<Rightarrow> bytes result" where
  "log_int x =
     (if x = 0 then Inr [48]
      else rbind (digit_loop 100 10 decimal_byte (nat x) []) (\<lambda>buffer. Inr (rev buffer)))"

definition log_unsigned :: "nat \<Rightarrow> bytes result" where
  "log_unsigned x =
     (if x = 0 then Inr [48]
      else rbind (digit_loop 30 10 decimal_byte x []) (\<lambda>buffer. Inr (rev buffer)))"

definition log_hex :: "u64 \<Rightarrow> bytes result" where
  "log_hex x =
     (if x = 0 then Inr [48]
      else rbind (digit_loop 20 16 hex_byte (unat x) []) (\<lambda>buffer. Inr (rev buffer)))"

definition log_bin :: "u64 \<Rightarrow> bytes result" where
  "log_bin x =
     (if x = 0 then Inr [48]
      else rbind (digit_loop 20 2 bin_byte (unat x) []) (\<lambda>buffer. Inr (rev buffer)))"

primrec log_string :: "string \<Rightarrow> bytes" where
  "log_string [] = []"
| "log_string (ch # st) = (if ch = CHR 0x0A then [13, 10] else [of_char ch]) @ log_string st"

section \<open>The stream\<close>

datatype intmode = Dec | Hex | Bin

text \<open>
  One insertion: the overloads of \<open>operator<<\<close>.  An unsigned integer of any width is \<open>KUnsigned\<close>, a signed one
  \<open>KInt\<close>.
\<close>

datatype kitem = KInt int | KUnsigned u64 | KChar char | KStr string | KMode intmode

record kostream =
  ks_mode :: intmode
  ks_out :: bytes

definition put :: "bytes result \<Rightarrow> kostream \<Rightarrow> kostream result" where
  "put r k = rbind r (\<lambda>bs. Inr (k\<lparr>ks_out := ks_out k @ bs\<rparr>))"

fun kinsert :: "kitem \<Rightarrow> kostream \<Rightarrow> kostream result" where
  "kinsert (KInt i) k =
     (case ks_mode k of
        Dec \<Rightarrow> put (log_int i) k
      | Hex \<Rightarrow> put (log_hex (of_int i)) k
      | Bin \<Rightarrow> put (log_bin (of_int i)) k)"
| "kinsert (KUnsigned i) k =
     (case ks_mode k of
        Dec \<Rightarrow> put (log_unsigned (unat i)) k
      | Hex \<Rightarrow> put (log_hex i) k
      | Bin \<Rightarrow> put (log_bin i) k)"
| "kinsert (KChar ch) k =
     (if ch = CHR 0x0A then put (Inr (log_char CHR 0x0D @ log_char CHR 0x0A)) k
      else put (Inr (log_char ch)) k)"
| "kinsert (KStr st) k = put (Inr (log_string st)) k"
| "kinsert (KMode im) k = Inr (k\<lparr>ks_mode := im\<rparr>)"

text \<open>A chain of insertions, \<open>kout << a << b << ...\<close>.\<close>

primrec kprint :: "kitem list \<Rightarrow> kostream \<Rightarrow> kostream result" where
  "kprint [] k = Inr k"
| "kprint (i # is) k = rbind (kinsert i k) (kprint is)"

definition newline :: kitem where
  "newline = KChar CHR 0x0A"

text \<open>The message of a failed assertion; the processor halts after it.\<close>

definition kassert_fail_impl :: "string \<Rightarrow> u64 \<Rightarrow> kitem list" where
  "kassert_fail_impl filename lineNumber =
     [KStr (''KASSERT FAILURE'' @ [CHR 0x0A]), KStr filename, KStr '' :: '', KStr ''line '', KMode Dec,
      KUnsigned lineNumber, newline, KStr ''halting...'', newline]"

definition kassert_fail_debug_impl :: "string \<Rightarrow> string \<Rightarrow> u64 \<Rightarrow> string \<Rightarrow> kitem list" where
  "kassert_fail_debug_impl functionName filename lineNumber expression =
     [KStr (''KASSERT FAILURE'' @ [CHR 0x0A]), KStr filename, KStr '' :: '', KStr functionName, KStr ''() ::  '',
      KStr ''line '', KMode Dec, KUnsigned lineNumber, newline, KStr ''assertion '', KChar CHR 0x27,
      KStr expression, KStr (CHR 0x27 # '' failed''), newline, KStr ''halting...'', newline]"

section \<open>What the digits mean\<close>

text \<open>The value of a little-endian digit list, and the digit a printed byte stands for.\<close>

primrec digits_value :: "nat \<Rightarrow> nat list \<Rightarrow> nat" where
  "digits_value base [] = 0"
| "digits_value base (d # ds) = d + base * digits_value base ds"

definition byte_digit :: "u8 \<Rightarrow> nat" where
  "byte_digit b = (if unat b < 58 then unat b - 48 else unat b - 55)"

definition number_value :: "nat \<Rightarrow> bytes \<Rightarrow> nat" where
  "number_value base out = digits_value base (map byte_digit (rev out))"

lemma digits_value_append:
  "digits_value base (ds @ es) = digits_value base ds + base ^ length ds * digits_value base es"
  by (induction ds) (simp_all add: algebra_simps)

definition good_bytes :: "nat \<Rightarrow> (nat \<Rightarrow> u8) \<Rightarrow> bool" where
  "good_bytes base byte \<longleftrightarrow> 1 < base \<and> (\<forall>d<base. byte_digit (byte d) = d)"

lemma byte_digit_decimal: "d < 10 \<Longrightarrow> byte_digit (decimal_byte d) = d"
  by (simp add: byte_digit_def decimal_byte_def unat_of_nat unat_word_ariths)

lemma byte_digit_hex: "d < 16 \<Longrightarrow> byte_digit (hex_byte d) = d"
  by (auto simp: byte_digit_def hex_byte_def unat_of_nat unat_word_ariths)

lemma byte_digit_bin: "d < 2 \<Longrightarrow> byte_digit (bin_byte d) = d"
  by (auto simp: byte_digit_def bin_byte_def)

lemma good_bytes [simp]:
  "good_bytes 10 decimal_byte" "good_bytes 16 hex_byte" "good_bytes 2 bin_byte"
  by (simp_all add: good_bytes_def byte_digit_decimal byte_digit_hex byte_digit_bin)

lemma digit_loop_value:
  assumes "good_bytes base byte" "x < base ^ n" "length buf + n \<le> cap"
  shows "\<exists>ds. digit_loop cap base byte x buf = Inr (buf @ ds) \<and> length ds \<le> n \<and>
           digits_value base (map byte_digit ds) = x \<and> (ds \<noteq> [] \<longrightarrow> 0 < byte_digit (last ds))"
  using assms(2,3)
proof (induction n arbitrary: x buf)
  case 0
  then show ?case by (subst digit_loop.simps) simp
next
  case (Suc n)
  have b: "1 < base" "byte_digit (byte (x mod base)) = x mod base"
    using assms(1) by (auto simp: good_bytes_def)
  show ?case
  proof (cases "x = 0")
    case True
    then show ?thesis by (subst digit_loop.simps) simp
  next
    case False
    have "x div base < base ^ n"
      using Suc.prems(1) b(1) by (intro less_mult_imp_div_less) (simp add: mult.commute)
    with Suc.IH [of "x div base" "buf @ [byte (x mod base)]"] Suc.prems(2)
    obtain ds where ds: "digit_loop cap base byte (x div base) (buf @ [byte (x mod base)])
          = Inr ((buf @ [byte (x mod base)]) @ ds)" "length ds \<le> n"
        "digits_value base (map byte_digit ds) = x div base" "ds \<noteq> [] \<longrightarrow> 0 < byte_digit (last ds)"
      by auto
    have top: "0 < byte_digit (last (byte (x mod base) # ds))"
    proof (cases "ds = []")
      case True
      then have "x div base = 0" using ds(3) by simp
      then have "x mod base = x" using b(1) by (simp add: div_eq_0_iff)
      then show ?thesis using True False b(2) by simp
    qed (use ds(4) in simp)
    have run: "digit_loop cap base byte x buf = Inr (buf @ byte (x mod base) # ds)"
      using False b(1) Suc.prems(2) ds(1) by (subst digit_loop.simps) simp
    show ?thesis
      by (rule exI [of _ "byte (x mod base) # ds"]) (use run ds(2,3) b(2) top in simp)
  qed
qed

text \<open>The run that fills the buffer.\<close>

lemma digit_loop_overflow:
  assumes "1 < base" "base ^ (cap - length buf) \<le> x" "length buf \<le> cap"
  shows "digit_loop cap base byte x buf = Inl OutOfBounds"
  using assms(2,3)
proof (induction "cap - length buf" arbitrary: x buf)
  case 0
  then show ?case using assms(1) by (subst digit_loop.simps) simp
next
  case (Suc n)
  have pos: "0 < x" using Suc.prems(1) assms(1) by (metis less_le_trans zero_less_power less_trans zero_less_one)
  have "base ^ n \<le> x div base"
    using Suc.prems(1) Suc.hyps(2) [symmetric] assms(1) by (simp add: less_eq_div_iff_mult_less_eq mult.commute)
  moreover have "n = cap - length (buf @ [byte (x mod base)])" using Suc.hyps(2) by simp
  ultimately have "digit_loop cap base byte (x div base) (buf @ [byte (x mod base)]) = Inl OutOfBounds"
    using Suc.hyps(2) by (intro Suc.hyps(1)) auto
  then show ?case using pos assms(1) Suc.hyps(2) by (subst digit_loop.simps) simp
qed

definition no_leading_zero :: "bytes \<Rightarrow> bool" where
  "no_leading_zero out \<longleftrightarrow> out \<noteq> [] \<and> (0 < byte_digit (hd out) \<or> out = [48])"

lemma number_printed:
  assumes "good_bytes base byte" "0 < x" "x < base ^ n" "n \<le> cap"
  shows "\<exists>out. rbind (digit_loop cap base byte x []) (\<lambda>buffer. Inr (rev buffer)) = Inr out \<and>
           length out \<le> n \<and> number_value base out = x \<and> no_leading_zero out"
proof -
  obtain ds where ds: "digit_loop cap base byte x [] = Inr ds" "length ds \<le> n"
      "digits_value base (map byte_digit ds) = x" "ds \<noteq> [] \<longrightarrow> 0 < byte_digit (last ds)"
    using digit_loop_value [OF assms(1,3), of "[]" cap] assms(4) by auto
  have "ds \<noteq> []" using ds(3) assms(2) by auto
  with ds show ?thesis
    by (intro exI [of _ "rev ds"]) (simp add: number_value_def no_leading_zero_def hd_rev)
qed

lemma zero_printed: "number_value base [48] = 0" "no_leading_zero [48]"
  by (simp_all add: number_value_def no_leading_zero_def byte_digit_def)

text \<open>A negative \<open>int\<close> leaves no trace in the output.\<close>

lemma log_int_negative: "x < 0 \<Longrightarrow> log_int x = Inr []"
  by (simp add: log_int_def digit_loop.simps)

lemma log_int_unsigned: "0 \<le> x \<Longrightarrow> x < 10 ^ 30 \<Longrightarrow> log_int x = log_unsigned (nat x)"
proof -
  assume x: "0 \<le> x" "x < 10 ^ 30"
  show ?thesis
  proof (cases "x = 0")
    case False
    then have lt: "nat x < 10 ^ 30" using x by (simp add: nat_less_iff)
    obtain ds where "digit_loop 100 10 decimal_byte (nat x) [] = Inr ds"
      using digit_loop_value [OF good_bytes(1) lt, of "[]" 100] by auto
    moreover obtain es where "digit_loop 30 10 decimal_byte (nat x) [] = Inr es"
      using digit_loop_value [OF good_bytes(1) lt, of "[]" 30] by auto
    moreover have "ds = es" if "digit_loop c 10 decimal_byte y buf = Inr ds" "digit_loop d 10 decimal_byte y buf = Inr es"
      for c d y buf
      using that
    proof (induction c "10 :: nat" decimal_byte y buf rule: digit_loop.induct)
      case (1 c y buf)
      from "1.prems" show ?case
        by (subst (asm) (1 2) digit_loop.simps) (auto split: if_splits intro: "1.hyps")
    qed
    ultimately show ?thesis using False x by (simp add: log_int_def log_unsigned_def)
  qed (simp add: log_int_def log_unsigned_def)
qed

section \<open>Properties\<close>

text \<open>
  Unsigned numbers of every width up to 64 bits are printed in full: the decimal and hexadecimal printers stay
  inside their buffers, what they print reads back as the number, and it has no leading zero.
\<close>

theorem log_numbers_roundtrip:
  "(\<exists>out. log_unsigned (unat x) = Inr out \<and> number_value 10 out = unat x \<and> no_leading_zero out) \<and>
   (\<exists>out. log_hex x = Inr out \<and> number_value 16 out = unat x \<and> no_leading_zero out)"
proof (rule conjI)
  have lt: "unat y < 10 ^ 20" "unat y < 16 ^ 16" for y :: u64 using unat_u64_less [of y] by simp_all
  show "\<exists>out. log_unsigned (unat x) = Inr out \<and> number_value 10 out = unat x \<and> no_leading_zero out"
  proof (cases "x = 0")
    case False
    then have "0 < unat x" by (simp add: unat_gt_0)
    from number_printed [OF good_bytes(1) this lt(1), of 30] False show ?thesis
      by (auto simp: log_unsigned_def unat_eq_zero)
  qed (auto simp: log_unsigned_def zero_printed)
  show "\<exists>out. log_hex x = Inr out \<and> number_value 16 out = unat x \<and> no_leading_zero out"
  proof (cases "x = 0")
    case False
    then have "0 < unat x" by (simp add: unat_gt_0)
    from number_printed [OF good_bytes(2) this lt(2), of 20] False show ?thesis
      by (auto simp: log_hex_def)
  qed (auto simp: log_hex_def zero_printed)
qed

text \<open>
  The binary printer keeps 64-bit numbers in a buffer of 20 bytes: it prints exactly the numbers below
  \<open>2 ^ 20\<close> and writes past the buffer for every other one.
\<close>

theorem log_bin_overflow:
  "(if unat x < 2 ^ 20 then \<exists>out. log_bin x = Inr out \<and> number_value 2 out = unat x \<and> no_leading_zero out
    else log_bin x = Inl OutOfBounds)"
proof (cases "x = 0")
  case True
  then show ?thesis by (auto simp: log_bin_def zero_printed)
next
  case False
  then have pos: "0 < unat x" by (simp add: unat_gt_0)
  show ?thesis
  proof (cases "unat x < 2 ^ 20")
    case True
    from number_printed [OF good_bytes(3) pos True, of 20] False True show ?thesis
      by (auto simp: log_bin_def)
  next
    case big: False
    have "digit_loop 20 2 bin_byte (unat x) [] = Inl OutOfBounds"
      by (rule digit_loop_overflow) (use big in simp_all)
    with big False show ?thesis by (simp add: log_bin_def)
  qed
qed

end
