(* ===== verification/Interrupts.thy ===== *)
theory Interrupts
  imports Bit_Fields Serial_Console
begin

text \<open>
  Interrupts (\<open>kernel/src/x86_64/interrupts\<close>): the gate descriptors of the interrupt table, the table with its
  checked index, the register image that loads it, and the manager that fills it.  The addresses of the assembly
  stubs \<open>isr\<close> and of the empty handler \<open>Null\<close> are parameters.
\<close>

section \<open>Gate descriptors\<close>

definition CALL_GATE_TYPE :: u8 where "CALL_GATE_TYPE = 0xE"

definition KERNEL_CODE_SEGMENT :: u8 where "KERNEL_CODE_SEGMENT = 8"

record GateAttributes =
  ga_offset :: u64
  ga_segmentSelector :: u16
  ga_isPresent :: bool

record GateDescriptor =
  gate_offset0 :: u16
  gate_segmentSelector :: u16
  gate_zeros_ist :: u8
  gate_accessByte :: u8
  gate_offset1 :: u16
  gate_offset2 :: u32
  gate_reserved :: u32

definition Gate_Offset :: "GateDescriptor \<Rightarrow> u64" where
  "Gate_Offset d =
     (let addr = ucast (gate_offset2 d);
          addr = push_bit 16 addr;
          addr = addr OR ucast (gate_offset1 d);
          addr = push_bit 16 addr
      in addr OR ucast (gate_offset0 d))"

definition Gate_SegmentSelector :: "GateDescriptor \<Rightarrow> u16" where
  "Gate_SegmentSelector d = gate_segmentSelector d"

definition Gate_Ist :: "GateDescriptor \<Rightarrow> u8" where
  "Gate_Ist d = gate_zeros_ist d AND 0x0F"

definition Gate_Type :: "GateDescriptor \<Rightarrow> u8" where
  "Gate_Type d = gate_accessByte d AND 0xF"

definition Gate_IsPivilaged :: "GateDescriptor \<Rightarrow> bool" where
  "Gate_IsPivilaged d = (if gate_accessByte d AND push_bit 4 0x6 \<noteq> 0 then False else True)"

definition Gate_IsPresent :: "GateDescriptor \<Rightarrow> bool" where
  "Gate_IsPresent d \<longleftrightarrow> gate_accessByte d AND 0x80 \<noteq> 0"

definition Gate_SetOffset :: "u64 \<Rightarrow> GateDescriptor \<Rightarrow> GateDescriptor" where
  "Gate_SetOffset offset d =
     (let vaddr0 = ucast (offset AND 0xFFFF);
          vaddr1 = ucast (drop_bit 0x10 (offset AND push_bit 0x10 0xFFFF));
          vaddr2 = ucast (drop_bit 0x20 (offset AND push_bit 0x20 0xFFFFFFFF))
      in d\<lparr>gate_offset0 := vaddr0, gate_offset1 := vaddr1, gate_offset2 := vaddr2\<rparr>)"

definition Gate_SetSegmentSelector :: "u16 \<Rightarrow> GateDescriptor \<Rightarrow> GateDescriptor" where
  "Gate_SetSegmentSelector segmentSelector d = d\<lparr>gate_segmentSelector := segmentSelector\<rparr>"

definition Gate_SetSegmentType :: "GateDescriptor \<Rightarrow> GateDescriptor" where
  "Gate_SetSegmentType d =
     (let d = d\<lparr>gate_accessByte := gate_accessByte d AND 0xF0\<rparr>
      in d\<lparr>gate_accessByte := gate_accessByte d OR CALL_GATE_TYPE\<rparr>)"

definition Gate_SetPrivilageLevel :: "GateDescriptor \<Rightarrow> GateDescriptor" where
  "Gate_SetPrivilageLevel d = d\<lparr>gate_accessByte := gate_accessByte d AND 0x8F\<rparr>"

definition Gate_SetPresent :: "GateDescriptor \<Rightarrow> GateDescriptor" where
  "Gate_SetPresent d = d\<lparr>gate_accessByte := gate_accessByte d OR 0x80\<rparr>"

definition Gate_ClearPresent :: "GateDescriptor \<Rightarrow> GateDescriptor" where
  "Gate_ClearPresent d = d\<lparr>gate_accessByte := gate_accessByte d AND 0x7F\<rparr>"

text \<open>The three constructors; \<open>uninit\<close> is the memory the descriptor is constructed in.\<close>

definition new_Gate_default :: "GateDescriptor \<Rightarrow> GateDescriptor result" where
  "new_Gate_default uninit =
     (let d = Gate_SetSegmentType uninit in rbind (rassert (Gate_Type d = CALL_GATE_TYPE)) (\<lambda>_. Inr d))"

definition new_Gate_raw :: "GateDescriptor \<Rightarrow> u64 \<Rightarrow> u16 \<Rightarrow> bool \<Rightarrow> GateDescriptor" where
  "new_Gate_raw uninit offset segmentSelector present =
     (let d = uninit\<lparr>gate_zeros_ist := 0, gate_reserved := 0\<rparr>;
          d = d\<lparr>gate_segmentSelector := segmentSelector\<rparr>;
          d = d\<lparr>gate_accessByte := 0 OR CALL_GATE_TYPE\<rparr>;
          d = Gate_SetOffset offset d;
          d = Gate_SetSegmentType d
      in if present then Gate_SetPresent d else Gate_ClearPresent d)"

definition new_Gate :: "GateDescriptor \<Rightarrow> GateAttributes \<Rightarrow> GateDescriptor" where
  "new_Gate uninit args =
     (let d = uninit\<lparr>gate_zeros_ist := 0, gate_reserved := 0\<rparr>;
          d = Gate_SetOffset (ga_offset args) d;
          d = Gate_SetSegmentSelector (ga_segmentSelector args) d;
          d = Gate_SetSegmentType d;
          d = Gate_SetPrivilageLevel d
      in if ga_isPresent args then Gate_SetPresent d else Gate_ClearPresent d)"

section \<open>The table and its register\<close>

type_synonym IdtTable = "GateDescriptor list"

definition Idt_Size :: nat where
  "Idt_Size = 256 * 16"

text \<open>The table's default constructor constructs its 256 gates one after the other in the memory \<open>mem\<close>.\<close>

fun new_gates :: "GateDescriptor list \<Rightarrow> IdtTable result" where
  "new_gates [] = Inr []"
| "new_gates (g # gs) = rbind (new_Gate_default g) (\<lambda>d. rbind (new_gates gs) (\<lambda>ds. Inr (d # ds)))"

definition new_IdtTable :: "GateDescriptor list \<Rightarrow> IdtTable result" where
  "new_IdtTable mem = new_gates mem"

definition GetIdtIndexer :: "u8 \<Rightarrow> u16" where
  "GetIdtIndexer index = ucast index * 16"

definition Idt_at :: "IdtTable \<Rightarrow> u64 \<Rightarrow> GateDescriptor result" where
  "Idt_at t index = rbind (rassert (index < 256)) (\<lambda>_. Inr (t ! unat index))"

definition Idt_put :: "u64 \<Rightarrow> GateDescriptor \<Rightarrow> IdtTable \<Rightarrow> IdtTable result" where
  "Idt_put index d t = rbind (rassert (index < 256)) (\<lambda>_. Inr (t[unat index := d]))"

record IdtDescriptor =
  idtr_limit :: u16
  idtr_offset :: u64

definition SwitchIdt :: "addr \<Rightarrow> IdtDescriptor \<Rightarrow> IdtDescriptor" where
  "SwitchIdt idt r = r\<lparr>idtr_limit := of_nat (Idt_Size - 1), idtr_offset := idt\<rparr>"

definition new_IdtDescriptor_table :: "addr \<Rightarrow> IdtDescriptor" where
  "new_IdtDescriptor_table table = \<lparr>idtr_limit = of_nat (Idt_Size - 1), idtr_offset = table\<rparr>"

definition new_IdtDescriptor :: "u16 \<Rightarrow> u64 \<Rightarrow> IdtDescriptor result" where
  "new_IdtDescriptor limit offset =
     (let r = \<lparr>idtr_limit = limit, idtr_offset = offset\<rparr>
      in rbind (rassert (idtr_limit r = limit)) (\<lambda>_. rbind (rassert (idtr_offset r = offset)) (\<lambda>_. Inr r)))"

section \<open>The manager\<close>

text \<open>\<open>cpu_idtr\<close> is the processor's table register, which \<open>lidt\<close> loads from the manager's image.\<close>

record InterruptManager =
  im_table :: IdtTable
  im_idtr :: IdtDescriptor
  cpu_idtr :: IdtDescriptor

definition InstallISR :: "GateDescriptor \<Rightarrow> u16 \<Rightarrow> addr \<Rightarrow> IdtTable \<Rightarrow> IdtTable result" where
  "InstallISR uninit index handler t =
     Idt_put (ucast index)
       (new_Gate uninit \<lparr>ga_offset = handler, ga_segmentSelector = ucast KERNEL_CODE_SEGMENT, ga_isPresent = True\<rparr>) t"

text \<open>The loop over the vectors from \<open>i\<close> on; its counter is an unsigned byte.\<close>

function gates_loop :: "GateDescriptor \<Rightarrow> (u8 \<Rightarrow> addr) \<Rightarrow> addr \<Rightarrow> u8 \<Rightarrow> IdtTable \<Rightarrow> IdtTable result" where
  "gates_loop uninit isr null_handler i t =
     (if i < 240
      then rbind (if 32 \<le> i then InstallISR uninit (ucast i) null_handler t
                  else InstallISR uninit (ucast i) (isr i) t)
             (gates_loop uninit isr null_handler (i + 1))
      else Inr t)"
  by pat_completeness auto
termination
proof (relation "measure (\<lambda>(uninit, isr, null_handler, i, t). 256 - unat i)")
  fix i :: u8
  assume i: "i < 240"
  then have "unat (i + 1) = unat i + 1"
    by (intro unat_add_no_wrap [THEN trans]) (auto simp: word_less_nat_alt)
  then show "((uninit, isr, null_handler, i + 1, x), uninit, isr, null_handler, i, t)
      \<in> measure (\<lambda>(uninit, isr, null_handler, i, t). 256 - unat i)" for uninit isr null_handler x t
    using i by (simp add: word_less_nat_alt)
qed simp

declare gates_loop.simps [simp del]

definition InitialiseGates :: "GateDescriptor \<Rightarrow> (u8 \<Rightarrow> addr) \<Rightarrow> addr \<Rightarrow> IdtTable \<Rightarrow> IdtTable result" where
  "InitialiseGates uninit isr null_handler t = gates_loop uninit isr null_handler 0 t"

definition InterruptGate :: "u64 \<Rightarrow> InterruptManager \<Rightarrow> GateDescriptor result" where
  "InterruptGate index m = rbind (rassert (index < 256)) (\<lambda>_. Idt_at (im_table m) index)"

definition LoadIdtr :: "InterruptManager \<Rightarrow> InterruptManager" where
  "LoadIdtr m = m\<lparr>cpu_idtr := im_idtr m\<rparr>"

definition SwitchLoad :: "addr \<Rightarrow> InterruptManager \<Rightarrow> InterruptManager" where
  "SwitchLoad table m = LoadIdtr (m\<lparr>im_idtr := SwitchIdt table (im_idtr m)\<rparr>)"

text \<open>
  The constructor: the members are constructed in the memory that \<open>m\<close> shows (the register image has no initialisers),
  then the gates are filled and the register is loaded.
\<close>

definition new_InterruptManager ::
    "GateDescriptor \<Rightarrow> (u8 \<Rightarrow> addr) \<Rightarrow> addr \<Rightarrow> addr \<Rightarrow> InterruptManager \<Rightarrow> InterruptManager result" where
  "new_InterruptManager uninit isr null_handler table m =
     rbind (new_IdtTable (im_table m)) (\<lambda>t.
     rbind (InitialiseGates uninit isr null_handler t) (\<lambda>t.
       Inr (SwitchLoad table (m\<lparr>im_table := t\<rparr>))))"

text \<open>The handlers print what happened; \<open>saved\<close> reads the registers the stub pushed around the stack pointer.\<close>

definition sayHi :: "int \<Rightarrow> kitem list" where
  "sayHi x =
     (if x \<noteq> 0 then [KStr ''why this no work'', newline] else []) @
     (if x = 0 then [KStr ''this working now'', newline] else []) @
     [KStr ''the interrupt works now bros'', newline]"

definition generalIRQ :: "int \<Rightarrow> kitem list" where
  "generalIRQ x =
     [KStr ''AN INTERRUPT HAS OCCURED'', newline, KStr ''interrupt code: '', KInt x, newline,
      KStr ''END OF HANDLING'', newline]"

definition contextSwitchISR :: "(addr \<Rightarrow> u64) \<Rightarrow> addr \<Rightarrow> kitem list" where
  "contextSwitchISR saved saddr =
     [KMode Hex, KStr ''AN INTERRUPT HAS OCCURED'', newline,
      KStr ''stackaddr = '', KUnsigned saddr, newline,
      KStr ''rax = '', KUnsigned (saved (saddr - 8)), newline,
      KStr ''rbx = '', KUnsigned (saved (saddr - 32)), newline,
      KStr ''rcx = '', KUnsigned (saved (saddr - 16)), newline,
      KStr ''rdx = '', KUnsigned (saved (saddr - 24)), newline,
      KStr ''rsi = '', KUnsigned (saved (saddr - 48)), newline,
      KStr ''rdi = '', KUnsigned (saved saddr), newline,
      KStr ''rbp = '', KUnsigned (saved (saddr - 40)), newline,
      KStr ''rflags = '', KUnsigned (saved (saddr - 56)), newline,
      KStr ''we tryna to ctxt sw'', newline, KStr ''END OF HANDLING'', newline]"

section \<open>What a gate holds\<close>

lemmas gate_defs = Gate_Offset_def Gate_SegmentSelector_def Gate_Ist_def Gate_Type_def Gate_IsPivilaged_def
  Gate_IsPresent_def Gate_SetOffset_def Gate_SetSegmentSelector_def Gate_SetSegmentType_def
  Gate_SetPrivilageLevel_def Gate_SetPresent_def Gate_ClearPresent_def CALL_GATE_TYPE_def

lemma gate_offset_roundtrip:
  "push_bit 16 (push_bit 16 (ucast (ucast (drop_bit 32 (x AND push_bit 32 0xFFFFFFFF)) :: u32)) OR
      ucast (ucast (drop_bit 16 (x AND push_bit 16 0xFFFF)) :: u16)) OR ucast (ucast (x AND 0xFFFF) :: u16) = (x :: u64)"
  by (simp add: word64_bits_eq bit_rules)

lemma new_Gate_reads:
  "Gate_Offset (new_Gate uninit a) = ga_offset a"
  "Gate_SegmentSelector (new_Gate uninit a) = ga_segmentSelector a"
  "Gate_Ist (new_Gate uninit a) = 0"
  "Gate_Type (new_Gate uninit a) = CALL_GATE_TYPE"
  "Gate_IsPivilaged (new_Gate uninit a)"
  "Gate_IsPresent (new_Gate uninit a) = ga_isPresent a"
proof -
  show "Gate_Offset (new_Gate uninit a) = ga_offset a"
    using gate_offset_roundtrip [of "ga_offset a"] by (simp add: new_Gate_def gate_defs Let_def)
  show "Gate_Type (new_Gate uninit a) = CALL_GATE_TYPE" "Gate_Ist (new_Gate uninit a) = 0"
    "Gate_SegmentSelector (new_Gate uninit a) = ga_segmentSelector a"
    by (simp_all add: new_Gate_def gate_defs Let_def word8_bits_eq bit_rules)
  show "Gate_IsPresent (new_Gate uninit a) = ga_isPresent a"
    by (simp add: new_Gate_def gate_defs Let_def bit_test bit_rules)
  have "gate_accessByte (new_Gate uninit a) AND 0x60 = 0"
    by (simp add: new_Gate_def gate_defs Let_def word8_bits_eq bit_rules)
  then show "Gate_IsPivilaged (new_Gate uninit a)" by (simp add: Gate_IsPivilaged_def)
qed

text \<open>Default construction gives a gate the interrupt type and keeps every other bit.\<close>

lemma SetSegmentType_reads:
  "Gate_Type (Gate_SetSegmentType d) = CALL_GATE_TYPE"
  "gate_accessByte (Gate_SetSegmentType d) AND 0xF0 = gate_accessByte d AND 0xF0"
  "(Gate_SetSegmentType d)\<lparr>gate_accessByte := b\<rparr> = d\<lparr>gate_accessByte := b\<rparr>"
  by (simp_all add: gate_defs Let_def word8_bits_eq bit_rules)

lemma new_Gate_default_ok: "new_Gate_default d = Inr (Gate_SetSegmentType d)"
  by (simp add: new_Gate_default_def SetSegmentType_reads)

lemma new_IdtTable_ok: "new_IdtTable mem = Inr (map Gate_SetSegmentType mem)"
proof -
  have "new_gates gs = Inr (map Gate_SetSegmentType gs)" for gs
    by (induction gs) (simp_all add: new_Gate_default_ok)
  then show ?thesis by (simp add: new_IdtTable_def)
qed

lemma InstallISR_ok:
  assumes "unat index < 256"
  shows "InstallISR uninit index handler t = Inr (t[unat index := new_Gate uninit
      \<lparr>ga_offset = handler, ga_segmentSelector = ucast KERNEL_CODE_SEGMENT, ga_isPresent = True\<rparr>])"
proof -
  have "unat (ucast index :: u64) = unat index" using assms
    by (simp add: unsigned_ucast_eq take_bit_nat_eq_self)
  then show ?thesis using assms by (simp add: InstallISR_def Idt_put_def word_less_nat_alt)
qed

definition kernel_gate :: "GateDescriptor \<Rightarrow> addr \<Rightarrow> GateDescriptor" where
  "kernel_gate uninit handler = new_Gate uninit
      \<lparr>ga_offset = handler, ga_segmentSelector = ucast KERNEL_CODE_SEGMENT, ga_isPresent = True\<rparr>"

text \<open>The loop from \<open>i\<close> installs the gates \<open>i\<close> to 239 and keeps the others.\<close>

lemma gates_loop_installs:
  "\<exists>t'. gates_loop uninit isr null_handler i t = Inr t' \<and> length t' = length t \<and>
     (\<forall>k<length t. t' ! k = (if unat i \<le> k \<and> k < 240
        then kernel_gate uninit (if k < 32 then isr (of_nat k) else null_handler) else t ! k))"
proof (induction uninit isr null_handler i t rule: gates_loop.induct)
  case (1 uninit isr null_handler i t)
  show ?case
  proof (cases "i < 240")
    case True
    then have u: "unat i < 240" "unat (i + 1) = unat i + 1" "unat (ucast i :: u16) = unat i"
      by (auto simp: word_less_nat_alt unsigned_ucast_eq take_bit_nat_eq_self intro!: unat_add_no_wrap [THEN trans])
    have le: "32 \<le> i \<longleftrightarrow> \<not> unat i < 32" by (auto simp: word_le_nat_alt)
    let ?h = "if 32 \<le> i then null_handler else isr i"
    let ?t = "t[unat i := kernel_gate uninit ?h]"
    have step: "(if 32 \<le> i then InstallISR uninit (ucast i) null_handler t
        else InstallISR uninit (ucast i) (isr i) t) = Inr ?t"
      using u by (simp add: InstallISR_ok kernel_gate_def)
    from "1.IH" [OF True, of ?t] obtain t' where t':
      "gates_loop uninit isr null_handler (i + 1) ?t = Inr t'" "length t' = length t"
      "\<forall>k<length t. t' ! k = (if unat i + 1 \<le> k \<and> k < 240
        then kernel_gate uninit (if k < 32 then isr (of_nat k) else null_handler) else ?t ! k)"
      unfolding u(2) by auto
    have from_i: "unat i \<le> k \<longleftrightarrow> k = unat i \<or> unat i + 1 \<le> k" for k by auto
    show ?thesis
      by (subst gates_loop.simps) (use True step t' u(1) le in \<open>auto simp: nth_list_update from_i\<close>)
  qed (subst gates_loop.simps, auto simp: word_less_nat_alt)
qed

section \<open>Properties\<close>

text \<open>
  A gate built from its attributes reads back exactly: all 64 bits of the handler's address, the selector, the
  present flag; it is always a privileged interrupt gate on stack 0, whatever the memory held before.
\<close>

theorem GateDescriptor_roundtrip:
  "Gate_Offset (new_Gate uninit a) = ga_offset a \<and>
   Gate_SegmentSelector (new_Gate uninit a) = ga_segmentSelector a \<and>
   Gate_IsPresent (new_Gate uninit a) = ga_isPresent a \<and>
   Gate_Type (new_Gate uninit a) = CALL_GATE_TYPE \<and> Gate_Ist (new_Gate uninit a) = 0 \<and>
   Gate_IsPivilaged (new_Gate uninit a)"
  by (simp add: new_Gate_reads)

text \<open>
  C24. Constructing the interrupt manager in any memory fills its 256-entry table without a fault: the first 32 vectors get
  their exception stubs, the vectors up to 239 the empty handler, all as present, privileged interrupt gates of the
  kernel code segment.  The vectors from 240 on are only default constructed: they are interrupt gates too, but the rest
  of their bits, the present flag and the handler's address among them, is what the memory held.  The processor's
  register spans exactly the table.
\<close>

theorem InterruptManager_installs:
  assumes "length (im_table m) = 256"
  shows "\<exists>m'. new_InterruptManager uninit isr null_handler table m = Inr m' \<and>
     idtr_offset (cpu_idtr m') = table \<and> unat (idtr_limit (cpu_idtr m')) + 1 = Idt_Size \<and>
     (\<forall>k<256. \<exists>g. InterruptGate (of_nat k) m' = Inr g \<and> Gate_Type g = CALL_GATE_TYPE \<and>
        (if k < 240 then Gate_IsPresent g \<and> Gate_IsPivilaged g \<and> Gate_SegmentSelector g = 8 \<and>
             Gate_Offset g = (if k < 32 then isr (of_nat k) else null_handler)
         else g\<lparr>gate_accessByte := 0\<rparr> = (im_table m ! k)\<lparr>gate_accessByte := 0\<rparr> \<and>
           gate_accessByte g AND 0xF0 = gate_accessByte (im_table m ! k) AND 0xF0))"
proof -
  let ?t = "map Gate_SetSegmentType (im_table m)"
  obtain t' where t': "InitialiseGates uninit isr null_handler ?t = Inr t'"
     "\<forall>k<256. t' ! k = (if k < 240
        then kernel_gate uninit (if k < 32 then isr (of_nat k) else null_handler) else ?t ! k)"
    using gates_loop_installs [of uninit isr null_handler 0 ?t] assms
    by (auto simp: InitialiseGates_def)
  have g: "InterruptGate (of_nat k) m' = Inr (im_table m' ! k)" if "k < 256" for k m'
  proof -
    have "unat (of_nat k :: u64) = k" using that by (simp add: unat_of_nat)
    then show ?thesis using that by (simp add: InterruptGate_def Idt_at_def word_less_nat_alt)
  qed
  have rest: "t' ! k = Gate_SetSegmentType (im_table m ! k)" if "k < 256" "\<not> k < 240" for k
    using t'(2) that assms by simp
  show ?thesis
    using t' rest by (auto simp: new_InterruptManager_def new_IdtTable_ok SwitchLoad_def LoadIdtr_def SwitchIdt_def
        Idt_Size_def g kernel_gate_def new_Gate_reads SetSegmentType_reads KERNEL_CODE_SEGMENT_def)
qed

definition zero_gate :: GateDescriptor where
  "zero_gate = \<lparr>gate_offset0 = 0, gate_segmentSelector = 0, gate_zeros_ist = 0, gate_accessByte = 0,
     gate_offset1 = 0, gate_offset2 = 0, gate_reserved = 0\<rparr>"

definition zero_manager :: InterruptManager where
  "zero_manager = \<lparr>im_table = replicate 256 zero_gate, im_idtr = \<lparr>idtr_limit = 0, idtr_offset = 0\<rparr>,
     cpu_idtr = \<lparr>idtr_limit = 0, idtr_offset = 0\<rparr>\<rparr>"

theorem InterruptManager_installs_witness:
  "\<exists>m' g h. new_InterruptManager zero_gate (\<lambda>v. 0xFFFFFFFF80000000 + 16 * ucast v) 0xFFFFFFFF80001000 0x9000
      zero_manager = Inr m' \<and> idtr_offset (cpu_idtr m') = 0x9000 \<and>
     InterruptGate 14 m' = Inr g \<and> Gate_Offset g = 0xFFFFFFFF800000E0 \<and>
     InterruptGate 250 m' = Inr h \<and> Gate_Type h = CALL_GATE_TYPE"
proof -
  have "length (im_table zero_manager) = 256" by (simp add: zero_manager_def)
  from InterruptManager_installs [OF this] obtain m' where
    m': "new_InterruptManager zero_gate (\<lambda>v. 0xFFFFFFFF80000000 + 16 * ucast v) 0xFFFFFFFF80001000 0x9000
       zero_manager = Inr m'" "idtr_offset (cpu_idtr m') = 0x9000"
    and all: "\<forall>k<256. \<exists>g. InterruptGate (of_nat k) m' = Inr g \<and> Gate_Type g = CALL_GATE_TYPE \<and>
        (if k < 240 then Gate_IsPresent g \<and> Gate_IsPivilaged g \<and> Gate_SegmentSelector g = 8 \<and>
             Gate_Offset g = (if k < 32 then 0xFFFFFFFF80000000 + 16 * ucast (of_nat k :: u8) else 0xFFFFFFFF80001000)
         else g\<lparr>gate_accessByte := 0\<rparr> = (im_table zero_manager ! k)\<lparr>gate_accessByte := 0\<rparr> \<and>
           gate_accessByte g AND 0xF0 = gate_accessByte (im_table zero_manager ! k) AND 0xF0)"
    by blast
  show ?thesis using m' all [THEN spec, of 14] all [THEN spec, of 250] by auto
qed

end
