(* ===== verification/Grains.thy ===== *)
theory Grains
  imports Segments_Manager Interrupts
begin

text \<open>
  The run-time tests of the kernel (\<open>kernel/src/grains\<close>): the framework, in which a test counts its requirements and
  halts the machine, and the tests of the segment descriptors, the table register, the segment manager, the gate
  descriptors and the interrupt table register.  What a test prints is left out; a descriptor that is not value
  initialised is built in the memory \<open>uninit\<close>.
\<close>

section \<open>The framework\<close>

record 'c grains =
  TestRegistered :: bool
  numRequirements :: u64
  processor :: 'c

text \<open>How a test ends: \<open>HaltCatchFire\<close> does not return, and an assertion of the code under test halts as well.\<close>

datatype 'c halt =
    Already_registered
  | Requirement_failed u64
  | Kernel_error fault
  | Succeeded u64 'c

type_synonym 'c grain = "'c grains \<Rightarrow> 'c halt + 'c grains"

definition RegisterGrain :: "'c grain" where
  "RegisterGrain g = (if TestRegistered g then Inl Already_registered else Inr (g\<lparr>TestRegistered := True\<rparr>))"

definition REQUIRE_that :: "bool \<Rightarrow> 'c grain" where
  "REQUIRE_that expr g =
     (let g = g\<lparr>numRequirements := numRequirements g + 1\<rparr>
      in if expr then Inr g else Inl (Requirement_failed (numRequirements g)))"

definition REQUIRE_EQUAL :: "'a \<Rightarrow> 'a \<Rightarrow> 'c grain" where
  "REQUIRE_EQUAL lhs rhs g =
     (let g = g\<lparr>numRequirements := numRequirements g + 1\<rparr>
      in if lhs = rhs then Inr g else Inl (Requirement_failed (numRequirements g)))"

definition Grain_Success :: "'c grains \<Rightarrow> 'c halt" where
  "Grain_Success g = Succeeded (numRequirements g) (processor g)"

definition on_cpu :: "('c \<Rightarrow> 'c) \<Rightarrow> 'c grain" where
  "on_cpu f g = Inr (g\<lparr>processor := f (processor g)\<rparr>)"

primrec body :: "'c grain list \<Rightarrow> 'c grain" where
  "body [] g = Inr g"
| "body (step # steps) g = (case step g of Inl h \<Rightarrow> Inl h | Inr g' \<Rightarrow> body steps g')"

definition constructed :: "'a result \<Rightarrow> ('a \<Rightarrow> 'c grain) \<Rightarrow> 'c grain" where
  "constructed r k = (\<lambda>g. case r of Inl e \<Rightarrow> Inl (Kernel_error e) | Inr x \<Rightarrow> k x g)"

definition GRAIN :: "'c grain \<Rightarrow> 'c grains \<Rightarrow> 'c halt" where
  "GRAIN test g =
     (case RegisterGrain g of
        Inl h \<Rightarrow> h
      | Inr g \<Rightarrow> (case test g of Inl h \<Rightarrow> h | Inr g \<Rightarrow> Grain_Success g))"

section \<open>Segment descriptors\<close>

definition zero_segment :: SegmentDescriptor where
  "zero_segment = \<lparr>sd_limit0 = 0, sd_base0 = 0, sd_base1 = 0, sd_accessbyte = 0, sd_flags_limit1 = 0, sd_base2 = 0\<rparr>"

definition SegmentDescriptor_Default :: "'c grains \<Rightarrow> 'c halt" where
  "SegmentDescriptor_Default =
     (let segment = zero_segment
      in GRAIN (body
           [REQUIRE_that (sd_accessbyte segment = 0),
            REQUIRE_that (SegmentLimit segment = 0)]))"

definition SegmentDescriptor_Setters :: "'c grains \<Rightarrow> 'c halt" where
  "SegmentDescriptor_Setters =
     GRAIN (let segment = zero_segment; segment = SetBaseAddress 0x12345678 segment
            in constructed (SetSegmentLimit 0x11001 segment) (\<lambda>segment.
              let segment = SetAccessByte \<lparr>ab_present = True, ab_privilaged = True,
                    ab_isSystemSegment = False, ab_type = 0x0A\<rparr> segment;
                  segment = SetFlags \<lparr>fl_isByteGranular = False, fl_db = False,
                    fl_longModeSegment = True, fl_avl = False\<rparr> segment
              in body
                [REQUIRE_EQUAL (sd_limit0 segment) 0x1001,
                 REQUIRE_EQUAL (ucast (sd_base0 segment)) (0x12345678 AND 0xFFFF :: u32),
                 REQUIRE_EQUAL (ucast (sd_base1 segment)) (drop_bit 16 0x12345678 AND 0xFF :: u32),
                 REQUIRE_EQUAL (ucast (sd_base2 segment)) (drop_bit 24 0x12345678 AND 0xFF :: u32),
                 REQUIRE_EQUAL (sd_accessbyte segment) 0x9A,
                 REQUIRE_EQUAL (sd_flags_limit1 segment) 0xA1]))"

definition SegmentDescriptor_ConstructorVer2 :: "SegmentDescriptor \<Rightarrow> 'c grains \<Rightarrow> 'c halt" where
  "SegmentDescriptor_ConstructorVer2 uninit =
     GRAIN (constructed
       (new_SegmentDescriptor uninit \<lparr>bl_base = 0x12345678, bl_limit = 0x11001\<rparr>
          \<lparr>ab_present = True, ab_privilaged = True, ab_isSystemSegment = False, ab_type = 0x0A\<rparr>
          \<lparr>fl_isByteGranular = False, fl_db = False, fl_longModeSegment = True, fl_avl = False\<rparr>)
       (\<lambda>segment. body
          [REQUIRE_EQUAL (sd_limit0 segment) 0x1001,
           REQUIRE_EQUAL (ucast (sd_base0 segment)) (0x12345678 AND 0xFFFF :: u32),
           REQUIRE_EQUAL (ucast (sd_base1 segment)) (drop_bit 16 0x12345678 AND 0xFF :: u32),
           REQUIRE_EQUAL (ucast (sd_base2 segment)) (drop_bit 24 0x12345678 AND 0xFF :: u32),
           REQUIRE_EQUAL (sd_accessbyte segment) 0x9A,
           REQUIRE_EQUAL (sd_flags_limit1 segment) 0xA1,
           REQUIRE_EQUAL (sd_BaseAddress segment) 0x12345678,
           REQUIRE_EQUAL (SegmentLimit segment) 0x11001,
           REQUIRE_EQUAL (sd_IsPresent segment) True,
           REQUIRE_EQUAL (sd_IsPrivilaged segment) True,
           REQUIRE_EQUAL (IsSystemSegment segment) False,
           REQUIRE_EQUAL (IsByteGranular segment) False,
           REQUIRE_EQUAL (IsDB segment) False,
           REQUIRE_EQUAL (IsLongCodeSegment segment) True]))"

definition TaskDescriptor_Constructor :: "TaskDescriptor \<Rightarrow> 'c grains \<Rightarrow> 'c halt" where
  "TaskDescriptor_Constructor uninit =
     (let address = 0xABCDEF0123456789
      in GRAIN (constructed
       (new_TaskDescriptor uninit \<lparr>bl_base = 0xABCDEF0123456789, bl_limit = 0x11001\<rparr>
          \<lparr>ta_isByteGranular = True, ta_avl = False, ta_present = True, ta_privilaged = True, ta_busy = True\<rparr>)
       (\<lambda>tasktor. body
          [REQUIRE_EQUAL (sd_limit0 (td_segdesc tasktor)) 0x1001,
           REQUIRE_EQUAL (ucast (sd_base0 (td_segdesc tasktor))) (address AND 0xFFFF :: u64),
           REQUIRE_EQUAL (ucast (sd_base1 (td_segdesc tasktor))) (drop_bit 16 address AND 0xFF :: u64),
           REQUIRE_EQUAL (ucast (sd_base2 (td_segdesc tasktor))) (drop_bit 24 address AND 0xFF :: u64),
           REQUIRE_EQUAL (sd_accessbyte (td_segdesc tasktor)) 0x8B,
           REQUIRE_EQUAL (sd_flags_limit1 (td_segdesc tasktor)) 0x01,
           REQUIRE_EQUAL (ucast (td_base3 tasktor)) (drop_bit 32 address :: u64),
           REQUIRE_EQUAL (td_reserved0 tasktor) 0,
           REQUIRE_EQUAL (td_res1_zeros tasktor) 0,
           REQUIRE_EQUAL (td_res2 tasktor) 0,
           REQUIRE_EQUAL (td_SegmentLimit tasktor) 0x11001,
           REQUIRE_EQUAL (td_BaseAddress tasktor) address,
           REQUIRE_EQUAL (td_IsPresent tasktor) True,
           REQUIRE_EQUAL (td_IsPrivilaged tasktor) True,
           REQUIRE_EQUAL (td_Type tasktor) 0xB,
           REQUIRE_EQUAL (IsBusy tasktor) True,
           REQUIRE_EQUAL (td_IsByteGranular tasktor) True])))"

section \<open>The registers of the processor\<close>

text \<open>These tests ask the reader to look at the registers; here the processor is part of how they end.\<close>

definition Gdt_Switches :: "'c cpu_ops \<Rightarrow> 'c grains \<Rightarrow> 'c halt" where
  "Gdt_Switches cpu =
     (let offset = 0xDEADBEEF0000BEEC;
          descriptor = new_GdtDescriptor_args \<lparr>lo_limit = 0xFFAB, lo_offset = offset\<rparr>
      in GRAIN (body
           [REQUIRE_EQUAL (gd_limit descriptor) 0xFFAB,
            REQUIRE_EQUAL (gd_offset descriptor) offset,
            on_cpu (Gdt_LoadCurrent cpu descriptor)]))"

definition SegmentManager_Switches :: "'c cpu_ops \<Rightarrow> addr \<Rightarrow> GdtTable \<Rightarrow> 'c grains \<Rightarrow> 'c halt" where
  "SegmentManager_Switches cpu this uninit =
     GRAIN (constructed (new_SegmentManager this uninit) (\<lambda>segmanager. body
       [on_cpu (\<lambda>c. snd (sm_LoadCurrent cpu this segmanager c)),
        on_cpu (ReloadSegmentRegisters cpu)]))"

section \<open>Gates and the interrupt table register\<close>

definition InterruptDescriptor_tests :: "GateDescriptor \<Rightarrow> 'c grains \<Rightarrow> 'c halt" where
  "InterruptDescriptor_tests uninit =
     (let address = 0xabcdef123456 :: u64;
          gate = new_Gate uninit \<lparr>ga_offset = address, ga_segmentSelector = 0x1234, ga_isPresent = True\<rparr>
      in GRAIN (body
           [REQUIRE_EQUAL (ucast (gate_offset0 gate)) (address AND 0xFFFF),
            REQUIRE_EQUAL (gate_offset0 gate) 0x3456,
            REQUIRE_EQUAL (ucast (gate_offset1 gate)) (drop_bit 16 address AND 0xFFFF),
            REQUIRE_EQUAL (gate_offset1 gate) 0xef12,
            REQUIRE_EQUAL (ucast (gate_offset2 gate)) (drop_bit 32 address),
            REQUIRE_EQUAL (gate_offset2 gate) 0xabcd,
            REQUIRE_EQUAL (gate_segmentSelector gate) 0x1234,
            REQUIRE_EQUAL (gate_accessByte gate AND 0x0F) 0xE,
            REQUIRE_EQUAL (gate_accessByte gate AND 0xF0) 0x80,
            REQUIRE_EQUAL (Gate_Offset gate) 0xABCDEF123456,
            REQUIRE_EQUAL (Gate_SegmentSelector gate) 0x1234,
            REQUIRE_EQUAL (Gate_Type gate) 0xE,
            REQUIRE_EQUAL (Gate_IsPresent gate) True,
            REQUIRE_EQUAL (Gate_IsPivilaged gate) True]))"

definition IDTR_Interface_Tests :: "'c grains \<Rightarrow> 'c halt" where
  "IDTR_Interface_Tests =
     (let offset = 0xabcd1234abcd5678; limit = 0x1234
      in GRAIN (constructed (new_IdtDescriptor limit offset) (\<lambda>idtr. body
           [REQUIRE_EQUAL (idtr_offset idtr) offset,
            REQUIRE_EQUAL (idtr_limit idtr) limit,
            REQUIRE_EQUAL (idtr_offset idtr) offset,
            REQUIRE_EQUAL (idtr_limit idtr) limit])))"

section \<open>How the tests end\<close>

named_theorems grain_simps \<open>the framework, unfolded\<close>

lemmas grain_framework [grain_simps] = GRAIN_def RegisterGrain_def REQUIRE_that_def REQUIRE_EQUAL_def
  Grain_Success_def on_cpu_def constructed_def Let_def

lemma segment_default_ends:
  "\<not> TestRegistered g \<Longrightarrow> SegmentDescriptor_Default g = Succeeded (numRequirements g + 2) (processor g)"
  by (simp add: SegmentDescriptor_Default_def grain_simps zero_segment_def SegmentLimit_def)

lemma segment_setters_end:
  "\<not> TestRegistered g \<Longrightarrow> SegmentDescriptor_Setters g = Succeeded (numRequirements g + 6) (processor g)"
  by (simp add: SegmentDescriptor_Setters_def grain_simps zero_segment_def SetBaseAddress_def SetSegmentLimit_def
      SetAccessByte_def SetFlags_def)

lemma flag_bytes [simp]:
  "((x :: u8) AND 0xF0 OR 1) AND 0x0F OR 0xA0 = 0xA1"
  "((x :: u8) AND 0xF0 OR 1) AND 0x0F = 1"
  "(((x :: u8) AND 0xF0 OR 0xE) AND 0x8F OR 0x80) AND 0x60 = 0"
  "(((x :: u8) AND 0xF0 OR 0xE) AND 0x8F OR 0x80) AND 0xF0 = 0x80"
  "(((x :: u8) AND 0xF0 OR 0xE) AND 0x8F OR 0x80) AND 0x0F = 0xE"
  by (simp_all add: word8_bits_eq bit_rules)

lemma segment_constructor_ends:
  "\<not> TestRegistered g \<Longrightarrow>
   SegmentDescriptor_ConstructorVer2 uninit g = Succeeded (numRequirements g + 14) (processor g)"
  by (simp add: SegmentDescriptor_ConstructorVer2_def grain_simps new_SegmentDescriptor_def SetBaseLimit_def
      SetBaseAddress_def SetSegmentLimit_def SetAccessByte_def SetFlags_def sd_BaseAddress_def SegmentLimit_def
      sd_IsPresent_def sd_IsPrivilaged_def IsSystemSegment_def IsByteGranular_def IsDB_def IsLongCodeSegment_def)

lemma task_constructor_ends:
  "\<not> TestRegistered g \<Longrightarrow>
   TaskDescriptor_Constructor uninit g = Succeeded (numRequirements g + 17) (processor g)"
  by (simp add: TaskDescriptor_Constructor_def grain_simps new_TaskDescriptor_def SetReserved_def
      SetUpperBaseAddress_def SetAttributes_def td_BaseAddress_def td_SegmentLimit_def td_Type_def td_IsPresent_def
      td_IsPrivilaged_def td_IsByteGranular_def IsBusy_def sd_Type_def
      SetBaseAddress_def SetSegmentLimit_def SetAccessByte_def SetFlags_def sd_BaseAddress_def SegmentLimit_def
      sd_IsPresent_def sd_IsPrivilaged_def IsByteGranular_def)

lemma gdt_switches_end:
  "\<not> TestRegistered g \<Longrightarrow>
   Gdt_Switches cpu g = Succeeded (numRequirements g + 2)
     (load_gdtr cpu \<lparr>gd_limit = 0xFFAB, gd_offset = 0xDEADBEEF0000BEEC\<rparr> (processor g))"
  by (simp add: Gdt_Switches_def grain_simps new_GdtDescriptor_args_def Gdt_LoadCurrent_def)

lemma manager_switches_end:
  "\<not> TestRegistered g \<Longrightarrow>
   SegmentManager_Switches cpu this uninit g = Succeeded (numRequirements g)
     (segreg_reload cpu (load_gdtr cpu \<lparr>gd_limit = 56, gd_offset = this\<rparr> (processor g)))"
  using segment_manager_layout [of uninit "sm_taskSegment_at this"]
  by (auto simp add: SegmentManager_Switches_def grain_simps new_SegmentManager_def sm_LoadCurrent_def
      Gdt_SwitchLoad_def SwitchGdt_def Gdt_LoadCurrent_def Gdt_Size_def ReloadSegmentRegisters_def)

lemma gate_tests_end:
  "\<not> TestRegistered g \<Longrightarrow>
   InterruptDescriptor_tests uninit g = Succeeded (numRequirements g + 14) (processor g)"
  by (simp add: InterruptDescriptor_tests_def grain_simps new_Gate_def Gate_SetOffset_def Gate_SetSegmentSelector_def
      Gate_SetSegmentType_def Gate_SetPrivilageLevel_def Gate_SetPresent_def CALL_GATE_TYPE_def Gate_Offset_def
      Gate_SegmentSelector_def Gate_Type_def Gate_IsPresent_def Gate_IsPivilaged_def)

lemma idtr_tests_end:
  "\<not> TestRegistered g \<Longrightarrow> IDTR_Interface_Tests g = Succeeded (numRequirements g + 4) (processor g)"
  by (simp add: IDTR_Interface_Tests_def grain_simps new_IdtDescriptor_def)

text \<open>
  Started on a machine where no grain has run, every descriptor test of the kernel succeeds with all its requirements
  counted, whatever the memory its descriptors are built in; the two tests that ask for a look at the registers leave the
  table register with the limit and the offset they gave it, and the manager's test reloads the selectors after that.
  Any second grain of the same boot halts at once.
\<close>

theorem grains_succeed:
  assumes "\<not> TestRegistered g"
  shows "SegmentDescriptor_Default g = Succeeded (numRequirements g + 2) (processor g) \<and>
    SegmentDescriptor_Setters g = Succeeded (numRequirements g + 6) (processor g) \<and>
    SegmentDescriptor_ConstructorVer2 seg g = Succeeded (numRequirements g + 14) (processor g) \<and>
    TaskDescriptor_Constructor tsk g = Succeeded (numRequirements g + 17) (processor g) \<and>
    Gdt_Switches cpu g = Succeeded (numRequirements g + 2)
      (load_gdtr cpu \<lparr>gd_limit = 0xFFAB, gd_offset = 0xDEADBEEF0000BEEC\<rparr> (processor g)) \<and>
    SegmentManager_Switches cpu this gdt g = Succeeded (numRequirements g)
      (segreg_reload cpu (load_gdtr cpu \<lparr>gd_limit = 56, gd_offset = this\<rparr> (processor g))) \<and>
    InterruptDescriptor_tests gate g = Succeeded (numRequirements g + 14) (processor g) \<and>
    IDTR_Interface_Tests g = Succeeded (numRequirements g + 4) (processor g) \<and>
    GRAIN any (g\<lparr>TestRegistered := True\<rparr>) = Already_registered"
  using assms by (simp add: segment_default_ends segment_setters_end segment_constructor_ends task_constructor_ends
      gdt_switches_end manager_switches_end gate_tests_end idtr_tests_end GRAIN_def RegisterGrain_def)

theorem grains_succeed_witness:
  "SegmentDescriptor_Setters \<lparr>TestRegistered = False, numRequirements = 0, processor = ()\<rparr> = Succeeded 6 () \<and>
   Gdt_Switches \<lparr>load_gdtr = (\<lambda>d _. gd_limit d), segreg_reload = (\<lambda>l. l)\<rparr>
     \<lparr>TestRegistered = False, numRequirements = 0, processor = 0\<rparr> = Succeeded 2 0xFFAB"
  using grains_succeed [of "\<lparr>TestRegistered = False, numRequirements = 0, processor = ()\<rparr>"]
    grains_succeed [of "\<lparr>TestRegistered = False, numRequirements = 0, processor = 0\<rparr>" _ _
      "\<lparr>load_gdtr = (\<lambda>d _. gd_limit d), segreg_reload = (\<lambda>l. l)\<rparr>"]
  by simp

end
