(* ===== verification/Paging.thy ===== *)
theory Paging
  imports Bit_Fields Page_Pool
begin

text \<open>
  Paging (\<open>kernel/src/x86_64/paging\<close>, \<open>x86pages\<close>, \<open>utilites\<close>): page table entries of both kinds, the
  split of a virtual address into table indices, the walk that translates an address and the one that maps a
  user page.  A table at address \<open>t\<close> is the 512 words from \<open>t\<close> on; a null table faults.
\<close>

section \<open>Entries of the lowest level\<close>

type_synonym entry = u64

definition PAGE_TABLE_ENTRIES :: nat where "PAGE_TABLE_ENTRIES = 512"

definition PE_Present :: u16 where "PE_Present = 0x1"
definition PE_Writeable :: u16 where "PE_Writeable = 0x2"
definition PE_UserAccessible :: u16 where "PE_UserAccessible = 0x4"
definition PE_CacheWritethrough :: u16 where "PE_CacheWritethrough = 0x8"
definition PE_CacheDisable :: u16 where "PE_CacheDisable = 0x10"
definition PE_Accessed :: u16 where "PE_Accessed = 0x20"
definition PE_Dirty :: u16 where "PE_Dirty = 0x40"
definition PE_Global :: u16 where "PE_Global = 0x100"

lemmas pe_flags = PE_Present_def PE_Writeable_def PE_UserAccessible_def PE_CacheWritethrough_def
  PE_CacheDisable_def PE_Accessed_def PE_Dirty_def PE_Global_def

text \<open>\<open>~0xFFF\<close> is an \<open>int\<close>, sign-extended to 64 bits.\<close>

definition PE_ADDRESS_MASK :: u64 where "PE_ADDRESS_MASK = NOT 0xFFF"

definition new_PageEntry :: "u64 \<Rightarrow> u8 \<Rightarrow> entry" where
  "new_PageEntry pageBase flags = (0 OR ucast flags) OR pageBase"

definition PE_CreateUser :: "u64 \<Rightarrow> entry" where
  "PE_CreateUser pagebase = new_PageEntry pagebase (ucast (PE_Present OR PE_Writeable OR PE_UserAccessible))"

definition PE_CreateSupervisor :: "u64 \<Rightarrow> entry" where
  "PE_CreateSupervisor pagebase = new_PageEntry pagebase (ucast (PE_Present OR PE_Writeable))"

definition PE_BaseAddress :: "entry \<Rightarrow> u64" where "PE_BaseAddress e = e AND PE_ADDRESS_MASK"

text \<open>The flag is promoted to \<open>int\<close> before it is complemented, so \<open>~flag\<close> has all its upper bits set.\<close>

definition PE_SetAttribute :: "bool \<Rightarrow> u16 \<Rightarrow> entry \<Rightarrow> entry" where
  "PE_SetAttribute val flag e = (if val then e OR ucast flag else e AND NOT (ucast flag))"

definition PE_IsPresent :: "entry \<Rightarrow> bool" where "PE_IsPresent e \<longleftrightarrow> e AND ucast PE_Present \<noteq> 0"
definition PE_SetPresent :: "bool \<Rightarrow> entry \<Rightarrow> entry" where "PE_SetPresent b = PE_SetAttribute b PE_Present"
definition PE_IsWriteable :: "entry \<Rightarrow> bool" where "PE_IsWriteable e \<longleftrightarrow> e AND ucast PE_Writeable \<noteq> 0"
definition PE_SetWriteable :: "bool \<Rightarrow> entry \<Rightarrow> entry" where "PE_SetWriteable b = PE_SetAttribute b PE_Writeable"
definition PE_IsUserAccessible :: "entry \<Rightarrow> bool" where
  "PE_IsUserAccessible e \<longleftrightarrow> e AND ucast PE_UserAccessible \<noteq> 0"
definition PE_SetUserAccessible :: "bool \<Rightarrow> entry \<Rightarrow> entry" where
  "PE_SetUserAccessible b = PE_SetAttribute b PE_UserAccessible"
definition PE_IsPwt :: "entry \<Rightarrow> bool" where "PE_IsPwt e \<longleftrightarrow> e AND ucast PE_CacheWritethrough \<noteq> 0"
definition PE_SetPwt :: "bool \<Rightarrow> entry \<Rightarrow> entry" where "PE_SetPwt b = PE_SetAttribute b PE_CacheWritethrough"
definition PE_IsPcd :: "entry \<Rightarrow> bool" where "PE_IsPcd e \<longleftrightarrow> e AND ucast PE_CacheDisable \<noteq> 0"
definition PE_SetPcd :: "bool \<Rightarrow> entry \<Rightarrow> entry" where "PE_SetPcd b = PE_SetAttribute b PE_CacheDisable"
definition PE_IsAccessed :: "entry \<Rightarrow> bool" where "PE_IsAccessed e \<longleftrightarrow> e AND ucast PE_Accessed \<noteq> 0"
definition PE_SetAccessed :: "bool \<Rightarrow> entry \<Rightarrow> entry" where "PE_SetAccessed b = PE_SetAttribute b PE_Accessed"
definition PE_IsDirty :: "entry \<Rightarrow> bool" where "PE_IsDirty e \<longleftrightarrow> e AND ucast PE_Dirty \<noteq> 0"
definition PE_SetDirty :: "bool \<Rightarrow> entry \<Rightarrow> entry" where "PE_SetDirty b = PE_SetAttribute b PE_Dirty"
definition PE_IsGlobal :: "entry \<Rightarrow> bool" where "PE_IsGlobal e \<longleftrightarrow> e AND ucast PE_Global \<noteq> 0"
definition PE_SetGlobal :: "bool \<Rightarrow> entry \<Rightarrow> entry" where "PE_SetGlobal b = PE_SetAttribute b PE_Global"

lemmas pe_queries = PE_IsPresent_def PE_IsWriteable_def PE_IsUserAccessible_def PE_IsPwt_def PE_IsPcd_def
  PE_IsAccessed_def PE_IsDirty_def PE_IsGlobal_def

lemmas pe_setters = PE_SetPresent_def PE_SetWriteable_def PE_SetUserAccessible_def PE_SetPwt_def
  PE_SetPcd_def PE_SetAccessed_def PE_SetDirty_def PE_SetGlobal_def PE_SetAttribute_def

section \<open>Entries of the upper levels\<close>

definition UPE_Present :: u8 where "UPE_Present = 0x1"
definition UPE_Writeable :: u8 where "UPE_Writeable = 0x2"
definition UPE_UserAccessible :: u8 where "UPE_UserAccessible = 0x4"
definition UPE_CacheWritethrough :: u8 where "UPE_CacheWritethrough = 0x8"
definition UPE_CacheDisable :: u8 where "UPE_CacheDisable = 0x10"
definition UPE_Accessed :: u8 where "UPE_Accessed = 0x20"

lemmas upe_flags = UPE_Present_def UPE_Writeable_def UPE_UserAccessible_def UPE_CacheWritethrough_def
  UPE_CacheDisable_def UPE_Accessed_def

definition UPE_ADDRESS_MASK :: u64 where "UPE_ADDRESS_MASK = push_bit 12 0xFFFFFFF"

definition new_UpperPageEntry :: "u64 \<Rightarrow> u8 \<Rightarrow> entry" where
  "new_UpperPageEntry pagebase flags = (0 OR ucast flags) OR pagebase"

definition UPE_CreateUser :: "u64 \<Rightarrow> entry" where
  "UPE_CreateUser pagebase = new_UpperPageEntry pagebase (UPE_Present OR UPE_Writeable OR UPE_UserAccessible)"

definition UPE_CreateSupervisor :: "u64 \<Rightarrow> entry" where
  "UPE_CreateSupervisor pagebase = new_UpperPageEntry pagebase (UPE_Present OR UPE_Writeable)"

definition UPE_BaseAddress :: "entry \<Rightarrow> u64" where "UPE_BaseAddress e = e AND UPE_ADDRESS_MASK"

definition UPE_SetAttribute :: "bool \<Rightarrow> u8 \<Rightarrow> entry \<Rightarrow> entry" where
  "UPE_SetAttribute val modifier e = (if val then e OR ucast modifier else e AND NOT (ucast modifier))"

definition UPE_IsPresent :: "entry \<Rightarrow> bool" where "UPE_IsPresent e \<longleftrightarrow> e AND ucast UPE_Present \<noteq> 0"
definition UPE_SetPresent :: "bool \<Rightarrow> entry \<Rightarrow> entry" where "UPE_SetPresent b = UPE_SetAttribute b UPE_Present"
definition UPE_IsWriteable :: "entry \<Rightarrow> bool" where "UPE_IsWriteable e \<longleftrightarrow> e AND ucast UPE_Writeable \<noteq> 0"
definition UPE_SetWriteable :: "bool \<Rightarrow> entry \<Rightarrow> entry" where "UPE_SetWriteable b = UPE_SetAttribute b UPE_Writeable"
definition UPE_IsUserAccessible :: "entry \<Rightarrow> bool" where
  "UPE_IsUserAccessible e \<longleftrightarrow> e AND ucast UPE_UserAccessible \<noteq> 0"
definition UPE_SetUserAccessible :: "bool \<Rightarrow> entry \<Rightarrow> entry" where
  "UPE_SetUserAccessible b = UPE_SetAttribute b UPE_UserAccessible"
definition UPE_IsPwt :: "entry \<Rightarrow> bool" where "UPE_IsPwt e \<longleftrightarrow> e AND ucast UPE_CacheWritethrough \<noteq> 0"
definition UPE_SetPwt :: "bool \<Rightarrow> entry \<Rightarrow> entry" where "UPE_SetPwt b = UPE_SetAttribute b UPE_CacheWritethrough"
definition UPE_IsPcd :: "entry \<Rightarrow> bool" where "UPE_IsPcd e \<longleftrightarrow> e AND ucast UPE_CacheDisable \<noteq> 0"
definition UPE_SetPcd :: "bool \<Rightarrow> entry \<Rightarrow> entry" where "UPE_SetPcd b = UPE_SetAttribute b UPE_CacheDisable"
definition UPE_IsAccessed :: "entry \<Rightarrow> bool" where "UPE_IsAccessed e \<longleftrightarrow> e AND ucast UPE_Present \<noteq> 0"
definition UPE_SetAccessed :: "bool \<Rightarrow> entry \<Rightarrow> entry" where "UPE_SetAccessed b = UPE_SetAttribute b UPE_Accessed"

lemmas upe_queries = UPE_IsPresent_def UPE_IsWriteable_def UPE_IsUserAccessible_def UPE_IsPwt_def
  UPE_IsPcd_def UPE_IsAccessed_def

lemmas upe_setters = UPE_SetPresent_def UPE_SetWriteable_def UPE_SetUserAccessible_def UPE_SetPwt_def
  UPE_SetPcd_def UPE_SetAccessed_def UPE_SetAttribute_def

section \<open>Attribute flags\<close>

text \<open>The contract of a flag of an entry: what is set is read, and the page address stays.\<close>

locale entry_flag =
  fixes get :: "entry \<Rightarrow> bool" and set_flag :: "bool \<Rightarrow> entry \<Rightarrow> entry" and address :: "entry \<Rightarrow> u64"
  assumes get_set: "get (set_flag b e) = b"
    and set_get: "set_flag (get e) e = e"
    and set_set: "set_flag b (set_flag c e) = set_flag b e"
    and address_set: "address (set_flag b e) = address e"
begin

lemma set_eq_self_iff: "set_flag b e = e \<longleftrightarrow> get e = b"
  using get_set [of b e] set_get [of e] by auto

lemma address_fold: "address (fold set_flag bs e) = address e"
  by (induction bs arbitrary: e) (simp_all add: address_set)

lemma get_fold: "bs \<noteq> [] \<Longrightarrow> get (fold set_flag bs e) = last bs"
  by (induction bs arbitrary: e) (auto simp: get_set)

end

lemmas pe_rules = pe_queries pe_setters pe_flags PE_BaseAddress_def PE_ADDRESS_MASK_def bit_rules bit_test
lemmas upe_rules = upe_queries upe_setters upe_flags UPE_BaseAddress_def UPE_ADDRESS_MASK_def bit_rules bit_test

text \<open>Every query is a bit and every setter writes that bit.\<close>

lemma pe_bits:
  "PE_IsPresent e \<longleftrightarrow> bit e 0" "PE_SetPresent b e = put_flag 0 b e"
  "PE_IsWriteable e \<longleftrightarrow> bit e 1" "PE_SetWriteable b e = put_flag 1 b e"
  "PE_IsUserAccessible e \<longleftrightarrow> bit e 2" "PE_SetUserAccessible b e = put_flag 2 b e"
  "PE_IsPwt e \<longleftrightarrow> bit e 3" "PE_SetPwt b e = put_flag 3 b e"
  "PE_IsPcd e \<longleftrightarrow> bit e 4" "PE_SetPcd b e = put_flag 4 b e"
  "PE_IsAccessed e \<longleftrightarrow> bit e 5" "PE_SetAccessed b e = put_flag 5 b e"
  "PE_IsDirty e \<longleftrightarrow> bit e 6" "PE_SetDirty b e = put_flag 6 b e"
  "PE_IsGlobal e \<longleftrightarrow> bit e 8" "PE_SetGlobal b e = put_flag 8 b e"
  by (simp_all add: pe_queries pe_setters pe_flags put_flag_def bit_test)

lemma upe_bits:
  "UPE_IsPresent e \<longleftrightarrow> bit e 0" "UPE_SetPresent b e = put_flag 0 b e"
  "UPE_IsWriteable e \<longleftrightarrow> bit e 1" "UPE_SetWriteable b e = put_flag 1 b e"
  "UPE_IsUserAccessible e \<longleftrightarrow> bit e 2" "UPE_SetUserAccessible b e = put_flag 2 b e"
  "UPE_IsPwt e \<longleftrightarrow> bit e 3" "UPE_SetPwt b e = put_flag 3 b e"
  "UPE_IsPcd e \<longleftrightarrow> bit e 4" "UPE_SetPcd b e = put_flag 4 b e"
  "UPE_IsAccessed e \<longleftrightarrow> bit e 0" "UPE_SetAccessed b e = put_flag 5 b e"
  by (simp_all add: upe_queries upe_setters upe_flags put_flag_def bit_test)

lemma pe_address_bits: "n < 12 \<Longrightarrow> \<not> bit PE_ADDRESS_MASK n"
proof -
  have eq: "PE_ADDRESS_MASK = NOT (mask 12)" by (simp add: PE_ADDRESS_MASK_def mask_eq_exp_minus_1)
  show "n < 12 \<Longrightarrow> \<not> bit PE_ADDRESS_MASK n" unfolding eq by (simp only: bit_not_iff bit_mask_iff) simp
qed

lemma upe_address_bits: "n < 12 \<Longrightarrow> \<not> bit UPE_ADDRESS_MASK n"
  unfolding UPE_ADDRESS_MASK_def by (simp only: bit_push_bit_iff) simp

lemma pe_base_put: "n < 12 \<Longrightarrow> PE_BaseAddress (put_flag n b e) = PE_BaseAddress e"
  by (simp add: PE_BaseAddress_def put_flag_laws(4) pe_address_bits)

interpretation pe_present: entry_flag PE_IsPresent PE_SetPresent PE_BaseAddress
  by unfold_locales (simp_all add: pe_bits put_flag_laws PE_BaseAddress_def pe_address_bits del: bit_0)

interpretation pe_writeable: entry_flag PE_IsWriteable PE_SetWriteable PE_BaseAddress
  by unfold_locales (simp_all add: pe_bits put_flag_laws PE_BaseAddress_def pe_address_bits del: bit_0)

interpretation pe_user: entry_flag PE_IsUserAccessible PE_SetUserAccessible PE_BaseAddress
  by unfold_locales (simp_all add: pe_bits put_flag_laws PE_BaseAddress_def pe_address_bits del: bit_0)

interpretation pe_pwt: entry_flag PE_IsPwt PE_SetPwt PE_BaseAddress
  by unfold_locales (simp_all add: pe_bits put_flag_laws PE_BaseAddress_def pe_address_bits del: bit_0)

interpretation pe_pcd: entry_flag PE_IsPcd PE_SetPcd PE_BaseAddress
  by unfold_locales (simp_all add: pe_bits put_flag_laws PE_BaseAddress_def pe_address_bits del: bit_0)

interpretation pe_accessed: entry_flag PE_IsAccessed PE_SetAccessed PE_BaseAddress
  by unfold_locales (simp_all add: pe_bits put_flag_laws PE_BaseAddress_def pe_address_bits del: bit_0)

interpretation pe_dirty: entry_flag PE_IsDirty PE_SetDirty PE_BaseAddress
  by unfold_locales (simp_all add: pe_bits put_flag_laws PE_BaseAddress_def pe_address_bits del: bit_0)

interpretation pe_global: entry_flag PE_IsGlobal PE_SetGlobal PE_BaseAddress
  by unfold_locales (simp_all add: pe_bits put_flag_laws PE_BaseAddress_def pe_address_bits del: bit_0)

interpretation upe_present: entry_flag UPE_IsPresent UPE_SetPresent UPE_BaseAddress
  by unfold_locales (simp_all add: upe_bits put_flag_laws UPE_BaseAddress_def upe_address_bits del: bit_0)

interpretation upe_writeable: entry_flag UPE_IsWriteable UPE_SetWriteable UPE_BaseAddress
  by unfold_locales (simp_all add: upe_bits put_flag_laws UPE_BaseAddress_def upe_address_bits del: bit_0)

interpretation upe_user: entry_flag UPE_IsUserAccessible UPE_SetUserAccessible UPE_BaseAddress
  by unfold_locales (simp_all add: upe_bits put_flag_laws UPE_BaseAddress_def upe_address_bits del: bit_0)

interpretation upe_pwt: entry_flag UPE_IsPwt UPE_SetPwt UPE_BaseAddress
  by unfold_locales (simp_all add: upe_bits put_flag_laws UPE_BaseAddress_def upe_address_bits del: bit_0)

interpretation upe_pcd: entry_flag UPE_IsPcd UPE_SetPcd UPE_BaseAddress
  by unfold_locales (simp_all add: upe_bits put_flag_laws UPE_BaseAddress_def upe_address_bits del: bit_0)

text \<open>The eight attributes of an entry, for statements about all of them.\<close>

definition pe_attributes :: "entry \<Rightarrow> bool list" where
  "pe_attributes e = [PE_IsPresent e, PE_IsWriteable e, PE_IsUserAccessible e, PE_IsPwt e, PE_IsPcd e,
     PE_IsAccessed e, PE_IsDirty e, PE_IsGlobal e]"

section \<open>Virtual addresses\<close>

record PageIndices =
  pi_pm4le :: u16
  pi_pdpte :: u16
  pi_pde :: u16
  pi_pt :: u16

definition CANONCIAL_MASK :: u64 where "CANONCIAL_MASK = 0xFFFF800000000000"

definition IsCanoncial :: "u64 \<Rightarrow> bool" where
  "IsCanoncial virtAddr \<longleftrightarrow>
     virtAddr AND CANONCIAL_MASK = CANONCIAL_MASK \<or> virtAddr AND CANONCIAL_MASK = 0"

definition page_indices :: "u64 \<Rightarrow> PageIndices" where
  "page_indices vaddr =
     \<lparr>pi_pm4le = ucast (drop_bit 39 (vaddr AND push_bit 39 0x1FF)),
      pi_pdpte = ucast (drop_bit 30 (vaddr AND push_bit 30 0x1FF)),
      pi_pde = ucast (drop_bit 21 (vaddr AND push_bit 21 0x1FF)),
      pi_pt = ucast (drop_bit 12 (vaddr AND push_bit 12 0x1FF))\<rparr>"

definition ExtractPageIndicies :: "u64 \<Rightarrow> PageIndices result" where
  "ExtractPageIndicies virtAddr = rbind (rassert (IsCanoncial virtAddr)) (\<lambda>_. Inr (page_indices virtAddr))"

definition KVirtFromPageIndex :: "PageIndices \<Rightarrow> u16 \<Rightarrow> u64" where
  "KVirtFromPageIndex i offset =
     (let vaddr = 0xFFFF;
          vaddr = push_bit 9 vaddr OR ucast (pi_pm4le i AND 0x1FF);
          vaddr = push_bit 9 vaddr OR ucast (pi_pdpte i AND 0x1FF);
          vaddr = push_bit 9 vaddr OR ucast (pi_pde i AND 0x1FF);
          vaddr = push_bit 9 vaddr OR ucast (pi_pt i AND 0x1FF)
      in push_bit 12 vaddr OR ucast (offset AND 0xFFF))"

section \<open>Walking the tables\<close>

definition entry_addr :: "addr \<Rightarrow> u16 \<Rightarrow> addr" where
  "entry_addr table index = table + 8 * ucast index"

definition GetEntry :: "heap \<Rightarrow> addr \<Rightarrow> u16 \<Rightarrow> entry result" where
  "GetEntry m table index = rbind (guard_ptr table) (\<lambda>_. Inr (m (entry_addr table index)))"

definition SetEntry :: "addr \<Rightarrow> u16 \<Rightarrow> entry \<Rightarrow> heap \<Rightarrow> heap result" where
  "SetEntry table index e m = rbind (guard_ptr table) (\<lambda>_. Inr (m(entry_addr table index := e)))"

definition VirtToPhys :: "heap \<Rightarrow> addr \<Rightarrow> u64 \<Rightarrow> u64 result" where
  "VirtToPhys m pml4 virtAddr =
     rbind (rassert (IsCanoncial virtAddr)) (\<lambda>_.
     rbind (ExtractPageIndicies virtAddr) (\<lambda>index.
     rbind (GetEntry m pml4 (pi_pm4le index)) (\<lambda>pml4e.
       if \<not> UPE_IsPresent pml4e then Inr 0
       else rbind (GetEntry m (UPE_BaseAddress pml4e) (pi_pdpte index)) (\<lambda>pdpte.
         if \<not> UPE_IsPresent pdpte then Inr 0
         else rbind (GetEntry m (UPE_BaseAddress pdpte) (pi_pde index)) (\<lambda>pde.
           if \<not> UPE_IsPresent pde then Inr 0
           else rbind (GetEntry m (UPE_BaseAddress pde) (pi_pt index)) (\<lambda>pte.
             if \<not> PE_IsPresent pte then Inr 0
             else Inr (PE_BaseAddress pte + (virtAddr AND 0xFFF))))))))"

text \<open>One level of \<open>MapUserPage\<close>: a table entry that is not present gets a page of the allocator.\<close>

definition ensure_table :: "addr \<Rightarrow> u16 \<Rightarrow> freelist \<Rightarrow> (freelist \<times> addr) result" where
  "ensure_table table index s =
     rbind (GetEntry (mem s) table index) (\<lambda>e.
       if UPE_IsPresent e then Inr (s, UPE_BaseAddress e)
       else rbind (AllocatePage s) (\<lambda>(s, page).
              rbind (SetEntry table index (UPE_CreateUser page) (mem s)) (\<lambda>m.
                rbind (GetEntry m table index) (\<lambda>e. Inr (s\<lparr>mem := m\<rparr>, UPE_BaseAddress e)))))"

definition MapUserPage :: "addr \<Rightarrow> u64 \<Rightarrow> u64 \<Rightarrow> freelist \<Rightarrow> freelist result" where
  "MapUserPage pml4 virtAddr pageBase s =
     rbind (rassert (IsCanoncial virtAddr)) (\<lambda>_.
     rbind (rassert (pageBase mod 0x1000 = 0)) (\<lambda>_.
     rbind (ExtractPageIndicies virtAddr) (\<lambda>index.
     rbind (ensure_table pml4 (pi_pm4le index) s) (\<lambda>(s, pdpt).
     rbind (ensure_table pdpt (pi_pdpte index) s) (\<lambda>(s, pd).
     rbind (ensure_table pd (pi_pde index) s) (\<lambda>(s, pt).
     rbind (SetEntry pt (pi_pt index) (PE_CreateUser pageBase) (mem s)) (\<lambda>m. Inr (s\<lparr>mem := m\<rparr>))))))))"

section \<open>Whole tables\<close>

text \<open>The operations on a table as a list of its 512 entries; the library array does not check its index.\<close>

definition AreEntriesZero :: "entry list \<Rightarrow> bool" where
  "AreEntriesZero t \<longleftrightarrow> (\<forall>e \<in> set (take PAGE_TABLE_ENTRIES t). e = 0)"

definition ClearEntries :: "entry list \<Rightarrow> entry list" where
  "ClearEntries t = foldl (\<lambda>t i. t[i := 0]) t [0..<PAGE_TABLE_ENTRIES]"

definition AddEntry :: "u64 \<Rightarrow> entry \<Rightarrow> entry list \<Rightarrow> entry list result" where
  "AddEntry index e t =
     (if unat index < PAGE_TABLE_ENTRIES then Inr (t[unat index := e]) else Inl OutOfBounds)"

definition ClearEntry :: "u64 \<Rightarrow> entry list \<Rightarrow> entry list result" where
  "ClearEntry index t = AddEntry index 0 t"

definition GetBaseTable :: "u64 \<Rightarrow> u64" where
  "GetBaseTable cr3 = cr3 AND push_bit 12 0xFFFFFFF"

definition MapKernel :: "entry list \<Rightarrow> entry list \<Rightarrow> entry list result" where
  "MapKernel kernelTbl uptbl =
     AddEntry 0x800 (new_UpperPageEntry (UPE_BaseAddress (kernelTbl ! 0)) UPE_Present) uptbl"

text \<open>The process manager maps the kernel through an index that is a quotient of an address.\<close>

definition ProcessManager_MapKernel :: "u64 \<Rightarrow> entry list \<Rightarrow> entry list result" where
  "ProcessManager_MapKernel rootTable ptbl =
     AddEntry (0xffff800000000000 div 0x1000) (new_UpperPageEntry rootTable UPE_Present) ptbl"

section \<open>Kernel addresses\<close>

record KContext =
  kc_kernelBase :: u64
  kc_hhdmOffset :: u64

definition InitKContext :: "u64 \<Rightarrow> u64 \<Rightarrow> KContext" where
  "InitKContext virtual_base offset = \<lparr>kc_kernelBase = virtual_base, kc_hhdmOffset = offset\<rparr>"

definition KernelPhysAddr :: "KContext \<Rightarrow> u64" where "KernelPhysAddr k = kc_kernelBase k - kc_hhdmOffset k"
definition KernelVirtAddr :: "KContext \<Rightarrow> u64" where "KernelVirtAddr k = kc_kernelBase k"
definition PhysToVirtAddr :: "KContext \<Rightarrow> u64 \<Rightarrow> u64" where "PhysToVirtAddr k paddr = paddr + kc_hhdmOffset k"
definition VirtToPhysAddr :: "KContext \<Rightarrow> u64 \<Rightarrow> u64" where "VirtToPhysAddr k vaddr = vaddr - kc_hhdmOffset k"

section \<open>Entries and indices\<close>

lemma entry_addr_unat:
  assumes "0x1000 dvd unat t" "index < 512"
  shows "unat (entry_addr t index) = unat t + 8 * unat index"
proof -
  have i: "unat index < 512" using assms(2) by (simp add: word_less_nat_alt)
  have "unat (8 * ucast index :: u64) = 8 * unat index"
    using i by (simp add: unat_word_ariths unsigned_ucast_eq take_bit_nat_eq_self)
  moreover have "unat t + 8 * unat index < 2 ^ 64"
  proof -
    obtain k where k: "unat t = 0x1000 * k" using assms(1) by (auto elim: dvdE)
    have "unat t < 2 ^ 64" using unsigned_less [where ?'a = nat, of t] by simp
    then have "k < 2 ^ 52" using k by simp
    then show ?thesis using k i by simp
  qed
  ultimately show ?thesis by (simp add: entry_addr_def unat_add_no_wrap)
qed

lemma entry_addr_inj:
  assumes "0x1000 dvd unat t" "0x1000 dvd unat t'" "i < 512" "j < 512"
    and "entry_addr t i = entry_addr t' j"
  shows "t = t' \<and> i = j"
proof -
  have u: "unat t + 8 * unat i = unat t' + 8 * unat j"
    using entry_addr_unat [OF assms(1,3)] entry_addr_unat [OF assms(2,4)] assms(5) by simp
  have ij: "8 * unat i < 0x1000" "8 * unat j < 0x1000" using assms(3,4) by (simp_all add: word_less_nat_alt)
  obtain k k' where k: "unat t = 0x1000 * k" "unat t' = 0x1000 * k'" using assms(1,2) by (auto elim!: dvdE)
  have "k = k'" using u ij k by linarith
  then have "unat t = unat t'" "unat i = unat j" using u k by simp_all
  then show ?thesis by (simp add: word_unat_eq_iff)
qed

lemma entry_addr_0: "entry_addr t 0 = t"
  by (simp add: entry_addr_def)

lemma page_index_bounds:
  "pi_pm4le (page_indices va) < 512" "pi_pdpte (page_indices va) < 512"
  "pi_pde (page_indices va) < 512" "pi_pt (page_indices va) < 512"
proof -
  have "(x :: u16) < 512" if "\<And>n. 9 \<le> n \<Longrightarrow> \<not> bit x n" for x
  proof -
    have "x = x AND 0x1FF" using that by (simp add: word16_bits_eq bit_rules)
    moreover have "x AND 0x1FF \<le> 0x1FF" by (rule word_and_le1)
    ultimately have "x \<le> 0x1FF" by simp
    then show ?thesis by (simp add: word_le_nat_alt word_less_nat_alt)
  qed
  note small = this
  have "bit (0x1FF :: u64) m \<Longrightarrow> m < 9" for m
    using unat_less_no_bit [of "0x1FF :: u64" 9 m] by (cases "9 \<le> m") auto
  then show "pi_pm4le (page_indices va) < 512" "pi_pdpte (page_indices va) < 512"
    "pi_pde (page_indices va) < 512" "pi_pt (page_indices va) < 512"
    by (intro small; force simp: page_indices_def bit_rules)+
qed

lemma upe_create_user:
  assumes "0x1000 dvd unat page" "unat page < 2 ^ 40"
  shows "UPE_IsPresent (UPE_CreateUser page)" "UPE_BaseAddress (UPE_CreateUser page) = page"
proof -
  have low: "\<not> bit page n" if "n < 12" for n
  proof -
    have "take_bit 12 (unat page) = 0" using assms(1) by (simp add: take_bit_eq_mod)
    then have "\<not> bit (take_bit 12 (unat page)) n" by simp
    with that have "\<not> bit (unat page) n" by (simp add: bit_take_bit_iff)
    then show ?thesis by (simp add: bit_unsigned_iff)
  qed
  have high: "\<not> bit page n" if "40 \<le> n" for n
    using assms(2) that by (rule unat_less_no_bit)
  show "UPE_IsPresent (UPE_CreateUser page)"
    by (simp add: upe_rules UPE_CreateUser_def new_UpperPageEntry_def)
  show "UPE_BaseAddress (UPE_CreateUser page) = page"
    by (simp add: word64_bits_eq upe_rules UPE_CreateUser_def new_UpperPageEntry_def low high)
qed

lemma pe_create_user:
  assumes "0x1000 dvd unat page"
  shows "PE_IsPresent (PE_CreateUser page)" "PE_BaseAddress (PE_CreateUser page) = page"
proof -
  have low: "\<not> bit page n" if "n < 12" for n
  proof -
    have "take_bit 12 (unat page) = 0" using assms by (simp add: take_bit_eq_mod)
    then have "\<not> bit (take_bit 12 (unat page)) n" by simp
    with that have "\<not> bit (unat page) n" by (simp add: bit_take_bit_iff)
    then show ?thesis by (simp add: bit_unsigned_iff)
  qed
  show "PE_IsPresent (PE_CreateUser page)"
    by (simp add: pe_rules PE_CreateUser_def new_PageEntry_def)
  show "PE_BaseAddress (PE_CreateUser page) = page"
    by (simp add: word64_bits_eq pe_rules PE_CreateUser_def new_PageEntry_def low)
qed

section \<open>Mapping into a fresh part of the address space\<close>

lemma ensure_table_fresh:
  assumes ok: "freelist_ok s (p # hs) ls" and t: "t \<noteq> 0" "\<not> UPE_IsPresent (mem s (entry_addr t i))"
    and nz: "entry_addr t i \<notin> set (p # hs) \<union> set ls" and p: "0x1000 dvd unat p" "unat p < 2 ^ 40"
  shows "\<exists>s'. ensure_table t i s = Inr (s', p) \<and> freelist_ok s' hs ls \<and>
           mem s' (entry_addr t i) = UPE_CreateUser p \<and>
           (\<forall>x. x \<noteq> p \<and> x \<noteq> entry_addr t i \<longrightarrow> mem s' x = mem s x) \<and> mem s' p = 0"
proof -
  from ok have c: "chain (mem s) (m_head s) (p # hs)" "ascending (p # hs)" by (simp_all add: freelist_ok_def)
  then have "m_head s = p" "p \<noteq> 0" by auto
  then have al: "AllocatePage s = Inr (s\<lparr>mem := (mem s)(p := 0), m_head := mem s p,
      m_freePagesTop := m_freePagesTop s - 1\<rparr>, p)"
    by (simp add: AllocatePage_def AllocatePageImpl_def)
  let ?s1 = "s\<lparr>mem := (mem s)(p := 0), m_head := mem s p, m_freePagesTop := m_freePagesTop s - 1\<rparr>"
  have ok1: "freelist_ok ?s1 hs ls"
    using AllocatePage_spec [OF ok] al by simp
  let ?s2 = "?s1\<lparr>mem := (mem ?s1)(entry_addr t i := UPE_CreateUser p)\<rparr>"
  have "freelist_ok ?s2 hs ls" by (rule freelist_ok_write [OF ok1]) (use nz in auto)
  moreover have "ensure_table t i s = Inr (?s2, p)"
    using t al upe_create_user [OF p] by (simp add: ensure_table_def GetEntry_def SetEntry_def)
  ultimately show ?thesis using nz by auto
qed

definition page_aligned :: "addr \<Rightarrow> bool" where
  "page_aligned p \<longleftrightarrow> 0x1000 dvd unat p"

lemma entry_addr_eq_iff:
  "page_aligned t \<Longrightarrow> page_aligned t' \<Longrightarrow> i < 512 \<Longrightarrow> j < 512 \<Longrightarrow>
   entry_addr t i = entry_addr t' j \<longleftrightarrow> t = t' \<and> i = j"
  using entry_addr_inj unfolding page_aligned_def by blast

lemma entry_addr_eq_page:
  "page_aligned t \<Longrightarrow> page_aligned p \<Longrightarrow> i < 512 \<Longrightarrow> entry_addr t i = p \<longleftrightarrow> t = p \<and> i = 0"
  using entry_addr_eq_iff [of t p i 0] by (simp add: entry_addr_0)

text \<open>A free page whose words behind the link are zero gives a table with no present entry.\<close>

definition zeroed :: "heap \<Rightarrow> addr \<Rightarrow> bool" where
  "zeroed m p \<longleftrightarrow> (\<forall>i. 0 < i \<longrightarrow> i < 512 \<longrightarrow> m (entry_addr p i) = 0)"

lemma zero_not_present: "\<not> UPE_IsPresent 0"
  by (simp add: UPE_IsPresent_def)

text \<open>Addresses of one page have the same indices, so the walk differs only in the offset it adds.\<close>

lemma same_page_masked:
  fixes va va' k :: u64
  assumes "va' AND NOT 0xFFF = va AND NOT 0xFFF" "NOT 0xFFF AND k = k"
  shows "va' AND k = va AND k"
proof -
  have "va' AND k = (va' AND NOT 0xFFF) AND k" using assms(2) by (simp only: and.assoc)
  also have "\<dots> = va AND k" using assms by (simp only: and.assoc)
  finally show ?thesis .
qed

lemma same_page_walk:
  fixes va va' :: u64
  assumes "va' AND NOT 0xFFF = va AND NOT 0xFFF"
  shows "IsCanoncial va' = IsCanoncial va" "page_indices va' = page_indices va"
  using assms by (simp_all add: IsCanoncial_def CANONCIAL_MASK_def page_indices_def same_page_masked [OF assms])

lemma MapUserPage_fresh_table:
  assumes va: "IsCanoncial va" and pb: "page_aligned pb"
    and ok: "freelist_ok s (p1 # p2 # p3 # hs) ls"
    and free: "\<forall>p \<in> set (p1 # p2 # p3 # hs) \<union> set ls. page_aligned p"
    and low: "unat p1 < 2 ^ 40" "unat p2 < 2 ^ 40" "unat p3 < 2 ^ 40"
    and z: "zeroed (mem s) p1" "zeroed (mem s) p2"
    and pml4: "page_aligned pml4" "pml4 \<noteq> 0" "pml4 \<notin> set (p1 # p2 # p3 # hs) \<union> set ls"
    and np: "\<not> UPE_IsPresent (mem s (entry_addr pml4 (pi_pm4le (page_indices va))))"
  shows "\<exists>s'. MapUserPage pml4 va pb s = Inr s' \<and> freelist_ok s' hs ls \<and>
           (\<forall>va'. va' AND NOT 0xFFF = va AND NOT 0xFFF \<longrightarrow>
              VirtToPhys (mem s') pml4 va' = Inr (pb + (va' AND 0xFFF)))"
proof -
  define i where "i = page_indices va"
  note lt = page_index_bounds [of va, folded i_def]
  let ?e1 = "entry_addr pml4 (pi_pm4le i)" and ?e2 = "entry_addr p1 (pi_pdpte i)"
    and ?e3 = "entry_addr p2 (pi_pde i)" and ?e4 = "entry_addr p3 (pi_pt i)"
  have al: "page_aligned p1" "page_aligned p2" "page_aligned p3" using free by simp_all
  have "distinct (p1 # p2 # p3 # hs)" using ok ascending_distinct by (auto simp: freelist_ok_def)
  moreover have "set (p1 # p2 # p3 # hs) \<inter> set ls = {}" using ok by (simp add: freelist_ok_def)
  moreover have "0 \<notin> set (p1 # p2 # p3 # hs) \<union> set ls" by (rule freelist_ok_nonnull [OF ok])
  ultimately have d: "p1 \<notin> set (p2 # p3 # hs) \<union> set ls" "p2 \<notin> set (p3 # hs) \<union> set ls"
      "p3 \<notin> set hs \<union> set ls" "p1 \<noteq> 0" "p2 \<noteq> 0" "p3 \<noteq> 0"
    by auto
  have ne: "p1 \<noteq> p2" "p1 \<noteq> p3" "p2 \<noteq> p3" "pml4 \<noteq> p1" "pml4 \<noteq> p2" "pml4 \<noteq> p3" using d pml4 by auto
  have out: "entry_addr t j \<notin> X" if "page_aligned t" "j < 512" "t \<notin> X" "\<forall>p \<in> X. page_aligned p" for t j X
  proof
    assume e: "entry_addr t j \<in> X"
    with that have "page_aligned (entry_addr t j)" by blast
    with that entry_addr_eq_page [of t "entry_addr t j" j] have "t = entry_addr t j" by blast
    then have "t \<in> X" using e by (simp only:)
    with that(3) show False by contradiction
  qed
  note eqs = entry_addr_eq_iff entry_addr_eq_page al pml4(1) lt ne ne [symmetric]
  obtain s1 where s1: "ensure_table pml4 (pi_pm4le i) s = Inr (s1, p1)" "freelist_ok s1 (p2 # p3 # hs) ls"
      "mem s1 ?e1 = UPE_CreateUser p1" "\<forall>x. x \<noteq> p1 \<and> x \<noteq> ?e1 \<longrightarrow> mem s1 x = mem s x" "mem s1 p1 = 0"
    using ensure_table_fresh [OF ok pml4(2) np [folded i_def]] al(1) low(1)
      out [OF pml4(1) lt(1) pml4(3) free] unfolding page_aligned_def by blast
  have np2: "\<not> UPE_IsPresent (mem s1 ?e2)"
  proof (cases "pi_pdpte i = 0")
    case True
    then show ?thesis using s1(5) zero_not_present by (simp add: entry_addr_0)
  next
    case False
    then have "mem s1 ?e2 = mem s ?e2" using s1(4) eqs by simp
    also have "\<dots> = 0" using z(1) False lt(2) by (simp add: zeroed_def word_neq_0_conv)
    finally show ?thesis using zero_not_present by simp
  qed
  obtain s2 where s2: "ensure_table p1 (pi_pdpte i) s1 = Inr (s2, p2)" "freelist_ok s2 (p3 # hs) ls"
      "mem s2 ?e2 = UPE_CreateUser p2" "\<forall>x. x \<noteq> p2 \<and> x \<noteq> ?e2 \<longrightarrow> mem s2 x = mem s1 x" "mem s2 p2 = 0"
    using ensure_table_fresh [OF s1(2) d(4) np2] al(2) low(2) out [OF al(1) lt(2) d(1)] free
    unfolding page_aligned_def by auto
  have np3: "\<not> UPE_IsPresent (mem s2 ?e3)"
  proof (cases "pi_pde i = 0")
    case True
    then show ?thesis using s2(5) zero_not_present by (simp add: entry_addr_0)
  next
    case False
    then have "mem s2 ?e3 = mem s ?e3" using s2(4) s1(4) eqs by simp
    also have "\<dots> = 0" using z(2) False lt(3) by (simp add: zeroed_def word_neq_0_conv)
    finally show ?thesis using zero_not_present by simp
  qed
  obtain s3 where s3: "ensure_table p2 (pi_pde i) s2 = Inr (s3, p3)" "freelist_ok s3 hs ls"
      "mem s3 ?e3 = UPE_CreateUser p3" "\<forall>x. x \<noteq> p3 \<and> x \<noteq> ?e3 \<longrightarrow> mem s3 x = mem s2 x" "mem s3 p3 = 0"
    using ensure_table_fresh [OF s2(2) d(5) np3] al(3) low(3) out [OF al(2) lt(3) d(2)] free
    unfolding page_aligned_def by auto
  let ?s = "s3\<lparr>mem := (mem s3)(?e4 := PE_CreateUser pb)\<rparr>"
  have "unat pb mod 0x1000 = 0" using pb by (simp add: page_aligned_def dvd_eq_mod_eq_0)
  then have pb0: "pb mod 0x1000 = 0" by (simp add: word_unat_eq_iff unat_mod_distrib)
  have run: "MapUserPage pml4 va pb s = Inr ?s"
    using va pb0 s1(1) s2(1) s3(1) d(6)
    by (simp add: MapUserPage_def ExtractPageIndicies_def SetEntry_def i_def [symmetric])
  have fl: "freelist_ok ?s hs ls"
    by (rule freelist_ok_write [OF s3(2)]) (use out [OF al(3) lt(4) d(3)] free in auto)
  have m: "mem ?s ?e1 = UPE_CreateUser p1" "mem ?s ?e2 = UPE_CreateUser p2" "mem ?s ?e3 = UPE_CreateUser p3"
      "mem ?s ?e4 = PE_CreateUser pb"
    using s1(3) s2(3,4) s3(3,4) eqs by simp_all
  have "VirtToPhys (mem ?s) pml4 va' = Inr (pb + (va' AND 0xFFF))" if "va' AND NOT 0xFFF = va AND NOT 0xFFF" for va'
    using va same_page_walk [OF that] m d pml4(2) low upe_create_user [of p1] upe_create_user [of p2]
      upe_create_user [of p3] pe_create_user [of pb] al pb
    unfolding page_aligned_def
    by (simp add: VirtToPhys_def ExtractPageIndicies_def GetEntry_def i_def [symmetric] del: fun_upd_apply)
  with run fl show ?thesis by blast
qed

section \<open>Properties\<close>

text \<open>
  The attribute setters of a page table entry are independent: each changes exactly its own attribute
  of the eight and leaves the page address alone.
\<close>

theorem PageEntry_attributes_independent:
  "pe_attributes (PE_SetPresent b e) = (pe_attributes e)[0 := b] \<and>
   pe_attributes (PE_SetWriteable b e) = (pe_attributes e)[1 := b] \<and>
   pe_attributes (PE_SetUserAccessible b e) = (pe_attributes e)[2 := b] \<and>
   pe_attributes (PE_SetPwt b e) = (pe_attributes e)[3 := b] \<and>
   pe_attributes (PE_SetPcd b e) = (pe_attributes e)[4 := b] \<and>
   pe_attributes (PE_SetAccessed b e) = (pe_attributes e)[5 := b] \<and>
   pe_attributes (PE_SetDirty b e) = (pe_attributes e)[6 := b] \<and>
   pe_attributes (PE_SetGlobal b e) = (pe_attributes e)[7 := b] \<and>
   map PE_BaseAddress [PE_SetPresent b e, PE_SetWriteable b e, PE_SetUserAccessible b e, PE_SetPwt b e,
     PE_SetPcd b e, PE_SetAccessed b e, PE_SetDirty b e, PE_SetGlobal b e] = replicate 8 (PE_BaseAddress e)"
  by (simp add: pe_attributes_def pe_bits bit_put_flag pe_base_put eval_nat_numeral)

text \<open>
  C23. The index split is exact: from the indices of a kernel address and its offset within the page the
  address is rebuilt, and the indices of a rebuilt address are the ones it was built from.
\<close>

theorem page_indices_roundtrip:
  "(va AND 0xFFFF000000000000 = 0xFFFF000000000000 \<longrightarrow>
      KVirtFromPageIndex (page_indices va) (ucast (va AND 0xFFF)) = va) \<and>
   page_indices (KVirtFromPageIndex i off)
     = \<lparr>pi_pm4le = pi_pm4le i AND 0x1FF, pi_pdpte = pi_pdpte i AND 0x1FF,
        pi_pde = pi_pde i AND 0x1FF, pi_pt = pi_pt i AND 0x1FF\<rparr>"
proof
  show "va AND 0xFFFF000000000000 = 0xFFFF000000000000 \<longrightarrow>
      KVirtFromPageIndex (page_indices va) (ucast (va AND 0xFFF)) = va"
  proof
    assume h: "va AND 0xFFFF000000000000 = 0xFFFF000000000000"
    have hi: "bit va 48" "bit va 49" "bit va 50" "bit va 51" "bit va 52" "bit va 53" "bit va 54"
        "bit va 55" "bit va 56" "bit va 57" "bit va 58" "bit va 59" "bit va 60" "bit va 61" "bit va 62" "bit va 63"
      using h unfolding word64_bits_eq by (simp_all add: bit_rules)
    show "KVirtFromPageIndex (page_indices va) (ucast (va AND 0xFFF)) = va"
      by (rule word64_eqI) (simp add: KVirtFromPageIndex_def page_indices_def Let_def bit_rules hi)
  qed
  show "page_indices (KVirtFromPageIndex i off)
     = \<lparr>pi_pm4le = pi_pm4le i AND 0x1FF, pi_pdpte = pi_pdpte i AND 0x1FF,
        pi_pde = pi_pde i AND 0x1FF, pi_pt = pi_pt i AND 0x1FF\<rparr>"
    by (simp add: page_indices_def) (intro conjI word16_eqI; simp add: KVirtFromPageIndex_def Let_def bit_rules)
qed

theorem page_indices_roundtrip_witness:
  "KVirtFromPageIndex (page_indices 0xFFFF800012345678) (ucast (0xFFFF800012345678 AND 0xFFF :: u64))
     = 0xFFFF800012345678"
  using page_indices_roundtrip [of "0xFFFF800012345678"] by simp

text \<open>
  C22. Mapping a user page at a canonical address into a part of the address space that has no tables yet (the entry of the
  root table is not present) succeeds when the page allocator's next three pages lie below 2^40, which is as far as an
  upper table entry can point, and the first two hold zeroes behind their links: it takes exactly those three pages as
  tables, and the walk then translates every address of the virtual page (every \<open>va'\<close> that differs from \<open>va\<close> in the low
  twelve bits only) to the same offset of the mapped page-aligned physical page.
\<close>

theorem MapUserPage_translates:
  assumes "IsCanoncial va" "page_aligned pb" "freelist_ok s (p1 # p2 # p3 # hs) ls"
    and "\<forall>p \<in> set (p1 # p2 # p3 # hs) \<union> set ls. page_aligned p"
    and "unat p1 < 2 ^ 40" "unat p2 < 2 ^ 40" "unat p3 < 2 ^ 40"
    and "zeroed (mem s) p1" "zeroed (mem s) p2"
    and "page_aligned pml4" "pml4 \<noteq> 0" "pml4 \<notin> set (p1 # p2 # p3 # hs) \<union> set ls"
    and "\<not> UPE_IsPresent (mem s (entry_addr pml4 (pi_pm4le (page_indices va))))"
  shows "\<exists>s'. MapUserPage pml4 va pb s = Inr s' \<and> freelist_ok s' hs ls \<and>
           (\<forall>va'. va' AND NOT 0xFFF = va AND NOT 0xFFF \<longrightarrow>
              VirtToPhys (mem s') pml4 va' = Inr (pb + (va' AND 0xFFF)))"
  by (rule MapUserPage_fresh_table [OF assms])

definition mapping_example :: freelist where
  "mapping_example = \<lparr>mem = (\<lambda>_. 0)(0x100000000 := 0x100001000, 0x100001000 := 0x100002000),
     m_head = 0x100000000, m_lowHead = 0, m_freePagesTop = 3, m_freePagesLow = 0\<rparr>"

theorem MapUserPage_translates_witness:
  "\<exists>s'. MapUserPage 0x5000 0x400123 0x7000 mapping_example = Inr s' \<and>
     VirtToPhys (mem s') 0x5000 0x400123 = Inr 0x7123 \<and> VirtToPhys (mem s') 0x5000 0x400FFF = Inr 0x7FFF"
proof -
  have ok: "freelist_ok mapping_example [0x100000000, 0x100001000, 0x100002000] []"
    by (simp add: freelist_ok_def mapping_example_def)
  have z: "zeroed (mem mapping_example) p" if "p = 0x100000000 \<or> p = 0x100001000" for p
  proof -
    have "page_aligned 0x100000000" "page_aligned 0x100001000" "page_aligned p"
      using that by (auto simp: page_aligned_def)
    then have "entry_addr p i \<noteq> 0x100000000 \<and> entry_addr p i \<noteq> 0x100001000" if "0 < i" "i < 512" for i
      using that entry_addr_eq_page [of p _ i] by auto
    then show ?thesis by (simp add: zeroed_def mapping_example_def)
  qed
  have "\<exists>s'. MapUserPage 0x5000 0x400123 0x7000 mapping_example = Inr s' \<and> freelist_ok s' [] [] \<and>
      (\<forall>va'. va' AND NOT 0xFFF = 0x400123 AND NOT 0xFFF \<longrightarrow>
         VirtToPhys (mem s') 0x5000 va' = Inr (0x7000 + (va' AND 0xFFF)))"
    by (rule MapUserPage_translates [OF _ _ ok _ _ _ _ z z])
       (simp_all add: IsCanoncial_def CANONCIAL_MASK_def page_aligned_def page_indices_def entry_addr_def
          mapping_example_def zero_not_present)
  then obtain s' where run: "MapUserPage 0x5000 0x400123 0x7000 mapping_example = Inr s'"
    and all: "\<forall>va'. va' AND NOT 0xFFF = 0x400123 AND NOT 0xFFF \<longrightarrow>
         VirtToPhys (mem s') 0x5000 va' = Inr (0x7000 + (va' AND 0xFFF))" by blast
  show ?thesis using run all [THEN spec, of "0x400123"] all [THEN spec, of "0x400FFF"] by auto
qed

text \<open>
  In an upper table entry the accessed attribute cannot be read: the query tests the present bit, so
  setting or clearing the accessed bit does not change its answer.
\<close>

theorem UPE_IsAccessed_reads_present:
  "UPE_IsAccessed (UPE_SetAccessed b e) = UPE_IsPresent e"
  by (simp add: upe_bits bit_put_flag)

text \<open>
  Both routines that map the kernel index a 512-entry table out of bounds, whatever the tables hold:
  the utility writes entry 0x800, the process manager the quotient of a kernel address by the page size.
\<close>

theorem MapKernel_out_of_bounds:
  "MapKernel kernelTbl uptbl = Inl OutOfBounds \<and> ProcessManager_MapKernel rootTable ptbl = Inl OutOfBounds"
  by (simp add: MapKernel_def ProcessManager_MapKernel_def AddEntry_def PAGE_TABLE_ENTRIES_def)

end
