(* ===== verification/Page_Tables.thy ===== *)
theory Page_Tables
  imports Paging
begin

text \<open>
  The last level of the page tables as an object (\<open>kernel/src/x86_64/paging/page_table\<close>) and the flush of the
  translation buffer (\<open>kernel/src/x86_64/utilites.hpp\<close>) it performs after every entry it clears.  The processor is a
  parameter with the two assembly routines for its control register 0.
\<close>

record 'c cr0_ops =
  readcr0 :: "'c \<Rightarrow> u64"
  writecr0 :: "u32 \<Rightarrow> 'c \<Rightarrow> 'c"

definition InvalidateTlb :: "'c cr0_ops \<Rightarrow> 'c \<Rightarrow> 'c" where
  "InvalidateTlb cpu c =
     (let cr0 = readcr0 cpu c;
          cr0 = cr0 AND 0xEFFFFFFF;
          c = writecr0 cpu (ucast cr0) c;
          cr0 = cr0 OR 0x80000000
      in writecr0 cpu (ucast cr0) c)"

definition PT_AreEntriesZero :: "entry list \<Rightarrow> bool" where
  "PT_AreEntriesZero t \<longleftrightarrow> (\<forall>e \<in> set (take PAGE_TABLE_ENTRIES t). e = 0)"

definition PT_ClearEntries :: "'c cr0_ops \<Rightarrow> entry list \<times> 'c \<Rightarrow> entry list \<times> 'c" where
  "PT_ClearEntries cpu st = fold (\<lambda>i (t, c). (t[i := 0], InvalidateTlb cpu c)) [0..<PAGE_TABLE_ENTRIES] st"

definition PT_AddEntry :: "u64 \<Rightarrow> entry \<Rightarrow> entry list \<Rightarrow> entry list result" where
  "PT_AddEntry index e t = (if unat index < PAGE_TABLE_ENTRIES then Inr (t[unat index := e]) else Inl OutOfBounds)"

definition PT_ClearEntry :: "u64 \<Rightarrow> entry list \<Rightarrow> entry list result" where
  "PT_ClearEntry index t = PT_AddEntry index 0 t"

definition PT_GetEntry :: "u64 \<Rightarrow> entry list \<Rightarrow> entry result" where
  "PT_GetEntry index t = (if unat index < PAGE_TABLE_ENTRIES then Inr (t ! unat index) else Inl OutOfBounds)"

lemma clear_prefix:
  "k \<le> length t \<Longrightarrow> fold (\<lambda>i (t, c). (t[i := 0], InvalidateTlb cpu c)) [0..<k] (t, c) =
     (replicate k 0 @ drop k t, (InvalidateTlb cpu ^^ k) c)"
proof (induction k)
  case (Suc k)
  then have "(replicate k 0 @ drop k t)[k := 0] = replicate k 0 @ 0 # drop (Suc k) t"
    by (simp add: list_update_append Cons_nth_drop_Suc [symmetric])
  with Suc show ?case by (simp add: replicate_append_same [symmetric])
qed simp

text \<open>A cleared table is empty, and the translation buffer has been flushed once for each of its 512 entries.\<close>

lemma PT_ClearEntries_clears:
  assumes "length t = PAGE_TABLE_ENTRIES"
  shows "PT_ClearEntries cpu (t, c) = (replicate PAGE_TABLE_ENTRIES 0, (InvalidateTlb cpu ^^ PAGE_TABLE_ENTRIES) c)"
    and "PT_AreEntriesZero (fst (PT_ClearEntries cpu (t, c)))"
proof -
  show eq: "PT_ClearEntries cpu (t, c) = (replicate PAGE_TABLE_ENTRIES 0, (InvalidateTlb cpu ^^ PAGE_TABLE_ENTRIES) c)"
    unfolding PT_ClearEntries_def by (subst clear_prefix) (use assms in auto)
  show "PT_AreEntriesZero (fst (PT_ClearEntries cpu (t, c)))"
    unfolding eq by (simp add: PT_AreEntriesZero_def)
qed

text \<open>
  The mask clears bit 28 where the paging bit is bit 31: a processor that logs the writes to its register sees the paging
  bit set in both of them, so paging is never switched off and the buffer is not invalidated.
\<close>

lemma InvalidateTlb_never_disables_paging:
  assumes "bit (readcr0 cpu c) 31" "writecr0 cpu = (\<lambda>v c. c @ [v])"
  shows "\<exists>v w. InvalidateTlb cpu c = c @ [v, w] \<and> bit v 31 \<and> bit w 31"
  using assms by (simp add: InvalidateTlb_def Let_def bit_rules)

lemma PT_entries: 
  "unat index < PAGE_TABLE_ENTRIES \<Longrightarrow> length t = PAGE_TABLE_ENTRIES \<Longrightarrow>
     \<exists>t'. PT_AddEntry index e t = Inr t' \<and> PT_GetEntry index t' = Inr e \<and>
       (\<forall>j. j \<noteq> index \<longrightarrow> PT_GetEntry j t' = PT_GetEntry j t)"
  by (auto simp: PT_AddEntry_def PT_GetEntry_def word_unat_eq_iff)

end
