(* ===== verification/Pic.thy ===== *)
theory Pic
  imports Bit_Fields
begin

text \<open>
  The driver of the two cascaded 8259 interrupt controllers (\<open>kernel/src/x86_64/interrupts/controllers/pic\<close>).  The
  port instructions are assembly, and what a port does is the device's business: both are a parameter, a record of
  the two instructions over a device state.  \<open>mask_latch\<close> states the documented behaviour the driver relies on.
\<close>

section \<open>Port input and output\<close>

record 'd ports =
  p_inb :: "u16 \<Rightarrow> 'd \<Rightarrow> u8 \<times> 'd"
  p_outb :: "u16 \<Rightarrow> u8 \<Rightarrow> 'd \<Rightarrow> 'd"

definition MASTER_BASE_PORT :: u16 where "MASTER_BASE_PORT = 0x20"

definition SLAVE_BASE_PORT :: u16 where "SLAVE_BASE_PORT = 0xA0"

section \<open>The controller\<close>

record CachedICW =
  icw1 :: u16
  icw2 :: u16
  icw3 :: u16
  icw4 :: u16

record PicController =
  pic_masterIcws :: CachedICW
  pic_slaveIcws :: CachedICW
  pic_masterOffset :: u16
  pic_slaveOffset :: u16

definition FlushICWs :: "'d ports \<Rightarrow> PicController \<Rightarrow> 'd \<Rightarrow> 'd" where
  "FlushICWs io c d =
     (let d = p_outb io MASTER_BASE_PORT (ucast (icw1 (pic_masterIcws c))) d;
          d = p_outb io (MASTER_BASE_PORT + 1) (ucast (icw2 (pic_masterIcws c))) d;
          d = p_outb io (MASTER_BASE_PORT + 1) (ucast (icw3 (pic_masterIcws c))) d;
          d = p_outb io (MASTER_BASE_PORT + 1) (ucast (icw4 (pic_masterIcws c))) d;
          d = p_outb io SLAVE_BASE_PORT (ucast (icw1 (pic_slaveIcws c))) d;
          d = p_outb io (SLAVE_BASE_PORT + 1) (ucast (icw2 (pic_slaveIcws c))) d;
          d = p_outb io (SLAVE_BASE_PORT + 1) (ucast (icw3 (pic_slaveIcws c))) d
      in p_outb io (SLAVE_BASE_PORT + 1) (ucast (icw4 (pic_slaveIcws c))) d)"

definition Pic_Initialise :: "'d ports \<Rightarrow> PicController \<Rightarrow> 'd \<Rightarrow> PicController \<times> 'd" where
  "Pic_Initialise io c d =
     (let ICW1 = 0x11;
          c = c\<lparr>pic_masterIcws := \<lparr>icw1 = ICW1, icw2 = pic_masterOffset c AND 0xF8, icw3 = 0x04, icw4 = 0x01\<rparr>,
                pic_slaveIcws := \<lparr>icw1 = ICW1, icw2 = pic_slaveOffset c AND 0xF8, icw3 = 0x02, icw4 = 0x01\<rparr>\<rparr>
      in (c, FlushICWs io c d))"

definition ClearMasks :: "'d ports \<Rightarrow> 'd \<Rightarrow> 'd" where
  "ClearMasks io d = p_outb io (SLAVE_BASE_PORT + 1) 0 (p_outb io (MASTER_BASE_PORT + 1) 0 d)"

definition MaskAll :: "'d ports \<Rightarrow> 'd \<Rightarrow> 'd" where
  "MaskAll io d = p_outb io (SLAVE_BASE_PORT + 1) 0xFF (p_outb io (MASTER_BASE_PORT + 1) 0xFF d)"

definition Pic_Enable :: "'d ports \<Rightarrow> 'd \<Rightarrow> 'd" where
  "Pic_Enable io d = ClearMasks io d"

definition Pic_Disable :: "'d ports \<Rightarrow> 'd \<Rightarrow> 'd" where
  "Pic_Disable io d = MaskAll io d"

text \<open>The constructors: linear offsets, the slave's computed in a byte, and independent ones.\<close>

definition new_Pic2 :: "'d ports \<Rightarrow> PicController \<Rightarrow> u16 \<Rightarrow> u16 \<Rightarrow> 'd \<Rightarrow> PicController \<times> 'd" where
  "new_Pic2 io uninit masterOffset slaveOffset d =
     (let c = uninit\<lparr>pic_masterOffset := masterOffset, pic_slaveOffset := slaveOffset\<rparr>;
          (c, d) = Pic_Initialise io c d
      in (c, ClearMasks io d))"

definition new_Pic :: "'d ports \<Rightarrow> PicController \<Rightarrow> u16 \<Rightarrow> 'd \<Rightarrow> PicController \<times> 'd" where
  "new_Pic io uninit vectorOffset d =
     (let c = uninit\<lparr>pic_masterOffset := vectorOffset, pic_slaveOffset := ucast (ucast (vectorOffset + 8) :: u8)\<rparr>;
          (c, d) = Pic_Initialise io c d
      in (c, ClearMasks io d))"

definition SignalEOI :: "'d ports \<Rightarrow> u8 \<Rightarrow> 'd \<Rightarrow> 'd" where
  "SignalEOI io irq d =
     (if irq < 8 then p_outb io MASTER_BASE_PORT 0x20 d
      else p_outb io MASTER_BASE_PORT 0x20 (p_outb io SLAVE_BASE_PORT 0x20 d))"

definition IrqToVector :: "PicController \<Rightarrow> u8 \<Rightarrow> u8 result" where
  "IrqToVector c irq =
     rbind (rassert (irq < 16)) (\<lambda>_.
       if irq < 8 then Inr (ucast (pic_masterOffset c + ucast irq))
       else Inr (ucast (pic_slaveOffset c + (ucast irq - 8))))"

definition Masksbm :: "'d ports \<Rightarrow> 'd \<Rightarrow> u16 \<times> 'd" where
  "Masksbm io d =
     (let (masterbm, d) = p_inb io (MASTER_BASE_PORT + 1) d;
          (slavebm, d) = p_inb io (SLAVE_BASE_PORT + 1) d
      in (push_bit 8 (ucast masterbm) OR ucast slavebm, d))"

definition MaskIrq :: "'d ports \<Rightarrow> u8 \<Rightarrow> 'd \<Rightarrow> 'd result" where
  "MaskIrq io irq d =
     rbind (rassert (irq < 15)) (\<lambda>_.
       if irq < 8 then
         let (masks, d) = p_inb io (MASTER_BASE_PORT + 1) d
         in Inr (p_outb io (MASTER_BASE_PORT + 1) (masks OR push_bit (unat irq) 1) d)
       else
         let (masks, d) = p_inb io (SLAVE_BASE_PORT + 1) d
         in Inr (p_outb io (SLAVE_BASE_PORT + 1) (masks OR push_bit (unat (irq - 8)) 1) d))"

definition SetIrq :: "'d ports \<Rightarrow> u8 \<Rightarrow> 'd \<Rightarrow> 'd result" where
  "SetIrq io irq d =
     rbind (rassert (irq < 15)) (\<lambda>_.
       if irq < 8 then
         let (masks, d) = p_inb io (MASTER_BASE_PORT + 1) d
         in Inr (p_outb io (MASTER_BASE_PORT + 1) (masks AND NOT (push_bit (unat irq) 1)) d)
       else
         let (masks, d) = p_inb io (SLAVE_BASE_PORT + 1) d
         in Inr (p_outb io (SLAVE_BASE_PORT + 1) (masks AND NOT (push_bit (unat (irq - 8)) 1)) d))"

text \<open>The two status queries; C++ leaves the order of the two reads open, the slave's is taken first.\<close>

definition read_status :: "'d ports \<Rightarrow> u8 \<Rightarrow> 'd \<Rightarrow> u16 \<times> 'd" where
  "read_status io ocw3 d =
     (let d = p_outb io MASTER_BASE_PORT ocw3 d;
          d = p_outb io SLAVE_BASE_PORT ocw3 d;
          (slave, d) = p_inb io (SLAVE_BASE_PORT + 1) d;
          (master, d) = p_inb io (MASTER_BASE_PORT + 1) d
      in (push_bit 8 (ucast slave) OR ucast master, d))"

definition GetIrr :: "'d ports \<Rightarrow> 'd \<Rightarrow> u16 \<times> 'd" where
  "GetIrr io d = read_status io 0x0A d"

definition GetIsr :: "'d ports \<Rightarrow> 'd \<Rightarrow> u16 \<times> 'd" where
  "GetIsr io d = read_status io 0x0B d"

section \<open>The device contract\<close>

text \<open>
  A controller pair in operation (\<open>ready\<close>): the data ports 0x21 and 0xA1 are the mask registers, which hold the last
  byte written; reading one, or writing another port, keeps them.
\<close>

definition mask_latch :: "'d ports \<Rightarrow> ('d \<Rightarrow> bool) \<Rightarrow> bool" where
  "mask_latch io ready \<longleftrightarrow>
     (\<forall>d p v. ready d \<longrightarrow> p \<in> {0x21, 0xA1} \<longrightarrow>
        ready (p_outb io p v d) \<and>
        (\<forall>q\<in>{0x21, 0xA1}. fst (p_inb io q (p_outb io p v d)) = (if q = p then v else fst (p_inb io q d)))) \<and>
     (\<forall>d p. ready d \<longrightarrow> p \<in> {0x21, 0xA1} \<longrightarrow>
        ready (snd (p_inb io p d)) \<and>
        (\<forall>q\<in>{0x21, 0xA1}. fst (p_inb io q (snd (p_inb io p d))) = fst (p_inb io q d)))"

text \<open>The mask registers of a device state as one 16-bit word, the slave's lines above the master's.\<close>

definition irq_masks :: "'d ports \<Rightarrow> 'd \<Rightarrow> u16" where
  "irq_masks io d = push_bit 8 (ucast (fst (p_inb io 0xA1 d))) OR ucast (fst (p_inb io 0x21 d))"

lemma mask_latchD:
  assumes "mask_latch io ready" "ready d" "p \<in> {0x21, 0xA1}"
  shows "ready (p_outb io p v d)" "ready (snd (p_inb io p d))"
    "q \<in> {0x21, 0xA1} \<Longrightarrow> fst (p_inb io q (p_outb io p v d)) = (if q = p then v else fst (p_inb io q d))"
    "q \<in> {0x21, 0xA1} \<Longrightarrow> fst (p_inb io q (snd (p_inb io p d))) = fst (p_inb io q d)"
  using assms unfolding mask_latch_def by blast+

lemma data_ports [simp]: "MASTER_BASE_PORT + 1 = 0x21" "SLAVE_BASE_PORT + 1 = 0xA1"
  by (simp_all add: MASTER_BASE_PORT_def SLAVE_BASE_PORT_def)

text \<open>Rewriting one mask register.\<close>

lemma update_master:
  assumes "mask_latch io ready" "ready d"
  shows "ready (p_outb io 0x21 v (snd (p_inb io 0x21 d)))"
    "irq_masks io (p_outb io 0x21 v (snd (p_inb io 0x21 d)))
      = push_bit 8 (ucast (fst (p_inb io 0xA1 d))) OR ucast v"
  using mask_latchD [OF assms, of "0x21"] mask_latchD [OF assms(1), of "snd (p_inb io 0x21 d)" "0x21"]
  by (simp_all add: irq_masks_def)

lemma update_slave:
  assumes "mask_latch io ready" "ready d"
  shows "ready (p_outb io 0xA1 v (snd (p_inb io 0xA1 d)))"
    "irq_masks io (p_outb io 0xA1 v (snd (p_inb io 0xA1 d)))
      = push_bit 8 (ucast v) OR ucast (fst (p_inb io 0x21 d))"
  using mask_latchD [OF assms, of "0xA1"] mask_latchD [OF assms(1), of "snd (p_inb io 0xA1 d)" "0xA1"]
  by (simp_all add: irq_masks_def)

lemma irq_lines: "irq < 16 \<Longrightarrow> irq \<in> {0,1,2,3,4,5,6,7,8,9,10,11,12,13,14,15}" for irq :: u8
proof -
  assume "irq < 16"
  then have "unat irq < 16" by (simp add: word_less_nat_alt)
  then have "unat irq \<in> {0,1,2,3,4,5,6,7,8,9,10,11,12,13,14,15}"
    unfolding insert_iff empty_iff by presburger
  then have "(of_nat (unat irq) :: u8) \<in> of_nat ` {0,1,2,3,4,5,6,7,8,9,10,11,12,13,14,15}" by blast
  then show ?thesis by simp
qed

lemma unat_irq_minus_8:
  assumes "\<not> irq < 8" shows "unat (irq - 8 :: u8) = unat irq - 8"
  using assms by (simp add: unat_sub word_le_nat_alt word_less_nat_alt)

lemma MaskIrq_masks:
  assumes "mask_latch io ready" "ready d" "irq < 15"
  shows "\<exists>d'. MaskIrq io irq d = Inr d' \<and> ready d' \<and>
     irq_masks io d' = irq_masks io d OR push_bit (unat irq) 1"
proof (cases "irq < 8")
  case True
  then have "unat irq < 8" by (simp add: word_less_nat_alt)
  then have "push_bit 8 (ucast y) OR ucast (x OR push_bit (unat irq) 1)
      = (push_bit 8 (ucast y) OR ucast x) OR (push_bit (unat irq) 1 :: u16)" for x y :: u8
    by (intro bit_word_eqI) (auto simp: bit_rules bit_exp_iff dest: bit_imp_le_length)
  then show ?thesis using True assms update_master [OF assms(1,2)]
    by (simp add: MaskIrq_def case_prod_beta irq_masks_def)
next
  case False
  then have "unat (irq - 8) = unat irq - 8" "8 \<le> unat irq" "unat irq < 16"
    using assms(3) unat_irq_minus_8 by (auto simp: word_less_nat_alt)
  then have "push_bit 8 (ucast (y OR push_bit (unat (irq - 8)) 1)) OR ucast x
      = (push_bit 8 (ucast y) OR ucast x) OR (push_bit (unat irq) 1 :: u16)" for x y :: u8
    by (intro bit_word_eqI) (auto simp: bit_rules bit_exp_iff dest: bit_imp_le_length)
  then show ?thesis using False assms update_slave [OF assms(1,2)]
    by (simp add: MaskIrq_def case_prod_beta irq_masks_def)
qed

lemma SetIrq_masks:
  assumes "mask_latch io ready" "ready d" "irq < 15"
  shows "\<exists>d'. SetIrq io irq d = Inr d' \<and> ready d' \<and>
     irq_masks io d' = irq_masks io d AND NOT (push_bit (unat irq) 1)"
proof (cases "irq < 8")
  case True
  then have "unat irq < 8" by (simp add: word_less_nat_alt)
  then have "push_bit 8 (ucast y) OR ucast (x AND NOT (push_bit (unat irq) 1))
      = (push_bit 8 (ucast y) OR ucast x) AND NOT (push_bit (unat irq) 1 :: u16)" for x y :: u8
    by (intro bit_word_eqI) (auto simp: bit_rules bit_exp_iff dest: bit_imp_le_length)
  then show ?thesis using True assms update_master [OF assms(1,2)]
    by (simp add: SetIrq_def case_prod_beta irq_masks_def)
next
  case False
  then have "unat (irq - 8) = unat irq - 8" "8 \<le> unat irq" "unat irq < 16"
    using assms(3) unat_irq_minus_8 by (auto simp: word_less_nat_alt)
  then have "push_bit 8 (ucast (y AND NOT (push_bit (unat (irq - 8)) 1))) OR ucast x
      = (push_bit 8 (ucast y) OR ucast x) AND NOT (push_bit (unat irq) 1 :: u16)" for x y :: u8
    by (intro bit_word_eqI) (auto simp: bit_rules bit_exp_iff dest: bit_imp_le_length)
  then show ?thesis using False assms update_slave [OF assms(1,2)]
    by (simp add: SetIrq_def case_prod_beta irq_masks_def)
qed

text \<open>Offsets that are multiples of 8, in a byte and in 16 bits.\<close>

lemma low_bits_0: "w AND 7 = 0 \<Longrightarrow> \<not> bit w 0 \<and> \<not> bit w 1 \<and> \<not> bit w 2" for w :: u16
  by (simp add: word16_bits_eq bit_rules)

lemma aligned_low: "w AND 7 = 0 \<Longrightarrow> ucast (w AND 0xF8) = (ucast w :: u8)" for w :: u16
  using low_bits_0 [of w] by (simp add: word8_bits_eq bit_rules)

lemma ucast_of_nat: "(ucast w :: u8) = of_nat (unat w)" for w :: u16
  by transfer simp

lemma ucast_up_down: "ucast (ucast b :: u16) = (b :: u8)"
  by (simp add: word8_bits_eq bit_rules)

lemma ucast_add16: "ucast (a + b) = (ucast a + ucast b :: u8)" for a b :: u16
proof -
  have "(of_nat ((unat a + unat b) mod 65536) :: u8) = of_nat (unat a + unat b)"
    by (subst word_of_nat_eq_iff)
      (use mod_mod_cancel [of "256 :: nat" 65536 "unat a + unat b"] in \<open>simp add: take_bit_eq_mod\<close>)
  moreover have "unat (a + b) = (unat a + unat b) mod 65536" by (simp add: unat_word_ariths)
  ultimately show ?thesis by (simp only: ucast_of_nat of_nat_add)
qed

lemma unat_and_7: "unat (w AND 7) = unat w mod 8" for w :: u16
  using take_bit_eq_mask [of 3 "unat w"]
  by (simp add: unsigned_and_eq take_bit_eq_mod mask_eq_exp_minus_1)

lemma aligned_plus_8:
  assumes "w AND 7 = 0"
  shows "(ucast (ucast (w + 8 :: u16) :: u8) :: u16) AND 7 = 0"
proof -
  have "unat w mod 8 = 0" using assms by (metis unat_and_7 unat_0)
  moreover have "unat (w + 8) = (unat w + 8) mod 65536" by (simp add: unat_word_ariths)
  moreover have "(unat w + 8) mod 65536 mod 8 = (unat w + 8) mod 8" by (rule mod_mod_cancel) simp
  moreover have "(unat w + 8) mod 8 = unat w mod 8" by (rule mod_add_self2)
  ultimately have "unat (w + 8) mod 8 = 0" by (simp only:)
  then have "(w + 8) AND 7 = 0" by (metis unat_and_7 unat_eq_zero)
  then have "\<not> bit (w + 8) 0 \<and> \<not> bit (w + 8) 1 \<and> \<not> bit (w + 8) 2" by (rule low_bits_0)
  then show ?thesis by (intro word16_eqI) (simp add: bit_rules)
qed

section \<open>Properties\<close>

text \<open>
  C25. On a controller pair in operation, \<open>MaskIrq\<close> sets exactly the mask bit of its line and \<open>SetIrq\<close> clears exactly
  that bit, the other 15 lines keep theirs; both halt the kernel for line 15, which \<open>IrqToVector\<close> accepts.
\<close>

theorem Pic_masks_one_line:
  assumes "mask_latch io ready" "ready d"
  shows "if irq < 15 then
      (\<exists>d'. MaskIrq io irq d = Inr d' \<and> ready d' \<and>
         (\<forall>n<16. bit (irq_masks io d') n = (n = unat irq \<or> bit (irq_masks io d) n))) \<and>
      (\<exists>d'. SetIrq io irq d = Inr d' \<and> ready d' \<and>
         (\<forall>n<16. bit (irq_masks io d') n = (n \<noteq> unat irq \<and> bit (irq_masks io d) n)))
    else MaskIrq io irq d = Inl AssertFailed \<and> SetIrq io irq d = Inl AssertFailed"
proof (cases "irq < 15")
  case True
  from MaskIrq_masks [OF assms True] SetIrq_masks [OF assms True] True show ?thesis
    by (auto simp: bit_rules bit_exp_iff dest: bit_imp_le_length)
next
  case False
  then show ?thesis by (simp add: MaskIrq_def SetIrq_def rassert_def)
qed

text \<open>A device whose ports are plain latches, ready from the start.\<close>

definition latch_ports :: "(u16 \<Rightarrow> u8) ports" where
  "latch_ports = \<lparr>p_inb = (\<lambda>p d. (d p, d)), p_outb = (\<lambda>p v d. d(p := v))\<rparr>"

lemma mask_latch_latch_ports: "mask_latch latch_ports (\<lambda>_. True)"
  by (simp add: mask_latch_def latch_ports_def)

theorem Pic_masks_one_line_witness:
  "\<exists>d'. MaskIrq latch_ports 9 (\<lambda>_. 0) = Inr d' \<and> bit (irq_masks latch_ports d') 9"
  using Pic_masks_one_line [OF mask_latch_latch_ports TrueI, of 9 "\<lambda>_. 0"] by auto

text \<open>
  The vectors of the controller: for an offset that is a multiple of 8, \<open>IrqToVector\<close> gives every line the vector
  the hardware will raise, the offset its chip was programmed with in ICW2 plus the line's number on that chip.
\<close>

theorem Pic_vectors_match_icw2:
  assumes "vectorOffset AND 7 = 0" "irq < 16"
  shows "IrqToVector (fst (new_Pic io uninit vectorOffset d)) irq =
     Inr (ucast (icw2 (if irq < 8 then pic_masterIcws (fst (new_Pic io uninit vectorOffset d))
                       else pic_slaveIcws (fst (new_Pic io uninit vectorOffset d)))) + (irq AND 7))"
proof -
  have irq: "irq AND 7 = (if irq < 8 then irq else irq - 8)"
    using irq_lines [OF assms(2)] by auto
  let ?slave = "ucast (ucast (vectorOffset + 8) :: u8) :: u16"
  have off: "?slave AND 7 = 0" using assms(1) by (rule aligned_plus_8)
  show ?thesis
  proof (cases "irq < 8")
    case True
    then show ?thesis
      using assms irq by (simp add: IrqToVector_def new_Pic_def Pic_Initialise_def Let_def ucast_add16 aligned_low ucast_up_down)
  next
    case False
    have "ucast (?slave + (ucast irq - 8)) = (ucast ?slave + (irq - 8) :: u8)"
      using ucast_add16 [of ?slave "ucast irq - 8"] ucast_add16 [of "ucast irq - 8" 8]
      by (simp add: ucast_up_down eq_diff_eq)
    with False show ?thesis
      using assms irq off
      by (simp add: IrqToVector_def new_Pic_def Pic_Initialise_def Let_def aligned_low)
  qed
qed

theorem Pic_vectors_match_icw2_witness:
  "IrqToVector (fst (new_Pic latch_ports
      \<lparr>pic_masterIcws = \<lparr>icw1 = 0, icw2 = 0, icw3 = 0, icw4 = 0\<rparr>,
       pic_slaveIcws = \<lparr>icw1 = 0, icw2 = 0, icw3 = 0, icw4 = 0\<rparr>,
       pic_masterOffset = 0, pic_slaveOffset = 0\<rparr> 0x20 (\<lambda>_. 0))) 12 = Inr 0x2C"
  by (subst Pic_vectors_match_icw2) (simp_all add: new_Pic_def Pic_Initialise_def Let_def)

end
