(* ===== verification/Apic.thy ===== *)
theory Apic
  imports Bit_Fields Serial_Console
begin

text \<open>
  Processor features and the local interrupt controller (\<open>kernel/src/x86_64/features\<close>, \<open>interrupts/controllers/apic\<close>).
  The \<open>cpuid\<close> instruction is a parameter; the APIC base register is a 64-bit word of the machine state and the
  controller's registers are 32-bit cells of memory.
\<close>

section \<open>The processor\<close>

record CpuidRegs =
  r_eax :: u32
  r_ebx :: u32
  r_ecx :: u32
  r_edx :: u32

type_synonym cpuid = "u32 \<Rightarrow> CpuidRegs"

text \<open>The assembly procedures; \<open>cpuid_1\<close> clears \<open>rax\<close> just as \<open>cpuid_0\<close> does.\<close>

definition cpuid_0 :: "cpuid \<Rightarrow> CpuidRegs" where
  "cpuid_0 cpuid = cpuid 0"

definition cpuid_1 :: "cpuid \<Rightarrow> CpuidRegs" where
  "cpuid_1 cpuid = cpuid 0"

definition cpuid_80000008 :: "cpuid \<Rightarrow> CpuidRegs" where
  "cpuid_80000008 cpuid = cpuid 0x80000008"

record machine =
  m_apic_base_msr :: u64
  m_mmio :: "addr \<Rightarrow> u32"

definition read_ia32_apic_base :: "machine \<Rightarrow> u64" where
  "read_ia32_apic_base m = m_apic_base_msr m"

definition write_ia32_apic_base :: "u32 \<Rightarrow> u32 \<Rightarrow> machine \<Rightarrow> machine" where
  "write_ia32_apic_base edx eax m = m\<lparr>m_apic_base_msr := push_bit 32 (ucast edx) OR ucast eax\<rparr>"

section \<open>Features\<close>

definition ReverseBytes :: "u32 \<Rightarrow> u32" where
  "ReverseBytes src =
     (let oriented = src AND 0xFF;
          oriented = push_bit 8 oriented;
          oriented = oriented OR (drop_bit 8 src AND 0xFF);
          oriented = push_bit 8 oriented;
          oriented = oriented OR (drop_bit 16 src AND 0xFF);
          oriented = push_bit 8 oriented
      in oriented OR (drop_bit 24 src AND 0xFF))"

definition register_chars :: "u32 \<Rightarrow> u8 list" where
  "register_chars r = map (\<lambda>i. ucast (drop_bit (i * 8) r AND 0xFF)) [0..<4]"

definition ManufacturerId :: "cpuid \<Rightarrow> u8 list" where
  "ManufacturerId cpuid =
     (let base = cpuid_0 cpuid
      in register_chars (r_ebx base) @ register_chars (r_edx base) @ register_chars (r_ecx base) @ replicate 12 0)"

text \<open>Characters up to the terminating zero, as the stream prints a buffer.\<close>

definition c_string :: "u8 list \<Rightarrow> string" where
  "c_string buffer = map (\<lambda>b. char_of (unat b)) (takeWhile (\<lambda>b. b \<noteq> 0) buffer)"

definition PrintManufacturerId :: "cpuid \<Rightarrow> kitem list" where
  "PrintManufacturerId cpuid =
     (let base = cpuid_0 cpuid; ebx = r_ebx base; ecx = r_ecx base; edx = r_edx base;
          ebxoriented = ReverseBytes ebx; ecxoriented = ReverseBytes ecx; edxoriented = ReverseBytes edx
      in [KMode Hex,
          KStr ''ebx: '', KUnsigned (ucast ebx), newline, KStr ''ecx: '', KUnsigned (ucast ecx), newline,
          KStr ''edx: '', KUnsigned (ucast edx), newline, KStr ''orientating'', newline, KMode Hex,
          KStr ''ebx: '', KUnsigned (ucast ebxoriented), newline,
          KStr ''ecx: '', KUnsigned (ucast ecxoriented), newline,
          KStr ''edx: '', KUnsigned (ucast edxoriented), newline,
          KStr ''Manufacturer ID: '', KStr (c_string (ManufacturerId cpuid)), newline])"

definition SupportsAPIC :: "cpuid \<Rightarrow> bool" where
  "SupportsAPIC cpuid \<longleftrightarrow> drop_bit 9 (r_edx (cpuid_1 cpuid)) AND 1 \<noteq> 0"

definition Supportsx2APiC :: "cpuid \<Rightarrow> bool" where
  "Supportsx2APiC cpuid \<longleftrightarrow> drop_bit 22 (r_ecx (cpuid_1 cpuid)) AND 1 \<noteq> 0"

definition SupportsACPI :: "cpuid \<Rightarrow> bool" where
  "SupportsACPI cpuid \<longleftrightarrow> drop_bit 22 (r_edx (cpuid_1 cpuid)) AND 1 \<noteq> 0"

definition PhysicalWidth :: "cpuid \<Rightarrow> u8" where
  "PhysicalWidth cpuid = ucast (r_eax (cpuid_80000008 cpuid) AND 0xFF)"

definition LinearWidth :: "cpuid \<Rightarrow> u8" where
  "LinearWidth cpuid = ucast (drop_bit 8 (r_eax (cpuid_80000008 cpuid)) AND 0xFF)"

definition WbnoinvdAvailable :: "cpuid \<Rightarrow> bool" where
  "WbnoinvdAvailable cpuid \<longleftrightarrow> r_ebx (cpuid_80000008 cpuid) AND 0x200 \<noteq> 0"

definition GetApicBase :: "machine \<Rightarrow> u64" where
  "GetApicBase m = push_bit 12 (drop_bit 12 (read_ia32_apic_base m))"

definition write_base :: "u64 \<Rightarrow> machine \<Rightarrow> machine" where
  "write_base ia32_base m = write_ia32_apic_base (ucast (drop_bit 32 ia32_base)) (ucast (ia32_base AND 0xFFFFFFFF)) m"

definition EnableApic :: "machine \<Rightarrow> machine" where
  "EnableApic m = write_base (read_ia32_apic_base m OR 0x800) m"

definition DisableApic :: "machine \<Rightarrow> machine" where
  "DisableApic m = write_base (read_ia32_apic_base m AND NOT 0x800) m"

definition Disablex2Apic :: "machine \<Rightarrow> machine" where
  "Disablex2Apic m = write_base (read_ia32_apic_base m AND NOT 0x400) m"

section \<open>The local controller\<close>

record ApicController =
  apic_base :: u64
  apic_enabled :: bool
  apic_present :: bool
  apic_x2apicSupport :: bool

definition LVT_LINT0_OFFSET :: u32 where "LVT_LINT0_OFFSET = 0x350"
definition LVT_LINT1_OFFSET :: u32 where "LVT_LINT1_OFFSET = 0x360"
definition LVT_ERROR_OFFSET :: u32 where "LVT_ERROR_OFFSET = 0x370"

definition reg_read :: "u64 \<Rightarrow> ApicController \<Rightarrow> machine \<Rightarrow> u32" where
  "reg_read offset c m = m_mmio m (apic_base c + offset)"

definition reg_write :: "u64 \<Rightarrow> u32 \<Rightarrow> ApicController \<Rightarrow> machine \<Rightarrow> machine" where
  "reg_write offset val c m = m\<lparr>m_mmio := (m_mmio m)(apic_base c + offset := val)\<rparr>"

definition ReadId :: "ApicController \<Rightarrow> machine \<Rightarrow> u32" where
  "ReadId = reg_read 0x20"

definition ReadVersion :: "ApicController \<Rightarrow> machine \<Rightarrow> u32" where
  "ReadVersion = reg_read 0x30"

definition ReadTpr :: "ApicController \<Rightarrow> machine \<Rightarrow> u32" where
  "ReadTpr = reg_read 0x80"

definition WriteTpr :: "u32 \<Rightarrow> ApicController \<Rightarrow> machine \<Rightarrow> machine" where
  "WriteTpr = reg_write 0x80"

definition ReadPpr :: "ApicController \<Rightarrow> machine \<Rightarrow> u32" where
  "ReadPpr = reg_read 0xA0"

definition ReadDfr :: "ApicController \<Rightarrow> machine \<Rightarrow> u32" where
  "ReadDfr = reg_read 0xE0"

definition ReadSpuriousVectorRegister :: "ApicController \<Rightarrow> machine \<Rightarrow> u32" where
  "ReadSpuriousVectorRegister = reg_read 0xF0"

definition WriteSpuriousVectorRegister :: "u32 \<Rightarrow> ApicController \<Rightarrow> machine \<Rightarrow> machine" where
  "WriteSpuriousVectorRegister = reg_write 0xF0"

definition WriteEoi :: "u32 \<Rightarrow> ApicController \<Rightarrow> machine \<Rightarrow> machine" where
  "WriteEoi = reg_write 0xB0"

definition SignalEoi :: "ApicController \<Rightarrow> machine \<Rightarrow> machine" where
  "SignalEoi = WriteEoi 0"

definition BlockFlatInterrupts :: "ApicController \<Rightarrow> machine \<Rightarrow> machine" where
  "BlockFlatInterrupts = WriteTpr 0xFF"

definition EnableFlatInterrupts :: "ApicController \<Rightarrow> machine \<Rightarrow> machine" where
  "EnableFlatInterrupts = WriteTpr 0x00"

definition SetTaskPriority :: "u8 \<Rightarrow> ApicController \<Rightarrow> machine \<Rightarrow> machine" where
  "SetTaskPriority val = WriteTpr (ucast val)"

definition SetSpuriousVector :: "u8 \<Rightarrow> ApicController \<Rightarrow> machine \<Rightarrow> machine" where
  "SetSpuriousVector val c m =
     (let svr = ReadSpuriousVectorRegister c m AND NOT 0xFF
      in WriteSpuriousVectorRegister (svr OR ucast val) c m)"

definition ReadLint0 :: "ApicController \<Rightarrow> machine \<Rightarrow> u32" where
  "ReadLint0 = reg_read (ucast LVT_LINT0_OFFSET)"

definition WriteLint0 :: "u32 \<Rightarrow> ApicController \<Rightarrow> machine \<Rightarrow> machine" where
  "WriteLint0 = reg_write (ucast LVT_LINT0_OFFSET)"

definition MaskLint0 :: "ApicController \<Rightarrow> machine \<Rightarrow> machine" where
  "MaskLint0 c m = WriteLint0 (ReadLint0 c m OR 0x10000) c m"

definition ReadLint1 :: "ApicController \<Rightarrow> machine \<Rightarrow> u32" where
  "ReadLint1 = reg_read (ucast LVT_LINT1_OFFSET)"

definition WriteLint1 :: "u32 \<Rightarrow> ApicController \<Rightarrow> machine \<Rightarrow> machine" where
  "WriteLint1 = reg_write (ucast LVT_LINT1_OFFSET)"

definition ReadError :: "ApicController \<Rightarrow> machine \<Rightarrow> u32" where
  "ReadError = reg_read (ucast LVT_ERROR_OFFSET)"

definition WriteError :: "u32 \<Rightarrow> ApicController \<Rightarrow> machine \<Rightarrow> machine" where
  "WriteError = reg_write (ucast LVT_ERROR_OFFSET)"

definition InitialiseLvt :: "ApicController \<Rightarrow> machine \<Rightarrow> machine" where
  "InitialiseLvt c m = WriteLint1 0x5012 c (WriteLint0 0x5011 c m)"

definition new_Apic :: "ApicController \<Rightarrow> cpuid \<Rightarrow> machine \<Rightarrow> ApicController \<times> machine" where
  "new_Apic uninit cpuid m =
     (let c = uninit\<lparr>apic_enabled := False, apic_present := SupportsAPIC cpuid,
                     apic_x2apicSupport := Supportsx2APiC cpuid\<rparr>
      in if \<not> apic_present c then (c, m)
         else let c = c\<lparr>apic_base := GetApicBase m\<rparr> in (c, InitialiseLvt c m))"

definition EnableController :: "ApicController \<Rightarrow> machine \<Rightarrow> ApicController \<times> machine" where
  "EnableController c m =
     (let m = EnableApic m;
          svr = ReadSpuriousVectorRegister c m;
          m = WriteSpuriousVectorRegister (svr OR 0x100) c m;
          m = Disablex2Apic m
      in (c\<lparr>apic_enabled := True\<rparr>, m))"

definition DisableController :: "ApicController \<Rightarrow> machine \<Rightarrow> ApicController \<times> machine" where
  "DisableController c m =
     (let m = DisableApic m;
          svr = ReadSpuriousVectorRegister c m;
          m = WriteSpuriousVectorRegister (svr AND NOT 0x100) c m;
          m = Disablex2Apic m
      in (c\<lparr>apic_enabled := False\<rparr>, m))"

definition Apic_IsPresent :: "cpuid \<Rightarrow> bool" where
  "Apic_IsPresent cpuid = (if SupportsAPIC cpuid then True else False)"

definition Supportsx2Apic :: "cpuid \<Rightarrow> ApicController \<Rightarrow> bool \<times> ApicController" where
  "Supportsx2Apic cpuid c =
     (let c = (if Supportsx2APiC cpuid then c\<lparr>apic_x2apicSupport := True\<rparr> else c\<lparr>apic_x2apicSupport := False\<rparr>)
      in (apic_x2apicSupport c, c))"

definition SupportsEoiSupression :: "ApicController \<Rightarrow> machine \<Rightarrow> bool" where
  "SupportsEoiSupression c m \<longleftrightarrow> drop_bit 24 (ReadVersion c m) AND 1 \<noteq> 0"

subsection \<open>Reports\<close>

definition Apic_Enumerate :: "ApicController \<Rightarrow> machine \<Rightarrow> kitem list" where
  "Apic_Enumerate c m =
     (if apic_present c then
        [KStr ''On die APIC Present'', newline,
         KStr (if apic_x2apicSupport c then ''x2Apic Supported'' else ''x2Apic not Supported''), newline,
         KStr (if SupportsEoiSupression c m then ''EOI Supression Supported''
               else ''EOI Supression not supported''), newline]
      else [KStr ''On die APIC is not present'', newline])"

definition EnumerateVersion :: "ApicController \<Rightarrow> machine \<Rightarrow> kitem list" where
  "EnumerateVersion c m =
     (let vers = ReadVersion c m
      in [KStr ''Enumerating Apic Version Register...'', newline,
          KStr ''Max LVT Entries = '', KUnsigned (ucast (drop_bit 16 vers + 1)), newline,
          KStr ''Supressible EOI Broadcasts: '', KUnsigned (if drop_bit 24 vers = 1 then 1 else 0), newline])"

definition EnumerateLvtEntry :: "u32 \<Rightarrow> kitem list" where
  "EnumerateLvtEntry lvtEntry =
     [KStr ''Vector: '', KUnsigned (ucast (lvtEntry AND 0xFF)), newline,
      KStr ''Delivery Mode: '', KUnsigned (ucast (lvtEntry AND 0x700)), newline,
      KStr ''Delivery Pending: '', KUnsigned (ucast (drop_bit 12 lvtEntry AND 1)), newline,
      KStr ''Interrupt Pin Polarity: '', KUnsigned (ucast (drop_bit 13 lvtEntry AND 1)), newline,
      KStr ''Remote IRR: '', KUnsigned (ucast (drop_bit 14 lvtEntry AND 1)), newline,
      KStr ''Trigger Mode: '', KUnsigned (ucast (drop_bit 15 lvtEntry AND 1)), newline,
      KStr ''Masked: '', KUnsigned (ucast (drop_bit 16 lvtEntry AND 1)), newline]"

definition EnumerateLvt :: "ApicController \<Rightarrow> machine \<Rightarrow> kitem list" where
  "EnumerateLvt c m =
     [KStr ''Enumerating Local Vector Table...'', newline, KStr ''Enumerating Lint0...'', newline] @
     EnumerateLvtEntry (ReadLint0 c m) @
     [KStr ''Enumerating Lint1...'', newline] @ EnumerateLvtEntry (ReadLint1 c m) @
     [KStr ''Enumerating Error...'', newline] @ EnumerateLvtEntry (ReadError c m) @
     [KStr ''Finished Local Vector Table Enumeration'', newline]"

section \<open>Lemmas\<close>

lemma write_base_msr [simp]:
  "m_apic_base_msr (write_base b m) = b" "m_mmio (write_base b m) = m_mmio m"
  by (simp_all add: write_base_def write_ia32_apic_base_def word64_bits_eq bit_rules)

lemma bit_exp_numbers: "bit (2 ^ m :: nat) n = (n = m)" "bit (2 ^ m :: int) n = (n = m)"
    "bit (- (2 ^ m) - 1 :: int) n = (n \<noteq> m)"
  using bit_not_iff [of "2 ^ m :: int" n] by (auto simp: bit_exp_iff not_int_def)

lemma bit_apic_flags:
  "bit (2048 :: nat) n = (n = 11)" "bit (1024 :: nat) n = (n = 10)" "bit (256 :: nat) n = (n = 8)"
  "bit (2048 :: int) n = (n = 11)" "bit (1024 :: int) n = (n = 10)" "bit (256 :: int) n = (n = 8)"
  "bit (- 2049 :: int) n = (n \<noteq> 11)" "bit (- 1025 :: int) n = (n \<noteq> 10)" "bit (- 257 :: int) n = (n \<noteq> 8)"
  using bit_exp_numbers [of 11 n] bit_exp_numbers [of 10 n] bit_exp_numbers [of 8 n] by simp_all

lemma ReverseBytes_involutive: "ReverseBytes (ReverseBytes x) = x"
  by (simp add: ReverseBytes_def Let_def word32_bits_eq bit_rules)

lemma apic_base_aligned: "GetApicBase m AND 0xFFF = 0"
  by (simp add: GetApicBase_def word64_bits_eq bit_rules)

lemma c_string_nth:
  assumes "i < length (c_string buffer)"
  shows "of_char (c_string buffer ! i) = unat (buffer ! i)"
proof -
  have "unat (buffer ! i) < 256" using unsigned_less [where ?'a = nat, of "buffer ! i"] by simp
  then show ?thesis using assms by (simp add: c_string_def takeWhile_nth)
qed

lemma ManufacturerId_nth:
  "ManufacturerId cpuid ! 5 = ucast (drop_bit 8 (r_edx (cpuid_0 cpuid)) AND 0xFF)"
  "ManufacturerId cpuid ! 6 = ucast (drop_bit 16 (r_edx (cpuid_0 cpuid)) AND 0xFF)"
  "ManufacturerId cpuid ! 10 = ucast (drop_bit 16 (r_ecx (cpuid_0 cpuid)) AND 0xFF)"
  by (simp_all add: ManufacturerId_def register_chars_def Let_def upt_rec)

section \<open>Properties\<close>

text \<open>
  Enabling the controller sets the global enable bit and clears the x2APIC bit of the base register and sets the
  software enable bit of the spurious vector register, disabling clears all three; no other bit of the two registers
  and no other register changes, so a disable after an enable differs from the start in those bits only.
\<close>

theorem Apic_enable_disable:
  "let (c', m') = EnableController c m; (c'', m'') = DisableController c m; svr = apic_base c + 0xF0
   in apic_enabled c' \<and> \<not> apic_enabled c'' \<and>
      (\<forall>n<64. bit (m_apic_base_msr m') n = (n = 11 \<or> n \<noteq> 10 \<and> bit (m_apic_base_msr m) n)) \<and>
      (\<forall>n<64. bit (m_apic_base_msr m'') n = (n \<noteq> 11 \<and> n \<noteq> 10 \<and> bit (m_apic_base_msr m) n)) \<and>
      (\<forall>n<32. bit (m_mmio m' svr) n = (n = 8 \<or> bit (m_mmio m svr) n)) \<and>
      (\<forall>n<32. bit (m_mmio m'' svr) n = (n \<noteq> 8 \<and> bit (m_mmio m svr) n)) \<and>
      (\<forall>a. a \<noteq> svr \<longrightarrow> m_mmio m' a = m_mmio m a \<and> m_mmio m'' a = m_mmio m a)"
  by (auto simp: EnableController_def DisableController_def Let_def EnableApic_def DisableApic_def
      Disablex2Apic_def read_ia32_apic_base_def WriteSpuriousVectorRegister_def ReadSpuriousVectorRegister_def
      reg_read_def reg_write_def bit_rules bit_apic_flags)

theorem Apic_enable_disable_witness:
  "bit (m_apic_base_msr (snd (EnableController
      \<lparr>apic_base = 0xFEE00000, apic_enabled = False, apic_present = True, apic_x2apicSupport = False\<rparr>
      \<lparr>m_apic_base_msr = 0x400, m_mmio = \<lambda>_. 0\<rparr>))) 11"
  using Apic_enable_disable [of
      "\<lparr>apic_base = 0xFEE00000, apic_enabled = False, apic_present = True, apic_x2apicSupport = False\<rparr>"
      "\<lparr>m_apic_base_msr = 0x400, m_mmio = \<lambda>_. 0\<rparr>"]
  by (simp add: Let_def case_prod_beta)

text \<open>
  The feature queries run the identification leaf of \<open>cpuid\<close> instead of leaf 1, so they ask the vendor string: on
  every processor that says GenuineIntel or AuthenticAMD, an APIC, an x2APIC and ACPI are all reported present,
  whatever leaf 1 says.
\<close>

theorem feature_queries_read_vendor:
  assumes "c_string (ManufacturerId cpuid) = ''GenuineIntel'' \<or> c_string (ManufacturerId cpuid) = ''AuthenticAMD''"
  shows "SupportsAPIC cpuid \<and> Supportsx2APiC cpuid \<and> SupportsACPI cpuid"
proof -
  let ?s = "c_string (ManufacturerId cpuid)"
  have len: "length ?s = 12" using assms by auto
  have "bit (of_char (?s ! 5) :: nat) 1" "bit (of_char (?s ! 6) :: nat) 6" "bit (of_char (?s ! 10) :: nat) 6"
    using assms by (auto simp: bit_Suc_0_iff)
  then have "bit (ManufacturerId cpuid ! 5) 1" "bit (ManufacturerId cpuid ! 6) 6" "bit (ManufacturerId cpuid ! 10) 6"
    using len by (auto simp: c_string_nth bit_unsigned_iff)
  then show ?thesis
    by (simp add: ManufacturerId_nth SupportsAPIC_def Supportsx2APiC_def SupportsACPI_def cpuid_0_def cpuid_1_def
        bit_test bit_rules)
qed

definition amd :: cpuid where
  "amd leaf = \<lparr>r_eax = 0x10, r_ebx = 0x68747541, r_ecx = 0x444D4163, r_edx = 0x69746E65\<rparr>"

theorem feature_queries_read_vendor_witness:
  "SupportsAPIC amd \<and> Supportsx2APiC amd \<and> SupportsACPI amd"
  by (rule feature_queries_read_vendor)
     (simp add: c_string_def ManufacturerId_def register_chars_def Let_def cpuid_0_def amd_def upt_rec char_of_eq_iff)

end
