(* ===== verification/Hpet.thy ===== *)
theory Hpet
  imports Bit_Fields Serial_Console
begin

text \<open>
  The high precision timer (\<open>kernel/src/x86_64/timers/hpet_controller\<close>).  A register block is a record, the blocks of a
  machine a map from their base addresses; the controller holds a pointer to one, which may be null.  The main counter
  advances while it is read, so a read of it takes the counter as a function of time, one tick per access.
\<close>

section \<open>Registers\<close>

record TimerRegisters =
  t_config :: u64
  t_comparator :: u64
  t_fsbInterrupt :: u64

record HpetRegisters =
  gCapabilities :: u64
  gConfig :: u64
  gInterruptStatus :: u64
  gMainCounterLo :: u32
  gMainCounterHi :: u32
  h_timers :: "nat \<Rightarrow> TimerRegisters"

type_synonym hpet_mem = "addr \<Rightarrow> HpetRegisters"

definition Timer_Enable :: "TimerRegisters \<Rightarrow> TimerRegisters" where
  "Timer_Enable t = t\<lparr>t_config := t_config t OR 0x04\<rparr>"

definition Timer_Disable :: "TimerRegisters \<Rightarrow> TimerRegisters" where
  "Timer_Disable t = t\<lparr>t_config := t_config t AND NOT 0x04\<rparr>"

definition WriteMatchValue :: "u64 \<Rightarrow> TimerRegisters \<Rightarrow> TimerRegisters" where
  "WriteMatchValue val t = t\<lparr>t_comparator := val\<rparr>"

definition GetMatchValue :: "TimerRegisters \<Rightarrow> u64" where
  "GetMatchValue t = t_comparator t"

definition SetPeriodicMode :: "TimerRegisters \<Rightarrow> TimerRegisters" where
  "SetPeriodicMode t = t\<lparr>t_config := t_config t OR 0x48\<rparr>"

definition SetOneShotMode :: "TimerRegisters \<Rightarrow> TimerRegisters" where
  "SetOneShotMode t = t\<lparr>t_config := t_config t AND NOT 0x8\<rparr>"

definition Set32BitMode :: "TimerRegisters \<Rightarrow> TimerRegisters" where
  "Set32BitMode t = t\<lparr>t_config := t_config t OR 0x100\<rparr>"

definition Clear32BitMode :: "TimerRegisters \<Rightarrow> TimerRegisters" where
  "Clear32BitMode t = t\<lparr>t_config := t_config t AND NOT 0x100\<rparr>"

definition SetLevelTriggered :: "TimerRegisters \<Rightarrow> TimerRegisters" where
  "SetLevelTriggered t = t\<lparr>t_config := t_config t OR 2\<rparr>"

definition SetEdgeTriggered :: "TimerRegisters \<Rightarrow> TimerRegisters" where
  "SetEdgeTriggered t = t\<lparr>t_config := t_config t AND NOT 2\<rparr>"

section \<open>The controller\<close>

record HpetController =
  hp_regBase :: addr
  hp_freq :: u32
  hp_numTimers :: u8
  hp_running :: bool

definition regs :: "HpetController \<Rightarrow> hpet_mem \<Rightarrow> HpetRegisters result" where
  "regs c m = (if hp_regBase c = 0 then Inl NullDeref else Inr (m (hp_regBase c)))"

definition set_regs :: "HpetController \<Rightarrow> HpetRegisters \<Rightarrow> hpet_mem \<Rightarrow> hpet_mem" where
  "set_regs c r m = m(hp_regBase c := r)"

definition CalculateNumTimers :: "HpetController \<Rightarrow> hpet_mem \<Rightarrow> u8" where
  "CalculateNumTimers c m =
     (if hp_regBase c \<noteq> 0 then ucast (drop_bit 8 (gCapabilities (m (hp_regBase c)) AND 0x1F00)) else 0)"

definition LegacyRouteCapable :: "HpetRegisters \<Rightarrow> bool" where
  "LegacyRouteCapable r \<longleftrightarrow> drop_bit 15 (gCapabilities r AND 0x8000) \<noteq> 0"

text \<open>The capability is asked and the answer dropped: the branch is empty.\<close>

definition SetLegacyReplacementRoute :: "HpetController \<Rightarrow> hpet_mem \<Rightarrow> hpet_mem result" where
  "SetLegacyReplacementRoute c m =
     rbind (regs c m) (\<lambda>r. Inr (set_regs c (r\<lparr>gConfig := gConfig r OR 2\<rparr>) m))"

definition new_Hpet_null :: "HpetController \<Rightarrow> HpetController" where
  "new_Hpet_null uninit = uninit\<lparr>hp_regBase := 0, hp_freq := 0, hp_numTimers := 0\<rparr>"

definition new_Hpet :: "HpetController \<Rightarrow> addr \<Rightarrow> hpet_mem \<Rightarrow> (HpetController \<times> hpet_mem) result" where
  "new_Hpet uninit base m =
     (let c = uninit\<lparr>hp_regBase := base, hp_freq := 0\<rparr>;
          c = c\<lparr>hp_numTimers := CalculateNumTimers c m\<rparr>
      in rbind (SetLegacyReplacementRoute c m) (\<lambda>m. Inr (c, m)))"

definition Hpet_SetBaseAddress :: "addr \<Rightarrow> HpetController \<Rightarrow> hpet_mem \<Rightarrow> (HpetController \<times> hpet_mem) result" where
  "Hpet_SetBaseAddress base c m =
     (let c = c\<lparr>hp_regBase := base\<rparr>;
          c = c\<lparr>hp_numTimers := CalculateNumTimers c m\<rparr>
      in rbind (SetLegacyReplacementRoute c m) (\<lambda>m. Inr (c, m)))"

definition Hpet_Enable :: "HpetController \<Rightarrow> hpet_mem \<Rightarrow> hpet_mem result" where
  "Hpet_Enable c m = rbind (regs c m) (\<lambda>r. Inr (set_regs c (r\<lparr>gConfig := gConfig r OR 1\<rparr>) m))"

definition Hpet_Disable :: "HpetController \<Rightarrow> hpet_mem \<Rightarrow> hpet_mem result" where
  "Hpet_Disable c m = rbind (regs c m) (\<lambda>r. Inr (set_regs c (r\<lparr>gConfig := gConfig r AND NOT 1\<rparr>) m))"

definition Timers :: "HpetController \<Rightarrow> hpet_mem \<Rightarrow> (nat \<Rightarrow> TimerRegisters) result" where
  "Timers c m = rbind (regs c m) (\<lambda>r. Inr (h_timers r))"

text \<open>\<open>1 << timerno\<close> is an \<open>int\<close>, sign-extended to the 64 bits of the register; a shift by 32 or more is undefined.\<close>

definition ClearInterrupt :: "u8 \<Rightarrow> HpetController \<Rightarrow> hpet_mem \<Rightarrow> hpet_mem result" where
  "ClearInterrupt timerno c m =
     rbind (regs c m) (\<lambda>r.
       Inr (set_regs c (r\<lparr>gInterruptStatus := gInterruptStatus r OR scast (push_bit (unat timerno) 1 :: u32)\<rparr>) m))"

definition GetInterruptStatus :: "HpetController \<Rightarrow> hpet_mem \<Rightarrow> u64 result" where
  "GetInterruptStatus c m = rbind (regs c m) (\<lambda>r. Inr (gInterruptStatus r))"

definition ReadMainCounterLow :: "HpetController \<Rightarrow> hpet_mem \<Rightarrow> u32 result" where
  "ReadMainCounterLow c m = rbind (regs c m) (\<lambda>r. Inr (gMainCounterLo r))"

definition ReadMainCounterHigh :: "HpetController \<Rightarrow> hpet_mem \<Rightarrow> u32 result" where
  "ReadMainCounterHigh c m = rbind (regs c m) (\<lambda>r. Inr (gMainCounterHi r))"

text \<open>The wait for a disabled timer: nobody else clears the enable bit, so it ends at once or never.\<close>

definition SetMainCounter :: "u64 \<Rightarrow> HpetController \<Rightarrow> hpet_mem \<Rightarrow> hpet_mem result" where
  "SetMainCounter val c m =
     rbind (regs c m) (\<lambda>r.
       if gConfig r AND 1 \<noteq> 0 then Inl Diverges
       else Inr (set_regs c (r\<lparr>gMainCounterLo := ucast (val AND 0xFFFF), gMainCounterHi := ucast (drop_bit 32 val)\<rparr>) m))"

subsection \<open>Reading the running counter\<close>

definition counter_hi :: "(nat \<Rightarrow> u64) \<Rightarrow> nat \<Rightarrow> u32" where
  "counter_hi counter t = ucast (drop_bit 32 (counter t))"

definition counter_lo :: "(nat \<Rightarrow> u64) \<Rightarrow> nat \<Rightarrow> u32" where
  "counter_lo counter t = ucast (counter t)"

text \<open>The retry loop at time \<open>t\<close>; it may run for ever.\<close>

partial_function (option) read_retry :: "(nat \<Rightarrow> u64) \<Rightarrow> nat \<Rightarrow> u32 \<Rightarrow> u32 \<Rightarrow> u32 \<Rightarrow> (u32 \<times> u32) option" where
  "read_retry counter t high low high2 =
     (if high2 \<noteq> high
      then read_retry counter (t + 3) (counter_hi counter t) (counter_hi counter (t + 1)) (counter_hi counter (t + 2))
      else Some (high2, low))"

definition ReadMainCounter :: "(nat \<Rightarrow> u64) \<Rightarrow> nat \<Rightarrow> u64 option" where
  "ReadMainCounter counter t =
     (case read_retry counter (t + 3) (counter_hi counter t) (counter_lo counter (t + 1)) (counter_hi counter (t + 2)) of
        None \<Rightarrow> None
      | Some (high2, low) \<Rightarrow> Some (push_bit 32 (ucast high2) OR ucast low))"

subsection \<open>Reports\<close>

definition EnumerateCapabilities :: "HpetController \<Rightarrow> hpet_mem \<Rightarrow> kitem list result" where
  "EnumerateCapabilities c m =
     rbind (regs c m) (\<lambda>r. let cap = gCapabilities r in Inr
       [KStr ''LegacyReplacement Route Capable: '', KUnsigned (drop_bit 15 (cap AND 0x8000)), newline,
        KStr ''Main Counter: '', KStr (if cap AND 0x200 \<noteq> 0 then ''64 Bits'' else ''32 Bits''), newline,
        KStr ''Number of Timers: '', KUnsigned (ucast (hp_numTimers c)), newline])"

definition flag_text :: "u64 \<Rightarrow> u64 \<Rightarrow> string \<Rightarrow> string \<Rightarrow> kitem" where
  "flag_text timerConfig flag yes no = KStr (if timerConfig AND flag \<noteq> 0 then yes else no)"

definition EnumerateTimerCapabilities :: "u8 \<Rightarrow> HpetController \<Rightarrow> hpet_mem \<Rightarrow> kitem list result" where
  "EnumerateTimerCapabilities timerno c m =
     rbind (rassert (timerno < hp_numTimers c)) (\<lambda>_.
     rbind (regs c m) (\<lambda>r.
       let timer = h_timers r (unat timerno);
           timerConfig = t_config timer;
           no = KUnsigned (ucast timerno)
       in Inr
         [KStr ''Timer '', no, KStr '' Base address:'', KUnsigned (hp_regBase c + 0xF8 + 0x20 * ucast timerno), newline,
          KStr ''Timer '', no, KStr '' Config:'', KUnsigned timerConfig, newline,
          KStr ''Timer '', no, KStr '' Comparator:'', KUnsigned (t_comparator timer), newline,
          newline,
          KStr ''Timer '', no, KStr '' Read Only Capabilities:'', newline,
          KStr ''Timer '', no, KStr '' Timer Size: '', flag_text timerConfig 0x20 ''64-bits'' ''32-bits'', newline,
          KStr ''Timer '', no, KStr '' Periodic Mode Capable: '',
            flag_text timerConfig 0x10 ''Supported'' ''Unsupported'', newline,
          KStr ''Timer '', no, KStr '' Configuration:'', newline,
          KStr ''Timer '', no, KStr '' FSB Enable: '', flag_text timerConfig 0x4000 ''True'' ''False'', newline,
          KStr ''Timer '', no, KStr '' 32-bit mode Enable: '', flag_text timerConfig 0x100 ''True'' ''False'', newline,
          KStr ''Timer '', no, KStr '' Periodic Mode Enabled: '', flag_text timerConfig 0x40 ''True'' ''False'', newline,
          KStr ''Timer '', no, KStr '' Timer Type: '', KUnsigned (timerConfig AND 0x8), newline,
          KStr ''Timer '', no, KStr '' Interrupt Enable: '', flag_text timerConfig 0x4 ''True'' ''False'', newline,
          KStr ''Timer '', no, KStr '' Interrupt Type: '',
            flag_text timerConfig 0x2 ''Level Trigger'' ''Edge Triggered'', newline,
          KStr ''Timer '', no, KStr '' Comparator Value: '', KUnsigned (t_comparator timer), newline]))"

section \<open>Lemmas\<close>

lemma regs_ok [simp, result_simps]: "hp_regBase c \<noteq> 0 \<Longrightarrow> regs c m = Inr (m (hp_regBase c))"
  by (simp add: regs_def)

lemma counter_join: "push_bit 32 (ucast (counter_hi counter t)) OR ucast (counter_lo counter t) = counter t"
  by (simp add: word64_bits_eq counter_hi_def counter_lo_def bit_rules)

lemma no_bit_32: "32 \<le> n \<Longrightarrow> \<not> bit w n" for w :: u32
  by (auto dest: bit_imp_le_length)

lemma join_parts:
  "ucast (push_bit 32 (ucast h) OR ucast l :: u64) = (l :: u32)"
  "ucast (drop_bit 32 (push_bit 32 (ucast h)) OR drop_bit 32 (ucast l) :: u64) = (h :: u32)"
  by (simp_all add: word32_bits_eq bit_rules no_bit_32)

lemma read_retry_stop [simp]: "read_retry counter t high low high = Some (high, low)"
  by (simp add: read_retry.simps)

lemma read_retry_again:
  "high2 \<noteq> high \<Longrightarrow> read_retry counter t high low high2 =
     read_retry counter (t + 3) (counter_hi counter t) (counter_hi counter (t + 1)) (counter_hi counter (t + 2))"
  by (subst read_retry.simps) simp

section \<open>Properties\<close>

text \<open>
  \<open>ReadMainCounter\<close> returns the value the counter had at its second access when the high half did not change around
  it.  When the high half changed, the retry reads the high half in place of the low one: the result has the high
  half in both halves.
\<close>

theorem ReadMainCounter_cases:
  assumes "counter_hi counter (t + 3) = counter_hi counter (t + 5)"
  shows "if counter_hi counter (t + 2) = counter_hi counter t
     then \<exists>v. ReadMainCounter counter t = Some v \<and> ucast v = counter_lo counter (t + 1) \<and>
            ucast (drop_bit 32 v) = counter_hi counter t \<and>
            (counter_hi counter (t + 1) = counter_hi counter t \<longrightarrow> v = counter (t + 1))
     else \<exists>v. ReadMainCounter counter t = Some v \<and> ucast (drop_bit 32 v) = counter_hi counter (t + 3) \<and>
            ucast v = counter_hi counter (t + 4)"
proof (cases "counter_hi counter (t + 2) = counter_hi counter t")
  case True
  then show ?thesis
    using counter_join [of counter "t + 1"] by (auto simp: ReadMainCounter_def join_parts)
next
  case False
  then show ?thesis using assms
    by (simp add: ReadMainCounter_def read_retry_again add.commute [of t] join_parts)
qed

text \<open>
  Setting the counter of a stopped timer keeps 16 of the low half's 32 bits: the counter reads back as the value
  exactly when its bits 16 to 31 are zero.  On a running timer it never returns.
\<close>

theorem SetMainCounter_truncates:
  assumes "hp_regBase c \<noteq> 0"
  shows "if bit (gConfig (m (hp_regBase c))) 0 then SetMainCounter val c m = Inl Diverges
     else \<exists>m'. SetMainCounter val c m = Inr m' \<and>
       (let r = m' (hp_regBase c); v = push_bit 32 (ucast (gMainCounterHi r)) OR ucast (gMainCounterLo r)
        in v = val AND 0xFFFFFFFF0000FFFF \<and> (v = val \<longleftrightarrow> val AND 0xFFFF0000 = 0))"
proof (cases "bit (gConfig (m (hp_regBase c))) 0")
  case True
  then show ?thesis using assms by (simp add: SetMainCounter_def bit_test)
next
  case False
  let ?v = "push_bit 32 (ucast (ucast (drop_bit 32 val) :: u32)) OR ucast (ucast (val AND 0xFFFF) :: u32)"
  have v: "?v = val AND 0xFFFFFFFF0000FFFF"
    by (rule word64_eqI) (simp add: bit_rules)
  have "val AND 0xFFFFFFFF0000FFFF = val \<longleftrightarrow> val AND 0xFFFF0000 = 0"
    unfolding word64_bits_eq by (simp add: bit_rules)
  with v False assms show ?thesis by (simp add: SetMainCounter_def bit_test set_regs_def Let_def)
qed

text \<open>A counter that ticks once per access and carries into its high half in the middle of a read.\<close>

theorem ReadMainCounter_cases_witness:
  "\<exists>v. ReadMainCounter (\<lambda>t. of_nat (t + 0xFFFFFFFF)) 0 = Some v \<and> ucast v = (1 :: u32)"
  using ReadMainCounter_cases [of "\<lambda>t. of_nat (t + 0xFFFFFFFF)" 0] by (auto simp: counter_hi_def)

theorem SetMainCounter_truncates_witness:
  "\<exists>m'. SetMainCounter 0x12345678 \<lparr>hp_regBase = 0xFED00000, hp_freq = 0, hp_numTimers = 3, hp_running = False\<rparr>
      (\<lambda>_. \<lparr>gCapabilities = 0, gConfig = 0, gInterruptStatus = 0, gMainCounterLo = 0, gMainCounterHi = 0,
           h_timers = \<lambda>_. \<lparr>t_config = 0, t_comparator = 0, t_fsbInterrupt = 0\<rparr>\<rparr>) = Inr m'"
  using SetMainCounter_truncates [of "\<lparr>hp_regBase = 0xFED00000, hp_freq = 0, hp_numTimers = 3, hp_running = False\<rparr>"
      "\<lambda>_. \<lparr>gCapabilities = 0, gConfig = 0, gInterruptStatus = 0, gMainCounterLo = 0, gMainCounterHi = 0,
           h_timers = \<lambda>_. \<lparr>t_config = 0, t_comparator = 0, t_fsbInterrupt = 0\<rparr>\<rparr>" "0x12345678"] by auto

end
