(* ===== verification/Ahci_Fis.thy ===== *)
theory Ahci_Fis
  imports Bit_Fields Serial_Console
begin

text \<open>
  The data structures of the disk controller (\<open>kernel/src/drivers/ahci/fis\<close>, \<open>structs\<close>, \<open>buffers\<close>): the frame
  information structures the two sides exchange, command headers, region descriptors and command tables, and the
  identification block of a disk.
\<close>

section \<open>Frame types and argument packs\<close>

datatype FisType = RegisterHostToDevice | RegisterDeviceToHost | DMAActivate | DMASetup | DataType
  | BISTActivate | PIOSetup | SetDeviceBitsType

fun GetUnderlying :: "FisType \<Rightarrow> u8" where
  "GetUnderlying RegisterHostToDevice = 0x27"
| "GetUnderlying RegisterDeviceToHost = 0x34"
| "GetUnderlying DMAActivate = 0x39"
| "GetUnderlying DMASetup = 0x41"
| "GetUnderlying DataType = 0x46"
| "GetUnderlying BISTActivate = 0x58"
| "GetUnderlying PIOSetup = 0x5F"
| "GetUnderlying SetDeviceBitsType = 0xA1"

text \<open>The typed constructor arguments are wrappers of a number; the port multiplier checks its range.\<close>

definition PortMultiplier :: "u8 \<Rightarrow> u8 result" where
  "PortMultiplier src = rbind (rassert (src < 0xF)) (\<lambda>_. Inr src)"

definition Split :: "u16 \<Rightarrow> u8 \<times> u8" where
  "Split w = (ucast (w AND 0xFF), ucast (drop_bit 8 w AND 0xFF))"

definition join16 :: "u8 \<Rightarrow> u8 \<Rightarrow> u16" where
  "join16 reg1 reg0 = push_bit 8 (ucast reg1) OR ucast reg0"

section \<open>Register frame, host to device\<close>

record Initialiser =
  in_isC :: bool
  in_portMultiplier :: u8
  in_command :: u8
  in_features :: u16
  in_lbaLow :: u16
  in_lbaMid :: u16
  in_lbaHigh :: u16
  in_device :: u8
  in_sectorCount :: u16
  in_control :: u8

record H2dRegisterFis =
  h2d_type :: u8
  h2d_c_portMultiplier :: u8
  h2d_commandReg :: u8
  h2d_featuresReg0 :: u8
  h2d_lbaLowReg0 :: u8
  h2d_lbaMidReg0 :: u8
  h2d_lbaHighReg0 :: u8
  h2d_deviceReg :: u8
  h2d_lbaLowReg1 :: u8
  h2d_lbaMidReg1 :: u8
  h2d_lbaHighReg1 :: u8
  h2d_featuresReg1 :: u8
  h2d_sectorCountReg :: u16
  h2d_rsv0 :: u8
  h2d_controlReg :: u8
  h2d_rsv1 :: u32

definition new_H2d :: H2dRegisterFis where
  "new_H2d = \<lparr>h2d_type = GetUnderlying RegisterHostToDevice, h2d_c_portMultiplier = 0, h2d_commandReg = 0,
     h2d_featuresReg0 = 0, h2d_lbaLowReg0 = 0, h2d_lbaMidReg0 = 0, h2d_lbaHighReg0 = 0, h2d_deviceReg = 0,
     h2d_lbaLowReg1 = 0, h2d_lbaMidReg1 = 0, h2d_lbaHighReg1 = 0, h2d_featuresReg1 = 0,
     h2d_sectorCountReg = 0, h2d_rsv0 = 0, h2d_controlReg = 0, h2d_rsv1 = 0\<rparr>"

definition new_H2d_init :: "Initialiser \<Rightarrow> H2dRegisterFis" where
  "new_H2d_init src =
     (let (features0, features1) = Split (in_features src);
          (low0, low1) = Split (in_lbaLow src);
          (mid0, mid1) = Split (in_lbaMid src);
          (high0, high1) = Split (in_lbaHigh src)
      in \<lparr>h2d_type = GetUnderlying RegisterHostToDevice,
          h2d_c_portMultiplier = in_portMultiplier src OR (if in_isC src then 0x80 else 0x00),
          h2d_commandReg = in_command src, h2d_featuresReg0 = features0,
          h2d_lbaLowReg0 = low0, h2d_lbaMidReg0 = mid0, h2d_lbaHighReg0 = high0, h2d_deviceReg = in_device src,
          h2d_lbaLowReg1 = low1, h2d_lbaMidReg1 = mid1, h2d_lbaHighReg1 = high1, h2d_featuresReg1 = features1,
          h2d_sectorCountReg = in_sectorCount src, h2d_rsv0 = 0, h2d_controlReg = in_control src, h2d_rsv1 = 0\<rparr>)"

definition h2d_IsC :: "H2dRegisterFis \<Rightarrow> bool" where
  "h2d_IsC f \<longleftrightarrow> h2d_c_portMultiplier f AND 0x80 \<noteq> 0"

definition h2d_SelectedPort :: "H2dRegisterFis \<Rightarrow> u8" where
  "h2d_SelectedPort f = h2d_c_portMultiplier f AND 0x0F"

definition h2d_Features :: "H2dRegisterFis \<Rightarrow> u16" where
  "h2d_Features f = join16 (h2d_featuresReg1 f) (h2d_featuresReg0 f)"

definition h2d_LbaLow :: "H2dRegisterFis \<Rightarrow> u16" where
  "h2d_LbaLow f = join16 (h2d_lbaLowReg1 f) (h2d_lbaLowReg0 f)"

definition h2d_LbaMid :: "H2dRegisterFis \<Rightarrow> u16" where
  "h2d_LbaMid f = join16 (h2d_lbaMidReg1 f) (h2d_lbaMidReg0 f)"

definition h2d_LbaHigh :: "H2dRegisterFis \<Rightarrow> u16" where
  "h2d_LbaHigh f = join16 (h2d_lbaHighReg1 f) (h2d_lbaHighReg0 f)"

text \<open>The six bytes of a sector address, lowest first.\<close>

definition ExtractAddress :: "u64 \<Rightarrow> u16 \<times> u16 \<times> u16 \<times> u16 \<times> u16 \<times> u16" where
  "ExtractAddress address =
     (ucast (address AND 0xFF), ucast (drop_bit 8 address AND 0xFF), ucast (drop_bit 16 address AND 0xFF),
      ucast (drop_bit 24 address AND 0xFF), ucast (drop_bit 32 address AND 0xFF), ucast (drop_bit 40 address AND 0xFF))"

definition sector_fis :: "u8 \<Rightarrow> u64 \<Rightarrow> H2dRegisterFis result" where
  "sector_fis code sector_address =
     (let (a0, a1, a2, a3, a4, a5) = ExtractAddress sector_address; fis = new_H2d
      in rbind (rassert (h2d_type fis = 0x27)) (\<lambda>_.
         Inr (fis\<lparr>h2d_sectorCountReg := 1,
           h2d_lbaLowReg0 := ucast a0, h2d_lbaMidReg0 := ucast a1, h2d_lbaHighReg0 := ucast a2,
           h2d_lbaLowReg1 := ucast a3, h2d_lbaMidReg1 := ucast a4, h2d_lbaHighReg1 := ucast a5,
           h2d_deviceReg := 0x40, h2d_c_portMultiplier := 0x80, h2d_commandReg := code\<rparr>)))"

definition CreateWrite :: "u64 \<Rightarrow> H2dRegisterFis result" where
  "CreateWrite sector_address = sector_fis 0x35 sector_address"

definition CreateRead :: "u64 \<Rightarrow> H2dRegisterFis result" where
  "CreateRead sector_address = sector_fis 0x25 sector_address"

definition CreateIdentifyDevice :: "H2dRegisterFis result" where
  "CreateIdentifyDevice =
     (let fis = new_H2d\<lparr>h2d_commandReg := 0xEC\<rparr>
      in rbind (rassert (h2d_type fis = 0x27)) (\<lambda>_.
           Inr (fis\<lparr>h2d_deviceReg := 0, h2d_c_portMultiplier := 0x80\<rparr>)))"

definition CreateReadMaxAddress :: H2dRegisterFis where
  "CreateReadMaxAddress = new_H2d\<lparr>h2d_commandReg := 0xF8, h2d_deviceReg := 0x40\<rparr>"

text \<open>The twenty bytes of the frame in memory, as it is copied into a command table.\<close>

definition h2d_bytes :: "H2dRegisterFis \<Rightarrow> u8 list" where
  "h2d_bytes f =
     [h2d_type f, h2d_c_portMultiplier f, h2d_commandReg f, h2d_featuresReg0 f,
      h2d_lbaLowReg0 f, h2d_lbaMidReg0 f, h2d_lbaHighReg0 f, h2d_deviceReg f,
      h2d_lbaLowReg1 f, h2d_lbaMidReg1 f, h2d_lbaHighReg1 f, h2d_featuresReg1 f,
      ucast (h2d_sectorCountReg f), ucast (drop_bit 8 (h2d_sectorCountReg f)), h2d_rsv0 f, h2d_controlReg f,
      ucast (h2d_rsv1 f), ucast (drop_bit 8 (h2d_rsv1 f)), ucast (drop_bit 16 (h2d_rsv1 f)),
      ucast (drop_bit 24 (h2d_rsv1 f))]"

section \<open>Frames from the device\<close>

record D2HRegisterFis =
  d2h_type :: u8
  d2h_i_portMultiplier :: u8
  d2h_statusReg :: u8
  d2h_errorReg :: u8
  d2h_lbaLowReg0 :: u8
  d2h_lbaMidReg0 :: u8
  d2h_lbaHighReg0 :: u8
  d2h_deviceReg :: u8
  d2h_lbaLowReg1 :: u8
  d2h_lbaMidReg1 :: u8
  d2h_lbaHighReg1 :: u8
  d2h_sectorCountReg :: u16

definition new_D2H :: D2HRegisterFis where
  "new_D2H = \<lparr>d2h_type = GetUnderlying RegisterDeviceToHost, d2h_i_portMultiplier = 0, d2h_statusReg = 0,
     d2h_errorReg = 0, d2h_lbaLowReg0 = 0, d2h_lbaMidReg0 = 0, d2h_lbaHighReg0 = 0, d2h_deviceReg = 0,
     d2h_lbaLowReg1 = 0, d2h_lbaMidReg1 = 0, d2h_lbaHighReg1 = 0, d2h_sectorCountReg = 0\<rparr>"

definition d2h_PortSelector :: "D2HRegisterFis \<Rightarrow> u8" where
  "d2h_PortSelector f = d2h_i_portMultiplier f AND 0x0F"

definition d2h_Interrupt :: "D2HRegisterFis \<Rightarrow> bool" where
  "d2h_Interrupt f \<longleftrightarrow> d2h_i_portMultiplier f AND 0x40 \<noteq> 0"

definition d2h_LbaLow :: "D2HRegisterFis \<Rightarrow> u16" where
  "d2h_LbaLow f = join16 (d2h_lbaLowReg1 f) (d2h_lbaLowReg0 f)"

definition d2h_LbaMid :: "D2HRegisterFis \<Rightarrow> u16" where
  "d2h_LbaMid f = join16 (d2h_lbaMidReg1 f) (d2h_lbaMidReg0 f)"

definition d2h_LbaHigh :: "D2HRegisterFis \<Rightarrow> u16" where
  "d2h_LbaHigh f = join16 (d2h_lbaHighReg1 f) (d2h_lbaHighReg0 f)"

record PioSetupFis =
  pio_type :: u8
  pio_i_d_portMultiplier :: u8
  pio_statusReg :: u8
  pio_errorReg :: u8
  pio_lbaLowReg0 :: u8
  pio_lbaMidReg0 :: u8
  pio_lbaHighReg0 :: u8
  pio_deviceReg :: u8
  pio_lbaLowReg1 :: u8
  pio_lbaMidReg1 :: u8
  pio_lbaHighReg1 :: u8
  pio_sectorCountReg :: u16
  pio_e_status :: u8
  pio_transferCount :: u16

definition pio_PortSelector :: "PioSetupFis \<Rightarrow> u8" where
  "pio_PortSelector f = pio_i_d_portMultiplier f AND 0x0F"

definition pio_Interrupt :: "PioSetupFis \<Rightarrow> bool" where
  "pio_Interrupt f \<longleftrightarrow> pio_i_d_portMultiplier f AND 0x40 \<noteq> 0"

definition pio_LbaLow :: "PioSetupFis \<Rightarrow> u16" where
  "pio_LbaLow f = join16 (pio_lbaLowReg1 f) (pio_lbaLowReg0 f)"

definition pio_LbaMid :: "PioSetupFis \<Rightarrow> u16" where
  "pio_LbaMid f = join16 (pio_lbaMidReg1 f) (pio_lbaMidReg0 f)"

definition pio_LbaHigh :: "PioSetupFis \<Rightarrow> u16" where
  "pio_LbaHigh f = join16 (pio_lbaHighReg1 f) (pio_lbaHighReg1 f)"

record DmaSetupFis =
  dma_type :: u8
  dma_a_i_d_portMultiplier :: u8
  dma_bufferLow :: u32
  dma_bufferHigh :: u32
  dma_bufferOffset :: u32
  dma_transferCount :: u32

definition new_DmaSetup :: DmaSetupFis where
  "new_DmaSetup = \<lparr>dma_type = GetUnderlying DMASetup, dma_a_i_d_portMultiplier = 0, dma_bufferLow = 0,
     dma_bufferHigh = 0, dma_bufferOffset = 0, dma_transferCount = 0\<rparr>"

definition dma_PortMultiplier :: "DmaSetupFis \<Rightarrow> u8" where
  "dma_PortMultiplier f = dma_a_i_d_portMultiplier f AND 0xF"

record SmallFis =
  sf_type :: u8
  sf_portMultiplier :: u8

definition new_DmaActivate :: SmallFis where
  "new_DmaActivate = \<lparr>sf_type = GetUnderlying DMAActivate, sf_portMultiplier = 0\<rparr>"

definition new_DataFis :: SmallFis where
  "new_DataFis = \<lparr>sf_type = GetUnderlying DMAActivate, sf_portMultiplier = 0\<rparr>"

record SetDeviceBitsInitialiser =
  si_portMultiplier :: u8
  si_interrupt :: bool
  si_notification :: bool
  si_status :: u8
  si_error :: u8

record SetDeviceBitsFis =
  sdb_type :: u8
  sdb_n_i_portMultiplier :: u8
  sdb_statusByte :: u8
  sdb_errorReg :: u8

definition FormPack :: "bool \<Rightarrow> bool \<Rightarrow> u8 \<Rightarrow> SetDeviceBitsFis \<Rightarrow> SetDeviceBitsFis" where
  "FormPack n i pm f =
     (let f = f\<lparr>sdb_n_i_portMultiplier := sdb_n_i_portMultiplier f OR (if n then 0x80 else 0x00)\<rparr>;
          f = f\<lparr>sdb_n_i_portMultiplier := sdb_n_i_portMultiplier f OR (if i then 0x40 else 0x00)\<rparr>
      in f\<lparr>sdb_n_i_portMultiplier := sdb_n_i_portMultiplier f OR (pm AND 0xF)\<rparr>)"

definition new_SetDeviceBits :: "SetDeviceBitsInitialiser \<Rightarrow> SetDeviceBitsFis" where
  "new_SetDeviceBits src =
     FormPack (si_notification src) (si_interrupt src) (si_portMultiplier src)
       \<lparr>sdb_type = GetUnderlying SetDeviceBitsType, sdb_n_i_portMultiplier = 0, sdb_statusByte = si_status src,
        sdb_errorReg = si_error src\<rparr>"

section \<open>Command headers\<close>

definition MASK_C :: u8 where "MASK_C = 0x04"
definition MASK_B :: u8 where "MASK_B = 0x02"
definition MASK_R :: u8 where "MASK_R = 0x01"
definition MASK_P :: u8 where "MASK_P = 0x80"
definition MASK_W :: u8 where "MASK_W = 0x40"
definition MASK_A :: u8 where "MASK_A = 0x20"
definition MASK_CFL :: u8 where "MASK_CFL = 0x1F"

record CommandHeader =
  ch_p_w_a_cfl :: u8
  ch_pmp_c_b_r :: u8
  ch_prdtl :: u16
  ch_prdbc :: u32
  ch_ctba :: u32
  ch_ctbau :: u32

definition new_CommandHeader_zero :: CommandHeader where
  "new_CommandHeader_zero = \<lparr>ch_p_w_a_cfl = 0, ch_pmp_c_b_r = 0, ch_prdtl = 0, ch_prdbc = 0, ch_ctba = 0, ch_ctbau = 0\<rparr>"

definition CommandTableBase :: "CommandHeader \<Rightarrow> u64" where
  "CommandTableBase h = push_bit 32 (ucast (ch_ctbau h)) OR ucast (ch_ctba h)"

definition SetCommandTableBase :: "u64 \<Rightarrow> CommandHeader \<Rightarrow> CommandHeader" where
  "SetCommandTableBase addr h =
     h\<lparr>ch_ctbau := ucast (drop_bit 32 addr), ch_ctba := ucast (addr AND 0xFFFFFFFF)\<rparr>"

definition new_CommandHeader :: "addr \<Rightarrow> u16 \<Rightarrow> u8 \<Rightarrow> u8 \<Rightarrow> CommandHeader result" where
  "new_CommandHeader commandTableBase prdtl controlbyte1 controlbyte2 =
     (let h = \<lparr>ch_p_w_a_cfl = controlbyte2, ch_pmp_c_b_r = controlbyte1, ch_prdtl = prdtl, ch_prdbc = 0,
              ch_ctba = 0, ch_ctbau = 0\<rparr>
      in rbind (rassert (\<not> (ch_pmp_c_b_r h AND 0x8 \<noteq> 0))) (\<lambda>_. Inr (SetCommandTableBase commandTableBase h)))"

definition GetPrdtl :: "CommandHeader \<Rightarrow> u16" where "GetPrdtl h = ch_prdtl h"

definition SetPrdtl :: "u16 \<Rightarrow> CommandHeader \<Rightarrow> CommandHeader" where
  "SetPrdtl newPrdtl h = h\<lparr>ch_prdtl := newPrdtl\<rparr>"

text \<open>The byte is promoted, and cut back to 8 bits afterwards.\<close>

definition GetPortMultiplier :: "CommandHeader \<Rightarrow> u8" where
  "GetPortMultiplier h = ucast ((ucast (ch_pmp_c_b_r h) :: u32) AND 0xFFFF0000)"

definition SetPortMultiplier :: "u8 \<Rightarrow> CommandHeader \<Rightarrow> CommandHeader" where
  "SetPortMultiplier newPmp h =
     h\<lparr>ch_pmp_c_b_r := ucast ((ucast (ch_pmp_c_b_r h) :: u32) OR push_bit 8 (ucast newPmp))\<rparr>"

definition ch_C :: "CommandHeader \<Rightarrow> bool" where "ch_C h \<longleftrightarrow> ch_pmp_c_b_r h AND 0x4 \<noteq> 0"

definition put_mask :: "bool \<Rightarrow> u8 \<Rightarrow> u8 \<Rightarrow> u8" where
  "put_mask b msk byte = (if b then byte OR msk else byte AND NOT msk)"

definition SetC :: "bool \<Rightarrow> CommandHeader \<Rightarrow> CommandHeader" where
  "SetC c h = h\<lparr>ch_pmp_c_b_r := put_mask c MASK_C (ch_pmp_c_b_r h)\<rparr>"

definition Bist :: "CommandHeader \<Rightarrow> bool" where "Bist h \<longleftrightarrow> ch_pmp_c_b_r h AND MASK_B \<noteq> 0"

definition SetBist :: "bool \<Rightarrow> CommandHeader \<Rightarrow> CommandHeader" where
  "SetBist b h = h\<lparr>ch_pmp_c_b_r := put_mask b MASK_B (ch_pmp_c_b_r h)\<rparr>"

definition ch_Reset :: "CommandHeader \<Rightarrow> bool" where "ch_Reset h \<longleftrightarrow> ch_pmp_c_b_r h AND MASK_R \<noteq> 0"

definition SetReset :: "bool \<Rightarrow> CommandHeader \<Rightarrow> CommandHeader" where
  "SetReset b h = h\<lparr>ch_pmp_c_b_r := put_mask b MASK_R (ch_pmp_c_b_r h)\<rparr>"

definition Prefetchable :: "CommandHeader \<Rightarrow> bool" where "Prefetchable h \<longleftrightarrow> ch_pmp_c_b_r h AND MASK_P \<noteq> 0"

definition SetPrefetchable :: "bool \<Rightarrow> CommandHeader \<Rightarrow> CommandHeader" where
  "SetPrefetchable b h = h\<lparr>ch_p_w_a_cfl := put_mask b MASK_P (ch_p_w_a_cfl h)\<rparr>"

definition ch_Write :: "CommandHeader \<Rightarrow> bool" where "ch_Write h \<longleftrightarrow> ch_pmp_c_b_r h AND MASK_W \<noteq> 0"

definition SetWrite :: "bool \<Rightarrow> CommandHeader \<Rightarrow> CommandHeader" where
  "SetWrite b h = h\<lparr>ch_p_w_a_cfl := put_mask b MASK_W (ch_p_w_a_cfl h)\<rparr>"

definition Atapi :: "CommandHeader \<Rightarrow> bool" where "Atapi h \<longleftrightarrow> ch_p_w_a_cfl h AND MASK_A \<noteq> 0"

definition SetAtapi :: "bool \<Rightarrow> CommandHeader \<Rightarrow> CommandHeader" where
  "SetAtapi b h = h\<lparr>ch_p_w_a_cfl := put_mask b MASK_A (ch_p_w_a_cfl h)\<rparr>"

definition Cfl :: "CommandHeader \<Rightarrow> u8" where "Cfl h = ch_p_w_a_cfl h AND MASK_CFL"

definition SetCfl :: "u8 \<Rightarrow> CommandHeader \<Rightarrow> CommandHeader result" where
  "SetCfl val h =
     rbind (rassert (val \<le> 0x10)) (\<lambda>_.
       Inr (h\<lparr>ch_p_w_a_cfl := (ch_p_w_a_cfl h AND NOT MASK_CFL) OR val\<rparr>))"

section \<open>Region descriptors and command tables\<close>

record PrdtEntry =
  prd_dba :: u32
  prd_dbau :: u32
  prd_i_dbc :: u32

definition new_PrdtEntry_zero :: PrdtEntry where
  "new_PrdtEntry_zero = \<lparr>prd_dba = 0, prd_dbau = 0, prd_i_dbc = 0\<rparr>"

definition SetDataBaseAddress :: "addr \<Rightarrow> PrdtEntry \<Rightarrow> PrdtEntry result" where
  "SetDataBaseAddress data e =
     rbind (rassert (data AND 0x1 = 0)) (\<lambda>_.
       Inr (e\<lparr>prd_dba := ucast (data AND 0xFFFFFFFF), prd_dbau := ucast (drop_bit 32 data)\<rparr>))"

definition SetWord3 :: "bool \<Rightarrow> u32 \<Rightarrow> PrdtEntry \<Rightarrow> PrdtEntry result" where
  "SetWord3 interrupt dataSize e =
     rbind (rassert (dataSize AND 0x01 \<noteq> 0)) (\<lambda>_.
       let e = e\<lparr>prd_i_dbc := dataSize AND 0x3FFFFF\<rparr>
       in rbind (if interrupt
                 then let e = e\<lparr>prd_i_dbc := prd_i_dbc e OR 0x80000000\<rparr>
                      in rbind (rassert (prd_i_dbc e AND 0x80000000 \<noteq> 0)) (\<lambda>_. Inr e)
                 else Inr e)
            (\<lambda>e. Inr (e\<lparr>prd_i_dbc := prd_i_dbc e OR 0x80000000\<rparr>)))"

definition new_PrdtEntry :: "PrdtEntry \<Rightarrow> addr \<Rightarrow> bool \<Rightarrow> u32 \<Rightarrow> PrdtEntry result" where
  "new_PrdtEntry uninit dataBase interrupt dataSize =
     rbind (SetDataBaseAddress dataBase uninit) (SetWord3 interrupt dataSize)"

definition DataBaseAddress :: "PrdtEntry \<Rightarrow> u64" where
  "DataBaseAddress e = push_bit 32 (ucast (prd_dbau e)) OR ucast (prd_dba e)"

definition InterruptOnCompletion :: "PrdtEntry \<Rightarrow> bool" where
  "InterruptOnCompletion e \<longleftrightarrow> drop_bit 31 (prd_i_dbc e) \<noteq> 0"

definition DataByteCount :: "PrdtEntry \<Rightarrow> u32" where
  "DataByteCount e = prd_i_dbc e AND 0x3FFFFF"

definition PRDT_SLOTS :: u16 where "PRDT_SLOTS = 1"

record CommandTable =
  ct_cfis :: "u8 list"
  ct_acmd :: "u8 list"
  ct_rsv :: "u8 list"
  ct_prdt :: "PrdtEntry list"

definition new_CommandTable :: CommandTable where
  "new_CommandTable = \<lparr>ct_cfis = replicate 64 0, ct_acmd = replicate 16 0, ct_rsv = replicate 48 0,
     ct_prdt = [new_PrdtEntry_zero]\<rparr>"

definition SetCommandFis :: "H2dRegisterFis \<Rightarrow> CommandTable \<Rightarrow> CommandTable" where
  "SetCommandFis fis t = t\<lparr>ct_cfis := h2d_bytes fis @ drop 20 (ct_cfis t)\<rparr>"

definition SetPrdtEntry :: "u16 \<Rightarrow> PrdtEntry \<Rightarrow> CommandTable \<Rightarrow> CommandTable result" where
  "SetPrdtEntry entry prdt t =
     rbind (rassert (entry < PRDT_SLOTS)) (\<lambda>_. Inr (t\<lparr>ct_prdt := (ct_prdt t)[unat entry := prdt]\<rparr>))"

section \<open>The identification block\<close>

type_synonym IdentifyDeviceBuffer = "u16 list"

definition new_IdentifyDeviceBuffer :: IdentifyDeviceBuffer where
  "new_IdentifyDeviceBuffer = replicate 256 0"

definition NumSectors :: "IdentifyDeviceBuffer \<Rightarrow> u32" where
  "NumSectors buffer = push_bit 16 (ucast (buffer ! 58)) OR ucast (buffer ! 57)"

definition CommandSetVector :: "IdentifyDeviceBuffer \<Rightarrow> u16" where
  "CommandSetVector buffer = buffer ! 82"

definition UserAccessibleSectors :: "IdentifyDeviceBuffer \<Rightarrow> u32" where
  "UserAccessibleSectors buffer = push_bit 16 (ucast (buffer ! 61)) OR ucast (buffer ! 60)"

definition PrintSerialNumber :: "IdentifyDeviceBuffer \<Rightarrow> kitem list" where
  "PrintSerialNumber buffer =
     concat (map (\<lambda>i. let firstbyte = (ucast (drop_bit 8 (buffer ! (10 + i))) :: u8);
                           secondbyte = (ucast (buffer ! (10 + i) AND 0xFF) :: u8)
                       in [KUnsigned (ucast firstbyte), KChar CHR '' '', KUnsigned (ucast secondbyte), KChar CHR '' ''])
       [0..<10]) @ [newline]"

definition PrintCHS :: "IdentifyDeviceBuffer \<Rightarrow> kitem list" where
  "PrintCHS buffer =
     (let cylinders = buffer ! 54; heads = buffer ! 55; sectors = buffer ! 56;
          maxLba = ((uint cylinders * uint heads) + uint heads) * uint sectors + uint sectors - 1;
          capacity = (push_bit 16 (ucast (buffer ! 58)) OR ucast (buffer ! 57) :: u32)
      in [KStr ''Cylinder: '', KUnsigned (ucast cylinders), KStr '', Head: '', KUnsigned (ucast heads),
          KStr '', Sectors: '', KUnsigned (ucast sectors), newline,
          KStr ''C * H * S: '', KInt (uint cylinders * uint heads * uint sectors), newline,
          KStr ''Max lba: '', KUnsigned (of_int maxLba), newline,
          KStr ''Capacity In Sectors: '', KUnsigned (ucast capacity), newline])"

section \<open>Reading a frame the way a device does\<close>

text \<open>The address and command of a 48-bit command frame, taken from its bytes in the order the ATA standard gives.\<close>

definition frame_lba :: "u8 list \<Rightarrow> u64" where
  "frame_lba bs = ucast (bs ! 4) OR push_bit 8 (ucast (bs ! 5)) OR push_bit 16 (ucast (bs ! 6)) OR
     push_bit 24 (ucast (bs ! 8)) OR push_bit 32 (ucast (bs ! 9)) OR push_bit 40 (ucast (bs ! 10))"

definition command_frame :: "u8 list \<Rightarrow> u8 \<Rightarrow> u64 \<Rightarrow> u16 \<Rightarrow> bool" where
  "command_frame bs code lba count \<longleftrightarrow>
     bs ! 0 = 0x27 \<and> bit (bs ! 1) 7 \<and> bs ! 2 = code \<and> frame_lba bs = lba \<and> bit (bs ! 7) 6 \<and>
     join16 (bs ! 13) (bs ! 12) = count"

lemma bytes_of_lba:
  "ucast (ucast (ucast (a AND 0xFF) :: u16) :: u8) OR
   push_bit 8 (ucast (ucast (ucast (drop_bit 8 a AND 0xFF) :: u16) :: u8)) OR
   push_bit 16 (ucast (ucast (ucast (drop_bit 16 a AND 0xFF) :: u16) :: u8)) OR
   push_bit 24 (ucast (ucast (ucast (drop_bit 24 a AND 0xFF) :: u16) :: u8)) OR
   push_bit 32 (ucast (ucast (ucast (drop_bit 32 a AND 0xFF) :: u16) :: u8)) OR
   push_bit 40 (ucast (ucast (ucast (drop_bit 40 a AND 0xFF) :: u16) :: u8)) = (a AND mask 48 :: u64)"
  by (rule word64_eqI) (simp add: bit_rules)

lemma sector_fis_frame:
  "\<exists>f. sector_fis code a = Inr f \<and> length (h2d_bytes f) = 20 \<and>
     command_frame (h2d_bytes f) code (a AND mask 48) 1"
  using bytes_of_lba [of a]
  by (simp add: sector_fis_def ExtractAddress_def Let_def new_H2d_def h2d_bytes_def command_frame_def frame_lba_def
      join16_def bit_rules)

lemma join16_Split: "join16 (snd (Split w)) (fst (Split w)) = w"
  by (simp add: join16_def Split_def word16_bits_eq bit_rules)

lemma SetCommandFis_frame:
  assumes "20 \<le> length (ct_cfis t)" "command_frame (h2d_bytes f) code lba count"
  shows "command_frame (ct_cfis (SetCommandFis f t)) code lba count"
proof -
  have "length (h2d_bytes f) = 20" by (simp add: h2d_bytes_def)
  then show ?thesis using assms(2) by (simp add: SetCommandFis_def command_frame_def frame_lba_def nth_append)
qed

text \<open>Both branches of the count word end in the same value.\<close>

lemma SetWord3_value:
  "SetWord3 interrupt n e =
     (if odd n then Inr (e\<lparr>prd_i_dbc := n AND 0x3FFFFF OR 0x80000000\<rparr>) else Inl AssertFailed)"
proof -
  have odd: "n AND 1 = 0 \<longleftrightarrow> even n" by (simp add: bit_test bit_0)
  have "bit (n AND 0x3FFFFF OR 0x80000000) 31" by (simp add: bit_rules)
  then have "(n AND 0x3FFFFF OR 0x80000000) AND 0x80000000 \<noteq> 0" by (simp only: bit_test simp_thms)
  then show ?thesis by (simp add: SetWord3_def odd rassert_def Let_def or.assoc)
qed

lemma count_word:
  "(n AND 0x3FFFFF OR 0x80000000) AND 0x3FFFFF = n AND (0x3FFFFF :: u32)"
  "drop_bit 31 (n AND 0x3FFFFF OR 0x80000000) \<noteq> (0 :: u32)"
proof -
  show "(n AND 0x3FFFFF OR 0x80000000) AND 0x3FFFFF = n AND (0x3FFFFF :: u32)"
    by (rule word32_eqI) (simp add: bit_rules)
  have "bit (drop_bit 31 (n AND 0x3FFFFF OR 0x80000000)) 0" by (simp add: bit_rules)
  then show "drop_bit 31 (n AND 0x3FFFFF OR 0x80000000) \<noteq> (0 :: u32)" by (metis bit_0_eq bot_apply bot_bool_def)
qed

section \<open>Properties\<close>

text \<open>
  C27. The read and write frames say what was asked, byte for byte as a device reads them: the frame type, the command
  bit, the command code, one sector, LBA mode, and the low 48 bits of the sector address.
\<close>

theorem sector_frames_decode:
  "(\<exists>f. CreateRead a = Inr f \<and> command_frame (h2d_bytes f) 0x25 (a AND mask 48) 1) \<and>
   (\<exists>f. CreateWrite a = Inr f \<and> command_frame (h2d_bytes f) 0x35 (a AND mask 48) 1)"
  using sector_fis_frame [of "0x25" a] sector_fis_frame [of "0x35" a] by (auto simp: CreateRead_def CreateWrite_def)

text \<open>
  A register frame built from its arguments returns all of them; the port multiplier argument is any number the
  argument type lets through.
\<close>

theorem H2d_init_roundtrip:
  assumes "PortMultiplier (in_portMultiplier a) = Inr p"
  shows "let f = new_H2d_init a in
     h2d_IsC f = in_isC a \<and> h2d_SelectedPort f = p \<and> h2d_Features f = in_features a \<and>
     h2d_LbaLow f = in_lbaLow a \<and> h2d_LbaMid f = in_lbaMid a \<and> h2d_LbaHigh f = in_lbaHigh a \<and>
     h2d_commandReg f = in_command a \<and> h2d_deviceReg f = in_device a \<and>
     h2d_sectorCountReg f = in_sectorCount a \<and> h2d_controlReg f = in_control a"
proof -
  have p: "p = in_portMultiplier a" "in_portMultiplier a < 0xF"
    using assms by (auto simp: PortMultiplier_def rbind_eq_Inr)
  have hi: "\<not> bit (in_portMultiplier a) n" if "4 \<le> n" for n
    by (rule unat_less_no_bit [where n = 4]) (use p(2) that in \<open>simp_all add: word_less_nat_alt\<close>)
  have "(in_portMultiplier a OR (if in_isC a then 0x80 else 0)) AND 0xF = p"
    by (simp add: p(1) word8_bits_eq bit_rules hi)
  moreover have "((in_portMultiplier a OR (if in_isC a then 0x80 else 0)) AND 0x80 \<noteq> 0) = in_isC a"
    by (simp add: bit_test bit_rules hi)
  ultimately show ?thesis
    using join16_Split [of "in_features a"] join16_Split [of "in_lbaLow a"] join16_Split [of "in_lbaMid a"]
      join16_Split [of "in_lbaHigh a"]
    by (simp add: new_H2d_init_def case_prod_beta Let_def h2d_IsC_def h2d_SelectedPort_def h2d_Features_def
        h2d_LbaLow_def h2d_LbaMid_def h2d_LbaHigh_def)
qed

theorem H2d_init_roundtrip_witness:
  "h2d_LbaHigh (new_H2d_init \<lparr>in_isC = True, in_portMultiplier = 3, in_command = 0x25, in_features = 0x1234,
     in_lbaLow = 1, in_lbaMid = 2, in_lbaHigh = 0xABCD, in_device = 0x40, in_sectorCount = 8, in_control = 0\<rparr>) = 0xABCD"
  using H2d_init_roundtrip [of "\<lparr>in_isC = True, in_portMultiplier = 3, in_command = 0x25, in_features = 0x1234,
     in_lbaLow = 1, in_lbaMid = 2, in_lbaHigh = 0xABCD, in_device = 0x40, in_sectorCount = 8, in_control = 0\<rparr>" 3]
  by (simp add: PortMultiplier_def Let_def)

text \<open>
  Of the flags of a command header, C, BIST, Reset and ATAPI read back what was set and leave each other alone.
  Prefetchable and Write do not: their readers look at the byte the port multiplier shares, so they answer False for
  every header whose multiplier bits are clear, even just after they were set; and the multiplier itself can be
  neither written nor read.
\<close>

theorem CommandHeader_flags:
  "ch_C (SetC b h) = b \<and> Bist (SetBist b h) = b \<and> ch_Reset (SetReset b h) = b \<and> Atapi (SetAtapi b h) = b \<and>
   ch_C (SetBist b h) = ch_C h \<and> ch_C (SetReset b h) = ch_C h \<and> Bist (SetC b h) = Bist h \<and>
   Bist (SetReset b h) = Bist h \<and> ch_Reset (SetC b h) = ch_Reset h \<and> ch_Reset (SetBist b h) = ch_Reset h \<and>
   Cfl (SetWrite b h) = Cfl h \<and> Cfl (SetPrefetchable b h) = Cfl h \<and> Cfl (SetAtapi b h) = Cfl h \<and>
   Prefetchable (SetPrefetchable b h) = bit (ch_pmp_c_b_r h) 7 \<and> ch_Write (SetWrite b h) = bit (ch_pmp_c_b_r h) 6 \<and>
   SetPortMultiplier p h = h \<and> GetPortMultiplier h = 0"
proof -
  have mul: "SetPortMultiplier p h = h" "GetPortMultiplier h = 0"
    by (cases h; simp add: SetPortMultiplier_def GetPortMultiplier_def word8_bits_eq bit_rules)+
  have cfl: "put_mask b m x AND MASK_CFL = x AND MASK_CFL" if "m = MASK_W \<or> m = MASK_P \<or> m = MASK_A" for m x
    using that by (auto simp: put_mask_def MASK_W_def MASK_P_def MASK_A_def MASK_CFL_def word8_bits_eq bit_rules)
  note masks = MASK_C_def MASK_B_def MASK_R_def MASK_P_def MASK_W_def MASK_A_def
  have bits: "ch_C (SetC b h) = b" "Bist (SetBist b h) = b" "ch_Reset (SetReset b h) = b" "Atapi (SetAtapi b h) = b"
    "ch_C (SetBist b h) = ch_C h" "ch_C (SetReset b h) = ch_C h" "Bist (SetC b h) = Bist h"
    "Bist (SetReset b h) = Bist h" "ch_Reset (SetC b h) = ch_Reset h" "ch_Reset (SetBist b h) = ch_Reset h"
    "Prefetchable (SetPrefetchable b h) = bit (ch_pmp_c_b_r h) 7" "ch_Write (SetWrite b h) = bit (ch_pmp_c_b_r h) 6"
    by (simp_all add: ch_C_def SetC_def Bist_def SetBist_def ch_Reset_def SetReset_def Atapi_def SetAtapi_def
        Prefetchable_def SetPrefetchable_def ch_Write_def SetWrite_def put_mask_def masks bit_test bit_rules)
  show ?thesis
    using bits mul by (simp add: Cfl_def SetWrite_def SetPrefetchable_def SetAtapi_def cfl)
qed

text \<open>
  A region descriptor for an even buffer address and an odd count below \<open>2 ^ 22\<close> returns both; it asks for an
  interrupt on completion whether or not it was to. Every other address or count halts the kernel.
\<close>

theorem PrdtEntry_roundtrip:
  "if even data \<and> odd n
   then \<exists>e. new_PrdtEntry uninit data interrupt n = Inr e \<and> DataBaseAddress e = data \<and>
          DataByteCount e = n AND 0x3FFFFF \<and> InterruptOnCompletion e
   else new_PrdtEntry uninit data interrupt n = Inl AssertFailed"
proof -
  have a: "data AND 1 = 0 \<longleftrightarrow> even data" "n AND 1 = 0 \<longleftrightarrow> even n" by (simp_all add: bit_test bit_0)
  have addr: "push_bit 32 (ucast (ucast (drop_bit 32 data) :: u32)) OR ucast (ucast (data AND 0xFFFFFFFF) :: u32) = data"
    by (rule word64_eqI) (simp add: bit_rules)
  show ?thesis
    using addr by (auto simp: new_PrdtEntry_def SetDataBaseAddress_def SetWord3_value a rassert_def
        DataBaseAddress_def DataByteCount_def InterruptOnCompletion_def count_word)
qed

end
