(* ===== verification/Pci.thy ===== *)
theory Pci
  imports Bit_Fields Serial_Console
begin

text \<open>
  PCI configuration space (\<open>kernel/src/drivers/pci\<close>): the address word of the configuration mechanism, the registers
  read through it, the bus enumeration and its reports.  What a device answers is a parameter: \<open>cfg a\<close> is the word
  read from the data port after \<open>a\<close> was written to the address port.
\<close>

type_synonym pci_config = "u32 \<Rightarrow> u32"

definition FormConfigAddress :: "bool \<Rightarrow> u8 \<Rightarrow> u8 \<Rightarrow> u8 \<Rightarrow> u8 \<Rightarrow> u32" where
  "FormConfigAddress enable busn devn funcn regOffset =
     (let bus = ucast busn; dev = ucast devn; func = ucast funcn;
          address = (if enable then 1 else 0);
          address = push_bit 31 address;
          address = address OR push_bit 16 bus;
          address = address OR push_bit 11 dev;
          address = address OR push_bit 8 func
      in address OR ucast (regOffset AND 0xFC))"

section \<open>Registers of a function\<close>

definition GetIdentification :: "pci_config \<Rightarrow> u8 \<Rightarrow> u8 \<Rightarrow> u8 \<Rightarrow> u32" where
  "GetIdentification cfg busn devn funcn = cfg (FormConfigAddress True busn devn funcn 0)"

definition GetStatusCommand :: "pci_config \<Rightarrow> u8 \<Rightarrow> u8 \<Rightarrow> u8 \<Rightarrow> u32" where
  "GetStatusCommand cfg busn devn funcn = cfg (FormConfigAddress True busn devn funcn 0x04)"

definition GetClassCode_RevisionId :: "pci_config \<Rightarrow> u8 \<Rightarrow> u8 \<Rightarrow> u8 \<Rightarrow> u32" where
  "GetClassCode_RevisionId cfg busn devn funcn = cfg (FormConfigAddress True busn devn funcn 0x04)"

definition GetCapabilityPointer :: "pci_config \<Rightarrow> u8 \<Rightarrow> u8 \<Rightarrow> u8 \<Rightarrow> u8" where
  "GetCapabilityPointer cfg busn devn funcn =
     (let word = cfg (FormConfigAddress True busn devn funcn 0x34) in ucast (word AND 0xFF))"

definition GetInterruptPin :: "pci_config \<Rightarrow> u8 \<Rightarrow> u8 \<Rightarrow> u8 \<Rightarrow> u8" where
  "GetInterruptPin cfg busn devn funcn =
     (let word = cfg (FormConfigAddress True busn devn funcn 0x3C) in ucast (word AND 0xFF))"

definition GetInterruptLine :: "pci_config \<Rightarrow> u8 \<Rightarrow> u8 \<Rightarrow> u8 \<Rightarrow> u8" where
  "GetInterruptLine cfg busn devn funcn =
     (let word = cfg (FormConfigAddress True busn devn funcn 0x3C) in ucast (drop_bit 8 word AND 0xFF))"

section \<open>Reports\<close>

definition PrintIdentifier :: "u32 \<Rightarrow> kitem list" where
  "PrintIdentifier v =
     (let vendorId = (ucast (v AND 0xFFFF) :: u16); deviceId = (ucast (drop_bit 16 v) :: u16)
      in [KStr ''['', KUnsigned (ucast vendorId), KStr '':'', KUnsigned (ucast deviceId), KStr ''] '',
          KStr (if v = 0x29C08086 then ''Intel - 82G33/G31/P35/P31 Express DRAM Controller''
                else if v = 0x10D38086 then ''Intel - 82574L Gigabit Network Connection''
                else if v = 0x29188086 then ''Intel - 82801IB (ICH9) LPC Interface Controller''
                else if v = 0x29228086
                then ''Intel - 82801IR/IO/IH (ICH9R/DO/DH) 6 port SATA Controller [AHCI mode]''
                else if v = 0x29308086 then ''Intel - 82801I (ICH9 Family) SMBus Controller''
                else ''Unkown Vendor / Device Identitifer'')])"

definition PrintInterruptInfo :: "u32 \<Rightarrow> kitem list" where
  "PrintInterruptInfo v =
     (let interruptLine = (ucast (v AND 0xFF) :: u8); interruptPin = (ucast (drop_bit 8 v AND 0xFF) :: u16)
      in [KStr ''Interrupt Line:: '', KUnsigned (ucast interruptLine),
          KStr (CHR 0x0A # ''Interrupt Pin:: ''), KUnsigned (ucast interruptPin), newline])"

definition unknown_subclass :: "u8 \<Rightarrow> kitem list" where
  "unknown_subclass subClass = [KStr ''Unkown Subclass - '', KUnsigned (ucast subClass)]"

definition PrintClass :: "u32 \<Rightarrow> kitem list" where
  "PrintClass v =
     (let baseClass = (ucast (drop_bit 24 v) :: u8); subClass = (ucast (drop_bit 16 v AND 0xFF) :: u8);
          interface = (ucast (drop_bit 8 v AND 0xFF) :: u8)
      in [KStr ''['', KUnsigned (ucast baseClass), KStr '':'', KUnsigned (ucast subClass), KStr '':'',
          KUnsigned (ucast interface), KStr ''] ''] @
         (if baseClass = 0x01 then
            KStr ''Mass Storage Controller - '' #
            (if subClass = 0x06 then
               [KStr (if interface = 0x00 then ''Serial ATA Controller, Vendor Specific Interface''
                      else if interface = 0x01 then ''Serial ATA Controller, AHCI Interface''
                      else if interface = 0x02 then ''Serial ATA Controller, Serial Storage Bus Interface''
                      else ''Unknown Controller'')]
             else unknown_subclass subClass)
          else if baseClass = 0x02 then
            KStr ''Network Controller - '' #
            (if subClass = 0x00 then
               [KStr (if interface = 0x00 then ''Ethernet Controller'' else ''Unknown Controller'')]
             else unknown_subclass subClass)
          else if baseClass = 0x03 then
            KStr ''Display Controller - '' #
            (if subClass = 0x00 then
               [KStr (if interface = 0x00 then ''VGA Compatible Controller''
                      else if interface = 0x01 then ''8514 Compatible Controller''
                      else ''Unknown Controller'')]
             else unknown_subclass subClass)
          else if baseClass = 0x06 then
            KStr ''PCI Bridge Device - '' #
            (if subClass = 0x00 then
               [KStr (if interface = 0x00 then ''Host Bridge'' else ''Unknown Bridge'')]
             else if subClass = 0x01 then
               [KStr (if interface = 0x00 then ''ISA Bridge'' else ''Unknown Bridge'')]
             else unknown_subclass subClass)
          else if baseClass = 0x0C then
            KStr ''Serial Bus Controller - '' #
            (if subClass = 0x05 then
               [KStr (if interface = 0x00 then ''SMBus'' else ''Unknown Controller'')]
             else unknown_subclass subClass)
          else []))"

section \<open>Enumeration\<close>

text \<open>The three nested loops, and the probes of one function: what they print.\<close>

definition all_functions :: "(u32 \<times> u32 \<times> u8) list" where
  "all_functions =
     concat (map (\<lambda>bus. concat (map (\<lambda>dev. map (\<lambda>func. (of_nat bus, of_nat dev, of_nat func)) [0..<10]) [0..<32]))
       [0..<256])"

definition probe :: "pci_config \<Rightarrow> u32 \<times> u32 \<times> u8 \<Rightarrow> kitem list" where
  "probe cfg = (\<lambda>(bus, dev, func).
     let ids = cfg (FormConfigAddress True (ucast bus) (ucast dev) func 0)
     in if ids AND 0xFFFF = 0xFFFF then []
        else [KMode Hex, KStr ''Bus :: '', KUnsigned (ucast bus), KStr '' :: dev :: '', KUnsigned (ucast dev),
              KStr '' :: Vendorid :: '', KUnsigned (ucast (ids AND 0xFFFF)),
              KStr '' :: Deviceid :: '', KUnsigned (ucast (drop_bit 16 (ids AND push_bit 16 0xFFFF))), newline,
              KStr ''Underlying :: '', KUnsigned (ucast ids), newline] @
             (let classAddr = FormConfigAddress True (ucast bus) (ucast dev) func 0x08; classes = cfg classAddr
              in if classes = 0xFFFF then []
                 else [KMode Hex, KUnsigned (ucast classAddr), newline, KUnsigned (ucast classes), newline,
                       KStr ''Subclass :: '', KUnsigned (ucast (drop_bit 16 classes AND 0xFF)), newline,
                       KStr ''Main Class :: '', KUnsigned (ucast (drop_bit 24 classes AND 0xFF)), newline,
                       KStr (''----'' @ [CHR 0x0A])]))"

definition EnumeratePCI :: "pci_config \<Rightarrow> kitem list" where
  "EnumeratePCI cfg = concat (map (probe cfg) all_functions)"

definition print_probe :: "pci_config \<Rightarrow> u32 \<times> u32 \<times> u8 \<Rightarrow> kitem list" where
  "print_probe cfg = (\<lambda>(bus, dev, func).
     let ids = cfg (FormConfigAddress True (ucast bus) (ucast dev) func 0)
     in if ids AND 0xFFFF = 0xFFFF then []
        else [KMode Hex, KStr ''['', KUnsigned (ucast bus), KStr '':'', KUnsigned (ucast dev), KStr '':'',
              KUnsigned (ucast func), KStr (''] - Probe Success'' @ [CHR 0x0A])] @
             PrintIdentifier ids @ [newline] @
             PrintClass (cfg (FormConfigAddress True (ucast bus) (ucast dev) func 0x08)) @ [newline] @
             PrintInterruptInfo (cfg (FormConfigAddress True (ucast bus) (ucast dev) func 0x3C)) @
             [KStr [CHR 0x0A, CHR 0x0A]])"

definition PrintEnumeratePCI :: "pci_config \<Rightarrow> kitem list" where
  "PrintEnumeratePCI cfg = concat (map (print_probe cfg) all_functions)"

definition CheckSataICH9 :: "pci_config \<Rightarrow> kitem list" where
  "CheckSataICH9 cfg =
     (let ids = cfg (FormConfigAddress False 0 31 2 0)
      in [KUnsigned (ucast ids), newline] @
         (if ids AND 0xFFFF = 0xFFFF then []
          else [KMode Hex, KStr ''Bus :: '', KInt 1, KStr '' :: dev :: '', KInt 31,
                KStr '' :: Vendorid :: '', KUnsigned (ucast (ids AND 0xFFFF)),
                KStr '' :: Deviceid :: '', KUnsigned (ucast (drop_bit 16 (ids AND push_bit 16 0xFFFF))), newline,
                KStr ''Underlying :: '', KUnsigned (ucast ids), newline, KStr ''---'', newline] @
               (let classAddr = FormConfigAddress False 0 31 2 0x0A; classes = (ucast (cfg classAddr) :: u16)
                in if classes AND 0xFFFF = 0xFFFF then []
                   else [KMode Hex, KUnsigned (ucast classAddr), newline, KUnsigned (ucast classes), newline,
                         KStr ''Subclass :: '', KInt (uint (classes AND 0xFF)), newline,
                         KStr ''Main Class :: '', KInt (uint (drop_bit 8 classes AND 0xFF)), newline])))"

section \<open>Lemmas\<close>

lemma no_bit_8: "8 \<le> n \<Longrightarrow> \<not> bit w n" for w :: u8
  by (auto dest: bit_imp_le_length)

lemma config_address_fields:
  assumes "devn < 32" "funcn < 8"
  shows "ucast (drop_bit 16 (FormConfigAddress e b devn funcn r)) = b"
    "ucast (drop_bit 11 (FormConfigAddress e b devn funcn r) AND 0x1F) = devn"
    "ucast (drop_bit 8 (FormConfigAddress e b devn funcn r) AND 0x7) = funcn"
    "ucast (FormConfigAddress e b devn funcn r) = r AND 0xFC"
    "bit (FormConfigAddress e b devn funcn r) 31 = e"
proof -
  have hi: "\<not> bit devn n" if "5 \<le> n" for n
    using assms(1) that by (intro unat_less_no_bit [where n = 5]) (simp_all add: word_less_nat_alt)
  have hf: "\<not> bit funcn n" if "3 \<le> n" for n
    using assms(2) that by (intro unat_less_no_bit [where n = 3]) (simp_all add: word_less_nat_alt)
  note d = FormConfigAddress_def Let_def bit_rules hi hf no_bit_8
  show "ucast (drop_bit 16 (FormConfigAddress e b devn funcn r)) = b" by (simp add: word8_bits_eq d)
  show "ucast (drop_bit 11 (FormConfigAddress e b devn funcn r) AND 0x1F) = devn" by (simp add: word8_bits_eq d)
  show "ucast (drop_bit 8 (FormConfigAddress e b devn funcn r) AND 0x7) = funcn" by (simp add: word8_bits_eq d)
  show "ucast (FormConfigAddress e b devn funcn r) = r AND 0xFC" by (simp add: word8_bits_eq d)
  show "bit (FormConfigAddress e b devn funcn r) 31 = e" by (simp add: d)
qed

text \<open>Function numbers 8 and 9 spill into the lowest bit of the device number.\<close>

lemma function_8_alias:
  assumes "f < 2"
  shows "FormConfigAddress e bus dev (8 + f) r = FormConfigAddress e bus (dev OR 1) f r"
proof -
  have "unat f < 2" using assms by (simp add: word_less_nat_alt)
  then have "unat f = 0 \<or> unat f = 1" by auto
  then have "f = 0 \<or> f = 1" by (auto simp: word_unat_eq_iff)
  then show ?thesis by (auto simp: FormConfigAddress_def Let_def word32_bits_eq bit_rules)
qed

text \<open>What a probe prints contains its headline exactly once when the function answers, and nothing otherwise.\<close>

definition answers :: "pci_config \<Rightarrow> nat \<Rightarrow> nat \<Rightarrow> nat \<Rightarrow> bool" where
  "answers cfg bus dev func \<longleftrightarrow>
     cfg (FormConfigAddress True (of_nat bus) (of_nat dev) (of_nat func) 0) AND 0xFFFF \<noteq> 0xFFFF"

abbreviation print_headline :: kitem where
  "print_headline \<equiv> KStr (''] - Probe Success'' @ [CHR 0x0A])"

abbreviation list_headline :: kitem where
  "list_headline \<equiv> KStr '' :: Vendorid :: ''"

lemma no_headline:
  "print_headline \<notin> set (PrintIdentifier x)" "print_headline \<notin> set (PrintClass x)"
  "print_headline \<notin> set (PrintInterruptInfo x)"
  by (auto simp: PrintIdentifier_def PrintClass_def PrintInterruptInfo_def unknown_subclass_def Let_def newline_def
        split: if_splits)

lemma ucast_of_nat_u8: "ucast (of_nat n :: u32) = (of_nat n :: u8)"
  by (simp add: word_unat_eq_iff unat_of_nat unsigned_ucast_eq take_bit_eq_mod mod_mod_cancel)

lemma probe_headlines:
  "count_list (print_probe cfg (of_nat b, of_nat d, of_nat f)) print_headline = of_bool (answers cfg b d f)"
  "count_list (probe cfg (of_nat b, of_nat d, of_nat f)) list_headline = of_bool (answers cfg b d f)"
  by (simp_all add: print_probe_def probe_def answers_def ucast_of_nat_u8 Let_def newline_def
      no_headline [THEN count_notin, simplified])

lemma count_list_concat_map: "count_list (concat (map f xs)) y = (\<Sum>x\<leftarrow>xs. count_list (f x) y)"
  by (induction xs) simp_all

lemma sum_list_concat_map: "(\<Sum>x\<leftarrow>concat xss. h x) = (\<Sum>xs\<leftarrow>xss. \<Sum>x\<leftarrow>xs. (h x :: nat))"
  by (induction xss) simp_all

lemma count_all_functions:
  assumes "\<And>b d f. count_list (g (of_nat b, of_nat d, of_nat f)) y = of_bool (P b d f)"
  shows "count_list (concat (map g all_functions)) y = (\<Sum>b<256. \<Sum>d<32. \<Sum>f<10. of_bool (P b d f))"
proof -
  have upt: "sum_list (map h [0..<n]) = (\<Sum>i<n. h i)" for h :: "nat \<Rightarrow> nat" and n
    by (simp add: interv_sum_list_conv_sum_set_nat atLeast0LessThan)
  have "count_list (concat (map g all_functions)) y
      = (\<Sum>b\<leftarrow>[0..<256]. \<Sum>d\<leftarrow>[0..<32]. \<Sum>f\<leftarrow>[0..<10]. count_list (g (of_nat b, of_nat d, of_nat f)) y)"
    unfolding all_functions_def
    by (simp only: count_list_concat_map sum_list_concat_map map_map comp_def)
  then show ?thesis unfolding assms upt .
qed

text \<open>The two extra functions of a device are the first two of its odd neighbour.\<close>

lemma answers_extra:
  assumes "f < 2"
  shows "answers cfg b d (8 + f) = answers cfg b (d + of_bool (even d)) f"
proof -
  have "f = 0 \<or> f = 1" using assms by auto
  then have small: "(of_nat f :: u8) < 2" by auto
  have "(of_nat d OR 1 :: u8) = of_nat (d OR 1)" by (simp add: of_nat_or_eq)
  then have "(of_nat d OR 1 :: u8) = of_nat (d + of_bool (even d))" by (simp only: or_one_eq)
  with function_8_alias [OF small, of True "of_nat b" "of_nat d" 0] show ?thesis by (simp add: answers_def)
qed

lemma sum_odd_neighbour:
  "(\<Sum>d<2 * (n :: nat). h (d + of_bool (even d))) = (\<Sum>d<2 * n. of_bool (odd d) * (2 * h d :: nat))"
  by (induction n) simp_all

lemma sum_ten_functions:
  "(\<Sum>d<32. \<Sum>f<10. of_bool (answers cfg b d f) :: nat)
     = (\<Sum>d<32. \<Sum>f<8. if answers cfg b d f then (if f < 2 \<and> odd d then 3 else 1) else 0)"
proof -
  let ?a = "\<lambda>d f. of_bool (answers cfg b d f) :: nat" and ?o = "\<lambda>d. d + of_bool (even d) :: nat"
  have ten: "(\<Sum>f<10. ?a d f) = (\<Sum>f<8. ?a d f) + (?a (?o d) 0 + ?a (?o d) 1)" for d
    using answers_extra [of 0 cfg b d] answers_extra [of 1 cfg b d]
    by (simp add: eval_nat_numeral)
  have eight: "(\<Sum>f<8. if answers cfg b d f then (if f < 2 \<and> odd d then 3 else 1) else 0)
      = (\<Sum>f<8. ?a d f) + of_bool (odd d) * (2 * (?a d 0 + ?a d 1))" for d
    by (simp add: eval_nat_numeral)
  have "(\<Sum>d<32. ?a (?o d) 0 + ?a (?o d) 1) = (\<Sum>d<32. of_bool (odd d) * (2 * (?a d 0 + ?a d 1)))"
    using sum_odd_neighbour [of "\<lambda>d. ?a d 0 + ?a d 1" 16] by simp
  then show ?thesis unfolding ten eight sum.distrib by simp
qed

section \<open>Properties\<close>

text \<open>
  Configuration addresses of valid devices (fewer than 32) and functions (fewer than 8) are unambiguous: two are
  equal only for the same enable flag, bus, device and function and the same register word.
\<close>

theorem config_address_injective:
  assumes "d < 32" "f < 8" "d' < 32" "f' < 8"
  shows "FormConfigAddress e b d f r = FormConfigAddress e' b' d' f' r' \<longleftrightarrow>
     e = e' \<and> b = b' \<and> d = d' \<and> f = f' \<and> r AND 0xFC = r' AND 0xFC"
proof
  assume eq: "FormConfigAddress e b d f r = FormConfigAddress e' b' d' f' r'"
  show "e = e' \<and> b = b' \<and> d = d' \<and> f = f' \<and> r AND 0xFC = r' AND 0xFC"
    using config_address_fields [OF assms(1,2), of e b r] config_address_fields [OF assms(3,4), of e' b' r']
    by (simp only: eq)
qed (simp add: FormConfigAddress_def)

theorem config_address_injective_witness:
  "FormConfigAddress True 0 31 2 0x24 \<noteq> FormConfigAddress True 0 31 3 0x24"
  using config_address_injective [of 31 2 31 3 True 0 "0x24" True 0 "0x24"] by simp

text \<open>
  C29. Both enumerations probe ten functions of every device where the bus has eight, and the two extra addresses are the
  first two functions of the odd neighbour (of the device itself when it is odd).  So over all 256 buses a function that
  answers (its vendor id is not 0xFFFF) is reported once, except functions 0 and 1 of odd devices, which are reported
  three times: by their own probe and by the extra probes of the two devices of their pair.
\<close>

theorem enumeration_aliases:
  "count_list (PrintEnumeratePCI cfg) print_headline
     = (\<Sum>b<256. \<Sum>d<32. \<Sum>f<8. if answers cfg b d f then (if f < 2 \<and> odd d then 3 else 1) else 0) \<and>
   count_list (EnumeratePCI cfg) list_headline
     = (\<Sum>b<256. \<Sum>d<32. \<Sum>f<8. if answers cfg b d f then (if f < 2 \<and> odd d then 3 else 1) else 0)"
  unfolding PrintEnumeratePCI_def EnumeratePCI_def
  using count_all_functions [of "print_probe cfg" print_headline "answers cfg"]
    count_all_functions [of "probe cfg" list_headline "answers cfg"]
  by (simp only: probe_headlines sum_ten_functions)

text \<open>A machine whose only function is 0:31.0, an ISA bridge: it is listed three times.\<close>

definition isa_bridge_only :: pci_config where
  "isa_bridge_only a = (if a = FormConfigAddress True 0 31 0 0 then 0x29188086 else 0xFFFFFFFF)"

lemma isa_bridge_answers:
  assumes "b < 256" "d < 32" "f < 8"
  shows "answers isa_bridge_only b d f \<longleftrightarrow> b = 0 \<and> d = 31 \<and> f = 0"
proof -
  have u: "unat (of_nat n :: u8) = n" if "n < 256" for n using that by (simp add: unat_of_nat)
  have lt: "(of_nat d :: u8) < 32" "(of_nat f :: u8) < 8" "(31 :: u8) < 32" "(0 :: u8) < 8"
    using assms u [of d] u [of f] by (simp_all add: word_less_nat_alt)
  have "(of_nat n :: u8) = of_nat m \<longleftrightarrow> n = m" if "n < 256" "m < 256" for n m using u that by metis
  from this [of b 0] this [of d 31] this [of f 0]
  have "FormConfigAddress True (of_nat b) (of_nat d) (of_nat f) 0 = FormConfigAddress True 0 31 0 0 \<longleftrightarrow>
      b = 0 \<and> d = 31 \<and> f = 0"
    using config_address_fields [OF lt(1,2), of True "of_nat b" 0] config_address_fields [OF lt(3,4), of True 0 0] assms
    by auto
  then show ?thesis by (simp add: answers_def isa_bridge_only_def)
qed

theorem enumeration_aliases_witness:
  "count_list (EnumeratePCI isa_bridge_only) list_headline = 3 \<and>
   count_list (PrintEnumeratePCI isa_bridge_only) print_headline = 3"
proof -
  let ?t = "\<lambda>b d f. if answers isa_bridge_only b d f then (if f < 2 \<and> odd d then 3 else 1) else (0 :: nat)"
  have "(\<Sum>f<8. ?t b d f) = (if b = 0 \<and> d = 31 then 3 else 0)" if "b < 256" "d < 32" for b d
  proof -
    have "(\<Sum>f<8. ?t b d f) = (\<Sum>f<8. if f = (0 :: nat) then (if b = 0 \<and> d = 31 then 3 else 0) else 0)"
      by (rule sum.cong) (use that isa_bridge_answers in auto)
    then show ?thesis by simp
  qed
  note inner = this
  have "(\<Sum>d<32. \<Sum>f<8. ?t b d f) = (if b = 0 then 3 else 0)" if "b < 256" for b
  proof -
    have "(\<Sum>d<32. \<Sum>f<8. ?t b d f) = (\<Sum>d<32. if d = (31 :: nat) then (if b = 0 then 3 else 0) else 0)"
      by (rule sum.cong) (use that inner in auto)
    then show ?thesis by simp
  qed
  then have "(\<Sum>b<256. \<Sum>d<32. \<Sum>f<8. ?t b d f) = (\<Sum>b<256. if b = (0 :: nat) then 3 else 0)"
    by (intro sum.cong) auto
  then show ?thesis using enumeration_aliases [of isa_bridge_only] by simp
qed

end
