(* ===== verification/Ahci_Port.thy ===== *)
theory Ahci_Port
  imports Ahci_Fis
begin

text \<open>
  A port of the disk controller (\<open>kernel/src/drivers/ahci/ahci_port\<close>).  A register block is a record and lies in a
  map from addresses; the port keeps a pointer to it, null until the driver sets it.  A reader takes the registers as
  they are when it starts; what the hardware does in between is the driver's parameter (see \<open>Ahci_Driver\<close>).
\<close>

section \<open>State\<close>

record PortRegisters =
  pr_clistb :: u32
  pr_clistbu :: u32
  pr_fisb :: u32
  pr_fisbu :: u32
  pr_is :: u32
  pr_ie :: u32
  pr_cmd :: u32
  pr_tfd :: u32
  pr_sig :: u32
  pr_ssts :: u32
  pr_sctl :: u32
  pr_serr :: u32
  pr_sact :: u32
  pr_ci :: u32
  pr_sntf :: u32
  pr_fbs :: u32

type_synonym port_mem = "addr \<Rightarrow> PortRegisters"

record AhciPort =
  ap_registers :: addr
  ap_present :: bool
  ap_devicePresent :: bool
  ap_fre :: bool
  ap_dmaRunning :: bool

definition CMD_ST :: u32 where "CMD_ST = 0x00000001"
definition CMD_FRE :: u32 where "CMD_FRE = 0x00000010"
definition CMD_FR :: u32 where "CMD_FR = 0x00004000"
definition CMD_CR :: u32 where "CMD_CR = 0x00008000"
definition ENABLE_ALL_INTS :: u32 where "ENABLE_ALL_INTS = 0xFFF000FF"
definition TFD_STS_STATUS_BSY :: u32 where "TFD_STS_STATUS_BSY = 0x80"
definition TFD_STS_STATUS_DRQ :: u32 where "TFD_STS_STATUS_DRQ = 0x08"
definition SATA_STATUS_IPM :: u32 where "SATA_STATUS_IPM = 0xF00"
definition SATA_STATUS_DET :: u32 where "SATA_STATUS_DET = 0x0F"

lemmas cmd_bits = CMD_ST_def CMD_FRE_def CMD_FR_def CMD_CR_def

text \<open>The constructor leaves \<open>m_fre\<close> as the memory was.\<close>

definition new_AhciPort :: "AhciPort \<Rightarrow> AhciPort" where
  "new_AhciPort uninit = uninit\<lparr>ap_registers := 0, ap_present := False, ap_devicePresent := False, ap_dmaRunning := False\<rparr>"

definition SetMMIOBase :: "addr \<Rightarrow> AhciPort \<Rightarrow> AhciPort" where
  "SetMMIOBase base p = p\<lparr>ap_registers := base\<rparr>"

definition Port_SetPresent :: "AhciPort \<Rightarrow> AhciPort" where
  "Port_SetPresent p = p\<lparr>ap_present := True\<rparr>"

definition SetDevicePresent :: "AhciPort \<Rightarrow> AhciPort" where
  "SetDevicePresent p = p\<lparr>ap_devicePresent := True\<rparr>"

definition port_regs :: "AhciPort \<Rightarrow> port_mem \<Rightarrow> PortRegisters result" where
  "port_regs p m = rbind (guard_ptr (ap_registers p)) (\<lambda>_. Inr (m (ap_registers p)))"

definition port_update :: "AhciPort \<Rightarrow> (PortRegisters \<Rightarrow> PortRegisters) \<Rightarrow> port_mem \<Rightarrow> port_mem result" where
  "port_update p f m = rbind (port_regs p m) (\<lambda>r. Inr (m(ap_registers p := f r)))"

section \<open>Registers\<close>

definition SetCLB :: "u64 \<Rightarrow> AhciPort \<Rightarrow> port_mem \<Rightarrow> port_mem result" where
  "SetCLB addr p m = port_update p (\<lambda>r. r\<lparr>pr_clistb := ucast addr\<rparr>) m"

definition SetFisB :: "u64 \<Rightarrow> AhciPort \<Rightarrow> port_mem \<Rightarrow> port_mem result" where
  "SetFisB addr p m = port_update p (\<lambda>r. r\<lparr>pr_fisb := ucast addr\<rparr>) m"

definition ClearSERR :: "AhciPort \<Rightarrow> port_mem \<Rightarrow> port_mem result" where
  "ClearSERR p m = port_update p (\<lambda>r. r\<lparr>pr_serr := 1\<rparr>) m"

definition EnableFRE :: "AhciPort \<Rightarrow> port_mem \<Rightarrow> (AhciPort \<times> port_mem) result" where
  "EnableFRE p m =
     rbind (port_update p (\<lambda>r. r\<lparr>pr_cmd := pr_cmd r OR CMD_FRE\<rparr>) m) (\<lambda>m. Inr (p\<lparr>ap_fre := True\<rparr>, m))"

definition DisableFRE :: "AhciPort \<Rightarrow> port_mem \<Rightarrow> (AhciPort \<times> port_mem) result" where
  "DisableFRE p m =
     rbind (port_update p (\<lambda>r. r\<lparr>pr_cmd := pr_cmd r AND NOT CMD_FRE\<rparr>) m) (\<lambda>m. Inr (p\<lparr>ap_fre := False\<rparr>, m))"

definition Port_ClearInterruptStatus :: "AhciPort \<Rightarrow> port_mem \<Rightarrow> port_mem result" where
  "Port_ClearInterruptStatus p m = port_update p (\<lambda>r. r\<lparr>pr_is := ENABLE_ALL_INTS\<rparr>) m"

definition Port_ClearInterruptStatus_at :: "u8 \<Rightarrow> AhciPort \<Rightarrow> port_mem \<Rightarrow> port_mem result" where
  "Port_ClearInterruptStatus_at index p m =
     port_update p (\<lambda>r. r\<lparr>pr_is := pr_is r OR push_bit (unat index) 1\<rparr>) m"

definition Port_EnableInterrupts :: "AhciPort \<Rightarrow> port_mem \<Rightarrow> port_mem result" where
  "Port_EnableInterrupts p m =
     rbind (port_update p (\<lambda>r. r\<lparr>pr_ie := ENABLE_ALL_INTS AND 0xFFFF\<rparr>) m) (\<lambda>m.
     rbind (port_regs p m) (\<lambda>r.
     rbind (rassert ((pr_ie r AND ENABLE_ALL_INTS) AND 0xFFFF \<noteq> 0)) (\<lambda>_. Inr m)))"

definition Port_DisableInterrupts :: "AhciPort \<Rightarrow> port_mem \<Rightarrow> port_mem result" where
  "Port_DisableInterrupts p m = port_update p (\<lambda>r. r\<lparr>pr_ie := 0\<rparr>) m"

section \<open>Device and engine\<close>

text \<open>The shift binds tighter than the mask, so each of the three power tests masks the low four bits.\<close>

definition HasDevice :: "AhciPort \<Rightarrow> port_mem \<Rightarrow> bool result" where
  "HasDevice p m =
     rbind (port_regs p m) (\<lambda>r.
       let tfd = pr_tfd r; ssts = pr_ssts r
       in if tfd AND TFD_STS_STATUS_BSY \<noteq> 0 then Inr False
          else if tfd AND TFD_STS_STATUS_DRQ \<noteq> 0 then Inr False
          else let ipmTest = (ssts AND drop_bit 8 SATA_STATUS_IPM = 2 \<or>
                              ssts AND drop_bit 8 SATA_STATUS_IPM = 6 \<or>
                              ssts AND drop_bit 8 SATA_STATUS_IPM = 8);
                   sstsTest = (ssts AND SATA_STATUS_DET = 0x03 \<or> ipmTest)
               in if \<not> sstsTest then Inr False else Inr True)"

definition Port_Idle :: "AhciPort \<Rightarrow> port_mem \<Rightarrow> bool result" where
  "Port_Idle p m =
     rbind (port_regs p m) (\<lambda>r.
       if pr_cmd r AND (((CMD_ST OR CMD_FRE) OR CMD_FR) OR CMD_CR) \<noteq> 0 then Inr False else Inr True)"

text \<open>
  The status is copied into a local variable and only the copy is written and polled: a poll that is not satisfied
  at once never will be.
\<close>

definition ForceIdle :: "AhciPort \<Rightarrow> port_mem \<Rightarrow> port_mem result" where
  "ForceIdle p m =
     rbind (port_regs p m) (\<lambda>r.
       let cmdstatus = pr_cmd r
       in rbind (if cmdstatus AND CMD_ST \<noteq> 0
                 then let cmdstatus = cmdstatus AND NOT CMD_ST
                      in if cmdstatus AND CMD_CR \<noteq> 0 then Inl Diverges else Inr cmdstatus
                 else Inr cmdstatus) (\<lambda>cmdstatus.
          rbind (if cmdstatus AND CMD_FRE \<noteq> 0
                 then let cmdstatus = cmdstatus AND NOT CMD_FRE
                      in if cmdstatus AND CMD_FR \<noteq> 0 then Inl Diverges else Inr cmdstatus
                 else Inr cmdstatus) (\<lambda>_. Inr m)))"

definition EnableDMAEngine :: "AhciPort \<Rightarrow> port_mem \<Rightarrow> (AhciPort \<times> port_mem) result" where
  "EnableDMAEngine p m =
     rbind (port_regs p m) (\<lambda>r.
       if \<not> (pr_cmd r AND CMD_CR \<noteq> 0) \<and> ap_devicePresent p \<and> ap_fre p
       then rbind (port_update p (\<lambda>r. r\<lparr>pr_cmd := pr_cmd r OR CMD_ST\<rparr>) m) (\<lambda>m.
              Inr (p\<lparr>ap_dmaRunning := True\<rparr>, m))
       else Inr (p\<lparr>ap_dmaRunning := False\<rparr>, m))"

definition CommandListBaseAddr :: "AhciPort \<Rightarrow> port_mem \<Rightarrow> u64 result" where
  "CommandListBaseAddr p m = rbind (port_regs p m) (\<lambda>r. Inr (ucast (pr_clistb r)))"

definition RecievedFisBaseAddr :: "AhciPort \<Rightarrow> port_mem \<Rightarrow> u64 result" where
  "RecievedFisBaseAddr p m = rbind (port_regs p m) (\<lambda>r. Inr (ucast (pr_fisb r)))"

section \<open>Command slots\<close>

definition slot_free :: "PortRegisters \<Rightarrow> nat \<Rightarrow> bool" where
  "slot_free r i =
     (let POS_MASK = push_bit i 1;
          sataActiveSet = (pr_sact r AND POS_MASK \<noteq> 0);
          commandIssueSet = (pr_ci r AND POS_MASK \<noteq> 0)
      in \<not> sataActiveSet \<and> \<not> commandIssueSet)"

function slot_loop :: "PortRegisters \<Rightarrow> nat \<Rightarrow> int" where
  "slot_loop r i = (if i < 32 then (if slot_free r i then int i else slot_loop r (Suc i)) else - 1)"
  by pat_completeness auto
termination by (relation "measure (\<lambda>(r, i). 32 - i)") auto

declare slot_loop.simps [simp del]

definition EmptyCommandSlot :: "AhciPort \<Rightarrow> port_mem \<Rightarrow> int result" where
  "EmptyCommandSlot p m = rbind (port_regs p m) (\<lambda>r. Inr (slot_loop r 0))"

definition IssueCommand :: "u8 \<Rightarrow> AhciPort \<Rightarrow> port_mem \<Rightarrow> port_mem result" where
  "IssueCommand slot p m =
     rbind (rassert (slot < 32)) (\<lambda>_. port_update p (\<lambda>r. r\<lparr>pr_ci := pr_ci r OR push_bit (unat slot) 1\<rparr>) m)"

definition CommandSlotSet :: "u8 \<Rightarrow> AhciPort \<Rightarrow> port_mem \<Rightarrow> bool result" where
  "CommandSlotSet slot p m =
     rbind (rassert (slot < 32)) (\<lambda>_. rbind (port_regs p m) (\<lambda>r. Inr (pr_ci r AND push_bit (unat slot) 1 \<noteq> 0)))"

section \<open>Lemmas\<close>

lemma port_regs_ok [simp, result_simps]: "ap_registers p \<noteq> 0 \<Longrightarrow> port_regs p m = Inr (m (ap_registers p))"
  by (simp add: port_regs_def)

lemma port_update_ok [simp, result_simps]:
  "ap_registers p \<noteq> 0 \<Longrightarrow> port_update p f m = Inr (m(ap_registers p := f (m (ap_registers p))))"
  by (simp add: port_update_def)

lemma slot_free_bits: "slot_free r i \<longleftrightarrow> \<not> bit (pr_sact r) i \<and> \<not> bit (pr_ci r) i"
  by (simp add: slot_free_def Let_def push_bit_eq_mult and_exp_eq_0)

lemma slot_loop_spec:
  "(\<exists>k. i \<le> k \<and> k < 32 \<and> slot_loop r i = int k \<and> slot_free r k \<and> (\<forall>j. i \<le> j \<and> j < k \<longrightarrow> \<not> slot_free r j)) \<or>
   slot_loop r i = - 1 \<and> (\<forall>j. i \<le> j \<and> j < 32 \<longrightarrow> \<not> slot_free r j)"
proof (induction r i rule: slot_loop.induct)
  case (1 r i)
  show ?case
  proof (cases "i < 32 \<and> \<not> slot_free r i")
    case True
    then have step: "slot_loop r i = slot_loop r (Suc i)" by (subst slot_loop.simps) simp
    have all: "(\<forall>j. i \<le> j \<and> j < k \<longrightarrow> \<not> slot_free r j) \<longleftrightarrow> (\<forall>j. Suc i \<le> j \<and> j < k \<longrightarrow> \<not> slot_free r j)"
      for k using True by (metis Suc_leD Suc_leI le_neq_implies_less)
    from "1.IH" True show ?thesis
      unfolding step all by (blast dest: Suc_leD)
  next
    case False
    then show ?thesis by (subst (1 2) slot_loop.simps) (auto intro: exI [of _ i])
  qed
qed

section \<open>Properties\<close>

text \<open>
  Forcing a port idle does nothing: whatever the command register, it ends with every register of the port
  unchanged, or, when the command engine or the receive engine is still running behind a set start bit, it never ends.
\<close>

theorem ForceIdle_no_effect:
  assumes "ap_registers p \<noteq> 0"
  shows "let cmd = pr_cmd (m (ap_registers p))
     in ForceIdle p m = (if bit cmd 0 \<and> bit cmd 15 \<or> bit cmd 4 \<and> bit cmd 14 then Inl Diverges else Inr m)"
  using assms by (simp add: ForceIdle_def Let_def cmd_bits bit_test bit_rules)

text \<open>
  The slot search returns the lowest slot of 32 that is neither active nor issued, and -1 exactly when there is none.
\<close>

theorem EmptyCommandSlot_lowest:
  assumes "ap_registers p \<noteq> 0"
  shows "\<exists>k. EmptyCommandSlot p m = Inr k \<and>
     (let free = (\<lambda>i. \<not> bit (pr_sact (m (ap_registers p))) i \<and> \<not> bit (pr_ci (m (ap_registers p))) i)
      in k = - 1 \<and> (\<forall>i<32. \<not> free i) \<or> 0 \<le> k \<and> k < 32 \<and> free (nat k) \<and> (\<forall>i<nat k. \<not> free i))"
  using slot_loop_spec [of 0 "m (ap_registers p)"] assms
  by (auto simp: EmptyCommandSlot_def slot_free_bits Let_def)

definition zero_port_regs :: PortRegisters where
  "zero_port_regs = \<lparr>pr_clistb = 0, pr_clistbu = 0, pr_fisb = 0, pr_fisbu = 0, pr_is = 0, pr_ie = 0, pr_cmd = 0,
     pr_tfd = 0, pr_sig = 0, pr_ssts = 0, pr_sctl = 0, pr_serr = 0, pr_sact = 0, pr_ci = 0, pr_sntf = 0, pr_fbs = 0\<rparr>"

definition some_port :: AhciPort where
  "some_port = \<lparr>ap_registers = 0x1100, ap_present = True, ap_devicePresent = False, ap_fre = False, ap_dmaRunning = False\<rparr>"

theorem ForceIdle_no_effect_witness:
  "ForceIdle some_port (\<lambda>_. zero_port_regs\<lparr>pr_cmd := 0x8001\<rparr>) = Inl Diverges"
  using ForceIdle_no_effect [of some_port "\<lambda>_. zero_port_regs\<lparr>pr_cmd := 0x8001\<rparr>"]
  by (simp add: some_port_def Let_def)

theorem EmptyCommandSlot_lowest_witness:
  "\<exists>k. EmptyCommandSlot some_port (\<lambda>_. zero_port_regs\<lparr>pr_ci := 3, pr_sact := 4\<rparr>) = Inr k"
  using EmptyCommandSlot_lowest [of some_port "\<lambda>_. zero_port_regs\<lparr>pr_ci := 3, pr_sact := 4\<rparr>"]
  by (auto simp: some_port_def)

end
