(* ===== verification/Ahci_Driver.thy ===== *)
theory Ahci_Driver
  imports Ahci_Port Pci "HOL-Library.While_Combinator"
begin

text \<open>
  The driver of the disk controller (\<open>kernel/src/drivers/ahci/ahci_driver\<close>, \<open>ahci_disk\<close>): bringing the controller up
  and moving sectors.  The state holds the driver's fields and the memories it works on: host and port registers,
  command headers, command tables, identification blocks.  Parameters are the configuration space, the allocators,
  and the hardware: \<open>hba\<close> is what the controller does to the state between two polls of a register.  The console
  output of the operations that change the state is left out.
\<close>

section \<open>State\<close>

record HostRegisters =
  hr_cap :: u32
  hr_ghc :: u32
  hr_is :: u32
  hr_pi :: u32

record AhciDisk =
  dk_port :: u8
  dk_totalSectors :: u32

record 'k ahci =
  a_present :: bool
  a_enabled :: bool
  a_abar :: u64
  a_mmioBase :: u64
  a_hostregs :: addr
  a_ports :: "AhciPort list"
  a_disks :: "AhciDisk list"
  a_host_mem :: "addr \<Rightarrow> HostRegisters"
  a_port_mem :: port_mem
  a_header_mem :: "addr \<Rightarrow> CommandHeader"
  a_table_mem :: "addr \<Rightarrow> CommandTable"
  a_ident_mem :: "addr \<Rightarrow> IdentifyDeviceBuffer"
  a_heap :: 'k

type_synonym 'k hba = "'k ahci \<Rightarrow> 'k ahci"

text \<open>The kernel's allocators: the heap's \<open>New\<close> and \<open>Delete\<close> of a command table, and the page allocator.\<close>

record 'k mm =
  mm_new :: "'k \<Rightarrow> addr \<times> 'k"
  mm_delete :: "addr \<Rightarrow> 'k \<Rightarrow> 'k"
  mm_palloc :: "'k \<Rightarrow> addr \<times> 'k"
  mm_pfree :: "addr \<Rightarrow> 'k \<Rightarrow> 'k"

definition MAX_PORTS :: nat where "MAX_PORTS = 32"

definition SECTOR_BYTES :: u64 where "SECTOR_BYTES = 512"

section \<open>Access\<close>

definition Port :: "nat \<Rightarrow> 'k ahci \<Rightarrow> AhciPort result" where
  "Port i w = (if i < length (a_ports w) then Inr (a_ports w ! i) else Inl OutOfBounds)"

definition put_port :: "nat \<Rightarrow> AhciPort \<Rightarrow> 'k ahci \<Rightarrow> 'k ahci" where
  "put_port i p w = w\<lparr>a_ports := (a_ports w)[i := p]\<rparr>"

definition host_regs :: "'k ahci \<Rightarrow> HostRegisters result" where
  "host_regs w = rbind (guard_ptr (a_hostregs w)) (\<lambda>_. Inr (a_host_mem w (a_hostregs w)))"

definition host_update :: "(HostRegisters \<Rightarrow> HostRegisters) \<Rightarrow> 'k ahci \<Rightarrow> 'k ahci result" where
  "host_update f w =
     rbind (host_regs w) (\<lambda>r. Inr (w\<lparr>a_host_mem := (a_host_mem w)(a_hostregs w := f r)\<rparr>))"

definition Ghc :: "'k ahci \<Rightarrow> u32 result" where
  "Ghc w = rbind (host_regs w) (\<lambda>r. Inr (hr_ghc r))"

definition SetGhc :: "u32 \<Rightarrow> 'k ahci \<Rightarrow> 'k ahci result" where
  "SetGhc val = host_update (\<lambda>r. r\<lparr>hr_ghc := val\<rparr>)"

definition Capabilites :: "'k ahci \<Rightarrow> u32 result" where
  "Capabilites w = rbind (host_regs w) (\<lambda>r. Inr (hr_cap r))"

definition PortsImplemented :: "'k ahci \<Rightarrow> u32 result" where
  "PortsImplemented w = rbind (host_regs w) (\<lambda>r. Inr (hr_pi r))"

text \<open>An operation on the registers of a port, and one that also changes the port object.\<close>

definition on_port_regs :: "nat \<Rightarrow> (AhciPort \<Rightarrow> port_mem \<Rightarrow> port_mem result) \<Rightarrow> 'k ahci \<Rightarrow> 'k ahci result" where
  "on_port_regs i f w = rbind (Port i w) (\<lambda>p. rbind (f p (a_port_mem w)) (\<lambda>m. Inr (w\<lparr>a_port_mem := m\<rparr>)))"

definition on_port :: "nat \<Rightarrow> (AhciPort \<Rightarrow> port_mem \<Rightarrow> (AhciPort \<times> port_mem) result) \<Rightarrow> 'k ahci \<Rightarrow> 'k ahci result" where
  "on_port i f w =
     rbind (Port i w) (\<lambda>p. rbind (f p (a_port_mem w)) (\<lambda>(p, m). Inr (put_port i p (w\<lparr>a_port_mem := m\<rparr>))))"

primrec for_each :: "(nat \<Rightarrow> 's \<Rightarrow> 's result) \<Rightarrow> nat list \<Rightarrow> 's \<Rightarrow> 's result" where
  "for_each f [] s = Inr s"
| "for_each f (i # is) s = rbind (f i s) (for_each f is)"

definition if_present :: "(nat \<Rightarrow> 'k ahci \<Rightarrow> 'k ahci result) \<Rightarrow> nat \<Rightarrow> 'k ahci \<Rightarrow> 'k ahci result" where
  "if_present f i w = rbind (Port i w) (\<lambda>p. if ap_present p then f i w else Inr w)"

text \<open>A polling loop: the hardware moves between two polls.\<close>

definition wait_while :: "('k ahci \<Rightarrow> bool) \<Rightarrow> 'k hba \<Rightarrow> 'k ahci \<Rightarrow> 'k ahci result" where
  "wait_while busy hba w = (case while_option busy hba w of None \<Rightarrow> Inl Diverges | Some w' \<Rightarrow> Inr w')"

section \<open>Bringing the controller up\<close>

definition InitPresent :: "pci_config \<Rightarrow> 'k ahci \<Rightarrow> 'k ahci result" where
  "InitPresent cfg w =
     (let classCode = drop_bit 8 (cfg (FormConfigAddress True 0 31 2 0x08));
          baseClass = (ucast (drop_bit 16 classCode AND 0xFF) :: u8);
          subClass = (ucast (drop_bit 8 classCode AND 0xFF) :: u8);
          programmingInterface = (ucast (classCode AND 0xFF) :: u8)
      in rbind (rassert (baseClass = 0x1)) (\<lambda>_.
         rbind (rassert (subClass = 0x06)) (\<lambda>_.
         rbind (rassert (programmingInterface = 0x01)) (\<lambda>_.
           if baseClass = 0x1 \<and> subClass = 0x06 \<and> programmingInterface = 0x01
           then Inr (w\<lparr>a_present := True\<rparr>) else Inr (w\<lparr>a_present := False\<rparr>)))))"

definition InitAbar :: "pci_config \<Rightarrow> 'k ahci \<Rightarrow> 'k ahci result" where
  "InitAbar cfg w =
     rbind (rassert (a_present w)) (\<lambda>_.
       let abar = cfg (FormConfigAddress True 0 31 2 0x24) in Inr (w\<lparr>a_abar := ucast abar\<rparr>))"

definition InitMMIOBase :: "pci_config \<Rightarrow> 'k ahci \<Rightarrow> 'k ahci result" where
  "InitMMIOBase cfg w =
     rbind (rassert (a_present w)) (\<lambda>_.
       let abar = cfg (FormConfigAddress True 0 31 2 0x24);
           base = push_bit 8 (drop_bit 8 abar)
       in Inr (w\<lparr>a_mmioBase := ucast base, a_hostregs := ucast base\<rparr>))"

definition Ahci_Enable :: "'k hba \<Rightarrow> 'k ahci \<Rightarrow> 'k ahci result" where
  "Ahci_Enable hba w =
     rbind (rassert (a_present w)) (\<lambda>_.
     rbind (Ghc w) (\<lambda>ghc.
     rbind (if ghc AND 0x80000000 \<noteq> 0 then Inr w
            else rbind (SetGhc (ghc OR 0x80000000) w)
                   (wait_while (\<lambda>w. case Ghc w of Inl _ \<Rightarrow> False | Inr g \<Rightarrow> \<not> (g AND 0x80000000 \<noteq> 0)) hba))
       (\<lambda>w. Inr (w\<lparr>a_enabled := True\<rparr>))))"

definition ResetController :: "'k hba \<Rightarrow> 'k ahci \<Rightarrow> 'k ahci result" where
  "ResetController hba w =
     rbind (rassert (a_present w)) (\<lambda>_.
     rbind (Ghc w) (\<lambda>ghc.
     rbind (SetGhc (ghc OR 1) w)
       (wait_while (\<lambda>w. case Ghc w of Inl _ \<Rightarrow> False | Inr g \<Rightarrow> g AND 1 \<noteq> 0) hba)))"

text \<open>\<open>cap & NCS >> 8\<close>: the shift binds tighter, so the mask is \<open>0x1F\<close>.\<close>

definition HBACommandSlots :: "'k ahci \<Rightarrow> u32 result" where
  "HBACommandSlots w = rbind (Capabilites w) (\<lambda>cap. Inr (cap AND drop_bit 8 0x1F00))"

definition InitPort :: "nat \<Rightarrow> 'k ahci \<Rightarrow> 'k ahci result" where
  "InitPort i w =
     rbind (Port i w) (\<lambda>p.
       let portmmiobase = (ucast (a_mmioBase w + 0x100 + 0x80 * of_nat i) :: u32)
       in Inr (put_port i (Port_SetPresent (SetMMIOBase (ucast portmmiobase) p)) w))"

definition InitPorts :: "'k ahci \<Rightarrow> 'k ahci result" where
  "InitPorts w =
     rbind (PortsImplemented w) (\<lambda>piVal.
       for_each (\<lambda>i w. if piVal AND push_bit i 1 \<noteq> 0 then InitPort i w else Inr w) [0..<32] w)"

definition SetPortDevices :: "'k ahci \<Rightarrow> 'k ahci result" where
  "SetPortDevices w =
     rbind (rassert (a_enabled w)) (\<lambda>_.
       for_each (if_present (\<lambda>i w.
         rbind (Port i w) (\<lambda>p. rbind (HasDevice p (a_port_mem w)) (\<lambda>b.
           if b then Inr (put_port i (SetDevicePresent p) w) else Inr w)))) [0..<MAX_PORTS] w)"

definition InitPortMemory :: "'k mm \<Rightarrow> nat \<Rightarrow> 'k ahci \<Rightarrow> 'k ahci result" where
  "InitPortMemory mm i w =
     (let (portCommandBase, k) = mm_palloc mm (a_heap w); w = w\<lparr>a_heap := k\<rparr>
      in rbind (rassert (portCommandBase mod 0x400 = 0)) (\<lambda>_.
         rbind (on_port_regs i (SetCLB portCommandBase) w) (\<lambda>w.
           let (portFisBase, k) = mm_palloc mm (a_heap w); w = w\<lparr>a_heap := k\<rparr>
           in rbind (rassert (portFisBase mod 0x100 = 0)) (\<lambda>_.
              on_port_regs i (SetCLB portFisBase) w))))"

definition InitMemory :: "'k mm \<Rightarrow> 'k ahci \<Rightarrow> 'k ahci result" where
  "InitMemory mm w =
     rbind (rassert (a_enabled w)) (\<lambda>_. for_each (if_present (InitPortMemory mm)) [0..<4] w)"

definition EnablePortsFRE :: "'k ahci \<Rightarrow> 'k ahci result" where
  "EnablePortsFRE w = for_each (if_present (\<lambda>i. on_port i EnableFRE)) [0..<MAX_PORTS] w"

definition DisablePortsFRE :: "'k ahci \<Rightarrow> 'k ahci result" where
  "DisablePortsFRE w = for_each (if_present (\<lambda>i. on_port i DisableFRE)) [0..<MAX_PORTS] w"

definition ClearPortsSERR :: "'k ahci \<Rightarrow> 'k ahci result" where
  "ClearPortsSERR w =
     rbind (rassert (a_enabled w)) (\<lambda>_. for_each (if_present (\<lambda>i. on_port_regs i ClearSERR)) [0..<MAX_PORTS] w)"

text \<open>The answer is False at the first present port that is not idle.\<close>

primrec idle_loop :: "nat list \<Rightarrow> 'k ahci \<Rightarrow> bool result" where
  "idle_loop [] w = Inr True"
| "idle_loop (i # is) w =
     rbind (Port i w) (\<lambda>p.
       if ap_present p
       then rbind (Port_Idle p (a_port_mem w)) (\<lambda>b. if \<not> b then Inr False else idle_loop is w)
       else idle_loop is w)"

definition HbaIdle :: "'k ahci \<Rightarrow> bool result" where
  "HbaIdle w = idle_loop [0..<32] w"

definition ForceHbaIdle :: "'k ahci \<Rightarrow> 'k ahci result" where
  "ForceHbaIdle w =
     rbind (rassert (a_enabled w)) (\<lambda>_.
       for_each (if_present (\<lambda>i w.
         rbind (Port i w) (\<lambda>p. rbind (Port_Idle p (a_port_mem w)) (\<lambda>b.
           if b then Inr w else on_port_regs i ForceIdle w)))) [0..<MAX_PORTS] w)"

definition StartDMAEngines :: "'k ahci \<Rightarrow> 'k ahci result" where
  "StartDMAEngines w =
     rbind (rassert (a_enabled w)) (\<lambda>_.
       for_each (\<lambda>i w. rbind (Port i w) (\<lambda>p.
         if ap_present p \<and> ap_devicePresent p then on_port i EnableDMAEngine w else Inr w)) [0..<32] w)"

section \<open>Interrupts\<close>

definition ClearIs :: "'k ahci \<Rightarrow> 'k ahci result" where
  "ClearIs = host_update (\<lambda>r. r\<lparr>hr_is := 1\<rparr>)"

definition ClearIs_at :: "u32 \<Rightarrow> 'k ahci \<Rightarrow> 'k ahci result" where
  "ClearIs_at index = host_update (\<lambda>r. r\<lparr>hr_is := hr_is r OR push_bit (unat index) 1\<rparr>)"

definition ClearHBAInterruptStatus :: "'k ahci \<Rightarrow> 'k ahci result" where
  "ClearHBAInterruptStatus w = rbind (rassert (a_enabled w)) (\<lambda>_. ClearIs w)"

definition EnableHBAInterrupts :: "'k ahci \<Rightarrow> 'k ahci result" where
  "EnableHBAInterrupts w = rbind (rassert (a_enabled w)) (\<lambda>_. rbind (Ghc w) (\<lambda>g. SetGhc (g OR 2) w))"

definition DisableHBAInterrupts :: "'k ahci \<Rightarrow> 'k ahci result" where
  "DisableHBAInterrupts w = rbind (rassert (a_enabled w)) (\<lambda>_. rbind (Ghc w) (\<lambda>g. SetGhc (g AND NOT 2) w))"

definition ClearPortsInterruptStatus :: "'k ahci \<Rightarrow> 'k ahci result" where
  "ClearPortsInterruptStatus w =
     rbind (rassert (a_enabled w)) (\<lambda>_.
       for_each (if_present (\<lambda>i. on_port_regs i Port_ClearInterruptStatus)) [0..<MAX_PORTS] w)"

definition EnablePortsInterrupts :: "'k ahci \<Rightarrow> 'k ahci result" where
  "EnablePortsInterrupts w =
     rbind (rassert (a_enabled w)) (\<lambda>_.
       for_each (if_present (\<lambda>i. on_port_regs i Port_EnableInterrupts)) [0..<MAX_PORTS] w)"

definition DisablePortsInterrupts :: "'k ahci \<Rightarrow> 'k ahci result" where
  "DisablePortsInterrupts w =
     rbind (rassert (a_enabled w)) (\<lambda>_.
       for_each (if_present (\<lambda>i. on_port_regs i Port_DisableInterrupts)) [0..<MAX_PORTS] w)"

definition Ahci_EnableInterrupts :: "'k ahci \<Rightarrow> 'k ahci result" where
  "Ahci_EnableInterrupts w =
     rbind (ClearPortsInterruptStatus w) (\<lambda>w. rbind (ClearHBAInterruptStatus w) (\<lambda>w.
     rbind (EnablePortsInterrupts w) EnableHBAInterrupts))"

definition WaitForPortInterrupt :: "'k hba \<Rightarrow> u8 \<Rightarrow> 'k ahci \<Rightarrow> 'k ahci result" where
  "WaitForPortInterrupt hba port w =
     rbind (host_regs w) (\<lambda>_.
     rbind (wait_while (\<lambda>w. \<not> (hr_is (a_host_mem w (a_hostregs w)) AND push_bit (unat port) 1 \<noteq> 0)) hba w) (\<lambda>w.
     rbind (ClearIs_at (ucast port) w) (on_port_regs (unat port) Port_ClearInterruptStatus)))"

section \<open>Commands\<close>

definition slot_busy :: "nat \<Rightarrow> u8 \<Rightarrow> 'k ahci \<Rightarrow> bool" where
  "slot_busy port slot w =
     (case rbind (Port port w) (\<lambda>p. CommandSlotSet slot p (a_port_mem w)) of Inl _ \<Rightarrow> False | Inr b \<Rightarrow> b)"

text \<open>
  Placing a command: the header goes to the free slot of the port's command list, then the slot is issued.  With no
  free slot the index is -1, before the start of the list.
\<close>

definition place_command :: "nat \<Rightarrow> CommandHeader \<Rightarrow> 'k ahci \<Rightarrow> ('k ahci \<times> u8) result" where
  "place_command port cmdheader w =
     rbind (Port port w) (\<lambda>p.
     rbind (EmptyCommandSlot p (a_port_mem w)) (\<lambda>freeSlot.
     rbind (CommandListBaseAddr p (a_port_mem w)) (\<lambda>cmdlist.
       if freeSlot < 0 then Inl OutOfBounds
       else rbind (guard_ptr cmdlist) (\<lambda>_.
         let w = w\<lparr>a_header_mem := (a_header_mem w)(cmdlist + 32 * of_int freeSlot := cmdheader)\<rparr>
         in rbind (on_port_regs port (IssueCommand (of_int freeSlot)) w) (\<lambda>w. Inr (w, of_int freeSlot))))))"

definition Perform :: "'k hba \<Rightarrow> u8 \<Rightarrow> CommandHeader \<Rightarrow> 'k ahci \<Rightarrow> 'k ahci result" where
  "Perform hba port cmdheader w =
     rbind (place_command (unat port) cmdheader w) (\<lambda>(w, slot). wait_while (slot_busy (unat port) slot) hba w)"

text \<open>Filling a command table: the frame, and one region of 511 + 1 bytes.\<close>

definition fill_table :: "H2dRegisterFis \<Rightarrow> addr \<Rightarrow> addr \<Rightarrow> 'k ahci \<Rightarrow> 'k ahci result" where
  "fill_table fis buffer cmdtable w =
     rbind (guard_ptr cmdtable) (\<lambda>_.
       let t = SetCommandFis fis (a_table_mem w cmdtable)
       in rbind (new_PrdtEntry new_PrdtEntry_zero buffer True 511) (\<lambda>prdt.
          rbind (SetPrdtEntry 0 prdt t) (\<lambda>t. Inr (w\<lparr>a_table_mem := (a_table_mem w)(cmdtable := t)\<rparr>))))"

definition New_CommandTable :: "'k mm \<Rightarrow> 'k ahci \<Rightarrow> ('k ahci \<times> addr) result" where
  "New_CommandTable mm w =
     (let (cmdtable, k) = mm_new mm (a_heap w)
      in rbind (guard_ptr cmdtable) (\<lambda>_.
         Inr (w\<lparr>a_heap := k, a_table_mem := (a_table_mem w)(cmdtable := new_CommandTable)\<rparr>, cmdtable)))"

definition IdentifyDevice :: "'k mm \<Rightarrow> 'k hba \<Rightarrow> u8 \<Rightarrow> addr \<Rightarrow> 'k ahci \<Rightarrow> 'k ahci result" where
  "IdentifyDevice mm hba port buffer w =
     rbind CreateIdentifyDevice (\<lambda>identFis.
       let (cmdtable, k) = mm_palloc mm (a_heap w)
       in rbind (fill_table identFis buffer cmdtable (w\<lparr>a_heap := k\<rparr>)) (\<lambda>w.
          rbind (new_CommandHeader cmdtable 1 0x04 0x85) (\<lambda>cmdheader.
          rbind (Perform hba port cmdheader w) (\<lambda>w.
            Inr (w\<lparr>a_heap := mm_pfree mm cmdtable (a_heap w)\<rparr>)))))"

definition WriteSector_table :: "'k hba \<Rightarrow> u8 \<Rightarrow> u64 \<Rightarrow> addr \<Rightarrow> addr \<Rightarrow> 'k ahci \<Rightarrow> 'k ahci result" where
  "WriteSector_table hba port sector ibuffer cmdtable w =
     rbind (CreateWrite sector) (\<lambda>writeFis.
     rbind (fill_table writeFis ibuffer cmdtable w) (\<lambda>w.
     rbind (new_CommandHeader cmdtable 1 0x04 0x45) (\<lambda>cmdheader. Perform hba port cmdheader w)))"

definition ReadSector_table :: "'k hba \<Rightarrow> u8 \<Rightarrow> u64 \<Rightarrow> addr \<Rightarrow> addr \<Rightarrow> 'k ahci \<Rightarrow> 'k ahci result" where
  "ReadSector_table hba port sector ibuffer cmdtable w =
     rbind (CreateRead sector) (\<lambda>readFis.
     rbind (fill_table readFis ibuffer cmdtable w) (\<lambda>w.
     rbind (new_CommandHeader cmdtable 1 0x04 0x45) (\<lambda>cmdheader. Perform hba port cmdheader w)))"

definition WriteSector :: "'k mm \<Rightarrow> 'k hba \<Rightarrow> u8 \<Rightarrow> u64 \<Rightarrow> addr \<Rightarrow> 'k ahci \<Rightarrow> 'k ahci result" where
  "WriteSector mm hba port sector ibuffer w =
     rbind (New_CommandTable mm w) (\<lambda>(w, cmdtable).
     rbind (WriteSector_table hba port sector ibuffer cmdtable w) (\<lambda>w.
       Inr (w\<lparr>a_heap := mm_delete mm cmdtable (a_heap w)\<rparr>)))"

definition ReadSector :: "'k mm \<Rightarrow> 'k hba \<Rightarrow> u8 \<Rightarrow> u64 \<Rightarrow> addr \<Rightarrow> 'k ahci \<Rightarrow> 'k ahci result" where
  "ReadSector mm hba port sector ibuffer w =
     rbind (New_CommandTable mm w) (\<lambda>(w, cmdtable).
     rbind (ReadSector_table hba port sector ibuffer cmdtable w) (\<lambda>w.
       Inr (w\<lparr>a_heap := mm_delete mm cmdtable (a_heap w)\<rparr>)))"

definition WriteSectorPolled :: "'k mm \<Rightarrow> 'k hba \<Rightarrow> u8 \<Rightarrow> u64 \<Rightarrow> addr \<Rightarrow> 'k ahci \<Rightarrow> 'k ahci result" where
  "WriteSectorPolled mm hba port sector buffer w =
     rbind (WriteSector mm hba port sector buffer w) (WaitForPortInterrupt hba port)"

definition WriteSectorPolled_table :: "'k hba \<Rightarrow> u8 \<Rightarrow> u64 \<Rightarrow> addr \<Rightarrow> addr \<Rightarrow> 'k ahci \<Rightarrow> 'k ahci result" where
  "WriteSectorPolled_table hba port sector buffer cmdtable w =
     rbind (WriteSector_table hba port sector buffer cmdtable w) (WaitForPortInterrupt hba port)"

definition ReadSectorPolled :: "'k mm \<Rightarrow> 'k hba \<Rightarrow> u8 \<Rightarrow> u64 \<Rightarrow> addr \<Rightarrow> 'k ahci \<Rightarrow> 'k ahci result" where
  "ReadSectorPolled mm hba port sector buffer w =
     rbind (ReadSector mm hba port sector buffer w) (WaitForPortInterrupt hba port)"

definition ReadSectorPolled_table :: "'k hba \<Rightarrow> u8 \<Rightarrow> u64 \<Rightarrow> addr \<Rightarrow> addr \<Rightarrow> 'k ahci \<Rightarrow> 'k ahci result" where
  "ReadSectorPolled_table hba port sector buffer cmdtable w =
     rbind (ReadSector_table hba port sector buffer cmdtable w) (WaitForPortInterrupt hba port)"

section \<open>Disks\<close>

text \<open>A disk is constructed without its size.\<close>

definition new_AhciDisk :: "AhciDisk \<Rightarrow> u8 \<Rightarrow> AhciDisk" where
  "new_AhciDisk uninit port = uninit\<lparr>dk_port := port\<rparr>"

definition SetTotalSectors :: "u32 \<Rightarrow> AhciDisk \<Rightarrow> AhciDisk" where
  "SetTotalSectors sectors d = d\<lparr>dk_totalSectors := sectors\<rparr>"

definition TotalBytes :: "AhciDisk \<Rightarrow> u32" where
  "TotalBytes d = ucast ((ucast (dk_totalSectors d) :: u64) * SECTOR_BYTES)"

definition Disk_ReadPolled :: "'k mm \<Rightarrow> 'k hba \<Rightarrow> AhciDisk \<Rightarrow> u16 \<Rightarrow> addr \<Rightarrow> 'k ahci \<Rightarrow> 'k ahci result" where
  "Disk_ReadPolled mm hba d sector buffer w =
     rbind (ReadSector mm hba (dk_port d) (ucast sector) buffer w) (WaitForPortInterrupt hba (dk_port d))"

definition Disk_WritePolled :: "'k mm \<Rightarrow> 'k hba \<Rightarrow> AhciDisk \<Rightarrow> u16 \<Rightarrow> addr \<Rightarrow> 'k ahci \<Rightarrow> 'k ahci result" where
  "Disk_WritePolled mm hba d sector buffer w =
     rbind (WriteSector mm hba (dk_port d) (ucast sector) buffer w) (WaitForPortInterrupt hba (dk_port d))"

definition SetupDisk :: "'k mm \<Rightarrow> 'k hba \<Rightarrow> u8 \<Rightarrow> 'k ahci \<Rightarrow> 'k ahci result" where
  "SetupDisk mm hba port w =
     (let disk = (\<lambda>f w. w\<lparr>a_disks := (a_disks w)[unat port := f (a_disks w ! unat port)]\<rparr>);
          w = disk (\<lambda>d. new_AhciDisk d port) w;
          (identbuffer, k) = mm_palloc mm (a_heap w)
      in rbind (IdentifyDevice mm hba port identbuffer (w\<lparr>a_heap := k\<rparr>)) (\<lambda>w.
         rbind (guard_ptr identbuffer) (\<lambda>_.
           Inr (disk (SetTotalSectors (NumSectors (a_ident_mem w identbuffer))) w))))"

definition InitDisks :: "'k mm \<Rightarrow> 'k hba \<Rightarrow> 'k ahci \<Rightarrow> 'k ahci result" where
  "InitDisks mm hba w =
     for_each (\<lambda>i w. rbind (Port i w) (\<lambda>p. if ap_devicePresent p then SetupDisk mm hba (of_nat i) w else Inr w))
       [0..<MAX_PORTS] w"

definition Ahci_Initialise :: "pci_config \<Rightarrow> 'k mm \<Rightarrow> 'k hba \<Rightarrow> 'k ahci \<Rightarrow> 'k ahci result" where
  "Ahci_Initialise cfg mm hba w =
     rbind (InitPresent cfg w) (\<lambda>w. rbind (InitAbar cfg w) (\<lambda>w. rbind (InitMMIOBase cfg w) (\<lambda>w.
     rbind (Ahci_Enable hba w) (\<lambda>w. rbind (ResetController hba w) (\<lambda>w.
     rbind (HBACommandSlots w) (\<lambda>_.
     rbind (rbind (HbaIdle w) (\<lambda>idle. if \<not> idle then ForceHbaIdle w else Inr w)) (\<lambda>w.
     rbind (InitPorts w) (\<lambda>w. rbind (InitMemory mm w) (\<lambda>w. rbind (EnablePortsFRE w) (\<lambda>w.
     rbind (ClearPortsSERR w) (\<lambda>w. rbind (SetPortDevices w) (\<lambda>w. rbind (Ahci_EnableInterrupts w) (\<lambda>w.
     rbind (StartDMAEngines w) (InitDisks mm hba))))))))))))))"

section \<open>Reports\<close>

definition EnumerateImplementedPorts :: "'k ahci \<Rightarrow> kitem list result" where
  "EnumerateImplementedPorts w =
     rbind (PortsImplemented w) (\<lambda>piVal. Inr
       ([KStr ''Enumerating Implemented Ports...'', newline, KStr ''HBA.PI = '', KUnsigned (ucast piVal), newline] @
        concat (map (\<lambda>i. if piVal AND push_bit i 1 \<noteq> 0
                  then [KStr ''port '', KUnsigned (of_nat i), KStr ('' is implemented'' @ [CHR 0x0A])] else [])
          [0..<32])))"

definition PrintPortDevicePresent :: "'k ahci \<Rightarrow> kitem list result" where
  "PrintPortDevicePresent w =
     rbind (rassert (a_enabled w)) (\<lambda>_. Inr (concat (map (\<lambda>i.
       let p = a_ports w ! i
       in if ap_present p \<and> ap_devicePresent p
          then [KStr ''Port '', KUnsigned (of_nat i), KStr '' has device present'', newline] else [])
       [0..<min MAX_PORTS (length (a_ports w))])))"

definition PrintCapabilities :: "'k ahci \<Rightarrow> kitem list result" where
  "PrintCapabilities w =
     rbind (rassert (a_enabled w)) (\<lambda>_. rbind (Capabilites w) (\<lambda>cap. Inr
       ([KStr ''Cap: '', KUnsigned (ucast cap), newline, KStr ''Enumerating Capabilities'', newline] @
        (if cap AND 0x80000000 \<noteq> 0 then [KStr ''Supports 64-bit Addressing'', newline] else []) @
        (if cap AND 0x40000000 \<noteq> 0 then [KStr ''Supports Native Command Queueing'', newline] else []) @
        (if cap AND 0x20000000 \<noteq> 0 then [KStr ''Supports SNotification Register'', newline] else []) @
        (if cap AND 0x00010000 \<noteq> 0 then [KStr ''Supports AHCI Mode Only'', newline] else []) @
        [KStr ''Number of ports: '', KUnsigned (ucast (cap AND 0x1F)), newline,
         KStr ''Number of Command Slots: '', KUnsigned (ucast (drop_bit 8 (cap AND 0x1F00))), newline])))"

end
