(* ===== verification/Ahci_Commands.thy ===== *)
theory Ahci_Commands
  imports Ahci_Driver
begin

text \<open>
  What the driver of \<open>Ahci_Driver\<close> guarantees: sector commands are placed as the controller expects them and return
  once the hardware has finished, and what the set-up of the port memory leaves in the registers.
\<close>

section \<open>Waiting\<close>

lemma wait_while_ends:
  assumes "\<exists>n. \<not> busy ((hba ^^ n) w)"
  shows "\<exists>k. wait_while busy hba w = Inr ((hba ^^ k) w) \<and> \<not> busy ((hba ^^ k) w) \<and> (\<forall>j<k. busy ((hba ^^ j) w))"
proof -
  let ?k = "LEAST k. \<not> busy ((hba ^^ k) w)"
  have "wait_while busy hba w = Inr ((hba ^^ ?k) w)" using assms by (simp add: wait_while_def while_option_def)
  moreover have "\<not> busy ((hba ^^ ?k) w)" using assms by (rule LeastI_ex)
  moreover have "\<forall>j<?k. busy ((hba ^^ j) w)" using not_less_Least by blast
  ultimately show ?thesis by blast
qed

section \<open>Placing a command\<close>

lemma ucast_u32_eq_0: "(ucast x :: u64) = 0 \<longleftrightarrow> x = 0" for x :: u32
proof -
  have "n < 32 \<and> n < 64" if "bit x n" for n using bit_imp_le_length [OF that] by simp
  then show ?thesis unfolding bit_eq_iff bit_simps by auto
qed

definition regs_of :: "nat \<Rightarrow> 'k ahci \<Rightarrow> PortRegisters" where
  "regs_of i w = a_port_mem w (ap_registers (a_ports w ! i))"

text \<open>A port that can take a command: mapped, with a command list and a free slot.\<close>

definition port_ready :: "nat \<Rightarrow> 'k ahci \<Rightarrow> bool" where
  "port_ready i w \<longleftrightarrow> i < length (a_ports w) \<and> ap_registers (a_ports w ! i) \<noteq> 0 \<and> pr_clistb (regs_of i w) \<noteq> 0 \<and>
     (\<exists>s<32. slot_free (regs_of i w) s)"

definition slot_header :: "nat \<Rightarrow> nat \<Rightarrow> 'k ahci \<Rightarrow> CommandHeader" where
  "slot_header i s w = a_header_mem w (ucast (pr_clistb (regs_of i w)) + 32 * of_nat s)"

definition command_placed :: "nat \<Rightarrow> nat \<Rightarrow> u8 \<Rightarrow> u64 \<Rightarrow> addr \<Rightarrow> addr \<Rightarrow> 'k ahci \<Rightarrow> 'k ahci \<Rightarrow> bool" where
  "command_placed i s code sector buffer table w w1 \<longleftrightarrow>
     s < 32 \<and> slot_free (regs_of i w) s \<and> pr_ci (regs_of i w1) = pr_ci (regs_of i w) OR push_bit s 1 \<and>
     CommandTableBase (slot_header i s w1) = table \<and> Cfl (slot_header i s w1) = 5 \<and>
     ch_prdtl (slot_header i s w1) = 1 \<and> bit (ch_p_w_a_cfl (slot_header i s w1)) 6 \<and>
     command_frame (ct_cfis (a_table_mem w1 table)) code (sector AND mask 48) 1 \<and>
     DataBaseAddress (ct_prdt (a_table_mem w1 table) ! 0) = buffer \<and>
     DataByteCount (ct_prdt (a_table_mem w1 table) ! 0) + 1 = 512"

definition table_ok :: "CommandTable \<Rightarrow> bool" where
  "table_ok t \<longleftrightarrow> length (ct_cfis t) = 64 \<and> length (ct_prdt t) = unat PRDT_SLOTS"

lemma slot_loop_free:
  assumes "\<exists>s<32. slot_free r s"
  obtains s where "s < 32" "slot_loop r 0 = int s" "slot_free r s"
  using slot_loop_spec [of 0 r] assms by auto

lemma place_command_ready:
  assumes "port_ready i w"
  obtains s where "s < 32" "slot_free (regs_of i w) s"
    "place_command i h w = Inr
       (w\<lparr>a_header_mem := (a_header_mem w)(ucast (pr_clistb (regs_of i w)) + 32 * of_nat s := h),
          a_port_mem := (a_port_mem w)(ap_registers (a_ports w ! i) :=
            (regs_of i w)\<lparr>pr_ci := pr_ci (regs_of i w) OR push_bit s 1\<rparr>)\<rparr>, of_nat s)"
proof -
  from assms have p: "i < length (a_ports w)" "ap_registers (a_ports w ! i) \<noteq> 0" "pr_clistb (regs_of i w) \<noteq> 0"
    and free: "\<exists>s<32. slot_free (regs_of i w) s" by (auto simp: port_ready_def)
  from free obtain s where s: "s < 32" "slot_loop (regs_of i w) 0 = int s" "slot_free (regs_of i w) s"
    by (rule slot_loop_free)
  have nz: "(ucast (pr_clistb (regs_of i w)) :: u64) \<noteq> 0" using p(3) by (simp add: ucast_u32_eq_0)
  have us: "unat (of_nat s :: u8) = s" using s(1) by (simp add: unat_of_nat)
  then have slot: "(of_nat s :: u8) < 32" using s(1) by (simp add: word_less_nat_alt)
  show ?thesis
    by (rule that [OF s(1,3)])
       (use p s nz us slot in \<open>simp add: place_command_def Port_def EmptyCommandSlot_def CommandListBaseAddr_def
          on_port_regs_def IssueCommand_def regs_of_def [symmetric] Let_def\<close>)
qed

section \<open>Sector commands\<close>

text \<open>The hardware finishes every command: a busy slot is freed after finitely many of its steps.\<close>

definition finishes :: "'k hba \<Rightarrow> nat \<Rightarrow> bool" where
  "finishes hba i \<longleftrightarrow> (\<forall>w slot. slot_busy i slot w \<longrightarrow> (\<exists>n. \<not> slot_busy i slot ((hba ^^ n) w)))"

lemma finishes_ends: "finishes hba i \<Longrightarrow> \<exists>n. \<not> slot_busy i slot ((hba ^^ n) w)"
  by (cases "slot_busy i slot w") (auto simp: finishes_def intro: exI [of _ 0])

lemma prdt_512:
  assumes "even buffer"
  shows "\<exists>e. new_PrdtEntry uninit buffer True 511 = Inr e \<and> DataBaseAddress e = buffer \<and> DataByteCount e + 1 = 512"
proof -
  have a: "buffer AND 1 = 0" using assms by (simp add: bit_test bit_0)
  have "push_bit 32 (ucast (ucast (drop_bit 32 buffer) :: u32)) OR ucast (ucast (buffer AND 0xFFFFFFFF) :: u32) = buffer"
    by (rule word64_eqI) (simp add: bit_rules)
  then show ?thesis
    using a by (simp add: new_PrdtEntry_def SetDataBaseAddress_def SetWord3_value DataBaseAddress_def DataByteCount_def)
qed

lemma fill_table_frame:
  assumes "command_frame (h2d_bytes f) code lba count" "even buffer" "table \<noteq> 0" "table_ok (a_table_mem w table)"
  shows "\<exists>t. fill_table f buffer table w = Inr (w\<lparr>a_table_mem := (a_table_mem w)(table := t)\<rparr>) \<and>
     command_frame (ct_cfis t) code lba count \<and> DataBaseAddress (ct_prdt t ! 0) = buffer \<and>
     DataByteCount (ct_prdt t ! 0) + 1 = 512 \<and> table_ok t"
proof -
  obtain e where e: "new_PrdtEntry new_PrdtEntry_zero buffer True 511 = Inr e" "DataBaseAddress e = buffer"
      "DataByteCount e + 1 = 512" using prdt_512 [OF assms(2)] by blast
  have cf: "command_frame (ct_cfis (SetCommandFis f (a_table_mem w table))) code lba count"
    by (rule SetCommandFis_frame) (use assms in \<open>simp_all add: table_ok_def\<close>)
  have len: "0 < length (ct_prdt (a_table_mem w table))"
    using assms(4) by (simp add: table_ok_def PRDT_SLOTS_def)
  let ?t = "SetCommandFis f (a_table_mem w table)"
  have "length (ct_cfis ?t) = 64"
    using assms(4) by (simp add: table_ok_def SetCommandFis_def h2d_bytes_def)
  then show ?thesis
    using e cf assms(3,4) len
    by (intro exI [of _ "?t\<lparr>ct_prdt := (ct_prdt ?t)[0 := e]\<rparr>"])
       (simp add: fill_table_def SetPrdtEntry_def PRDT_SLOTS_def SetCommandFis_def Let_def table_ok_def)
qed

lemma header_of_table:
  "\<exists>h. new_CommandHeader table 1 0x04 0x45 = Inr h \<and> CommandTableBase h = table \<and> Cfl h = 5 \<and> ch_prdtl h = 1 \<and>
     bit (ch_p_w_a_cfl h) 6"
proof -
  have "push_bit 32 (ucast (ucast (drop_bit 32 table) :: u32)) OR ucast (ucast (table AND 0xFFFFFFFF) :: u32) = table"
    by (rule word64_eqI) (simp add: bit_rules)
  then show ?thesis
    by (simp add: new_CommandHeader_def SetCommandTableBase_def CommandTableBase_def Cfl_def MASK_CFL_def)
qed

lemma sector_command:
  assumes "port_ready (unat port) w" "table \<noteq> 0" "table_ok (a_table_mem w table)" "even buffer"
    "finishes hba (unat port)" "sector_fis code sector = Inr f"
  shows "\<exists>w1 s k. rbind (fill_table f buffer table w) (\<lambda>w. rbind (new_CommandHeader table 1 0x04 0x45)
         (\<lambda>h. Perform hba port h w)) = Inr ((hba ^^ k) w1) \<and>
     command_placed (unat port) s code sector buffer table w w1 \<and>
     \<not> slot_busy (unat port) (of_nat s) ((hba ^^ k) w1) \<and> (\<forall>j<k. slot_busy (unat port) (of_nat s) ((hba ^^ j) w1))"
proof -
  let ?i = "unat port"
  have "command_frame (h2d_bytes f) code (sector AND mask 48) 1" using sector_fis_frame [of code sector] assms(6) by auto
  then obtain t where t: "fill_table f buffer table w = Inr (w\<lparr>a_table_mem := (a_table_mem w)(table := t)\<rparr>)"
      "command_frame (ct_cfis t) code (sector AND mask 48) 1" "DataBaseAddress (ct_prdt t ! 0) = buffer"
      "DataByteCount (ct_prdt t ! 0) + 1 = 512"
    using fill_table_frame assms(2-4) by blast
  let ?w = "w\<lparr>a_table_mem := (a_table_mem w)(table := t)\<rparr>"
  obtain h where h: "new_CommandHeader table 1 0x04 0x45 = Inr h" "CommandTableBase h = table" "Cfl h = 5"
      "ch_prdtl h = 1" "bit (ch_p_w_a_cfl h) 6" using header_of_table by blast
  have same: "regs_of ?i ?w = regs_of ?i w" by (simp add: regs_of_def)
  then have "port_ready ?i ?w" using assms(1) by (simp add: port_ready_def)
  then obtain s where s: "s < 32" "slot_free (regs_of ?i ?w) s" "place_command ?i h ?w = Inr
       (?w\<lparr>a_header_mem := (a_header_mem ?w)(ucast (pr_clistb (regs_of ?i ?w)) + 32 * of_nat s := h),
          a_port_mem := (a_port_mem ?w)(ap_registers (a_ports ?w ! ?i) :=
            (regs_of ?i ?w)\<lparr>pr_ci := pr_ci (regs_of ?i ?w) OR push_bit s 1\<rparr>)\<rparr>, of_nat s)"
    (is "_ = Inr (?w1, _)") by (rule place_command_ready)
  have "command_placed ?i s code sector buffer table w ?w1"
    using s(1,2) t h by (simp add: command_placed_def slot_header_def regs_of_def)
  moreover obtain k where "wait_while (slot_busy ?i (of_nat s)) hba ?w1 = Inr ((hba ^^ k) ?w1)"
      "\<not> slot_busy ?i (of_nat s) ((hba ^^ k) ?w1)" "\<forall>j<k. slot_busy ?i (of_nat s) ((hba ^^ j) ?w1)"
    using wait_while_ends [OF finishes_ends [OF assms(5)]] by blast
  ultimately show ?thesis
    by (intro exI [of _ ?w1] exI [of _ s] exI [of _ k]) (simp add: t(1) h(1) Perform_def s(3))
qed

section \<open>The memory of the ports\<close>

lemma for_each_preserves:
  assumes "for_each f is s = Inr s'" "P s" "\<And>i s s'. f i s = Inr s' \<Longrightarrow> P s \<Longrightarrow> P s'"
  shows "P s'"
  using assms by (induction "is" arbitrary: s) (auto simp: rbind_eq_Inr)

lemma for_each_establishes:
  assumes "for_each f is s = Inr s'" "I s"
    "\<And>i s s'. f i s = Inr s' \<Longrightarrow> I s \<Longrightarrow> I s' \<and> Q i s'"
    "\<And>i j s s'. f i s = Inr s' \<Longrightarrow> I s \<Longrightarrow> Q j s \<Longrightarrow> Q j s'"
  shows "\<forall>i\<in>set is. Q i s'"
  using assms(1,2)
proof (induction "is" arbitrary: s)
  case (Cons i "is")
  then obtain t where t: "f i s = Inr t" "for_each f is t = Inr s'" by (auto simp: rbind_eq_Inr)
  with assms(3) Cons.prems(2) have "I t \<and> Q i t" by blast
  then have "I s' \<and> Q i s'"
    using t(2) by (rule_tac for_each_preserves [where P = "\<lambda>s. I s \<and> Q i s"]) (use assms(3,4) in blast)+
  with Cons.IH [OF t(2)] \<open>I t \<and> Q i t\<close> show ?case by simp
qed simp

text \<open>The command list base of a port is the second of two pages the allocator returned in a row.\<close>

definition clb_second_page :: "'k mm \<Rightarrow> PortRegisters \<Rightarrow> bool" where
  "clb_second_page mm r \<longleftrightarrow> (\<exists>k. pr_clistb r = ucast (fst (mm_palloc mm (snd (mm_palloc mm k)))))"

lemma on_port_SetCLB:
  "on_port_regs i (SetCLB b) w = Inr w' \<Longrightarrow> i < length (a_ports w) \<and>
     w' = w\<lparr>a_port_mem := (a_port_mem w)(ap_registers (a_ports w ! i) := (regs_of i w)\<lparr>pr_clistb := ucast b\<rparr>)\<rparr>"
  by (auto simp: on_port_regs_def Port_def SetCLB_def port_update_def port_regs_def regs_of_def guard_ptr_def
      rbind_eq_Inr split: if_splits)

lemma InitPortMemory_regs:
  assumes "InitPortMemory mm i w = Inr w'"
  shows "a_ports w' = a_ports w \<and> i < length (a_ports w) \<and> (\<exists>b. a_port_mem w' =
     (a_port_mem w)(ap_registers (a_ports w ! i) := (regs_of i w)\<lparr>pr_clistb := b\<rparr>)) \<and>
     clb_second_page mm (regs_of i w')"
proof -
  let ?w = "w\<lparr>a_heap := snd (mm_palloc mm (a_heap w))\<rparr>"
  obtain v where v: "on_port_regs i (SetCLB (fst (mm_palloc mm (a_heap w)))) ?w = Inr v"
      "on_port_regs i (SetCLB (fst (mm_palloc mm (a_heap v)))) (v\<lparr>a_heap := snd (mm_palloc mm (a_heap v))\<rparr>) = Inr w'"
    using assms by (auto simp: InitPortMemory_def rbind_eq_Inr split_beta Let_def)
  let ?b = "fst (mm_palloc mm (snd (mm_palloc mm (a_heap w))))"
  have w': "a_ports w' = a_ports w \<and> i < length (a_ports w) \<and> a_port_mem w' =
      (a_port_mem w)(ap_registers (a_ports w ! i) := (regs_of i w)\<lparr>pr_clistb := ucast ?b\<rparr>)"
    using on_port_SetCLB [OF v(1)] on_port_SetCLB [OF v(2)] by (simp add: regs_of_def)
  then have "clb_second_page mm (regs_of i w')" by (auto simp: regs_of_def clb_second_page_def)
  with w' show ?thesis by blast
qed

section \<open>Properties\<close>

text \<open>
  C26. Reading and writing a sector through a port with a free slot: if the hardware finishes every command, both
  return, in the state the hardware left after its last step on the command and not before.  At the moment the slot
  was issued, a slot that had been free held a header for the given table with a frame of five words, the table's
  frame asked for one sector at the low 48 bits of the address with the code of the operation, and its region was the
  caller's buffer of 512 bytes.  Both set the header's write bit.
\<close>

theorem sector_commands_complete:
  assumes "port_ready (unat port) w" "table \<noteq> 0" "table_ok (a_table_mem w table)" "even buffer"
    "finishes hba (unat port)"
  shows "(\<exists>w1 s k. ReadSector_table hba port sector buffer table w = Inr ((hba ^^ k) w1) \<and>
       command_placed (unat port) s 0x25 sector buffer table w w1 \<and>
       \<not> slot_busy (unat port) (of_nat s) ((hba ^^ k) w1) \<and> (\<forall>j<k. slot_busy (unat port) (of_nat s) ((hba ^^ j) w1))) \<and>
     (\<exists>w1 s k. WriteSector_table hba port sector buffer table w = Inr ((hba ^^ k) w1) \<and>
       command_placed (unat port) s 0x35 sector buffer table w w1 \<and>
       \<not> slot_busy (unat port) (of_nat s) ((hba ^^ k) w1) \<and> (\<forall>j<k. slot_busy (unat port) (of_nat s) ((hba ^^ j) w1)))"
proof -
  obtain f g where f: "sector_fis 0x25 sector = Inr f" and g: "sector_fis 0x35 sector = Inr g"
    using sector_fis_frame by metis
  show ?thesis
    using sector_command [OF assms f] sector_command [OF assms g]
    by (simp add: ReadSector_table_def WriteSector_table_def CreateRead_def CreateWrite_def f g)
qed


text \<open>A controller with one port, whose hardware finishes every issued command in one step.\<close>

definition finishing_hba :: "unit hba" where
  "finishing_hba w = w\<lparr>a_port_mem := (\<lambda>a. (a_port_mem w a)\<lparr>pr_ci := 0\<rparr>)\<rparr>"

definition some_ahci :: "unit ahci" where
  "some_ahci = \<lparr>a_present = True, a_enabled = True, a_abar = 0, a_mmioBase = 0, a_hostregs = 0x1000,
     a_ports = [some_port], a_disks = [], a_host_mem = (\<lambda>_. \<lparr>hr_cap = 0, hr_ghc = 0, hr_is = 0, hr_pi = 1\<rparr>),
     a_port_mem = (\<lambda>_. zero_port_regs\<lparr>pr_clistb := 0x2000, pr_ci := 1\<rparr>),
     a_header_mem = (\<lambda>_. \<lparr>ch_p_w_a_cfl = 0, ch_pmp_c_b_r = 0, ch_prdtl = 0, ch_prdbc = 0, ch_ctba = 0,
        ch_ctbau = 0\<rparr>),
     a_table_mem = (\<lambda>_. new_CommandTable), a_ident_mem = (\<lambda>_. undefined), a_heap = ()\<rparr>"

lemma finishing_hba_finishes: "finishes finishing_hba i"
  unfolding finishes_def
  by (intro allI impI exI [of _ 1])
     (auto simp: slot_busy_def finishing_hba_def Port_def CommandSlotSet_def rassert_def port_regs_def guard_ptr_def
        split: if_splits)

theorem sector_commands_complete_witness:
  "\<exists>w. ReadSector_table finishing_hba 0 7 0x8000 0x3000 some_ahci = Inr w"
proof -
  have "port_ready (unat (0 :: u8)) some_ahci"
    by (auto simp: port_ready_def some_ahci_def some_port_def regs_of_def slot_free_bits zero_port_regs_def
        bit_numeral_rec intro!: exI [of _ 1])
  moreover have "table_ok (a_table_mem some_ahci 0x3000)"
    by (simp add: table_ok_def some_ahci_def new_CommandTable_def PRDT_SLOTS_def)
  ultimately show ?thesis
    using sector_commands_complete [where port = 0 and w = some_ahci and table = "0x3000" and
        buffer = "0x8000" and hba = finishing_hba and sector = 7] finishing_hba_finishes by auto
qed

text \<open>
  C28. Setting up the port memory never sets a FIS base: it writes the address of the page meant for the received
  frames over the command list base just written, in every present port of the first four, and changes no other
  register of any port.
\<close>

theorem InitMemory_overwrites_clb:
  assumes "InitMemory mm w = Inr w'"
  shows "(\<forall>i<4. ap_present (a_ports w ! i) \<longrightarrow>
       (\<exists>k. pr_clistb (a_port_mem w' (ap_registers (a_ports w ! i))) =
            ucast (fst (mm_palloc mm (snd (mm_palloc mm k)))))) \<and>
     (\<forall>a. \<exists>b. a_port_mem w' a = (a_port_mem w a)\<lparr>pr_clistb := b\<rparr>)"
proof -
  let ?I = "\<lambda>v. a_ports v = a_ports w \<and> (\<forall>a. \<exists>b. a_port_mem v a = (a_port_mem w a)\<lparr>pr_clistb := b\<rparr>)"
  let ?Q = "\<lambda>i v. ap_present (a_ports w ! i) \<longrightarrow> clb_second_page mm (regs_of i v)"
  let ?f = "if_present (InitPortMemory mm)"
  have run: "for_each ?f [0..<4] w = Inr w'" using assms by (simp add: InitMemory_def rbind_eq_Inr)
  have "r = r\<lparr>pr_clistb := pr_clistb r\<rparr>" for r :: PortRegisters by simp
  then have init: "?I w" by blast
  have upd: "\<exists>c. r\<lparr>pr_clistb := b\<rparr> = q\<lparr>pr_clistb := c\<rparr>" if "\<exists>b. r = q\<lparr>pr_clistb := b\<rparr>" for r q :: PortRegisters and b
  proof -
    from that obtain c where "r = q\<lparr>pr_clistb := c\<rparr>" ..
    then have "r\<lparr>pr_clistb := b\<rparr> = q\<lparr>pr_clistb := b\<rparr>" by simp
    then show ?thesis ..
  qed
  have one: "?I v' \<and> ?Q i v'" if "?f i v = Inr v'" "?I v" for i v v'
    using that InitPortMemory_regs [of mm i v v']
    by (auto simp: if_present_def rbind_eq_Inr Port_def regs_of_def upd split: if_splits)
  have keep: "?Q j v'" if "?f i v = Inr v'" "?I v" "?Q j v" for i j v v'
    using that InitPortMemory_regs [of mm i v v']
    by (auto simp: if_present_def rbind_eq_Inr Port_def regs_of_def split: if_splits)
  have "?I w'"
    using run init one by (rule_tac for_each_preserves [where P = ?I]) blast+
  moreover have "\<forall>i\<in>set [0..<4]. ?Q i w'"
    using run init one keep by (rule_tac for_each_establishes [where I = ?I and Q = ?Q]) blast+
  ultimately show ?thesis by (auto simp: clb_second_page_def regs_of_def)
qed

definition fixed_page :: "unit mm" where
  "fixed_page = \<lparr>mm_new = (\<lambda>_. (0x3000, ())), mm_delete = (\<lambda>_ _. ()), mm_palloc = (\<lambda>_. (0x4000, ())),
     mm_pfree = (\<lambda>_ _. ())\<rparr>"

theorem InitMemory_overwrites_clb_witness:
  "\<exists>w'. InitMemory fixed_page (some_ahci\<lparr>a_ports := replicate 4 some_port\<rparr>) = Inr w' \<and>
     pr_clistb (a_port_mem w' 0x1100) = 0x4000 \<and> pr_fisb (a_port_mem w' 0x1100) = 0"
proof -
  let ?w = "some_ahci\<lparr>a_ports := replicate 4 some_port\<rparr>"
  have four: "[0..<4] = [0, 1, 2, 3]" by (simp add: upt_rec)
  obtain w' where w': "InitMemory fixed_page ?w = Inr w'"
    by (simp add: InitMemory_def InitPortMemory_def if_present_def Port_def on_port_regs_def SetCLB_def four
        some_ahci_def some_port_def fixed_page_def)
  have present: "ap_present (a_ports ?w ! 0)" "ap_registers (a_ports ?w ! 0) = 0x1100"
    by (simp_all add: some_port_def)
  have fis: "pr_fisb (a_port_mem ?w 0x1100) = 0" by (simp add: some_ahci_def zero_port_regs_def)
  from InitMemory_overwrites_clb [OF w'] present have
    "\<exists>k. pr_clistb (a_port_mem w' 0x1100) = ucast (fst (mm_palloc fixed_page (snd (mm_palloc fixed_page k))))"
    "\<exists>b. a_port_mem w' 0x1100 = (a_port_mem ?w 0x1100)\<lparr>pr_clistb := b\<rparr>" by (metis zero_less_numeral)+
  then have "pr_clistb (a_port_mem w' 0x1100) = 0x4000" "pr_fisb (a_port_mem w' 0x1100) = 0"
    using fis by (auto simp: fixed_page_def)
  with w' show ?thesis by blast
qed

end
