(* ===== verification/Slab2_Queue.thy ===== *)
theory Slab2_Queue
  imports Slab2_List
begin

text \<open>
  The second heap's descriptor as a queue.  The locale \<open>buffer_queue\<close> states the contract of a first-in first-out
  pool of buffers; the abstract machine \<open>q_run\<close> is its specification, and every provider of the contract refines it.
\<close>

section \<open>Specification\<close>

datatype buffer_op = GetBuf | PutBuf addr

text \<open>
  The abstract pool is the list of the buffers it holds.  A request is answered by the first one or null; a returned
  address goes to the end of the list if it lies in the area the pool accepts, and is ignored otherwise.
\<close>

fun q_step :: "addr set \<Rightarrow> buffer_op \<Rightarrow> addr list \<Rightarrow> addr list \<times> addr" where
  "q_step acc GetBuf [] = ([], 0)"
| "q_step acc GetBuf (p # ps) = (ps, p)"
| "q_step acc (PutBuf p) ps = (if p \<in> acc then ps @ [p] else ps, 0)"

fun q_run :: "addr set \<Rightarrow> buffer_op list \<Rightarrow> addr list \<Rightarrow> addr list \<times> addr list" where
  "q_run acc [] ps = (ps, [])"
| "q_run acc (c # cs) ps = (let (ps, a) = q_step acc c ps; (ps, as) = q_run acc cs ps in (ps, a # as))"

text \<open>A client may return anything outside the accepted area; inside it, only buffers of the pool that it holds.\<close>

fun q_legal :: "addr set \<Rightarrow> addr set \<Rightarrow> buffer_op list \<Rightarrow> addr list \<Rightarrow> bool" where
  "q_legal acc own [] ps = True"
| "q_legal acc own (c # cs) ps =
     ((case c of GetBuf \<Rightarrow> True | PutBuf p \<Rightarrow> p \<in> acc \<longrightarrow> p \<in> own \<and> p \<notin> set ps) \<and>
      q_legal acc own cs (fst (q_step acc c ps)))"

section \<open>The contract\<close>

fun buf_run :: "('s \<Rightarrow> ('s \<times> addr) result) \<Rightarrow> (addr \<Rightarrow> 's \<Rightarrow> 's result) \<Rightarrow> buffer_op list \<Rightarrow> 's \<Rightarrow> ('s \<times> addr list) result" where
  "buf_run get put [] s = Inr (s, [])"
| "buf_run get put (c # cs) s =
     rbind (case c of GetBuf \<Rightarrow> get s | PutBuf p \<Rightarrow> rbind (put p s) (\<lambda>s. Inr (s, 0))) (\<lambda>(s, a).
     rbind (buf_run get put cs s) (\<lambda>(s, as). Inr (s, a # as)))"

locale buffer_queue =
  fixes get :: "'s \<Rightarrow> ('s \<times> addr) result" and put :: "addr \<Rightarrow> 's \<Rightarrow> 's result"
    and holds :: "'s \<Rightarrow> addr list \<Rightarrow> bool" and own :: "'s \<Rightarrow> addr set" and accepts :: "'s \<Rightarrow> addr set"
  assumes get_empty: "holds s [] \<Longrightarrow> get s = Inr (s, 0)"
    and get_head: "holds s (p # ps) \<Longrightarrow>
      \<exists>s'. get s = Inr (s', p) \<and> holds s' ps \<and> own s' = own s \<and> accepts s' = accepts s"
    and put_last: "holds s ps \<Longrightarrow> p \<in> own s \<Longrightarrow> p \<notin> set ps \<Longrightarrow> p \<in> accepts s \<Longrightarrow>
      \<exists>s'. put p s = Inr s' \<and> holds s' (ps @ [p]) \<and> own s' = own s \<and> accepts s' = accepts s"
    and put_foreign: "p \<notin> accepts s \<Longrightarrow> put p s = Inr s"
begin

lemma refines_queue:
  "holds s ps \<Longrightarrow> q_legal (accepts s) (own s) cs ps \<Longrightarrow>
   \<exists>s'. buf_run get put cs s = Inr (s', snd (q_run (accepts s) cs ps)) \<and> holds s' (fst (q_run (accepts s) cs ps)) \<and>
     own s' = own s \<and> accepts s' = accepts s"
proof (induction cs arbitrary: s ps)
  case (Cons c cs)
  have "\<exists>s1 a ps1. (case c of GetBuf \<Rightarrow> get s | PutBuf p \<Rightarrow> rbind (put p s) (\<lambda>s. Inr (s, 0))) = Inr (s1, a) \<and>
      q_step (accepts s) c ps = (ps1, a) \<and> holds s1 ps1 \<and> own s1 = own s \<and> accepts s1 = accepts s"
  proof (cases c)
    case GetBuf
    then show ?thesis
      using Cons.prems(1) get_empty get_head by (cases ps) fastforce+
  next
    case (PutBuf p)
    then show ?thesis
      using Cons.prems put_last [of s ps p] put_foreign [of p s] by (cases "p \<in> accepts s") fastforce+
  qed
  then obtain s1 a ps1 where one:
      "(case c of GetBuf \<Rightarrow> get s | PutBuf p \<Rightarrow> rbind (put p s) (\<lambda>s. Inr (s, 0))) = Inr (s1, a)"
      "q_step (accepts s) c ps = (ps1, a)" "holds s1 ps1" "own s1 = own s" "accepts s1 = accepts s" by blast
  from Cons.IH [of s1 ps1] Cons.prems(2) one show ?case by (fastforce simp: Let_def split: prod.splits)
qed simp

end

section \<open>The descriptor keeps the contract\<close>

text \<open>
  The cells \<open>SetupLinkage\<close> links: one at every multiple of the buffer size below the page end, and one more at or
  behind the page end.
\<close>

definition l2_count :: "LD2 \<Rightarrow> nat" where
  "l2_count ld = Suc (0xFFF div unat (l2_bufferSize ld))"

definition l2_cells :: "LD2 \<Rightarrow> addr list" where
  "l2_cells ld = slots_from (l2_baseAddress ld) (ucast (l2_bufferSize ld)) (Suc (l2_count ld))"

definition l2_page_cells :: "LD2 \<Rightarrow> addr list" where
  "l2_page_cells ld = slots_from (l2_baseAddress ld) (ucast (l2_bufferSize ld)) (l2_count ld)"

definition l2_geometry :: "LD2 \<Rightarrow> bool" where
  "l2_geometry ld \<longleftrightarrow> 0 < unat (l2_baseAddress ld) \<and> 8 \<le> unat (l2_bufferSize ld) \<and> unat (l2_bufferSize ld) \<le> 2048 \<and>
     unat (l2_baseAddress ld) + 0x2000 < 2 ^ 64"

definition l2_holds :: "heap \<times> LD2 \<Rightarrow> addr list \<Rightarrow> bool" where
  "l2_holds s fs \<longleftrightarrow> l2_geometry (snd s) \<and> chain (fst s) (l2_nextFree (snd s)) fs \<and> set fs \<subseteq> set (l2_cells (snd s)) \<and>
     length fs + unat (l2_buffersUsed (snd s)) = Suc (l2_count (snd s))"

definition l2_get :: "heap \<times> LD2 \<Rightarrow> ((heap \<times> LD2) \<times> addr) result" where
  "l2_get s = rbind (L2_Allocate (fst s) (snd s)) (\<lambda>(ld, p). Inr ((fst s, ld), p))"

definition l2_put :: "addr \<Rightarrow> heap \<times> LD2 \<Rightarrow> (heap \<times> LD2) result" where
  "l2_put p s = L2_Deallocate p (fst s) (snd s)"

definition l2_own :: "heap \<times> LD2 \<Rightarrow> addr set" where
  "l2_own s = set (l2_page_cells (snd s))"

definition l2_accepts :: "heap \<times> LD2 \<Rightarrow> addr set" where
  "l2_accepts s = {p. L2_ObjectInRange p (snd s)}"

lemma l2_same_range [simp]:
  "L2_ObjectInRange p (ld\<lparr>l2_nextFree := q\<rparr>) = L2_ObjectInRange p ld"
  "L2_ObjectInRange p (ld\<lparr>l2_buffersUsed := u\<rparr>) = L2_ObjectInRange p ld"
  by (simp_all add: L2_ObjectInRange_def L2_Limit_def)

lemma l2_same_cells [simp]:
  "l2_cells (ld\<lparr>l2_nextFree := p\<rparr>) = l2_cells ld" "l2_cells (ld\<lparr>l2_buffersUsed := u\<rparr>) = l2_cells ld"
  "l2_page_cells (ld\<lparr>l2_nextFree := p\<rparr>) = l2_page_cells ld" "l2_page_cells (ld\<lparr>l2_buffersUsed := u\<rparr>) = l2_page_cells ld"
  "l2_geometry (ld\<lparr>l2_nextFree := p\<rparr>) = l2_geometry ld" "l2_geometry (ld\<lparr>l2_buffersUsed := u\<rparr>) = l2_geometry ld"
  "l2_count (ld\<lparr>l2_nextFree := p\<rparr>) = l2_count ld" "l2_count (ld\<lparr>l2_buffersUsed := u\<rparr>) = l2_count ld"
  by (simp_all add: l2_cells_def l2_page_cells_def l2_geometry_def l2_count_def)

lemma l2_count_bounds:
  assumes "l2_geometry ld"
  shows "l2_count ld \<le> 512" "(l2_count ld - 1) * unat (l2_bufferSize ld) < 0x1000"
    "0x1000 \<le> l2_count ld * unat (l2_bufferSize ld)" "l2_count ld * unat (l2_bufferSize ld) < 0x1000 + unat (l2_bufferSize ld)"
proof -
  let ?b = "unat (l2_bufferSize ld)"
  from assms have b: "8 \<le> ?b" by (simp add: l2_geometry_def)
  have le: "0xFFF div ?b * ?b < 0x1000" using div_times_less_eq_dividend [of "0xFFF" ?b] by linarith
  have "0xFFF div ?b \<le> 0xFFF div 8" by (rule div_le_mono2) (use b in auto)
  then show "l2_count ld \<le> 512" by (simp add: l2_count_def)
  show "(l2_count ld - 1) * ?b < 0x1000" using le by (simp add: l2_count_def)
  have "0xFFF < Suc (0xFFF div ?b) * ?b" using b dividend_less_div_times [of ?b "0xFFF"] by simp
  then show "0x1000 \<le> l2_count ld * ?b" by (simp add: l2_count_def)
  show "l2_count ld * ?b < 0x1000 + ?b" using le by (simp add: l2_count_def)
qed

lemma l2_Limit_unat: "l2_geometry ld \<Longrightarrow> unat (L2_Limit ld) = unat (l2_baseAddress ld) + 0x1000"
  by (simp add: L2_Limit_def L2_PAGE_SIZE_def l2_geometry_def unat_add_no_wrap)

lemma l2_cells_facts:
  assumes "l2_geometry ld"
  shows "distinct (l2_cells ld)" "0 \<notin> set (l2_cells ld)" "length (l2_cells ld) = Suc (l2_count ld)"
    and "p \<in> set (l2_page_cells ld) \<Longrightarrow> L2_ObjectInRange p ld"
    and "l2_cells ld = l2_page_cells ld @ [last (l2_cells ld)]"
    and "L2_Limit ld \<le> last (l2_cells ld)"
proof -
  let ?b = "unat (l2_bufferSize ld)" and ?c = "l2_baseAddress ld" and ?sz = "ucast (l2_bufferSize ld) :: u64"
  note n = l2_count_bounds [OF assms]
  from assms have g: "8 \<le> ?b" "?b \<le> 2048" "0 < unat ?c" "unat ?c + 0x2000 < 2 ^ 64" by (simp_all add: l2_geometry_def)
  have room: "unat ?c + Suc (l2_count ld) * unat ?sz < 2 ^ 64" using n(4) g by simp
  then have asc: "ascending (l2_cells ld)" unfolding l2_cells_def using g by (intro slots_ascending) simp_all
  then show "distinct (l2_cells ld)" by (rule ascending_distinct)
  show "0 \<notin> set (l2_cells ld)"
    using slots_bounds [of 0 ?c ?sz "Suc (l2_count ld)"] room g by (auto simp: l2_cells_def simp del: slots_from.simps)
  show "length (l2_cells ld) = Suc (l2_count ld)" by (simp add: l2_cells_def)
  show "l2_cells ld = l2_page_cells ld @ [last (l2_cells ld)]"
    unfolding l2_cells_def l2_page_cells_def by (simp add: slots_from_Suc del: slots_from.simps)
  show "L2_ObjectInRange p ld" if "p \<in> set (l2_page_cells ld)"
  proof -
    have "unat ?c \<le> unat p \<and> unat p + unat ?sz \<le> unat ?c + l2_count ld * unat ?sz"
      using that room unfolding l2_page_cells_def by (intro slots_bounds) simp_all
    then show ?thesis
      using n(4) l2_Limit_unat [OF assms] by (simp add: L2_ObjectInRange_def word_le_nat_alt word_less_nat_alt)
  qed
  have "unat (of_nat (l2_count ld) * ?sz) = l2_count ld * ?b"
    using n(1,4) g by (simp add: unat_word_ariths unat_of_nat)
  then have "unat (?c + of_nat (l2_count ld) * ?sz) = unat ?c + l2_count ld * ?b"
    using room by (subst unat_add_no_wrap) simp_all
  moreover have "last (l2_cells ld) = ?c + of_nat (l2_count ld) * ?sz"
    unfolding l2_cells_def by (simp add: slots_from_Suc del: slots_from.simps)
  ultimately show "L2_Limit ld \<le> last (l2_cells ld)"
    using n(3) l2_Limit_unat [OF assms] by (simp add: word_le_nat_alt)
qed

lemma l2_last_walk_chain:
  "chain m c xs \<Longrightarrow> length xs < n \<Longrightarrow> l2_last_walk n m p c = Inr (last (p # xs))"
proof (induction xs arbitrary: n p c)
  case Nil
  then show ?case by (cases n) auto
next
  case (Cons x xs)
  then obtain k where "n = Suc k" by (cases n) auto
  with Cons show ?case by auto
qed

lemma chain_append_cell:
  assumes "chain m h ps" "ps \<noteq> []" "p \<notin> set ps" "p \<noteq> 0"
  shows "chain (m(last ps := p, p := 0)) h (ps @ [p])"
proof -
  obtain qs q where ps: "ps = qs @ [q]" using assms(2) by (cases ps rule: rev_cases) auto
  have "distinct ps" using assms(1) by (rule chain_distinct)
  with assms ps show ?thesis by auto
qed

interpretation l2q: buffer_queue l2_get l2_put l2_holds l2_own l2_accepts
proof unfold_locales
  fix s :: "heap \<times> LD2" and p ps
  obtain m ld where s: "s = (m, ld)" by (cases s)
  show "l2_get s = Inr (s, 0)" if "l2_holds s []"
    using that s by (simp add: l2_holds_def l2_get_def L2_Allocate_def)
  show "l2_put p s = Inr s" if "p \<notin> l2_accepts s"
    using that s by (simp add: l2_accepts_def l2_put_def L2_Deallocate_def)
  show "\<exists>s'. l2_get s = Inr (s', p) \<and> l2_holds s' ps \<and> l2_own s' = l2_own s \<and> l2_accepts s' = l2_accepts s"
    if "l2_holds s (p # ps)"
  proof -
    from that s have h: "l2_nextFree ld = p" "p \<noteq> 0" "chain m (m p) ps" "l2_geometry ld"
        "length ps + 1 + unat (l2_buffersUsed ld) = Suc (l2_count ld)" "set (p # ps) \<subseteq> set (l2_cells ld)"
      by (auto simp: l2_holds_def)
    have "unat (l2_buffersUsed ld + 1) = unat (l2_buffersUsed ld) + 1"
      using h(5) l2_count_bounds(1) [OF h(4)] by (subst unat_add_no_wrap) simp_all
    with h s show ?thesis by (simp add: l2_get_def L2_Allocate_def l2_holds_def l2_own_def l2_accepts_def)
  qed
  show "\<exists>s'. l2_put p s = Inr s' \<and> l2_holds s' (ps @ [p]) \<and> l2_own s' = l2_own s \<and> l2_accepts s' = l2_accepts s"
    if "l2_holds s ps" "p \<in> l2_own s" "p \<notin> set ps"
  proof -
    from that s have h: "l2_geometry ld" "chain m (l2_nextFree ld) ps" "set ps \<subseteq> set (l2_cells ld)"
        "length ps + unat (l2_buffersUsed ld) = Suc (l2_count ld)" "p \<in> set (l2_page_cells ld)" "p \<notin> set ps"
      by (auto simp: l2_holds_def l2_own_def)
    note c = l2_cells_facts [OF h(1)]
    have pc: "p \<in> set (l2_cells ld)" using h(5) by (subst c(5)) simp
    have "length ps = card (set ps)" using chain_distinct [OF h(2)] by (simp add: distinct_card)
    also have "\<dots> < card (set (l2_cells ld))" by (rule psubset_card_mono) (use h(3,6) pc in auto)
    finally have "length ps < Suc (l2_count ld)" using c(1,3) by (simp add: distinct_card)
    then have used: "l2_buffersUsed ld \<noteq> 0" using h(4) by auto
    then have "Suc (unat (l2_buffersUsed ld - 1)) = unat (l2_buffersUsed ld)"
      by (simp add: unat_minus_one unat_gt_0)
    then have len: "length (ps @ [p]) + unat (l2_buffersUsed ld - 1) = Suc (l2_count ld)" using h(4) by simp
    have p: "p \<noteq> 0" "L2_ObjectInRange p ld" using pc c(2) c(4) [OF h(5)] by auto
    show ?thesis
    proof (cases "ps = []")
      case True
      with h s p used len pc show ?thesis by (simp add: l2_put_def L2_Deallocate_def l2_holds_def l2_own_def l2_accepts_def)
    next
      case False
      then obtain x xs where ps: "ps = x # xs" by (cases ps) auto
      with h(2) have x: "l2_nextFree ld = x" "x \<noteq> 0" "chain m (m x) xs" by auto
      have "length xs < walk_fuel" using chain_length_less_fuel [OF x(3)] .
      then have walk: "l2_last_walk walk_fuel m x (m x) = Inr (last ps)"
        using l2_last_walk_chain [OF x(3)] ps by simp
      have "last ps \<noteq> 0" using lseg_nonzero [OF h(2)] last_in_set [OF False] by metis
      then have run: "l2_put p s = Inr (m(last ps := p, p := 0), ld\<lparr>l2_buffersUsed := l2_buffersUsed ld - 1\<rparr>)"
        using s p used x walk by (simp add: l2_put_def L2_Deallocate_def)
      have "chain (m(last ps := p, p := 0)) (l2_nextFree ld) (ps @ [p])"
        by (rule chain_append_cell) (use h(2,6) False p in auto)
      with run h len pc s show ?thesis by (simp add: l2_holds_def l2_own_def l2_accepts_def)
    qed
  qed
qed

section \<open>Linking a page\<close>

lemma l2_linkage_loop_links:
  assumes "k < n" "\<forall>j<k. unat cur + j * unat sz < unat limit" "unat limit \<le> unat cur + k * unat sz"
    and "unat cur + k * unat sz < 2 ^ 64" "0 < unat cur" "0 < unat sz"
  shows "\<exists>m'. l2_linkage_loop n m cur sz limit = Inr (m', cur + of_nat k * sz) \<and>
           lseg m' cur (slots_from cur sz k) (cur + of_nat k * sz) \<and>
           (\<forall>x. x \<notin> set (slots_from cur sz k) \<longrightarrow> m' x = m x)"
  using assms
proof (induction k arbitrary: n cur m)
  case 0
  then obtain n' where "n = Suc n'" by (cases n) auto
  with 0 show ?case by (simp add: word_less_nat_alt)
next
  case (Suc k)
  then obtain n' where n: "n = Suc n'" "k < n'" by (cases n) auto
  have c': "unat (cur + sz) = unat cur + unat sz" using Suc.prems by (intro unat_add_no_wrap) simp
  have lt: "cur < limit" using Suc.prems(2) by (simp add: word_less_nat_alt) (metis add_0_right mult_0 zero_less_Suc)
  have nz: "cur \<noteq> 0" using Suc.prems(5) by auto
  let ?c = "cur + sz" and ?m = "m(cur := cur + sz)"
  have "\<exists>m'. l2_linkage_loop n' ?m ?c sz limit = Inr (m', ?c + of_nat k * sz) \<and>
      lseg m' ?c (slots_from ?c sz k) (?c + of_nat k * sz) \<and>
      (\<forall>x. x \<notin> set (slots_from ?c sz k) \<longrightarrow> m' x = ?m x)"
  proof (rule Suc.IH)
    show "\<forall>j<k. unat ?c + j * unat sz < unat limit"
      using Suc.prems(2) c' by (metis Suc_less_eq add.assoc mult_Suc)
  qed (use Suc.prems n c' in \<open>simp_all add: algebra_simps\<close>)
  then obtain m' where m': "l2_linkage_loop n' ?m ?c sz limit = Inr (m', ?c + of_nat k * sz)"
      "lseg m' ?c (slots_from ?c sz k) (?c + of_nat k * sz)"
      "\<forall>x. x \<notin> set (slots_from ?c sz k) \<longrightarrow> m' x = ?m x" by blast
  have "cur \<notin> set (slots_from ?c sz k)"
    using slots_bounds [of cur ?c sz k] Suc.prems c' by (auto simp: algebra_simps)
  with m'(3) have "m' cur = ?c" by simp
  with m' n lt nz show ?case by (auto simp: algebra_simps)
qed

lemma L2_SetupLinkage_ok:
  assumes g: "l2_geometry ld" and "l2_buffersUsed ld = 0"
  shows "\<exists>m'. L2_SetupLinkage m ld = Inr (m', ld\<lparr>l2_nextFree := l2_baseAddress ld\<rparr>) \<and>
     l2_holds (m', ld\<lparr>l2_nextFree := l2_baseAddress ld\<rparr>) (l2_cells ld) \<and> m' (last (l2_cells ld)) = 0"
proof -
  let ?b = "unat (l2_bufferSize ld)" and ?c = "l2_baseAddress ld" and ?sz = "ucast (l2_bufferSize ld) :: u64"
  let ?k = "l2_count ld" and ?last = "last (l2_cells ld)"
  note n = l2_count_bounds [OF g] and cf = l2_cells_facts [OF g]
  from g have gb: "8 \<le> ?b" "?b \<le> 2048" "0 < unat ?c" "unat ?c + 0x2000 < 2 ^ 64" by (simp_all add: l2_geometry_def)
  have cells: "l2_cells ld = slots_from ?c ?sz ?k @ [?last]" "?last = ?c + of_nat ?k * ?sz"
    unfolding l2_cells_def by (simp_all add: slots_from_Suc del: slots_from.simps)
  have below: "unat ?c + j * unat ?sz < unat (L2_Limit ld)" if "j < ?k" for j
  proof -
    have "j * ?b \<le> (?k - 1) * ?b" by (rule mult_le_mono1) (use that in simp)
    then have "j * ?b < 0x1000" using n(2) by (rule le_less_trans)
    then show ?thesis using l2_Limit_unat [OF g] by simp
  qed
  have "\<exists>m'. l2_linkage_loop walk_fuel m ?c ?sz (L2_Limit ld) = Inr (m', ?c + of_nat ?k * ?sz) \<and>
      lseg m' ?c (slots_from ?c ?sz ?k) (?c + of_nat ?k * ?sz) \<and>
      (\<forall>x. x \<notin> set (slots_from ?c ?sz ?k) \<longrightarrow> m' x = m x)"
    by (rule l2_linkage_loop_links) (use n gb below l2_Limit_unat [OF g] in \<open>simp_all add: walk_fuel_def\<close>)
  then obtain m' where m': "l2_linkage_loop walk_fuel m ?c ?sz (L2_Limit ld) = Inr (m', ?last)"
      "lseg m' ?c (slots_from ?c ?sz ?k) ?last" unfolding cells(2) by blast
  have nz: "?last \<noteq> 0" using cf(2) cells(1) by (metis in_set_conv_decomp)
  have "?last \<notin> set (slots_from ?c ?sz ?k)" using cf(1) unfolding cells(1) [symmetric] by (subst (asm) cells(1)) simp
  then have "chain (m'(?last := 0)) ?c (l2_cells ld)" using m'(2) nz by (subst cells(1)) simp
  moreover have "L2_SetupLinkage m ld = Inr (m'(?last := 0), ld\<lparr>l2_nextFree := ?c\<rparr>)"
    using m'(1) nz by (simp add: L2_SetupLinkage_def)
  ultimately show ?thesis using g cf(3) assms(2) by (auto simp: l2_holds_def)
qed

lemma new_LD2_ok:
  assumes "baseAddr \<noteq> 0" "unat baseAddr + 0x2000 < 2 ^ 64" "8 \<le> bsize" "bsize \<le> 2048"
  shows "\<exists>ld. new_LD2 this baseAddr bsize = Inr ld \<and> l2_geometry ld \<and> l2_buffersUsed ld = 0 \<and>
     l2_baseAddress ld = baseAddr \<and> l2_bufferSize ld = bsize"
proof -
  have "\<not> bsize < 8" "0 < unat baseAddr" "8 \<le> unat bsize" "unat bsize \<le> 2048"
    using assms by (simp_all add: unat_gt_0 word_le_nat_alt word_less_nat_alt)
  with assms show ?thesis by (auto simp: new_LD2_def l2_geometry_def)
qed

lemma q_run_gets: "n \<le> length ps \<Longrightarrow> q_run acc (replicate n GetBuf) ps = (drop n ps, take n ps)"
proof (induction n arbitrary: ps)
  case (Suc n)
  then obtain p qs where "ps = p # qs" by (cases ps) auto
  with Suc show ?case by simp
qed simp

lemma q_legal_gets: "q_legal acc own (replicate n GetBuf) ps"
  by (induction n arbitrary: ps) auto

section \<open>Properties\<close>

text \<open>
  C18. Take the second heap's descriptor, constructed for buffers of 8 to 2048 bytes over a page that is not at null and
  not within two pages of the end of the address space, and linked: it is a first-in first-out pool of the linked cells,
  which are the cells of the page and one more behind them.  Every sequence of allocations and returns runs without a
  fault and is answered exactly as the abstract queue answers it.  A return of a page cell the client holds goes to the
  end of the queue; a return of any address outside the page is ignored, so the extra cell, once handed out, never comes
  back.  (Returns of an address inside the page that the client does not hold are not covered.)
\<close>

theorem page_descriptor_refines_queue:
  fixes baseAddr :: addr and bsize :: u16
  defines "cells \<equiv> slots_from baseAddr (ucast bsize) (Suc (Suc (0xFFF div unat bsize)))"
    and "page_cells \<equiv> set (slots_from baseAddr (ucast bsize) (Suc (0xFFF div unat bsize)))"
    and "area \<equiv> {p. baseAddr \<le> p \<and> p < baseAddr + 0x1000}"
  assumes "baseAddr \<noteq> 0" "unat baseAddr + 0x2000 < 2 ^ 64" "8 \<le> bsize" "bsize \<le> 2048"
    and legal: "q_legal area page_cells cs cells"
  shows "\<exists>ld m' ld' s'. new_LD2 this baseAddr bsize = Inr ld \<and> L2_SetupLinkage m ld = Inr (m', ld') \<and>
     buf_run l2_get l2_put cs (m', ld') = Inr (s', snd (q_run area cs cells)) \<and> last cells \<notin> area"
proof -
  obtain ld where ld: "new_LD2 this baseAddr bsize = Inr ld" "l2_geometry ld" "l2_buffersUsed ld = 0"
      "l2_baseAddress ld = baseAddr" "l2_bufferSize ld = bsize" using new_LD2_ok [OF assms(4-7)] by blast
  from L2_SetupLinkage_ok [OF ld(2,3), of m] obtain m' where m':
      "L2_SetupLinkage m ld = Inr (m', ld\<lparr>l2_nextFree := l2_baseAddress ld\<rparr>)"
      "l2_holds (m', ld\<lparr>l2_nextFree := l2_baseAddress ld\<rparr>) (l2_cells ld)" by blast
  let ?s = "(m', ld\<lparr>l2_nextFree := l2_baseAddress ld\<rparr>)"
  have c: "l2_cells ld = cells" "l2_own ?s = page_cells"
    using ld by (simp_all add: l2_cells_def l2_own_def l2_page_cells_def l2_count_def cells_def page_cells_def
      del: slots_from.simps)
  have acc: "l2_accepts ?s = area"
    using ld(4) by (simp add: l2_accepts_def area_def L2_ObjectInRange_def L2_Limit_def L2_PAGE_SIZE_def)
  have "last cells \<notin> area"
    using l2_cells_facts(6) [OF ld(2)] ld(4) c(1) by (simp add: area_def L2_Limit_def L2_PAGE_SIZE_def not_less)
  with l2q.refines_queue [OF m'(2), of cs] legal ld(1) m'(1) show ?thesis unfolding c acc by blast
qed

text \<open>A page of two buffers: the extra cell 0x6000 is handed out and its return is ignored.\<close>

theorem page_descriptor_refines_queue_witness:
  "\<exists>ld m' ld' s'. new_LD2 0x9000 0x5000 2048 = Inr ld \<and> L2_SetupLinkage (\<lambda>_. 7) ld = Inr (m', ld') \<and>
     buf_run l2_get l2_put [GetBuf, GetBuf, PutBuf 0x5000, GetBuf, PutBuf 0x6000, GetBuf, GetBuf] (m', ld') =
       Inr (s', [0x5000, 0x5800, 0, 0x6000, 0, 0x5000, 0])"
  using page_descriptor_refines_queue [of "0x5000" 2048
      "[GetBuf, GetBuf, PutBuf 0x5000, GetBuf, PutBuf 0x6000, GetBuf, GetBuf]" "0x9000" "\<lambda>_. 7"]
  by simp

text \<open>
  C19. The chain \<open>SetupLinkage\<close> builds is one cell too long: its last cell lies at or behind the page end, where a
  zero is written into memory that is not the descriptor's, and after all cells of the page an allocation hands this
  cell out.
\<close>

theorem SetupLinkage_runs_past_page:
  assumes "l2_geometry ld" "l2_buffersUsed ld = 0"
  shows "\<exists>m' ld' s' ps p. L2_SetupLinkage m ld = Inr (m', ld') \<and> L2_Limit ld \<le> p \<and> m' p = 0 \<and>
     buf_run l2_get l2_put (replicate (Suc (l2_count ld)) GetBuf) (m', ld') = Inr (s', ps @ [p])"
proof -
  from L2_SetupLinkage_ok [OF assms, of m] obtain m' where m':
      "L2_SetupLinkage m ld = Inr (m', ld\<lparr>l2_nextFree := l2_baseAddress ld\<rparr>)"
      "l2_holds (m', ld\<lparr>l2_nextFree := l2_baseAddress ld\<rparr>) (l2_cells ld)" "m' (last (l2_cells ld)) = 0" by blast
  note cf = l2_cells_facts [OF assms(1)]
  obtain s' where "buf_run l2_get l2_put (replicate (Suc (l2_count ld)) GetBuf)
      (m', ld\<lparr>l2_nextFree := l2_baseAddress ld\<rparr>) = Inr (s', l2_cells ld)"
    using l2q.refines_queue [OF m'(2) q_legal_gets, of "Suc (l2_count ld)"] cf(3)
      q_run_gets [of "Suc (l2_count ld)" "l2_cells ld"] by auto
  with m' cf(5,6) show ?thesis by metis
qed

theorem SetupLinkage_runs_past_page_witness:
  "\<exists>ld m' ld' s' ps p. new_LD2 0x9000 0x5000 64 = Inr ld \<and> L2_SetupLinkage (\<lambda>_. 7) ld = Inr (m', ld') \<and>
     0x6000 \<le> p \<and> m' p = 0 \<and>
     buf_run l2_get l2_put (replicate 65 GetBuf) (m', ld') = Inr (s', ps @ [p])"
proof -
  obtain ld where ld: "new_LD2 0x9000 0x5000 64 = Inr ld" "l2_geometry ld" "l2_buffersUsed ld = 0"
      "l2_baseAddress ld = 0x5000" "l2_bufferSize ld = 64" using new_LD2_ok [of "0x5000" 64 "0x9000"] by auto
  then have "L2_Limit ld = 0x6000" "Suc (l2_count ld) = 65"
    by (simp_all add: L2_Limit_def L2_PAGE_SIZE_def l2_count_def)
  with SetupLinkage_runs_past_page [OF ld(2,3), of "\<lambda>_. 7"] ld(1) show ?thesis by metis
qed

end
