(* ===== verification/Slab2_Allocator.thy ===== *)
theory Slab2_Allocator
  imports Slab2_Queue
begin

text \<open>
  The second slab heap's buffers and front end (\<open>kernel/src/kheap/slab_v2/buffer\<close>, \<open>allocator\<close>): size classes by
  powers of two, each with a circular list of page descriptors.  The page functions are parameters.
\<close>

section \<open>Buffers\<close>

record Buffer2 =
  b2_lists :: addr
  b2_bufferSize :: u16
  b2_options :: u8
  b2_opCount :: u8

definition new_Buffer2 :: "u16 \<Rightarrow> Buffer2" where
  "new_Buffer2 bufferSize = \<lparr>b2_lists = 0, b2_bufferSize = bufferSize, b2_options = 0, b2_opCount = 0\<rparr>"

text \<open>
  The range loops run from \<open>begin()\<close> to \<open>end()\<close> of the descriptor \<open>m_lists\<close> points to, advancing a plain pointer by
  the size of a descriptor.  Both return the descriptor itself; neither reads memory, so a null pointer is no fault.
\<close>

definition sizeof_LD2 :: u64 where "sizeof_LD2 = 40"

definition L2_begin :: "addr \<Rightarrow> addr" where "L2_begin this = this"
definition L2_end :: "addr \<Rightarrow> addr" where "L2_end this = this"

fun l2_range :: "nat \<Rightarrow> addr \<Rightarrow> addr \<Rightarrow> addr list result" where
  "l2_range 0 p e = Inl Diverges"
| "l2_range (Suc n) p e =
     (if p = e then Inr [] else rbind (l2_range n (p + sizeof_LD2) e) (\<lambda>ps. Inr (p # ps)))"

definition b2_range :: "Buffer2 \<Rightarrow> addr list result" where
  "b2_range b = l2_range walk_fuel (L2_begin (b2_lists b)) (L2_end (b2_lists b))"

definition Buffer2_Empty :: "ld2s \<Rightarrow> Buffer2 \<Rightarrow> bool result" where
  "Buffer2_Empty d b = rbind (b2_range b) (\<lambda>ls. Inr (list_all (\<lambda>l. L2_Empty (d l)) ls))"

definition Buffer2_Full :: "ld2s \<Rightarrow> Buffer2 \<Rightarrow> bool result" where
  "Buffer2_Full d b = rbind (b2_range b) (\<lambda>ls. Inr (list_all (\<lambda>l. L2_Full (d l)) ls))"

definition Buffer2_AddList :: "addr \<Rightarrow> ld2s \<Rightarrow> Buffer2 \<Rightarrow> (ld2s \<times> Buffer2) result" where
  "Buffer2_AddList list d b =
     rbind (guard_ptr list) (\<lambda>_. rbind (rassert (b2_bufferSize b = l2_bufferSize (d list))) (\<lambda>_.
       let b = b\<lparr>b2_opCount := b2_opCount b + 1\<rparr>
       in rbind (L2_AddList (b2_lists b) list d) (\<lambda>d. Inr (d, b))))"

text \<open>The size test of \<open>OwnsList\<close> is the wrong way round.\<close>

definition Buffer2_OwnsList :: "addr \<Rightarrow> ld2s \<Rightarrow> Buffer2 \<Rightarrow> (Buffer2 \<times> bool) result" where
  "Buffer2_OwnsList list d b =
     rbind (guard_ptr list) (\<lambda>_.
       if b2_bufferSize b = l2_bufferSize (d list) then Inr (b, False)
       else rbind (b2_range b) (\<lambda>ls.
              if list \<in> set ls then Inr (b, True) else Inr (b\<lparr>b2_opCount := b2_opCount b + 1\<rparr>, False)))"

definition Buffer2_RemoveList :: "addr \<Rightarrow> ld2s \<Rightarrow> Buffer2 \<Rightarrow> (ld2s \<times> Buffer2) result" where
  "Buffer2_RemoveList list d b =
     rbind (guard_ptr list) (\<lambda>_. rbind (rassert (b2_bufferSize b = l2_bufferSize (d list))) (\<lambda>_.
     rbind (Buffer2_OwnsList list d b) (\<lambda>(b, owns).
     rbind (if owns then rbind (L2_ExtractSelf list d) (\<lambda>(d, _). Inr d) else Inr d) (\<lambda>d.
       Inr (d, b\<lparr>b2_opCount := b2_opCount b + 1\<rparr>)))))"

definition Buffer2_OwnsObject :: "addr \<Rightarrow> ld2s \<Rightarrow> Buffer2 \<Rightarrow> bool result" where
  "Buffer2_OwnsObject pobj d b = rbind (b2_range b) (\<lambda>ls. Inr (list_ex (\<lambda>l. L2_ObjectInRange pobj (d l)) ls))"

text \<open>The loop goes on after it has found a buffer; only the last one allocated is returned.\<close>

primrec b2_alloc_loop :: "addr list \<Rightarrow> heap \<Rightarrow> ld2s \<Rightarrow> addr \<Rightarrow> (ld2s \<times> addr) result" where
  "b2_alloc_loop [] m d alloc = Inr (d, alloc)"
| "b2_alloc_loop (l # ls) m d alloc =
     (if L2_HasSpace (d l)
      then rbind (L2_Allocate m (d l)) (\<lambda>(ld, p). b2_alloc_loop ls m (d(l := ld)) p)
      else b2_alloc_loop ls m d alloc)"

definition Buffer2_Allocate :: "heap \<Rightarrow> ld2s \<Rightarrow> Buffer2 \<Rightarrow> (ld2s \<times> Buffer2 \<times> addr) result" where
  "Buffer2_Allocate m d b =
     (if b2_lists b = 0 then Inr (d, b, 0)
      else rbind (b2_range b) (\<lambda>ls. rbind (b2_alloc_loop ls m d 0) (\<lambda>(d, alloc).
             Inr (d, b\<lparr>b2_opCount := b2_opCount b + 1\<rparr>, alloc))))"

primrec b2_dealloc_loop :: "addr list \<Rightarrow> addr \<Rightarrow> heap \<Rightarrow> ld2s \<Rightarrow> (heap \<times> ld2s) result" where
  "b2_dealloc_loop [] obj m d = Inr (m, d)"
| "b2_dealloc_loop (l # ls) obj m d =
     (if L2_ObjectInRange obj (d l)
      then rbind (L2_Deallocate obj m (d l)) (\<lambda>(m, ld). b2_dealloc_loop ls obj m (d(l := ld)))
      else b2_dealloc_loop ls obj m d)"

definition Buffer2_Deallocate :: "addr \<Rightarrow> heap \<Rightarrow> ld2s \<Rightarrow> Buffer2 \<Rightarrow> (heap \<times> ld2s \<times> Buffer2) result" where
  "Buffer2_Deallocate obj m d b =
     rbind (b2_range b) (\<lambda>ls. rbind (b2_dealloc_loop ls obj m d) (\<lambda>(m, d).
       Inr (m, d, b\<lparr>b2_opCount := b2_opCount b + 1\<rparr>)))"

section \<open>Size classes\<close>

definition NbytesToPow2 :: "u64 \<Rightarrow> u64" where
  "NbytesToPow2 nbytes =
     (let n = nbytes - 1;
          n = n OR drop_bit 1 n;
          n = n OR drop_bit 2 n;
          n = n OR drop_bit 4 n;
          n = n OR drop_bit 8 n;
          n = n OR drop_bit 16 n;
          n = n OR drop_bit 32 n
      in n + 1)"

definition Pow2ToIndex :: "u64 \<Rightarrow> nat result" where
  "Pow2ToIndex pow2 =
     (if pow2 = 2 \<or> pow2 = 4 \<or> pow2 = 8 then Inr 0
      else if pow2 = 16 then Inr 1 else if pow2 = 32 then Inr 2 else if pow2 = 64 then Inr 3
      else if pow2 = 128 then Inr 4 else if pow2 = 256 then Inr 5 else if pow2 = 512 then Inr 6
      else if pow2 = 1024 then Inr 7 else if pow2 = 2048 then Inr 8
      else Inl AssertFailed)"

section \<open>The allocator\<close>

record 'k Allocator2 =
  s2_heap :: heap
  s2_lds :: ld2s
  s2_buffers :: "Buffer2 list"
  s2_pages :: 'k

record 'k page_fns =
  pf_alloc :: "'k \<Rightarrow> addr \<times> 'k"
  pf_dealloc :: "addr \<Rightarrow> 'k \<Rightarrow> 'k"

definition Allocator2_InitBuffers :: "'k Allocator2 \<Rightarrow> 'k Allocator2" where
  "Allocator2_InitBuffers a = a\<lparr>s2_buffers := map new_Buffer2 [8, 16, 32, 64, 128, 256, 512, 1024, 2048]\<rparr>"

text \<open>The index of the buffer for a size; the size is cut to 16 bits.\<close>

definition GetBuffer2 :: "u64 \<Rightarrow> nat result" where
  "GetBuffer2 bytes = Pow2ToIndex (NbytesToPow2 (ucast (ucast bytes :: u16)))"

definition on_buffer2 :: "nat \<Rightarrow> (heap \<Rightarrow> ld2s \<Rightarrow> Buffer2 \<Rightarrow> (heap \<times> ld2s \<times> Buffer2 \<times> 'r) result) \<Rightarrow>
     'k Allocator2 \<Rightarrow> ('k Allocator2 \<times> 'r) result" where
  "on_buffer2 i f a =
     rbind (f (s2_heap a) (s2_lds a) (s2_buffers a ! i)) (\<lambda>(m, d, b, r).
       Inr (a\<lparr>s2_heap := m, s2_lds := d, s2_buffers := (s2_buffers a)[i := b]\<rparr>, r))"

definition add_list2 :: "nat \<Rightarrow> addr \<Rightarrow> 'k Allocator2 \<Rightarrow> 'k Allocator2 result" where
  "add_list2 i list a =
     rbind (on_buffer2 i (\<lambda>m d b. rbind (Buffer2_AddList list d b) (\<lambda>(d, b). Inr (m, d, b, ()))) a) (\<lambda>(a, _). Inr a)"

definition alloc2 :: "nat \<Rightarrow> 'k Allocator2 \<Rightarrow> ('k Allocator2 \<times> addr) result" where
  "alloc2 i = on_buffer2 i (\<lambda>m d b. rbind (Buffer2_Allocate m d b) (\<lambda>(d, b, p). Inr (m, d, b, p)))"

definition Allocator2_AddList :: "addr \<Rightarrow> 'k Allocator2 \<Rightarrow> 'k Allocator2 result" where
  "Allocator2_AddList list a =
     rbind (guard_ptr list) (\<lambda>_. rbind (GetBuffer2 (ucast (l2_bufferSize (s2_lds a list)))) (\<lambda>i. add_list2 i list a))"

text \<open>
  When the buffer of the descriptors is full a descriptor for an extra page is built in a local variable (at \<open>local\<close>),
  moved into its own page, and destroyed, which takes it out of its list.
\<close>

definition extra_list2 :: "'k page_fns \<Rightarrow> addr \<Rightarrow> nat \<Rightarrow> 'k Allocator2 \<Rightarrow> 'k Allocator2 result" where
  "extra_list2 fns local i a =
     (let (extrapage, k) = pf_alloc fns (s2_pages a); a = a\<lparr>s2_pages := k\<rparr>
      in rbind (new_LD2 local extrapage (ucast (NbytesToPow2 sizeof_LD2))) (\<lambda>ld.
         rbind (L2_Allocate (s2_heap a) ld) (\<lambda>(ld, onpageList).
         rbind (L2_move_assign onpageList local ((s2_lds a)(local := ld))) (\<lambda>d.
         rbind (add_list2 i onpageList (a\<lparr>s2_lds := d\<rparr>)) (\<lambda>a.
         rbind (L2_ExtractSelf local (s2_lds a)) (\<lambda>(d, _). Inr (a\<lparr>s2_lds := d\<rparr>)))))))"

definition AllocateList2 :: "'k page_fns \<Rightarrow> addr \<Rightarrow> addr \<Rightarrow> u16 \<Rightarrow> 'k Allocator2 \<Rightarrow> ('k Allocator2 \<times> addr) result" where
  "AllocateList2 fns local pagebase bufferSize a =
     rbind (GetBuffer2 sizeof_LD2) (\<lambda>i.
     rbind (Buffer2_Full (s2_lds a) (s2_buffers a ! i)) (\<lambda>full.
     rbind (if full then extra_list2 fns local i a else Inr a) (\<lambda>a.
     rbind (alloc2 i a) (\<lambda>(a, allocd).
     rbind (guard_ptr allocd) (\<lambda>_.
     rbind (new_LD2 allocd pagebase bufferSize) (\<lambda>ld.
     rbind (L2_SetupLinkage (s2_heap a) ld) (\<lambda>(m, ld).
     rbind (Allocator2_AddList allocd (a\<lparr>s2_heap := m, s2_lds := (s2_lds a)(allocd := ld)\<rparr>)) (\<lambda>a.
       Inr (a, allocd)))))))))"

definition DeallocateList2 :: "'k page_fns \<Rightarrow> addr \<Rightarrow> 'k Allocator2 \<Rightarrow> 'k Allocator2 result" where
  "DeallocateList2 fns list a =
     rbind (guard_ptr list) (\<lambda>_.
     rbind (GetBuffer2 (NbytesToPow2 (ucast (l2_buffersUsed (s2_lds a list))))) (\<lambda>i.
     rbind (on_buffer2 i (\<lambda>m d b. rbind (Buffer2_RemoveList list d b) (\<lambda>(d, b). Inr (m, d, b, ()))) a) (\<lambda>(a, _).
       Inr (a\<lparr>s2_pages := pf_dealloc fns (l2_baseAddress (s2_lds a list)) (s2_pages a)\<rparr>))))"

definition AllocateObject2 :: "'k page_fns \<Rightarrow> addr \<Rightarrow> u64 \<Rightarrow> 'k Allocator2 \<Rightarrow> ('k Allocator2 \<times> addr) result" where
  "AllocateObject2 fns local bytes a =
     (let pow2 = NbytesToPow2 bytes
      in rbind (GetBuffer2 pow2) (\<lambda>i.
         rbind (Buffer2_Full (s2_lds a) (s2_buffers a ! i)) (\<lambda>full.
         rbind (if full
                then let (pagebase, k) = pf_alloc fns (s2_pages a)
                     in rbind (AllocateList2 fns local pagebase (ucast bytes) (a\<lparr>s2_pages := k\<rparr>)) (\<lambda>(a, list).
                        add_list2 i list a)
                else Inr a) (alloc2 i))))"

definition DeallocateObject2 :: "addr \<Rightarrow> u64 \<Rightarrow> 'k Allocator2 \<Rightarrow> 'k Allocator2 result" where
  "DeallocateObject2 pobj bytes a =
     (let pow2 = NbytesToPow2 bytes
      in rbind (GetBuffer2 pow2) (\<lambda>i.
         rbind (on_buffer2 i (\<lambda>m d b. rbind (Buffer2_Deallocate pobj m d b) (\<lambda>(m, d, b). Inr (m, d, b, ()))) a) (\<lambda>(a, _).
           Inr a)))"

section \<open>Rounding up to a power of two\<close>

lemma smear_step:
  fixes x y :: u64
  assumes "\<And>i. bit y i \<longleftrightarrow> (\<exists>j<k. bit x (i + j))"
  shows "bit (y OR drop_bit k y) i \<longleftrightarrow> (\<exists>j<k + k. bit x (i + j))"
proof -
  have "(\<exists>j<k + k. bit x (i + j)) \<longleftrightarrow> (\<exists>j<k. bit x (i + j)) \<or> (\<exists>j<k. bit x (i + k + j))"
  proof (intro iffI)
    assume "\<exists>j<k + k. bit x (i + j)"
    then obtain j where j: "j < k + k" "bit x (i + j)" by blast
    then show "(\<exists>j<k. bit x (i + j)) \<or> (\<exists>j<k. bit x (i + k + j))"
      by (cases "j < k") (auto intro: exI [of _ "j - k"])
  next
    assume "(\<exists>j<k. bit x (i + j)) \<or> (\<exists>j<k. bit x (i + k + j))"
    then show "\<exists>j<k + k. bit x (i + j)"
      by (auto intro: exI [of _ "k + j" for j] trans_less_add1 simp: add.assoc)
  qed
  then show ?thesis using assms by (simp add: bit_or_iff bit_drop_bit_eq add.commute add.left_commute)
qed

definition smear :: "u64 \<Rightarrow> u64" where
  "smear x = NbytesToPow2 (x + 1) - 1"

lemma bit_smear: "bit (smear x) i \<longleftrightarrow> (\<exists>j<64. bit x (i + j))"
proof -
  let ?a = "x OR drop_bit 1 x" let ?b = "?a OR drop_bit 2 ?a" let ?c = "?b OR drop_bit 4 ?b"
  let ?d = "?c OR drop_bit 8 ?c" let ?e = "?d OR drop_bit 16 ?d" let ?f = "?e OR drop_bit 32 ?e"
  have a: "bit ?a i \<longleftrightarrow> (\<exists>j<2. bit x (i + j))" for i using smear_step [of x 1 x i] by (simp add: numeral_2_eq_2)
  have b: "bit ?b i \<longleftrightarrow> (\<exists>j<4. bit x (i + j))" for i using smear_step [of ?a 2 x, OF a] by simp
  have c: "bit ?c i \<longleftrightarrow> (\<exists>j<8. bit x (i + j))" for i using smear_step [of ?b 4 x, OF b] by simp
  have d: "bit ?d i \<longleftrightarrow> (\<exists>j<16. bit x (i + j))" for i using smear_step [of ?c 8 x, OF c] by simp
  have e: "bit ?e i \<longleftrightarrow> (\<exists>j<32. bit x (i + j))" for i using smear_step [of ?d 16 x, OF d] by simp
  have "bit ?f i \<longleftrightarrow> (\<exists>j<64. bit x (i + j))" for i using smear_step [of ?e 32 x, OF e] by simp
  moreover have "smear x = ?f" by (simp add: smear_def NbytesToPow2_def Let_def)
  ultimately show ?thesis by simp
qed

lemma smear_bit_exp:
  fixes x :: u64
  shows "(\<exists>j<64. bit x (i + j)) \<longleftrightarrow> 2 ^ i \<le> unat x"
proof -
  have "(\<exists>j<64. bit x (i + j)) \<longleftrightarrow> drop_bit i x \<noteq> 0"
  proof
    assume "drop_bit i x \<noteq> 0"
    then obtain j where "bit (drop_bit i x) j" by (auto simp: bit_eq_iff)
    then have j: "bit x (i + j)" by (simp add: bit_drop_bit_eq)
    have "j < 64" using bit_imp_le_length [OF j] by simp
    with j show "\<exists>j<64. bit x (i + j)" by blast
  qed (auto simp: bit_eq_iff bit_drop_bit_eq)
  also have "\<dots> \<longleftrightarrow> unat x div 2 ^ i \<noteq> 0"
    unfolding word_unat_eq_iff unat_drop_bit_eq by (simp add: drop_bit_eq_div)
  also have "\<dots> \<longleftrightarrow> 2 ^ i \<le> unat x" by (simp add: div_eq_0_iff not_less)
  finally show ?thesis .
qed

text \<open>The reference: the exponent is the least one whose power of two reaches the number.\<close>

definition pow2_exponent :: "nat \<Rightarrow> nat" where
  "pow2_exponent n = (LEAST k. n \<le> 2 ^ k)"

lemma pow2_exponent_le: "pow2_exponent n \<le> i \<longleftrightarrow> n \<le> 2 ^ i"
proof
  have ex: "n \<le> 2 ^ n" by (simp add: less_imp_le)
  show "n \<le> 2 ^ i" if "pow2_exponent n \<le> i"
  proof -
    have "n \<le> 2 ^ pow2_exponent n" unfolding pow2_exponent_def by (rule LeastI) (rule ex)
    also have "\<dots> \<le> 2 ^ i" using that by (rule power_increasing) simp
    finally show ?thesis .
  qed
  show "pow2_exponent n \<le> i" if "n \<le> 2 ^ i" unfolding pow2_exponent_def using that by (rule Least_le)
qed

lemma NbytesToPow2_exp:
  assumes "nbytes \<noteq> 0"
  shows "NbytesToPow2 nbytes = 2 ^ pow2_exponent (unat nbytes)"
proof -
  let ?k = "pow2_exponent (unat nbytes)"
  have n: "unat (nbytes - 1) = unat nbytes - 1" "0 < unat nbytes"
    using assms by (simp_all add: unat_minus_one unat_gt_0)
  have "bit (smear (nbytes - 1)) i \<longleftrightarrow> i < ?k" for i
  proof -
    have "bit (smear (nbytes - 1)) i \<longleftrightarrow> \<not> unat nbytes \<le> 2 ^ i"
      unfolding bit_smear smear_bit_exp using n by linarith
    then show ?thesis by (simp add: pow2_exponent_le [symmetric] not_le)
  qed
  then have "smear (nbytes - 1) = mask ?k"
    by (intro bit_word_eqI) (simp add: bit_mask_iff)
  then show ?thesis by (simp add: smear_def mask_eq_exp_minus_1)
qed

lemma range_empty: "b2_range b = Inr []"
proof -
  obtain n where n: "walk_fuel = Suc n" using walk_fuel_Suc by blast
  show ?thesis unfolding b2_range_def L2_begin_def L2_end_def n by simp
qed

lemma Buffer2_Full_True: "Buffer2_Full d b = Inr True"
  by (simp add: Buffer2_Full_def range_empty)

section \<open>Requests\<close>

lemma pow2_values:
  "NbytesToPow2 0 = 0" "NbytesToPow2 1 = 1" "NbytesToPow2 2 = 2" "NbytesToPow2 4 = 4" "NbytesToPow2 8 = 8"
  "NbytesToPow2 16 = 16" "NbytesToPow2 32 = 32" "NbytesToPow2 64 = 64" "NbytesToPow2 128 = 128"
  "NbytesToPow2 256 = 256" "NbytesToPow2 512 = 512" "NbytesToPow2 1024 = 1024" "NbytesToPow2 2048 = 2048"
  "NbytesToPow2 4096 = 4096" "NbytesToPow2 8192 = 8192" "NbytesToPow2 16384 = 16384" "NbytesToPow2 32768 = 32768"
  "NbytesToPow2 40 = 64"
  by (simp_all add: NbytesToPow2_def)

lemma ucast_exp_u16: "16 \<le> k \<Longrightarrow> (ucast (2 ^ k :: u64) :: u16) = 0"
  by (intro bit_word_eqI) (simp add: bit_simps)

lemma GetBuffer2_values:
  "GetBuffer2 1 = Inl AssertFailed" "GetBuffer2 2 = Inr 0" "GetBuffer2 4 = Inr 0" "GetBuffer2 8 = Inr 0"
  "GetBuffer2 16 = Inr 1" "GetBuffer2 32 = Inr 2" "GetBuffer2 64 = Inr 3" "GetBuffer2 128 = Inr 4"
  "GetBuffer2 256 = Inr 5" "GetBuffer2 512 = Inr 6" "GetBuffer2 1024 = Inr 7" "GetBuffer2 2048 = Inr 8"
  "GetBuffer2 4096 = Inl AssertFailed" "GetBuffer2 8192 = Inl AssertFailed" "GetBuffer2 16384 = Inl AssertFailed"
  "GetBuffer2 32768 = Inl AssertFailed" "GetBuffer2 40 = Inr 3"
  by (simp_all add: GetBuffer2_def Pow2ToIndex_def pow2_values)

lemma GetBuffer2_exp:
  "GetBuffer2 (2 ^ k) = (if 1 \<le> k \<and> k \<le> 11 then Inr (k - 3) else Inl AssertFailed)"
proof (cases "k < 16")
  case True
  then have "k = 0 \<or> k = 1 \<or> k = 2 \<or> k = 3 \<or> k = 4 \<or> k = 5 \<or> k = 6 \<or> k = 7 \<or> k = 8 \<or> k = 9 \<or> k = 10 \<or>
      k = 11 \<or> k = 12 \<or> k = 13 \<or> k = 14 \<or> k = 15" by presburger
  then show ?thesis by (elim disjE) (simp_all add: GetBuffer2_values)
next
  case False
  then have "(ucast (2 ^ k :: u64) :: u16) = 0" by (intro ucast_exp_u16) simp
  with False show ?thesis by (simp add: GetBuffer2_def Pow2ToIndex_def pow2_values)
qed

lemma GetBuffer2_request:
  "GetBuffer2 (NbytesToPow2 bytes) =
     (if 2 \<le> bytes \<and> bytes \<le> 2048 then Inr (pow2_exponent (unat bytes) - 3) else Inl AssertFailed)"
proof (cases "bytes = 0")
  case True
  then show ?thesis by (simp add: GetBuffer2_def Pow2ToIndex_def pow2_values)
next
  case False
  let ?k = "pow2_exponent (unat bytes)"
  have "1 \<le> ?k \<longleftrightarrow> \<not> unat bytes \<le> 2 ^ 0" using pow2_exponent_le [of "unat bytes" 0] by linarith
  moreover have "?k \<le> 11 \<longleftrightarrow> unat bytes \<le> 2048" using pow2_exponent_le [of "unat bytes" 11] by simp
  ultimately show ?thesis
    using False by (simp add: NbytesToPow2_exp GetBuffer2_exp word_le_nat_alt)
qed

lemma extra_list2_faults: "extra_list2 fns local i a = Inl NullDeref"
  by (simp add: extra_list2_def new_LD2_def sizeof_LD2_def pow2_values L2_Allocate_def L2_move_assign_def Let_def
      split: prod.splits)

section \<open>Properties\<close>

text \<open>
  C20. Rounding by shifts agrees with its specification on every 64-bit number: the result is the least power of two
  that is not below the number, and 0 for 0 and for numbers above \<open>2 ^ 63\<close>.
\<close>

theorem NbytesToPow2_least_power:
  "NbytesToPow2 nbytes = (if nbytes = 0 \<or> 2 ^ 63 < nbytes then 0 else 2 ^ (LEAST k. unat nbytes \<le> 2 ^ k))"
proof (cases "nbytes = 0")
  case False
  have "64 \<le> pow2_exponent (unat nbytes) \<longleftrightarrow> \<not> unat nbytes \<le> 2 ^ 63"
    using pow2_exponent_le [of "unat nbytes" 63] by linarith
  then have big: "2 ^ 63 < nbytes \<longleftrightarrow> 64 \<le> pow2_exponent (unat nbytes)" by (simp add: word_less_nat_alt not_le)
  have "(2 :: u64) ^ k = 0" if "64 \<le> k" for k by (rule bit_word_eqI) (use that in \<open>simp add: bit_simps\<close>)
  with False big show ?thesis by (simp add: NbytesToPow2_exp pow2_exponent_def)
qed (simp add: pow2_values)

text \<open>
  C21. The second heap never serves a request: in every state of the allocator and whatever the page functions return,
  a request of 2 to 2048 bytes ends in a write through the null pointer, and every other one (0 and 1 byte, and more than
  2048) halts the kernel.  The loops over a buffer's lists end where they begin, so every buffer counts as full; the
  descriptor built for the extra page is not linked, so its allocation for itself returns null.  The design note of this
  heap promises otherwise: sizes below 8 rounded up to 8 and a null pointer above 2048.
\<close>

theorem AllocateObject2_never_serves:
  "AllocateObject2 fns local bytes a = Inl (if 2 \<le> bytes \<and> bytes \<le> 2048 then NullDeref else AssertFailed)"
proof -
  have "GetBuffer2 sizeof_LD2 = Inr 3"
    by (simp add: sizeof_LD2_def GetBuffer2_values)
  then show ?thesis
    by (simp add: AllocateObject2_def GetBuffer2_request Buffer2_Full_True AllocateList2_def extra_list2_faults
        split: prod.splits)
qed

end
