(* ===== verification/Merofs_Memory.thy ===== *)
theory Merofs_Memory
  imports Ahci_Commands
begin

text \<open>
  The world the file system manager works in: the byte memory its buffers lie in, the sectors of the disks, and the kernel
  heap.  The disk driver of \<open>Ahci_Driver\<close> runs over this world; what the controller does with an issued write command
  is stated as a law about the hardware, from which the driver's write of a sector is derived.
\<close>

section \<open>Bytes\<close>

definition le64 :: "u64 \<Rightarrow> u8 list" where
  "le64 w = map (\<lambda>i. ucast (drop_bit (8 * i) w)) [0..<8]"

primrec of_le :: "u8 list \<Rightarrow> u64" where
  "of_le [] = 0"
| "of_le (b # bs) = ucast b OR push_bit 8 (of_le bs)"

definition put_bytes :: "nat \<Rightarrow> u8 list \<Rightarrow> u8 list \<Rightarrow> u8 list" where
  "put_bytes off bs buf = take off buf @ bs @ drop (off + length bs) buf"

definition get64 :: "nat \<Rightarrow> u8 list \<Rightarrow> u64" where
  "get64 off buf = of_le (take 8 (drop off buf))"

type_synonym byte_mem = "addr \<Rightarrow> u8"

text \<open>Reading \<open>n\<close> bytes at an address, and writing a list of bytes there; addresses wrap around.\<close>

definition peek :: "nat \<Rightarrow> addr \<Rightarrow> byte_mem \<Rightarrow> u8 list" where
  "peek n p m = map (\<lambda>i. m (p + of_nat i)) [0..<n]"

definition poke :: "addr \<Rightarrow> u8 list \<Rightarrow> byte_mem \<Rightarrow> byte_mem" where
  "poke p bs m = (\<lambda>x. if unat (x - p) < length bs then bs ! unat (x - p) else m x)"

definition span :: "addr \<Rightarrow> nat \<Rightarrow> addr set" where
  "span p n = {x. unat (x - p) < n}"

lemma length_peek [simp]: "length (peek n p m) = n"
  by (simp add: peek_def)

lemma length_le64 [simp]: "length (le64 w) = 8"
  by (simp add: le64_def)

lemma length_put_bytes [simp]: "off + length bs \<le> length buf \<Longrightarrow> length (put_bytes off bs buf) = length buf"
  by (simp add: put_bytes_def)

lemma put_bytes_append:
  "length pre = off \<Longrightarrow> length old = length bs \<Longrightarrow> put_bytes off bs (pre @ old @ post) = pre @ bs @ post"
  by (simp add: put_bytes_def)

lemma unat_offset: "i < 2 ^ 64 \<Longrightarrow> unat (p + of_nat i - p :: addr) = i"
  by (simp add: unat_of_nat)

lemma offset_in_span: "i < n \<Longrightarrow> n \<le> 2 ^ 64 \<Longrightarrow> p + of_nat i \<in> span p n"
  using unat_offset [of i p] by (simp add: span_def)

lemma span_offset: "off + k \<le> n \<Longrightarrow> n \<le> 2 ^ 63 \<Longrightarrow> span (p + of_nat off) k \<subseteq> span p n"
proof
  fix x assume n: "off + k \<le> n" "n \<le> 2 ^ 63" and x: "x \<in> span (p + of_nat off) k"
  have "x - p = (x - (p + of_nat off)) + of_nat off" by simp
  moreover have "unat ((x - (p + of_nat off)) + of_nat off) = unat (x - (p + of_nat off)) + off"
    using x n by (subst unat_add_no_wrap) (simp_all add: span_def unat_of_nat)
  ultimately have "unat (x - p) = unat (x - (p + of_nat off)) + off" by simp
  then show "x \<in> span p n" using x n by (simp add: span_def)
qed

lemma span_disjoint:
  assumes "unat p + n \<le> unat q" "unat q + n \<le> 2 ^ 64"
  shows "span p n \<inter> span q n = {}"
proof -
  have "unat r \<le> unat x \<and> unat x < unat r + n" if "x \<in> span r n" "unat r + n \<le> 2 ^ 64" for x r :: addr
  proof -
    have "x = r + (x - r)" by simp
    moreover have "unat (r + (x - r)) = unat r + unat (x - r)"
      using that by (intro unat_add_no_wrap) (simp add: span_def)
    ultimately have "unat x = unat r + unat (x - r)" by simp
    then show ?thesis using that by (simp add: span_def)
  qed
  from this [of _ p] this [of _ q] assms show ?thesis by fastforce
qed

lemma poke_outside: "x \<notin> span p (length bs) \<Longrightarrow> poke p bs m x = m x"
  by (simp add: poke_def span_def)

lemma peek_cong: "(\<And>x. x \<in> span p n \<Longrightarrow> m' x = m x) \<Longrightarrow> n \<le> 2 ^ 64 \<Longrightarrow> peek n p m' = peek n p m"
  unfolding peek_def using offset_in_span [of _ n p] by (intro map_cong) auto

lemma peek_poke_offset:
  assumes "off + length bs \<le> n" "n \<le> 2 ^ 63"
  shows "peek n p (poke (p + of_nat off) bs m) = put_bytes off bs (peek n p m)"
proof (rule nth_equalityI)
  show "length (peek n p (poke (p + of_nat off) bs m)) = length (put_bytes off bs (peek n p m))"
    using assms(1) by simp
  fix i assume "i < length (peek n p (poke (p + of_nat off) bs m))"
  then have i: "i < n" by simp
  have diff: "p + of_nat i - (p + of_nat off) = (of_nat i - of_nat off :: addr)" by simp
  show "peek n p (poke (p + of_nat off) bs m) ! i = put_bytes off bs (peek n p m) ! i"
  proof (cases "off \<le> i")
    case True
    then have "(of_nat i - of_nat off :: addr) = of_nat (i - off)" by (simp add: of_nat_diff)
    moreover have "unat (of_nat (i - off) :: addr) = i - off" using i assms by (simp add: unat_of_nat)
    ultimately have "unat (p + of_nat i - (p + of_nat off)) = i - off" unfolding diff by simp
    with True i assms show ?thesis by (auto simp: peek_def poke_def put_bytes_def nth_append)
  next
    case False
    then have "unat (of_nat i - of_nat off :: addr) = i + 2 ^ 64 - off"
      using i assms by (subst unat_sub_if') (simp add: unat_of_nat)
    then have "unat (p + of_nat i - (p + of_nat off)) = i + 2 ^ 64 - off" unfolding diff .
    with False i assms show ?thesis by (auto simp: peek_def poke_def put_bytes_def nth_append)
  qed
qed

lemma peek_poke: "length bs = n \<Longrightarrow> n \<le> 2 ^ 63 \<Longrightarrow> peek n p (poke p bs m) = bs"
  using peek_poke_offset [of 0 bs n p m] by (simp add: put_bytes_def)

section \<open>Disks and heap\<close>

record 'h world =
  wd_bytes :: byte_mem
  wd_media :: "u8 \<Rightarrow> u64 \<Rightarrow> u8 list"
  wd_heap :: 'h

text \<open>
  The kernel heap's \<open>New\<close> (which may return null) by the size of the object and \<open>Delete\<close>, and the page allocator.  The
  driver's command tables come from the same heap.
\<close>

record 'h heap_fns =
  hp_new :: "nat \<Rightarrow> 'h \<Rightarrow> addr \<times> 'h"
  hp_delete :: "addr \<Rightarrow> 'h \<Rightarrow> 'h"
  hp_palloc :: "'h \<Rightarrow> addr \<times> 'h"
  hp_pfree :: "addr \<Rightarrow> 'h \<Rightarrow> 'h"

definition sizeof_CommandTable :: nat where "sizeof_CommandTable = 144"

definition on_heap :: "('h \<Rightarrow> 'a \<times> 'h) \<Rightarrow> 'h world \<Rightarrow> 'a \<times> 'h world" where
  "on_heap f w = (let (p, h) = f (wd_heap w) in (p, w\<lparr>wd_heap := h\<rparr>))"

definition driver_mm :: "'h heap_fns \<Rightarrow> 'h world mm" where
  "driver_mm hp = \<lparr>mm_new = on_heap (hp_new hp sizeof_CommandTable),
     mm_delete = (\<lambda>p w. w\<lparr>wd_heap := hp_delete hp p (wd_heap w)\<rparr>),
     mm_palloc = on_heap (hp_palloc hp), mm_pfree = (\<lambda>p w. w\<lparr>wd_heap := hp_pfree hp p (wd_heap w)\<rparr>)\<rparr>"

abbreviation bytes_of :: "'h world ahci \<Rightarrow> byte_mem" where
  "bytes_of a \<equiv> wd_bytes (a_heap a)"

abbreviation media_of :: "'h world ahci \<Rightarrow> u8 \<Rightarrow> u64 \<Rightarrow> u8 list" where
  "media_of a \<equiv> wd_media (a_heap a)"

abbreviation heap_of :: "'h world ahci \<Rightarrow> 'h" where
  "heap_of a \<equiv> wd_heap (a_heap a)"

definition on_bytes :: "(byte_mem \<Rightarrow> byte_mem) \<Rightarrow> 'h world ahci \<Rightarrow> 'h world ahci" where
  "on_bytes f a = a\<lparr>a_heap := (a_heap a)\<lparr>wd_bytes := f (bytes_of a)\<rparr>\<rparr>"

definition store_bytes :: "addr \<Rightarrow> u8 list \<Rightarrow> 'h world ahci \<Rightarrow> 'h world ahci" where
  "store_bytes p bs = on_bytes (poke p bs)"

definition heap_New :: "'h heap_fns \<Rightarrow> nat \<Rightarrow> 'h world ahci \<Rightarrow> 'h world ahci \<times> addr" where
  "heap_New hp n a = (let (p, h) = hp_new hp n (heap_of a) in (a\<lparr>a_heap := (a_heap a)\<lparr>wd_heap := h\<rparr>\<rparr>, p))"

definition heap_Delete :: "'h heap_fns \<Rightarrow> addr \<Rightarrow> 'h world ahci \<Rightarrow> 'h world ahci" where
  "heap_Delete hp p a = a\<lparr>a_heap := (a_heap a)\<lparr>wd_heap := hp_delete hp p (heap_of a)\<rparr>\<rparr>"

section \<open>The controller writes a sector\<close>

text \<open>
  A write is issued when it is the only outstanding command of a port whose interrupts are enabled: the slot's header
  describes a frame of five words, a write with one region, and its table holds a write frame for one sector and a region
  of 512 bytes.
\<close>

definition write_issued :: "u8 \<Rightarrow> nat \<Rightarrow> u64 \<Rightarrow> addr \<Rightarrow> 'k ahci \<Rightarrow> bool" where
  "write_issued port s sector buffer w \<longleftrightarrow>
     s < 32 \<and> unat port < length (a_ports w) \<and> ap_registers (a_ports w ! unat port) \<noteq> 0 \<and>
     pr_ci (regs_of (unat port) w) = push_bit s 1 \<and> pr_sact (regs_of (unat port) w) = 0 \<and>
     bit (pr_ie (regs_of (unat port) w)) 0 \<and>
     (let h = slot_header (unat port) s w; t = a_table_mem w (CommandTableBase h)
      in Cfl h = 5 \<and> ch_prdtl h = 1 \<and> bit (ch_p_w_a_cfl h) 6 \<and> command_frame (ct_cfis t) 0x35 sector 1 \<and>
         DataBaseAddress (ct_prdt t ! 0) = buffer \<and> DataByteCount (ct_prdt t ! 0) + 1 = 512)"

text \<open>
  After the write the sector holds the 512 bytes of the buffer, the command is retired and the port's bit of the interrupt
  status is set.  Of the memory only the area \<open>F\<close>, where the controller stores the frames it receives, has changed.
\<close>

definition sector_written :: "addr set \<Rightarrow> u8 \<Rightarrow> u64 \<Rightarrow> addr \<Rightarrow> 'h world ahci \<Rightarrow> 'h world ahci \<Rightarrow> bool" where
  "sector_written F port sector buffer w v \<longleftrightarrow>
     a_ports v = a_ports w \<and> a_disks v = a_disks w \<and> a_hostregs v = a_hostregs w \<and> a_table_mem v = a_table_mem w \<and>
     bit (hr_is (a_host_mem v (a_hostregs v))) (unat port) \<and>
     (\<exists>r. a_port_mem v = (a_port_mem w)(ap_registers (a_ports w ! unat port) := r) \<and> pr_ci r = 0 \<and> pr_sact r = 0 \<and>
        pr_clistb r = pr_clistb (regs_of (unat port) w) \<and> pr_ie r = pr_ie (regs_of (unat port) w)) \<and>
     media_of v = (media_of w)(port := (media_of w port)(sector := peek 512 buffer (bytes_of w))) \<and>
     heap_of v = heap_of w \<and> (\<forall>x. x \<notin> F \<longrightarrow> bytes_of v x = bytes_of w x)"

lemma sector_writtenD:
  assumes "sector_written F port sector buffer w v"
  shows "bit (hr_is (a_host_mem v (a_hostregs v))) (unat port)" "heap_of v = heap_of w"
    "media_of v = (media_of w)(port := (media_of w port)(sector := peek 512 buffer (bytes_of w)))"
    "\<forall>x. x \<notin> F \<longrightarrow> bytes_of v x = bytes_of w x"
  using assms unfolding sector_written_def by blast+

definition performs_writes :: "addr set \<Rightarrow> 'h world hba \<Rightarrow> u8 \<Rightarrow> bool" where
  "performs_writes F hba port \<longleftrightarrow>
     (\<forall>w s sector buffer. write_issued port s sector buffer w \<longrightarrow>
        (\<exists>k. (\<forall>j<k. slot_busy (unat port) (of_nat s) ((hba ^^ j) w)) \<and>
             \<not> slot_busy (unat port) (of_nat s) ((hba ^^ k) w) \<and>
             sector_written F port sector buffer w ((hba ^^ k) w)))"

section \<open>The driver writes a sector\<close>

text \<open>A port that is set up and has no command outstanding.\<close>

definition port_idle :: "u8 \<Rightarrow> 'k ahci \<Rightarrow> bool" where
  "port_idle port w \<longleftrightarrow> unat port < length (a_ports w) \<and> ap_registers (a_ports w ! unat port) \<noteq> 0 \<and>
     pr_clistb (regs_of (unat port) w) \<noteq> 0 \<and> pr_ci (regs_of (unat port) w) = 0 \<and>
     pr_sact (regs_of (unat port) w) = 0 \<and> bit (pr_ie (regs_of (unat port) w)) 0"

text \<open>What the operations of the manager keep of the driver's state.\<close>

definition same_driver :: "'k ahci \<Rightarrow> 'k ahci \<Rightarrow> bool" where
  "same_driver a a' \<longleftrightarrow> a_ports a' = a_ports a \<and> a_disks a' = a_disks a \<and> a_hostregs a' = a_hostregs a \<and>
     (\<forall>port. port_idle port a \<longrightarrow> port_idle port a') \<and>
     (\<forall>t. table_ok (a_table_mem a t) \<longrightarrow> table_ok (a_table_mem a' t))"

lemma same_driver_refl [simp]: "same_driver a a"
  by (simp add: same_driver_def)

lemma same_driver_trans [trans]: "same_driver a b \<Longrightarrow> same_driver b c \<Longrightarrow> same_driver a c"
  by (simp add: same_driver_def)

lemma same_driver_heap: "same_driver a (a\<lparr>a_heap := h\<rparr>)"
  by (simp add: same_driver_def port_idle_def regs_of_def)

lemma same_driver_on_bytes: "same_driver a (on_bytes f a)"
  unfolding on_bytes_def by (rule same_driver_heap)

lemma on_bytes_simps [simp]:
  "bytes_of (on_bytes f a) = f (bytes_of a)" "media_of (on_bytes f a) = media_of a" "heap_of (on_bytes f a) = heap_of a"
  "a_hostregs (on_bytes f a) = a_hostregs a" "a_table_mem (on_bytes f a) = a_table_mem a" "a_disks (on_bytes f a) = a_disks a"
  by (simp_all add: on_bytes_def)

lemma wait_while_at:
  assumes "\<not> busy ((hba ^^ k) w)" "\<forall>j<k. busy ((hba ^^ j) w)"
  shows "wait_while busy hba w = Inr ((hba ^^ k) w)"
proof -
  have "(LEAST k. \<not> busy ((hba ^^ k) w)) = k"
    using assms by (intro Least_equality) (auto simp: not_less [symmetric])
  then show ?thesis using assms(1) by (auto simp: wait_while_def while_option_def)
qed

lemma sector_written_driver:
  assumes "sector_written F port sector buffer w v" "port_idle q u" "a_ports w = a_ports u"
    "\<And>p. p \<noteq> ap_registers (a_ports w ! unat port) \<Longrightarrow> a_port_mem w p = a_port_mem u p"
    "pr_clistb (regs_of (unat port) w) = pr_clistb (regs_of (unat port) u)"
    "pr_ie (regs_of (unat port) w) = pr_ie (regs_of (unat port) u)"
  shows "port_idle q v"
proof -
  let ?p = "ap_registers (a_ports w ! unat port)" and ?q = "ap_registers (a_ports w ! unat q)"
  from assms(1) obtain r where r: "a_port_mem v = (a_port_mem w)(?p := r)" "pr_ci r = 0" "pr_sact r = 0"
      "pr_clistb r = pr_clistb (regs_of (unat port) w)" "pr_ie r = pr_ie (regs_of (unat port) w)" "a_ports v = a_ports w"
    by (auto simp: sector_written_def)
  show ?thesis
  proof (cases "?q = ?p")
    case True
    then show ?thesis using assms(2-) r by (simp add: port_idle_def regs_of_def)
  next
    case False
    then show ?thesis using assms(2-) r by (simp add: port_idle_def regs_of_def)
  qed
qed

lemma write_table_step:
  assumes hw: "performs_writes F hba port" and idle: "port_idle port a" and t: "table \<noteq> 0" "table_ok (a_table_mem a table)"
    and even: "even buffer"
  shows "\<exists>v. WriteSector_table hba port sector buffer table a = Inr v \<and> same_driver a v \<and>
     bit (hr_is (a_host_mem v (a_hostregs v))) (unat port) \<and>
     media_of v = (media_of a)(port := (media_of a port)(sector AND mask 48 := peek 512 buffer (bytes_of a))) \<and>
     heap_of v = heap_of a \<and> (\<forall>x. x \<notin> F \<longrightarrow> bytes_of v x = bytes_of a x)"
proof -
  let ?i = "unat port"
  obtain f where f: "sector_fis 0x35 sector = Inr f" "command_frame (h2d_bytes f) 0x35 (sector AND mask 48) 1"
    using sector_fis_frame by metis
  obtain u where u: "fill_table f buffer table a = Inr (a\<lparr>a_table_mem := (a_table_mem a)(table := u)\<rparr>)"
      "command_frame (ct_cfis u) 0x35 (sector AND mask 48) 1" "DataBaseAddress (ct_prdt u ! 0) = buffer"
      "DataByteCount (ct_prdt u ! 0) + 1 = 512" "table_ok u"
    using fill_table_frame [OF f(2) even t] by blast
  let ?a = "a\<lparr>a_table_mem := (a_table_mem a)(table := u)\<rparr>"
  obtain h where h: "new_CommandHeader table 1 0x04 0x45 = Inr h" "CommandTableBase h = table" "Cfl h = 5"
      "ch_prdtl h = 1" "bit (ch_p_w_a_cfl h) 6" using header_of_table by blast
  have same: "regs_of ?i ?a = regs_of ?i a" by (simp add: regs_of_def)
  have "port_ready ?i ?a"
    using idle by (auto simp: port_ready_def port_idle_def regs_of_def slot_free_bits intro: exI [of _ 0])
  then obtain s where s: "s < 32" "place_command ?i h ?a = Inr
       (?a\<lparr>a_header_mem := (a_header_mem ?a)(ucast (pr_clistb (regs_of ?i ?a)) + 32 * of_nat s := h),
          a_port_mem := (a_port_mem ?a)(ap_registers (a_ports ?a ! ?i) :=
            (regs_of ?i ?a)\<lparr>pr_ci := pr_ci (regs_of ?i ?a) OR push_bit s 1\<rparr>)\<rparr>, of_nat s)"
    (is "_ = Inr (?w, _)") by (rule place_command_ready)
  have "write_issued port s (sector AND mask 48) buffer ?w"
    using s(1) idle u h unfolding write_issued_def port_idle_def
    by (simp add: slot_header_def regs_of_def)
  with hw obtain k where k: "\<forall>j<k. slot_busy ?i (of_nat s) ((hba ^^ j) ?w)" "\<not> slot_busy ?i (of_nat s) ((hba ^^ k) ?w)"
      "sector_written F port (sector AND mask 48) buffer ?w ((hba ^^ k) ?w)"
    unfolding performs_writes_def by meson
  let ?v = "(hba ^^ k) ?w"
  have run: "WriteSector_table hba port sector buffer table a = Inr ?v"
  proof -
    have "Perform hba port h ?a = Inr ?v"
      unfolding Perform_def s(2) rbind_Inr prod.case by (rule wait_while_at [OF k(2,1)])
    then show ?thesis by (simp only: WriteSector_table_def CreateWrite_def f(1) u(1) h(1) rbind_Inr)
  qed
  define v where "v = ?v"
  have v: "sector_written F port (sector AND mask 48) buffer ?w v" unfolding v_def by (rule k(3))
  have idle': "port_idle q v" if "port_idle q a" for q
    by (rule sector_written_driver [OF v that]) (simp_all add: regs_of_def)
  have "same_driver a v"
    using v idle' u(5) by (simp add: same_driver_def sector_written_def)
  moreover have "a_heap ?w = a_heap a" by simp
  note parts = sector_writtenD [OF v, unfolded this]
  ultimately show ?thesis using run unfolding v_def [symmetric] by (intro exI [of _ v] conjI parts)
qed

lemma wait_interrupt_step:
  assumes "bit (hr_is (a_host_mem a (a_hostregs a))) (unat port)" "a_hostregs a \<noteq> 0" "port_idle port a"
  shows "\<exists>v. WaitForPortInterrupt hba port a = Inr v \<and> same_driver a v \<and> a_heap v = a_heap a"
proof -
  let ?i = "unat port"
  have "hr_is (a_host_mem a (a_hostregs a)) AND push_bit ?i 1 \<noteq> 0"
    using assms(1) by (simp add: push_bit_eq_mult and_exp_eq_0)
  then have now: "wait_while (\<lambda>w. \<not> (hr_is (a_host_mem w (a_hostregs w)) AND push_bit ?i 1 \<noteq> 0)) hba a = Inr a"
    by (simp add: wait_while_def while_option_unfold)
  let ?a = "a\<lparr>a_host_mem := (a_host_mem a)(a_hostregs a := (a_host_mem a (a_hostregs a))
      \<lparr>hr_is := hr_is (a_host_mem a (a_hostregs a)) OR push_bit (unat (ucast port :: u32)) 1\<rparr>)\<rparr>"
  let ?v = "?a\<lparr>a_port_mem := (a_port_mem a)(ap_registers (a_ports a ! ?i) := (regs_of ?i a)\<lparr>pr_is := ENABLE_ALL_INTS\<rparr>)\<rparr>"
  have "WaitForPortInterrupt hba port a = Inr ?v"
    using assms(2,3) now
    by (simp add: WaitForPortInterrupt_def host_regs_def ClearIs_at_def host_update_def on_port_regs_def Port_def
        port_idle_def Port_ClearInterruptStatus_def regs_of_def)
  moreover have "port_idle q ?v" if "port_idle q a" for q
    using that assms(3) by (cases "ap_registers (a_ports a ! unat q) = ap_registers (a_ports a ! ?i)")
      (simp_all add: port_idle_def regs_of_def)
  ultimately show ?thesis by (intro exI [of _ ?v]) (simp add: same_driver_def)
qed

text \<open>Writing a sector and waiting for the interrupt.\<close>

lemma write_and_wait:
  assumes hw: "performs_writes F hba port" "port_idle port a" "a_hostregs a \<noteq> 0"
    and t: "table \<noteq> 0" "table_ok (a_table_mem a table)" "even buffer"
  shows "\<exists>v. rbind (WriteSector_table hba port sector buffer table a) (WaitForPortInterrupt hba port) = Inr v \<and>
     same_driver a v \<and> heap_of v = heap_of a \<and>
     media_of v = (media_of a)(port := (media_of a port)(sector AND mask 48 := peek 512 buffer (bytes_of a))) \<and>
     (\<forall>x. x \<notin> F \<longrightarrow> bytes_of v x = bytes_of a x)"
proof -
  from write_table_step [OF hw(1,2) t] obtain u where u: "WriteSector_table hba port sector buffer table a = Inr u"
      "same_driver a u" "bit (hr_is (a_host_mem u (a_hostregs u))) (unat port)"
      "media_of u = (media_of a)(port := (media_of a port)(sector AND mask 48 := peek 512 buffer (bytes_of a)))"
      "heap_of u = heap_of a" "\<forall>x. x \<notin> F \<longrightarrow> bytes_of u x = bytes_of a x" by blast
  have "a_hostregs u \<noteq> 0" "port_idle port u" using u(2) hw(2,3) by (simp_all add: same_driver_def)
  from wait_interrupt_step [OF u(3) this] obtain v where "WaitForPortInterrupt hba port u = Inr v" "same_driver u v"
      "a_heap v = a_heap u" by blast
  with u same_driver_trans [OF u(2)] show ?thesis by (intro exI [of _ v]) simp
qed

text \<open>The same through a table of the heap, as the disk object does it.\<close>

lemma Disk_WritePolled_step:
  assumes hw: "performs_writes F hba (dk_port d)" "port_idle (dk_port d) a" "a_hostregs a \<noteq> 0"
    and t: "hp_new hp sizeof_CommandTable (heap_of a) = (table, h)" "table \<noteq> 0" "even buffer"
  shows "\<exists>v. Disk_WritePolled (driver_mm hp) hba d sector buffer a = Inr v \<and> same_driver a v \<and>
     heap_of v = hp_delete hp table h \<and>
     media_of v = (media_of a)(dk_port d := (media_of a (dk_port d))(ucast sector := peek 512 buffer (bytes_of a))) \<and>
     (\<forall>x. x \<notin> F \<longrightarrow> bytes_of v x = bytes_of a x)"
proof -
  let ?port = "dk_port d"
  let ?a = "a\<lparr>a_heap := (a_heap a)\<lparr>wd_heap := h\<rparr>, a_table_mem := (a_table_mem a)(table := new_CommandTable)\<rparr>"
  have new: "New_CommandTable (driver_mm hp) a = Inr (?a, table)"
    using t by (simp add: New_CommandTable_def driver_mm_def on_heap_def)
  have ok: "table_ok new_CommandTable" by (simp add: table_ok_def new_CommandTable_def PRDT_SLOTS_def)
  then have same: "same_driver a ?a" by (simp add: same_driver_def port_idle_def regs_of_def)
  have "port_idle ?port ?a" "table_ok (a_table_mem ?a table)" using same hw(2) ok by (simp_all add: same_driver_def)
  from write_table_step [OF hw(1) this(1) t(2) this(2) t(3)] obtain u where
      u: "WriteSector_table hba ?port (ucast sector) buffer table ?a = Inr u" "same_driver ?a u"
      "bit (hr_is (a_host_mem u (a_hostregs u))) (unat ?port)"
      "media_of u = (media_of ?a)(?port := (media_of ?a ?port)(ucast sector AND mask 48 := peek 512 buffer (bytes_of ?a)))"
      "heap_of u = heap_of ?a" "\<forall>x. x \<notin> F \<longrightarrow> bytes_of u x = bytes_of ?a x" by blast
  let ?u = "u\<lparr>a_heap := (a_heap u)\<lparr>wd_heap := hp_delete hp table (heap_of u)\<rparr>\<rparr>"
  have su: "same_driver a ?u" using same_driver_trans [OF same u(2)] same_driver_heap by (rule same_driver_trans)
  then have "a_hostregs ?u \<noteq> 0" "port_idle ?port ?u" using hw(2,3) by (simp_all add: same_driver_def)
  moreover have "bit (hr_is (a_host_mem ?u (a_hostregs ?u))) (unat ?port)" using u(3) by simp
  ultimately obtain v where v: "WaitForPortInterrupt hba ?port ?u = Inr v" "same_driver ?u v" "a_heap v = a_heap ?u"
    using wait_interrupt_step by blast
  have low: "(ucast sector :: u64) AND mask 48 = ucast sector"
    by (rule bit_word_eqI) (auto simp: bit_simps dest: bit_imp_le_length)
  have "Disk_WritePolled (driver_mm hp) hba d sector buffer a = Inr v"
    using new u(1) v(1) by (simp add: Disk_WritePolled_def WriteSector_def driver_mm_def)
  with u v low same_driver_trans [OF su v(2)] show ?thesis by (intro exI [of _ v]) simp
qed

end
