(* ===== verification/Merofs_Fd.thy ===== *)
theory Merofs_Fd
  imports Kernel_Prelude "HOL-Library.While_Combinator"
begin

text \<open>
  The file descriptor table of the file system (\<open>kernel/src/fs/merofs/file_descriptor_manager\<close>): chunks of 32
  descriptors in a linked list.  Chunks lie in a map from addresses; the kernel heap's \<open>New\<close> is a parameter.
\<close>

section \<open>State\<close>

type_synonym file_descriptor = u8

definition NULLFD :: file_descriptor where "NULLFD = 0"

definition Fd_IsNull :: "file_descriptor \<Rightarrow> bool" where "Fd_IsNull fd \<longleftrightarrow> fd = NULLFD"

record TableChunk =
  tc_prev :: addr
  tc_next :: addr
  tc_used :: u8
  tc_table :: "file_descriptor list"

definition TABLE_ENTRIES :: u8 where "TABLE_ENTRIES = 32"

definition new_TableChunk :: TableChunk where
  "new_TableChunk = \<lparr>tc_prev = 0, tc_next = 0, tc_used = 0, tc_table = replicate (unat TABLE_ENTRIES) NULLFD\<rparr>"

record 'k FdTable =
  ft_root :: addr
  ft_maxEntries :: u64
  ft_full :: bool
  ft_chunks :: "addr \<Rightarrow> TableChunk"
  ft_heap :: 'k

type_synonym 'k new_fn = "'k \<Rightarrow> addr \<times> 'k"

text \<open>A descriptor is named by its chunk and its index.\<close>

type_synonym fd_ref = "addr \<times> u8"

section \<open>Chunks\<close>

definition Chunk_Full :: "TableChunk \<Rightarrow> bool" where "Chunk_Full c \<longleftrightarrow> tc_used c = TABLE_ENTRIES"

function next_free_loop :: "file_descriptor list \<Rightarrow> nat \<Rightarrow> u8" where
  "next_free_loop table i =
     (if i < length table then (if Fd_IsNull (table ! i) then of_nat i else next_free_loop table (Suc i)) else 0)"
  by pat_completeness auto
termination by (relation "measure (\<lambda>(table, i). length table - i)") auto

declare next_free_loop.simps [simp del]

definition Chunk_NextFree :: "TableChunk \<Rightarrow> u8" where "Chunk_NextFree c = next_free_loop (tc_table c) 0"

definition chunk_at :: "addr \<Rightarrow> 'k FdTable \<Rightarrow> TableChunk result" where
  "chunk_at p t = rbind (guard_ptr p) (\<lambda>_. Inr (ft_chunks t p))"

definition chunk_update :: "addr \<Rightarrow> (TableChunk \<Rightarrow> TableChunk) \<Rightarrow> 'k FdTable \<Rightarrow> 'k FdTable result" where
  "chunk_update p f t =
     rbind (chunk_at p t) (\<lambda>c. Inr (t\<lparr>ft_chunks := (ft_chunks t)(p := f c)\<rparr>))"

definition SetEntry :: "u8 \<Rightarrow> file_descriptor \<Rightarrow> addr \<Rightarrow> 'k FdTable \<Rightarrow> 'k FdTable result" where
  "SetEntry index fd p t =
     rbind (chunk_at p t) (\<lambda>c.
       if unat index < length (tc_table c)
       then chunk_update p (\<lambda>c. c\<lparr>tc_table := (tc_table c)[unat index := fd]\<rparr>) t else Inl OutOfBounds)"

section \<open>The table\<close>

definition New_Chunk :: "'k new_fn \<Rightarrow> 'k FdTable \<Rightarrow> ('k FdTable \<times> addr) result" where
  "New_Chunk new t =
     (let (p, k) = new (ft_heap t)
      in rbind (guard_ptr p) (\<lambda>_. Inr (t\<lparr>ft_heap := k, ft_chunks := (ft_chunks t)(p := new_TableChunk)\<rparr>, p)))"

definition new_FdTable :: "'k new_fn \<Rightarrow> (addr \<Rightarrow> TableChunk) \<Rightarrow> 'k \<Rightarrow> 'k FdTable result" where
  "new_FdTable new chunks k =
     rbind (New_Chunk new \<lparr>ft_root = 0, ft_maxEntries = 0, ft_full = False, ft_chunks = chunks, ft_heap = k\<rparr>)
       (\<lambda>(t, p). Inr (t\<lparr>ft_root := p, ft_maxEntries := ucast TABLE_ENTRIES, ft_full := False\<rparr>))"

text \<open>The loop links the new chunk and goes on.\<close>

definition append_step :: "addr \<Rightarrow> addr \<times> (addr \<Rightarrow> TableChunk) \<Rightarrow> addr \<times> (addr \<Rightarrow> TableChunk)" where
  "append_step allocchunk s =
     (case s of (parent, d) \<Rightarrow>
        if tc_next (d parent) \<noteq> 0 then (tc_next (d parent), d)
        else (parent, d(parent := (d parent)\<lparr>tc_next := allocchunk\<rparr>)))"

definition AllocateChunk :: "'k new_fn \<Rightarrow> 'k FdTable \<Rightarrow> ('k FdTable \<times> addr) result" where
  "AllocateChunk new t =
     rbind (New_Chunk new t) (\<lambda>(t, allocchunk).
       case while_option (\<lambda>(parent, d). parent \<noteq> 0) (append_step allocchunk) (ft_root t, ft_chunks t) of
         None \<Rightarrow> Inl Diverges
       | Some (_, d) \<Rightarrow> Inr (t\<lparr>ft_chunks := d\<rparr>, allocchunk))"

definition Fd_chunk :: "u8 \<Rightarrow> 'k FdTable \<Rightarrow> (addr \<times> u8) result" where
  "Fd_chunk fd t =
     (if TABLE_ENTRIES < fd
      then rbind (chunk_at (ft_root t) t) (\<lambda>c. Inr (tc_next c, fd - TABLE_ENTRIES))
      else Inr (ft_root t, fd))"

definition Fd_Get :: "u8 \<Rightarrow> 'k FdTable \<Rightarrow> fd_ref result" where
  "Fd_Get fd t =
     rbind (Fd_chunk fd t) (\<lambda>(p, i). rbind (chunk_at p t) (\<lambda>c.
       if unat i < length (tc_table c) then Inr (p, i) else Inl OutOfBounds))"

definition Fd_Remove :: "u8 \<Rightarrow> 'k FdTable \<Rightarrow> 'k FdTable result" where
  "Fd_Remove fd t = rbind (Fd_chunk fd t) (\<lambda>(p, i). SetEntry i NULLFD p t)"

text \<open>The search for a chunk with room: the first chunk that is not full, or null behind the last one.\<close>

fun room_walk :: "nat \<Rightarrow> (addr \<Rightarrow> TableChunk) \<Rightarrow> addr \<Rightarrow> addr result" where
  "room_walk 0 d p = Inl Diverges"
| "room_walk (Suc n) d p =
     (if p = 0 then Inr 0 else if Chunk_Full (d p) then room_walk n d (tc_next (d p)) else Inr p)"

definition claim :: "addr \<Rightarrow> 'k FdTable \<Rightarrow> ('k FdTable \<times> fd_ref) result" where
  "claim p t =
     (let freeindex = Chunk_NextFree (ft_chunks t p)
      in rbind (SetEntry freeindex freeindex p t) (\<lambda>t. Inr (t, (p, freeindex))))"

definition Fd_Allocate :: "'k new_fn \<Rightarrow> 'k FdTable \<Rightarrow> ('k FdTable \<times> fd_ref) result" where
  "Fd_Allocate new t =
     rbind (room_walk walk_fuel (ft_chunks t) (ft_root t)) (\<lambda>p.
       if p \<noteq> 0 then claim p t
       else rbind (AllocateChunk new t) (\<lambda>(t, newchunk). claim newchunk t))"

fun count_walk :: "nat \<Rightarrow> (addr \<Rightarrow> TableChunk) \<Rightarrow> addr \<Rightarrow> u64 \<Rightarrow> u64 result" where
  "count_walk 0 d p count = Inl Diverges"
| "count_walk (Suc n) d p count =
     (if tc_next (d p) \<noteq> 0 then count_walk n d (tc_next (d p)) (count + 1) else Inr count)"

definition NumberOfChunks :: "'k FdTable \<Rightarrow> u64 result" where
  "NumberOfChunks t = (if ft_root t = 0 then Inr 0 else count_walk walk_fuel (ft_chunks t) (ft_root t) 0)"

text \<open>The destructor stops before the last chunk.\<close>

fun delete_walk :: "nat \<Rightarrow> (addr \<Rightarrow> 'k \<Rightarrow> 'k) \<Rightarrow> (addr \<Rightarrow> TableChunk) \<Rightarrow> addr \<Rightarrow> 'k \<Rightarrow> 'k result" where
  "delete_walk 0 del d p k = Inl Diverges"
| "delete_walk (Suc n) del d p k =
     (if tc_next (d p) \<noteq> 0 then delete_walk n del d (tc_next (d p)) (del p k) else Inr k)"

definition destroy_FdTable :: "(addr \<Rightarrow> 'k \<Rightarrow> 'k) \<Rightarrow> 'k FdTable \<Rightarrow> 'k result" where
  "destroy_FdTable del t =
     rbind (guard_ptr (ft_root t)) (\<lambda>_. delete_walk walk_fuel del (ft_chunks t) (ft_root t) (ft_heap t))"

text \<open>Whether the descriptor a reference names is null.\<close>

definition Fd_at :: "fd_ref \<Rightarrow> 'k FdTable \<Rightarrow> file_descriptor" where
  "Fd_at r t = tc_table (ft_chunks t (fst r)) ! unat (snd r)"

section \<open>Reachable tables\<close>

datatype fd_op = FdAllocate | FdRemove u8

inductive fd_step :: "'k new_fn \<Rightarrow> 'k FdTable \<Rightarrow> fd_op \<Rightarrow> 'k FdTable \<Rightarrow> bool" for new where
  fd_allocate: "Fd_Allocate new t = Inr (t', r) \<Longrightarrow> fd_step new t FdAllocate t'"
| fd_remove: "Fd_Remove fd t = Inr t' \<Longrightarrow> fd_step new t (FdRemove fd) t'"

inductive_cases fd_allocateE: "fd_step new t FdAllocate t'"
inductive_cases fd_removeE: "fd_step new t (FdRemove fd) t'"

inductive fd_reachable :: "'k new_fn \<Rightarrow> 'k FdTable \<Rightarrow> bool" for new where
  fd_start: "new_FdTable new chunks k = Inr t \<Longrightarrow> fd_reachable new t"
| fd_next: "fd_reachable new t \<Longrightarrow> fd_step new t c t' \<Longrightarrow> fd_reachable new t'"

text \<open>In a reachable table the root chunk is as it was constructed.\<close>

definition fd_inv :: "'k FdTable \<Rightarrow> bool" where
  "fd_inv t \<longleftrightarrow> ft_root t \<noteq> 0 \<and> ft_chunks t (ft_root t) = new_TableChunk"

lemma NextFree_new: "Chunk_NextFree new_TableChunk = 0"
  by (simp add: Chunk_NextFree_def next_free_loop.simps [of _ 0] new_TableChunk_def TABLE_ENTRIES_def Fd_IsNull_def)

lemma new_chunk_set_null: "new_TableChunk\<lparr>tc_table := (tc_table new_TableChunk)[i := NULLFD]\<rparr> = new_TableChunk"
  by (cases "i < 32") (simp_all add: new_TableChunk_def TABLE_ENTRIES_def list_update_same_conv list_update_beyond)

lemma SetEntry_null:
  assumes "fd_inv t" "SetEntry i NULLFD (ft_root t) t = Inr t'"
  shows "t' = t"
proof -
  have "ft_chunks t = (ft_chunks t)(ft_root t := new_TableChunk)" using assms(1) by (auto simp: fd_inv_def)
  then show ?thesis
    using assms new_chunk_set_null [of "unat i"]
    by (auto simp: SetEntry_def chunk_update_def chunk_at_def fd_inv_def split: if_splits)
qed

lemma Fd_Allocate_root:
  assumes "fd_inv t"
  shows "Fd_Allocate new t = Inr (t, (ft_root t, 0))"
proof -
  obtain n where n: "walk_fuel = Suc n" using walk_fuel_Suc ..
  from assms have r: "ft_root t \<noteq> 0" "ft_chunks t (ft_root t) = new_TableChunk" by (simp_all add: fd_inv_def)
  have "\<not> Chunk_Full new_TableChunk" by (simp add: Chunk_Full_def new_TableChunk_def TABLE_ENTRIES_def)
  then have walk: "room_walk walk_fuel (ft_chunks t) (ft_root t) = Inr (ft_root t)" unfolding n using r by simp
  have "0 < length (tc_table new_TableChunk)" by (simp add: new_TableChunk_def TABLE_ENTRIES_def)
  then have "\<exists>t'. SetEntry 0 NULLFD (ft_root t) t = Inr t'"
    using r by (simp add: SetEntry_def chunk_update_def chunk_at_def)
  then have "SetEntry 0 0 (ft_root t) t = Inr t" using SetEntry_null [OF assms] by (auto simp: NULLFD_def)
  with walk r show ?thesis by (simp add: Fd_Allocate_def claim_def NextFree_new)
qed

lemma fd_inv_step:
  assumes "fd_inv t" "fd_step new t c t'"
  shows "t' = t"
proof (cases c)
  case FdAllocate
  with assms show ?thesis using Fd_Allocate_root [OF assms(1)] by (auto elim: fd_allocateE)
next
  case (FdRemove fd)
  with assms(2) have rem: "Fd_Remove fd t = Inr t'" by (auto elim: fd_removeE)
  have "tc_next new_TableChunk = 0" by (simp add: new_TableChunk_def)
  with rem assms(1) have "SetEntry fd NULLFD (ft_root t) t = Inr t'"
    by (auto simp: Fd_Remove_def Fd_chunk_def chunk_at_def fd_inv_def SetEntry_def split: if_splits)
  with assms(1) show ?thesis by (rule SetEntry_null)
qed

lemma fd_inv_reachable: "fd_reachable new t \<Longrightarrow> fd_inv t"
proof (induction rule: fd_reachable.induct)
  case (fd_start chunks k t)
  then show ?case
    by (auto simp: new_FdTable_def New_Chunk_def fd_inv_def rbind_eq_Inr guard_ptr_def split: prod.splits if_splits)
next
  case (fd_next t c t')
  then show ?case using fd_inv_step by metis
qed

section \<open>Properties\<close>

text \<open>
  A descriptor table never hands out a descriptor: after any sequence of allocations and removals, the next
  allocation returns entry 0 of the root chunk, which holds the null descriptor, and leaves the table as it was; so
  two allocations in a row return the same entry.
\<close>

theorem Fd_Allocate_always_null:
  assumes "fd_reachable new t"
  shows "\<exists>t'. Fd_Allocate new t = Inr (t', (ft_root t, 0)) \<and> t' = t \<and> Fd_at (ft_root t, 0) t' = NULLFD"
  using Fd_Allocate_root [OF fd_inv_reachable [OF assms]] fd_inv_reachable [OF assms]
  by (simp add: Fd_at_def fd_inv_def new_TableChunk_def TABLE_ENTRIES_def)

theorem Fd_Allocate_always_null_witness:
  "\<exists>t r. new_FdTable (\<lambda>k. (0x9000, k)) (\<lambda>_. new_TableChunk) () = Inr t \<and>
     Fd_Allocate (\<lambda>k. (0x9000, k)) t = Inr (t, r) \<and> Fd_at r t = NULLFD"
proof -
  obtain t where t: "new_FdTable (\<lambda>k. (0x9000, k)) (\<lambda>_. new_TableChunk) () = Inr t"
    by (simp add: new_FdTable_def New_Chunk_def)
  from Fd_Allocate_always_null [OF fd_start [OF t]] t show ?thesis by blast
qed

text \<open>
  Adding a chunk never ends: the loop that looks for the end of the list of chunks runs until its pointer is null,
  but moves it only along pointers that are not.
\<close>

theorem AllocateChunk_diverges:
  assumes "ft_root t \<noteq> 0" "fst (new (ft_heap t)) \<noteq> 0"
  shows "AllocateChunk new t = Inl Diverges"
proof -
  let ?b = "\<lambda>(parent, d :: addr \<Rightarrow> TableChunk). parent \<noteq> 0" and ?c = "append_step (fst (new (ft_heap t)))"
  have "?b ((?c ^^ n) (ft_root t, d))" for n d
    by (induction n) (use assms in \<open>auto simp: append_step_def split: prod.splits\<close>)
  then have "while_option ?b ?c (ft_root t, d) = None" for d by (auto simp: while_option_def)
  then show ?thesis using assms by (simp add: AllocateChunk_def New_Chunk_def split_beta)
qed

theorem AllocateChunk_diverges_witness:
  "AllocateChunk (\<lambda>k. (0xa000, k))
     \<lparr>ft_root = 0x9000, ft_maxEntries = 32, ft_full = False, ft_chunks = (\<lambda>_. new_TableChunk), ft_heap = ()\<rparr>
   = Inl Diverges"
  by (rule AllocateChunk_diverges) simp_all

end
