(* ===== verification/Merofs.thy ===== *)
theory Merofs
  imports Merofs_Memory Merofs_Fd
begin

text \<open>
  The file system manager (\<open>kernel/src/fs/merofs/mfs_manager\<close>, \<open>superblock\<close>, \<open>disk_inode\<close>, \<open>data_block\<close>): formatting a
  disk and finding blocks on it.  The manager keeps the addresses of four heap objects; their bytes lie in the byte memory
  of \<open>Merofs_Memory\<close>, and sectors move through the driver of \<open>Ahci_Driver\<close>, every failure of which ends the operation.
  Parameters are the kernel heap's functions \<open>hp\<close> and the controller \<open>hba\<close>.  The console output is left out.
\<close>

section \<open>On disk structures\<close>

record SuperBlock =
  totalPhysBlocks :: u64
  totalInodeBlocks :: u64
  totalInodes :: u64
  freeInodes :: u64
  usedInodes :: u64
  totalDataBlocks :: u64
  freeDataBlocks :: u64
  usedDataBlocks :: u64
  freeInodeHead :: u64
  freeDataBlockHead :: u64
  sb_padding :: "u8 list"

definition new_SuperBlock :: "SuperBlock \<Rightarrow> SuperBlock" where
  "new_SuperBlock uninit = uninit\<lparr>totalPhysBlocks := 0xd4d4d4d4d4d4d4d4, totalInodeBlocks := 0xdeadbeefdeadbeef,
     freeInodes := 0xfacefacefaceface, freeDataBlocks := 0xeeeeeeeeeeeeeeee, freeInodeHead := 0xfafafafafafafafa,
     freeDataBlockHead := 0xb2b2b2b2b2b2b2b2, sb_padding := replicate 432 0\<rparr>"

definition sb_bytes :: "SuperBlock \<Rightarrow> u8 list" where
  "sb_bytes sb = concat (map le64 [totalPhysBlocks sb, totalInodeBlocks sb, totalInodes sb, freeInodes sb, usedInodes sb,
     totalDataBlocks sb, freeDataBlocks sb, usedDataBlocks sb, freeInodeHead sb, freeDataBlockHead sb]) @ sb_padding sb"

definition sb_of_bytes :: "u8 list \<Rightarrow> SuperBlock" where
  "sb_of_bytes bs = \<lparr>totalPhysBlocks = get64 0 bs, totalInodeBlocks = get64 8 bs, totalInodes = get64 16 bs,
     freeInodes = get64 24 bs, usedInodes = get64 32 bs, totalDataBlocks = get64 40 bs, freeDataBlocks = get64 48 bs,
     usedDataBlocks = get64 56 bs, freeInodeHead = get64 64 bs, freeDataBlockHead = get64 72 bs, sb_padding = drop 80 bs\<rparr>"

definition sizeof_DiskInode :: nat where "sizeof_DiskInode = 64"
definition sizeof_SuperBlock :: nat where "sizeof_SuperBlock = 512"
definition sizeof_InodeBlock :: nat where "sizeof_InodeBlock = 512"
definition INODES :: nat where "INODES = 7"

text \<open>
  A data block is packed: its flag, then the union of two links and 500 bytes.  The attribute does not reach into the
  union, whose size is a multiple of the links' alignment.
\<close>

definition sizeof_DataBlock :: nat where "sizeof_DataBlock = 1 + 504"

section \<open>State\<close>

text \<open>The manager refers to its disk by the index in the driver's table.\<close>

record mfs =
  fs_superBlockBase :: u64
  fs_inodeBase :: u64
  fs_dataBlockBase :: u64
  fs_disk :: u8
  fs_cmdTable :: addr
  fs_sbBuffer :: addr
  fs_dbBuffer :: addr
  fs_inodeBuffer :: addr

type_synonym 'h fs_state = "mfs \<times> 'h world ahci"

definition SUPER_BLOCK_ADDRESS :: u64 where "SUPER_BLOCK_ADDRESS = 0"

definition Ahci_Disk :: "u8 \<Rightarrow> 'k ahci \<Rightarrow> AhciDisk result" where
  "Ahci_Disk index a = (if unat index < length (a_disks a) then Inr (a_disks a ! unat index) else Inl OutOfBounds)"

text \<open>Reading and writing the super block object.\<close>

definition get_super :: "'h fs_state \<Rightarrow> SuperBlock result" where
  "get_super s = (case s of (w, a) \<Rightarrow>
     rbind (guard_ptr (fs_sbBuffer w)) (\<lambda>_. Inr (sb_of_bytes (peek sizeof_SuperBlock (fs_sbBuffer w) (bytes_of a)))))"

definition put_super :: "SuperBlock \<Rightarrow> 'h fs_state \<Rightarrow> 'h fs_state" where
  "put_super sb s = (case s of (w, a) \<Rightarrow> (w, store_bytes (fs_sbBuffer w) (sb_bytes sb) a))"

section \<open>The super block\<close>

definition FlushSuperBlock :: "'h heap_fns \<Rightarrow> 'h world hba \<Rightarrow> 'h fs_state \<Rightarrow> 'h fs_state result" where
  "FlushSuperBlock hp hba s = (case s of (w, a) \<Rightarrow>
     rbind (Ahci_Disk (fs_disk w) a) (\<lambda>d.
     rbind (Disk_WritePolled (driver_mm hp) hba d 0 (fs_sbBuffer w) a) (\<lambda>a. Inr (w, a))))"

definition InitialiseSuperBlock ::
    "'h heap_fns \<Rightarrow> 'h world hba \<Rightarrow> u64 \<Rightarrow> u64 \<Rightarrow> 'h fs_state \<Rightarrow> 'h fs_state result" where
  "InitialiseSuperBlock hp hba maxInodes maxDataBlocks s =
     rbind (get_super s) (\<lambda>sb.
       let totalInodeBytes = maxInodes * of_nat sizeof_DiskInode;
           inodeSectors = totalInodeBytes div SECTOR_BYTES;
           sb = sb\<lparr>totalInodeBlocks := inodeSectors, totalInodes := maxInodes, freeInodes := maxInodes,
                  usedInodes := 0, totalDataBlocks := maxDataBlocks, freeDataBlocks := maxDataBlocks,
                  usedDataBlocks := 0, freeInodeHead := 0, freeDataBlockHead := 0,
                  totalPhysBlocks := maxDataBlocks + inodeSectors\<rparr>;
           (w, a) = put_super sb s
       in FlushSuperBlock hp hba (w\<lparr>fs_superBlockBase := 0\<rparr>, a))"

section \<open>Inodes\<close>

text \<open>
  A packed inode is its type byte, the union of the block addresses with the link to the next free inode, and 15
  reserved bytes; the link overlays the first direct address.
\<close>

definition InitialiseFreeInode :: "u8 list \<Rightarrow> u64 \<Rightarrow> u8 list" where
  "InitialiseFreeInode inode nextInode =
     (let inode = put_bytes 0 [1] inode;
          inode = fold (\<lambda>i inode. put_bytes (1 + 8 * i) (le64 (0xfffffffffffffff0 + of_nat i)) inode) [0..<4] inode;
          inode = put_bytes 33 (le64 0xaaaaaaaaaaaaaaaa) inode;
          inode = put_bytes 41 (le64 0xeeeeeeeeeeeeeeee) inode;
          inode = put_bytes 1 (le64 nextInode) inode
      in fold (\<lambda>i inode. put_bytes (49 + i) [0x99] inode) [0..<15] inode)"

definition diskinode :: "nat \<Rightarrow> u8 list \<Rightarrow> u8 list" where
  "diskinode j block = take sizeof_DiskInode (drop (sizeof_DiskInode * j) block)"

definition fill_inode_block :: "u8 list \<Rightarrow> u64 \<Rightarrow> u8 list \<times> u64" where
  "fill_inode_block block currentInode =
     fold (\<lambda>j (block, currentInode).
       (put_bytes (sizeof_DiskInode * j) (InitialiseFreeInode (diskinode j block) (currentInode + 1)) block,
        currentInode + 1)) [0..<INODES] (block, currentInode)"

text \<open>One inode sector: the buffer is filled with 0xBB, then its seven inodes are set, then it is written to port 0.\<close>

definition init_inode_sector ::
    "'h world hba \<Rightarrow> nat \<Rightarrow> mfs \<times> 'h world ahci \<times> u64 \<Rightarrow> (mfs \<times> 'h world ahci \<times> u64) result" where
  "init_inode_sector hba currSector s =
     (case s of (w, a, currentInode) \<Rightarrow>
        rbind (guard_ptr (fs_inodeBuffer w)) (\<lambda>_.
          let a = store_bytes (fs_inodeBuffer w) (replicate 512 0xBB) a;
              (block, currentInode) =
                fill_inode_block (peek sizeof_InodeBlock (fs_inodeBuffer w) (bytes_of a)) currentInode;
              a = store_bytes (fs_inodeBuffer w) block a
          in rbind (WriteSector_table hba 0 (fs_inodeBase w + of_nat currSector) (fs_inodeBuffer w) (fs_cmdTable w) a) (\<lambda>a.
             rbind (WaitForPortInterrupt hba 0 a) (\<lambda>a. Inr (w, a, currentInode)))))"

definition InitialiseInodes ::
    "'h heap_fns \<Rightarrow> 'h world hba \<Rightarrow> u64 \<Rightarrow> 'h fs_state \<Rightarrow> ('h fs_state \<times> u64) result" where
  "InitialiseInodes hp hba maxInodes s =
     (case s of (w, a) \<Rightarrow>
        let w = w\<lparr>fs_inodeBase := fs_superBlockBase w + 1\<rparr>
        in rbind (rassert (fs_inodeBase w = 1)) (\<lambda>_.
           let totalInodeBytes = maxInodes * of_nat sizeof_DiskInode;
               inodeSectors = totalInodeBytes div SECTOR_BYTES
           in rbind (for_each (init_inode_sector hba) [0..<unat inodeSectors] (w, a, 0)) (\<lambda>(w, a, _).
              Inr ((w, heap_Delete hp (fs_inodeBuffer w) a), inodeSectors))))"

section \<open>Data blocks\<close>

text \<open>\<open>Memset\<close> writes 512 bytes from the block on, more than the object has.\<close>

definition InitialiseFreeDataBlock :: "addr \<Rightarrow> u64 \<Rightarrow> u64 \<Rightarrow> byte_mem \<Rightarrow> byte_mem" where
  "InitialiseFreeDataBlock dblock blockNumber maxDBlocks m =
     (let m = poke dblock (replicate 512 0xBB) m;
          m = poke dblock [0] m;
          m = poke (dblock + 1) (le64 (if blockNumber = 0 then 0 else blockNumber - 1)) m
      in poke (dblock + 9) (le64 (if blockNumber = maxDBlocks - 1 then 0 else blockNumber + 1)) m)"

definition init_data_sector :: "'h world hba \<Rightarrow> u64 \<Rightarrow> nat \<Rightarrow> 'h fs_state \<Rightarrow> 'h fs_state result" where
  "init_data_sector hba maxDataBlocks currSector s =
     (case s of (w, a) \<Rightarrow>
        let address = fs_dataBlockBase w + of_nat currSector
        in rbind (guard_ptr (fs_dbBuffer w)) (\<lambda>_.
           let a = on_bytes (InitialiseFreeDataBlock (fs_dbBuffer w) (of_nat currSector) maxDataBlocks) a
           in rbind (WriteSector_table hba 0 address (fs_dbBuffer w) (fs_cmdTable w) a) (\<lambda>a.
              rbind (WaitForPortInterrupt hba 0 a) (\<lambda>a. Inr (w, a)))))"

definition InitialiseDataBlocks :: "'h world hba \<Rightarrow> u64 \<Rightarrow> 'h fs_state \<Rightarrow> 'h fs_state result" where
  "InitialiseDataBlocks hba maxDataBlocks = for_each (init_data_sector hba maxDataBlocks) [0..<unat maxDataBlocks]"

section \<open>The manager\<close>

text \<open>The super block is constructed in what the heap's memory holds; the constructors of the blocks write nothing.\<close>

definition New_SuperBlock :: "'h heap_fns \<Rightarrow> 'h world ahci \<Rightarrow> ('h world ahci \<times> addr) result" where
  "New_SuperBlock hp a =
     (let (a, p) = heap_New hp sizeof_SuperBlock a
      in rbind (guard_ptr p) (\<lambda>_.
         Inr (store_bytes p (sb_bytes (new_SuperBlock (sb_of_bytes (peek sizeof_SuperBlock p (bytes_of a))))) a, p)))"

definition InitialiseKernelBuffers :: "'h heap_fns \<Rightarrow> 'h fs_state \<Rightarrow> 'h fs_state result" where
  "InitialiseKernelBuffers hp s =
     (case s of (w, a) \<Rightarrow>
        rbind (New_CommandTable (driver_mm hp) a) (\<lambda>(a, cmdTable).
        rbind (New_SuperBlock hp a) (\<lambda>(a, sbBuffer).
          let (a, dbBuffer) = heap_New hp sizeof_DataBlock a;
              (a, inodeBuffer) = heap_New hp sizeof_InodeBlock a
          in Inr (w\<lparr>fs_cmdTable := cmdTable, fs_sbBuffer := sbBuffer, fs_dbBuffer := dbBuffer,
                    fs_inodeBuffer := inodeBuffer\<rparr>, a))))"

definition new_MfsManager :: "'h heap_fns \<Rightarrow> 'h world hba \<Rightarrow> u8 \<Rightarrow> 'h world ahci \<Rightarrow> 'h fs_state result" where
  "new_MfsManager hp hba disk a =
     (let w = \<lparr>fs_superBlockBase = 0, fs_inodeBase = 0, fs_dataBlockBase = 0, fs_disk = disk, fs_cmdTable = 0,
               fs_sbBuffer = 0, fs_dbBuffer = 0, fs_inodeBuffer = 0\<rparr>
      in rbind (Ahci_Disk disk a) (\<lambda>_.
         rbind (InitialiseKernelBuffers hp (w, a)) (\<lambda>s.
         rbind (InitialiseSuperBlock hp hba 65534 1000 s) (\<lambda>s.
         rbind (get_super s) (\<lambda>sb.
         rbind (InitialiseInodes hp hba (totalInodes sb) s) (\<lambda>((w, a), lastInodeSector).
           let w = w\<lparr>fs_dataBlockBase := lastInodeSector + 1\<rparr>
           in rbind (get_super (w, a)) (\<lambda>sb. InitialiseDataBlocks hba (totalDataBlocks sb) (w, a))))))))"

definition read_super :: "'h world hba \<Rightarrow> 'h fs_state \<Rightarrow> 'h fs_state result" where
  "read_super hba s = (case s of (w, a) \<Rightarrow>
     rbind (ReadSectorPolled_table hba 0 SUPER_BLOCK_ADDRESS (fs_sbBuffer w) (fs_cmdTable w) a) (\<lambda>a. Inr (w, a)))"

definition NextFreeInode :: "'h world hba \<Rightarrow> 'h fs_state \<Rightarrow> ('h fs_state \<times> u64) result" where
  "NextFreeInode hba s =
     rbind (read_super hba s) (\<lambda>s. rbind (get_super s) (\<lambda>sb. Inr (s, freeInodeHead sb)))"

definition NextFreeDataBlock :: "'h world hba \<Rightarrow> 'h fs_state \<Rightarrow> ('h fs_state \<times> u64) result" where
  "NextFreeDataBlock hba s =
     rbind (read_super hba s) (\<lambda>s. rbind (get_super s) (\<lambda>sb. Inr (s, freeDataBlockHead sb)))"

definition InodeBlockAddress :: "u64 \<Rightarrow> 'h fs_state \<Rightarrow> u64 result" where
  "InodeBlockAddress index s =
     (let blockNum = index div 7
      in rbind (get_super s) (\<lambda>sb.
         if blockNum > totalInodeBlocks sb then Inr (- 1) else Inr (blockNum + fs_inodeBase (fst s))))"

definition DataBlockAddress :: "u64 \<Rightarrow> 'h fs_state \<Rightarrow> u64 result" where
  "DataBlockAddress index s =
     rbind (get_super s) (\<lambda>sb.
       if index > totalDataBlocks sb then Inr (- 1) else Inr (index + fs_dataBlockBase (fst s)))"

text \<open>The inode found is copied into a local variable and the function ends.\<close>

definition AllocateInode :: "'h world hba \<Rightarrow> 'h fs_state \<Rightarrow> ('h fs_state \<times> u8 list) result" where
  "AllocateInode hba s =
     rbind (NextFreeInode hba s) (\<lambda>(s, nextInode).
     rbind (InodeBlockAddress nextInode s) (\<lambda>blockAddress.
       let offset = (ucast (nextInode mod 7) :: u8); (w, a) = s
       in rbind (ReadSectorPolled_table hba 0 blockAddress (fs_inodeBuffer w) (fs_cmdTable w) a) (\<lambda>a.
          rbind (guard_ptr (fs_inodeBuffer w)) (\<lambda>_.
            Inr ((w, a), diskinode (unat offset) (peek sizeof_InodeBlock (fs_inodeBuffer w) (bytes_of a)))))))"

section \<open>Reading back what was written\<close>

lemma of_le_le64 [simp]: "of_le (le64 w) = w"
proof -
  have "of_le (map (\<lambda>i. ucast (drop_bit (8 * i) w)) [k..<8]) = drop_bit (8 * k) w" if "k \<le> 8" for k
    using that
  proof (induction k rule: inc_induct)
    case base
    have "drop_bit 64 w = 0" by (rule bit_word_eqI) (simp add: bit_simps)
    then show ?case by simp
  next
    case (step k)
    have "ucast (ucast (drop_bit (8 * k) w) :: u8) OR push_bit 8 (drop_bit (8 * Suc k) w) = drop_bit (8 * k) w"
    proof (rule bit_word_eqI)
      fix n
      have "8 + 8 * k + (n - 8) = 8 * k + n" if "\<not> n < 8" using that by simp
      then show "bit (ucast (ucast (drop_bit (8 * k) w) :: u8) OR push_bit 8 (drop_bit (8 * Suc k) w)) n =
          bit (drop_bit (8 * k) w) n" if "n < LENGTH(64)"
        using that by (cases "n < 8") (auto simp: bit_simps)
    qed
    with step show ?case by (simp add: upt_conv_Cons)
  qed
  from this [of 0] show ?thesis by (simp add: le64_def)
qed

lemma sb_of_sb_bytes:
  assumes "length (sb_padding sb) = 432"
  shows "sb_of_bytes (sb_bytes sb) = sb"
  by (simp add: sb_of_bytes_def sb_bytes_def get64_def)

text \<open>The image of a free inode.\<close>

definition free_inode :: "u64 \<Rightarrow> u8 list" where
  "free_inode nextInode = 1 # le64 nextInode @ le64 0xfffffffffffffff1 @ le64 0xfffffffffffffff2 @
     le64 0xfffffffffffffff3 @ le64 0xaaaaaaaaaaaaaaaa @ le64 0xeeeeeeeeeeeeeeee @ replicate 15 0x99"

lemma length_free_inode [simp]: "length (free_inode nextInode) = 64"
  by (simp add: free_inode_def)

lemma split_length: "length xs = n + m \<Longrightarrow> \<exists>a b. xs = a @ b \<and> length a = n \<and> length b = m"
  by (intro exI [of _ "take n xs"] exI [of _ "drop n xs"]) simp

lemma fold_fill:
  assumes "length pre = n" "k \<le> length r"
  shows "fold (\<lambda>i. put_bytes (n + i) [v]) [0..<k] (pre @ r) = pre @ replicate k v @ drop k r"
  using assms(2)
proof (induction k)
  case (Suc k)
  then obtain x where x: "drop k r = x # drop (Suc k) r" by (metis Cons_nth_drop_Suc Suc_le_lessD)
  have "put_bytes (n + k) [v] ((pre @ replicate k v) @ [x] @ drop (Suc k) r) = (pre @ replicate k v) @ [v] @ drop (Suc k) r"
    by (rule put_bytes_append) (simp_all add: assms(1))
  with Suc x show ?case by (simp add: replicate_append_same [symmetric])
qed simp

lemma InitialiseFreeInode_image:
  assumes "length inode = 64"
  shows "InitialiseFreeInode inode nextInode = free_inode nextInode"
proof -
  have four: "[0..<4] = [0, 1, 2, 3]" by (simp add: upt_rec)
  obtain t u where u: "inode = t @ u" "length t = 1" "length u = 63" using split_length [of inode 1 63] assms by auto
  obtain a v where v: "u = a @ v" "length a = 8" "length v = 55" using split_length [of u 8 55] u by auto
  obtain b x where x: "v = b @ x" "length b = 8" "length x = 47" using split_length [of v 8 47] v by auto
  obtain c y where y: "x = c @ y" "length c = 8" "length y = 39" using split_length [of x 8 39] x by auto
  obtain d z where z: "y = d @ z" "length d = 8" "length z = 31" using split_length [of y 8 31] y by auto
  obtain e z1 where z1: "z = e @ z1" "length e = 8" "length z1 = 23" using split_length [of z 8 23] z by auto
  obtain f r where r: "z1 = f @ r" "length f = 8" "length r = 15" using split_length [of z1 8 15] z1 by auto
  have inode: "inode = t @ a @ b @ c @ d @ e @ f @ r" using u v x y z z1 r by simp
  note len = u(2) v(2) x(2) y(2) z(2) z1(2) r(2,3)
  let ?pre = "[1] @ le64 nextInode @ le64 0xfffffffffffffff1 @ le64 0xfffffffffffffff2 @ le64 0xfffffffffffffff3 @
      le64 0xaaaaaaaaaaaaaaaa @ le64 0xeeeeeeeeeeeeeeee"
  have "InitialiseFreeInode inode nextInode = fold (\<lambda>i. put_bytes (49 + i) [0x99]) [0..<15] (?pre @ r)"
  proof -
    have "put_bytes 1 (le64 nextInode) (put_bytes 41 (le64 0xeeeeeeeeeeeeeeee) (put_bytes 33 (le64 0xaaaaaaaaaaaaaaaa)
        (fold (\<lambda>i inode. put_bytes (1 + 8 * i) (le64 (0xfffffffffffffff0 + of_nat i)) inode) [0..<4]
          (put_bytes 0 [1] (t @ a @ b @ c @ d @ e @ f @ r))))) = ?pre @ r"
      unfolding four by (simp add: put_bytes_def len del: upt_rec_numeral)
    then show ?thesis unfolding InitialiseFreeInode_def Let_def inode by simp
  qed
  also have "\<dots> = ?pre @ replicate 15 0x99 @ drop 15 r"
    by (rule fold_fill) (simp_all add: len)
  finally show ?thesis using len by (simp add: free_inode_def)
qed

section \<open>What formatting writes\<close>

definition inode_images :: "u64 \<Rightarrow> nat \<Rightarrow> u8 list" where
  "inode_images start k = concat (map (\<lambda>j. free_inode (start + of_nat j + 1)) [0..<k])"

lemma length_inode_images [simp]: "length (inode_images start k) = 64 * k"
  by (induction k) (simp_all add: inode_images_def)

lemma fill_inode_block_prefix:
  assumes "k \<le> 8"
  shows "fold (\<lambda>j (block, currentInode).
       (put_bytes (sizeof_DiskInode * j) (InitialiseFreeInode (diskinode j block) (currentInode + 1)) block,
        currentInode + 1)) [0..<k] (replicate 512 0xBB, start)
     = (inode_images start k @ replicate (512 - 64 * k) 0xBB, start + of_nat k)"
  using assms
proof (induction k)
  case (Suc k)
  let ?r = "replicate (512 - 64 * k) (0xBB :: u8)"
  have split: "?r = replicate 64 0xBB @ replicate (512 - 64 * Suc k) 0xBB"
    using Suc.prems by (simp add: replicate_add [symmetric])
  have "diskinode k (inode_images start k @ ?r) = replicate 64 0xBB"
    using Suc.prems by (simp add: diskinode_def sizeof_DiskInode_def min_def)
  then have ino: "InitialiseFreeInode (diskinode k (inode_images start k @ ?r)) (start + of_nat k + 1)
      = free_inode (start + of_nat k + 1)" by (simp add: InitialiseFreeInode_image)
  have "put_bytes (64 * k) (free_inode (start + of_nat k + 1))
      (inode_images start k @ replicate 64 0xBB @ replicate (512 - 64 * Suc k) 0xBB)
    = inode_images start k @ free_inode (start + of_nat k + 1) @ replicate (512 - 64 * Suc k) 0xBB"
    by (rule put_bytes_append) simp_all
  then have put: "put_bytes (sizeof_DiskInode * k) (free_inode (start + of_nat k + 1)) (inode_images start k @ ?r)
    = inode_images start (Suc k) @ replicate (512 - 64 * Suc k) 0xBB"
    unfolding split by (simp add: sizeof_DiskInode_def inode_images_def)
  show ?case using Suc ino put by (simp add: algebra_simps)
qed (simp add: inode_images_def)

lemma fill_inode_block_image:
  "fill_inode_block (replicate 512 0xBB) start = (inode_images start 7 @ replicate 64 0xBB, start + 7)"
  using fill_inode_block_prefix [of 7 start] by (simp add: fill_inode_block_def INODES_def)

definition with_inodes :: "nat \<Rightarrow> (u64 \<Rightarrow> u8 list) \<Rightarrow> u64 \<Rightarrow> u8 list" where
  "with_inodes k m = (\<lambda>a. if 1 \<le> unat a \<and> unat a \<le> k
     then inode_images (of_nat (7 * (unat a - 1))) 7 @ replicate 64 0xBB else m a)"

lemma low48: "unat (a :: u64) < 2 ^ 48 \<Longrightarrow> a AND mask 48 = a"
  by (simp add: take_bit_eq_mask [symmetric] word_unat_eq_iff unsigned_take_bit_eq take_bit_nat_eq_self)

lemma low48_index: "unat (b :: u64) < 2 ^ 47 \<Longrightarrow> k < 2 ^ 47 \<Longrightarrow> unat (b + of_nat k) = unat b + k \<and> (b + of_nat k) AND mask 48 = b + of_nat k"
proof -
  assume h: "unat b < 2 ^ 47" "k < 2 ^ 47"
  then have "unat (b + of_nat k) = unat b + k" by (subst unat_add_no_wrap) (simp_all add: unat_of_nat)
  then show ?thesis using h by (intro conjI low48) simp_all
qed

lemma for_each_append: "for_each f (xs @ ys) s = rbind (for_each f xs s) (for_each f ys)"
  by (induction xs arbitrary: s) (simp_all add: rbind_def split: sum.splits)

lemma for_each_Suc: "for_each f [0..<Suc k] s = rbind (for_each f [0..<k] s) (f k)"
proof -
  have "for_each f [k] = f k" by (rule ext) (simp add: rbind_def split: sum.splits)
  then show ?thesis by (simp add: for_each_append del: for_each.simps)
qed

text \<open>Writing through the manager's own table to port 0.\<close>

definition table_ready :: "addr set \<Rightarrow> 'h world hba \<Rightarrow> addr \<Rightarrow> 'h world ahci \<Rightarrow> bool" where
  "table_ready F hba t a \<longleftrightarrow> performs_writes F hba 0 \<and> port_idle 0 a \<and> a_hostregs a \<noteq> 0 \<and> t \<noteq> 0 \<and> table_ok (a_table_mem a t)"

lemma table_ready_same: "same_driver a a' \<Longrightarrow> table_ready F hba t a \<Longrightarrow> table_ready F hba t a'"
  by (simp add: table_ready_def same_driver_def)

lemma write_port0:
  assumes "table_ready F hba t a" "even buffer"
  shows "\<exists>v. rbind (WriteSector_table hba 0 sector buffer t a) (WaitForPortInterrupt hba 0) = Inr v \<and>
     same_driver a v \<and> heap_of v = heap_of a \<and>
     media_of v = (media_of a)(0 := (media_of a 0)(sector AND mask 48 := peek 512 buffer (bytes_of a))) \<and>
     (\<forall>x. x \<notin> F \<longrightarrow> bytes_of v x = bytes_of a x)"
  using write_and_wait [of F hba 0 a t buffer sector] assms by (simp add: table_ready_def)

section \<open>The inode sectors\<close>

lemma with_inodes_Suc:
  assumes "k < 2 ^ 47"
  shows "(with_inodes k m)(1 + of_nat k := inode_images (of_nat (7 * k)) 7 @ replicate 64 0xBB) = with_inodes (Suc k) m"
proof
  fix x :: u64
  have u: "unat (1 + of_nat k :: u64) = Suc k" using assms by (simp add: unat_word_ariths unat_of_nat)
  have eq: "x = 1 + of_nat k \<longleftrightarrow> unat x = Suc k" using u by (metis word_unat_eq_iff)
  show "((with_inodes k m)(1 + of_nat k := inode_images (of_nat (7 * k)) 7 @ replicate 64 0xBB)) x = with_inodes (Suc k) m x"
  proof (cases "x = 1 + of_nat k")
    case True
    have "unat x - 1 = k" "1 \<le> unat x" "unat x \<le> Suc k" using u True by simp_all
    then show ?thesis unfolding with_inodes_def using True by simp
  next
    case False
    with eq have "unat x \<le> Suc k \<longleftrightarrow> unat x \<le> k" by linarith
    with False show ?thesis unfolding with_inodes_def by simp
  qed
qed

lemma init_inode_step:
  assumes "table_ready F hba (fs_cmdTable w) a" "fs_inodeBuffer w \<noteq> 0" "even (fs_inodeBuffer w)" "fs_inodeBase w = 1"
    "k < 2 ^ 47"
  shows "\<exists>v. init_inode_sector hba k (w, a, of_nat (7 * k)) = Inr (w, v, of_nat (7 * Suc k)) \<and> same_driver a v \<and>
     heap_of v = heap_of a \<and>
     media_of v = (media_of a)(0 := (media_of a 0)(1 + of_nat k := inode_images (of_nat (7 * k)) 7 @ replicate 64 0xBB)) \<and>
     (\<forall>x. x \<notin> F \<union> span (fs_inodeBuffer w) 512 \<longrightarrow> bytes_of v x = bytes_of a x)"
proof -
  let ?ib = "fs_inodeBuffer w" and ?img = "inode_images (of_nat (7 * k)) 7 @ replicate 64 (0xBB :: u8)"
  let ?c = "store_bytes ?ib ?img (store_bytes ?ib (replicate 512 0xBB) a)"
  have same: "same_driver a ?c"
    unfolding store_bytes_def by (rule same_driver_trans [OF same_driver_on_bytes same_driver_on_bytes])
  have img: "length ?img = 512" by simp
  have filled: "peek 512 ?ib (bytes_of (store_bytes ?ib (replicate 512 0xBB) a)) = replicate 512 0xBB"
    unfolding store_bytes_def on_bytes_simps by (rule peek_poke) simp_all
  have buf: "peek 512 ?ib (bytes_of ?c) = ?img"
    unfolding store_bytes_def on_bytes_simps by (rule peek_poke) (simp_all del: replicate.simps)
  from write_port0 [OF table_ready_same [OF same assms(1)] assms(3), of "1 + of_nat k"] obtain v where
      v: "rbind (WriteSector_table hba 0 (1 + of_nat k) ?ib (fs_cmdTable w) ?c) (WaitForPortInterrupt hba 0) = Inr v"
      "same_driver ?c v" "heap_of v = heap_of ?c"
      "media_of v = (media_of ?c)(0 := (media_of ?c 0)((1 + of_nat k) AND mask 48 := peek 512 ?ib (bytes_of ?c)))"
      "\<forall>x. x \<notin> F \<longrightarrow> bytes_of v x = bytes_of ?c x" by blast
  have sector: "(1 + of_nat k) AND mask 48 = (1 + of_nat k :: u64)" using low48_index [of 1 k] assms(5) by simp
  have "init_inode_sector hba k (w, a, of_nat (7 * k)) =
      rbind (rbind (WriteSector_table hba 0 (1 + of_nat k) ?ib (fs_cmdTable w) ?c) (WaitForPortInterrupt hba 0))
        (\<lambda>a. Inr (w, a, of_nat (7 * k) + 7))"
    using assms(2,4) filled
    by (simp add: init_inode_sector_def sizeof_InodeBlock_def fill_inode_block_image rbind_def split: sum.splits)
  then have run: "init_inode_sector hba k (w, a, of_nat (7 * k)) = Inr (w, v, of_nat (7 * Suc k))"
    unfolding v(1) by (simp add: algebra_simps)
  have "bytes_of v x = bytes_of a x" if "x \<notin> F \<union> span ?ib 512" for x
  proof -
    have "bytes_of v x = poke ?ib ?img (poke ?ib (replicate 512 0xBB) (bytes_of a)) x"
      using v(5) that by (simp add: store_bytes_def)
    also have "\<dots> = bytes_of a x" using that img by (simp add: poke_outside)
    finally show ?thesis .
  qed
  moreover have "media_of v = (media_of a)(0 := (media_of a 0)(1 + of_nat k := ?img))"
    using v(4) unfolding buf sector by (simp add: store_bytes_def)
  moreover have "heap_of v = heap_of a" using v(3) by (simp add: store_bytes_def)
  ultimately show ?thesis using run same_driver_trans [OF same v(2)] by blast
qed

lemma init_inode_loop:
  assumes "table_ready F hba (fs_cmdTable w) a" "fs_inodeBuffer w \<noteq> 0" "even (fs_inodeBuffer w)" "fs_inodeBase w = 1"
    "k < 2 ^ 47"
  shows "\<exists>v. for_each (init_inode_sector hba) [0..<k] (w, a, 0) = Inr (w, v, of_nat (7 * k)) \<and> same_driver a v \<and>
     heap_of v = heap_of a \<and> media_of v = (media_of a)(0 := with_inodes k (media_of a 0)) \<and>
     (\<forall>x. x \<notin> F \<union> span (fs_inodeBuffer w) 512 \<longrightarrow> bytes_of v x = bytes_of a x)"
  using assms(5)
proof (induction k)
  case 0
  have "with_inodes 0 m = m" for m by (rule ext) (auto simp: with_inodes_def)
  then show ?case by simp
next
  case (Suc k)
  from Suc.IH [OF Suc_lessD [OF Suc.prems]] obtain u where
      u: "for_each (init_inode_sector hba) [0..<k] (w, a, 0) = Inr (w, u, of_nat (7 * k))"
      "same_driver a u" "heap_of u = heap_of a" "media_of u = (media_of a)(0 := with_inodes k (media_of a 0))"
      "\<forall>x. x \<notin> F \<union> span (fs_inodeBuffer w) 512 \<longrightarrow> bytes_of u x = bytes_of a x"
    by blast
  have k: "k < 2 ^ 47" using Suc.prems by simp
  from init_inode_step [OF table_ready_same [OF u(2) assms(1)] assms(2-4) k] obtain v where
      v: "init_inode_sector hba k (w, u, of_nat (7 * k)) = Inr (w, v, of_nat (7 * Suc k))" "same_driver u v"
      "heap_of v = heap_of u"
      "media_of v = (media_of u)(0 := (media_of u 0)(1 + of_nat k := inode_images (of_nat (7 * k)) 7 @ replicate 64 0xBB))"
      "\<forall>x. x \<notin> F \<union> span (fs_inodeBuffer w) 512 \<longrightarrow> bytes_of v x = bytes_of u x" by blast
  have "for_each (init_inode_sector hba) [0..<Suc k] (w, a, 0) = Inr (w, v, of_nat (7 * Suc k))"
    unfolding for_each_Suc u(1) rbind_Inr by (rule v(1))
  moreover have "media_of v = (media_of a)(0 := with_inodes (Suc k) (media_of a 0))"
    unfolding v(4) u(4) with_inodes_Suc [OF k, symmetric] by simp
  ultimately show ?case using u(3,5) v(3,5) same_driver_trans [OF u(2) v(2)] by auto
qed

section \<open>The data blocks\<close>

definition data_image :: "nat \<Rightarrow> nat \<Rightarrow> u8 list" where
  "data_image i n = 0 # le64 (if i = 0 then 0 else of_nat (i - 1)) @ le64 (if i = n - 1 then 0 else of_nat (i + 1)) @
     replicate 495 0xBB"

definition with_blocks :: "nat \<Rightarrow> nat \<Rightarrow> nat \<Rightarrow> (u64 \<Rightarrow> u8 list) \<Rightarrow> u64 \<Rightarrow> u8 list" where
  "with_blocks base n k m = (\<lambda>a. if base \<le> unat a \<and> unat a < base + k then data_image (unat a - base) n else m a)"

lemma InitialiseFreeDataBlock_image:
  assumes "i < n" "n < 2 ^ 47"
  shows "peek 512 p (InitialiseFreeDataBlock p (of_nat i) (of_nat n) m) = data_image i n"
proof -
  have big: "replicate 512 (0xBB :: u8) = replicate 1 0xBB @ replicate 8 0xBB @ replicate 8 0xBB @ replicate 495 0xBB"
    by (simp add: replicate_add [symmetric] del: replicate.simps)
  have "of_nat i = (of_nat n - 1 :: u64) \<longleftrightarrow> i = n - 1"
  proof -
    have "(of_nat n - 1 :: u64) = of_nat (n - 1)" using assms by (simp add: of_nat_diff)
    moreover have "of_nat i = (of_nat (n - 1) :: u64) \<longleftrightarrow> i = n - 1"
    proof -
      have "unat (of_nat i :: u64) = i" "unat (of_nat (n - 1) :: u64) = n - 1"
        by (subst unat_of_nat; use assms in simp)+
      then show ?thesis unfolding word_unat_eq_iff by presburger
    qed
    ultimately show ?thesis by presburger
  qed
  moreover have "of_nat i = (0 :: u64) \<longleftrightarrow> i = 0" using assms by (simp add: word_unat_eq_iff unat_of_nat)
  moreover have "i \<noteq> 0 \<Longrightarrow> of_nat i - 1 = (of_nat (i - 1) :: u64)" by (simp add: of_nat_diff)
  moreover have "peek 512 p (poke p (replicate 512 0xBB) m) = replicate 512 0xBB"
    by (rule peek_poke) simp_all
  moreover note peek_poke_offset [of 0 "[0]" 512 p] peek_poke_offset [of 1 _ 512 p] peek_poke_offset [of 9 _ 512 p]
  ultimately show ?thesis
    by (simp add: InitialiseFreeDataBlock_def data_image_def big put_bytes_def Let_def add.commute del: replicate.simps)
qed

lemma InitialiseFreeDataBlock_outside:
  assumes "x \<notin> span p 512"
  shows "InitialiseFreeDataBlock p i n m x = m x"
proof -
  have "span (p + of_nat 1) 8 \<subseteq> span p 512" "span (p + of_nat 9) 8 \<subseteq> span p 512" "span (p + of_nat 0) 1 \<subseteq> span p 512"
    by (rule span_offset; simp)+
  with assms have "x \<notin> span (p + 1) 8" "x \<notin> span (p + 9) 8" "x \<notin> span p 1" by auto
  with assms show ?thesis by (simp add: InitialiseFreeDataBlock_def Let_def poke_outside)
qed

lemma with_blocks_Suc:
  assumes "unat b + k < 2 ^ 48"
  shows "(with_blocks (unat b) n k m)(b + of_nat k := data_image k n) = with_blocks (unat b) n (Suc k) m"
proof -
  have u: "unat (b + of_nat k) = unat b + k" using assms by (subst unat_add_no_wrap) (simp_all add: unat_of_nat)
  have "x = b + of_nat k \<longleftrightarrow> unat x = unat b + k" for x using u by (metis word_unat_eq_iff)
  then show ?thesis by (intro ext) (auto simp: with_blocks_def)
qed

lemma init_data_step:
  assumes "table_ready F hba (fs_cmdTable w) a" "fs_dbBuffer w \<noteq> 0" "even (fs_dbBuffer w)"
    "unat (fs_dataBlockBase w) < 2 ^ 47" "k < n" "n < 2 ^ 47"
  shows "\<exists>v. init_data_sector hba (of_nat n) k (w, a) = Inr (w, v) \<and> same_driver a v \<and> heap_of v = heap_of a \<and>
     media_of v = (media_of a)(0 := (media_of a 0)(fs_dataBlockBase w + of_nat k := data_image k n)) \<and>
     (\<forall>x. x \<notin> F \<union> span (fs_dbBuffer w) 512 \<longrightarrow> bytes_of v x = bytes_of a x) \<and>
     (span (fs_dbBuffer w) 512 \<inter> F = {} \<longrightarrow> peek 512 (fs_dbBuffer w) (bytes_of v) = data_image k n)"
proof -
  let ?db = "fs_dbBuffer w" and ?at = "fs_dataBlockBase w + of_nat k"
  let ?f = "InitialiseFreeDataBlock ?db (of_nat k) (of_nat n)"
  let ?c = "on_bytes ?f a"
  have img: "peek 512 ?db (bytes_of ?c) = data_image k n"
    unfolding on_bytes_simps by (rule InitialiseFreeDataBlock_image [OF assms(5,6)])
  note same = same_driver_on_bytes [of a ?f]
  from write_port0 [OF table_ready_same [OF same assms(1)] assms(3), of ?at] obtain v where
      v: "rbind (WriteSector_table hba 0 ?at ?db (fs_cmdTable w) ?c) (WaitForPortInterrupt hba 0) = Inr v"
      "same_driver ?c v" "heap_of v = heap_of ?c"
      "media_of v = (media_of ?c)(0 := (media_of ?c 0)(?at AND mask 48 := peek 512 ?db (bytes_of ?c)))"
      "\<forall>x. x \<notin> F \<longrightarrow> bytes_of v x = bytes_of ?c x" by blast
  have sector: "?at AND mask 48 = ?at" using low48_index [of "fs_dataBlockBase w" k] assms(4-6) by simp
  have "init_data_sector hba (of_nat n) k (w, a) =
      rbind (rbind (WriteSector_table hba 0 ?at ?db (fs_cmdTable w) ?c) (WaitForPortInterrupt hba 0)) (\<lambda>a. Inr (w, a))"
    using assms(2) by (simp add: init_data_sector_def rbind_def split: sum.splits)
  then have run: "init_data_sector hba (of_nat n) k (w, a) = Inr (w, v)" unfolding v(1) by simp
  have "peek 512 ?db (bytes_of v) = data_image k n" if "span ?db 512 \<inter> F = {}"
  proof -
    have "peek 512 ?db (bytes_of v) = peek 512 ?db (bytes_of ?c)" by (rule peek_cong) (use that v(5) in auto)
    with img show ?thesis by simp
  qed
  moreover have "bytes_of v x = bytes_of a x" if "x \<notin> F \<union> span ?db 512" for x
    using that v(5) by (simp add: InitialiseFreeDataBlock_outside)
  moreover have "media_of v = (media_of a)(0 := (media_of a 0)(?at := data_image k n))"
    using v(4) unfolding img sector by simp
  ultimately show ?thesis using run v(3) same_driver_trans [OF same v(2)] by simp
qed

lemma init_data_loop:
  assumes "table_ready F hba (fs_cmdTable w) a" "fs_dbBuffer w \<noteq> 0" "even (fs_dbBuffer w)"
    "unat (fs_dataBlockBase w) < 2 ^ 47" "k \<le> n" "n < 2 ^ 47"
  shows "\<exists>v. for_each (init_data_sector hba (of_nat n)) [0..<k] (w, a) = Inr (w, v) \<and> same_driver a v \<and>
     heap_of v = heap_of a \<and>
     media_of v = (media_of a)(0 := with_blocks (unat (fs_dataBlockBase w)) n k (media_of a 0)) \<and>
     (\<forall>x. x \<notin> F \<union> span (fs_dbBuffer w) 512 \<longrightarrow> bytes_of v x = bytes_of a x) \<and>
     (0 < k \<and> span (fs_dbBuffer w) 512 \<inter> F = {} \<longrightarrow> peek 512 (fs_dbBuffer w) (bytes_of v) = data_image (k - 1) n)"
  using assms(5)
proof (induction k)
  case 0
  have "with_blocks b n 0 m = m" for b m by (rule ext) (auto simp: with_blocks_def)
  then show ?case by simp
next
  case (Suc k)
  let ?b = "fs_dataBlockBase w"
  from Suc.IH [OF Suc_leD [OF Suc.prems]] obtain u where
      u: "for_each (init_data_sector hba (of_nat n)) [0..<k] (w, a) = Inr (w, u)"
      "same_driver a u" "heap_of u = heap_of a" "media_of u = (media_of a)(0 := with_blocks (unat ?b) n k (media_of a 0))"
      "\<forall>x. x \<notin> F \<union> span (fs_dbBuffer w) 512 \<longrightarrow> bytes_of u x = bytes_of a x"
    by blast
  have k: "k < n" "unat ?b + k < 2 ^ 48" using Suc.prems assms(4,6) by simp_all
  from init_data_step [OF table_ready_same [OF u(2) assms(1)] assms(2-4) k(1) assms(6)] obtain v where
      v: "init_data_sector hba (of_nat n) k (w, u) = Inr (w, v)" "same_driver u v" "heap_of v = heap_of u"
      "media_of v = (media_of u)(0 := (media_of u 0)(?b + of_nat k := data_image k n))"
      "\<forall>x. x \<notin> F \<union> span (fs_dbBuffer w) 512 \<longrightarrow> bytes_of v x = bytes_of u x"
      "span (fs_dbBuffer w) 512 \<inter> F = {} \<longrightarrow> peek 512 (fs_dbBuffer w) (bytes_of v) = data_image k n" by blast
  have "for_each (init_data_sector hba (of_nat n)) [0..<Suc k] (w, a) = Inr (w, v)"
    unfolding for_each_Suc u(1) rbind_Inr by (rule v(1))
  moreover have "media_of v = (media_of a)(0 := with_blocks (unat ?b) n (Suc k) (media_of a 0))"
    unfolding v(4) u(4) with_blocks_Suc [OF k(2), symmetric] by simp
  ultimately show ?case using u(3,5) v(3,5,6) same_driver_trans [OF u(2) v(2)] by auto
qed

end
