(* ===== verification/Merofs_Format.thy ===== *)
theory Merofs_Format
  imports Merofs
begin

text \<open>
  Formatting a disk, run through: what the media hold afterwards, what happens when the heap has no object to give, and
  what is wrong with the layout.
\<close>

section \<open>What the heap and the controller have to offer\<close>

text \<open>
  The objects the heap serves for formatting, in this order: the command table, the super block, the data block and the
  inode block of the manager, and the command table for the flush of the super block.  Any of them may be null.
\<close>

definition heap_serves :: "'h heap_fns \<Rightarrow> 'h \<Rightarrow> addr \<Rightarrow> addr \<Rightarrow> addr \<Rightarrow> addr \<Rightarrow> addr \<Rightarrow> bool" where
  "heap_serves hp h table sb db ib table2 \<longleftrightarrow>
     (\<exists>h1 h2 h3 h4 h5. hp_new hp sizeof_CommandTable h = (table, h1) \<and> hp_new hp sizeof_SuperBlock h1 = (sb, h2) \<and>
        hp_new hp sizeof_DataBlock h2 = (db, h3) \<and> hp_new hp sizeof_InodeBlock h3 = (ib, h4) \<and>
        hp_new hp sizeof_CommandTable h4 = (table2, h5))"

text \<open>
  The buffers are even addresses; the super block shares no byte with the 512 bytes from the data block and from the inode
  block on, and the controller's receive area \<open>F\<close> none with the super block and the 512 bytes from the data block on.
\<close>

definition buffers_apart :: "addr set \<Rightarrow> addr \<Rightarrow> addr \<Rightarrow> addr \<Rightarrow> bool" where
  "buffers_apart F sb db ib \<longleftrightarrow> even sb \<and> even db \<and> even ib \<and> span sb 512 \<inter> span db 512 = {} \<and>
     span sb 512 \<inter> span ib 512 = {} \<and> span sb 512 \<inter> F = {} \<and> span db 512 \<inter> F = {}"

text \<open>The disk exists, and its port and port 0 are idle ports of a controller that performs writes.\<close>

definition disk_ready :: "addr set \<Rightarrow> 'h world hba \<Rightarrow> u8 \<Rightarrow> u8 \<Rightarrow> 'h world ahci \<Rightarrow> bool" where
  "disk_ready F hba disk port a \<longleftrightarrow> unat disk < length (a_disks a) \<and> port = dk_port (a_disks a ! unat disk) \<and>
     a_hostregs a \<noteq> 0 \<and> port_idle 0 a \<and> port_idle port a \<and> performs_writes F hba 0 \<and> performs_writes F hba port"

lemma disk_ready_same: "same_driver a a' \<Longrightarrow> disk_ready F hba disk port a \<Longrightarrow> disk_ready F hba disk port a'"
  by (auto simp: disk_ready_def same_driver_def)

lemma disk_ready_disk:
  "disk_ready F hba disk port a \<Longrightarrow> \<exists>d. Ahci_Disk disk a = Inr d \<and> dk_port d = port"
  by (simp add: disk_ready_def Ahci_Disk_def)

lemma heap_New_same: "heap_New hp n a = (a', p) \<Longrightarrow> same_driver a a'"
  unfolding heap_New_def by (auto simp: same_driver_heap split: prod.splits)

section \<open>The stages\<close>

lemma length_super: "length (sb_bytes (new_SuperBlock x)) = 512"
  by (simp add: sb_bytes_def new_SuperBlock_def)

lemma kernel_buffers_stage:
  assumes "heap_serves hp (heap_of a) t sb db ib u"
  shows "if t = 0 \<or> sb = 0 then InitialiseKernelBuffers hp (w, a) = Inl NullDeref
     else \<exists>v x. InitialiseKernelBuffers hp (w, a) = Inr (w\<lparr>fs_cmdTable := t, fs_sbBuffer := sb, fs_dbBuffer := db,
         fs_inodeBuffer := ib\<rparr>, v) \<and> same_driver a v \<and> table_ok (a_table_mem v t) \<and> media_of v = media_of a \<and>
       fst (hp_new hp sizeof_CommandTable (heap_of v)) = u \<and>
       peek 512 sb (bytes_of v) = sb_bytes (new_SuperBlock x)"
proof -
  from assms obtain h1 h2 h3 h4 h5 where h: "hp_new hp sizeof_CommandTable (heap_of a) = (t, h1)"
      "hp_new hp sizeof_SuperBlock h1 = (sb, h2)" "hp_new hp sizeof_DataBlock h2 = (db, h3)"
      "hp_new hp sizeof_InodeBlock h3 = (ib, h4)" "hp_new hp sizeof_CommandTable h4 = (u, h5)"
    unfolding heap_serves_def by blast
  show ?thesis
  proof (cases "t = 0 \<or> sb = 0")
    case True
    then show ?thesis using h(1,2)
      by (auto simp: InitialiseKernelBuffers_def New_CommandTable_def New_SuperBlock_def driver_mm_def on_heap_def
          heap_New_def guard_ptr_def)
  next
    case False
    let ?x = "sb_of_bytes (peek sizeof_SuperBlock sb (bytes_of a))"
    let ?v = "(store_bytes sb (sb_bytes (new_SuperBlock ?x)) a)
      \<lparr>a_table_mem := (a_table_mem a)(t := new_CommandTable),
       a_heap := (a_heap (store_bytes sb (sb_bytes (new_SuperBlock ?x)) a))\<lparr>wd_heap := h4\<rparr>\<rparr>"
    have run: "InitialiseKernelBuffers hp (w, a) = Inr (w\<lparr>fs_cmdTable := t, fs_sbBuffer := sb, fs_dbBuffer := db,
         fs_inodeBuffer := ib\<rparr>, ?v)"
      using False h by (simp add: InitialiseKernelBuffers_def New_CommandTable_def New_SuperBlock_def driver_mm_def
          on_heap_def heap_New_def store_bytes_def on_bytes_def)
    have "table_ok new_CommandTable" by (simp add: table_ok_def new_CommandTable_def PRDT_SLOTS_def)
    then have "same_driver a ?v" "table_ok (a_table_mem ?v t)"
      by (simp_all add: same_driver_def port_idle_def regs_of_def store_bytes_def on_bytes_def)
    moreover have "peek 512 sb (bytes_of ?v) = sb_bytes (new_SuperBlock ?x)"
      using length_super by (simp add: store_bytes_def peek_poke)
    moreover have "media_of ?v = media_of a" "fst (hp_new hp sizeof_CommandTable (heap_of ?v)) = u"
      using h(5) by (simp_all add: store_bytes_def)
    ultimately show ?thesis using run False by auto
  qed
qed

definition formatted_super :: "SuperBlock" where
  "formatted_super = \<lparr>totalPhysBlocks = 9191, totalInodeBlocks = 8191, totalInodes = 65534, freeInodes = 65534,
     usedInodes = 0, totalDataBlocks = 1000, freeDataBlocks = 1000, usedDataBlocks = 0, freeInodeHead = 0,
     freeDataBlockHead = 0, sb_padding = replicate 432 0\<rparr>"

lemma formatted_super_bytes: "length (sb_bytes formatted_super) = 512" "sb_of_bytes (sb_bytes formatted_super) = formatted_super"
proof -
  show "length (sb_bytes formatted_super) = 512" by (simp add: sb_bytes_def formatted_super_def)
  show "sb_of_bytes (sb_bytes formatted_super) = formatted_super"
    by (rule sb_of_sb_bytes) (simp add: formatted_super_def)
qed

lemma super_stage:
  assumes ready: "disk_ready F hba (fs_disk w) port a" and sb: "fs_sbBuffer w \<noteq> 0" "even (fs_sbBuffer w)"
    and new: "peek 512 (fs_sbBuffer w) (bytes_of a) = sb_bytes (new_SuperBlock x)"
  shows "if fst (hp_new hp sizeof_CommandTable (heap_of a)) = 0
     then InitialiseSuperBlock hp hba 65534 1000 (w, a) = Inl NullDeref
     else \<exists>v. InitialiseSuperBlock hp hba 65534 1000 (w, a) = Inr (w\<lparr>fs_superBlockBase := 0\<rparr>, v) \<and> same_driver a v \<and>
       media_of v = (media_of a)(port := (media_of a port)(0 := sb_bytes formatted_super)) \<and>
       (span (fs_sbBuffer w) 512 \<inter> F = {} \<longrightarrow> peek 512 (fs_sbBuffer w) (bytes_of v) = sb_bytes formatted_super)"
proof -
  let ?sb = "fs_sbBuffer w"
  let ?c = "store_bytes ?sb (sb_bytes formatted_super) a"
  have "sb_of_bytes (sb_bytes (new_SuperBlock x)) = new_SuperBlock x"
    by (rule sb_of_sb_bytes) (simp add: new_SuperBlock_def)
  then have get: "get_super (w, a) = Inr (new_SuperBlock x)"
    using sb(1) new by (simp add: get_super_def sizeof_SuperBlock_def)
  have set: "(new_SuperBlock x)\<lparr>totalInodeBlocks := 8191, totalInodes := 65534, freeInodes := 65534,
      usedInodes := 0, totalDataBlocks := 1000, freeDataBlocks := 1000, usedDataBlocks := 0, freeInodeHead := 0,
      freeDataBlockHead := 0, totalPhysBlocks := 9191\<rparr> = formatted_super"
    by (rule SuperBlock.equality) (simp_all add: new_SuperBlock_def formatted_super_def)
  have init: "InitialiseSuperBlock hp hba 65534 1000 (w, a) = FlushSuperBlock hp hba (w\<lparr>fs_superBlockBase := 0\<rparr>, ?c)"
    by (simp add: InitialiseSuperBlock_def get put_super_def sizeof_DiskInode_def SECTOR_BYTES_def Let_def set)
  have same: "same_driver a ?c" unfolding store_bytes_def by (rule same_driver_on_bytes)
  note rdy = disk_ready_same [OF same ready]
  from disk_ready_disk [OF rdy] obtain d where d: "Ahci_Disk (fs_disk w) ?c = Inr d" "dk_port d = port" by blast
  have buf: "peek 512 ?sb (bytes_of ?c) = sb_bytes formatted_super"
    using formatted_super_bytes(1) by (simp add: store_bytes_def peek_poke)
  have heap: "heap_of ?c = heap_of a" "media_of ?c = media_of a" by (simp_all add: store_bytes_def)
  obtain u h where u: "hp_new hp sizeof_CommandTable (heap_of a) = (u, h)" by fastforce
  show ?thesis
  proof (cases "u = 0")
    case True
    then show ?thesis using init u d(1)
      by (simp add: FlushSuperBlock_def Disk_WritePolled_def WriteSector_def New_CommandTable_def driver_mm_def
          on_heap_def heap guard_ptr_def)
  next
    case False
    have "performs_writes F hba (dk_port d)" "port_idle (dk_port d) ?c" "a_hostregs ?c \<noteq> 0"
      using rdy unfolding d(2) by (auto simp: disk_ready_def)
    moreover have "hp_new hp sizeof_CommandTable (heap_of ?c) = (u, h)" using u heap(1) by simp
    ultimately obtain v where v: "Disk_WritePolled (driver_mm hp) hba d 0 ?sb ?c = Inr v" "same_driver ?c v"
        "media_of v = (media_of ?c)(dk_port d := (media_of ?c (dk_port d))(ucast (0 :: u16) := peek 512 ?sb (bytes_of ?c)))"
        "\<forall>x. x \<notin> F \<longrightarrow> bytes_of v x = bytes_of ?c x"
      using Disk_WritePolled_step [of F hba d ?c hp u h ?sb 0] False sb(2) by blast
    have "peek 512 ?sb (bytes_of v) = sb_bytes formatted_super" if "span ?sb 512 \<inter> F = {}"
    proof -
      have "peek 512 ?sb (bytes_of v) = peek 512 ?sb (bytes_of ?c)" by (rule peek_cong) (use that v(4) in auto)
      with buf show ?thesis by simp
    qed
    moreover have "media_of v = (media_of a)(port := (media_of a port)(0 := sb_bytes formatted_super))"
      using v(3) unfolding buf heap(2) d(2) by simp
    moreover have "InitialiseSuperBlock hp hba 65534 1000 (w, a) = Inr (w\<lparr>fs_superBlockBase := 0\<rparr>, v)"
      unfolding init by (simp add: FlushSuperBlock_def d(1) v(1))
    ultimately show ?thesis using False u same_driver_trans [OF same v(2)] by simp
  qed
qed

lemma inode_stage:
  assumes "table_ready F hba (fs_cmdTable w) a" "even (fs_inodeBuffer w)" "fs_superBlockBase w = 0"
  shows "if fs_inodeBuffer w = 0 then InitialiseInodes hp hba 65534 (w, a) = Inl NullDeref
     else \<exists>v. InitialiseInodes hp hba 65534 (w, a) = Inr ((w\<lparr>fs_inodeBase := 1\<rparr>, v), 8191) \<and> same_driver a v \<and>
       media_of v = (media_of a)(0 := with_inodes 8191 (media_of a 0)) \<and>
       (\<forall>x. x \<notin> F \<union> span (fs_inodeBuffer w) 512 \<longrightarrow> bytes_of v x = bytes_of a x)"
proof -
  let ?w = "w\<lparr>fs_inodeBase := 1\<rparr>"
  have init: "InitialiseInodes hp hba 65534 (w, a) = rbind (for_each (init_inode_sector hba) [0..<8191] (?w, a, 0))
      (\<lambda>(w, a, _). Inr ((w, heap_Delete hp (fs_inodeBuffer w) a), 8191))"
    using assms(3) by (simp add: InitialiseInodes_def sizeof_DiskInode_def SECTOR_BYTES_def del: upt_rec_numeral)
  show ?thesis
  proof (cases "fs_inodeBuffer w = 0")
    case True
    have "[0..<8191] = 0 # [Suc 0..<8191]" by (rule upt_conv_Cons) simp
    then have "for_each (init_inode_sector hba) [0..<8191] (?w, a, 0) = Inl NullDeref"
      using True by (simp add: init_inode_sector_def guard_ptr_def del: upt_rec_numeral)
    with True show ?thesis unfolding init by simp
  next
    case False
    have "table_ready F hba (fs_cmdTable ?w) a" "fs_inodeBuffer ?w \<noteq> 0" "even (fs_inodeBuffer ?w)" "fs_inodeBase ?w = 1"
      using assms False by simp_all
    from init_inode_loop [OF this, of 8191] obtain v where
        v: "for_each (init_inode_sector hba) [0..<8191] (?w, a, 0) = Inr (?w, v, of_nat (7 * 8191))" "same_driver a v"
        "media_of v = (media_of a)(0 := with_inodes 8191 (media_of a 0))"
        "\<forall>x. x \<notin> F \<union> span (fs_inodeBuffer w) 512 \<longrightarrow> bytes_of v x = bytes_of a x"
      by (fastforce simp del: upt_rec_numeral)
    let ?v = "heap_Delete hp (fs_inodeBuffer w) v"
    have "same_driver a ?v"
      unfolding heap_Delete_def by (rule same_driver_trans [OF v(2) same_driver_heap])
    moreover have "media_of ?v = media_of v" "bytes_of ?v = bytes_of v" by (simp_all add: heap_Delete_def)
    ultimately show ?thesis using False v(3,4) unfolding init v(1) by simp
  qed
qed

lemma data_stage:
  assumes "table_ready F hba (fs_cmdTable w) a" "even (fs_dbBuffer w)" "fs_dataBlockBase w = 8192"
  shows "if fs_dbBuffer w = 0 then InitialiseDataBlocks hba 1000 (w, a) = Inl NullDeref
     else \<exists>v. InitialiseDataBlocks hba 1000 (w, a) = Inr (w, v) \<and>
       media_of v = (media_of a)(0 := with_blocks 8192 1000 1000 (media_of a 0)) \<and>
       (\<forall>x. x \<notin> F \<union> span (fs_dbBuffer w) 512 \<longrightarrow> bytes_of v x = bytes_of a x) \<and>
       (span (fs_dbBuffer w) 512 \<inter> F = {} \<longrightarrow> peek 512 (fs_dbBuffer w) (bytes_of v) = data_image 999 1000)"
proof (cases "fs_dbBuffer w = 0")
  case True
  have "[0..<1000] = 0 # [Suc 0..<1000]" by (rule upt_conv_Cons) simp
  with True show ?thesis
    by (simp add: InitialiseDataBlocks_def init_data_sector_def guard_ptr_def del: upt_rec_numeral)
next
  case False
  from init_data_loop [OF assms(1) False assms(2), of 1000 1000] assms(3) False show ?thesis
    by (simp add: InitialiseDataBlocks_def del: upt_rec_numeral) blast
qed

section \<open>Formatting a disk\<close>

text \<open>What formatting leaves on the media of the disk's port and of port 0.\<close>

definition formatted_media :: "u8 \<Rightarrow> (u8 \<Rightarrow> u64 \<Rightarrow> u8 list) \<Rightarrow> u8 \<Rightarrow> u64 \<Rightarrow> u8 list" where
  "formatted_media port m =
     (let m = m(port := (m port)(0 := sb_bytes formatted_super))
      in m(0 := with_blocks 8192 1000 1000 (with_inodes 8191 (m 0))))"

lemma new_MfsManager_run:
  assumes ready: "disk_ready F hba disk port a" and heap: "heap_serves hp (heap_of a) t sb db ib u"
    and apart: "buffers_apart F sb db ib"
  shows "if t = 0 \<or> sb = 0 \<or> u = 0 \<or> ib = 0 \<or> db = 0 then new_MfsManager hp hba disk a = Inl NullDeref
     else \<exists>w' a'. new_MfsManager hp hba disk a = Inr (w', a') \<and> fs_inodeBase w' = 1 \<and> fs_dataBlockBase w' = 8192 \<and>
       get_super (w', a') = Inr formatted_super \<and> media_of a' = formatted_media port (media_of a) \<and>
       peek 512 db (bytes_of a') = data_image 999 1000"
proof -
  let ?start = "\<lparr>fs_superBlockBase = 0, fs_inodeBase = 0, fs_dataBlockBase = 0, fs_disk = disk, fs_cmdTable = 0,
               fs_sbBuffer = 0, fs_dbBuffer = 0, fs_inodeBuffer = 0\<rparr>"
  let ?w = "?start\<lparr>fs_cmdTable := t, fs_sbBuffer := sb, fs_dbBuffer := db, fs_inodeBuffer := ib\<rparr>"
  from disk_ready_disk [OF ready] obtain d where d: "Ahci_Disk disk a = Inr d" by blast
  note new = new_MfsManager_def [of hp hba disk a, unfolded d rbind_Inr Let_def]
  show ?thesis
  proof (cases "t = 0 \<or> sb = 0")
    case True
    with kernel_buffers_stage [OF heap, of ?start] have "InitialiseKernelBuffers hp (?start, a) = Inl NullDeref" by simp
    with True show ?thesis unfolding new by auto
  next
    case ok: False
    from kernel_buffers_stage [OF heap, of ?start] obtain b x where
        b: "InitialiseKernelBuffers hp (?start, a) = Inr (?w, b)" "same_driver a b" "table_ok (a_table_mem b t)"
        "media_of b = media_of a" "fst (hp_new hp sizeof_CommandTable (heap_of b)) = u"
        "peek 512 sb (bytes_of b) = sb_bytes (new_SuperBlock x)"
      unfolding if_not_P [OF ok] by blast
    have "disk_ready F hba (fs_disk ?w) port b" "fs_sbBuffer ?w \<noteq> 0" "even (fs_sbBuffer ?w)"
      "peek 512 (fs_sbBuffer ?w) (bytes_of b) = sb_bytes (new_SuperBlock x)"
      using disk_ready_same [OF b(2) ready] ok apart b(6) by (simp_all add: buffers_apart_def)
    note super = super_stage [OF this, of hp, unfolded b(5)]
    show ?thesis
    proof (cases "u = 0")
      case True
      with super show ?thesis unfolding new b(1) by simp
    next
      case u: False
      let ?w1 = "?w\<lparr>fs_superBlockBase := 0\<rparr>"
      from super obtain c where c: "InitialiseSuperBlock hp hba 65534 1000 (?w, b) = Inr (?w1, c)" "same_driver b c"
          "media_of c = (media_of b)(port := (media_of b port)(0 := sb_bytes formatted_super))"
          "span (fs_sbBuffer ?w) 512 \<inter> F = {} \<longrightarrow> peek 512 (fs_sbBuffer ?w) (bytes_of c) = sb_bytes formatted_super"
        unfolding if_not_P [OF u] by blast
      have sbc: "peek 512 sb (bytes_of c) = sb_bytes formatted_super" using c(4) apart by (simp add: buffers_apart_def)
      then have get: "get_super (?w1, c) = Inr formatted_super"
        using ok formatted_super_bytes(2) by (simp add: get_super_def sizeof_SuperBlock_def)
      have ac: "same_driver a c" using b(2) c(2) by (rule same_driver_trans)
      have tr: "table_ready F hba (fs_cmdTable ?w1) c"
        using disk_ready_same [OF ac ready] b(3) c(2) ok by (simp add: table_ready_def disk_ready_def same_driver_def)
      have total: "totalInodes formatted_super = 65534" "totalDataBlocks formatted_super = 1000"
        by (simp_all add: formatted_super_def)
      have "even (fs_inodeBuffer ?w1)" "fs_superBlockBase ?w1 = 0" using apart by (simp_all add: buffers_apart_def)
      note inodes = inode_stage [OF tr this, of hp]
      show ?thesis
      proof (cases "ib = 0")
        case True
        with inodes get show ?thesis unfolding new b(1) rbind_Inr c(1) by (simp add: total)
      next
        case ib: False
        let ?w2 = "?w1\<lparr>fs_inodeBase := 1, fs_dataBlockBase := 8192\<rparr>"
        from inodes ib obtain e where e: "InitialiseInodes hp hba 65534 (?w1, c) = Inr ((?w1\<lparr>fs_inodeBase := 1\<rparr>, e), 8191)"
            "same_driver c e" "media_of e = (media_of c)(0 := with_inodes 8191 (media_of c 0))"
            "\<forall>x. x \<notin> F \<union> span ib 512 \<longrightarrow> bytes_of e x = bytes_of c x" by auto
        have "peek 512 sb (bytes_of e) = peek 512 sb (bytes_of c)"
          by (rule peek_cong) (use e(4) apart in \<open>auto simp: buffers_apart_def\<close>)
        then have gete: "get_super (?w2, e) = Inr formatted_super" and sbe: "peek 512 sb (bytes_of e) = sb_bytes formatted_super"
          using ok sbc formatted_super_bytes(2) by (simp_all add: get_super_def sizeof_SuperBlock_def)
        have "table_ready F hba (fs_cmdTable ?w2) e" "even (fs_dbBuffer ?w2)" "fs_dataBlockBase ?w2 = 8192"
          using table_ready_same [OF e(2) tr] apart by (simp_all add: buffers_apart_def)
        note data = data_stage [OF this]
        have eight: "8191 + 1 = (8192 :: u64)" by simp
        have last: "new_MfsManager hp hba disk a = InitialiseDataBlocks hba 1000 (?w2, e)"
          unfolding new b(1) rbind_Inr c(1) get total e(1) prod.case eight gete ..
        show ?thesis
        proof (cases "db = 0")
          case True
          with data last show ?thesis by simp
        next
          case db: False
          from data db obtain a' where a': "InitialiseDataBlocks hba 1000 (?w2, e) = Inr (?w2, a')"
              "media_of a' = (media_of e)(0 := with_blocks 8192 1000 1000 (media_of e 0))"
              "\<forall>x. x \<notin> F \<union> span db 512 \<longrightarrow> bytes_of a' x = bytes_of e x"
              "span db 512 \<inter> F = {} \<longrightarrow> peek 512 db (bytes_of a') = data_image 999 1000" by auto
          have "peek 512 sb (bytes_of a') = peek 512 sb (bytes_of e)"
            by (rule peek_cong) (use a'(3) apart in \<open>auto simp: buffers_apart_def\<close>)
          then have "get_super (?w2, a') = Inr formatted_super"
            using ok sbe formatted_super_bytes(2) by (simp add: get_super_def sizeof_SuperBlock_def)
          moreover have "media_of a' = formatted_media port (media_of a)"
            unfolding a'(2) e(3) c(3) b(4) formatted_media_def Let_def by simp
          moreover have "peek 512 db (bytes_of a') = data_image 999 1000" using a'(4) apart by (simp add: buffers_apart_def)
          ultimately show ?thesis using ok u ib db last a'(1) by simp
        qed
      qed
    qed
  qed
qed


lemma diskinode_image:
  assumes "j < k"
  shows "diskinode j (inode_images start k @ r) = free_inode (start + of_nat j + 1)"
proof -
  let ?f = "\<lambda>j. free_inode (start + of_nat j + 1)"
  have "[0..<k] = [0..<j] @ j # [Suc j..<k]"
    using assms upt_add_eq_append [of 0 j "k - j"] upt_conv_Cons [of j k] by simp
  then have "inode_images start k @ r = inode_images start j @ ?f j @ (concat (map ?f [Suc j..<k]) @ r)"
    by (simp add: inode_images_def)
  then show ?thesis by (simp add: diskinode_def sizeof_DiskInode_def)
qed

lemma free_inode_link: "get64 (Suc 0) (free_inode n) = n"
  by (simp add: get64_def free_inode_def)

lemma data_image_links:
  "get64 (Suc 0) (data_image i n) = (if i = 0 then 0 else of_nat (i - 1))"
  "get64 9 (data_image i n) = (if i = n - 1 then 0 else of_nat (i + 1))" "hd (data_image i n) = 0"
  "drop 505 (data_image i n) = replicate 7 0xBB"
  by (simp_all add: get64_def data_image_def del: replicate.simps)

lemma formatted_super_counts: "totalInodeBlocks formatted_super = 8191" "totalDataBlocks formatted_super = 1000"
    "totalInodes formatted_super = 65534"
  by (simp_all add: formatted_super_def)

lemma formatted_inode:
  assumes "idx < 57337" "get_super (w, a) = Inr formatted_super" "fs_inodeBase w = 1"
  shows "\<exists>b. InodeBlockAddress (of_nat idx) (w, a) = Inr b \<and>
     diskinode (idx mod 7) (with_blocks 8192 1000 1000 (with_inodes 8191 m) b) = free_inode (of_nat idx + 1)"
proof -
  have q: "idx div 7 < 8191" using assms(1) by (simp add: less_mult_imp_div_less)
  have "(of_nat idx div 7 :: u64) = of_nat (idx div 7)"
    using assms(1) unfolding word_unat_eq_iff by (simp add: unat_div unat_of_nat)
  then have "InodeBlockAddress (of_nat idx) (w, a) = Inr (of_nat (idx div 7) + 1)"
    using assms q by (simp add: InodeBlockAddress_def formatted_super_counts word_less_nat_alt unat_of_nat)
  moreover have u: "unat (of_nat (idx div 7) + 1 :: u64) = idx div 7 + 1"
    using q by (simp add: unat_word_ariths unat_of_nat)
  then have "with_blocks 8192 1000 1000 (with_inodes 8191 m) (of_nat (idx div 7) + 1) =
      inode_images (of_nat (7 * (idx div 7))) 7 @ replicate 64 0xBB"
    using q by (simp add: with_blocks_def with_inodes_def del: of_nat_mult)
  moreover have "(of_nat (7 * (idx div 7)) + of_nat (idx mod 7) :: u64) = of_nat idx"
    by (metis of_nat_add mult_div_mod_eq)
  ultimately show ?thesis by (intro exI conjI) (assumption, simp add: diskinode_image del: of_nat_mult)
qed

lemma formatted_block:
  assumes "i < 1000" "get_super (w, a) = Inr formatted_super" "fs_dataBlockBase w = 8192"
  shows "\<exists>b. DataBlockAddress (of_nat i) (w, a) = Inr b \<and> with_blocks 8192 1000 1000 m b = data_image i 1000"
proof -
  have "unat (of_nat i + 8192 :: u64) = i + 8192" "\<not> 1000 < (of_nat i :: u64)"
    using assms(1) by (simp_all add: unat_word_ariths unat_of_nat word_less_nat_alt)
  then show ?thesis using assms by (simp add: DataBlockAddress_def formatted_super_counts with_blocks_def)
qed

lemma formatted_media_parts:
  "formatted_media port m port 0 = sb_bytes formatted_super"
  "\<exists>m'. formatted_media port m 0 = with_blocks 8192 1000 1000 (with_inodes 8191 m')"
proof -
  show "formatted_media port m port 0 = sb_bytes formatted_super"
    by (simp add: formatted_media_def Let_def with_blocks_def with_inodes_def)
  show "\<exists>m'. formatted_media port m 0 = with_blocks 8192 1000 1000 (with_inodes 8191 m')"
    by (intro exI) (simp add: formatted_media_def Let_def)
qed

section \<open>A disk, a heap and a controller\<close>

text \<open>
  A controller with one port that performs the outstanding write in one step, storing no frames in memory, and a heap that
  hands out a page for every object.
\<close>

definition writing_hba :: "'h world hba" where
  "writing_hba w =
     (case find (\<lambda>s. pr_ci (regs_of 0 w) = push_bit s 1) [0..<32] of None \<Rightarrow> w
      | Some s \<Rightarrow> let t = a_table_mem w (CommandTableBase (slot_header 0 s w))
          in w\<lparr>a_port_mem := (a_port_mem w)(ap_registers (a_ports w ! 0) := (regs_of 0 w)\<lparr>pr_ci := 0\<rparr>),
               a_host_mem := (a_host_mem w)(a_hostregs w := (a_host_mem w (a_hostregs w))
                 \<lparr>hr_is := hr_is (a_host_mem w (a_hostregs w)) OR 1\<rparr>),
               a_heap := (a_heap w)\<lparr>wd_media := (media_of w)(0 := (media_of w 0)
                 (frame_lba (ct_cfis t) := peek 512 (DataBaseAddress (ct_prdt t ! 0)) (bytes_of w)))\<rparr>\<rparr>)"

definition page_heap :: "addr heap_fns" where
  "page_heap = \<lparr>hp_new = (\<lambda>n h. (h, h + 0x1000)), hp_delete = (\<lambda>p h. h), hp_palloc = (\<lambda>h. (h, h + 0x1000)),
     hp_pfree = (\<lambda>p h. h)\<rparr>"

definition one_disk :: "'h \<Rightarrow> 'h world ahci" where
  "one_disk h = \<lparr>a_present = True, a_enabled = True, a_abar = 0, a_mmioBase = 0, a_hostregs = 0x1000,
     a_ports = [some_port], a_disks = [\<lparr>dk_port = 0, dk_totalSectors = 0x10000\<rparr>],
     a_host_mem = (\<lambda>_. \<lparr>hr_cap = 0, hr_ghc = 0, hr_is = 0, hr_pi = 1\<rparr>),
     a_port_mem = (\<lambda>_. zero_port_regs\<lparr>pr_clistb := 0x2000, pr_ie := 1\<rparr>),
     a_header_mem = (\<lambda>_. \<lparr>ch_p_w_a_cfl = 0, ch_pmp_c_b_r = 0, ch_prdtl = 0, ch_prdbc = 0, ch_ctba = 0, ch_ctbau = 0\<rparr>),
     a_table_mem = (\<lambda>_. new_CommandTable), a_ident_mem = (\<lambda>_. undefined),
     a_heap = \<lparr>wd_bytes = (\<lambda>_. 0), wd_media = (\<lambda>_ _. replicate 512 0), wd_heap = h\<rparr>\<rparr>"

lemma one_slot: "push_bit s 1 = (push_bit k 1 :: u32) \<Longrightarrow> s < 32 \<Longrightarrow> k < 32 \<Longrightarrow> s = k"
proof -
  assume eq: "push_bit s 1 = (push_bit k 1 :: u32)" and "s < 32" "k < 32"
  then have "bit (push_bit k 1 :: u32) k" by (simp add: bit_simps)
  then have "bit (push_bit s 1 :: u32) k" unfolding eq .
  then show "s = k" by (simp add: bit_simps)
qed

lemma push_bit_one_neq_0: "s < 32 \<Longrightarrow> push_bit s (1 :: u32) \<noteq> 0"
proof
  assume s: "s < 32" and zero: "push_bit s (1 :: u32) = 0"
  from s have "bit (push_bit s (1 :: u32)) s" by (simp add: bit_simps)
  then show False unfolding zero by simp
qed

lemma find_upto:
  assumes "P s" "s < n" "\<And>k. P k \<Longrightarrow> k < n \<Longrightarrow> k = s"
  shows "find P [0..<n] = Some s"
proof -
  have "find P [0..<n] \<noteq> None" using assms(1,2) by (auto simp: find_None_iff)
  then obtain k where k: "find P [0..<n] = Some k" by blast
  then have "P k \<and> k < n" by (auto simp: find_Some_iff)
  with assms(3) k show ?thesis by simp
qed

lemma writing_hba_slot:
  "pr_ci (regs_of 0 w) = push_bit s 1 \<Longrightarrow> s < 32 \<Longrightarrow>
     find (\<lambda>s. pr_ci (regs_of 0 w) = push_bit s 1) [0..<32] = Some s"
  by (rule find_upto) (auto simp del: push_bit_of_1 intro: one_slot)

lemma writing_hba_writes: "performs_writes {} writing_hba 0"
  unfolding performs_writes_def
proof (intro allI impI)
  fix w :: "'h world ahci" and s sector buffer
  assume wr: "write_issued 0 s sector buffer w"
  then have s: "pr_ci (regs_of 0 w) = push_bit s 1" "s < 32" "a_ports w \<noteq> []" "ap_registers (a_ports w ! 0) \<noteq> 0"
    "pr_sact (regs_of 0 w) = 0"
    by (simp_all add: write_issued_def)
  note found = writing_hba_slot [OF s(1,2)]
  let ?t = "a_table_mem w (CommandTableBase (slot_header 0 s w))"
  have t: "frame_lba (ct_cfis ?t) = sector" "DataBaseAddress (ct_prdt ?t ! 0) = buffer"
    using wr by (simp_all add: write_issued_def command_frame_def Let_def)
  let ?v = "w\<lparr>a_port_mem := (a_port_mem w)(ap_registers (a_ports w ! 0) := (regs_of 0 w)\<lparr>pr_ci := 0\<rparr>),
       a_host_mem := (a_host_mem w)(a_hostregs w := (a_host_mem w (a_hostregs w))
         \<lparr>hr_is := hr_is (a_host_mem w (a_hostregs w)) OR 1\<rparr>),
       a_heap := (a_heap w)\<lparr>wd_media := (media_of w)(0 := (media_of w 0)(sector := peek 512 buffer (bytes_of w)))\<rparr>\<rparr>"
  have v: "writing_hba w = ?v"
    unfolding writing_hba_def found option.case Let_def t ..
  have slot: "(of_nat s :: u8) < 32" "unat (of_nat s :: u8) = s"
    using s(2) by (simp_all add: unat_of_nat word_less_nat_alt)
  then have busy: "slot_busy 0 (of_nat s) w"
    using s(1,3,4) push_bit_one_neq_0 [OF s(2)]
    by (simp add: slot_busy_def Port_def CommandSlotSet_def rassert_def regs_of_def)
  have idle: "\<not> slot_busy 0 (of_nat s) (writing_hba w)"
    using s(3,4) slot(1) unfolding v by (simp add: slot_busy_def Port_def CommandSlotSet_def rassert_def)
  have "sector_written {} 0 sector buffer w ?v"
    unfolding sector_written_def using s(5) by (simp add: bit_simps)
       (intro exI [of _ "(regs_of 0 w)\<lparr>pr_ci := 0\<rparr>"]; simp)
  then have "sector_written {} 0 sector buffer w (writing_hba w)" unfolding v .
  with busy idle show "\<exists>k. (\<forall>j<k. slot_busy (unat 0) (of_nat s) ((writing_hba ^^ j) w)) \<and>
      \<not> slot_busy (unat 0) (of_nat s) ((writing_hba ^^ k) w) \<and>
      sector_written {} 0 sector buffer w ((writing_hba ^^ k) w)"
    by (intro exI [of _ 1]) simp
qed

lemma one_disk_ready: "disk_ready {} writing_hba 0 0 (one_disk h)"
  using writing_hba_writes
  by (simp add: disk_ready_def one_disk_def port_idle_def some_port_def regs_of_def zero_port_regs_def)

lemma page_heap_serves: "heap_serves page_heap 0x10000 0x10000 0x11000 0x12000 0x13000 0x14000"
  by (simp add: heap_serves_def page_heap_def)

lemma one_disk_heap: "heap_of (one_disk h) = h"
  by (simp add: one_disk_def)

lemma page_buffers_apart: "buffers_apart {} 0x11000 0x12000 0x13000"
  by (simp add: buffers_apart_def span_disjoint)

section \<open>Properties\<close>

text \<open>
  C30. Formatting a disk.  Suppose the disk exists, its port and port 0 are idle ports of a controller that performs the
  writes issued to it (changing no memory but its receive area \<open>F\<close>), the heap serves the objects \<open>t\<close>, \<open>sb\<close>, \<open>db\<close>, \<open>ib\<close> and
  the flush's table \<open>u\<close>, each of which may be null, and the buffers are even addresses apart from each other and from \<open>F\<close>.
  If any of the five is null, formatting dereferences null.  Otherwise it succeeds, and what lies on the media afterwards is
  what the manager's own functions look for: the super block reads back, each of the 57337 inodes the sectors hold is at
  its block address and links to the next index, and the 1000 data blocks are free and doubly linked by index, ending in 0
  on both sides.  The bytes behind the data block object, which has fewer than 512, have been overwritten with 0xBB.
\<close>

theorem format_lays_out_media:
  assumes "disk_ready F hba disk port a" "heap_serves hp (heap_of a) t sb db ib u" "buffers_apart F sb db ib"
  shows "if t = 0 \<or> sb = 0 \<or> u = 0 \<or> ib = 0 \<or> db = 0 then new_MfsManager hp hba disk a = Inl NullDeref
     else \<exists>w' a'. new_MfsManager hp hba disk a = Inr (w', a') \<and>
       get_super (w', a') = Inr (sb_of_bytes (media_of a' port 0)) \<and>
       (\<forall>idx<57337. \<exists>b. InodeBlockAddress (of_nat idx) (w', a') = Inr b \<and>
          get64 1 (diskinode (idx mod 7) (media_of a' 0 b)) = of_nat idx + 1) \<and>
       (\<forall>i<1000. \<exists>b. DataBlockAddress (of_nat i) (w', a') = Inr b \<and> hd (media_of a' 0 b) = 0 \<and>
          get64 1 (media_of a' 0 b) = (if i = 0 then 0 else of_nat (i - 1)) \<and>
          get64 9 (media_of a' 0 b) = (if i = 999 then 0 else of_nat (i + 1))) \<and>
       sizeof_DataBlock < 512 \<and> drop sizeof_DataBlock (peek 512 db (bytes_of a')) = replicate (512 - sizeof_DataBlock) 0xBB"
proof (cases "t = 0 \<or> sb = 0 \<or> u = 0 \<or> ib = 0 \<or> db = 0")
  case True
  with new_MfsManager_run [OF assms] show ?thesis by auto
next
  case False
  with new_MfsManager_run [OF assms] obtain w' a' where w': "new_MfsManager hp hba disk a = Inr (w', a')"
      "fs_inodeBase w' = 1" "fs_dataBlockBase w' = 8192" "get_super (w', a') = Inr formatted_super"
      "media_of a' = formatted_media port (media_of a)" "peek 512 db (bytes_of a') = data_image 999 1000" by auto
  obtain m where m: "media_of a' 0 = with_blocks 8192 1000 1000 (with_inodes 8191 m)"
    using formatted_media_parts(2) [of port "media_of a"] unfolding w'(5) by blast
  have "get_super (w', a') = Inr (sb_of_bytes (media_of a' port 0))"
    unfolding w'(4,5) formatted_media_parts(1) formatted_super_bytes(2) ..
  moreover have "\<exists>b. InodeBlockAddress (of_nat idx) (w', a') = Inr b \<and>
      get64 1 (diskinode (idx mod 7) (media_of a' 0 b)) = of_nat idx + 1" if "idx < 57337" for idx
    using formatted_inode [OF that w'(4,2), of m] unfolding m by (auto simp: free_inode_link)
  moreover have "\<exists>b. DataBlockAddress (of_nat i) (w', a') = Inr b \<and> hd (media_of a' 0 b) = 0 \<and>
          get64 1 (media_of a' 0 b) = (if i = 0 then 0 else of_nat (i - 1)) \<and>
          get64 9 (media_of a' 0 b) = (if i = 999 then 0 else of_nat (i + 1))" if "i < 1000" for i
    using formatted_block [OF that w'(4,3), of "with_inodes 8191 m"] unfolding m by (auto simp: data_image_links)
  moreover have "drop sizeof_DataBlock (peek 512 db (bytes_of a')) = replicate (512 - sizeof_DataBlock) 0xBB"
    using data_image_links(4) [of 999 1000] unfolding w'(6) sizeof_DataBlock_def by simp
  moreover have "sizeof_DataBlock < 512" by (simp add: sizeof_DataBlock_def)
  ultimately show ?thesis using False w'(1) by auto
qed

theorem format_lays_out_media_witness:
  "\<exists>w' a' b. new_MfsManager page_heap writing_hba 0 (one_disk 0x10000) = Inr (w', a') \<and>
     InodeBlockAddress 500 (w', a') = Inr b \<and> get64 1 (diskinode 3 (media_of a' 0 b)) = 501 \<and>
     drop 505 (peek 512 0x12000 (bytes_of a')) = replicate 7 0xBB"
proof -
  from format_lays_out_media [OF one_disk_ready, of page_heap "0x10000", unfolded one_disk_heap, OF page_heap_serves
      page_buffers_apart] obtain w' a' where
      run: "new_MfsManager page_heap writing_hba 0 (one_disk 0x10000) = Inr (w', a')"
      and links: "\<forall>idx<57337. \<exists>b. InodeBlockAddress (of_nat idx) (w', a') = Inr b \<and>
          get64 1 (diskinode (idx mod 7) (media_of a' 0 b)) = of_nat idx + 1"
      and over: "drop sizeof_DataBlock (peek 512 0x12000 (bytes_of a')) = replicate (512 - sizeof_DataBlock) 0xBB"
    by (auto simp del: replicate.simps)
  from links [THEN spec, of 500] obtain b where "InodeBlockAddress 500 (w', a') = Inr b"
      "get64 1 (diskinode 3 (media_of a' 0 b)) = 501" by auto
  with run over show ?thesis unfolding sizeof_DataBlock_def by fastforce
qed

text \<open>
  C31. The free inode list does not end in the inode sectors.  When formatting has succeeded under the same conditions on
  the disk, the controller and the heap, the super block records 65534 inodes where the sectors hold 57337; the last of
  those links to the next index, and that index is given the address of the first data block.
\<close>

theorem inode_list_reaches_data_blocks:
  assumes "disk_ready F hba disk port a" "heap_serves hp (heap_of a) t sb db ib u" "buffers_apart F sb db ib"
    and "new_MfsManager hp hba disk a = Inr (w', a')"
  shows "(\<exists>super. get_super (w', a') = Inr super \<and> totalInodes super = 65534) \<and>
     InodeBlockAddress 57336 (w', a') = Inr 8191 \<and> get64 1 (diskinode (57336 mod 7) (media_of a' 0 8191)) = 57337 \<and>
     InodeBlockAddress 57337 (w', a') = Inr 8192 \<and> DataBlockAddress 0 (w', a') = Inr 8192 \<and>
     media_of a' 0 8192 = data_image 0 1000"
proof -
  from new_MfsManager_run [OF assms(1-3)] assms(4) have w': "fs_inodeBase w' = 1" "fs_dataBlockBase w' = 8192"
      "get_super (w', a') = Inr formatted_super" "media_of a' = formatted_media port (media_of a)"
    by (auto split: if_splits)
  obtain m where m: "media_of a' 0 = with_blocks 8192 1000 1000 (with_inodes 8191 m)"
    using formatted_media_parts(2) [of port "media_of a"] unfolding w'(4) by blast
  have addr: "InodeBlockAddress 57336 (w', a') = Inr 8191" "InodeBlockAddress 57337 (w', a') = Inr 8192"
      "DataBlockAddress 0 (w', a') = Inr 8192"
    using w'(1-3) by (simp_all add: InodeBlockAddress_def DataBlockAddress_def formatted_super_counts)
  with formatted_inode [of 57336 w' a' m, OF _ w'(3,1)]
  have "get64 1 (diskinode (57336 mod 7) (media_of a' 0 8191)) = 57337"
    unfolding m by (simp add: free_inode_link)
  with addr w'(3) show ?thesis unfolding m by (simp add: formatted_super_counts with_blocks_def)
qed

theorem inode_list_reaches_data_blocks_witness:
  "\<exists>w' a'. new_MfsManager page_heap writing_hba 0 (one_disk 0x10000) = Inr (w', a') \<and>
     InodeBlockAddress 57337 (w', a') = DataBlockAddress 0 (w', a')"
proof -
  have serves: "heap_serves page_heap (heap_of (one_disk 0x10000)) 0x10000 0x11000 0x12000 0x13000 0x14000"
    unfolding one_disk_heap by (rule page_heap_serves)
  from new_MfsManager_run [OF one_disk_ready serves page_buffers_apart] obtain w' a' where
      run: "new_MfsManager page_heap writing_hba 0 (one_disk 0x10000) = Inr (w', a')" by auto
  from inode_list_reaches_data_blocks [OF one_disk_ready serves page_buffers_apart run] run show ?thesis by auto
qed

end
