(* ===== verification/Merofs_Boot.thy ===== *)
theory Merofs_Boot
  imports Merofs_Format Kernel_Memory
begin

text \<open>
  The file system manager on the kernel's own heap: \<open>KHeap::New\<close> of \<open>kheap.hpp\<close> over the slab allocator, as the kernel
  starts it up.  What the slab allocator can give, objects of 64 bytes, the manager does not ask for.
\<close>

lemma kmallocs_memory_ok:
  assumes "memory_ok frame page n hs ls k" "n + length reqs \<le> 63"
  shows "\<exists>k' ps n'. kmallocs reqs k = Inr (k', ps) \<and> memory_ok frame page n' hs ls k' \<and> n' \<le> n + length reqs"
  using assms
proof (induction reqs arbitrary: n k)
  case Nil
  then show ?case by auto
next
  case (Cons bytes reqs)
  then have n: "n < 63" by simp
  from kmalloc_ok [OF Cons.prems(1) n, of bytes] obtain k1 p n1 where
      k1: "kmalloc bytes k = Inr (k1, p)" "memory_ok frame page n1 hs ls k1" "n1 \<le> Suc n" by blast
  have "n1 + length reqs \<le> 63" using k1(3) Cons.prems(2) by simp
  from Cons.IH [OF k1(2) this] obtain k2 ps n2 where
      "kmallocs reqs k1 = Inr (k2, ps)" "memory_ok frame page n2 hs ls k2" "n2 \<le> n1 + length reqs" by blast
  with k1 show ?case by (intro exI [of _ k2] exI [of _ "p # ps"] exI [of _ n2]) simp
qed

lemma kmalloc_other_size:
  assumes "memory_ok frame page n hs ls k" "n < 63" "(ucast bytes :: u16) \<noteq> 64"
  shows "\<exists>k'. kmalloc bytes k = Inr (k', 0)"
proof -
  from kmalloc_ok [OF assms(1,2), of bytes] assms(3) show ?thesis by auto
qed

text \<open>The manager's first object is a command table; without one the constructor runs at null.\<close>

lemma no_table_faults:
  assumes "hp_new hp sizeof_CommandTable (heap_of a) = (0, h)" "unat disk < length (a_disks a)"
  shows "new_MfsManager hp hba disk a = Inl NullDeref"
  using assms by (simp add: new_MfsManager_def Ahci_Disk_def InitialiseKernelBuffers_def New_CommandTable_def driver_mm_def
      on_heap_def guard_ptr_def)

section \<open>Properties\<close>

text \<open>
  C32. On the kernel's own heap the file system cannot start.  Take a memory map and a start-up as in \<open>boot_then_kmalloc\<close>
  and a heap interface whose \<open>New\<close> of an object is \<open>kmalloc\<close> of its size.  After start-up and any sequence of up to 60
  requests, formatting any disk the driver knows ends in a null dereference, whatever the state of the driver, the
  controller and the media: the slab allocator has no slab for the 144 bytes of a command table, \<open>New\<close> returns null, and
  the manager does not look.
\<close>

theorem format_faults_after_boot:
  assumes "regions_ok 1 (filter useable (m_entries mm))" "high_pages mm @ low_pages mm = page # rest"
    and "unat page + 0x11000 < 2 ^ 64" "frame \<noteq> 0" "frame \<noteq> page" "pristine page k" "length reqs \<le> 60"
    and "\<And>n k k' p. kmalloc (of_nat n) k = Inr (k', p) \<Longrightarrow> hp_new hp n k = (p, k')"
    and "unat disk < length (a_disks a)"
  shows "\<exists>k1 k2 ps. boot mm frame k = Inr k1 \<and> kmallocs reqs k1 = Inr (k2, ps) \<and>
           new_MfsManager hp hba disk (a\<lparr>a_heap := (a_heap a)\<lparr>wd_heap := k2\<rparr>\<rparr>) = Inl NullDeref"
proof -
  from boot_ok [OF assms(1-6)] obtain k1 hs ls where k1: "boot mm frame k = Inr k1" "memory_ok frame page 2 hs ls k1"
    by blast
  have "2 + length reqs \<le> 63" using assms(7) by simp
  from kmallocs_memory_ok [OF k1(2) this] obtain k2 ps n where k2: "kmallocs reqs k1 = Inr (k2, ps)"
      "memory_ok frame page n hs ls k2" "n \<le> 2 + length reqs" by blast
  have "n < 63" using k2(3) assms(7) by simp
  from kmalloc_other_size [OF k2(2) this, of "of_nat sizeof_CommandTable"] obtain k3 where
      "kmalloc (of_nat sizeof_CommandTable) k2 = Inr (k3, 0)" by (auto simp: sizeof_CommandTable_def)
  then have "hp_new hp sizeof_CommandTable k2 = (0, k3)" by (rule assms(8))
  then have "new_MfsManager hp hba disk (a\<lparr>a_heap := (a_heap a)\<lparr>wd_heap := k2\<rparr>\<rparr>) = Inl NullDeref"
    using assms(9) by (intro no_table_faults) simp_all
  with k1(1) k2(1) show ?thesis by blast
qed

definition kernel_heap :: "kernel_memory heap_fns" where
  "kernel_heap =
     \<lparr>hp_new = (\<lambda>n k. case kmalloc (of_nat n) k of Inl _ \<Rightarrow> (0, k) | Inr (k', p) \<Rightarrow> (p, k')),
      hp_delete = (\<lambda>p k. case KHeap_Delete p k of Inl _ \<Rightarrow> k | Inr k' \<Rightarrow> k'),
      hp_palloc = (\<lambda>k. case palloc k of Inl _ \<Rightarrow> (0, k) | Inr (k', p) \<Rightarrow> (p, k')),
      hp_pfree = (\<lambda>p k. case pfree p k of Inl _ \<Rightarrow> k | Inr k' \<Rightarrow> k')\<rparr>"

theorem format_faults_after_boot_witness:
  "\<exists>k1 k2 ps. boot small_map 0x7000 fresh_memory = Inr k1 \<and> kmallocs [64, 24] k1 = Inr (k2, ps) \<and>
     new_MfsManager kernel_heap writing_hba 0 (one_disk k2) = Inl NullDeref"
proof -
  have "(0x7000 :: addr) \<noteq> 0" "(0x7000 :: addr) \<noteq> 0x100000000" "length [64, 24 :: u64] \<le> 60" by simp_all
  note boots = format_faults_after_boot [OF small_map_regions small_map_first small_map_slab_bound this(1,2)
      fresh_memory_pristine this(3), of kernel_heap]
  have "hp_new kernel_heap n k = (p, k')" if "kmalloc (of_nat n) k = Inr (k', p)" for n k k' p
    using that by (simp add: kernel_heap_def)
  moreover have "unat (0 :: u8) < length (a_disks (one_disk k))" for k :: kernel_memory by (simp add: one_disk_def)
  ultimately obtain k1 k2 ps where "boot small_map 0x7000 fresh_memory = Inr k1" "kmallocs [64, 24] k1 = Inr (k2, ps)"
      "new_MfsManager kernel_heap writing_hba 0
         ((one_disk fresh_memory)\<lparr>a_heap := (a_heap (one_disk fresh_memory))\<lparr>wd_heap := k2\<rparr>\<rparr>) = Inl NullDeref"
    using boots [of 0 "one_disk fresh_memory" writing_hba] by blast
  moreover have "(one_disk fresh_memory)\<lparr>a_heap := (a_heap (one_disk fresh_memory))\<lparr>wd_heap := k2\<rparr>\<rparr> =
      one_disk k2" by (simp add: one_disk_def)
  ultimately show ?thesis by auto
qed

end
