(* ===== verification/Frame_Array.thy ===== *)
theory Frame_Array
  imports Page_Pool
begin

text \<open>
  The array of page frame descriptors (\<open>kernel/src/ram/frame_array\<close>, \<open>frame_descriptor\<close>): one descriptor per page of
  the memory map, in pages taken from the free lists of \<open>Page_Freelist\<close>.  The descriptors at \<open>m_buffer\<close> are a map from
  indices.
\<close>

section \<open>State\<close>

record FrameDescriptor =
  fd_base :: u64
  fd_type :: MemType
  fd_flags :: u32
  fd_procCount :: u32

definition new_FrameDescriptor :: "u64 \<Rightarrow> MemType \<Rightarrow> FrameDescriptor" where
  "new_FrameDescriptor base ty = \<lparr>fd_base = base, fd_type = ty, fd_flags = 0, fd_procCount = 0\<rparr>"

definition FD_Used :: u32 where "FD_Used = 2"

definition FD_IsUsed :: "FrameDescriptor \<Rightarrow> bool" where "FD_IsUsed d \<longleftrightarrow> FD_Used AND fd_flags d \<noteq> 0"

record FrameArray =
  fa_buffer :: addr
  fa_pages :: u64
  fa_frames :: "nat \<Rightarrow> FrameDescriptor"

definition FA_PAGE_SIZE :: u64 where "FA_PAGE_SIZE = 0x1000"

section \<open>Operations\<close>

text \<open>The pages of a region, counted by stepping an address to its limit.\<close>

fun count_pages :: "nat \<Rightarrow> u64 \<Rightarrow> u64 \<Rightarrow> u64 \<Rightarrow> u64 result" where
  "count_pages 0 current limit pageIndex = Inl Diverges"
| "count_pages (Suc n) current limit pageIndex =
     (if current < limit then count_pages n (current + FA_PAGE_SIZE) limit (pageIndex + 1) else Inr pageIndex)"

fun required_loop :: "MemoryMapEntry list \<Rightarrow> u64 \<Rightarrow> u64 result" where
  "required_loop [] pageIndex = Inr pageIndex"
| "required_loop (e # es) pageIndex =
     rbind (count_pages walk_fuel (me_base e) (me_base e + me_length e) pageIndex) (required_loop es)"

definition MemoryRequired :: "MemoryMap \<Rightarrow> u64 result" where
  "MemoryRequired mm = rbind (required_loop (m_entries mm) 0) (\<lambda>pageIndex. Inr (pageIndex * FA_PAGE_SIZE))"

definition FrameArray_InitMemory :: "MemoryMap \<Rightarrow> freelist \<Rightarrow> FrameArray \<Rightarrow> (freelist \<times> FrameArray) result" where
  "FrameArray_InitMemory mm s fa =
     rbind (MemoryRequired mm) (\<lambda>bytes.
       let pages = bytes div 0x1000;
           pages = (if bytes mod 0x1000 \<noteq> 0 then pages + 1 else pages)
       in rbind (AllocatePages (ucast pages) s) (\<lambda>(s, p). Inr (s, fa\<lparr>fa_buffer := p\<rparr>)))"

text \<open>The index is not advanced.\<close>

fun describe_region :: "nat \<Rightarrow> MemType \<Rightarrow> u64 \<Rightarrow> u64 \<Rightarrow> nat \<Rightarrow> FrameArray \<Rightarrow> FrameArray result" where
  "describe_region 0 ty current limit pageIndex fa = Inl Diverges"
| "describe_region (Suc n) ty current limit pageIndex fa =
     (if current < limit
      then rbind (guard_ptr (fa_buffer fa)) (\<lambda>_.
           describe_region n ty (current + FA_PAGE_SIZE) limit pageIndex
             (fa\<lparr>fa_frames := (fa_frames fa)(pageIndex := new_FrameDescriptor current ty)\<rparr>))
      else Inr fa)"

fun describe_loop :: "MemoryMapEntry list \<Rightarrow> nat \<Rightarrow> FrameArray \<Rightarrow> FrameArray result" where
  "describe_loop [] pageIndex fa = Inr fa"
| "describe_loop (e # es) pageIndex fa =
     rbind (describe_region walk_fuel (me_type e) (me_base e) (me_base e + me_length e) pageIndex fa)
       (describe_loop es pageIndex)"

definition InitFrameDescriptors :: "MemoryMap \<Rightarrow> FrameArray \<Rightarrow> FrameArray result" where
  "InitFrameDescriptors mm fa = describe_loop (m_entries mm) 0 fa"

definition FrameArray_Init :: "MemoryMap \<Rightarrow> freelist \<Rightarrow> FrameArray \<Rightarrow> (freelist \<times> FrameArray) result" where
  "FrameArray_Init mm s fa =
     rbind (FrameArray_InitMemory mm s fa) (\<lambda>(s, fa). rbind (InitFrameDescriptors mm fa) (\<lambda>fa. Inr (s, fa)))"

definition IndexOf :: "u64 \<Rightarrow> u64 result" where
  "IndexOf paddr = rbind (rassert (paddr < 0x240000000)) (\<lambda>_. Inr (paddr div FA_PAGE_SIZE))"

definition BaseOf :: "u64 \<Rightarrow> FrameArray \<Rightarrow> u64 result" where
  "BaseOf index fa =
     rbind (rassert (index < fa_pages fa)) (\<lambda>_. rbind (guard_ptr (fa_buffer fa)) (\<lambda>_.
       Inr (fd_base (fa_frames fa (unat index)))))"

section \<open>Lemmas\<close>

text \<open>A region is regular if it consists of whole pages and ends below the last page.\<close>

definition region_regular :: "MemoryMapEntry \<Rightarrow> bool" where
  "region_regular e \<longleftrightarrow> 0x1000 dvd unat (me_length e) \<and> unat (me_base e) + unat (me_length e) + 0x1000 < 2 ^ 64"

definition region_pages :: "MemoryMapEntry \<Rightarrow> nat" where
  "region_pages e = unat (me_length e) div 0x1000"

lemma count_pages_steps:
  assumes "k < n" "unat limit = unat current + 0x1000 * k" "unat limit + 0x1000 < 2 ^ 64"
  shows "count_pages n current limit i = Inr (i + of_nat k)"
  using assms
proof (induction k arbitrary: n current i)
  case 0
  then obtain n' where "n = Suc n'" by (cases n) auto
  with 0 show ?case by (simp add: word_less_nat_alt)
next
  case (Suc k)
  then obtain n' where n: "n = Suc n'" by (cases n) auto
  have "unat (current + 0x1000) = unat current + 0x1000" using Suc.prems by (subst unat_add_no_wrap) simp_all
  then have "count_pages n' (current + 0x1000) limit (i + 1) = Inr (i + 1 + of_nat k)"
    using Suc.prems n by (intro Suc.IH) simp_all
  with n Suc.prems show ?case by (simp add: FA_PAGE_SIZE_def word_less_nat_alt)
qed

lemma region_end: "region_regular e \<Longrightarrow> unat (me_base e + me_length e) = unat (me_base e) + 0x1000 * region_pages e"
  by (subst unat_add_no_wrap) (auto simp: region_regular_def region_pages_def)

lemma region_pages_fuel: "region_pages e < walk_fuel"
  using unat_u64_less [of "me_length e"] by (simp add: region_pages_def walk_fuel_def)

lemma required_loop_sum:
  assumes "\<forall>e\<in>set es. region_regular e"
  shows "required_loop es i = Inr (i + of_nat (sum_list (map region_pages es)))"
  using assms
proof (induction es arbitrary: i)
  case (Cons e es)
  then have "count_pages walk_fuel (me_base e) (me_base e + me_length e) i = Inr (i + of_nat (region_pages e))"
    using region_pages_fuel region_end [of e]
    by (intro count_pages_steps) (auto simp: region_regular_def region_pages_def)
  with Cons show ?case by (simp add: algebra_simps)
qed simp

text \<open>What stepping over a region with a fixed index leaves: the last page.\<close>

lemma describe_region_steps:
  assumes "k < n" "unat limit = unat current + 0x1000 * k" "unat limit + 0x1000 < 2 ^ 64" "fa_buffer fa \<noteq> 0"
  shows "describe_region n ty current limit i fa = Inr (if k = 0 then fa else
     fa\<lparr>fa_frames := (fa_frames fa)(i := new_FrameDescriptor (limit - 0x1000) ty)\<rparr>)"
  using assms
proof (induction k arbitrary: n current fa)
  case 0
  then obtain n' where "n = Suc n'" by (cases n) auto
  with 0 show ?case by (simp add: word_less_nat_alt)
next
  case (Suc k)
  then obtain n' where n: "n = Suc n'" by (cases n) auto
  have c: "unat (current + 0x1000) = unat current + 0x1000" using Suc.prems by (subst unat_add_no_wrap) simp_all
  let ?fa = "fa\<lparr>fa_frames := (fa_frames fa)(i := new_FrameDescriptor current ty)\<rparr>"
  have IH: "describe_region n' ty (current + 0x1000) limit i ?fa = Inr (if k = 0 then ?fa else
     ?fa\<lparr>fa_frames := (fa_frames ?fa)(i := new_FrameDescriptor (limit - 0x1000) ty)\<rparr>)"
    using Suc.prems n c by (intro Suc.IH) simp_all
  have "limit = current + 0x1000" if "k = 0" using Suc.prems c that by (simp add: word_unat_eq_iff)
  with IH n Suc.prems show ?case by (auto simp: FA_PAGE_SIZE_def word_less_nat_alt)
qed

definition last_page :: "MemoryMapEntry \<Rightarrow> FrameDescriptor" where
  "last_page e = new_FrameDescriptor (me_base e + me_length e - 0x1000) (me_type e)"

lemma describe_loop_result:
  assumes "\<forall>e\<in>set es. region_regular e" "fa_buffer fa \<noteq> 0"
  shows "describe_loop es i fa = Inr (let rs = filter (\<lambda>e. 0 < region_pages e) es
     in if rs = [] then fa else fa\<lparr>fa_frames := (fa_frames fa)(i := last_page (last rs))\<rparr>)"
  using assms
proof (induction es arbitrary: fa)
  case (Cons e es)
  then have "describe_region walk_fuel (me_type e) (me_base e) (me_base e + me_length e) i fa =
      Inr (if region_pages e = 0 then fa else fa\<lparr>fa_frames := (fa_frames fa)(i := last_page e)\<rparr>)"
    using region_pages_fuel [of e] region_end [of e] unfolding last_page_def
    by (intro describe_region_steps) (auto simp: region_regular_def region_pages_def)
  with Cons show ?case by (auto simp: Let_def)
qed simp

section \<open>Properties\<close>

text \<open>
  Over a memory map of regular regions the frame array asks for a page for every page of memory, and describes
  none of them: every descriptor is written to index 0, where the last page of the last non-empty region remains; no
  other descriptor is initialised.
\<close>

theorem FrameArray_describes_one_page:
  assumes "\<forall>e\<in>set (m_entries mm). region_regular e" "fa_buffer fa \<noteq> 0"
    and "filter (\<lambda>e. 0 < region_pages e) (m_entries mm) = rs @ [r]"
  shows "MemoryRequired mm = Inr (0x1000 * of_nat (sum_list (map region_pages (m_entries mm)))) \<and>
     (\<exists>fa'. InitFrameDescriptors mm fa = Inr fa' \<and> fa_frames fa' 0 = last_page r \<and>
        (\<forall>i. i \<noteq> 0 \<longrightarrow> fa_frames fa' i = fa_frames fa i))"
  using assms describe_loop_result [OF assms(1,2), of 0] required_loop_sum [OF assms(1), of 0]
  by (simp add: MemoryRequired_def InitFrameDescriptors_def FA_PAGE_SIZE_def)

theorem FrameArray_describes_one_page_witness:
  "\<exists>mm fa fa'. InitFrameDescriptors mm fa = Inr fa' \<and> MemoryRequired mm = Inr 0x3000 \<and>
     fa_frames fa' 0 = new_FrameDescriptor 0x5000 Reserved"
proof -
  let ?mm = "\<lparr>m_entries = [\<lparr>me_base = 0x1000, me_length = 0x2000, me_type = Useable\<rparr>,
      \<lparr>me_base = 0x5000, me_length = 0x1000, me_type = Reserved\<rparr>], m_totalUseableBytes = 0\<rparr>"
  let ?fa = "\<lparr>fa_buffer = 0x8000, fa_pages = 0, fa_frames = (\<lambda>_. new_FrameDescriptor 7 Empty)\<rparr>"
  show ?thesis
    using FrameArray_describes_one_page [of ?mm ?fa "[\<lparr>me_base = 0x1000, me_length = 0x2000, me_type = Useable\<rparr>]"
        "\<lparr>me_base = 0x5000, me_length = 0x1000, me_type = Reserved\<rparr>"]
    by (auto simp: region_regular_def region_pages_def last_page_def)
qed

end
