(* ===== verification/Processes.thy ===== *)
theory Processes
  imports Paging
begin

text \<open>
  Processes (\<open>kernel/src/process\<close>, \<open>kernel/src/pom/containers/ptbl\<close>): the fixed process table, the tree of processes
  with its manager, and the table of stacks.  Processes and page tables of the manager lie in maps from addresses; the
  kernel's \<open>kmalloc\<close> and the stack pointer are parameters.
\<close>

section \<open>The process table\<close>

record ProcessType =
  pt_parent_id :: u8
  pt_present :: bool

type_synonym PTable = "ProcessType list"

definition PT_ENTRIES :: nat where "PT_ENTRIES = 20"

definition PT_Process :: "u8 \<Rightarrow> PTable \<Rightarrow> ProcessType result" where
  "PT_Process pid t = (if unat pid < length t then Inr (t ! unat pid) else Inl OutOfBounds)"

function next_free_id_loop :: "PTable \<Rightarrow> nat \<Rightarrow> u8 result" where
  "next_free_id_loop t i =
     (if i < PT_ENTRIES
      then rbind (PT_Process (of_nat i) t) (\<lambda>p. if \<not> pt_present p then Inr (of_nat i) else next_free_id_loop t (Suc i))
      else Inr (- 1))"
  by pat_completeness auto
termination by (relation "measure (\<lambda>(t, i). PT_ENTRIES - i)") auto

declare next_free_id_loop.simps [simp del]

definition NextFreeId :: "PTable \<Rightarrow> u8 result" where "NextFreeId t = next_free_id_loop t 0"

definition AllocateProcess :: "u8 \<Rightarrow> PTable \<Rightarrow> (PTable \<times> u8) result" where
  "AllocateProcess parent t =
     rbind (NextFreeId t) (\<lambda>freeid. rbind (PT_Process freeid t) (\<lambda>p.
       Inr (t[unat freeid := p\<lparr>pt_present := True, pt_parent_id := parent\<rparr>], freeid)))"

definition DeallocateProcess :: "u8 \<Rightarrow> PTable \<Rightarrow> PTable result" where
  "DeallocateProcess pid t =
     (if PT_ENTRIES < unat pid then Inr t
      else rbind (PT_Process pid t) (\<lambda>p. Inr (t[unat pid := p\<lparr>pt_present := False\<rparr>])))"

section \<open>The process tree\<close>

datatype Status = Running | Stopped | ExitDead

record Process =
  pr_id :: u8
  pr_parentId :: u8
  pr_childId :: u8
  pr_stat :: Status
  pr_parent :: addr
  pr_sibling :: addr
  pr_child :: addr
  pr_pageTable :: addr
  pr_user :: addr

type_synonym procs = "addr \<Rightarrow> Process"

definition proc_at :: "addr \<Rightarrow> procs \<Rightarrow> Process result" where
  "proc_at p d = rbind (guard_ptr p) (\<lambda>_. Inr (d p))"

text \<open>The assertion of \<open>InsertSibling\<close> is over a string literal, which is true; the operation does nothing.\<close>

definition InsertSibling :: "addr \<Rightarrow> addr \<Rightarrow> procs \<Rightarrow> procs result" where
  "InsertSibling this proc d = rbind (rassert True) (\<lambda>_. Inr d)"

definition SetParent :: "addr \<Rightarrow> addr \<Rightarrow> procs \<Rightarrow> procs result" where
  "SetParent this proc d =
     rbind (proc_at proc d) (\<lambda>p.
     rbind (if pr_child p \<noteq> 0 then InsertSibling (pr_child p) this d
            else Inr (d(proc := (d proc)\<lparr>pr_child := this\<rparr>))) (\<lambda>d.
     rbind (guard_ptr this) (\<lambda>_. Inr (d(this := (d this)\<lparr>pr_parentId := pr_id (d proc)\<rparr>)))))"

definition InsertChild :: "addr \<Rightarrow> addr \<Rightarrow> procs \<Rightarrow> procs result" where
  "InsertChild this proc d =
     rbind (proc_at this d) (\<lambda>p.
     rbind (if pr_child p \<noteq> 0 then InsertSibling (pr_child p) proc d
            else Inr (d(this := (d this)\<lparr>pr_child := proc\<rparr>))) (\<lambda>d.
     rbind (guard_ptr proc) (\<lambda>_. Inr (d(proc := (d proc)\<lparr>pr_parentId := pr_id (d this)\<rparr>)))))"

section \<open>The process manager\<close>

record 'k ProcessManager =
  pm_root :: addr
  pm_current :: addr
  pm_kernelTable :: addr
  pm_procCount :: u16
  pm_procs :: procs
  pm_tables :: "addr \<Rightarrow> entry list"
  pm_heap :: 'k

type_synonym 'k kmalloc_fn = "'k \<Rightarrow> addr \<times> 'k"

definition pm_kmalloc :: "'k kmalloc_fn \<Rightarrow> 'k ProcessManager \<Rightarrow> 'k ProcessManager \<times> addr" where
  "pm_kmalloc kmalloc w = (let (p, k) = kmalloc (pm_heap w) in (w\<lparr>pm_heap := k\<rparr>, p))"

definition pm_update :: "addr \<Rightarrow> (Process \<Rightarrow> Process) \<Rightarrow> 'k ProcessManager \<Rightarrow> 'k ProcessManager result" where
  "pm_update p f w = rbind (guard_ptr p) (\<lambda>_. Inr (w\<lparr>pm_procs := (pm_procs w)(p := f (pm_procs w p))\<rparr>))"

definition on_procs :: "(procs \<Rightarrow> procs result) \<Rightarrow> 'k ProcessManager \<Rightarrow> 'k ProcessManager result" where
  "on_procs f w = rbind (f (pm_procs w)) (\<lambda>d. Inr (w\<lparr>pm_procs := d\<rparr>))"

definition CreatePagetable :: "'k kmalloc_fn \<Rightarrow> addr \<Rightarrow> 'k ProcessManager \<Rightarrow> 'k ProcessManager result" where
  "CreatePagetable kmalloc process w =
     (let (w, baseTable) = pm_kmalloc kmalloc w
      in rbind (proc_at (pm_root w) (pm_procs w)) (\<lambda>root.
         rbind (ProcessManager_MapKernel (pr_pageTable root) (pm_tables w baseTable)) (\<lambda>t.
         pm_update process (\<lambda>p. p\<lparr>pr_pageTable := baseTable\<rparr>) (w\<lparr>pm_tables := (pm_tables w)(baseTable := t)\<rparr>))))"

text \<open>\<open>procCount++\<close>: the identifier keeps the low 8 bits of the 16-bit counter.\<close>

definition take_id :: "addr \<Rightarrow> 'k ProcessManager \<Rightarrow> 'k ProcessManager result" where
  "take_id p w =
     (let n = pm_procCount w in pm_update p (\<lambda>q. q\<lparr>pr_id := ucast n\<rparr>) (w\<lparr>pm_procCount := n + 1\<rparr>))"

definition InitRootProcess :: "'k kmalloc_fn \<Rightarrow> 'k ProcessManager \<Rightarrow> 'k ProcessManager result" where
  "InitRootProcess kmalloc w =
     (let (w, root) = pm_kmalloc kmalloc w; w = w\<lparr>pm_root := root\<rparr>
      in rbind (take_id root w) (\<lambda>w.
         rbind (pm_update root (\<lambda>p. p\<lparr>pr_child := 0, pr_childId := - 1\<rparr>) w) (CreatePagetable kmalloc root)))"

definition ProcessManager_Init :: "'k kmalloc_fn \<Rightarrow> u64 \<Rightarrow> 'k ProcessManager \<Rightarrow> 'k ProcessManager result" where
  "ProcessManager_Init kmalloc cr3 w =
     rbind (InitRootProcess kmalloc (w\<lparr>pm_kernelTable := GetBaseTable cr3\<rparr>)) (\<lambda>w.
       Inr (w\<lparr>pm_current := pm_root w\<rparr>))"

text \<open>\<open>SetParent\<close> does not set \<open>parent\<close>: the pointer followed next is what the memory held.\<close>

definition CreateProcess :: "'k kmalloc_fn \<Rightarrow> 'k ProcessManager \<Rightarrow> ('k ProcessManager \<times> addr) result" where
  "CreateProcess kmalloc w =
     (let (w, spawned) = pm_kmalloc kmalloc w
      in rbind (take_id spawned w) (\<lambda>w.
         rbind (on_procs (SetParent spawned (pm_current w)) w) (\<lambda>w.
         rbind (proc_at (pr_parent (pm_procs w spawned)) (pm_procs w)) (\<lambda>parent.
         rbind (if pr_child parent \<noteq> 0 then on_procs (InsertSibling (pr_child parent) spawned) w
                else pm_update (pr_parent (pm_procs w spawned)) (\<lambda>p. p\<lparr>pr_child := spawned\<rparr>) w) (\<lambda>w.
         rbind (CreatePagetable kmalloc spawned w) (\<lambda>w. Inr (w, spawned)))))))"

section \<open>Stacks\<close>

record StackDescriptor =
  sk_base :: u64
  sk_lastAddr :: u64
  sk_size :: u64

definition new_StackDescriptor :: "u64 \<Rightarrow> u64 \<Rightarrow> StackDescriptor" where
  "new_StackDescriptor base limit = \<lparr>sk_base = base, sk_lastAddr = base, sk_size = limit\<rparr>"

definition SM_ENTRIES :: nat where "SM_ENTRIES = 10"

record StackManager =
  sm_stackTable :: "StackDescriptor list"
  sm_currIndex :: u64

definition new_StackManager :: "StackDescriptor list \<Rightarrow> StackManager" where
  "new_StackManager table = \<lparr>sm_stackTable = table, sm_currIndex = 0\<rparr>"

text \<open>The stack pointer is a parameter; the result is the new table and the arguments of \<open>switch_stack\<close>.\<close>

definition SwitchStack :: "u64 \<Rightarrow> u64 \<Rightarrow> StackManager \<Rightarrow> (StackManager \<times> u64 \<times> u64) result" where
  "SwitchStack rsp index sm =
     rbind (rassert (unat index < SM_ENTRIES)) (\<lambda>_.
       if unat (sm_currIndex sm) < length (sm_stackTable sm)
       then let i = unat (sm_currIndex sm);
                table = (sm_stackTable sm)[i := (sm_stackTable sm ! i)\<lparr>sk_lastAddr := rsp\<rparr>];
                sm = sm\<lparr>sm_stackTable := table, sm_currIndex := index\<rparr>
            in Inr (sm, sk_lastAddr (table ! unat index), 100)
       else Inl OutOfBounds)"

section \<open>Lemmas\<close>

definition pt_free :: "PTable \<Rightarrow> nat set" where
  "pt_free t = {i. i < length t \<and> \<not> pt_present (t ! i)}"

lemma pt_free_upd:
  "k < length t \<Longrightarrow> pt_free (t[k := p]) = (if pt_present p then pt_free t - {k} else insert k (pt_free t))"
  by (auto simp: pt_free_def nth_list_update split: if_splits)

lemma PT_Process_nat: "length t = PT_ENTRIES \<Longrightarrow> i < PT_ENTRIES \<Longrightarrow> PT_Process (of_nat i) t = Inr (t ! i)"
  by (simp add: PT_Process_def PT_ENTRIES_def unat_of_nat)

lemma next_free_id_loop_spec:
  assumes "length t = PT_ENTRIES"
  shows "next_free_id_loop t i =
     (if \<exists>j\<in>pt_free t. i \<le> j then Inr (of_nat (LEAST j. j \<in> pt_free t \<and> i \<le> j)) else Inr (- 1))"
proof (induction "PT_ENTRIES - i" arbitrary: i)
  case 0
  then have "\<not> i < PT_ENTRIES" by simp
  moreover from this have "\<not> (\<exists>j\<in>pt_free t. i \<le> j)" using assms by (auto simp: pt_free_def)
  ultimately show ?case by (simp add: next_free_id_loop.simps)
next
  case (Suc k)
  then have i: "i < PT_ENTRIES" by simp
  show ?case
  proof (cases "pt_present (t ! i)")
    case True
    then have "(j \<in> pt_free t \<and> i \<le> j) \<longleftrightarrow> (j \<in> pt_free t \<and> Suc i \<le> j)" for j
      by (cases "j = i") (auto simp: pt_free_def)
    moreover from this have "(\<exists>j\<in>pt_free t. i \<le> j) \<longleftrightarrow> (\<exists>j\<in>pt_free t. Suc i \<le> j)" by blast
    moreover have "next_free_id_loop t i = next_free_id_loop t (Suc i)"
      using i True assms by (subst next_free_id_loop.simps) (simp add: PT_Process_nat)
    moreover have "k = PT_ENTRIES - Suc i" using Suc.hyps(2) by simp
    ultimately show ?thesis using Suc.hyps(1) [of "Suc i"] by presburger
  next
    case False
    then have "i \<in> pt_free t" using i assms by (simp add: pt_free_def)
    moreover from this have "(LEAST j. j \<in> pt_free t \<and> i \<le> j) = i" by (intro Least_equality) auto
    ultimately show ?thesis
      using i False assms by (subst next_free_id_loop.simps) (auto simp: PT_Process_nat)
  qed
qed

lemma ProcessManager_MapKernel_faults: "ProcessManager_MapKernel rootTable ptbl = Inl OutOfBounds"
  by (simp add: ProcessManager_MapKernel_def AddEntry_def PAGE_TABLE_ENTRIES_def)

section \<open>Properties\<close>

text \<open>
  C33. The process table hands out the lowest free identifier, which becomes present with the given parent and no other
  entry changes; with no free entry it writes past the table. Returning it makes it free again.
\<close>

theorem AllocateProcess_lowest:
  assumes "length t = PT_ENTRIES"
  shows "if pt_free t = {} then AllocateProcess parent t = Inl OutOfBounds
     else \<exists>t' k. AllocateProcess parent t = Inr (t', k) \<and> unat k = (LEAST i. i \<in> pt_free t) \<and>
       pt_free t' = pt_free t - {unat k} \<and> pt_parent_id (t' ! unat k) = parent \<and>
       (\<forall>i. i \<noteq> unat k \<longrightarrow> t' ! i = t ! i) \<and>
       (\<exists>t''. DeallocateProcess k t' = Inr t'' \<and> pt_free t'' = pt_free t)"
proof (cases "pt_free t = {}")
  case True
  have "unat (- 1 :: u8) = 255" by (simp add: unsigned_minus_1_eq_mask mask_eq_exp_minus_1)
  with True show ?thesis
    using assms next_free_id_loop_spec [OF assms, of 0]
    by (simp add: AllocateProcess_def NextFreeId_def PT_Process_def PT_ENTRIES_def)
next
  case False
  let ?k = "LEAST i. i \<in> pt_free t"
  have k: "?k \<in> pt_free t" using False by (metis LeastI_ex ex_in_conv)
  then have lt: "?k < PT_ENTRIES" using assms by (simp add: pt_free_def)
  then have u: "unat (of_nat ?k :: u8) = ?k" by (simp add: PT_ENTRIES_def unat_of_nat)
  have nxt: "NextFreeId t = Inr (of_nat ?k)"
    using False next_free_id_loop_spec [OF assms, of 0] by (auto simp: NextFreeId_def)
  let ?t = "t[?k := (t ! ?k)\<lparr>pt_present := True, pt_parent_id := parent\<rparr>]"
  have alloc: "AllocateProcess parent t = Inr (?t, of_nat ?k)"
    using nxt lt assms by (simp add: AllocateProcess_def PT_Process_nat u)
  have free: "pt_free ?t = pt_free t - {?k}" using lt assms by (simp add: pt_free_upd)
  have "DeallocateProcess (of_nat ?k) ?t = Inr (?t[?k := (?t ! ?k)\<lparr>pt_present := False\<rparr>])"
    using lt assms by (simp add: DeallocateProcess_def PT_Process_nat u)
  moreover have "pt_free (?t[?k := (?t ! ?k)\<lparr>pt_present := False\<rparr>]) = pt_free t"
    using k lt assms free by (subst pt_free_upd) auto
  ultimately show ?thesis
    using False alloc free lt assms u by auto
qed

definition half_full :: PTable where
  "half_full = map (\<lambda>i. \<lparr>pt_parent_id = 0, pt_present = i < 5\<rparr>) [0..<20]"

theorem AllocateProcess_lowest_witness:
  "\<exists>t'. AllocateProcess 3 half_full = Inr (t', 5) \<and> pt_free half_full \<noteq> {}"
proof -
  have ne: "5 \<in> pt_free half_full" by (simp add: pt_free_def half_full_def)
  have "(LEAST i. i \<in> pt_free half_full) = 5"
    by (rule Least_equality) (auto simp: pt_free_def half_full_def not_less)
  then obtain t' k where "AllocateProcess 3 half_full = Inr (t', k)" "unat k = 5"
    using AllocateProcess_lowest [of half_full 3] ne by (auto simp: half_full_def PT_ENTRIES_def split: if_splits)
  moreover from this(2) have "k = 5" by (simp add: word_unat_eq_iff)
  ultimately show ?thesis using ne by blast
qed

text \<open>
  The process manager never comes up: initialising it ends in a null dereference when the heap is out of memory
  for the root process, and otherwise in a write outside the new page table, because the kernel is mapped through a
  page number where an index into the table is meant; creating a process fails too, in every state.
\<close>

theorem ProcessManager_never_starts:
  "ProcessManager_Init kmalloc cr3 w = Inl (if fst (kmalloc (pm_heap w)) = 0 then NullDeref else OutOfBounds) \<and>
   (\<exists>e. CreateProcess kmalloc w = Inl e)"
proof
  show "ProcessManager_Init kmalloc cr3 w = Inl (if fst (kmalloc (pm_heap w)) = 0 then NullDeref else OutOfBounds)"
    by (simp add: ProcessManager_Init_def InitRootProcess_def pm_kmalloc_def take_id_def pm_update_def CreatePagetable_def
        proc_at_def ProcessManager_MapKernel_faults split_beta Let_def)
  have page: "\<exists>e. CreatePagetable kmalloc p v = Inl e" for p v
    by (simp add: CreatePagetable_def pm_kmalloc_def proc_at_def ProcessManager_MapKernel_faults guard_ptr_def
        split_beta Let_def)
  have "CreateProcess kmalloc w \<noteq> Inr r" for r
  proof
    assume "CreateProcess kmalloc w = Inr r"
    then obtain p v v' where "CreatePagetable kmalloc p v = Inr v'"
      by (auto simp: CreateProcess_def rbind_eq_Inr Let_def split: prod.splits)
    with page [of p v] show False by auto
  qed
  then show "\<exists>e. CreateProcess kmalloc w = Inl e" by (cases "CreateProcess kmalloc w") auto
qed

end
