(* ===== verification/Firmware.thy ===== *)
theory Firmware
  imports Paging Serial_Console "HOL-Library.While_Combinator"
begin

text \<open>
  The firmware tables (\<open>kernel/src/firmware/acpi\<close>), the entry of the kernel (\<open>kernel/src/main.cpp\<close>) and the first ATA
  driver (\<open>kernel/src/drivers/ataio\<close>).  The tables lie in maps from addresses, filled by the firmware; the port
  instructions of the ATA driver act on a device, which is a parameter.
\<close>

section \<open>Tables\<close>

record TableHeader =
  th_signature :: string
  th_length :: u32
  th_revision :: u8
  th_checksum :: u8
  th_oemId :: string
  th_oemTableId :: string
  th_oemRevision :: u32
  th_creatorId :: u32
  th_creatorRevision :: u32

definition PrintHeader :: "TableHeader \<Rightarrow> kitem list" where
  "PrintHeader h = map KChar (th_signature h)"

record Gas =
  gas_addressSpaceId :: u8
  gas_regBitWidth :: u8
  gas_regBitOffset :: u8
  gas_accessSize :: u8
  gas_address :: u64

definition AddressSpaceIdString :: "u8 \<Rightarrow> string result" where
  "AddressSpaceIdString i =
     (if i = 0 then Inr ''System Memory Space'' else if i = 1 then Inr ''System IO Space''
      else if i = 2 then Inr ''PCI Space'' else if i = 3 then Inr ''Embedded Controller'' else Inl AssertFailed)"

definition Gas_PrintValues :: "Gas \<Rightarrow> kitem list result" where
  "Gas_PrintValues g =
     rbind (AddressSpaceIdString (gas_addressSpaceId g)) (\<lambda>s. Inr
       [KStr ''Address Space: '', KStr s, newline,
        KStr ''Register Bit Width: '', KUnsigned (ucast (gas_regBitWidth g)), newline,
        KStr ''Register Bit Offset: '', KUnsigned (ucast (gas_regBitOffset g)), newline,
        KStr ''Address: '', KUnsigned (gas_address g), newline])"

record RsdpTable =
  rsdp_signature :: string
  rsdp_checksum :: u8
  rsdp_oemId :: string
  rsdp_revision :: u8
  rsdp_rsdtAddr :: u32
  rsdp_length :: u32
  rsdp_xsdtAddr :: u64

definition RSDP_SIG :: string where "RSDP_SIG = ''RSD PTR ''"
definition RSDT_SIG :: string where "RSDT_SIG = ''RSDT''"
definition XSDT_SIG :: string where "XSDT_SIG = ''XSDT''"
definition FADT_SIG :: string where "FADT_SIG = ''FACP''"
definition HPET_SIG :: string where "HPET_SIG = ''HPET''"

definition XsdtPresent :: "RsdpTable \<Rightarrow> bool" where "XsdtPresent r \<longleftrightarrow> rsdp_xsdtAddr r \<noteq> 0"

text \<open>
  What the firmware left in memory: root pointers and headers by address, and for the address of a root table the
  words that follow its header, read as the array \<open>tablePointers\<close>; nothing bounds the index.
\<close>

record acpi_memory =
  am_rsdp :: "addr \<Rightarrow> RsdpTable"
  am_header :: "addr \<Rightarrow> TableHeader"
  am_pointers :: "addr \<Rightarrow> nat \<Rightarrow> u32"
  am_gas :: "addr \<Rightarrow> Gas"

text \<open>The pointers to the two kinds of root table share a union.\<close>

record Acpi =
  ac_rsdp :: addr
  ac_root :: addr
  ac_fadt :: addr
  ac_hpet :: addr

definition header_at :: "acpi_memory \<Rightarrow> addr \<Rightarrow> TableHeader result" where
  "header_at m p = rbind (guard_ptr p) (\<lambda>_. Inr (am_header m p))"

definition VirtEntryHeader :: "KContext \<Rightarrow> acpi_memory \<Rightarrow> addr \<Rightarrow> nat \<Rightarrow> addr" where
  "VirtEntryHeader kc m rsdt i = PhysToVirtAddr kc (ucast (am_pointers m rsdt i))"

definition HpetTable_BaseAddress :: "acpi_memory \<Rightarrow> addr \<Rightarrow> u64 result" where
  "HpetTable_BaseAddress m hpet = rbind (guard_ptr hpet) (\<lambda>_. Inr (gas_address (am_gas m hpet)))"

text \<open>Both reports of the root table loop to the length of the table in bytes.\<close>

definition PrintTableLocations :: "KContext \<Rightarrow> acpi_memory \<Rightarrow> addr \<Rightarrow> kitem list" where
  "PrintTableLocations kc m rsdt =
     concat (map (\<lambda>i. [KStr ''i = : '', KUnsigned (of_nat i), newline, KStr ''Table Base: '',
        KUnsigned (PhysToVirtAddr kc (ucast (am_pointers m rsdt 0))), newline])
       [0..<unat (th_length (am_header m rsdt))]) @ [KStr ''fin'', newline]"

definition PrintTableHeaders :: "KContext \<Rightarrow> acpi_memory \<Rightarrow> addr \<Rightarrow> kitem list" where
  "PrintTableHeaders kc m rsdt =
     concat (map (\<lambda>i. let p = VirtEntryHeader kc m rsdt i
        in if p \<noteq> 0 then PrintHeader (am_header m p) @ [newline] else [])
       [0..<unat (th_length (am_header m rsdt))])"

section \<open>Finding the tables\<close>

definition InitialiseRoot :: "KContext \<Rightarrow> acpi_memory \<Rightarrow> addr \<Rightarrow> Acpi \<Rightarrow> Acpi result" where
  "InitialiseRoot kc m a acpi =
     rbind (guard_ptr a) (\<lambda>_.
       let rsdp = am_rsdp m a; acpi = acpi\<lparr>ac_rsdp := a\<rparr>
       in rbind (rassert (rsdp_signature rsdp = RSDP_SIG)) (\<lambda>_.
          if XsdtPresent rsdp
          then let acpi = acpi\<lparr>ac_root := rsdp_xsdtAddr rsdp\<rparr>
               in rbind (header_at m (ac_root acpi)) (\<lambda>h.
                  rbind (rassert (th_signature h = XSDT_SIG)) (\<lambda>_. Inr acpi))
          else let acpi = acpi\<lparr>ac_root := PhysToVirtAddr kc (ucast (rsdp_rsdtAddr rsdp))\<rparr>
               in rbind (header_at m (ac_root acpi)) (\<lambda>h.
                  rbind (rassert (th_signature h = RSDT_SIG)) (\<lambda>_.
                  rbind (rassert (th_length h = 0x38)) (\<lambda>_. Inr acpi)))))"

primrec table_loop :: "KContext \<Rightarrow> acpi_memory \<Rightarrow> nat list \<Rightarrow> Acpi \<Rightarrow> Acpi result" where
  "table_loop kc m [] acpi = Inr acpi"
| "table_loop kc m (i # is) acpi =
     (let p = VirtEntryHeader kc m (ac_root acpi) i
      in rbind (header_at m p) (\<lambda>h.
         rbind (if th_signature h = FADT_SIG
                then rbind (rassert (th_signature h = FADT_SIG)) (\<lambda>_. Inr (acpi\<lparr>ac_fadt := p\<rparr>)) else Inr acpi) (\<lambda>acpi.
         rbind (if th_signature h = HPET_SIG
                then rbind (rassert (th_signature h = HPET_SIG)) (\<lambda>_. Inr (acpi\<lparr>ac_hpet := p\<rparr>)) else Inr acpi) (\<lambda>acpi.
           table_loop kc m is acpi))))"

definition InitialiseTablePtrs :: "KContext \<Rightarrow> acpi_memory \<Rightarrow> Acpi \<Rightarrow> Acpi result" where
  "InitialiseTablePtrs kc m acpi =
     rbind (header_at m (ac_root acpi)) (\<lambda>h. table_loop kc m [0..<unat (th_length h)] acpi)"

definition Acpi_Initialise :: "KContext \<Rightarrow> acpi_memory \<Rightarrow> addr \<Rightarrow> Acpi \<Rightarrow> Acpi result" where
  "Acpi_Initialise kc m a acpi = rbind (InitialiseRoot kc m a acpi) (InitialiseTablePtrs kc m)"

section \<open>Entry of the kernel\<close>

text \<open>
  The kernel runs the global constructors and a sample, both parameters; the result is None where the processor is
  halted instead.  The test of the boot loader is the wrong way round.
\<close>

definition start :: "bool \<Rightarrow> ('s \<Rightarrow> 's) list \<Rightarrow> ('s \<Rightarrow> 's result) \<Rightarrow> 's \<Rightarrow> 's result option" where
  "start supported init_array sample s = (if supported then None else Some (sample (fold (\<lambda>f. f) init_array s)))"

section \<open>The first ATA driver\<close>

record 'd port_io =
  io_in :: "u16 \<Rightarrow> 'd \<Rightarrow> u8 \<times> 'd"
  io_out :: "u16 \<Rightarrow> u8 \<Rightarrow> 'd \<Rightarrow> 'd"

definition PrimaryDriveSelectPort :: u16 where "PrimaryDriveSelectPort = 0x1F6"
definition CommandPort :: u16 where "CommandPort = 0x1F7"
definition StatusPort :: u16 where "StatusPort = 0x1F7"

definition ata_select :: "'d port_io \<Rightarrow> 'd \<Rightarrow> 'd" where
  "ata_select io d =
     (let d = io_out io PrimaryDriveSelectPort 0xa0 d;
          d = ((\<lambda>d. snd (io_in io 0x1f7 d)) ^^ 15) d;
          d = fold (\<lambda>i. io_out io i 0) [0x1f2, 0x1f3, 0x1f4, 0x1f5] d
      in io_out io CommandPort 0xEC d)"

definition InitialiseAtaPio :: "'d port_io \<Rightarrow> u8 \<Rightarrow> u8 \<Rightarrow> 'd \<Rightarrow> 'd result" where
  "InitialiseAtaPio io drive bus d =
     (if bus = 0 \<and> drive = 0
      then let (answer, d) = io_in io StatusPort (ata_select io d)
           in if answer = 0 then Inr d
              else (case while_option (\<lambda>(status, d). status AND 0x80 \<noteq> 0) (\<lambda>(status, d). io_in io StatusPort d)
                      (io_in io StatusPort d) of
                      None \<Rightarrow> Inl Diverges
                    | Some (_, d) \<Rightarrow> Inr d)
      else Inr d)"

section \<open>Lemmas\<close>

definition entry_is :: "KContext \<Rightarrow> acpi_memory \<Rightarrow> addr \<Rightarrow> string \<Rightarrow> nat \<Rightarrow> bool" where
  "entry_is kc m root sig i \<longleftrightarrow> th_signature (am_header m (VirtEntryHeader kc m root i)) = sig"

definition last_entry :: "KContext \<Rightarrow> acpi_memory \<Rightarrow> addr \<Rightarrow> string \<Rightarrow> nat list \<Rightarrow> addr \<Rightarrow> addr" where
  "last_entry kc m root sig is old =
     (let hits = filter (entry_is kc m root sig) is in if hits = [] then old else VirtEntryHeader kc m root (last hits))"

lemma table_loop_last:
  assumes "\<forall>i\<in>set is. VirtEntryHeader kc m (ac_root acpi) i \<noteq> 0"
  shows "table_loop kc m is acpi = Inr (acpi\<lparr>ac_fadt := last_entry kc m (ac_root acpi) FADT_SIG is (ac_fadt acpi),
     ac_hpet := last_entry kc m (ac_root acpi) HPET_SIG is (ac_hpet acpi)\<rparr>)"
  using assms
proof (induction "is" arbitrary: acpi)
  case (Cons i "is")
  have "FADT_SIG \<noteq> HPET_SIG" by (simp add: FADT_SIG_def HPET_SIG_def)
  with Cons show ?case
    by (auto simp: header_at_def last_entry_def entry_is_def Let_def)
qed (simp add: last_entry_def)

section \<open>Properties\<close>

text \<open>
  Finding the tables takes the length of the root table in bytes for its number of entries: over a root table of
  56 bytes, which holds five pointers behind its header, 56 words are followed, and the last one of them that leads to
  a table with the signature is taken, be it in the table or behind it.
\<close>

theorem Acpi_follows_56_words:
  assumes "a \<noteq> 0" "rsdp_signature (am_rsdp m a) = RSDP_SIG" "rsdp_xsdtAddr (am_rsdp m a) = 0"
    and "root = PhysToVirtAddr kc (ucast (rsdp_rsdtAddr (am_rsdp m a)))" "root \<noteq> 0"
    and "th_signature (am_header m root) = RSDT_SIG" "th_length (am_header m root) = 56"
    and "\<forall>i<56. VirtEntryHeader kc m root i \<noteq> 0"
  shows "Acpi_Initialise kc m a acpi = Inr \<lparr>ac_rsdp = a, ac_root = root,
     ac_fadt = last_entry kc m root FADT_SIG [0..<56] (ac_fadt acpi),
     ac_hpet = last_entry kc m root HPET_SIG [0..<56] (ac_hpet acpi)\<rparr>"
proof -
  have root: "InitialiseRoot kc m a acpi = Inr (acpi\<lparr>ac_rsdp := a, ac_root := root\<rparr>)"
    using assms by (simp add: InitialiseRoot_def XsdtPresent_def header_at_def Let_def)
  have "table_loop kc m [0..<56] (acpi\<lparr>ac_rsdp := a, ac_root := root\<rparr>) =
     Inr (acpi\<lparr>ac_rsdp := a, ac_root := root, ac_fadt := last_entry kc m root FADT_SIG [0..<56] (ac_fadt acpi),
       ac_hpet := last_entry kc m root HPET_SIG [0..<56] (ac_hpet acpi)\<rparr>)"
    using assms(8) by (subst table_loop_last) (simp_all del: upt_rec_numeral)
  then show ?thesis
    using root assms(5,7) by (simp add: Acpi_Initialise_def InitialiseTablePtrs_def header_at_def del: upt_rec_numeral)
qed

text \<open>A machine whose only timer table is named by a word behind the root table.\<close>

definition some_acpi :: acpi_memory where
  "some_acpi =
     (let blank = \<lparr>th_signature = ''SSDT'', th_length = 0, th_revision = 0, th_checksum = 0, th_oemId = '''',
          th_oemTableId = '''', th_oemRevision = 0, th_creatorId = 0, th_creatorRevision = 0\<rparr>
      in \<lparr>am_rsdp = (\<lambda>_. \<lparr>rsdp_signature = RSDP_SIG, rsdp_checksum = 0, rsdp_oemId = '''', rsdp_revision = 0,
            rsdp_rsdtAddr = 0x1000, rsdp_length = 0, rsdp_xsdtAddr = 0\<rparr>),
          am_header = (\<lambda>p. if p = 0x1000 then blank\<lparr>th_signature := RSDT_SIG, th_length := 56\<rparr>
                           else if p = 0x3000 then blank\<lparr>th_signature := HPET_SIG\<rparr> else blank),
          am_pointers = (\<lambda>_ i. if i = 40 then 0x3000 else 0x2000),
          am_gas = (\<lambda>_. \<lparr>gas_addressSpaceId = 0, gas_regBitWidth = 0, gas_regBitOffset = 0, gas_accessSize = 0, gas_address = 0\<rparr>)\<rparr>)"

definition zero_context :: KContext where
  "zero_context = \<lparr>kc_kernelBase = 0, kc_hhdmOffset = 0\<rparr>"

theorem Acpi_follows_56_words_witness:
  "\<exists>r. Acpi_Initialise zero_context some_acpi 0x500 \<lparr>ac_rsdp = 0, ac_root = 0, ac_fadt = 0, ac_hpet = 0\<rparr> = Inr r \<and>
     ac_hpet r = 0x3000 \<and> ac_fadt r = 0"
proof -
  let ?a = "\<lparr>ac_rsdp = 0, ac_root = 0, ac_fadt = 0, ac_hpet = 0\<rparr>"
  have "filter (entry_is zero_context some_acpi 0x1000 HPET_SIG) [0..<56] = [40]"
      "filter (entry_is zero_context some_acpi 0x1000 FADT_SIG) [0..<56] = []"
    by (simp_all add: entry_is_def VirtEntryHeader_def PhysToVirtAddr_def zero_context_def some_acpi_def Let_def
        HPET_SIG_def FADT_SIG_def RSDT_SIG_def upt_rec)
  moreover have "VirtEntryHeader zero_context some_acpi 0x1000 40 = 0x3000"
    by (simp add: VirtEntryHeader_def PhysToVirtAddr_def zero_context_def some_acpi_def Let_def)
  moreover have "Acpi_Initialise zero_context some_acpi 0x500 ?a = Inr \<lparr>ac_rsdp = 0x500, ac_root = 0x1000,
     ac_fadt = last_entry zero_context some_acpi 0x1000 FADT_SIG [0..<56] (ac_fadt ?a),
     ac_hpet = last_entry zero_context some_acpi 0x1000 HPET_SIG [0..<56] (ac_hpet ?a)\<rparr>"
    by (rule Acpi_follows_56_words)
      (simp_all add: some_acpi_def VirtEntryHeader_def PhysToVirtAddr_def zero_context_def Let_def)
  ultimately show ?thesis by (simp add: last_entry_def Let_def del: upt_rec_numeral)
qed

end
