(* ===== verification/Firmware_Tables.thy ===== *)
theory Firmware_Tables
  imports Firmware
begin

text \<open>
  The bodies of the firmware tables (\<open>kernel/src/firmware/acpi/tables\<close>) and the signature checks on them.
\<close>

record FadtTable =
  fadt_header :: TableHeader
  fadt_firmwareCtrl :: u32
  fadt_dsdt :: u32
  fadt_reserved :: u8
  fadt_preferredProfile :: u8
  fadt_sciInt :: u16
  fadt_smiCmdPort :: u32
  fadt_acpiEnable :: u8
  fadt_acpiDisable :: u8

record HpetTable =
  hpet_header :: TableHeader
  hpet_hardwareid :: u32
  hpet_gasAddr :: Gas
  hpet_hpetNum :: u8
  hpet_minClockTick :: u16
  hpet_pageProtectionOemAttribute :: u8

datatype ControllerType = MadtLapic | MadtIoapic | MadtIntOverride | MadtNmi | MadtLapicNmi | MadtLapicAddrOveride
  | MadtIoSapic | MadtLSapic | MadtPlatformInterrupt | MadtLx2apic | MadtLx2apicNmi | MadtGicc | MadtGicd
  | MadtGicMsiFrame | MadtGicr | MadtIts | MadtReseverved

record MadtEntry =
  me_entryType :: u8
  me_entryLength :: u8

record MadtTable =
  madt_header :: TableHeader
  madt_lapicAddr :: u32
  madt_flags :: u32
  madt_entries :: addr

record Lapic =
  lapic_type :: u8
  lapic_length :: u8
  lapic_processorUid :: u8
  lapic_apicId :: u8
  lapic_flags :: u32

definition LAPIC_TYPE :: u8 where "LAPIC_TYPE = 0"
definition LAPIC_Enabled :: u32 where "LAPIC_Enabled = 1"
definition LAPIC_OnlineCapable :: u32 where "LAPIC_OnlineCapable = 2"

record Ioapic =
  ioapic_type :: u8
  ioapic_length :: u8
  ioapic_ioapicId :: u8
  ioapic_reserved :: u8
  ioapic_ioapicAddr :: u32
  ioapic_globalSystemInterruptBase :: u32

definition IOAPIC_TYPE :: u8 where "IOAPIC_TYPE = 1"

section \<open>Signatures\<close>

definition Rsdp_IsSignatureCorrect :: "RsdpTable \<Rightarrow> bool" where
  "Rsdp_IsSignatureCorrect t \<longleftrightarrow> rsdp_signature t = RSDP_SIG"

definition Rsdt_IsSignatureCorrect :: "TableHeader \<Rightarrow> bool" where
  "Rsdt_IsSignatureCorrect header \<longleftrightarrow> th_signature header = RSDT_SIG"

definition Xsdt_IsSignatureCorrect :: "TableHeader \<Rightarrow> bool" where
  "Xsdt_IsSignatureCorrect header \<longleftrightarrow> th_signature header = XSDT_SIG"

definition Fadt_IsSignatureCorrect :: "FadtTable \<Rightarrow> bool" where
  "Fadt_IsSignatureCorrect t \<longleftrightarrow> th_signature (fadt_header t) = FADT_SIG"

definition Hpet_IsSignatureCorrect :: "HpetTable \<Rightarrow> bool" where
  "Hpet_IsSignatureCorrect t \<longleftrightarrow> th_signature (hpet_header t) = HPET_SIG"

text \<open>No header passes the check of two tables, so the loop over the tables sets at most one pointer per entry.\<close>

lemma signatures_exclusive:
  "Rsdt_IsSignatureCorrect h \<Longrightarrow> \<not> Xsdt_IsSignatureCorrect h"
  "Fadt_IsSignatureCorrect f \<Longrightarrow> fadt_header f = hpet_header t \<Longrightarrow> \<not> Hpet_IsSignatureCorrect t"
  by (auto simp: Rsdt_IsSignatureCorrect_def Xsdt_IsSignatureCorrect_def Fadt_IsSignatureCorrect_def
      Hpet_IsSignatureCorrect_def RSDT_SIG_def XSDT_SIG_def FADT_SIG_def HPET_SIG_def)

lemma InitialiseRoot_checks_signatures:
  assumes "InitialiseRoot kc m a acpi = Inr acpi'"
  shows "Rsdp_IsSignatureCorrect (am_rsdp m a) \<and>
    (if XsdtPresent (am_rsdp m a) then Xsdt_IsSignatureCorrect (am_header m (ac_root acpi'))
     else Rsdt_IsSignatureCorrect (am_header m (ac_root acpi')))"
  using assms
  by (auto simp: InitialiseRoot_def rbind_eq_Inr header_at_def Let_def Rsdp_IsSignatureCorrect_def
      Rsdt_IsSignatureCorrect_def Xsdt_IsSignatureCorrect_def split: if_splits)

end
