(* ===== verification/Ahci_Port_Wait.thy ===== *)
theory Ahci_Port_Wait
  imports Ahci_Port "HOL-Library.While_Combinator"
begin

text \<open>
  The rest of a port (\<open>kernel/src/drivers/ahci/ahci_port\<close>): the register accessors, whose references are read and written
  through, and the wait for a received frame.  The hardware between two polls is a parameter.
\<close>

definition Port_Present :: "AhciPort \<Rightarrow> bool" where "Port_Present p = ap_present p"
definition Port_DmaRunning :: "AhciPort \<Rightarrow> bool" where "Port_DmaRunning p = ap_dmaRunning p"
definition Port_DevicePresent :: "AhciPort \<Rightarrow> bool" where "Port_DevicePresent p = ap_devicePresent p"
definition FisRecievedEnabled :: "AhciPort \<Rightarrow> bool" where "FisRecievedEnabled p = ap_fre p"

definition Port_IS :: "AhciPort \<Rightarrow> port_mem \<Rightarrow> u32 result" where
  "Port_IS p m = rbind (port_regs p m) (\<lambda>r. Inr (pr_is r))"

definition Port_IE :: "AhciPort \<Rightarrow> port_mem \<Rightarrow> u32 result" where
  "Port_IE p m = rbind (port_regs p m) (\<lambda>r. Inr (pr_ie r))"

definition CommandStatus :: "AhciPort \<Rightarrow> port_mem \<Rightarrow> u32 result" where
  "CommandStatus p m = rbind (port_regs p m) (\<lambda>r. Inr (pr_cmd r))"

definition SataActive :: "AhciPort \<Rightarrow> port_mem \<Rightarrow> u32 result" where
  "SataActive p m = rbind (port_regs p m) (\<lambda>r. Inr (pr_sact r))"

definition CommandIssue :: "AhciPort \<Rightarrow> port_mem \<Rightarrow> u32 result" where
  "CommandIssue p m = rbind (port_regs p m) (\<lambda>r. Inr (pr_ci r))"

definition CLBLow :: "AhciPort \<Rightarrow> port_mem \<Rightarrow> u32 result" where
  "CLBLow p m = rbind (port_regs p m) (\<lambda>r. Inr (pr_clistb r))"

definition CLBHigh :: "AhciPort \<Rightarrow> port_mem \<Rightarrow> u32 result" where
  "CLBHigh p m = rbind (port_regs p m) (\<lambda>r. Inr (pr_clistbu r))"

definition FisLow :: "AhciPort \<Rightarrow> port_mem \<Rightarrow> u32 result" where
  "FisLow p m = rbind (port_regs p m) (\<lambda>r. Inr (pr_fisb r))"

definition FisHigh :: "AhciPort \<Rightarrow> port_mem \<Rightarrow> u32 result" where
  "FisHigh p m = rbind (port_regs p m) (\<lambda>r. Inr (pr_fisbu r))"

definition WaitOnDHRS :: "(port_mem \<Rightarrow> port_mem) \<Rightarrow> AhciPort \<Rightarrow> port_mem \<Rightarrow> port_mem result" where
  "WaitOnDHRS hba p m =
     rbind (guard_ptr (ap_registers p)) (\<lambda>_.
       case while_option (\<lambda>m. pr_ie (m (ap_registers p)) AND 1 \<noteq> 0) hba m of
         None \<Rightarrow> Inl Diverges
       | Some m \<Rightarrow> Inr m)"

text \<open>
  The wait reads the enable register where a received frame shows in the status register: once the interrupt is enabled
  it never returns, whatever the device does with its status, as long as the device leaves the enable register alone.
\<close>

lemma WaitOnDHRS_diverges:
  assumes "ap_registers p \<noteq> 0" "bit (pr_ie (m (ap_registers p))) 0"
    and "\<And>m. pr_ie (hba m (ap_registers p)) = pr_ie (m (ap_registers p))"
  shows "WaitOnDHRS hba p m = Inl Diverges"
proof -
  let ?e = "\<lambda>m. pr_ie (m (ap_registers p))"
  have "?e ((hba ^^ k) m) = ?e m" for k by (induction k) (simp_all add: assms(3))
  moreover have "?e m AND 1 \<noteq> 0" using assms(2) by (simp add: and_one_eq bit_0 mod2_eq_if)
  ultimately have "while_option (\<lambda>m. ?e m AND 1 \<noteq> 0) hba m = None" by (simp add: while_option_def)
  with assms(1) show ?thesis by (simp add: WaitOnDHRS_def)
qed

lemma WaitOnDHRS_returns: "ap_registers p \<noteq> 0 \<Longrightarrow> \<not> bit (pr_ie (m (ap_registers p))) 0 \<Longrightarrow> WaitOnDHRS hba p m = Inr m"
  by (simp add: WaitOnDHRS_def and_one_eq bit_0 mod2_eq_if while_option_unfold)

end
