(* ===== verification/Spec2Isabelle.thy ===== *)
theory Spec2Isabelle
  imports Kernel_Prelude Memory_Map Page_Pool Page_Fuzzer Slab_Buffer_Free Slab_Allocator Kernel_Memory Slab_Double_Free Slab_Kernel_Tests Grains Page_Tables Serial_Console Interrupts Pic Apic Hpet Ahci_Fis Pci Ahci_Commands Slab2_Allocator Merofs_Boot Frame_Array Processes Firmware_Tables Ahci_Port_Wait
begin

text \<open>
  A model of the Chisaka kernel (\<open>src/kernel/src\<close>, a freestanding C++ kernel for x86-64) and what it guarantees.

  \<^bold>\<open>The program.\<close>  The boot loader's memory map is copied into a table (\<open>memmap\<close>).  From it the physical page allocator
  (\<open>ram/page_allocators/freelist.hpp\<close>) threads all useable pages into two free lists.  Two slab heaps
  (\<open>kheap/slab\<close>, \<open>kheap/slab_v2\<close>) take pages from it and cut them into buffers.  Beside the memory side stand the
  processor (\<open>x86_64\<close>: segments, paging, interrupt table, both interrupt controllers, timers), the devices (\<open>drivers\<close>:
  serial console, PCI, the AHCI disk controller, ATA), the firmware tables (\<open>firmware/acpi\<close>), a file system on a disk
  of the AHCI driver (\<open>fs/merofs\<close>) and the beginnings of processes (\<open>process\<close>, \<open>pom\<close>).

  \<^bold>\<open>How code becomes definitions.\<close>  Classes are records with the members in their order, integers are words of their width
  (\<open>u8\<close> to \<open>u64\<close>) and wrap, enumerations are datatypes.  A member function is a definition of its name over the state it
  touches; names that occur twice in the kernel carry a prefix of their class (\<open>Buffer_\<close>, \<open>L2_\<close>, \<open>PE_\<close>, \<open>UPE_\<close>, \<open>PT_\<close>).
  A function that can dereference null, fail an assertion, index out of range or run forever returns a \<open>result\<close>, whose
  left side is the fault.  Objects a pointer reaches lie in maps from addresses; the free lists the allocators thread
  through free memory lie in a memory of 64-bit cells, and \<open>lseg\<close> and \<open>chain\<close> of \<open>Kernel_Prelude\<close> read a list off it.

  \<^bold>\<open>Loops.\<close>  Counted loops are structural recursion or folds.  A walk along a linked list has the fuel \<open>walk_fuel\<close> = 2^64:
  a list that ends in null has distinct cells, so it has less than 2^64 of them (\<open>chain_length_fuel\<close>), and running out of
  fuel means that the walk has met a cell twice and never returns; it is the fault \<open>Diverges\<close>.  Polls of a device, and
  walks over a graph of objects that may be cyclic, are \<open>partial_function (option)\<close> or \<open>while_option\<close>, with None for a
  loop that does not end; that the code returns is stated in the properties.

  \<^bold>\<open>Theories and files.\<close>
  \<^item> \<open>Kernel_Prelude\<close>: types, faults, results, memory, list segments.  \<open>Bit_Fields\<close>: equalities of packed words, bit by
    bit.  \<open>Ring\<close>: circular doubly linked lists, written once over the accessors of the links.
  \<^item> \<open>Memory_Map\<close>: \<open>memmap/memory_map.cpp\<close> and its entry: the table and its queries.
  \<^item> \<open>Page_Freelist\<close> holds the definitions of \<open>freelist.hpp\<close>; \<open>Page_Freelist_Init\<close>, \<open>Page_Freelist_Ops\<close> and
    \<open>Page_Freelist_Runs\<close> prove what initialisation, single pages and runs of pages do to the lists; \<open>Page_Pool\<close> states the
    client's contract and the conservation of pages; \<open>Page_Spec\<close> is the abstract allocator and its simulation.
    \<open>Fuzz_Checks\<close> and \<open>Page_Fuzzer\<close>: the fuzzer of the page allocator (\<open>kernel/unit_tests/allocators/page_allocator/fuzzing\<close>)
    and its integrity checks, run against the model of the allocator.
  \<^item> \<open>Slab_List\<close>, \<open>Slab_Buffer\<close>, \<open>Slab_Buffer_Inv\<close>, \<open>Slab_Buffer_Free\<close>, \<open>Slab_Allocator\<close>: \<open>kheap/slab\<close>, from one slab to
    the heap's front end; \<open>Slab_Double_Free\<close>: a buffer returned twice.  \<open>Slab2_List\<close>, \<open>Slab2_Queue\<close>, \<open>Slab2_Allocator\<close>: the
    same for \<open>kheap/slab_v2\<close>.  \<open>Kernel_Memory\<close>: \<open>ram/ram.hpp\<close>, \<open>kheap/kheap.hpp\<close>, \<open>palloc.hpp\<close> and \<open>kmalloc.hpp\<close>, the page
    allocator and the first heap put together as the kernel boots them.
  \<^item> The tests of the first heap, run on the model.  \<open>Slab_Tests\<close> has the test framework (a state monad with a weakest
    precondition) and the test cases of linkage, \<open>Slab_Tests_Memory\<close> those of allocation and memory patterns
    (\<open>kernel/unit_tests/slab\<close>).  The tests of buffers are scripts: \<open>Slab_Tests_World\<close> describes the state of a test by a list
    of slabs, \<open>Slab_Scripts\<close> has the commands, their meaning and a planner that follows a script on numbers,
    \<open>Slab_Plans\<close> proves that what the planner accepts passes at all addresses, and \<open>Slab_Tests_Buffer\<close> and
    \<open>Slab_Kernel_Tests\<close> (\<open>kheap/slab/tests\<close>) hold the scripts.  The loop over the addresses of a page has fuel for its 512
    steps and the last comparison.  \<open>Grains\<close>: the run-time tests of descriptors (\<open>grains\<close>).
  \<^item> \<open>Segments\<close>, \<open>Segments_Manager\<close>, \<open>Paging\<close>, \<open>Page_Tables\<close>, \<open>Interrupts\<close>, \<open>Pic\<close>, \<open>Apic\<close>, \<open>Hpet\<close>: \<open>x86_64/segments\<close>, \<open>paging\<close>, \<open>interrupts\<close>,
    \<open>interrupts/controllers\<close>, \<open>features\<close> and \<open>timers\<close>.
  \<^item> \<open>Serial_Console\<close>, \<open>Pci\<close>: \<open>drivers/serial\<close>, \<open>drivers/pci\<close>.  \<open>Ahci_Fis\<close> has the structures of \<open>drivers/ahci\<close>,
    \<open>Ahci_Port\<close> and \<open>Ahci_Port_Wait\<close> a port, \<open>Ahci_Driver\<close> the driver, \<open>Ahci_Commands\<close> what its commands guarantee.
  \<^item> \<open>fs/merofs\<close>: \<open>Merofs_Fd\<close> has the descriptor table.  \<open>Merofs_Memory\<close> has the byte memory, the disks and the heap the
    file system manager works in, and derives what the driver's write of a sector does; \<open>Merofs\<close> the manager and its
    loops, \<open>Merofs_Format\<close> formatting as a whole, \<open>Merofs_Boot\<close> the manager on the kernel's own heap.
  \<^item> \<open>Frame_Array\<close>: \<open>ram/frame_array\<close>.  \<open>Processes\<close>: \<open>process\<close> and \<open>pom/containers\<close>.  \<open>Firmware\<close>, \<open>Firmware_Tables\<close>: \<open>firmware/acpi\<close>, \<open>main.cpp\<close> and \<open>drivers/ataio.cpp\<close>.

  \<^bold>\<open>Interfaces.\<close>  \<open>page_source\<close> (pages come from a set of free ones and go back to it) is interpreted by the page allocator,
  by a slab and by a slab buffer of the first heap, and its clients' lemmas (a client that takes n pages gets n different
  ones) hold for all three.  \<open>fuzz_target\<close> extends it with what the fuzzer's checks ask of an
  allocator and is interpreted by the page allocator.  \<open>ring_links\<close> (the laws of the link accessors) is interpreted by the slab descriptors, the slab buffers and the
  descriptors of the second heap.  \<open>entry_flag\<close> (setting a flag sets it and nothing else the address shows) is
  interpreted by every flag of both kinds of page table entries.  \<open>buffer_queue\<close> (a first-in first-out pool) is
  interpreted by a page of the second heap.

  \<^bold>\<open>What is shown.\<close>
  \<^item> Pages: initialisation builds exactly the lists the map calls for; allocation and return keep them sorted and free of
    duplicates; no page is lost or given to two owners under any interleaving of clients; the lists refine a
    specification over sets of pages.  One condition is needed that the code does not check: a returned page whose first
    word is not clear, put behind a single free page, corrupts the list (\<open>DeallocPage_stale_link\<close>).
    A campaign of the fuzzer passes every round, and its checks decide sortedness and freedom of cycles, but the check
    for duplicates is a test for the head only and may not return.
  \<^item> Heaps: a slab hands out distinct buffers in range and takes them back in order; a buffer keeps each slab on the list
    of its fill level, and its objects are neither lost nor served twice; a buffer returned twice is served again and
    again; what kmalloc serves after boot lies in the page the heap was given; where the code leaves this (a page of the second heap has one cell too many, a new size is not
    served, a walk over the partial slabs does not end) the theorem says so.  A page of the second heap refines a queue.
    The test cases of the first heap pass, except two: one is a placeholder, one expects a size the code does not set.
  \<^item> Processor: a user page mapped through four levels translates to its frame; packed descriptors read back; the
    interrupt table, whose 256 gates are constructed first, holds the handlers installed in it; masking a line
    of the interrupt controller masks that line only.
  \<^item> Devices: if the hardware finishes commands, sector reads and writes return, and the command in the slot was the right
    one; the frames decode to the sector asked for; two faults of bus enumeration and of the port memory are proved.
  \<^item> File system: if the controller performs writes and the heap serves its objects, formatting succeeds, the disk reads
    back through the manager's own address functions, the bytes behind the data block object are overwritten, and the list
    of free inodes runs into the data blocks.  A null object faults, and the kernel's own heap has only null to give.
  \<^item> Firmware, frames, processes: the bounds these parts overrun, and the process table's choice of identifiers.

  \<^bold>\<open>Parameters.\<close>  The boot loader's answers, the processor instructions (\<open>cpuid\<close>, port input, control registers, interrupt
  stubs), the hardware between two polls of a register, the allocator functions handed to a component, the memory
  functions of the \<open>aii\<close> library, the random generator of the fuzzer and the order in which its set is iterated, and the contents of fresh memory are arguments of the definitions.  What is assumed of
  them is a hypothesis of the property, and its witness gives an instance.

  The controller's obligation to the file system (\<open>performs_writes\<close>) is that a write it is issued ends, puts the buffer's
  512 bytes on the sector and changes no other memory than its receive area.

  \<^bold>\<open>Not modelled.\<close>  Assembly routines and what only declares them; printing of tables to the serial log, apart from the
  printers themselves; functions declared and never defined, or with an empty body; the structures of \<open>limine\<close>, the
  runtime stubs of \<open>itanium\<close>; the experiments of \<open>grains\<close> that use
  removed interfaces or only touch the processor, the \<open>samples\<close>, the tests that call removed interfaces or wait for one
  particular memory map, and the vendored \<open>doctest.h\<close>.
  The descriptor table's chunks, the tables and headers of commands and the bytes of the file system's buffers lie in
  separate stores, so a write to one of them does not show in another.
  The cell memory does not know the size of objects: two structures overlap in the model only where their addresses are
  equal.  Timing, interrupts between two statements and the write-combining of device memory are not part of the model.
\<close>

end
